(* ===== verification/Prelude.thy ===== *)
theory Prelude
  imports Complex_Main "HOL-Library.AList" "HOL-Library.List_Lexorder" "HOL-Library.Char_ord"
begin

text \<open>
  Shared vocabulary of the development: fallible computations as sums, JavaScript numbers,
  stable sorting with a comparator function, and the list lemmas the component theories use.
  Strings are \<open>char list\<close>; the order \<open><\<close> on them (from \<open>List_Lexorder\<close> and \<open>Char_ord\<close>) is
  the code-unit order of JavaScript's \<open><\<close> and of \<open>Array.prototype.sort\<close> without a comparator.
\<close>

named_theorems res_simps \<open>rules that evaluate fallible computations\<close>

section \<open>Fallible computations\<close>

text \<open>A function that may throw returns \<open>Inl\<close> of the error or \<open>Inr\<close> of the value.\<close>

definition bindR :: "'e + 'a \<Rightarrow> ('a \<Rightarrow> 'e + 'b) \<Rightarrow> 'e + 'b" where
  "bindR r f = (case r of Inl e \<Rightarrow> Inl e | Inr x \<Rightarrow> f x)"

definition thenR :: "'e + 'a \<Rightarrow> 'e + 'b \<Rightarrow> 'e + 'b" where
  "thenR r k = bindR r (\<lambda>_. k)"

definition mapErr :: "('e \<Rightarrow> 'f) \<Rightarrow> 'e + 'a \<Rightarrow> 'f + 'a" where
  "mapErr g r = (case r of Inl e \<Rightarrow> Inl (g e) | Inr x \<Rightarrow> Inr x)"

text \<open>A row of guards \<open>if (c) throw e;\<close>: the first that holds decides.\<close>

fun checks :: "(bool \<times> 'e) list \<Rightarrow> 'e + unit" where
  "checks [] = Inr ()"
| "checks ((c, e) # cs) = (if c then Inl e else checks cs)"

text \<open>\<open>for (const x of xs) f(x)\<close> where \<open>f\<close> may throw.\<close>

fun forEach :: "('a \<Rightarrow> 'e + unit) \<Rightarrow> 'a list \<Rightarrow> 'e + unit" where
  "forEach f [] = Inr ()"
| "forEach f (x # xs) = thenR (f x) (forEach f xs)"

text \<open>A loop that carries a state and may throw.\<close>

fun foldR :: "('s \<Rightarrow> 'a \<Rightarrow> 'e + 's) \<Rightarrow> 's \<Rightarrow> 'a list \<Rightarrow> 'e + 's" where
  "foldR f s [] = Inr s"
| "foldR f s (x # xs) = bindR (f s x) (\<lambda>s'. foldR f s' xs)"

fun mapR :: "('a \<Rightarrow> 'e + 'b) \<Rightarrow> 'a list \<Rightarrow> 'e + 'b list" where
  "mapR f [] = Inr []"
| "mapR f (x # xs) = bindR (f x) (\<lambda>y. bindR (mapR f xs) (\<lambda>ys. Inr (y # ys)))"

lemma bindR_simps [simp, res_simps]:
  "bindR (Inl e) f = Inl e" "bindR (Inr x) f = f x"
  by (simp_all add: bindR_def)

lemma bindR_Inr_iff [simp]: "bindR r f = Inr y \<longleftrightarrow> (\<exists>x. r = Inr x \<and> f x = Inr y)"
  by (cases r) simp_all

lemma thenR_simps [simp, res_simps]:
  "thenR (Inl e) k = Inl e" "thenR (Inr x) k = k"
  by (simp_all add: thenR_def)

lemma thenR_Inr_iff [simp]: "thenR r k = Inr y \<longleftrightarrow> (\<exists>x. r = Inr x) \<and> k = Inr y"
  by (cases r) auto

text \<open>Where an error comes from.\<close>

lemma bindR_Inl_iff: "bindR r f = Inl e \<longleftrightarrow> r = Inl e \<or> (\<exists>x. r = Inr x \<and> f x = Inl e)"
  by (cases r) simp_all

lemma thenR_Inl_iff: "thenR r k = Inl e \<longleftrightarrow> r = Inl e \<or> (\<exists>x. r = Inr x) \<and> k = Inl e"
  by (cases r) simp_all

lemma checks_InlD: "checks cs = Inl e \<Longrightarrow> e \<in> snd ` set cs"
  by (induction cs) (auto split: if_splits)

lemma mapErr_simps [simp, res_simps]:
  "mapErr g (Inl e) = Inl (g e)" "mapErr g (Inr x) = Inr x"
  by (simp_all add: mapErr_def)

lemma mapErr_Inr_iff [simp]: "mapErr g r = Inr y \<longleftrightarrow> r = Inr y"
  by (cases r) simp_all

lemma Inr_unit_ex [simp]: "(\<exists>x::unit. r = Inr x) \<longleftrightarrow> r = Inr ()"
  by auto

lemma checks_Inr_iff: "checks cs = Inr u \<longleftrightarrow> (\<forall>(c, e) \<in> set cs. \<not> c)"
  by (induction cs rule: checks.induct) auto

lemma forEach_Inr_iff [simp]: "forEach f xs = Inr u \<longleftrightarrow> (\<forall>x \<in> set xs. f x = Inr ())"
  by (induction xs) auto

lemma foldR_append: "foldR f s (xs @ ys) = bindR (foldR f s xs) (\<lambda>s'. foldR f s' ys)"
proof (induction xs arbitrary: s)
  case Nil
  then show ?case by simp
next
  case (Cons x xs)
  then show ?case by (cases "f s x") simp_all
qed

text \<open>An invariant of the loop body is an invariant of the loop.\<close>

lemma foldR_invariant:
  assumes "foldR f s xs = Inr t" and "P s"
    and "\<And>s x s'. x \<in> set xs \<Longrightarrow> P s \<Longrightarrow> f s x = Inr s' \<Longrightarrow> P s'"
  shows "P t"
  using assms
proof (induction xs arbitrary: s)
  case Nil
  then show ?case by simp
next
  case (Cons x xs)
  from Cons.prems(1) obtain s' where s': "f s x = Inr s'" and rest: "foldR f s' xs = Inr t"
    by auto
  from Cons.prems(2,3) s' have "P s'" by auto
  from rest this Cons.prems(3) show ?case by (rule Cons.IH) auto
qed

lemma mapR_Inr_length: "mapR f xs = Inr ys \<Longrightarrow> length ys = length xs"
  by (induction xs arbitrary: ys) auto

lemma mapR_Inr_iff: "mapR f xs = Inr ys \<longleftrightarrow> list_all2 (\<lambda>x y. f x = Inr y) xs ys"
  by (induction xs arbitrary: ys) (auto simp: list_all2_Cons1)

section \<open>JavaScript numbers\<close>

text \<open>
  A JavaScript number is a finite double, an infinity or NaN. Finite doubles are rationals, so
  comparisons between them are exact. Only comparisons are modelled here: where the code adds
  numbers it has first checked that they are safe integers, on which addition is exact up to
  the safe-integer check of the sum that follows it.
\<close>

datatype jsnum = Fin rat | PosInf | NegInf | NaN

fun is_finite :: "jsnum \<Rightarrow> bool" where
  "is_finite (Fin _) = True"
| "is_finite _ = False"

definition max_safe_integer :: int where
  "max_safe_integer = 9007199254740991"

definition safe_int :: "int \<Rightarrow> bool" where
  "safe_int i \<longleftrightarrow> \<bar>i\<bar> \<le> max_safe_integer"

fun is_safe_integer :: "jsnum \<Rightarrow> bool" where
  "is_safe_integer (Fin q) = (of_int \<lfloor>q\<rfloor> = q \<and> safe_int \<lfloor>q\<rfloor>)"
| "is_safe_integer _ = False"

text \<open>The integer of a number that passed \<open>Number.isSafeInteger\<close>.\<close>

fun to_int :: "jsnum \<Rightarrow> int" where
  "to_int (Fin q) = \<lfloor>q\<rfloor>"
| "to_int _ = 0"

abbreviation num_of_int :: "int \<Rightarrow> jsnum" where
  "num_of_int i \<equiv> Fin (of_int i)"

fun num_lt :: "jsnum \<Rightarrow> jsnum \<Rightarrow> bool" where
  "num_lt (Fin a) (Fin b) = (a < b)"
| "num_lt NegInf (Fin _) = True"
| "num_lt NegInf PosInf = True"
| "num_lt (Fin _) PosInf = True"
| "num_lt _ _ = False"

fun num_eq :: "jsnum \<Rightarrow> jsnum \<Rightarrow> bool" where
  "num_eq NaN _ = False"
| "num_eq a b = (a = b)"

definition num_le :: "jsnum \<Rightarrow> jsnum \<Rightarrow> bool" where
  "num_le a b \<longleftrightarrow> num_lt a b \<or> num_eq a b"

lemma num_le_Fin [simp]: "num_le (Fin a) (Fin b) \<longleftrightarrow> a \<le> b"
  by (auto simp: num_le_def)

lemma num_le_refl: "x \<noteq> NaN \<Longrightarrow> num_le x x"
  by (cases x) (auto simp: num_le_def)

lemma num_le_trans: "num_le a b \<Longrightarrow> num_le b c \<Longrightarrow> num_le a c"
  by (cases a; cases b; cases c) (auto simp: num_le_def)

lemma num_lt_le: "num_lt a b \<Longrightarrow> num_le a b"
  by (simp add: num_le_def)

lemma not_num_lt_le: "is_finite a \<Longrightarrow> is_finite b \<Longrightarrow> \<not> num_lt a b \<longleftrightarrow> num_le b a"
  by (cases a; cases b) auto

lemma is_finite_iff: "is_finite x \<longleftrightarrow> (\<exists>q. x = Fin q)"
  by (cases x) auto

lemma safe_integer_finite: "is_safe_integer x \<Longrightarrow> is_finite x"
  by (cases x) auto

lemma safe_integer_to_int: "is_safe_integer x \<Longrightarrow> x = num_of_int (to_int x)"
  by (cases x) auto

lemma safe_integer_of_int [simp]: "is_safe_integer (num_of_int i) \<longleftrightarrow> safe_int i"
  by simp

lemma to_int_of_int [simp]: "to_int (num_of_int i) = i"
  by simp

section \<open>Objects as association lists\<close>

text \<open>
  A \<open>Record<string, T>\<close> and a \<open>Map\<close> are association lists in insertion order: \<open>map_of\<close> reads,
  \<open>AList.update\<close> overwrites in place or appends, as both JavaScript containers do.
\<close>

type_synonym 'a dict = "(string \<times> 'a) list"

definition has_key :: "('k \<times> 'v) list \<Rightarrow> 'k \<Rightarrow> bool" where
  "has_key d k \<longleftrightarrow> map_of d k \<noteq> None"

lemma has_key_iff: "has_key d k \<longleftrightarrow> k \<in> fst ` set d"
  by (auto simp: has_key_def map_of_eq_None_iff)

section \<open>Stable sorting with a comparator function\<close>

text \<open>
  \<open>Array.prototype.sort(cmp)\<close>: \<open>cmp a b < 0\<close> puts \<open>a\<close> first, and equal elements keep their
  order (the sort is stable since ES2019). Any stable sort gives this result when \<open>cmp\<close> is a
  consistent comparator.
\<close>

fun js_insert :: "('a \<Rightarrow> 'a \<Rightarrow> int) \<Rightarrow> 'a \<Rightarrow> 'a list \<Rightarrow> 'a list" where
  "js_insert cmp x [] = [x]"
| "js_insert cmp x (y # ys) = (if cmp x y \<le> 0 then x # y # ys else y # js_insert cmp x ys)"

fun js_sort :: "('a \<Rightarrow> 'a \<Rightarrow> int) \<Rightarrow> 'a list \<Rightarrow> 'a list" where
  "js_sort cmp [] = []"
| "js_sort cmp (x # xs) = js_insert cmp x (js_sort cmp xs)"

lemma set_js_insert [simp]: "set (js_insert cmp x xs) = insert x (set xs)"
  by (induction xs) auto

lemma set_js_sort [simp]: "set (js_sort cmp xs) = set xs"
  by (induction xs) auto

lemma length_js_insert [simp]: "length (js_insert cmp x xs) = Suc (length xs)"
  by (induction xs) auto

lemma length_js_sort [simp]: "length (js_sort cmp xs) = length xs"
  by (induction xs) auto

lemma distinct_js_insert: "distinct (js_insert cmp x xs) \<longleftrightarrow> x \<notin> set xs \<and> distinct xs"
  by (induction xs) auto

lemma distinct_js_sort [simp]: "distinct (js_sort cmp xs) \<longleftrightarrow> distinct xs"
  by (induction xs) (auto simp: distinct_js_insert)

definition consistent_cmp :: "('a \<Rightarrow> 'a \<Rightarrow> int) \<Rightarrow> bool" where
  "consistent_cmp cmp \<longleftrightarrow> (\<forall>x y. cmp x y \<le> 0 \<or> cmp y x \<le> 0)
     \<and> (\<forall>x y z. cmp x y \<le> 0 \<longrightarrow> cmp y z \<le> 0 \<longrightarrow> cmp x z \<le> 0)"

lemma sorted_js_insert:
  assumes "consistent_cmp cmp" and "sorted_wrt (\<lambda>a b. cmp a b \<le> 0) xs"
  shows "sorted_wrt (\<lambda>a b. cmp a b \<le> 0) (js_insert cmp x xs)"
  using assms(2)
proof (induction xs)
  case Nil
  then show ?case by simp
next
  case (Cons y ys)
  from assms(1) have trans: "cmp a b \<le> 0 \<Longrightarrow> cmp b c \<le> 0 \<Longrightarrow> cmp a c \<le> 0" for a b c
    unfolding consistent_cmp_def by blast
  from assms(1) have total: "\<not> cmp x y \<le> 0 \<Longrightarrow> cmp y x \<le> 0"
    unfolding consistent_cmp_def by blast
  show ?case
  proof (cases "cmp x y \<le> 0")
    case True
    with Cons.prems trans show ?thesis by auto
  next
    case False
    with Cons total show ?thesis by auto
  qed
qed

lemma sorted_js_sort:
  "consistent_cmp cmp \<Longrightarrow> sorted_wrt (\<lambda>a b. cmp a b \<le> 0) (js_sort cmp xs)"
  by (induction xs) (simp_all add: sorted_js_insert)

text \<open>Sorting with a comparator that separates the elements depends only on their set.\<close>

definition separating_on :: "'a set \<Rightarrow> ('a \<Rightarrow> 'a \<Rightarrow> int) \<Rightarrow> bool" where
  "separating_on S cmp \<longleftrightarrow>
     (\<forall>x \<in> S. \<forall>y \<in> S. cmp x y \<le> 0 \<or> cmp y x \<le> 0)
     \<and> (\<forall>x \<in> S. \<forall>y \<in> S. \<forall>z \<in> S. cmp x y \<le> 0 \<longrightarrow> cmp y z \<le> 0 \<longrightarrow> cmp x z \<le> 0)
     \<and> (\<forall>x \<in> S. \<forall>y \<in> S. cmp x y \<le> 0 \<longrightarrow> cmp y x \<le> 0 \<longrightarrow> x = y)"

lemma separating_onD:
  assumes "separating_on S cmp"
  shows "x \<in> S \<Longrightarrow> y \<in> S \<Longrightarrow> \<not> cmp x y \<le> 0 \<Longrightarrow> cmp y x \<le> 0"
    and "x \<in> S \<Longrightarrow> y \<in> S \<Longrightarrow> z \<in> S \<Longrightarrow> cmp x y \<le> 0 \<Longrightarrow> cmp y z \<le> 0 \<Longrightarrow> cmp x z \<le> 0"
    and "x \<in> S \<Longrightarrow> y \<in> S \<Longrightarrow> cmp x y \<le> 0 \<Longrightarrow> cmp y x \<le> 0 \<Longrightarrow> x = y"
  using assms unfolding separating_on_def by blast+

lemma separating_on_subset: "separating_on S cmp \<Longrightarrow> T \<subseteq> S \<Longrightarrow> separating_on T cmp"
  unfolding separating_on_def by blast

lemma sorted_js_insert_on:
  assumes sep: "separating_on S cmp" and "insert x (set xs) \<subseteq> S"
    and "sorted_wrt (\<lambda>a b. cmp a b \<le> 0) xs"
  shows "sorted_wrt (\<lambda>a b. cmp a b \<le> 0) (js_insert cmp x xs)"
  using assms(2,3)
proof (induction xs)
  case Nil
  then show ?case by simp
next
  case (Cons y ys)
  show ?case
  proof (cases "cmp x y \<le> 0")
    case True
    have "cmp x z \<le> 0" if "z \<in> set ys" for z
      using separating_onD(2) [OF sep, of x y z] Cons.prems True that by auto
    with True Cons.prems show ?thesis by auto
  next
    case False
    then have "cmp y x \<le> 0" using separating_onD(1) [OF sep, of x y] Cons.prems by auto
    with False Cons show ?thesis by auto
  qed
qed

lemma sorted_js_sort_on:
  "separating_on S cmp \<Longrightarrow> set xs \<subseteq> S \<Longrightarrow> sorted_wrt (\<lambda>a b. cmp a b \<le> 0) (js_sort cmp xs)"
  by (induction xs) (simp_all add: sorted_js_insert_on)

lemma sorted_on_unique:
  assumes "separating_on S cmp" and "set xs \<subseteq> S"
    and "sorted_wrt (\<lambda>a b. cmp a b \<le> 0) xs" and "sorted_wrt (\<lambda>a b. cmp a b \<le> 0) ys"
    and "distinct xs" and "distinct ys" and "set xs = set ys"
  shows "xs = ys"
  using assms(2-)
proof (induction xs arbitrary: ys)
  case Nil
  then show ?case by simp
next
  case (Cons x xs)
  then obtain y zs where ys: "ys = y # zs" by (cases ys) auto
  have xy: "x = y"
  proof (rule ccontr)
    assume "x \<noteq> y"
    with Cons.prems ys have "x \<in> set zs" "y \<in> set xs" by auto
    with Cons.prems ys have "cmp y x \<le> 0" "cmp x y \<le> 0" "x \<in> S" "y \<in> S" by auto
    with \<open>x \<noteq> y\<close> show False using separating_onD(3) [OF assms(1)] by blast
  qed
  have "set xs = set zs" using Cons.prems ys xy by auto
  then have "xs = zs" by (intro Cons.IH) (use Cons.prems ys in auto)
  with xy ys show ?case by simp
qed

lemma js_sort_set_eq:
  assumes "separating_on (set xs) cmp" and "distinct xs" and "distinct ys" and "set xs = set ys"
  shows "js_sort cmp xs = js_sort cmp ys"
  by (rule sorted_on_unique [OF assms(1)])
    (use assms sorted_js_sort_on [OF assms(1), of xs] sorted_js_sort_on [OF assms(1), of ys] in simp_all)

text \<open>The comparator \<open>a < b ? -1 : a > b ? 1 : 0\<close> separates everything.\<close>

definition code_unit_compare :: "'a::linorder \<Rightarrow> 'a \<Rightarrow> int" where
  "code_unit_compare a b = (if a < b then - 1 else if b < a then 1 else 0)"

lemma code_unit_compare_le [simp]: "code_unit_compare a b \<le> 0 \<longleftrightarrow> a \<le> b"
  by (auto simp: code_unit_compare_def)

lemma separating_code_unit: "separating_on S code_unit_compare"
  by (auto simp: separating_on_def)

section \<open>Pins\<close>

text \<open>\<open>ArtifactPin\<close>: an artifact by id and version, with the digest of its content.\<close>

record artifact_pin =
  pin_id :: string
  pin_version :: string
  pin_digest :: string

section \<open>Conditional entries\<close>

text \<open>\<open>if (c) xs.push(x)\<close>.\<close>

definition push_if :: "bool \<Rightarrow> 'a \<Rightarrow> 'a list" where
  "push_if c x = (if c then [x] else [])"

lemma push_if_Nil_iff [simp]: "push_if c x = [] \<longleftrightarrow> \<not> c"
  by (simp add: push_if_def)

lemma set_push_if [simp]: "set (push_if c x) = (if c then {x} else {})"
  by (cases c) (simp_all add: push_if_def)

section \<open>Optional values\<close>

text \<open>A test of an optional member: \<open>x !== undefined && P(x)\<close>.\<close>

definition opt_holds :: "('a \<Rightarrow> bool) \<Rightarrow> 'a option \<Rightarrow> bool" where
  "opt_holds P x = (case x of None \<Rightarrow> False | Some v \<Rightarrow> P v)"

text \<open>\<open>x ?? d\<close>.\<close>

definition opt_default :: "'a option \<Rightarrow> 'a \<Rightarrow> 'a" where
  "opt_default x d = (case x of None \<Rightarrow> d | Some v \<Rightarrow> v)"

lemma opt_holds_simps [simp]: "\<not> opt_holds P None" "opt_holds P (Some v) \<longleftrightarrow> P v"
  by (simp_all add: opt_holds_def)

lemma opt_default_simps [simp]: "opt_default None d = d" "opt_default (Some v) d = v"
  by (simp_all add: opt_default_def)

lemma opt_holds_iff: "opt_holds P x \<longleftrightarrow> (\<exists>v. x = Some v \<and> P v)"
  by (cases x) simp_all

section \<open>Sets built from lists\<close>

text \<open>\<open>new Set(xs).size !== xs.length\<close> says that \<open>xs\<close> has a repeated element.\<close>

lemma set_size_distinct: "card (set xs) = length xs \<longleftrightarrow> distinct xs"
  by (rule card_distinct [THEN iffI, rotated]) (auto simp: distinct_card)

end
