(* ===== verification/JsNumber.thy ===== *)
theory JsNumber
  imports Prelude "HOL-Library.Log_Nat"
begin

text \<open>
  Arithmetic on JavaScript numbers: IEEE 754 binary64 with round-half-to-even, on the rationals.
  Negative zero is identified with zero. The lemmas at the end justify the integer models of
  the other theories: on safe integers addition is exact whenever the sum is a safe integer,
  and a sum that leaves the safe range is not a safe integer either.
\<close>

section \<open>Rounding to binary64\<close>

definition round_even :: "rat \<Rightarrow> int" where
  "round_even q =
     (let f = \<lfloor>q\<rfloor>; d = q - of_int f
      in if d < 1 / 2 then f else if d > 1 / 2 then f + 1 else if even f then f else f + 1)"

definition pow2 :: "int \<Rightarrow> rat" where
  "pow2 k = (if 0 \<le> k then 2 ^ nat k else 1 / 2 ^ nat (- k))"

text \<open>\<open>ilog2 q\<close> is the greatest \<open>k\<close> with \<open>pow2 k \<le> q\<close>, for positive \<open>q\<close>.\<close>

definition ilog2 :: "rat \<Rightarrow> int" where
  "ilog2 q =
     (case quotient_of q of (a, b) \<Rightarrow>
        let k = int (floorlog 2 (nat a)) - int (floorlog 2 (nat b))
        in if pow2 k \<le> q then k else k - 1)"

definition ulp_exp :: "rat \<Rightarrow> int" where
  "ulp_exp q = max (ilog2 \<bar>q\<bar> - 52) (- 1074)"

definition round_double :: "rat \<Rightarrow> jsnum" where
  "round_double q =
     (if q = 0 then Fin 0
      else let e = ulp_exp q; r = of_int (round_even (q / pow2 e)) * pow2 e
           in if pow2 1024 \<le> r then PosInf else if r \<le> - pow2 1024 then NegInf else Fin r)"

section \<open>Operators\<close>

fun js_neg :: "jsnum \<Rightarrow> jsnum" where
  "js_neg (Fin a) = Fin (- a)"
| "js_neg PosInf = NegInf"
| "js_neg NegInf = PosInf"
| "js_neg NaN = NaN"

fun js_add :: "jsnum \<Rightarrow> jsnum \<Rightarrow> jsnum" where
  "js_add (Fin a) (Fin b) = round_double (a + b)"
| "js_add NaN _ = NaN"
| "js_add _ NaN = NaN"
| "js_add PosInf NegInf = NaN"
| "js_add NegInf PosInf = NaN"
| "js_add PosInf _ = PosInf"
| "js_add NegInf _ = NegInf"
| "js_add _ PosInf = PosInf"
| "js_add _ NegInf = NegInf"

definition js_sub :: "jsnum \<Rightarrow> jsnum \<Rightarrow> jsnum" where
  "js_sub a b = js_add a (js_neg b)"

fun num_sgn :: "jsnum \<Rightarrow> int" where
  "num_sgn (Fin a) = (if 0 < a then 1 else if a < 0 then - 1 else 0)"
| "num_sgn PosInf = 1"
| "num_sgn NegInf = - 1"
| "num_sgn NaN = 0"

text \<open>An infinite product or quotient of the given sign; sign 0 is an invalid operation.\<close>

definition signed_inf :: "int \<Rightarrow> jsnum" where
  "signed_inf s = (if 0 < s then PosInf else if s < 0 then NegInf else NaN)"

fun js_mul :: "jsnum \<Rightarrow> jsnum \<Rightarrow> jsnum" where
  "js_mul (Fin a) (Fin b) = round_double (a * b)"
| "js_mul NaN _ = NaN"
| "js_mul _ NaN = NaN"
| "js_mul a b = signed_inf (num_sgn a * num_sgn b)"

fun js_div :: "jsnum \<Rightarrow> jsnum \<Rightarrow> jsnum" where
  "js_div (Fin a) (Fin b) = (if b = 0 then signed_inf (num_sgn (Fin a)) else round_double (a / b))"
| "js_div (Fin a) PosInf = Fin 0"
| "js_div (Fin a) NegInf = Fin 0"
| "js_div PosInf (Fin b) = (if b < 0 then NegInf else PosInf)"
| "js_div NegInf (Fin b) = (if b < 0 then PosInf else NegInf)"
| "js_div _ _ = NaN"

text \<open>\<open>Math.min\<close> and \<open>Math.max\<close> of two numbers.\<close>

definition js_min :: "jsnum \<Rightarrow> jsnum \<Rightarrow> jsnum" where
  "js_min a b = (if a = NaN \<or> b = NaN then NaN else if num_lt b a then b else a)"

definition js_max :: "jsnum \<Rightarrow> jsnum \<Rightarrow> jsnum" where
  "js_max a b = (if a = NaN \<or> b = NaN then NaN else if num_lt a b then b else a)"

text \<open>\<open>Math.floor\<close>, \<open>Math.ceil\<close> and \<open>Math.round\<close> (ties towards positive infinity).\<close>

fun js_floor :: "jsnum \<Rightarrow> jsnum" where
  "js_floor (Fin a) = Fin (of_int \<lfloor>a\<rfloor>)"
| "js_floor x = x"

fun js_ceil :: "jsnum \<Rightarrow> jsnum" where
  "js_ceil (Fin a) = Fin (of_int \<lceil>a\<rceil>)"
| "js_ceil x = x"

fun js_round :: "jsnum \<Rightarrow> jsnum" where
  "js_round (Fin a) = Fin (of_int \<lfloor>a + 1 / 2\<rfloor>)"
| "js_round x = x"

section \<open>Safe-integer arithmetic is exact\<close>

lemma pow2_pos [simp]: "0 < pow2 k"
  by (simp add: pow2_def)

lemma pow2_nonzero [simp]: "pow2 k \<noteq> 0"
  by (simp add: pow2_def)

lemma pow2_nat: "pow2 (int n) = 2 ^ n"
  by (simp add: pow2_def)

lemma pow2_Suc: "pow2 (k + 1) = 2 * pow2 k"
proof (cases "0 \<le> k")
  case True
  then have "nat (k + 1) = Suc (nat k)" by simp
  with True show ?thesis by (simp add: pow2_def)
next
  case False
  then have n: "nat (- k) = Suc (nat (- (k + 1)))" by simp
  show ?thesis
  proof (cases "k + 1 = 0")
    case True
    then have "k = - 1" by simp
    then show ?thesis by (simp add: pow2_def)
  next
    case neq: False
    with False have "\<not> 0 \<le> k + 1" by simp
    with False n show ?thesis by (simp add: pow2_def)
  qed
qed

lemma pow2_add_Suc: "pow2 (k + int (Suc n)) = 2 * pow2 (k + int n)"
proof -
  have "k + int (Suc n) = (k + int n) + 1" by simp
  then show ?thesis by (simp only: pow2_Suc)
qed

lemma pow2_mono1: "pow2 k \<le> pow2 (k + int n)"
proof (induction n)
  case 0
  then show ?case by simp
next
  case (Suc n)
  have "pow2 (k + int (Suc n)) = 2 * pow2 (k + int n)" by (rule pow2_add_Suc)
  moreover have "0 < pow2 (k + int n)" by simp
  ultimately show ?case using Suc.IH by linarith
qed

lemma pow2_mono: "k \<le> l \<Longrightarrow> pow2 k \<le> pow2 l"
  using pow2_mono1 [of k "nat (l - k)"] by simp

lemma pow2_strict: "k < l \<Longrightarrow> pow2 k < pow2 l"
proof -
  assume "k < l"
  then have "pow2 (k + 1) \<le> pow2 l" by (intro pow2_mono) simp
  moreover have "pow2 k < pow2 (k + 1)" by (simp add: pow2_Suc)
  ultimately show ?thesis by linarith
qed

lemma pow2_less_iff: "pow2 k < pow2 l \<longleftrightarrow> k < l"
  using pow2_strict pow2_mono by (meson leD le_less_linear)

lemma pow2_add: "pow2 (k + int n) = pow2 k * 2 ^ n"
proof (induction n)
  case 0
  then show ?case by simp
next
  case (Suc n)
  have "pow2 (k + int (Suc n)) = 2 * pow2 (k + int n)" by (rule pow2_add_Suc)
  with Suc.IH show ?case by simp
qed

lemma nat_floorlog: "0 < n \<Longrightarrow> 2 ^ (floorlog 2 n - 1) \<le> n \<and> n < 2 ^ floorlog 2 n \<and> 0 < floorlog 2 n"
  using floorlog_bounds [of n 2] by (cases "floorlog 2 n") auto

lemma ilog2_bounds:
  assumes "0 < q"
  shows "pow2 (ilog2 q) \<le> q" and "q < pow2 (ilog2 q + 1)"
proof -
  obtain a b where ab: "quotient_of q = (a, b)" by (cases "quotient_of q")
  have b: "0 < b" using quotient_of_denom_pos [OF ab] .
  have q: "q = of_int a / of_int b" using quotient_of_div [OF ab] .
  have a: "0 < a" using assms q b by (simp add: zero_less_divide_iff)
  define la where "la = floorlog 2 (nat a)"
  define lb where "lb = floorlog 2 (nat b)"
  have A: "2 ^ (la - 1) \<le> nat a" "nat a < 2 ^ la" "0 < la"
    using nat_floorlog [of "nat a"] a by (auto simp: la_def)
  have B: "2 ^ (lb - 1) \<le> nat b" "nat b < 2 ^ lb" "0 < lb"
    using nat_floorlog [of "nat b"] b by (auto simp: lb_def)
  have a1: "(2::rat) ^ (la - 1) \<le> of_int a" and a2: "of_int a < (2::rat) ^ la"
    using A a by (metis of_int_of_nat_eq of_nat_le_iff of_nat_numeral of_nat_power int_nat_eq
        order_less_imp_le, metis of_int_of_nat_eq of_nat_less_iff of_nat_numeral of_nat_power
        int_nat_eq order_less_imp_le)
  have b1: "(2::rat) ^ (lb - 1) \<le> of_int b" and b2: "of_int b < (2::rat) ^ lb"
    using B b by (metis of_int_of_nat_eq of_nat_le_iff of_nat_numeral of_nat_power int_nat_eq
        order_less_imp_le, metis of_int_of_nat_eq of_nat_less_iff of_nat_numeral of_nat_power
        int_nat_eq order_less_imp_le)
  define k where "k = int la - int lb"
  have lat: "(2::rat) ^ la = 2 * 2 ^ (la - 1)" and lbt: "(2::rat) ^ lb = 2 * 2 ^ (lb - 1)"
    using A(3) B(3) by (simp_all flip: power_Suc)
  have split: "pow2 k * 2 ^ lb = 2 ^ la"
    using pow2_add [of k lb] pow2_nat [of la] by (simp add: k_def)
  have b0: "(0::rat) < of_int b" using b by simp
  have up: "q < pow2 (k + 1)"
  proof -
    have "of_int a < pow2 k * 2 ^ lb" using a2 split by simp
    also have "\<dots> = pow2 (k + 1) * 2 ^ (lb - 1)" by (simp add: pow2_Suc lbt)
    also have "\<dots> \<le> pow2 (k + 1) * of_int b" using b1 by (simp add: mult_left_mono less_imp_le)
    finally show ?thesis using b0 by (simp add: q divide_less_eq)
  qed
  have low: "pow2 (k - 1) \<le> q"
  proof -
    have half: "2 * pow2 (k - 1) = pow2 k" using pow2_Suc [of "k - 1"] by simp
    have "pow2 (k - 1) * of_int b \<le> pow2 (k - 1) * 2 ^ lb"
      using b2 by (simp add: mult_left_mono less_imp_le)
    moreover have "2 * (pow2 (k - 1) * 2 ^ lb) = 2 * 2 ^ (la - 1)"
      using half split lat by (metis mult.assoc)
    ultimately have "pow2 (k - 1) * of_int b \<le> of_int a" using a1 by linarith
    then show ?thesis using b0 by (simp add: q le_divide_eq)
  qed
  have il: "ilog2 q = (if pow2 k \<le> q then k else k - 1)"
    by (simp add: ilog2_def ab Let_def k_def la_def lb_def)
  show "pow2 (ilog2 q) \<le> q" using low by (simp add: il)
  show "q < pow2 (ilog2 q + 1)" using up by (simp add: il not_le)
qed

lemma round_even_of_int [simp]: "round_even (of_int i) = i"
  by (simp add: round_even_def Let_def)

lemma round_even_ge: "of_int i \<le> q \<Longrightarrow> i \<le> round_even q"
proof -
  assume "of_int i \<le> q"
  then have "i \<le> \<lfloor>q\<rfloor>" by (simp add: le_floor_iff)
  then show ?thesis by (auto simp: round_even_def Let_def)
qed

lemma round_even_minus: "round_even (- q) = - round_even q"
proof -
  have neg: "(- q) - of_int \<lfloor>- q\<rfloor> = (if q = of_int \<lfloor>q\<rfloor> then 0 else 1 - (q - of_int \<lfloor>q\<rfloor>))"
    by (simp add: floor_minus ceiling_altdef)
  have fl: "\<lfloor>- q\<rfloor> = (if q = of_int \<lfloor>q\<rfloor> then - \<lfloor>q\<rfloor> else - \<lfloor>q\<rfloor> - 1)"
    by (simp add: floor_minus ceiling_altdef)
  show ?thesis unfolding round_even_def Let_def neg fl by (auto simp: field_simps)
qed

lemma round_double_minus: "round_double (- q) = js_neg (round_double q)"
proof -
  have small: "pow2 1024 \<le> - r \<Longrightarrow> \<not> pow2 1024 \<le> r" for r
    using pow2_pos [of 1024] by linarith
  have "round_even (- q / pow2 (ulp_exp q)) = - round_even (q / pow2 (ulp_exp q))"
    using round_even_minus [of "q / pow2 (ulp_exp q)"] by simp
  then show ?thesis
    using small by (auto simp: round_double_def Let_def ulp_exp_def minus_le_iff le_minus_iff)
qed

lemma safe_lt_pow2: "safe_int i \<Longrightarrow> \<bar>of_int i\<bar> < pow2 53"
proof -
  assume "safe_int i"
  then have "\<bar>i\<bar> < 2 ^ 53" by (simp add: safe_int_def max_safe_integer_def)
  then have "(of_int \<bar>i\<bar> :: rat) < of_int (2 ^ 53)" by (simp only: of_int_less_iff)
  then show ?thesis by (simp add: pow2_def)
qed

lemma round_double_pos_safe:
  assumes "0 < i" and "safe_int i"
  shows "round_double (of_int i) = num_of_int i"
proof -
  let ?q = "of_int i :: rat"
  have q: "0 < ?q" using assms(1) by simp
  have "pow2 (ilog2 ?q) < pow2 53"
    using ilog2_bounds(1) [OF q] safe_lt_pow2 [OF assms(2)] by simp
  then have "ilog2 ?q < 53" by (simp only: pow2_less_iff)
  then have e: "ulp_exp ?q \<le> 0" using q by (simp add: ulp_exp_def)
  define n where "n = nat (- ulp_exp ?q)"
  have p: "pow2 (ulp_exp ?q) = 1 / 2 ^ n" using e by (cases "ulp_exp ?q = 0") (simp_all add: pow2_def n_def)
  have "?q / pow2 (ulp_exp ?q) = of_int (i * 2 ^ n)" using p by simp
  then have r: "of_int (round_even (?q / pow2 (ulp_exp ?q))) * pow2 (ulp_exp ?q) = ?q"
    using p by (simp only: round_even_of_int) simp
  have "?q < pow2 1024"
    using safe_lt_pow2 [OF assms(2)] pow2_mono [of 53 1024] q by simp
  moreover have "- pow2 1024 < ?q" using q pow2_pos [of 1024] by linarith
  ultimately show ?thesis using q r by (simp add: round_double_def Let_def)
qed

lemma round_double_safe: "safe_int i \<Longrightarrow> round_double (of_int i) = num_of_int i"
proof -
  assume i: "safe_int i"
  consider "0 < i" | "i = 0" | "0 < - i" by linarith
  then show ?thesis
  proof cases
    case 1
    then show ?thesis using i by (rule round_double_pos_safe)
  next
    case 2
    then show ?thesis by (simp add: round_double_def)
  next
    case 3
    have "safe_int (- i)" using i by (simp add: safe_int_def)
    with 3 have "round_double (of_int (- i)) = num_of_int (- i)" by (rule round_double_pos_safe)
    then show ?thesis using round_double_minus [of "of_int (- i)"] by simp
  qed
qed

lemma round_double_pos_unsafe:
  assumes "pow2 53 \<le> q"
  shows "\<not> is_safe_integer (round_double q)"
proof -
  have q: "0 < q" using assms pow2_pos [of 53] by linarith
  have "pow2 53 < pow2 (ilog2 q + 1)" using assms ilog2_bounds(2) [OF q] by linarith
  then have il: "53 \<le> ilog2 q" by (simp only: pow2_less_iff)
  then have e: "ulp_exp q = ilog2 q - 52" using q by (simp add: ulp_exp_def)
  have "pow2 (ulp_exp q) * 2 ^ 52 \<le> q"
    using pow2_add [of "ulp_exp q" 52] ilog2_bounds(1) [OF q] e by simp
  then have "of_int (2 ^ 52) \<le> q / pow2 (ulp_exp q)" by (simp add: le_divide_eq mult.commute)
  then have "2 ^ 52 \<le> round_even (q / pow2 (ulp_exp q))" by (rule round_even_ge)
  then have "(of_int (2 ^ 52) :: rat) \<le> of_int (round_even (q / pow2 (ulp_exp q)))"
    by (simp only: of_int_le_iff)
  then have "2 ^ 52 * pow2 (ulp_exp q) \<le> of_int (round_even (q / pow2 (ulp_exp q))) * pow2 (ulp_exp q)"
    by (simp add: mult_right_mono less_imp_le)
  moreover have "2 ^ 52 * pow2 (ulp_exp q) = pow2 (ilog2 q)"
    using pow2_add [of "ulp_exp q" 52] e by (simp add: mult.commute)
  moreover have "pow2 53 \<le> pow2 (ilog2 q)" using il by (rule pow2_mono)
  ultimately have r: "pow2 53 \<le> of_int (round_even (q / pow2 (ulp_exp q))) * pow2 (ulp_exp q)"
    by linarith
  have unsafe: "\<not> is_safe_integer (Fin r)" if "pow2 53 \<le> r" for r
  proof
    assume s: "is_safe_integer (Fin r)"
    then have fl: "of_int \<lfloor>r\<rfloor> = r" and "safe_int \<lfloor>r\<rfloor>" by simp_all
    then have "\<bar>of_int \<lfloor>r\<rfloor> :: rat\<bar> < pow2 53" by (intro safe_lt_pow2)
    then have "\<bar>r\<bar> < pow2 53" by (simp only: fl)
    with that show False by linarith
  qed
  show ?thesis using q r unsafe by (auto simp: round_double_def Let_def)
qed

lemma js_neg_safe [simp]: "is_safe_integer (js_neg x) \<longleftrightarrow> is_safe_integer x"
proof (cases x)
  case (Fin a)
  have half: "is_safe_integer (Fin (- b))" if "is_safe_integer (Fin b)" for b
  proof -
    from that have b: "b = of_int \<lfloor>b\<rfloor>" and i: "safe_int \<lfloor>b\<rfloor>" by (auto simp: is_safe_integer.simps(1))
    from i have "is_safe_integer (num_of_int (- \<lfloor>b\<rfloor>))" by (simp add: safe_int_def)
    moreover have "- b = of_int (- \<lfloor>b\<rfloor>)" by (subst b) simp
    ultimately show ?thesis by (simp only:)
  qed
  show ?thesis using half [of a] half [of "- a"] Fin by (auto simp del: is_safe_integer.simps)
qed simp_all

lemma unsafe_ge_pow2: "\<not> safe_int i \<Longrightarrow> 0 \<le> i \<Longrightarrow> pow2 53 \<le> of_int i"
proof -
  assume "\<not> safe_int i" and "0 \<le> i"
  then have "2 ^ 53 \<le> i" by (simp add: safe_int_def max_safe_integer_def)
  then have "(of_int (2 ^ 53) :: rat) \<le> of_int i" by (simp only: of_int_le_iff)
  then show ?thesis by (simp add: pow2_def)
qed

text \<open>The rule the integer models rest on: \<open>Number.isSafeInteger\<close> of a sum of safe integers
  decides the mathematical sum, and a safe sum is exact.\<close>

lemma round_double_int_safe_iff: "is_safe_integer (round_double (of_int i)) \<longleftrightarrow> safe_int i"
proof (cases "safe_int i")
  case True
  then show ?thesis by (simp add: round_double_safe)
next
  case False
  have "\<not> is_safe_integer (round_double (of_int i))"
  proof (cases "0 \<le> i")
    case True
    with False show ?thesis by (intro round_double_pos_unsafe unsafe_ge_pow2)
  next
    case neg: False
    have "\<not> safe_int (- i)" using False by (simp add: safe_int_def)
    then have "pow2 53 \<le> of_int (- i)" using neg by (intro unsafe_ge_pow2) simp_all
    then have "\<not> is_safe_integer (round_double (of_int (- i)))" by (rule round_double_pos_unsafe)
    then show ?thesis using round_double_minus [of "of_int i"] by simp
  qed
  with False show ?thesis by simp
qed

lemma js_add_ints: "js_add (num_of_int a) (num_of_int b) = round_double (of_int (a + b))"
  by simp

lemma js_add_safe_iff:
  "is_safe_integer (js_add (num_of_int a) (num_of_int b)) \<longleftrightarrow> safe_int (a + b)"
  by (simp only: js_add_ints round_double_int_safe_iff)

lemma js_add_exact:
  "safe_int (a + b) \<Longrightarrow> js_add (num_of_int a) (num_of_int b) = num_of_int (a + b)"
  by (simp only: js_add_ints round_double_safe)

end
