(* ===== verification/JsonValue.thy ===== *)
theory JsonValue
  imports Prelude
begin

text \<open>
  JSON values and the canonical text the program digests and compares:
  \<open>src/security/artifact-trust.ts\<close> (\<open>canonicalJson\<close>) and \<open>structurallyEqual\<close> of
  \<open>src/decision/predicates.ts\<close>. The number -0, which \<open>JSON.parse\<close> yields for its text, is a value
  of its own (\<open>JNegZero\<close>): \<open>Object.is\<close> tells it from 0, comparisons and texts do not. An object is the list of its members in enumeration order.
  \<open>show_num\<close>, the decimal text of a finite number (\<open>Number::toString\<close>), is a parameter with the
  two documented laws of \<open>number_text\<close>.
\<close>

section \<open>Values\<close>

datatype json =
    JNull
  | JBool bool
  | JNum jsnum
  | JNegZero
  | JStr string
  | JArr "json list"
  | JObj "(string \<times> json) list"

lemma size_member [termination_simp]:
  "(k, v) \<in> set kvs \<Longrightarrow> size v < Suc (size_list (size_prod (\<lambda>_. 0) size) kvs)"
  by (induction kvs) auto

lemma size_zip_left [termination_simp]:
  "(x, y) \<in> set (zip xs ys) \<Longrightarrow> size x < Suc (size_list size xs)"
  by (induction xs ys rule: list_induct2') auto

lemma mapR_cong [fundef_cong]:
  "xs = ys \<Longrightarrow> (\<And>x. x \<in> set ys \<Longrightarrow> f x = g x) \<Longrightarrow> mapR f xs = mapR g ys"
  by (induction xs arbitrary: ys) auto

text \<open>No object has two members with the same key.\<close>

fun wf_json :: "json \<Rightarrow> bool" where
  "wf_json (JArr xs) = (\<forall>x \<in> set xs. wf_json x)"
| "wf_json (JObj kvs) = (distinct (map fst kvs) \<and> (\<forall>(k, v) \<in> set kvs. wf_json v))"
| "wf_json _ = True"

fun finite_json :: "json \<Rightarrow> bool" where
  "finite_json (JNum n) = is_finite n"
| "finite_json (JArr xs) = (\<forall>x \<in> set xs. finite_json x)"
| "finite_json (JObj kvs) = (\<forall>(k, v) \<in> set kvs. finite_json v)"
| "finite_json _ = True"

text \<open>The numeric value.\<close>

fun json_number :: "json \<Rightarrow> jsnum option" where
  "json_number (JNum n) = Some n"
| "json_number JNegZero = Some (Fin 0)"
| "json_number _ = None"

text \<open>A document without the sign of its zeros.\<close>

fun zero_signs :: "json \<Rightarrow> json" where
  "zero_signs JNegZero = JNum (Fin 0)"
| "zero_signs (JArr xs) = JArr (map zero_signs xs)"
| "zero_signs (JObj kvs) = JObj (map (\<lambda>(k, v). (k, zero_signs v)) kvs)"
| "zero_signs v = v"

fun no_negzero :: "json \<Rightarrow> bool" where
  "no_negzero JNegZero = False"
| "no_negzero (JArr xs) = (\<forall>x \<in> set xs. no_negzero x)"
| "no_negzero (JObj kvs) = (\<forall>(k, v) \<in> set kvs. no_negzero v)"
| "no_negzero _ = True"

text \<open>\<open>value.key\<close> on a value that is an object.\<close>

fun jget :: "json \<Rightarrow> string \<Rightarrow> json option" where
  "jget (JObj kvs) k = map_of kvs k"
| "jget _ k = None"

section \<open>Structural equality\<close>

fun structurallyEqual :: "json \<Rightarrow> json \<Rightarrow> bool" where
  "structurallyEqual (JArr xs) (JArr ys) =
     (length xs = length ys \<and> (\<forall>(x, y) \<in> set (zip xs ys). structurallyEqual x y))"
| "structurallyEqual (JObj kvs) (JObj lws) =
     (sort (map fst kvs) = sort (map fst lws)
      \<and> (\<forall>(k, v) \<in> set kvs. case map_of lws k of None \<Rightarrow> False | Some w \<Rightarrow> structurallyEqual v w))"
| "structurallyEqual JNull JNull = True"
| "structurallyEqual (JBool a) (JBool b) = (a = b)"
| "structurallyEqual (JNum a) (JNum b) = (a = b)"
| "structurallyEqual JNegZero JNegZero = True"
| "structurallyEqual (JStr a) (JStr b) = (a = b)"
| "structurallyEqual _ _ = False"

text \<open>The specification: members sorted by key, at every depth.\<close>

fun canon :: "json \<Rightarrow> json" where
  "canon (JArr xs) = JArr (map canon xs)"
| "canon (JObj kvs) = JObj (sort_key fst (map (\<lambda>(k, v). (k, canon v)) kvs))"
| "canon v = v"

lemma sort_key_fst_eq_iff:
  assumes "distinct (map fst xs)" and "distinct (map fst ys)"
  shows "sort_key fst xs = sort_key fst ys \<longleftrightarrow> set xs = set (ys :: ('k::linorder \<times> 'v) list)"
proof
  assume "sort_key fst xs = sort_key fst ys"
  then have "set (sort_key fst xs) = set (sort_key fst ys)" by simp
  then show "set xs = set ys" by simp
next
  assume eq: "set xs = set ys"
  have d: "distinct (map fst (sort_key fst xs))" "distinct (map fst (sort_key fst ys))"
    using assms by (simp_all add: distinct_map)
  have "inj_on fst (set xs)" using assms(1) by (simp add: distinct_map)
  then have inj: "inj_on fst (set (sort_key fst xs) \<union> set (sort_key fst ys))" using eq by simp
  show "sort_key fst xs = sort_key fst ys"
    by (rule map_sorted_distinct_set_unique [OF inj]) (use d eq in simp_all)
qed

lemma sort_eq_iff_set:
  assumes "distinct xs" and "distinct ys"
  shows "sort xs = sort ys \<longleftrightarrow> set xs = set (ys :: 'k::linorder list)"
proof
  assume "sort xs = sort ys"
  then have "set (sort xs) = set (sort ys)" by simp
  then show "set xs = set ys" by simp
next
  assume "set xs = set ys"
  with assms show "sort xs = sort ys" by (intro sorted_distinct_set_unique) simp_all
qed

lemma canon_JObj_iff:
  assumes "distinct (map fst kvs)" and "distinct (map fst lws)"
  shows "canon (JObj kvs) = canon (JObj lws) \<longleftrightarrow>
    (\<lambda>(k, v). (k, canon v)) ` set kvs = (\<lambda>(k, v). (k, canon v)) ` set lws"
proof -
  have keys: "map fst (map (\<lambda>(k, v). (k, canon v)) xs) = map fst xs" for xs :: "json dict"
    by (induction xs) auto
  show ?thesis using assms by (simp add: sort_key_fst_eq_iff keys del: map_map)
qed

lemma member_image_iff:
  assumes "distinct (map fst lws)"
  shows "(fst ` set kvs = fst ` set lws
      \<and> (\<forall>(k, v) \<in> set kvs. case map_of lws k of None \<Rightarrow> False | Some w \<Rightarrow> f v = f w))
    \<longleftrightarrow> (\<lambda>(k, v). (k, f v)) ` set kvs = (\<lambda>(k, v). (k, f v)) ` set lws" (is "?L \<longleftrightarrow> ?g ` _ = _")
proof
  assume L: ?L
  have member: "\<exists>w. (k, w) \<in> set lws \<and> f v = f w" if "(k, v) \<in> set kvs" for k v
    using L that map_of_SomeD [of lws k] by (fastforce split: option.splits)
  have bwd: "\<exists>v. (k, v) \<in> set kvs \<and> f v = f w" if kw: "(k, w) \<in> set lws" for k w
  proof -
    from L kw obtain v where v: "(k, v) \<in> set kvs" by force
    have "map_of lws k = Some w" using assms kw by simp
    with L v show ?thesis by fastforce
  qed
  show "?g ` set kvs = ?g ` set lws" using member bwd by (force simp: image_iff)
next
  assume R: "?g ` set kvs = ?g ` set lws"
  have "fst ` ?g ` xs = fst ` xs" for xs :: "('a \<times> 'b) set" by force
  with R have "fst ` set kvs = fst ` set lws" by metis
  moreover have "case map_of lws k of None \<Rightarrow> False | Some w \<Rightarrow> f v = f w" if "(k, v) \<in> set kvs" for k v
  proof -
    have "?g (k, v) \<in> ?g ` set lws" using that R by blast
    then obtain w where "(k, w) \<in> set lws" "f v = f w" by auto
    with assms show ?thesis by simp
  qed
  ultimately show ?L by auto
qed

lemma structurallyEqual_canon:
  assumes "wf_json a" and "wf_json b"
  shows "structurallyEqual a b \<longleftrightarrow> canon a = canon b"
  using assms
proof (induction a b rule: structurallyEqual.induct)
  case (1 xs ys)
  show ?case
  proof (cases "length xs = length ys")
    case True
    have step: "structurallyEqual x y \<longleftrightarrow> canon x = canon y" if "(x, y) \<in> set (zip xs ys)" for x y
      using 1(1) [OF that refl] 1(2,3) set_zip_leftD [OF that] set_zip_rightD [OF that] by simp
    have "(\<forall>(x, y) \<in> set (zip xs ys). structurallyEqual x y) \<longleftrightarrow>
        (\<forall>(x, y) \<in> set (zip xs ys). canon x = canon y)"
      by (rule ball_cong [OF refl]) (use step in auto)
    also have "\<dots> \<longleftrightarrow> map canon xs = map canon ys"
      using True by (auto simp: list_eq_iff_nth_eq set_zip)
    finally show ?thesis using True by simp
  next
    case False
    then show ?thesis using map_eq_imp_length_eq by auto
  qed
next
  case (2 kvs lws)
  have d: "distinct (map fst kvs)" "distinct (map fst lws)" using 2(2,3) by simp_all
  let ?f = "\<lambda>(k, v). (k, canon v)"
  have step: "structurallyEqual v w \<longleftrightarrow> canon v = canon w" if "(k, v) \<in> set kvs" "map_of lws k = Some w" for k v w
  proof -
    have "(k, w) \<in> set lws" using that(2) by (rule map_of_SomeD)
    then show ?thesis using 2(1) [OF that(1) refl that(2)] 2(2,3) that(1) by auto
  qed
  have "structurallyEqual (JObj kvs) (JObj lws) \<longleftrightarrow>
      fst ` set kvs = fst ` set lws \<and>
      (\<forall>(k, v) \<in> set kvs. case map_of lws k of None \<Rightarrow> False | Some w \<Rightarrow> canon v = canon w)"
  proof -
    have "sort (map fst kvs) = sort (map fst lws) \<longleftrightarrow> fst ` set kvs = fst ` set lws"
      using sort_eq_iff_set [OF d] by simp
    moreover have "(\<forall>(k, v) \<in> set kvs. case map_of lws k of None \<Rightarrow> False | Some w \<Rightarrow> structurallyEqual v w)
      \<longleftrightarrow> (\<forall>(k, v) \<in> set kvs. case map_of lws k of None \<Rightarrow> False | Some w \<Rightarrow> canon v = canon w)"
      by (rule ball_cong [OF refl]) (use step in \<open>auto split: option.splits\<close>)
    ultimately show ?thesis by simp
  qed
  also have "\<dots> \<longleftrightarrow> ?f ` set kvs = ?f ` set lws"
    by (rule member_image_iff [OF d(2)])
  also have "\<dots> \<longleftrightarrow> canon (JObj kvs) = canon (JObj lws)" using canon_JObj_iff [OF d] by simp
  finally show ?case .
qed simp_all

section \<open>The sign of zero\<close>

lemma member_keys: "map fst (map (\<lambda>(k, v). (k, g v)) kvs) = map fst kvs"
  by (induction kvs) auto

lemma zero_signs_no_negzero [simp]: "no_negzero (zero_signs v)"
  by (induction v rule: zero_signs.induct) auto

lemma zero_signs_wf: "wf_json v \<Longrightarrow> wf_json (zero_signs v)"
proof (induction v rule: zero_signs.induct)
  case (3 kvs)
  then show ?case by (auto simp only: zero_signs.simps wf_json.simps member_keys set_map)
qed auto

lemma zero_signs_idle: "no_negzero v \<Longrightarrow> zero_signs v = v"
proof (induction v rule: zero_signs.induct)
  case (2 xs)
  then have "map zero_signs xs = xs" by (intro map_idI) simp
  then show ?case by simp
next
  case (3 kvs)
  have "map (\<lambda>(k, v). (k, zero_signs v)) kvs = kvs"
  proof (rule map_idI)
    show "(case x of (k, v) \<Rightarrow> (k, zero_signs v)) = x" if "x \<in> set kvs" for x
      using 3 that by (cases x) force
  qed
  then show ?case by simp
qed simp_all

lemma insort_key_map:
  "(\<And>x. f (g x) = h x) \<Longrightarrow> insort_key f (g x) (map g xs) = map g (insort_key h x xs)"
  by (induction xs) auto

lemma sort_key_map: "(\<And>x. f (g x) = h x) \<Longrightarrow> sort_key f (map g xs) = map g (sort_key h xs)"
  by (induction xs) (simp_all add: insort_key_map)

lemma sort_members: "sort_key fst (map (\<lambda>(k, v). (k, g v)) kvs) = map (\<lambda>(k, v). (k, g v)) (sort_key fst kvs)"
  by (rule sort_key_map) auto

lemma zero_signs_canon: "zero_signs (canon v) = canon (zero_signs v)"
proof (induction v rule: canon.induct)
  case (2 kvs)
  have m: "map (\<lambda>(k, v). (k, zero_signs v)) (map (\<lambda>(k, v). (k, canon v)) kvs)
      = map (\<lambda>(k, v). (k, canon v)) (map (\<lambda>(k, v). (k, zero_signs v)) kvs)"
    using 2 by (fastforce simp: case_prod_beta)
  show ?case by (simp only: canon.simps zero_signs.simps sort_members [symmetric] m)
qed simp_all

lemma no_negzero_canon: "no_negzero v \<Longrightarrow> no_negzero (canon v)"
  using zero_signs_no_negzero [of "canon v"] zero_signs_idle [of v] by (simp only: zero_signs_canon)

end
