(* ===== verification/JsonText.thy ===== *)
theory JsonText
  imports JsonValue JsNumber
begin

text \<open>
  The text of JSON values: \<open>JSON.stringify\<close> (strings with the escapes of the standard),
  \<open>canonicalJson\<close> of \<open>src/security/artifact-trust.ts\<close> and \<open>sortJson\<close> of
  \<open>src/decision/compose.ts\<close>. The lemmas show that the text determines the value, so a
  comparison of canonical texts is a comparison of values.
\<close>

section \<open>Strings\<close>

definition hexdigit :: "nat \<Rightarrow> char" where
  "hexdigit n = (if n < 10 then char_of (48 + n) else char_of (87 + n))"

definition esc :: "char \<Rightarrow> string" where
  "esc c =
     (let n = of_char c :: nat
      in if c = CHR 0x22 then [CHR 0x5C, CHR 0x22]
         else if c = CHR 0x5C then [CHR 0x5C, CHR 0x5C]
         else if c = CHR 0x08 then [CHR 0x5C, CHR ''b'']
         else if c = CHR 0x09 then [CHR 0x5C, CHR ''t'']
         else if c = CHR 0x0A then [CHR 0x5C, CHR ''n'']
         else if c = CHR 0x0C then [CHR 0x5C, CHR ''f'']
         else if c = CHR 0x0D then [CHR 0x5C, CHR ''r'']
         else if n < 32 then CHR 0x5C # ''u00'' @ [hexdigit (n div 16), hexdigit (n mod 16)]
         else [c])"

definition quote :: "string \<Rightarrow> string" where
  "quote s = CHR 0x22 # concat (map esc s) @ [CHR 0x22]"

text \<open>The reader of one escaped character.\<close>

definition hexval :: "char \<Rightarrow> nat" where
  "hexval c = (let n = of_char c :: nat in if n < 58 then n - 48 else n - 87)"

fun unesc :: "string \<Rightarrow> (char \<times> string) option" where
  "unesc (c # s) =
     (if c \<noteq> CHR 0x5C then Some (c, s)
      else case s of
        d # r \<Rightarrow>
          if d = CHR ''b'' then Some (CHR 0x08, r)
          else if d = CHR ''t'' then Some (CHR 0x09, r)
          else if d = CHR ''n'' then Some (CHR 0x0A, r)
          else if d = CHR ''f'' then Some (CHR 0x0C, r)
          else if d = CHR ''r'' then Some (CHR 0x0D, r)
          else if d = CHR ''u'' then
            (case r of z1 # z2 # h # l # r' \<Rightarrow> Some (char_of (16 * hexval h + hexval l), r')
               | _ \<Rightarrow> None)
          else Some (d, r)
      | [] \<Rightarrow> None)"
| "unesc [] = None"

lemma hexval_hexdigit: "n < 16 \<Longrightarrow> hexval (hexdigit n) = n"
  by (simp add: hexval_def hexdigit_def Let_def)

lemma unesc_u:
  "unesc (CHR 0x5C # CHR ''u'' # a # b # h # l # s) = Some (char_of (16 * hexval h + hexval l), s)"
  by simp

lemma unesc_esc: "unesc (esc c @ s) = Some (c, s)"
proof (cases "c \<in> {CHR 0x22, CHR 0x5C, CHR 0x08, CHR 0x09, CHR 0x0A, CHR 0x0C, CHR 0x0D}")
  case True
  then show ?thesis by (auto simp: esc_def Let_def)
next
  case False
  define n where "n = (of_char c :: nat)"
  have c: "char_of n = c" by (simp add: n_def)
  show ?thesis
  proof (cases "n < 32")
    case True
    then have "16 * hexval (hexdigit (n div 16)) + hexval (hexdigit (n mod 16)) = n"
      by (simp add: hexval_hexdigit)
    then have v: "char_of (16 * hexval (hexdigit (n div 16)) + hexval (hexdigit (n mod 16))) = c"
      by (simp only: c)
    have e: "esc c = CHR 0x5C # ''u00'' @ [hexdigit (n div 16), hexdigit (n mod 16)]"
      using True False by (simp add: esc_def Let_def flip: n_def)
    have "unesc (esc c @ s) = Some (char_of (16 * hexval (hexdigit (n div 16)) + hexval (hexdigit (n mod 16))), s)"
      unfolding e by (simp only: append.simps unesc_u)
    then show ?thesis unfolding v .
  next
    case ge: False
    then show ?thesis using False by (simp add: esc_def Let_def flip: n_def)
  qed
qed

lemma esc_inject: "esc c @ s = esc d @ t \<Longrightarrow> c = d \<and> s = t"
  by (metis unesc_esc option.inject prod.inject)

lemma hd_esc: "esc c \<noteq> []" "hd (esc c) \<noteq> CHR 0x22"
  by (simp_all add: esc_def Let_def)

lemma esc_not_quote: "CHR 0x22 # s \<noteq> esc c @ t"
  using hd_esc [of c] by (cases "esc c") auto

lemma quote_inject: "quote x @ s = quote y @ t \<Longrightarrow> x = y \<and> s = t"
proof -
  have "concat (map esc x) @ CHR 0x22 # s = concat (map esc y) @ CHR 0x22 # t \<Longrightarrow> x = y \<and> s = t"
  proof (induction x arbitrary: y)
    case Nil
    then show ?case using esc_not_quote by (cases y) auto
  next
    case (Cons c x)
    show ?case
    proof (cases y)
      case Nil
      with Cons.prems have "CHR 0x22 # t = esc c @ concat (map esc x) @ CHR 0x22 # s" by simp
      then show ?thesis using esc_not_quote by blast
    next
      case (Cons d y')
      with Cons.prems have "esc c @ concat (map esc x) @ CHR 0x22 # s
          = esc d @ concat (map esc y') @ CHR 0x22 # t" by simp
      then have "c = d" "concat (map esc x) @ CHR 0x22 # s = concat (map esc y') @ CHR 0x22 # t"
        using esc_inject by blast+
      with Cons.IH local.Cons show ?thesis by blast
    qed
  qed
  then show "quote x @ s = quote y @ t \<Longrightarrow> x = y \<and> s = t" by (simp add: quote_def)
qed

section \<open>Values\<close>

fun join_with :: "string \<Rightarrow> string list \<Rightarrow> string" where
  "join_with sep [] = []"
| "join_with sep [x] = x"
| "join_with sep (x # y # zs) = x @ sep @ join_with sep (y # zs)"

text \<open>\<open>JSON.stringify\<close>; a number that is not finite becomes \<open>null\<close>.\<close>

fun stringify :: "(rat \<Rightarrow> string) \<Rightarrow> json \<Rightarrow> string" where
  "stringify show_num JNull = ''null''"
| "stringify show_num (JBool b) = (if b then ''true'' else ''false'')"
| "stringify show_num (JNum n) = (case n of Fin q \<Rightarrow> show_num q | _ \<Rightarrow> ''null'')"
| "stringify show_num JNegZero = show_num 0"
| "stringify show_num (JStr s) = quote s"
| "stringify show_num (JArr xs) = ''['' @ join_with '','' (map (stringify show_num) xs) @ '']''"
| "stringify show_num (JObj kvs) =
     ''{'' @ join_with '','' (map (\<lambda>(k, v). quote k @ '':'' @ stringify show_num v) kvs) @ ''}''"

datatype canonical_error = NonFiniteNumber

lemma size_member_sorted [termination_simp]:
  "(k, v) \<in> set (sort_key f kvs) \<Longrightarrow> size v < Suc (size_list (size_prod (\<lambda>_. 0) size) kvs)"
  by (simp add: size_member)

fun canonicalJson :: "(rat \<Rightarrow> string) \<Rightarrow> json \<Rightarrow> canonical_error + string" where
  "canonicalJson show_num (JNum n) =
     (case n of Fin q \<Rightarrow> Inr (show_num q) | _ \<Rightarrow> Inl NonFiniteNumber)"
| "canonicalJson show_num (JArr xs) =
     bindR (mapR (canonicalJson show_num) xs) (\<lambda>ts. Inr (''['' @ join_with '','' ts @ '']''))"
| "canonicalJson show_num (JObj kvs) =
     bindR (mapR (\<lambda>(k, v). bindR (canonicalJson show_num v) (\<lambda>t. Inr (quote k @ '':'' @ t)))
              (sort_key fst kvs))
       (\<lambda>ts. Inr (''{'' @ join_with '','' ts @ ''}''))"
| "canonicalJson show_num v = Inr (stringify show_num v)"

text \<open>What \<open>Number::toString\<close> promises: distinct doubles have distinct texts, over the digits,
  the signs, the point and the exponent letter.\<close>

definition num_char :: "char \<Rightarrow> bool" where
  "num_char c \<longleftrightarrow> c \<in> set ''0123456789+-.e''"

definition is_double :: "rat \<Rightarrow> bool" where
  "is_double q \<longleftrightarrow> round_double q = Fin q"

definition number_text :: "(rat \<Rightarrow> string) \<Rightarrow> bool" where
  "number_text show_num \<longleftrightarrow>
     (\<forall>q r. is_double q \<longrightarrow> is_double r \<longrightarrow> show_num q = show_num r \<longrightarrow> q = r)
     \<and> (\<forall>q. is_double q \<longrightarrow> show_num q \<noteq> [] \<and> list_all num_char (show_num q))"

fun double_json :: "json \<Rightarrow> bool" where
  "double_json (JNum n) = (case n of Fin q \<Rightarrow> is_double q | _ \<Rightarrow> False)"
| "double_json (JArr xs) = (\<forall>x \<in> set xs. double_json x)"
| "double_json (JObj kvs) = (\<forall>(k, v) \<in> set kvs. double_json v)"
| "double_json _ = True"

section \<open>The canonical text is the text of the sorted value\<close>

lemma mapR_all_Inr: "(\<And>x. x \<in> set xs \<Longrightarrow> f x = Inr (g x)) \<Longrightarrow> mapR f xs = Inr (map g xs)"
  by (induction xs) auto

lemma mapR_some_Inl:
  "(\<And>x. x \<in> set xs \<Longrightarrow> f x = (if P x then Inr (g x) else Inl e)) \<Longrightarrow>
   mapR f xs = (if \<forall>x \<in> set xs. P x then Inr (map g xs) else Inl e)"
  by (induction xs) auto

lemma canonicalJson_eq:
  "canonicalJson show_num v =
     (if finite_json v then Inr (stringify show_num (canon v)) else Inl NonFiniteNumber)"
proof (induction show_num v rule: canonicalJson.induct)
  case (1 show_num n)
  then show ?case by (cases n) simp_all
next
  case (2 show_num xs)
  have "mapR (canonicalJson show_num) xs = (if \<forall>x \<in> set xs. finite_json x
      then Inr (map (\<lambda>v. stringify show_num (canon v)) xs) else Inl NonFiniteNumber)"
    by (rule mapR_some_Inl) (rule 2)
  then show ?case by (simp add: comp_def)
next
  case (3 show_num kvs)
  let ?f = "\<lambda>(k, v). bindR (canonicalJson show_num v) (\<lambda>t. Inr (quote k @ '':'' @ t))"
  let ?g = "\<lambda>(k, v). quote k @ '':'' @ stringify show_num (canon v)"
  have "mapR ?f (sort_key fst kvs) = (if \<forall>x \<in> set (sort_key fst kvs). finite_json (snd x)
      then Inr (map ?g (sort_key fst kvs)) else Inl NonFiniteNumber)"
  proof (rule mapR_some_Inl)
    fix x assume "x \<in> set (sort_key fst kvs)"
    then show "?f x = (if finite_json (snd x) then Inr (?g x) else Inl NonFiniteNumber)"
      using 3 [of x "fst x" "snd x"] by (auto split: prod.splits)
  qed
  moreover have "(\<forall>x \<in> set kvs. finite_json (snd x)) \<longleftrightarrow> (\<forall>(k, v) \<in> set kvs. finite_json v)" by auto
  ultimately have m: "mapR ?f (sort_key fst kvs) = (if \<forall>(k, v) \<in> set kvs. finite_json v
      then Inr (map ?g (sort_key fst kvs)) else Inl NonFiniteNumber)"
    by (simp only: set_sort)
  have g: "map (\<lambda>(k, v). quote k @ '':'' @ stringify show_num v)
      (map (\<lambda>(k, v). (k, canon v)) (sort_key fst kvs)) = map ?g (sort_key fst kvs)"
    by (simp add: case_prod_beta)
  show ?case
    by (simp only: canonicalJson.simps m finite_json.simps canon.simps stringify.simps sort_members g
        if_distrib [of "\<lambda>r. bindR r _"] bindR_simps)
qed simp_all

section \<open>The text determines the value\<close>

definition delim :: "string \<Rightarrow> bool" where
  "delim s \<longleftrightarrow> s = [] \<or> hd s \<in> {CHR '','', CHR '']'', CHR ''}''}"

lemma join_with_Cons:
  "join_with sep (x # xs) = x @ concat (map (\<lambda>y. sep @ y) xs)"
  by (induction xs arbitrary: x) simp_all

lemma tail_inject:
  assumes "concat (map (\<lambda>y. '','' @ f y) xs) @ c # s = concat (map (\<lambda>y. '','' @ f y) ys) @ c # t"
    and "c \<in> {CHR '']'', CHR ''}''}"
    and "\<And>x y s t. x \<in> set xs \<Longrightarrow> y \<in> set ys \<Longrightarrow> f x @ s = f y @ t \<Longrightarrow> delim s \<Longrightarrow> delim t
      \<Longrightarrow> x = y \<and> s = t"
  shows "xs = ys \<and> s = t"
  using assms(1,3)
proof (induction xs arbitrary: ys)
  case Nil
  with assms(2) show ?case by (cases ys) auto
next
  case (Cons x xs)
  show ?case
  proof (cases ys)
    case Nil
    with Cons.prems assms(2) show ?thesis by auto
  next
    case (Cons y zs)
    let ?a = "concat (map (\<lambda>y. '','' @ f y) xs) @ c # s"
    let ?b = "concat (map (\<lambda>y. '','' @ f y) zs) @ c # t"
    have d: "delim (concat (map (\<lambda>y. '','' @ f y) us) @ c # u)" for us u
      using assms(2) by (cases us) (auto simp: delim_def)
    have "f x @ ?a = f y @ ?b" using Cons.prems(1) Cons by simp
    then have e: "x = y \<and> ?a = ?b" by (rule Cons.prems(2) [rotated 2]) (use Cons d in auto)
    then have "xs = zs \<and> s = t" by (intro Cons.IH) (use Cons.prems(2) Cons in auto)
    with e Cons show ?thesis by simp
  qed
qed

lemma join_inject:
  assumes "join_with '','' (map f xs) @ c # s = join_with '','' (map f ys) @ c # t"
    and "c \<in> {CHR '']'', CHR ''}''}"
    and "\<And>x y s t. x \<in> set xs \<Longrightarrow> y \<in> set ys \<Longrightarrow> f x @ s = f y @ t \<Longrightarrow> delim s \<Longrightarrow> delim t
      \<Longrightarrow> x = y \<and> s = t"
    and "\<And>x. x \<in> set xs \<union> set ys \<Longrightarrow> \<not> delim (f x)"
  shows "xs = ys \<and> s = t"
proof (cases xs)
  case Nil
  then show ?thesis
    using assms(1,2) assms(4) [of "hd ys"] by (cases ys; cases "f (hd ys)") (auto simp: join_with_Cons delim_def)
next
  case (Cons x us)
  show ?thesis
  proof (cases ys)
    case Nil
    then show ?thesis
      using assms(1,2) assms(4) [of x] Cons by (cases "f x") (auto simp: join_with_Cons delim_def)
  next
    case c: (Cons y vs)
    let ?a = "concat (map (\<lambda>y. '','' @ f y) us) @ c # s"
    let ?b = "concat (map (\<lambda>y. '','' @ f y) vs) @ c # t"
    have d: "delim (concat (map (\<lambda>y. '','' @ f y) us) @ c # u)" for us u
      using assms(2) by (cases us) (auto simp: delim_def)
    have "f x @ ?a = f y @ ?b" using assms(1) Cons c by (simp add: join_with_Cons comp_def)
    then have e: "x = y \<and> ?a = ?b" by (rule assms(3) [rotated 2]) (use Cons c d in auto)
    moreover have "us = vs \<and> s = t"
      by (rule tail_inject [OF conjunct2 [OF e] assms(2) assms(3)]) (use Cons c in auto)
    ultimately show ?thesis using Cons c by simp
  qed
qed

text \<open>The first character tells the constructor.\<close>

fun tag :: "json \<Rightarrow> nat" where
  "tag JNull = 0"
| "tag (JBool True) = 1"
| "tag (JBool False) = 2"
| "tag (JNum _) = 3"
| "tag JNegZero = 3"
| "tag (JStr _) = 4"
| "tag (JArr _) = 5"
| "tag (JObj _) = 6"

definition lead :: "char \<Rightarrow> nat" where
  "lead c =
     (if c = CHR ''n'' then 0 else if c = CHR ''t'' then 1 else if c = CHR ''f'' then 2
      else if num_char c then 3 else if c = CHR 0x22 then 4 else if c = CHR ''['' then 5
      else if c = CHR ''{'' then 6 else 7)"

lemma lead_num: "num_char c \<Longrightarrow> lead c = 3"
  by (auto simp: lead_def num_char_def)

lemma lead_delim: "c \<in> {CHR '','', CHR '']'', CHR ''}''} \<Longrightarrow> lead c = 7"
  by (elim insertE emptyE; simp add: lead_def num_char_def)

lemma delim_num: "delim s \<Longrightarrow> takeWhile num_char s = [] \<and> dropWhile num_char s = s"
  by (cases s) (auto simp: delim_def num_char_def)

lemma is_double_zero: "is_double 0"
  using round_double_safe [of 0] by (simp add: is_double_def safe_int_def max_safe_integer_def)

lemma stringify_lead:
  assumes "number_text show_num" and "double_json v"
  shows "\<exists>c r. stringify show_num v = c # r \<and> lead c = tag v"
proof (cases v)
  case (JNum n)
  with assms(2) obtain q where n: "n = Fin q" and q: "is_double q" by (cases n) auto
  from assms(1) q have "show_num q \<noteq> [] \<and> list_all num_char (show_num q)"
    by (simp add: number_text_def)
  then show ?thesis using JNum n by (cases "show_num q") (auto simp: lead_num)
next
  case (JBool b)
  then show ?thesis by (cases b) (auto simp: lead_def num_char_def)
next
  case JNegZero
  from assms(1) is_double_zero have "show_num 0 \<noteq> [] \<and> list_all num_char (show_num 0)" by (simp add: number_text_def)
  then show ?thesis using JNegZero by (cases "show_num 0") (auto simp: lead_num)
qed (auto simp: lead_def num_char_def quote_def)

lemma stringify_not_delim:
  "number_text show_num \<Longrightarrow> double_json v \<Longrightarrow> \<not> delim (stringify show_num v)"
proof -
  assume "number_text show_num" and "double_json v"
  then obtain c r where cr: "stringify show_num v = c # r" "lead c = tag v"
    using stringify_lead by blast
  moreover have "tag v \<noteq> 7" by (cases v rule: tag.cases) auto
  ultimately have "c \<notin> {CHR '','', CHR '']'', CHR ''}''}" using lead_delim [of c] by auto
  then show ?thesis using cr by (simp add: delim_def)
qed

lemma number_inject:
  assumes "number_text show_num" and "is_double q" and "is_double r"
    and "show_num q @ s = show_num r @ t" and "delim s" and "delim t"
  shows "q = r \<and> s = t"
proof -
  have all: "list_all num_char (show_num q)" "list_all num_char (show_num r)"
    using assms(1-3) by (simp_all add: number_text_def)
  have "takeWhile num_char (show_num q @ s) = show_num q"
    "takeWhile num_char (show_num r @ t) = show_num r"
    using all delim_num [OF assms(5)] delim_num [OF assms(6)]
    by (simp_all add: takeWhile_append2 list_all_iff)
  then have "show_num q = show_num r" using assms(4) by simp
  with assms show ?thesis by (auto simp: number_text_def)
qed

lemma stringify_tag:
  assumes "number_text show_num" and "double_json a" and "double_json b"
    and "stringify show_num a @ s = stringify show_num b @ t"
  shows "tag a = tag b"
  using stringify_lead [OF assms(1,2)] stringify_lead [OF assms(1,3)] assms(4) by auto

lemma stringify_inject:
  assumes "number_text show_num"
  shows "double_json a \<Longrightarrow> double_json b \<Longrightarrow> stringify show_num a @ s = stringify show_num b @ t
    \<Longrightarrow> delim s \<Longrightarrow> delim t \<Longrightarrow> no_negzero a \<Longrightarrow> no_negzero b \<Longrightarrow> a = b \<and> s = t"
proof (induction a arbitrary: b s t)
  case JNull
  with stringify_tag [OF assms JNull(1-3)] show ?case by (cases b rule: tag.cases) auto
next
  case (JBool x)
  with stringify_tag [OF assms JBool(1-3)] show ?case by (cases b rule: tag.cases; cases x) auto
next
  case (JNum n)
  then obtain m where b: "b = JNum m"
    using stringify_tag [OF assms JNum(1-3)] JNum(7) by (cases b rule: tag.cases) auto
  from JNum(1,2) b obtain q r where "n = Fin q" "m = Fin r" "is_double q" "is_double r"
    by (cases n; cases m) auto
  then show ?case using number_inject [OF assms, of q r s t] JNum b by simp
next
  case (JStr x)
  then obtain y where "b = JStr y"
    using stringify_tag [OF assms JStr(1-3)] by (cases b rule: tag.cases) auto
  with JStr show ?case using quote_inject [of x s y t] by simp
next
  case (JArr xs)
  then obtain ys where b: "b = JArr ys"
    using stringify_tag [OF assms JArr(2-4)] by (cases b rule: tag.cases) auto
  have "join_with '','' (map (stringify show_num) xs) @ CHR '']'' # s
      = join_with '','' (map (stringify show_num) ys) @ CHR '']'' # t"
    using JArr(4) b by simp
  then have "xs = ys \<and> s = t"
  proof (rule join_inject)
    show "x = y \<and> u = v" if "x \<in> set xs" "y \<in> set ys"
      "stringify show_num x @ u = stringify show_num y @ v" "delim u" "delim v" for x y u v
      using JArr(1) [OF that(1) _ _ that(3-5)] JArr(2,3,7,8) that(1,2) b by simp
  qed (use JArr(2,3) b stringify_not_delim [OF assms] in auto)
  with b show ?case by simp
next
  case (JObj kvs)
  let ?f = "\<lambda>(k, v). quote k @ '':'' @ stringify show_num v"
  from JObj obtain lws where b: "b = JObj lws"
    using stringify_tag [OF assms JObj(2-4)] by (cases b rule: tag.cases) auto
  have "join_with '','' (map ?f kvs) @ CHR ''}'' # s = join_with '','' (map ?f lws) @ CHR ''}'' # t"
    using JObj(4) b by simp
  then have "kvs = lws \<and> s = t"
  proof (rule join_inject)
    fix x y u v
    assume m: "x \<in> set kvs" "y \<in> set lws" and e: "?f x @ u = ?f y @ v" and d: "delim u" "delim v"
    obtain k w l z where xy: "x = (k, w)" "y = (l, z)" by (cases x; cases y) auto
    have "quote k @ '':'' @ stringify show_num w @ u = quote l @ '':'' @ stringify show_num z @ v"
      using e xy by simp
    then have "k = l \<and> '':'' @ stringify show_num w @ u = '':'' @ stringify show_num z @ v"
      by (rule quote_inject)
    then have k: "k = l" and e': "stringify show_num w @ u = stringify show_num z @ v" by simp_all
    have "double_json w" "double_json z" "no_negzero w" "no_negzero z" using JObj(2,3,7,8) b m xy by auto
    then have "w = z \<and> u = v" using JObj(1) [of x w, OF m(1) _ _ _ e' d] xy by simp
    with k xy show "x = y \<and> u = v" by simp
  next
    show "\<not> delim (?f x)" if "x \<in> set kvs \<union> set lws" for x
      by (cases x) (simp add: quote_def delim_def)
  qed simp
  with b show ?case by simp
qed simp

lemma double_finite: "double_json v \<Longrightarrow> finite_json v"
proof (induction v rule: double_json.induct)
  case (1 n)
  then show ?case by (cases n) auto
qed auto

lemma double_canon: "double_json (canon v) \<longleftrightarrow> double_json v"
proof (induction v rule: canon.induct)
  case (2 kvs)
  have "double_json (canon (JObj kvs)) \<longleftrightarrow> (\<forall>(k, v) \<in> set kvs. double_json (canon v))" by auto
  also have "\<dots> \<longleftrightarrow> double_json (JObj kvs)" using 2 by (auto split: prod.splits)
  finally show ?case .
qed auto

text \<open>The text drops the sign of zero.\<close>

lemma stringify_zero_signs: "stringify show_num (zero_signs v) = stringify show_num v"
proof (induction v rule: zero_signs.induct)
  case (2 xs)
  then have "map (stringify show_num) (map zero_signs xs) = map (stringify show_num) xs" by simp
  then show ?case by (simp only: zero_signs.simps stringify.simps)
next
  case (3 kvs)
  let ?f = "\<lambda>(k, v). quote k @ '':'' @ stringify show_num v"
  have "map ?f (map (\<lambda>(k, v). (k, zero_signs v)) kvs) = map ?f kvs" using 3 by (fastforce simp: case_prod_beta)
  then show ?case by (simp only: zero_signs.simps stringify.simps)
qed simp_all

lemma double_zero_signs: "double_json v \<Longrightarrow> double_json (zero_signs v)"
  by (induction v rule: zero_signs.induct) (auto simp: is_double_zero)

lemma canonical_texts:
  assumes "number_text show_num" and "double_json a" and "double_json b" and "wf_json a" and "wf_json b"
  shows "stringify show_num (canon a) = stringify show_num (canon b) \<longleftrightarrow> structurallyEqual (zero_signs a) (zero_signs b)"
proof -
  have "stringify show_num (canon a) = stringify show_num (canon b)
      \<longleftrightarrow> stringify show_num (canon (zero_signs a)) = stringify show_num (canon (zero_signs b))"
    by (simp only: stringify_zero_signs flip: zero_signs_canon)
  also have "\<dots> \<longleftrightarrow> canon (zero_signs a) = canon (zero_signs b)"
  proof -
    have "no_negzero (canon (zero_signs v))" for v by (simp flip: zero_signs_canon)
    then show ?thesis
      using stringify_inject [OF assms(1), of "canon (zero_signs a)" "canon (zero_signs b)" "[]" "[]"] assms(2,3)
      by (auto simp: double_canon double_zero_signs delim_def)
  qed
  also have "\<dots> \<longleftrightarrow> structurallyEqual (zero_signs a) (zero_signs b)"
    using structurallyEqual_canon zero_signs_wf assms(4,5) by blast
  finally show ?thesis .
qed

text \<open>C8: Canonical JSON is a key for JSON values up to the order of keys and the sign of zero. For values
  whose numbers are finite doubles and whose objects have no repeated key, \<open>canonicalJson\<close> returns
  a text for both; values that are structurally equal have the same text; the texts are the same
  string exactly when the values without the signs of their zeros are structurally equal; so for
  values in which -0 does not occur, the texts are equal exactly when \<open>structurallyEqual\<close> holds,
  which, other than the text, tells -0 from 0.\<close>

theorem canonicalJson_text_iff_structurallyEqual:
  assumes "number_text show_num" and "double_json a" and "double_json b"
    and "wf_json a" and "wf_json b"
  shows "\<exists>s t. canonicalJson show_num a = Inr s \<and> canonicalJson show_num b = Inr t
    \<and> (structurallyEqual a b \<longrightarrow> s = t)
    \<and> (s = t \<longleftrightarrow> structurallyEqual (zero_signs a) (zero_signs b))
    \<and> (no_negzero a \<and> no_negzero b \<longrightarrow> (s = t \<longleftrightarrow> structurallyEqual a b))"
proof -
  have "structurallyEqual a b \<Longrightarrow> stringify show_num (canon a) = stringify show_num (canon b)"
    using structurallyEqual_canon [OF assms(4,5)] by simp
  then show ?thesis
    using assms canonical_texts [OF assms] zero_signs_idle [of a] zero_signs_idle [of b]
    by (simp add: canonicalJson_eq double_finite)
qed

text \<open>A number text that satisfies the two laws: numerator and denominator in unary.\<close>

definition unary_text :: "rat \<Rightarrow> string" where
  "unary_text q =
     (case quotient_of q of (a, b) \<Rightarrow>
        replicate (nat (if 0 \<le> a then 2 * a else - 2 * a - 1)) CHR ''1''
        @ CHR ''e'' # replicate (nat b) CHR ''1'')"

lemma replicate_mark_inject:
  "c \<noteq> d \<Longrightarrow> replicate n c @ d # xs = replicate m c @ d # ys \<Longrightarrow> n = m \<and> xs = ys"
proof (induction n arbitrary: m)
  case 0
  then show ?case by (cases m) auto
next
  case (Suc n)
  then show ?case by (cases m) auto
qed

lemma unary_number_text: "number_text unary_text"
proof -
  have inj: "q = r" if e: "unary_text q = unary_text r" for q r
  proof -
    obtain a b c d where q: "quotient_of q = (a, b)" and r: "quotient_of r = (c, d)"
      by (cases "quotient_of q"; cases "quotient_of r") auto
    have "nat (if 0 \<le> a then 2 * a else - 2 * a - 1) = nat (if 0 \<le> c then 2 * c else - 2 * c - 1)
        \<and> replicate (nat b) CHR ''1'' = replicate (nat d) CHR ''1''"
      by (rule replicate_mark_inject [of _ "CHR ''e''"]) (use e q r in \<open>simp_all add: unary_text_def\<close>)
    then have n: "nat (if 0 \<le> a then 2 * a else - 2 * a - 1) = nat (if 0 \<le> c then 2 * c else - 2 * c - 1)"
      and d: "nat b = nat d" by (simp, metis length_replicate)
    from n have "a = c" by (cases "0 \<le> a"; cases "0 \<le> c") (simp_all add: nat_eq_iff, presburger+)
    moreover have "b = d"
      using d quotient_of_denom_pos [OF q] quotient_of_denom_pos [OF r] by (simp add: eq_nat_nat_iff)
    ultimately show ?thesis using quotient_of_div [OF q] quotient_of_div [OF r] by simp
  qed
  have "list_all num_char (unary_text q)" for q
    by (cases "quotient_of q") (auto simp: unary_text_def num_char_def list_all_iff in_set_replicate)
  moreover have "unary_text q \<noteq> []" for q by (cases "quotient_of q") (simp add: unary_text_def)
  ultimately show ?thesis using inj unfolding number_text_def by blast
qed

lemma is_double_int: "safe_int i \<Longrightarrow> is_double (of_int i)"
  by (simp add: is_double_def round_double_safe)

lemma canonicalJson_text_witness:
  "\<exists>s. canonicalJson unary_text (JObj [(''b'', JNum (Fin (of_int 1))), (''a'', JNull)]) = Inr s
    \<and> canonicalJson unary_text (JObj [(''a'', JNull), (''b'', JNum (Fin (of_int 1)))]) = Inr s"
proof -
  let ?x = "JObj [(''b'', JNum (Fin (of_int 1))), (''a'', JNull)]"
  let ?y = "JObj [(''a'', JNull), (''b'', JNum (Fin (of_int 1)))]"
  have "is_double (of_int 1)" by (rule is_double_int) (simp add: safe_int_def max_safe_integer_def)
  then have "\<exists>s t. canonicalJson unary_text ?x = Inr s \<and> canonicalJson unary_text ?y = Inr t
    \<and> (structurallyEqual ?x ?y \<longrightarrow> s = t) \<and> (s = t \<longleftrightarrow> structurallyEqual (zero_signs ?x) (zero_signs ?y))
    \<and> (no_negzero ?x \<and> no_negzero ?y \<longrightarrow> (s = t \<longleftrightarrow> structurallyEqual ?x ?y))"
    by (intro canonicalJson_text_iff_structurallyEqual unary_number_text) simp_all
  moreover have "structurallyEqual ?x ?y" by simp
  ultimately show ?thesis by blast
qed

end
