(* ===== verification/Predicates.thy ===== *)
theory Predicates
  imports JsonValue
begin

text \<open>
  \<open>src/decision/predicates.ts\<close>: the three-valued evaluation of rule predicates over the input
  document and the evaluated decisions, and \<open>resolveJsonPointer\<close> of \<open>src/decision/validate.ts\<close>.
  A decision is represented by its \<open>spec\<close>, a JSON object. \<open>None\<close> is JavaScript's \<open>undefined\<close>.
\<close>

section \<open>JSON pointers\<close>

text \<open>\<open>pointer.split('/')\<close>.\<close>

fun split_slash :: "string \<Rightarrow> string list" where
  "split_slash [] = [[]]"
| "split_slash (c # cs) =
     (if c = CHR ''/'' then [] # split_slash cs
      else case split_slash cs of [] \<Rightarrow> [[c]] | t # ts \<Rightarrow> (c # t) # ts)"

text \<open>\<open>token.replace(/~d/g, r)\<close> for a digit \<open>d\<close>.\<close>

fun replace_tilde :: "char \<Rightarrow> char \<Rightarrow> string \<Rightarrow> string" where
  "replace_tilde d r (a # b # cs) =
     (if a = CHR ''~'' \<and> b = d then r # replace_tilde d r cs else a # replace_tilde d r (b # cs))"
| "replace_tilde d r cs = cs"

definition decode_token :: "string \<Rightarrow> string" where
  "decode_token t = replace_tilde CHR ''0'' CHR ''~'' (replace_tilde CHR ''1'' CHR ''/'' t)"

definition is_digit :: "char \<Rightarrow> bool" where
  "is_digit c \<longleftrightarrow> 48 \<le> (of_char c :: nat) \<and> (of_char c :: nat) \<le> 57"

text \<open>The pattern of an array index and its value.\<close>

fun index_token :: "string \<Rightarrow> bool" where
  "index_token [] = False"
| "index_token [c] = is_digit c"
| "index_token (c # cs) = (is_digit c \<and> c \<noteq> CHR ''0'' \<and> list_all is_digit cs)"

definition decimal_value :: "string \<Rightarrow> nat" where
  "decimal_value s = foldl (\<lambda>n c. 10 * n + (of_char c - 48)) 0 s"

text \<open>One step of the loop; \<open>None\<close> is \<open>{ found: false }\<close>.\<close>

definition pointer_step :: "json \<Rightarrow> string \<Rightarrow> json option" where
  "pointer_step current encoded =
     (let token = decode_token encoded
      in case current of
           JArr xs \<Rightarrow>
             if \<not> index_token token then None
             else let index = decimal_value token
                  in if length xs \<le> index then None else Some (xs ! index)
         | JObj kvs \<Rightarrow> map_of kvs token
         | _ \<Rightarrow> None)"

fun pointer_walk :: "json \<Rightarrow> string list \<Rightarrow> json option" where
  "pointer_walk current [] = Some current"
| "pointer_walk current (t # ts) =
     (case pointer_step current t of None \<Rightarrow> None | Some next \<Rightarrow> pointer_walk next ts)"

text \<open>The outer option is \<open>found\<close>, the inner one the value, which is \<open>undefined\<close> only when the
  doc is and the pointer is empty.\<close>

definition resolveJsonPointer :: "json option \<Rightarrow> string \<Rightarrow> json option option" where
  "resolveJsonPointer doc pointer =
     (case pointer of
        [] \<Rightarrow> Some doc
      | c # rest \<Rightarrow>
          if c \<noteq> CHR ''/'' then None
          else case doc of None \<Rightarrow> None | Some value \<Rightarrow> map_option Some (pointer_walk value (split_slash rest)))"

section \<open>Predicates\<close>

datatype pred_source = FromInput string | FromDecision "string option" string

datatype compare_op = OpEq | OpNe | OpLt | OpLte | OpGt | OpGte

datatype predicate =
    PCompare compare_op pred_source json
  | PExists pred_source
  | PAll "predicate list"
  | PAny "predicate list"
  | PNot predicate

datatype truth = TTrue | TFalse | TUnknown

definition truth_of :: "bool \<Rightarrow> truth" where
  "truth_of b = (if b then TTrue else TFalse)"

text \<open>The value a source names; an empty or missing alias is falsy, so its doc is \<open>undefined\<close>.\<close>

fun source_root :: "json \<Rightarrow> json dict \<Rightarrow> pred_source \<Rightarrow> json option" where
  "source_root input decisions (FromInput p) = Some input"
| "source_root input decisions (FromDecision alias p) =
     (case alias of None \<Rightarrow> None | Some a \<Rightarrow> if a = [] then None else map_of decisions a)"

fun source_pointer :: "pred_source \<Rightarrow> string" where
  "source_pointer (FromInput p) = p"
| "source_pointer (FromDecision alias p) = p"

definition num_compare :: "compare_op \<Rightarrow> jsnum \<Rightarrow> jsnum \<Rightarrow> truth" where
  "num_compare opr a b =
     (case opr of
        OpLt \<Rightarrow> truth_of (num_lt a b)
      | OpLte \<Rightarrow> truth_of (num_le a b)
      | OpGt \<Rightarrow> truth_of (num_lt b a)
      | OpGte \<Rightarrow> truth_of (num_le b a)
      | _ \<Rightarrow> TUnknown)"

definition str_compare :: "compare_op \<Rightarrow> string \<Rightarrow> string \<Rightarrow> truth" where
  "str_compare opr a b =
     (case opr of
        OpLt \<Rightarrow> truth_of (a < b)
      | OpLte \<Rightarrow> truth_of (a \<le> b)
      | OpGt \<Rightarrow> truth_of (b < a)
      | OpGte \<Rightarrow> truth_of (b \<le> a)
      | _ \<Rightarrow> TUnknown)"

definition compare_values :: "compare_op \<Rightarrow> json option \<Rightarrow> json \<Rightarrow> truth" where
  "compare_values opr left right =
     (if opr = OpEq \<or> opr = OpNe then
        (let equal = (case left of None \<Rightarrow> False | Some l \<Rightarrow> structurallyEqual l right)
         in truth_of (if opr = OpEq then equal else \<not> equal))
      else case (Option.bind left json_number, json_number right) of
          (Some a, Some b) \<Rightarrow> if \<not> is_finite a \<or> \<not> is_finite b then TUnknown else num_compare opr a b
        | _ \<Rightarrow> (case (left, right) of (Some (JStr a), JStr b) \<Rightarrow> str_compare opr a b | _ \<Rightarrow> TUnknown))"

fun evaluatePredicate :: "predicate \<Rightarrow> json \<Rightarrow> json dict \<Rightarrow> truth" where
  "evaluatePredicate (PAll ps) input decisions =
     (let values = map (\<lambda>p. evaluatePredicate p input decisions) ps
      in if TFalse \<in> set values then TFalse else if TUnknown \<in> set values then TUnknown else TTrue)"
| "evaluatePredicate (PAny ps) input decisions =
     (let values = map (\<lambda>p. evaluatePredicate p input decisions) ps
      in if TTrue \<in> set values then TTrue else if TUnknown \<in> set values then TUnknown else TFalse)"
| "evaluatePredicate (PNot p) input decisions =
     (case evaluatePredicate p input decisions of
        TUnknown \<Rightarrow> TUnknown | TTrue \<Rightarrow> TFalse | TFalse \<Rightarrow> TTrue)"
| "evaluatePredicate (PExists src) input decisions =
     truth_of (resolveJsonPointer (source_root input decisions src) (source_pointer src) \<noteq> None)"
| "evaluatePredicate (PCompare opr src right) input decisions =
     (case resolveJsonPointer (source_root input decisions src) (source_pointer src) of
        None \<Rightarrow> TUnknown
      | Some left \<Rightarrow> compare_values opr left right)"

section \<open>Kleene logic\<close>

text \<open>The information order: \<open>TUnknown\<close> may become any value, a known value stays.\<close>

definition truth_le :: "truth \<Rightarrow> truth \<Rightarrow> bool" where
  "truth_le a b \<longleftrightarrow> a = TUnknown \<or> a = b"

fun truth_not :: "truth \<Rightarrow> truth" where
  "truth_not TUnknown = TUnknown"
| "truth_not TTrue = TFalse"
| "truth_not TFalse = TTrue"

lemma evaluate_PNot: "evaluatePredicate (PNot p) i d = truth_not (evaluatePredicate p i d)"
  by (cases "evaluatePredicate p i d") simp_all

lemma kleene_iffs:
  "(if TFalse \<in> S then TFalse else if TUnknown \<in> S then TUnknown else TTrue) = TTrue
     \<longleftrightarrow> (\<forall>t \<in> S. t = TTrue)"
  "(if TFalse \<in> S then TFalse else if TUnknown \<in> S then TUnknown else TTrue) = TFalse
     \<longleftrightarrow> TFalse \<in> S"
  "(if TTrue \<in> S then TTrue else if TUnknown \<in> S then TUnknown else TFalse) = TTrue
     \<longleftrightarrow> TTrue \<in> S"
  "(if TTrue \<in> S then TTrue else if TUnknown \<in> S then TUnknown else TFalse) = TFalse
     \<longleftrightarrow> (\<forall>t \<in> S. t = TFalse)"
  by (auto, metis truth.exhaust, metis truth.exhaust)

lemma image_flip: "t \<in> f ` S \<longleftrightarrow> (\<exists>x \<in> S. f x = t)"
  by auto

lemma evaluate_PAll_iffs:
  "evaluatePredicate (PAll ps) i d = TTrue \<longleftrightarrow> (\<forall>p \<in> set ps. evaluatePredicate p i d = TTrue)"
  "evaluatePredicate (PAll ps) i d = TFalse \<longleftrightarrow> (\<exists>p \<in> set ps. evaluatePredicate p i d = TFalse)"
  by (simp_all only: evaluatePredicate.simps Let_def kleene_iffs set_map)
    (simp_all add: image_flip)

lemma evaluate_PAny_iffs:
  "evaluatePredicate (PAny ps) i d = TTrue \<longleftrightarrow> (\<exists>p \<in> set ps. evaluatePredicate p i d = TTrue)"
  "evaluatePredicate (PAny ps) i d = TFalse \<longleftrightarrow> (\<forall>p \<in> set ps. evaluatePredicate p i d = TFalse)"
  by (simp_all only: evaluatePredicate.simps Let_def kleene_iffs set_map)
    (simp_all add: image_flip)

lemma truth_eqI: "(a = TTrue \<longleftrightarrow> b = TTrue) \<Longrightarrow> (a = TFalse \<longleftrightarrow> b = TFalse) \<Longrightarrow> a = b"
  by (cases a; cases b) auto

lemma truth_not_iffs [simp]:
  "truth_not t = TTrue \<longleftrightarrow> t = TFalse" "truth_not t = TFalse \<longleftrightarrow> t = TTrue"
  by (cases t; simp)+

text \<open>\<open>not\<close>, \<open>all\<close> and \<open>any\<close> form Kleene's logic: negation is an involution, \<open>all\<close> and \<open>any\<close>
  are dual under it, and \<open>all\<close> is true only if every member is, false as soon as one member is.\<close>

theorem predicate_kleene:
  "evaluatePredicate (PNot (PNot p)) i d = evaluatePredicate p i d
   \<and> evaluatePredicate (PNot (PAll ps)) i d = evaluatePredicate (PAny (map PNot ps)) i d
   \<and> evaluatePredicate (PNot (PAny ps)) i d = evaluatePredicate (PAll (map PNot ps)) i d
   \<and> (evaluatePredicate (PAll ps) i d = TTrue \<longleftrightarrow> list_all (\<lambda>q. evaluatePredicate q i d = TTrue) ps)
   \<and> (evaluatePredicate (PAll ps) i d = TFalse \<longleftrightarrow> list_ex (\<lambda>q. evaluatePredicate q i d = TFalse) ps)"
proof (intro conjI)
  show "evaluatePredicate (PNot (PNot p)) i d = evaluatePredicate p i d"
    by (simp only: evaluate_PNot) (cases "evaluatePredicate p i d", simp_all)
  show "evaluatePredicate (PNot (PAll ps)) i d = evaluatePredicate (PAny (map PNot ps)) i d"
    by (rule truth_eqI) (simp_all only: evaluate_PNot evaluate_PAny_iffs evaluate_PAll_iffs
        truth_not_iffs set_map ball_simps bex_simps)
  show "evaluatePredicate (PNot (PAny ps)) i d = evaluatePredicate (PAll (map PNot ps)) i d"
    by (rule truth_eqI) (simp_all only: evaluate_PNot evaluate_PAny_iffs evaluate_PAll_iffs
        truth_not_iffs set_map ball_simps bex_simps)
qed (simp_all only: evaluate_PAll_iffs list_all_iff list_ex_iff)

section \<open>More decisions never change a known truth value\<close>

text \<open>Predicates that neither test the existence of a decision's member nor compare a whole
  decision.\<close>

fun informative_source :: "pred_source \<Rightarrow> bool" where
  "informative_source (FromInput p) = True"
| "informative_source (FromDecision alias p) = (p \<noteq> [])"

fun informative :: "predicate \<Rightarrow> bool" where
  "informative (PCompare opr src v) = informative_source src"
| "informative (PExists src) = (case src of FromInput p \<Rightarrow> True | FromDecision alias p \<Rightarrow> False)"
| "informative (PAll ps) = (\<forall>p \<in> set ps. informative p)"
| "informative (PAny ps) = (\<forall>p \<in> set ps. informative p)"
| "informative (PNot p) = informative p"

lemma resolve_mono:
  assumes "map_of d \<subseteq>\<^sub>m map_of d'" and "informative_source src"
    and "resolveJsonPointer (source_root i d src) (source_pointer src) = Some v"
  shows "resolveJsonPointer (source_root i d' src) (source_pointer src) = Some v"
proof (cases src)
  case (FromInput p)
  with assms show ?thesis by simp
next
  case (FromDecision al p)
  with assms(2) obtain c r where p: "p = c # r" by (cases p) auto
  with assms(3) FromDecision obtain w where w: "source_root i d src = Some w"
    by (auto simp: resolveJsonPointer_def split: if_splits option.splits)
  with FromDecision obtain a where a: "al = Some a" "a \<noteq> []" "map_of d a = Some w"
    by (auto split: option.splits if_splits)
  then have "map_of d' a = Some w" using assms(1) by (auto simp: map_le_def dom_def)
  with a w FromDecision assms(3) show ?thesis by simp
qed

lemma truth_le_iff: "truth_le a b \<longleftrightarrow> (a = TTrue \<longrightarrow> b = TTrue) \<and> (a = TFalse \<longrightarrow> b = TFalse)"
  by (cases a; cases b) (simp_all add: truth_le_def)

text \<open>C9: Evaluating with more decisions is monotone in Kleene's information order: a predicate
  that was true (or false) stays so when further aliases become available, so a rule that fired
  on partial results still fires on complete ones. This holds for predicates that do not test
  the existence of a decision's member and do not compare a whole decision.\<close>

theorem predicate_information_monotone:
  assumes "informative p" and "map_of d \<subseteq>\<^sub>m map_of d'"
  shows "truth_le (evaluatePredicate p i d) (evaluatePredicate p i d')"
  using assms(1)
proof (induction p)
  case (PCompare opr src v)
  then show ?case
    using resolve_mono [OF assms(2), of src i] by (auto simp: truth_le_def split: option.splits)
next
  case (PExists src)
  then show ?case by (cases src) (simp_all add: truth_le_def)
next
  case (PAll ps)
  then show ?case unfolding truth_le_iff by (simp only: evaluate_PAll_iffs informative.simps) blast
next
  case (PAny ps)
  then show ?case unfolding truth_le_iff by (simp only: evaluate_PAny_iffs informative.simps) blast
next
  case (PNot p)
  then show ?case unfolding truth_le_iff evaluate_PNot truth_not_iffs by simp
qed

lemma predicate_information_monotone_witness:
  "truth_le
     (evaluatePredicate (PCompare OpEq (FromDecision (Some ''a'') ''/x'') JNull) JNull [])
     (evaluatePredicate (PCompare OpEq (FromDecision (Some ''a'') ''/x'') JNull) JNull
        [(''a'', JObj [(''x'', JNull)])])"
  by (rule predicate_information_monotone) (simp_all add: map_le_def)

text \<open>A missing decision is not unknown to every predicate: with the empty pointer the
  lookup of an absent alias succeeds with \<open>undefined\<close>, so \<open>exists\<close> and \<open>ne\<close> hold and \<open>eq\<close> fails
  for an alias that no evaluation supplied, whatever the operand.\<close>

theorem empty_pointer_finds_missing_decision:
  "evaluatePredicate (PExists (FromDecision (Some a) [])) i [] = TTrue
   \<and> evaluatePredicate (PCompare OpNe (FromDecision (Some a) []) v) i [] = TTrue
   \<and> evaluatePredicate (PCompare OpEq (FromDecision (Some a) []) v) i [] = TFalse"
  by (simp add: resolveJsonPointer_def compare_values_def truth_of_def Let_def)

end
