(* ===== verification/Compose.thy ===== *)
theory Compose
  imports JsonText Predicates
begin

text \<open>
  \<open>src/decision/compose.ts\<close>: composing the outcome of a ruleset from evaluated decisions.
  The environment holds what the file imports or takes from the runtime: the JSON Schema
  validator, \<open>String.prototype.localeCompare\<close> and the text of numbers.
\<close>

section \<open>Object.fromEntries and sortJson\<close>

definition array_index_key :: "string \<Rightarrow> bool" where
  "array_index_key k \<longleftrightarrow> index_token k \<and> decimal_value k < 4294967295"

text \<open>An object enumerates its array-index keys first, in ascending order, then the others in
  insertion order.\<close>

definition from_entries :: "'a dict \<Rightarrow> 'a dict" where
  "from_entries es =
     (let d = foldl (\<lambda>d (k, v). AList.update k v d) [] es
      in sort_key (\<lambda>(k, v). decimal_value k) (filter (\<lambda>(k, v). array_index_key k) d)
         @ filter (\<lambda>(k, v). \<not> array_index_key k) d)"

lemma size_member_js_sort [termination_simp]:
  "(k, v) \<in> set (js_sort cmp kvs) \<Longrightarrow> size v < Suc (size_list (size_prod (\<lambda>_. 0) size) kvs)"
  by (simp add: size_member)

fun sortJson :: "(string \<Rightarrow> string \<Rightarrow> int) \<Rightarrow> json \<Rightarrow> json" where
  "sortJson lc (JArr xs) = JArr (map (sortJson lc) xs)"
| "sortJson lc (JObj kvs) =
     JObj (from_entries (map (\<lambda>(k, v). (k, sortJson lc v)) (js_sort (\<lambda>a b. lc (fst a) (fst b)) kvs)))"
| "sortJson lc v = v"

section \<open>Rulesets\<close>

datatype composition_mode =
  FirstMatch | UniqueMode | AnyMode | Collect | CollectSum | CollectMin | CollectMax | CollectCount

datatype conflict_mode = ConflictError | ConflictReview

record rs_evaluation =
  ev_alias :: string
  ev_decision :: artifact_pin

record rs_rule =
  rule_id :: string
  rule_priority :: int
  rule_when :: predicate
  rule_outcome :: json

record ruleset =
  rs_evaluations :: "rs_evaluation list"
  rs_rules :: "rs_rule list"
  rs_composition :: composition_mode
  rs_conflict :: conflict_mode
  rs_defaultOutcome :: json
  rs_failureOutcome :: json
  rs_outputSchema :: json

record compose_env =
  locale_compare :: "string \<Rightarrow> string \<Rightarrow> int"
  number_string :: "rat \<Rightarrow> string"
  schema_accepts :: "json \<Rightarrow> json \<Rightarrow> bool"

datatype composition_status = CompletedStatus | DefaultedStatus | ReviewStatus | ErrorStatus

datatype composition_reason = NoReason | NoMatch | ConflictingOutcomes | EvaluationFailed

record composition_result =
  cr_status :: composition_status
  cr_reason :: composition_reason
  cr_outcome :: "json option"
  cr_matchedRules :: "string list"

text \<open>A field of \<open>null\<close> or of \<open>undefined\<close> is a \<open>TypeError\<close>.\<close>

datatype compose_error = SchemaRejected string | NonNumericOutcomes composition_mode | NullField string

definition validateAgainstSchema :: "compose_env \<Rightarrow> json \<Rightarrow> json \<Rightarrow> string \<Rightarrow> compose_error + unit" where
  "validateAgainstSchema env schema v label =
     (if schema_accepts env schema v then Inr () else Inl (SchemaRejected label))"

section \<open>Accepted evaluations\<close>

text \<open>The fields are read from the decision's JSON \<open>spec\<close>, as the source reads them.\<close>

definition read_field :: "json option \<Rightarrow> string \<Rightarrow> compose_error + json option" where
  "read_field v k = (case v of None \<Rightarrow> Inl (NullField k) | Some w \<Rightarrow> if w = JNull then Inl (NullField k) else Inr (jget w k))"

definition acceptedEvaluation :: "json \<Rightarrow> compose_error + bool" where
  "acceptedEvaluation spec =
     bindR (read_field (Some spec) ''status'') (\<lambda>status.
     if status \<noteq> Some (JStr ''success'') then Inr False
     else bindR (read_field (Some spec) ''acceptance'') (\<lambda>acceptance.
     if acceptance = None then Inr True
     else bindR (read_field acceptance ''disposition'') (\<lambda>disposition. Inr (disposition = Some (JStr ''act'')))))"

definition samePin :: "json \<Rightarrow> artifact_pin \<Rightarrow> compose_error + bool" where
  "samePin spec right =
     bindR (read_field (Some spec) ''decision'') (\<lambda>left.
     bindR (read_field left ''id'') (\<lambda>i.
       Inr (i = Some (JStr (pin_id right))
         \<and> Option.bind left (\<lambda>w. jget w ''version'') = Some (JStr (pin_version right))
         \<and> Option.bind left (\<lambda>w. jget w ''digest'') = Some (JStr (pin_digest right)))))"

fun predicate_aliases :: "predicate \<Rightarrow> string list" where
  "predicate_aliases (PAll ps) = concat (map predicate_aliases ps)"
| "predicate_aliases (PAny ps) = concat (map predicate_aliases ps)"
| "predicate_aliases (PNot p) = predicate_aliases p"
| "predicate_aliases (PExists src) =
     (case src of FromDecision (Some a) p \<Rightarrow> push_if (a \<noteq> []) a | _ \<Rightarrow> [])"
| "predicate_aliases (PCompare opr src v) =
     (case src of FromDecision (Some a) p \<Rightarrow> push_if (a \<noteq> []) a | _ \<Rightarrow> [])"

definition referencedDecisionAliases :: "ruleset \<Rightarrow> string list" where
  "referencedDecisionAliases rs =
     sort (remdups (concat (map (\<lambda>rule. predicate_aliases (rule_when rule)) (rs_rules rs))))"

definition requiredEvaluations :: "ruleset \<Rightarrow> (string \<times> rs_evaluation) list" where
  "requiredEvaluations rs =
     foldl (\<lambda>m e. AList.update (ev_alias e) e m) []
       (filter (\<lambda>e. ev_alias e \<in> set (referencedDecisionAliases rs)) (rs_evaluations rs))"

text \<open>\<open>xs.some(f)\<close>, where \<open>f\<close> may throw.\<close>

fun someR :: "('a \<Rightarrow> 'e + bool) \<Rightarrow> 'a list \<Rightarrow> 'e + bool" where
  "someR f [] = Inr False"
| "someR f (x # xs) = bindR (f x) (\<lambda>b. if b then Inr True else someR f xs)"

definition suppliedFailed :: "json dict \<Rightarrow> compose_error + bool" where
  "suppliedFailed evaluations =
     someR (\<lambda>(a, spec). bindR (acceptedEvaluation spec) (\<lambda>ok. Inr (\<not> ok))) evaluations"

definition requiredFailed :: "ruleset \<Rightarrow> json dict \<Rightarrow> compose_error + bool" where
  "requiredFailed rs evaluations =
     someR (\<lambda>(a, e). case map_of evaluations a of
         None \<Rightarrow> Inr True
       | Some spec \<Rightarrow>
           bindR (read_field (Some spec) ''alias'') (\<lambda>named.
           if named \<noteq> Some (JStr a) then Inr True
           else bindR (acceptedEvaluation spec) (\<lambda>ok.
           if \<not> ok then Inr True else bindR (samePin spec (ev_decision e)) (\<lambda>same. Inr (\<not> same)))))
       (requiredEvaluations rs)"

section \<open>Composition\<close>

definition conflictResult ::
    "compose_env \<Rightarrow> ruleset \<Rightarrow> rs_rule list \<Rightarrow> compose_error + composition_result" where
  "conflictResult env rs matches =
     (if rs_conflict rs = ConflictReview then
        thenR (validateAgainstSchema env (rs_outputSchema rs) (rs_failureOutcome rs) ''failureOutcome'')
          (Inr \<lparr>cr_status = ReviewStatus, cr_reason = ConflictingOutcomes,
             cr_outcome = Some (rs_failureOutcome rs), cr_matchedRules = map rule_id matches\<rparr>)
      else Inr \<lparr>cr_status = ErrorStatus, cr_reason = ConflictingOutcomes, cr_outcome = None,
             cr_matchedRules = map rule_id matches\<rparr>)"

definition finite_number :: "json \<Rightarrow> bool" where
  "finite_number v \<longleftrightarrow> (case json_number v of Some n \<Rightarrow> is_finite n | None \<Rightarrow> False)"

definition the_number :: "json \<Rightarrow> jsnum" where
  "the_number v = opt_default (json_number v) NaN"

text \<open>\<open>Math.min\<close> and \<open>Math.max\<close> take -0 for less than 0; the sum starts with 0 and is never -0.\<close>

definition min_outcome :: "json list \<Rightarrow> json" where
  "min_outcome values =
     (let m = foldl js_min PosInf (map the_number values) in
      if m = Fin 0 \<and> JNegZero \<in> set values then JNegZero else JNum m)"

definition max_outcome :: "json list \<Rightarrow> json" where
  "max_outcome values =
     (let m = foldl js_max NegInf (map the_number values) in
      if m = Fin 0 \<and> JNum (Fin 0) \<notin> set values then JNegZero else JNum m)"

definition aggregateCollect :: "json list \<Rightarrow> composition_mode \<Rightarrow> compose_error + json" where
  "aggregateCollect values mode =
     (if mode = CollectCount then Inr (JNum (num_of_int (int (length values))))
      else if \<not> list_all finite_number values then Inl (NonNumericOutcomes mode)
      else Inr (case mode of
             CollectSum \<Rightarrow> JNum (foldl js_add (Fin 0) (map the_number values))
           | CollectMin \<Rightarrow> min_outcome values
           | CollectMax \<Rightarrow> max_outcome values
           | _ \<Rightarrow> JArr values))"

definition completed ::
    "compose_env \<Rightarrow> ruleset \<Rightarrow> json \<Rightarrow> string \<Rightarrow> rs_rule list \<Rightarrow> compose_error + composition_result" where
  "completed env rs outcome label matched =
     thenR (validateAgainstSchema env (rs_outputSchema rs) outcome label)
       (Inr \<lparr>cr_status = CompletedStatus, cr_reason = NoReason, cr_outcome = Some outcome,
          cr_matchedRules = map rule_id matched\<rparr>)"

definition outcome_text :: "compose_env \<Rightarrow> rs_rule \<Rightarrow> string" where
  "outcome_text env rule = stringify (number_string env) (sortJson (locale_compare env) (rule_outcome rule))"

definition rule_order :: "compose_env \<Rightarrow> rs_rule \<Rightarrow> rs_rule \<Rightarrow> int" where
  "rule_order env left right =
     (if rule_priority right - rule_priority left \<noteq> 0 then rule_priority right - rule_priority left
      else locale_compare env (rule_id left) (rule_id right))"

definition matchingRules :: "compose_env \<Rightarrow> ruleset \<Rightarrow> json \<Rightarrow> json dict \<Rightarrow> rs_rule list" where
  "matchingRules env rs input evaluations =
     js_sort (rule_order env)
       (filter (\<lambda>rule. evaluatePredicate (rule_when rule) input evaluations = TTrue) (rs_rules rs))"

definition composeMatches ::
    "compose_env \<Rightarrow> ruleset \<Rightarrow> rs_rule list \<Rightarrow> compose_error + composition_result" where
  "composeMatches env rs matches =
     (if matches = [] then
        thenR (validateAgainstSchema env (rs_outputSchema rs) (rs_defaultOutcome rs) ''defaultOutcome'')
          (Inr \<lparr>cr_status = DefaultedStatus, cr_reason = NoMatch,
             cr_outcome = Some (rs_defaultOutcome rs), cr_matchedRules = []\<rparr>)
      else if rs_composition rs \<in> {Collect, CollectSum, CollectMin, CollectMax, CollectCount} then
        (let collected = map rule_outcome matches
         in bindR (if rs_composition rs = Collect then Inr (JArr collected)
                   else aggregateCollect collected (rs_composition rs))
              (\<lambda>outcome. completed env rs outcome ''collected outcome'' matches))
      else if rs_composition rs = UniqueMode \<and> length matches > 1 then conflictResult env rs matches
      else if rs_composition rs = AnyMode then
        (if \<exists>rule \<in> set matches. outcome_text env rule \<noteq> outcome_text env (hd matches)
         then conflictResult env rs matches
         else completed env rs (rule_outcome (hd matches)) ''matched outcome'' matches)
      else
        (let top = filter (\<lambda>rule. rule_priority rule = rule_priority (hd matches)) matches
         in if card (set (map (outcome_text env) top)) > 1 then conflictResult env rs top
            else completed env rs (rule_outcome (hd top)) ''matched outcome'' top))"

definition composeRuleset ::
    "compose_env \<Rightarrow> ruleset \<Rightarrow> json \<Rightarrow> json dict \<Rightarrow> compose_error + composition_result" where
  "composeRuleset env rs input evaluations =
     bindR (suppliedFailed evaluations) (\<lambda>supplied.
     bindR (requiredFailed rs evaluations) (\<lambda>required.
      if supplied \<or> required then
        thenR (validateAgainstSchema env (rs_outputSchema rs) (rs_failureOutcome rs) ''failureOutcome'')
          (Inr \<lparr>cr_status = ReviewStatus, cr_reason = EvaluationFailed,
             cr_outcome = Some (rs_failureOutcome rs), cr_matchedRules = []\<rparr>)
      else composeMatches env rs (matchingRules env rs input evaluations)))"

section \<open>The text of a sorted outcome determines it\<close>

lemma update_fresh: "k \<notin> fst ` set d \<Longrightarrow> AList.update k v d = d @ [(k, v)]"
  by (induction d) auto

lemma foldl_update_fresh:
  "distinct (map fst (d @ es)) \<Longrightarrow> foldl (\<lambda>d (k, v). AList.update k v d) d es = d @ es"
proof (induction es arbitrary: d)
  case Nil
  then show ?case by simp
next
  case (Cons e es)
  obtain k v where e: "e = (k, v)" by (cases e) auto
  with Cons.prems have "AList.update k v d = d @ [(k, v)]" by (intro update_fresh) auto
  then show ?case using Cons.IH [of "d @ [(k, v)]"] Cons.prems e by simp
qed

lemma from_entries_distinct:
  assumes "distinct (map fst es)"
  shows "set (from_entries es) = set es" and "distinct (map fst (from_entries es))"
proof -
  have d: "foldl (\<lambda>d (k, v). AList.update k v d) [] es = es"
    using foldl_update_fresh [of "[]" es] assms by simp
  show "set (from_entries es) = set es" by (auto simp: from_entries_def d Let_def)
  have inj: "inj_on fst (set es)" and "distinct es" using assms by (simp_all add: distinct_map)
  then show "distinct (map fst (from_entries es))"
    by (auto simp: from_entries_def d Let_def distinct_map inj_on_def)
qed

lemma canon_sortJson: "wf_json v \<Longrightarrow> canon (sortJson lc v) = canon v \<and> wf_json (sortJson lc v)"
proof (induction lc v rule: sortJson.induct)
  case (2 lc kvs)
  let ?s = "js_sort (\<lambda>a b. lc (fst a) (fst b)) kvs"
  let ?m = "map (\<lambda>(k, v). (k, sortJson lc v)) ?s"
  have dk: "distinct (map fst kvs)" using 2(2) by simp
  have ds: "distinct (map fst ?s)" using dk by (simp add: distinct_map)
  have dm: "distinct (map fst ?m)" using ds by (simp only: member_keys)
  have child: "canon (sortJson lc v) = canon v \<and> wf_json (sortJson lc v)" if "(k, v) \<in> set kvs" for k v
    using 2(1) [of "(k, v)" k v] 2(2) that by auto
  have "(\<lambda>(k, v). (k, canon v)) ` set (from_entries ?m) = (\<lambda>(k, v). (k, canon v)) ` set kvs"
    using child by (force simp: from_entries_distinct [OF dm] image_iff)
  then have "canon (JObj (from_entries ?m)) = canon (JObj kvs)"
    by (simp only: canon_JObj_iff [OF from_entries_distinct(2) [OF dm] dk])
  moreover have "wf_json (JObj (from_entries ?m))"
    using child from_entries_distinct [OF dm] by auto
  ultimately show ?case by simp
qed auto

lemma double_sortJson: "wf_json v \<Longrightarrow> double_json (sortJson lc v) \<longleftrightarrow> double_json v"
  using canon_sortJson [of v lc] double_canon [of "sortJson lc v"] double_canon [of v] by simp

text \<open>Rulesets whose outcomes are JSON documents.\<close>

definition wf_outcomes :: "ruleset \<Rightarrow> bool" where
  "wf_outcomes rs \<longleftrightarrow>
     (\<forall>rule \<in> set (rs_rules rs). wf_json (rule_outcome rule) \<and> double_json (rule_outcome rule))"

lemma outcome_text_equal:
  assumes "number_text (number_string env)" and "wf_outcomes rs"
    and "a \<in> set (rs_rules rs)" and "b \<in> set (rs_rules rs)"
    and "outcome_text env a = outcome_text env b"
  shows "structurallyEqual (zero_signs (rule_outcome a)) (zero_signs (rule_outcome b))"
proof -
  have w: "wf_json (rule_outcome a)" "wf_json (rule_outcome b)"
    "double_json (rule_outcome a)" "double_json (rule_outcome b)"
    using assms(2-4) by (auto simp: wf_outcomes_def)
  let ?f = "\<lambda>rule. zero_signs (sortJson (locale_compare env) (rule_outcome rule))"
  have "?f a = ?f b"
    using stringify_inject [OF assms(1), of "?f a" "?f b" "[]" "[]"] assms(5) w
    by (simp add: outcome_text_def stringify_zero_signs double_zero_signs double_sortJson delim_def)
  then have "canon (?f a) = canon (?f b)" by simp
  then have "canon (zero_signs (rule_outcome a)) = canon (zero_signs (rule_outcome b))"
    using canon_sortJson w by (simp flip: zero_signs_canon)
  then show ?thesis using structurallyEqual_canon zero_signs_wf w by blast
qed

section \<open>Rule order\<close>

definition separating_ids :: "compose_env \<Rightarrow> ruleset \<Rightarrow> bool" where
  "separating_ids env rs \<longleftrightarrow>
     distinct (map rule_id (rs_rules rs))
     \<and> separating_on (rule_id ` set (rs_rules rs)) (locale_compare env)"

lemma separating_rule_order:
  assumes "separating_ids env rs"
  shows "separating_on (set (rs_rules rs)) (rule_order env)"
proof -
  have sep: "separating_on (rule_id ` set (rs_rules rs)) (locale_compare env)"
    and inj: "inj_on rule_id (set (rs_rules rs))"
    using assms by (simp_all add: separating_ids_def distinct_map)
  show ?thesis
    unfolding separating_on_def
  proof (intro conjI ballI impI)
    fix x y assume "x \<in> set (rs_rules rs)" "y \<in> set (rs_rules rs)"
    then show "rule_order env x y \<le> 0 \<or> rule_order env y x \<le> 0"
      using separating_onD(1) [OF sep] by (auto simp: rule_order_def)
  next
    fix x y z assume "x \<in> set (rs_rules rs)" "y \<in> set (rs_rules rs)" "z \<in> set (rs_rules rs)"
      and "rule_order env x y \<le> 0" "rule_order env y z \<le> 0"
    then show "rule_order env x z \<le> 0"
      using separating_onD(2) [OF sep, of "rule_id x" "rule_id y" "rule_id z"]
      by (auto simp: rule_order_def split: if_splits)
  next
    fix x y assume xy: "x \<in> set (rs_rules rs)" "y \<in> set (rs_rules rs)"
      and "rule_order env x y \<le> 0" "rule_order env y x \<le> 0"
    then have "rule_id x = rule_id y"
      using separating_onD(3) [OF sep, of "rule_id x" "rule_id y"]
      by (auto simp: rule_order_def split: if_splits)
    with xy inj show "x = y" by (auto dest: inj_onD)
  qed
qed

lemma set_matchingRules:
  "set (matchingRules env rs input evs) =
     {rule \<in> set (rs_rules rs). evaluatePredicate (rule_when rule) input evs = TTrue}"
  by (simp add: matchingRules_def)

lemma matching_sorted:
  assumes "separating_ids env rs"
  shows "sorted_wrt (\<lambda>a b. rule_order env a b \<le> 0) (matchingRules env rs input evs)"
  unfolding matchingRules_def
  by (rule sorted_js_sort_on [OF separating_rule_order [OF assms]]) auto

lemma hd_matching_priority:
  assumes "separating_ids env rs" and "rule \<in> set (matchingRules env rs input evs)"
  shows "rule_priority rule \<le> rule_priority (hd (matchingRules env rs input evs))"
  using matching_sorted [OF assms(1), of input evs] assms(2)
  by (cases "matchingRules env rs input evs") (auto simp: rule_order_def split: if_splits)

section \<open>Correctness of composition\<close>

lemmas compose_defs =
  completed_def conflictResult_def validateAgainstSchema_def thenR_def bindR_def

lemma conflictResult_not_completed:
  "conflictResult env rs ms = Inr r \<Longrightarrow> cr_status r = ReviewStatus \<or> cr_status r = ErrorStatus"
  by (auto simp: compose_defs split: if_splits)

lemma completed_Inr:
  "completed env rs v label ms = Inr r \<Longrightarrow>
     schema_accepts env (rs_outputSchema rs) v \<and> cr_outcome r = Some v
     \<and> cr_matchedRules r = map rule_id ms \<and> cr_status r = CompletedStatus"
  by (auto simp: compose_defs split: if_splits)

lemma someR_False: "someR f xs = Inr False \<Longrightarrow> x \<in> set xs \<Longrightarrow> f x = Inr False"
  by (induction xs) (auto split: if_splits)

lemma composeRuleset_not_failed:
  assumes "composeRuleset env rs input evs = Inr r"
    and "cr_status r = CompletedStatus \<or> cr_status r = DefaultedStatus"
  shows "suppliedFailed evs = Inr False" and "requiredFailed rs evs = Inr False"
    and "composeMatches env rs (matchingRules env rs input evs) = Inr r"
proof -
  obtain sf rf where f: "suppliedFailed evs = Inr sf" "requiredFailed rs evs = Inr rf"
    using assms(1) by (auto simp: composeRuleset_def)
  have "\<not> (sf \<or> rf)"
    using assms f by (auto simp: composeRuleset_def validateAgainstSchema_def thenR_def split: if_splits)
  then show "suppliedFailed evs = Inr False" "requiredFailed rs evs = Inr False"
    "composeMatches env rs (matchingRules env rs input evs) = Inr r"
    using assms(1) f by (simp_all add: composeRuleset_def)
qed

lemma map_of_foldl_update:
  "map_of (foldl (\<lambda>m e. AList.update (f e) e m) d xs) = foldl (\<lambda>m e. m(f e \<mapsto> e)) (map_of d) xs"
  by (induction xs arbitrary: d) (simp_all add: update_conv')

lemma foldl_upd_distinct:
  "distinct (map f xs) \<Longrightarrow> e \<in> set xs \<Longrightarrow> foldl (\<lambda>m e. m(f e \<mapsto> e)) d xs (f e) = Some e"
proof (induction xs arbitrary: d)
  case Nil
  then show ?case by simp
next
  case (Cons x xs)
  have fresh: "foldl (\<lambda>m e. m(f e \<mapsto> e)) d xs k = d k" if "k \<notin> f ` set xs" for d k
    using that by (induction xs arbitrary: d) auto
  show ?case
  proof (cases "e \<in> set xs")
    case True
    with Cons show ?thesis by simp
  next
    case False
    with Cons.prems have "e = x" "f e \<notin> f ` set xs" by auto
    then show ?thesis using fresh [of "f x" "d(f x \<mapsto> x)"]
      by (simp del: fun_upd_apply add: fun_upd_same)
  qed
qed

lemma required_member:
  assumes "distinct (map ev_alias (rs_evaluations rs))" and "e \<in> set (rs_evaluations rs)"
    and "ev_alias e \<in> set (referencedDecisionAliases rs)"
  shows "(ev_alias e, e) \<in> set (requiredEvaluations rs)"
proof -
  have "distinct (map ev_alias (filter (\<lambda>e. ev_alias e \<in> set (referencedDecisionAliases rs)) (rs_evaluations rs)))"
    using assms(1) by (simp add: distinct_map_filter)
  then have "map_of (requiredEvaluations rs) (ev_alias e) = Some e"
    unfolding requiredEvaluations_def map_of_foldl_update
    by (rule foldl_upd_distinct) (use assms(2,3) in simp)
  then show ?thesis by (rule map_of_SomeD)
qed

text \<open>C6: Composition fails closed. A ruleset whose evaluation aliases are distinct completes or
  falls back to its default outcome only if every supplied evaluation was accepted (successful,
  and acted on where an acceptance policy spoke) and every alias that the ruleset declares in its
  evaluations and a rule refers to has an evaluation recorded under that alias and pinned to the
  declared decision. An alias that no evaluation declares is not required by \<open>composeRuleset\<close>; the
  validation of a ruleset refuses it.\<close>

theorem compose_fails_closed:
  assumes "composeRuleset env rs input evs = Inr r"
    and "cr_status r = CompletedStatus \<or> cr_status r = DefaultedStatus"
    and "distinct (map ev_alias (rs_evaluations rs))"
  shows "(\<forall>(a, spec) \<in> set evs. acceptedEvaluation spec = Inr True)
    \<and> (\<forall>e \<in> set (rs_evaluations rs). ev_alias e \<in> set (referencedDecisionAliases rs) \<longrightarrow>
         (\<exists>spec. map_of evs (ev_alias e) = Some spec \<and> jget spec ''alias'' = Some (JStr (ev_alias e))
            \<and> acceptedEvaluation spec = Inr True \<and> samePin spec (ev_decision e) = Inr True))"
proof (intro conjI ballI impI)
  show "case x of (a, spec) \<Rightarrow> acceptedEvaluation spec = Inr True" if "x \<in> set evs" for x
    using someR_False [OF composeRuleset_not_failed(1) [OF assms(1,2), unfolded suppliedFailed_def] that]
    by (auto split: prod.splits)
  fix e assume "e \<in> set (rs_evaluations rs)" "ev_alias e \<in> set (referencedDecisionAliases rs)"
  then have "(ev_alias e, e) \<in> set (requiredEvaluations rs)" by (rule required_member [OF assms(3)])
  from someR_False [OF composeRuleset_not_failed(2) [OF assms(1,2), unfolded requiredFailed_def] this]
  show "\<exists>spec. map_of evs (ev_alias e) = Some spec \<and> jget spec ''alias'' = Some (JStr (ev_alias e))
      \<and> acceptedEvaluation spec = Inr True \<and> samePin spec (ev_decision e) = Inr True"
    by (auto simp: read_field_def split: option.splits if_splits)
qed

lemma composeMatches_rules:
  "composeMatches env (rs\<lparr>rs_rules := rules\<rparr>) ms = composeMatches env rs ms"
  by (cases rs) (simp only: composeMatches_def conflictResult_def completed_def ruleset.simps)

lemma composeMatches_any:
  "ms \<noteq> [] \<Longrightarrow> rs_composition rs = AnyMode \<Longrightarrow> composeMatches env rs ms =
     (if \<exists>rule \<in> set ms. outcome_text env rule \<noteq> outcome_text env (hd ms)
      then conflictResult env rs ms
      else completed env rs (rule_outcome (hd ms)) ''matched outcome'' ms)"
  by (simp add: composeMatches_def)

lemma composeMatches_single:
  "ms \<noteq> [] \<Longrightarrow> rs_composition rs \<in> {FirstMatch, UniqueMode} \<Longrightarrow> composeMatches env rs ms =
     (let top = filter (\<lambda>rule. rule_priority rule = rule_priority (hd ms)) ms
      in if (rs_composition rs = UniqueMode \<and> length ms > 1) then conflictResult env rs ms
         else if card (set (map (outcome_text env) top)) > 1 then conflictResult env rs top
         else completed env rs (rule_outcome (hd top)) ''matched outcome'' top)"
  by (elim insertE emptyE; simp add: composeMatches_def Let_def)

lemma guarded:
  "(if c then x else if d then y else z) = w \<Longrightarrow> x \<noteq> w \<Longrightarrow> y \<noteq> w \<Longrightarrow> \<not> d \<and> z = w"
  by (simp split: if_splits)

lemma single_outcome_sound:
  assumes "composeMatches env rs ms = Inr r" and "cr_status r = CompletedStatus"
    and "rs_composition rs \<in> {FirstMatch, UniqueMode, AnyMode}"
  shows "ms \<noteq> [] \<and> cr_outcome r = Some (rule_outcome (hd ms))
    \<and> schema_accepts env (rs_outputSchema rs) (rule_outcome (hd ms))
    \<and> rule_id (hd ms) \<in> set (cr_matchedRules r)
    \<and> (\<forall>o2 \<in> set ms. rule_priority o2 = rule_priority (hd ms) \<longrightarrow>
          outcome_text env o2 = outcome_text env (hd ms))"
proof -
  let ?top = "filter (\<lambda>rule. rule_priority rule = rule_priority (hd ms)) ms"
  have ne: "ms \<noteq> []" using assms(1,2) by (auto simp: composeMatches_def compose_defs split: if_splits)
  then obtain m ns where ms: "ms = m # ns" by (cases ms) auto
  have not_conflict: "conflictResult env rs xs \<noteq> Inr r" for xs
    using assms(2) conflictResult_not_completed [of env rs xs r] by auto
  show ?thesis
  proof (cases "rs_composition rs = AnyMode")
    case True
    have "\<not> (\<exists>rule \<in> set ms. outcome_text env rule \<noteq> outcome_text env (hd ms))"
      "completed env rs (rule_outcome (hd ms)) ''matched outcome'' ms = Inr r"
      using assms(1) not_conflict [of ms] by (simp_all only: composeMatches_any [OF ne True] split: if_splits) simp_all
    then show ?thesis using completed_Inr ne ms by fastforce
  next
    case False
    then have fu: "rs_composition rs \<in> {FirstMatch, UniqueMode}" using assms(3) by blast
    have "\<not> 1 < card (set (map (outcome_text env) ?top))
        \<and> completed env rs (rule_outcome (hd ?top)) ''matched outcome'' ?top = Inr r"
      using assms(1) unfolding composeMatches_single [OF ne fu] Let_def
      by (rule guarded [OF _ not_conflict not_conflict])
    then have single: "\<not> 1 < card (set (map (outcome_text env) ?top))"
      and c: "completed env rs (rule_outcome (hd ?top)) ''matched outcome'' ?top = Inr r"
      by (rule conjunct1, rule conjunct2)
    have "outcome_text env o2 = outcome_text env (hd ms)"
      if "o2 \<in> set ms" "rule_priority o2 = rule_priority (hd ms)" for o2
    proof (rule ccontr)
      assume ne2: "outcome_text env o2 \<noteq> outcome_text env (hd ms)"
      have "{outcome_text env o2, outcome_text env (hd ms)} \<subseteq> set (map (outcome_text env) ?top)"
        using that ms by auto
      then have "card {outcome_text env o2, outcome_text env (hd ms)} \<le> card (set (map (outcome_text env) ?top))"
        by (intro card_mono) simp_all
      with ne2 single show False by simp
    qed
    then have texts: "\<forall>o2 \<in> set ms. rule_priority o2 = rule_priority (hd ms) \<longrightarrow>
        outcome_text env o2 = outcome_text env (hd ms)" by blast
    have top: "hd ?top = hd ms" "rule_id (hd ms) \<in> set (map rule_id ?top)" by (simp_all add: ms)
    show ?thesis
      using completed_Inr [OF c] texts ne top(2) unfolding top(1) by metis
  qed
qed

text \<open>In the modes that yield one outcome, a completed composition returns the outcome of a
  rule that fired with the highest priority of all fired rules; the outcome passed the output
  schema, and every fired rule of that priority has, up to the sign of zero, a structurally equal
  outcome, so the choice among them does not matter. The rule ids are distinct strings that the
  collation separates.\<close>

theorem compose_single_outcome_sound:
  assumes "composeRuleset env rs input evs = Inr r" and "cr_status r = CompletedStatus"
    and "rs_composition rs \<in> {FirstMatch, UniqueMode, AnyMode}"
    and "separating_ids env rs" and "number_text (number_string env)" and "wf_outcomes rs"
  shows "\<exists>rule \<in> set (rs_rules rs).
     evaluatePredicate (rule_when rule) input evs = TTrue \<and> cr_outcome r = Some (rule_outcome rule)
     \<and> rule_id rule \<in> set (cr_matchedRules r)
     \<and> schema_accepts env (rs_outputSchema rs) (rule_outcome rule)
     \<and> (\<forall>rule' \<in> set (rs_rules rs). evaluatePredicate (rule_when rule') input evs = TTrue \<longrightarrow>
          rule_priority rule' < rule_priority rule
          \<or> rule_priority rule' = rule_priority rule
            \<and> structurallyEqual (zero_signs (rule_outcome rule')) (zero_signs (rule_outcome rule)))"
proof -
  let ?ms = "matchingRules env rs input evs"
  have m: "composeMatches env rs ?ms = Inr r"
    using composeRuleset_not_failed(3) [OF assms(1)] assms(2) by blast
  note sound = single_outcome_sound [OF m assms(2,3)]
  have hd: "hd ?ms \<in> set (rs_rules rs)" "evaluatePredicate (rule_when (hd ?ms)) input evs = TTrue"
    using sound set_matchingRules [of env rs input evs] hd_in_set [of ?ms] by auto
  have "rule_priority rule' < rule_priority (hd ?ms) \<or> rule_priority rule' = rule_priority (hd ?ms)
      \<and> structurallyEqual (zero_signs (rule_outcome rule')) (zero_signs (rule_outcome (hd ?ms)))"
    if "rule' \<in> set (rs_rules rs)" "evaluatePredicate (rule_when rule') input evs = TTrue" for rule'
  proof -
    have "rule' \<in> set ?ms" using that set_matchingRules by blast
    then show ?thesis
      using hd_matching_priority [OF assms(4), of rule' input evs] sound
        outcome_text_equal [OF assms(5,6) that(1) hd(1)] by fastforce
  qed
  with hd sound show ?thesis by blast
qed

text \<open>C7: The order in which the rules are declared does not influence the composition, provided that
  the rule ids are distinct strings which \<open>localeCompare\<close> orders totally and never calls equal:
  then two rulesets that differ only in the order of their rules give the same result on every
  input, the error cases included. (Two distinct ids that the collation calls equal stay in the
  order of their declaration.)\<close>

theorem compose_declaration_order_irrelevant:
  assumes "separating_ids env rs" and "set rules' = set (rs_rules rs)" and "distinct (map rule_id rules')"
  shows "composeRuleset env (rs\<lparr>rs_rules := rules'\<rparr>) input evs = composeRuleset env rs input evs"
proof -
  let ?rs = "rs\<lparr>rs_rules := rules'\<rparr>"
  have "set (referencedDecisionAliases ?rs) = set (referencedDecisionAliases rs)"
    using assms(2) by (simp add: referencedDecisionAliases_def)
  then have "requiredEvaluations ?rs = requiredEvaluations rs"
    by (simp add: requiredEvaluations_def)
  then have failed: "requiredFailed ?rs evs = requiredFailed rs evs"
    by (simp add: requiredFailed_def)
  have "matchingRules env ?rs input evs = matchingRules env rs input evs"
    unfolding matchingRules_def
    by (rule js_sort_set_eq [symmetric])
      (use assms separating_on_subset [OF separating_rule_order [OF assms(1)]]
        in \<open>auto simp: separating_ids_def distinct_map\<close>)
  then show ?thesis
    by (simp add: composeRuleset_def failed composeMatches_rules cong: if_cong)
qed

section \<open>A concrete ruleset\<close>

definition demo_env :: compose_env where
  "demo_env = \<lparr>locale_compare = code_unit_compare, number_string = unary_text,
     schema_accepts = (\<lambda>schema v. True)\<rparr>"

definition demo_ruleset :: ruleset where
  "demo_ruleset =
     \<lparr>rs_evaluations = [\<lparr>ev_alias = ''a'',
          ev_decision = \<lparr>pin_id = ''d'', pin_version = ''1'', pin_digest = ''x''\<rparr>\<rparr>],
      rs_rules =
        [\<lparr>rule_id = ''low'', rule_priority = 1, rule_when = PAll [], rule_outcome = JNull\<rparr>,
         \<lparr>rule_id = ''high'', rule_priority = 2,
          rule_when = PCompare OpEq (FromDecision (Some ''a'') ''/value'') (JStr ''yes''),
          rule_outcome = JBool True\<rparr>],
      rs_composition = FirstMatch, rs_conflict = ConflictReview,
      rs_defaultOutcome = JNull, rs_failureOutcome = JStr ''review'', rs_outputSchema = JNull\<rparr>"

definition demo_evaluations :: "json dict" where
  "demo_evaluations =
     [(''a'', JObj
        [(''alias'', JStr ''a''), (''status'', JStr ''success''), (''value'', JStr ''yes''),
         (''decision'', JObj [(''id'', JStr ''d''), (''version'', JStr ''1''), (''digest'', JStr ''x'')])])]"

definition demo_result :: composition_result where
  "demo_result = \<lparr>cr_status = CompletedStatus, cr_reason = NoReason,
     cr_outcome = Some (JBool True), cr_matchedRules = [''high'']\<rparr>"

lemma demo_referenced: "referencedDecisionAliases demo_ruleset = [''a'']"
  by (simp add: referencedDecisionAliases_def demo_ruleset_def push_if_def)

lemma demo_compose: "composeRuleset demo_env demo_ruleset JNull demo_evaluations = Inr demo_result"
proof -
  have s: "suppliedFailed demo_evaluations = Inr False"
    by (simp add: suppliedFailed_def demo_evaluations_def acceptedEvaluation_def read_field_def)
  have "requiredEvaluations demo_ruleset = [(''a'', hd (rs_evaluations demo_ruleset))]"
    by (simp add: requiredEvaluations_def demo_referenced) (simp add: demo_ruleset_def)
  then have f: "requiredFailed demo_ruleset demo_evaluations = Inr False"
    by (simp add: requiredFailed_def)
      (auto simp: demo_evaluations_def demo_ruleset_def acceptedEvaluation_def samePin_def read_field_def)
  have m: "matchingRules demo_env demo_ruleset JNull demo_evaluations = rev (rs_rules demo_ruleset)"
    by (simp add: matchingRules_def demo_ruleset_def demo_evaluations_def demo_env_def rule_order_def
        resolveJsonPointer_def pointer_step_def decode_token_def compare_values_def truth_of_def)
  show ?thesis
    using s f by (simp add: composeRuleset_def m)
      (simp add: demo_ruleset_def demo_result_def composeMatches_single Let_def compose_defs demo_env_def)
qed

lemma demo_separating: "separating_ids demo_env demo_ruleset"
  by (simp add: separating_ids_def demo_env_def separating_code_unit) (simp add: demo_ruleset_def)

lemma compose_fails_closed_witness:
  "acceptedEvaluation (snd (hd demo_evaluations)) = Inr True
    \<and> (\<exists>spec. map_of demo_evaluations ''a'' = Some spec \<and> jget spec ''alias'' = Some (JStr ''a'')
         \<and> acceptedEvaluation spec = Inr True \<and> samePin spec (ev_decision (hd (rs_evaluations demo_ruleset))) = Inr True)"
proof -
  let ?e = "hd (rs_evaluations demo_ruleset)"
  have e: "?e \<in> set (rs_evaluations demo_ruleset)" "ev_alias ?e = ''a''"
    by (simp_all add: demo_ruleset_def)
  have "hd demo_evaluations \<in> set demo_evaluations" by (simp add: demo_evaluations_def)
  moreover have "distinct (map ev_alias (rs_evaluations demo_ruleset))" by (simp add: demo_ruleset_def)
  ultimately show ?thesis
    using compose_fails_closed [OF demo_compose] e
    by (fastforce simp: demo_result_def demo_referenced)
qed

lemma compose_single_outcome_sound_witness:
  "\<exists>rule \<in> set (rs_rules demo_ruleset).
     evaluatePredicate (rule_when rule) JNull demo_evaluations = TTrue
     \<and> cr_outcome demo_result = Some (rule_outcome rule)
     \<and> rule_id rule \<in> set (cr_matchedRules demo_result)"
proof -
  have "number_text (number_string demo_env)"
    "wf_outcomes demo_ruleset" "rs_composition demo_ruleset \<in> {FirstMatch, UniqueMode, AnyMode}"
    "cr_status demo_result = CompletedStatus"
    by (simp_all add: demo_result_def demo_ruleset_def demo_env_def unary_number_text wf_outcomes_def)
  then show ?thesis using compose_single_outcome_sound [OF demo_compose] demo_separating by blast
qed

lemma compose_declaration_order_witness:
  "composeRuleset demo_env (demo_ruleset\<lparr>rs_rules := rev (rs_rules demo_ruleset)\<rparr>) JNull demo_evaluations
   = composeRuleset demo_env demo_ruleset JNull demo_evaluations"
  by (rule compose_declaration_order_irrelevant [OF demo_separating]) (auto simp: demo_ruleset_def)

end
