(* ===== verification/GateLattice.thy ===== *)
theory GateLattice
  imports Prelude
begin

text \<open>
  \<open>src/gates/lattice.ts\<close> (severity order of gate outcomes and the never-upgrade check) and
  \<open>src/gates/upstream-ceiling.ts\<close> (the ceiling an eval-integrity report puts on a gate
  decision, under each retained report policy).
\<close>

section \<open>The outcome lattice\<close>

datatype gate_outcome = PROMOTE | HOLD | ROLLBACK

fun GATE_RANK :: "gate_outcome \<Rightarrow> nat" where
  "GATE_RANK PROMOTE = 0"
| "GATE_RANK HOLD = 1"
| "GATE_RANK ROLLBACK = 2"

definition maxOutcome :: "gate_outcome list \<Rightarrow> gate_outcome" where
  "maxOutcome outcomes =
     foldl (\<lambda>worst outcome. if GATE_RANK outcome > GATE_RANK worst then outcome else worst)
       PROMOTE outcomes"

definition ceilingDecision :: "gate_outcome \<Rightarrow> gate_outcome list \<Rightarrow> gate_outcome" where
  "ceilingDecision decision ceilings = maxOutcome (decision # ceilings)"

text \<open>\<open>GateDecisionUpgradeError\<close> carries the decision and the component it would upgrade.\<close>

datatype upgrade_error = GateDecisionUpgradeError gate_outcome gate_outcome

definition assertDecisionCeiling ::
    "gate_outcome \<Rightarrow> gate_outcome list \<Rightarrow> upgrade_error + unit" where
  "assertDecisionCeiling decision components =
     (let component = maxOutcome components
      in if GATE_RANK decision < GATE_RANK component
         then Inl (GateDecisionUpgradeError decision component) else Inr ())"

lemma GATE_RANK_inject [simp]: "GATE_RANK a = GATE_RANK b \<longleftrightarrow> a = b"
  by (cases a; cases b) auto

text \<open>The severity order is linear, with the rank as its embedding into the numbers.\<close>

instantiation gate_outcome :: linorder
begin

definition less_eq_gate_outcome :: "gate_outcome \<Rightarrow> gate_outcome \<Rightarrow> bool" where
  "a \<le> b \<longleftrightarrow> GATE_RANK a \<le> GATE_RANK b"

definition less_gate_outcome :: "gate_outcome \<Rightarrow> gate_outcome \<Rightarrow> bool" where
  "a < b \<longleftrightarrow> GATE_RANK a < GATE_RANK b"

instance
  by standard (auto simp: less_eq_gate_outcome_def less_gate_outcome_def)

end

lemma PROMOTE_least [simp]: "PROMOTE \<le> a"
  by (simp add: less_eq_gate_outcome_def)

lemma ROLLBACK_greatest [simp]: "a \<le> ROLLBACK"
  by (cases a) (simp_all add: less_eq_gate_outcome_def)

lemma outcome_le_simps [simp]:
  "\<not> HOLD \<le> PROMOTE" "\<not> ROLLBACK \<le> PROMOTE" "\<not> ROLLBACK \<le> HOLD"
  by (simp_all add: less_eq_gate_outcome_def)

lemma le_PROMOTE_iff: "a \<le> PROMOTE \<longleftrightarrow> a = PROMOTE"
  by (cases a) (simp_all add: less_eq_gate_outcome_def)

lemma rank_step_max:
  "(if GATE_RANK b > GATE_RANK a then b else a) = max a b"
  by (auto simp: max_def less_eq_gate_outcome_def)

lemma maxOutcome_foldl: "maxOutcome xs = foldl max PROMOTE xs"
  by (simp add: maxOutcome_def rank_step_max)

lemma foldl_max_Cons: "foldl max a (x # xs) = max x (foldl max a xs)"
  for a :: "'a::linorder"
proof (induction xs arbitrary: a x)
  case Nil
  then show ?case by (simp add: max.commute)
next
  case (Cons y ys)
  from Cons.IH [of "max a x" y] Cons.IH [of a y] Cons.IH [of a x] show ?case
    by (simp add: max.assoc max.left_commute)
qed

lemma maxOutcome_Nil [simp]: "maxOutcome [] = PROMOTE"
  by (simp add: maxOutcome_def)

lemma maxOutcome_Cons [simp]: "maxOutcome (x # xs) = max x (maxOutcome xs)"
  by (simp only: maxOutcome_foldl foldl_max_Cons)

lemma maxOutcome_append: "maxOutcome (xs @ ys) = max (maxOutcome xs) (maxOutcome ys)"
  by (induction xs) (simp_all add: max.assoc)

lemma maxOutcome_ge: "x \<in> set xs \<Longrightarrow> x \<le> maxOutcome xs"
  by (induction xs) (auto simp: le_max_iff_disj)

lemma maxOutcome_le_iff: "maxOutcome xs \<le> a \<longleftrightarrow> (\<forall>x \<in> set xs. x \<le> a)"
  by (induction xs) auto

lemma maxOutcome_in: "maxOutcome xs \<in> insert PROMOTE (set xs)"
  by (induction xs) (auto simp: max_def)

lemma maxOutcome_PROMOTE_iff: "maxOutcome xs = PROMOTE \<longleftrightarrow> (\<forall>x \<in> set xs. x = PROMOTE)"
  using maxOutcome_le_iff [of xs PROMOTE] by (simp add: le_PROMOTE_iff)

lemma assertDecisionCeiling_iff:
  "assertDecisionCeiling d cs = Inr () \<longleftrightarrow> (\<forall>c \<in> set cs. c \<le> d)"
proof -
  have "assertDecisionCeiling d cs = Inr () \<longleftrightarrow> maxOutcome cs \<le> d"
    by (simp add: assertDecisionCeiling_def Let_def less_eq_gate_outcome_def not_less)
  then show ?thesis by (simp only: maxOutcome_le_iff)
qed

section \<open>Upstream integrity ceilings\<close>

text \<open>
  The integrity report as the caller hands it in. The code receives an \<open>unknown\<close> value and
  checks its shape first; \<open>None\<close> in the optional argument of the definitions below stands for a
  value that fails one of those shape checks (not an object, a field of the wrong type). The two
  opaque evidence fields are kept only as present or null.
\<close>

record release_gate =
  rg_decision :: gate_outcome
  rg_reasons :: "string list"

record integrity_metadata =
  sample_n :: jsnum
  uncertainty_present :: bool
  paired_baseline_present :: bool
  integrity_mode :: string
  fresh_workspace_required :: bool
  fresh_workspace_verified :: bool
  integrity_state :: string
  trusted_score_source :: string
  compromise_labels :: "string list"
  weak_signal_reason :: "string option"
  integrity_release_gate :: release_gate

definition VERIFIED_QUALIFICATION_INTEGRITY_SOURCES :: "string dict" where
  "VERIFIED_QUALIFICATION_INTEGRITY_SOURCES =
     [(''fresh'', ''fresh-workspace''),
      (''locked'', ''locked-artifact-snapshot''),
      (''full-locked'', ''full-locked-workspace'')]"

text \<open>The problem codes the checks push, in the source's spelling.\<close>

datatype integrity_problem =
    IntegrityInvalid | IntegrityNotVerified | IntegrityModeNotAllowlisted | UntrustedScoreSource
  | FreshWorkspaceUnverified | UncertaintyMissing | PairedBaselineMissing | WeakSignal
  | Compromised | InsufficientSamples | UpstreamIntegrity gate_outcome
  | IntegrityModeStandard | UpstreamRollback | UpstreamHold | UpstreamCeilingMissing

definition qualificationIntegrityAllowlistProblems ::
    "integrity_metadata option \<Rightarrow> integrity_problem list" where
  "qualificationIntegrityAllowlistProblems integrity =
     (case integrity of
        None \<Rightarrow> [IntegrityInvalid]
      | Some value \<Rightarrow>
        if \<not> is_safe_integer (sample_n value) \<or> num_lt (sample_n value) (Fin 0)
        then [IntegrityInvalid]
        else
          push_if (integrity_state value \<noteq> ''verified'') IntegrityNotVerified
          @ (case map_of VERIFIED_QUALIFICATION_INTEGRITY_SOURCES (integrity_mode value) of
               None \<Rightarrow> [IntegrityModeNotAllowlisted]
             | Some expectedSource \<Rightarrow>
                 push_if (trusted_score_source value \<noteq> expectedSource) UntrustedScoreSource)
          @ push_if (fresh_workspace_required value \<and> \<not> fresh_workspace_verified value)
              FreshWorkspaceUnverified
          @ push_if (\<not> uncertainty_present value) UncertaintyMissing
          @ push_if (\<not> paired_baseline_present value) PairedBaselineMissing
          @ push_if (weak_signal_reason value \<noteq> None) WeakSignal
          @ push_if (compromise_labels value \<noteq> []) Compromised
          @ push_if (num_le (sample_n value) (Fin 0)) InsufficientSamples
          @ push_if (rg_decision (integrity_release_gate value) \<noteq> PROMOTE)
              (UpstreamIntegrity (rg_decision (integrity_release_gate value))))"

datatype integrity_policy =
  Allowlist | QualificationRelease | EnsemblePolicy | ContextPruning | UpstreamOnly

definition integrityProblems ::
    "integrity_metadata \<Rightarrow> integrity_policy \<Rightarrow> jsnum \<Rightarrow> integrity_problem list" where
  "integrityProblems integrity policy minimumSamples =
     (if policy = Allowlist then qualificationIntegrityAllowlistProblems (Some integrity)
      else if policy = UpstreamOnly then []
      else
        push_if (integrity_state integrity \<noteq> ''verified'') IntegrityNotVerified
        @ (if policy = ContextPruning then
             push_if (rg_decision (integrity_release_gate integrity) = ROLLBACK) UpstreamRollback
             @ push_if (rg_decision (integrity_release_gate integrity) = HOLD) UpstreamHold
           else
             push_if (integrity_mode integrity = ''standard'') IntegrityModeStandard
             @ push_if (trusted_score_source integrity = ''local-unverified'') UntrustedScoreSource
             @ push_if (policy = EnsemblePolicy \<and> fresh_workspace_required integrity
                 \<and> \<not> fresh_workspace_verified integrity) FreshWorkspaceUnverified
             @ push_if (\<not> uncertainty_present integrity) UncertaintyMissing
             @ push_if (policy = EnsemblePolicy \<and> \<not> paired_baseline_present integrity)
                 PairedBaselineMissing
             @ push_if (policy = EnsemblePolicy \<and> weak_signal_reason integrity \<noteq> None) WeakSignal
             @ push_if (compromise_labels integrity \<noteq> []) Compromised
             @ push_if (if policy = QualificationRelease
                        then \<not> num_lt (Fin 0) (sample_n integrity)
                        else num_lt (sample_n integrity) minimumSamples) InsufficientSamples))"

record upstream_evaluation =
  up_ceiling :: gate_outcome
  up_problems :: "integrity_problem list"
  up_compromised :: bool

text \<open>\<open>options.minimumSamples\<close> defaults to 1 and \<open>options.findings\<close> to 0; the caller passes
  the defaults explicitly here. \<open>None\<close> is the source's \<open>null\<close>.\<close>

definition evaluateUpstreamCeiling ::
    "integrity_metadata option \<Rightarrow> integrity_policy \<Rightarrow> jsnum \<Rightarrow> jsnum \<Rightarrow> upstream_evaluation" where
  "evaluateUpstreamCeiling integrity policy minimumSamples findings =
     (case integrity of
        None \<Rightarrow> \<lparr>up_ceiling = HOLD, up_problems = [UpstreamCeilingMissing], up_compromised = False\<rparr>
      | Some value \<Rightarrow>
        let problems = integrityProblems value policy minimumSamples;
            release = rg_decision (integrity_release_gate value);
            hasCompromiseLabels = (if policy = Allowlist then Compromised \<in> set problems
                                   else compromise_labels value \<noteq> []);
            compromised = (release = ROLLBACK \<or> (policy \<noteq> ContextPruning
              \<and> (integrity_state value = ''compromised'' \<or> hasCompromiseLabels)))
        in \<lparr>up_ceiling = ceilingDecision release
              [if compromised then ROLLBACK else PROMOTE,
               if problems \<noteq> [] \<or> num_lt (Fin 0) findings then HOLD else PROMOTE],
            up_problems = problems, up_compromised = compromised\<rparr>)"

lemma max_PROMOTE_iff [simp]: "max a b = PROMOTE \<longleftrightarrow> a = PROMOTE \<and> b = PROMOTE"
  for a b :: gate_outcome
  by (cases a; cases b) (simp_all add: max_def)

lemma max_ROLLBACK_iff [simp]: "max a b = ROLLBACK \<longleftrightarrow> a = ROLLBACK \<or> b = ROLLBACK"
  for a b :: gate_outcome
  by (cases a; cases b) (simp_all add: max_def)

lemma verified_sources_Some_iff:
  "map_of VERIFIED_QUALIFICATION_INTEGRITY_SOURCES m = Some s \<longleftrightarrow>
     (m, s) \<in> set VERIFIED_QUALIFICATION_INTEGRITY_SOURCES"
  by (rule map_of_eq_Some_iff) (simp add: VERIFIED_QUALIFICATION_INTEGRITY_SOURCES_def)

lemma allowlist_Nil_iff:
  "qualificationIntegrityAllowlistProblems (Some v) = [] \<longleftrightarrow>
     is_safe_integer (sample_n v) \<and> num_lt (Fin 0) (sample_n v)
     \<and> integrity_state v = ''verified''
     \<and> (integrity_mode v, trusted_score_source v) \<in> set VERIFIED_QUALIFICATION_INTEGRITY_SOURCES
     \<and> \<not> (fresh_workspace_required v \<and> \<not> fresh_workspace_verified v)
     \<and> uncertainty_present v \<and> paired_baseline_present v
     \<and> weak_signal_reason v = None \<and> compromise_labels v = []
     \<and> rg_decision (integrity_release_gate v) = PROMOTE"
proof (cases "is_safe_integer (sample_n v)")
  case True
  then obtain q where q: "sample_n v = Fin q"
    using safe_integer_finite is_finite_iff by blast
  have pos: "(\<not> num_lt (sample_n v) (Fin 0) \<and> \<not> num_le (sample_n v) (Fin 0)) = num_lt (Fin 0) (sample_n v)"
    by (auto simp: q)
  have src: "(case map_of VERIFIED_QUALIFICATION_INTEGRITY_SOURCES (integrity_mode v) of
               None \<Rightarrow> [IntegrityModeNotAllowlisted]
             | Some expectedSource \<Rightarrow>
                 push_if (trusted_score_source v \<noteq> expectedSource) UntrustedScoreSource) = []
      \<longleftrightarrow> (integrity_mode v, trusted_score_source v) \<in> set VERIFIED_QUALIFICATION_INTEGRITY_SOURCES"
    unfolding verified_sources_Some_iff [symmetric] by (auto split: option.splits)
  have eq: "qualificationIntegrityAllowlistProblems (Some v) = [] \<longleftrightarrow>
      \<not> num_lt (sample_n v) (Fin 0) \<and> integrity_state v = ''verified''
      \<and> (integrity_mode v, trusted_score_source v) \<in> set VERIFIED_QUALIFICATION_INTEGRITY_SOURCES
      \<and> \<not> (fresh_workspace_required v \<and> \<not> fresh_workspace_verified v)
      \<and> uncertainty_present v \<and> paired_baseline_present v
      \<and> weak_signal_reason v = None \<and> compromise_labels v = []
      \<and> \<not> num_le (sample_n v) (Fin 0) \<and> rg_decision (integrity_release_gate v) = PROMOTE"
    using True
    by (simp add: qualificationIntegrityAllowlistProblems_def src)
  show ?thesis unfolding eq using True pos by blast
next
  case False
  then show ?thesis by (simp add: qualificationIntegrityAllowlistProblems_def)
qed

lemma Compromised_in_allowlist_iff:
  "Compromised \<in> set (qualificationIntegrityAllowlistProblems (Some v)) \<longleftrightarrow>
     is_safe_integer (sample_n v) \<and> \<not> num_lt (sample_n v) (Fin 0) \<and> compromise_labels v \<noteq> []"
  by (auto simp: qualificationIntegrityAllowlistProblems_def split: option.splits if_splits)

text \<open>Under the qualification allowlist an integrity report lets a gate promote exactly when
  its sample count is a positive safe integer, its state is verified, its score source is the
  one listed for its mode, a required fresh workspace was verified, uncertainty and a paired
  baseline are present, there is no weak signal and no compromise label, its own release
  decision is PROMOTE, and the caller reports no findings.\<close>

theorem allowlist_ceiling_PROMOTE_iff:
  "up_ceiling (evaluateUpstreamCeiling (Some v) Allowlist m findings) = PROMOTE \<longleftrightarrow>
     is_safe_integer (sample_n v) \<and> num_lt (Fin 0) (sample_n v)
     \<and> integrity_state v = ''verified''
     \<and> (integrity_mode v, trusted_score_source v) \<in> set VERIFIED_QUALIFICATION_INTEGRITY_SOURCES
     \<and> \<not> (fresh_workspace_required v \<and> \<not> fresh_workspace_verified v)
     \<and> uncertainty_present v \<and> paired_baseline_present v
     \<and> weak_signal_reason v = None \<and> compromise_labels v = []
     \<and> rg_decision (integrity_release_gate v) = PROMOTE \<and> \<not> num_lt (Fin 0) findings"
  unfolding evaluateUpstreamCeiling_def Let_def option.case upstream_evaluation.simps
    ceilingDecision_def integrityProblems_def
  using allowlist_Nil_iff [of v] Compromised_in_allowlist_iff [of v]
  by (simp add: if_distrib [of "\<lambda>x. x = PROMOTE"] cong: if_cong)

text \<open>Whatever the policy, the ceiling is ROLLBACK exactly when the evaluation marks the
  report compromised, it is at least as severe as the report's own release decision, and a
  missing report holds.\<close>

theorem upstream_ceiling_ROLLBACK_iff:
  "(up_ceiling (evaluateUpstreamCeiling r policy m findings) = ROLLBACK
     \<longleftrightarrow> up_compromised (evaluateUpstreamCeiling r policy m findings))
   \<and> (case r of None \<Rightarrow> up_ceiling (evaluateUpstreamCeiling r policy m findings) = HOLD
      | Some v \<Rightarrow> rg_decision (integrity_release_gate v)
          \<le> up_ceiling (evaluateUpstreamCeiling r policy m findings))"
proof (cases r)
  case None
  then show ?thesis by (simp add: evaluateUpstreamCeiling_def)
next
  case (Some v)
  have "max x (max (if c then ROLLBACK else PROMOTE) (max (if d then HOLD else PROMOTE) PROMOTE))
      = ROLLBACK \<longleftrightarrow> x = ROLLBACK \<or> c" for x c d
    by simp
  with Some show ?thesis
    by (simp add: evaluateUpstreamCeiling_def Let_def ceilingDecision_def le_max_iff_disj)
qed

end
