(* ===== verification/GateTypes.thy ===== *)
theory GateTypes
  imports GateLattice Predicates
begin

text \<open>
  The data model of gate packs and bindings: \<open>src/gates/types.ts\<close>. Optional members are
  options, \<open>Record<string, T>\<close> is a list of members. A document number is any JavaScript number;
  the schema admits finite ones only, and on those the comparison of two canonical JSON texts,
  which the code uses for deep equality, is equality.
\<close>

section \<open>Gates\<close>

datatype gate_kind =
    IntervalBound | PairedDifference | BootstrapBound | CountMax | CountMin
  | ValueThreshold | MinimumN | Evidence | PredicateGate | UpstreamCeilingGate

datatype statistic_method = Wilson | ClopperPearson | Newcombe | Tango | Bootstrap

datatype bound_side = Upper | Lower

datatype paired_mode = NonInferiority | Superiority

datatype threshold_op = Lte | Gte

datatype tightening_direction = LowerIsStricter | HigherIsStricter

datatype scope_mode = ScopeAll | ScopeEach | ScopeListed | ScopePooled

datatype parameter_type = BpsParam | CountParam | LevelParam | ValueParam

datatype metric_kind = Proportion | Paired | Scalar | Differences | EvidenceMetric

text \<open>\<open>number | GateParamRef\<close>.\<close>

datatype num_ref = Literal jsnum | ParamRef string

record gate_statistic =
  st_kind :: gate_kind
  st_method :: "statistic_method option"
  st_bound :: "bound_side option"
  st_levelBps :: "num_ref option"
  st_mode :: "paired_mode option"
  st_marginBps :: "num_ref option"
  st_seed :: "jsnum option"
  st_resamples :: "jsnum option"
  st_bounds :: "(jsnum \<times> jsnum) option"
  st_vs :: "string option"

record gate_threshold =
  th_op :: threshold_op
  th_value :: "jsnum option"
  th_param :: "string option"

record gate_scope =
  sc_mode :: scope_mode
  sc_slices :: "string list option"
  sc_except :: "string list option"

record metric_ref =
  mr_provider :: string
  mr_name :: string

record gate_definition =
  gd_id :: string
  gd_kind :: gate_kind
  gd_metric :: "metric_ref option"
  gd_statistic :: "gate_statistic option"
  gd_threshold :: "gate_threshold option"
  gd_minimumN :: "num_ref option"
  gd_scope :: gate_scope
  gd_onFail :: gate_outcome
  gd_onInsufficient :: "gate_outcome option"
  gd_direction :: tightening_direction
  gd_floor :: "bool option"
  gd_evidence :: "string list option"
  gd_predicate :: "predicate option"

record gate_parameter =
  gp_type :: parameter_type
  gp_direction :: tightening_direction
  gp_default :: "jsnum option"

record metric_declaration =
  md_provider :: string
  md_kind :: metric_kind

record gate_pack =
  pk_id :: string
  pk_version :: string
  pk_extends :: "artifact_pin option"
  pk_parameters :: "gate_parameter dict option"
  pk_metrics :: "metric_declaration dict"
  pk_gates :: "gate_definition list"

section \<open>Bindings\<close>

record gate_pack_pin =
  pp_id :: string
  pp_version :: string
  pp_digest :: string
  pp_resolvedDigest :: string

record gate_provider_pin =
  vp_id :: string
  vp_version :: string
  vp_sourceDigest :: string
  vp_codeDigest :: "string option"
  vp_recordsDigest :: "string option"

record gate_binding =
  gb_id :: string
  gb_packs :: "gate_pack_pin list"
  gb_parameters :: "jsnum dict"
  gb_slices :: "string list"
  gb_sliceGroups :: "string list dict option"
  gb_references :: "string list"
  gb_metricProviders :: "gate_provider_pin list"
  gb_ceiling :: "gate_outcome option"
  gb_registeredAt :: string
  gb_frozenAt :: string
  gb_declaresSplit :: bool

definition qualifyGateParameter :: "string \<Rightarrow> string \<Rightarrow> string" where
  "qualifyGateParameter packId name = packId @ ''.'' @ name"

section \<open>Observations\<close>

text \<open>A numeric member that is absent, null or of another type is \<open>None\<close>: the code treats the
  three alike.\<close>

record available_evidence =
  av_id :: string
  av_passed :: bool
  av_expiresAt :: "string option"

record metric_observation =
  ob_n :: "jsnum option"
  ob_events :: "jsnum option"
  ob_value :: "jsnum option"
  ob_paired :: "(jsnum \<times> jsnum \<times> jsnum \<times> jsnum) option"
  ob_differences :: "jsnum list option"
  ob_available :: "available_evidence list option"

record metric_series =
  ms_bySlice :: "metric_observation dict"
  ms_pooled :: "metric_observation option"

datatype gate_status = PassStatus | FailStatus | InsufficientStatus

section \<open>Errors\<close>

text \<open>\<open>GateRegistryError\<close>: a code for the message and the artifact (gate, parameter, pack) it
  names.\<close>

datatype gate_error = GateRegistryError string string

end
