(* ===== verification/GateValidation.thy ===== *)
theory GateValidation
  imports GateTypes
begin

text \<open>
  \<open>src/gates/pack-validation.ts\<close>: semantic validation of a resolved pack against the metric
  providers (\<open>src/gates/providers/registry.ts\<close>). Each \<open>checks\<close> row is one \<open>fail\<close> of the source, in
  its order.
\<close>

section \<open>Metric providers\<close>

record metric_provider =
  pv_version :: string
  pv_sourceDigest :: string
  pv_codeDigest :: "string option"
  pv_metrics :: "metric_kind dict"

type_synonym provider_registry = "metric_provider dict"

section \<open>Number references\<close>

text \<open>\<open>isParamRef\<close> on an optional member.\<close>

definition is_param_ref :: "num_ref option \<Rightarrow> bool" where
  "is_param_ref value = (case value of Some (ParamRef p) \<Rightarrow> True | _ \<Rightarrow> False)"

definition resolveNumberDefault ::
    "num_ref option \<Rightarrow> gate_parameter dict \<Rightarrow> parameter_type \<Rightarrow> jsnum option" where
  "resolveNumberDefault value params expectedType =
     (case value of
        None \<Rightarrow> None
      | Some (Literal n) \<Rightarrow> Some n
      | Some (ParamRef p) \<Rightarrow>
          (case map_of params p of
             None \<Rightarrow> None
           | Some declared \<Rightarrow> if gp_type declared \<noteq> expectedType then None else gp_default declared))"

definition checkParamRef ::
    "string \<Rightarrow> num_ref option \<Rightarrow> gate_parameter dict \<Rightarrow> parameter_type \<Rightarrow> gate_error + unit" where
  "checkParamRef gateId value params expectedType =
     (case value of
        Some (ParamRef p) \<Rightarrow>
          (case map_of params p of
             None \<Rightarrow> Inl (GateRegistryError ''reference-unknown-parameter'' gateId)
           | Some declared \<Rightarrow>
               if gp_type declared \<noteq> expectedType
               then Inl (GateRegistryError ''reference-parameter-type'' gateId) else Inr ())
      | _ \<Rightarrow> Inr ())"

definition bps_limit :: jsnum where
  "bps_limit = Fin 10000"

definition checkPairedMargin :: "string \<Rightarrow> paired_mode \<Rightarrow> jsnum \<Rightarrow> gate_error + unit" where
  "checkPairedMargin gateId mode margin =
     checks
       [(\<not> is_safe_integer margin \<or> num_lt margin (Fin (- 10000)) \<or> num_lt bps_limit margin,
         GateRegistryError ''margin-range'' gateId),
        (mode = NonInferiority \<and> num_lt (Fin 0) margin, GateRegistryError ''margin-sign'' gateId),
        (mode = Superiority \<and> num_lt margin (Fin 0), GateRegistryError ''margin-sign'' gateId)]"

section \<open>Thresholds\<close>

definition needsThreshold :: "gate_kind \<Rightarrow> bool" where
  "needsThreshold k \<longleftrightarrow> k \<in> {IntervalBound, BootstrapBound, CountMax, CountMin, ValueThreshold}"

definition expectedParamType :: "gate_kind \<Rightarrow> parameter_type" where
  "expectedParamType k =
     (if k = IntervalBound \<or> k = BootstrapBound then BpsParam
      else if k = CountMax \<or> k = CountMin then CountParam else ValueParam)"

definition gate_bound :: "gate_definition \<Rightarrow> bound_side option" where
  "gate_bound gate = (case gd_statistic gate of None \<Rightarrow> None | Some s \<Rightarrow> st_bound s)"

definition checkThresholdBlock :: "gate_definition \<Rightarrow> gate_parameter dict \<Rightarrow> gate_error + unit" where
  "checkThresholdBlock gate params =
     (let k = gd_kind gate; err = (\<lambda>c. GateRegistryError c (gd_id gate)) in
      case gd_threshold gate of
        None \<Rightarrow> if needsThreshold k then Inl (err ''threshold-missing'') else Inr ()
      | Some threshold \<Rightarrow>
        let param = Option.bind (th_param threshold) (map_of params);
            expected = expectedParamType k;
            opr = (if k = CountMax then Lte else if k = CountMin then Gte else th_op threshold)
        in checks
          [(\<not> needsThreshold k, err ''threshold-forbidden''),
           (th_param threshold \<noteq> None \<and> param = None, err ''threshold-unknown-parameter''),
           (opt_holds (\<lambda>p. gp_type p \<noteq> expected) param, err ''threshold-parameter-type''),
           (opt_holds (\<lambda>v. \<not> is_finite v) (th_value threshold), err ''threshold-not-finite''),
           (opt_holds (\<lambda>v. expected = BpsParam \<and> (num_lt v (Fin 0) \<or> num_lt bps_limit v))
              (th_value threshold), err ''threshold-bps-range''),
           (opt_holds (\<lambda>v. expected = CountParam \<and> (\<not> is_safe_integer v \<or> num_lt v (Fin 0)))
              (th_value threshold), err ''threshold-count-range''),
           (k = CountMax \<and> th_op threshold \<noteq> Lte, err ''count-max-op''),
           (k = CountMin \<and> th_op threshold \<noteq> Gte, err ''count-min-op''),
           (k = IntervalBound \<and> gate_bound gate = Some Upper \<and> th_op threshold \<noteq> Lte, err ''upper-bound-op''),
           (k = IntervalBound \<and> gate_bound gate = Some Lower \<and> th_op threshold \<noteq> Gte, err ''lower-bound-op''),
           (k = ValueThreshold \<and> th_op threshold = Lte \<and> gd_direction gate \<noteq> LowerIsStricter,
            err ''lte-direction''),
           (k = ValueThreshold \<and> th_op threshold = Gte \<and> gd_direction gate \<noteq> HigherIsStricter,
            err ''gte-direction''),
           ((k = IntervalBound \<or> k = BootstrapBound) \<and> opr = Lte \<and> gd_direction gate \<noteq> LowerIsStricter,
            err ''upper-bound-direction''),
           ((k = IntervalBound \<or> k = BootstrapBound) \<and> opr = Gte \<and> gd_direction gate \<noteq> HigherIsStricter,
            err ''lower-bound-direction'')])"

section \<open>Statistics\<close>

definition statistical_kind :: "gate_kind \<Rightarrow> bool" where
  "statistical_kind k \<longleftrightarrow> k \<in> {IntervalBound, PairedDifference, BootstrapBound}"

definition checkIntervalStatistic ::
    "gate_definition \<Rightarrow> gate_statistic \<Rightarrow> gate_parameter dict \<Rightarrow> gate_error + unit" where
  "checkIntervalStatistic gate st params =
     (let err = (\<lambda>c. GateRegistryError c (gd_id gate)) in
      thenR (checks
        [(opt_holds (\<lambda>m. m \<noteq> Wilson \<and> m \<noteq> ClopperPearson) (st_method st), err ''interval-method''),
         (st_bound st = None, err ''interval-bound-missing''),
         (st_levelBps st = None, err ''interval-level-missing'')])
      (thenR (checkParamRef (gd_id gate) (st_levelBps st) params LevelParam)
      (checks
        [(st_mode st \<noteq> None \<or> st_marginBps st \<noteq> None \<or> st_seed st \<noteq> None \<or> st_resamples st \<noteq> None
          \<or> st_bounds st \<noteq> None, err ''interval-extra-field'')])))"

definition checkPairedStatistic ::
    "gate_definition \<Rightarrow> gate_statistic \<Rightarrow> gate_parameter dict \<Rightarrow> gate_error + unit" where
  "checkPairedStatistic gate st params =
     (let err = (\<lambda>c. GateRegistryError c (gd_id gate));
          resolvedMode = opt_default (st_mode st) NonInferiority;
          margin = resolveNumberDefault (st_marginBps st) params ValueParam;
          marginParam = (case st_marginBps st of Some (ParamRef p) \<Rightarrow> map_of params p | _ \<Rightarrow> None)
      in
      thenR (checks
        [(opt_holds (\<lambda>m. m \<noteq> Newcombe \<and> m \<noteq> Tango) (st_method st), err ''paired-method''),
         (st_bound st \<noteq> None, err ''paired-bound''),
         (st_levelBps st = None, err ''paired-level-missing'')])
      (thenR (checkParamRef (gd_id gate) (st_levelBps st) params LevelParam)
      (thenR (checks
        [(resolvedMode = NonInferiority \<and> st_marginBps st = None, err ''paired-margin-missing'')])
      (thenR (checkParamRef (gd_id gate) (st_marginBps st) params ValueParam)
      (thenR (checks
        [(opt_holds (\<lambda>p. gp_direction p \<noteq> HigherIsStricter) marginParam, err ''margin-parameter-direction'')])
      (thenR (case margin of None \<Rightarrow> Inr () | Some m \<Rightarrow> checkPairedMargin (gd_id gate) resolvedMode m)
      (checks
        [(st_seed st \<noteq> None \<or> st_resamples st \<noteq> None \<or> st_bounds st \<noteq> None, err ''paired-extra-field'')])))))))"

definition checkBootstrapStatistic ::
    "gate_definition \<Rightarrow> gate_statistic \<Rightarrow> gate_parameter dict \<Rightarrow> gate_error + unit" where
  "checkBootstrapStatistic gate st params =
     (let err = (\<lambda>c. GateRegistryError c (gd_id gate)) in
      thenR (checks
        [(opt_holds (\<lambda>m. m \<noteq> Bootstrap) (st_method st), err ''bootstrap-method''),
         (st_bound st = None, err ''bootstrap-bound-missing''),
         (st_levelBps st = None \<or> st_seed st = None \<or> st_resamples st = None \<or> st_bounds st = None,
          err ''bootstrap-field-missing'')])
      (thenR (checkParamRef (gd_id gate) (st_levelBps st) params LevelParam)
      (checks
        [(st_mode st \<noteq> None \<or> st_marginBps st \<noteq> None, err ''bootstrap-extra-field'')])))"

definition checkStatisticBlock :: "gate_definition \<Rightarrow> gate_parameter dict \<Rightarrow> gate_error + unit" where
  "checkStatisticBlock gate params =
     (let k = gd_kind gate; err = (\<lambda>c. GateRegistryError c (gd_id gate)) in
      case gd_statistic gate of
        None \<Rightarrow> if statistical_kind k then Inl (err ''statistic-missing'') else Inr ()
      | Some st \<Rightarrow>
          thenR (checks
            [(\<not> statistical_kind k, err ''statistic-forbidden''),
             (st_kind st \<noteq> k, err ''statistic-kind'')])
          (if k = IntervalBound then checkIntervalStatistic gate st params
           else if k = PairedDifference then checkPairedStatistic gate st params
           else checkBootstrapStatistic gate st params))"

section \<open>Parameters and packs\<close>

definition checkParameter :: "string \<Rightarrow> gate_parameter \<Rightarrow> gate_error + unit" where
  "checkParameter name parameter =
     (case gp_default parameter of
        None \<Rightarrow> Inr ()
      | Some d \<Rightarrow> checks
          [(\<not> is_finite d, GateRegistryError ''default-not-finite'' name),
           (gp_type parameter = BpsParam \<and> (num_lt d (Fin 0) \<or> num_lt bps_limit d),
            GateRegistryError ''default-bps-range'' name),
           (gp_type parameter = LevelParam
              \<and> (\<not> is_safe_integer d \<or> num_le d (Fin 5000) \<or> num_le (Fin 9999) d),
            GateRegistryError ''default-level-range'' name),
           (gp_type parameter = CountParam \<and> (\<not> is_safe_integer d \<or> num_lt d (Fin 0)),
            GateRegistryError ''default-count-range'' name)])"

definition checkMetric ::
    "provider_registry \<Rightarrow> string \<Rightarrow> metric_declaration \<Rightarrow> gate_error + unit" where
  "checkMetric providers name metric =
     (case map_of providers (md_provider metric) of
        None \<Rightarrow> Inl (GateRegistryError ''unknown-provider'' name)
      | Some provider \<Rightarrow>
          (case map_of (pv_metrics provider) name of
             None \<Rightarrow> Inl (GateRegistryError ''metric-not-computed'' name)
           | Some k \<Rightarrow> if k \<noteq> md_kind metric then Inl (GateRegistryError ''metric-kind'' name) else Inr ()))"

definition expectedMetricKind :: "gate_kind \<Rightarrow> metric_kind option" where
  "expectedMetricKind k =
     (if k = IntervalBound \<or> k = CountMax \<or> k = CountMin then Some Proportion
      else if k = PairedDifference then Some Paired
      else if k = BootstrapBound then Some Differences
      else if k = ValueThreshold then Some Scalar
      else if k = Evidence then Some EvidenceMetric else None)"

definition declaredMetricKind :: "gate_definition \<Rightarrow> gate_pack \<Rightarrow> metric_kind option" where
  "declaredMetricKind gate pack =
     (case gd_metric gate of
        None \<Rightarrow> None
      | Some m \<Rightarrow> map_option md_kind (map_of (pk_metrics pack) (mr_name m)))"

definition checkMinimumN ::
    "gate_definition \<Rightarrow> gate_parameter dict \<Rightarrow> metric_kind option \<Rightarrow> gate_error + unit" where
  "checkMinimumN gate params metricKind =
     (let err = (\<lambda>c. GateRegistryError c (gd_id gate));
          resolved = resolveNumberDefault (gd_minimumN gate) params CountParam
      in if gd_kind gate = MinimumN then
           checks
             [(gd_minimumN gate = None, err ''minimum-n-missing''),
              (case gd_minimumN gate of Some (Literal n) \<Rightarrow> num_lt n (Fin 1) | _ \<Rightarrow> False, err ''minimum-n-range''),
              (case gd_minimumN gate of
                 Some (ParamRef p) \<Rightarrow>
                   opt_holds (\<lambda>d. gp_default d \<noteq> None) (map_of params p)
                   \<and> num_lt (opt_default resolved (Fin 0)) (Fin 1)
               | _ \<Rightarrow> False, err ''minimum-n-range''),
              (metricKind = Some EvidenceMetric, err ''minimum-n-evidence'')]
         else checks
           [(case gd_minimumN gate of
               Some (Literal n) \<Rightarrow> \<not> is_safe_integer n \<or> num_lt n (Fin 0) | _ \<Rightarrow> False, err ''minimum-n-range'')])"

definition validateGate :: "gate_pack \<Rightarrow> gate_definition \<Rightarrow> gate_error + unit" where
  "validateGate pack gate =
     (let params = opt_default (pk_parameters pack) [];
          err = (\<lambda>c. GateRegistryError c (gd_id gate));
          metricKind = declaredMetricKind gate pack
      in
      thenR (checks
        [(gd_onFail gate \<noteq> HOLD \<and> gd_onFail gate \<noteq> ROLLBACK, err ''on-fail''),
         (opt_holds (\<lambda>o2. o2 \<noteq> HOLD) (gd_onInsufficient gate), err ''on-insufficient''),
         (case gd_metric gate of
            None \<Rightarrow> False
          | Some m \<Rightarrow>
              (case map_of (pk_metrics pack) (mr_name m) of
                 None \<Rightarrow> True
               | Some declared \<Rightarrow> md_provider declared \<noteq> mr_provider m), err ''undeclared-metric''),
         (opt_holds (\<lambda>k. metricKind \<noteq> Some k) (expectedMetricKind (gd_kind gate)), err ''metric-kind-required'')])
      (thenR (checkThresholdBlock gate params)
      (thenR (checkStatisticBlock gate params)
      (thenR (checkParamRef (gd_id gate) (gd_minimumN gate) params CountParam)
      (thenR (checkMinimumN gate params metricKind)
      (checks
        [(gd_kind gate = Evidence \<and> (gd_evidence gate = None \<or> gd_evidence gate = Some []), err ''evidence-empty''),
         (gd_kind gate \<noteq> Evidence \<and> gd_evidence gate \<noteq> None, err ''evidence-forbidden''),
         (gd_kind gate \<noteq> PredicateGate \<and> gd_predicate gate \<noteq> None, err ''predicate-forbidden''),
         ((sc_mode (gd_scope gate) = ScopeListed \<or> sc_mode (gd_scope gate) = ScopePooled)
            \<and> (sc_slices (gd_scope gate) = None \<or> sc_slices (gd_scope gate) = Some []), err ''scope-slices-missing''),
         (sc_except (gd_scope gate) \<noteq> None \<and> sc_mode (gd_scope gate) \<noteq> ScopeEach, err ''except-forbidden'')]))))))"

definition validateResolvedPack :: "gate_pack \<Rightarrow> provider_registry \<Rightarrow> gate_error + unit" where
  "validateResolvedPack pack providers =
     (if \<not> distinct (map gd_id (pk_gates pack))
      then Inl (GateRegistryError ''duplicate-gate-ids'' (pk_id pack))
      else
        thenR (forEach (\<lambda>(name, parameter). checkParameter name parameter) (opt_default (pk_parameters pack) []))
        (thenR (forEach (\<lambda>(name, metric). checkMetric providers name metric) (pk_metrics pack))
        (forEach (validateGate pack) (pk_gates pack))))"

end
