(* ===== verification/GateTightening.thy ===== *)
theory GateTightening
  imports GateValidation
begin

text \<open>
  \<open>src/gates/pack-tightening.ts\<close>: the load-time proof that a child gate only tightens its
  parent. A comparison of \<open>canonicalJson\<close> texts is equality of the document values.
\<close>

section \<open>Thresholds and scopes\<close>

definition resolveThresholdDefault :: "gate_definition \<Rightarrow> gate_parameter dict \<Rightarrow> jsnum option" where
  "resolveThresholdDefault gate params =
     (case gd_threshold gate of
        None \<Rightarrow> None
      | Some th \<Rightarrow>
          (case th_value th of
             Some v \<Rightarrow> Some v
           | None \<Rightarrow>
               (case th_param th of
                  None \<Rightarrow> None
                | Some p \<Rightarrow> Option.bind (map_of params p) gp_default)))"

definition assertScopeTightens :: "gate_definition \<Rightarrow> gate_definition \<Rightarrow> gate_error + unit" where
  "assertScopeTightens parent child =
     (let from = gd_scope parent; to = gd_scope child;
          before = set (opt_default (sc_slices from) []);
          after = set (opt_default (sc_slices to) []);
          beforeExcept = set (opt_default (sc_except from) []);
          excluded = set (opt_default (sc_except to) []);
          err = (\<lambda>c. GateRegistryError c (gd_id child))
      in if sc_mode from = sc_mode to then
           checks
             [(sc_mode to = ScopeListed \<and> \<not> before \<subseteq> after, err ''scope-listed-drops''),
              (sc_mode to = ScopePooled \<and> (card after \<noteq> card before \<or> \<not> after \<subseteq> before),
               err ''scope-pooled-changes''),
              (\<not> excluded \<subseteq> beforeExcept, err ''scope-except-widens'')]
         else if sc_mode from = ScopeListed \<and> sc_mode to = ScopeEach then
           checks [(excluded \<inter> before \<noteq> {}, err ''scope-listed-each-excepts'')]
         else if sc_mode from = ScopeAll \<and> sc_mode to = ScopeEach
             \<and> (gd_kind child = CountMin \<or> gd_kind child = MinimumN) then
           checks [(opt_default (sc_except to) [] \<noteq> [], err ''scope-all-each-excepts'')]
         else Inl (err ''scope-change''))"

section \<open>Numbers that may only rise\<close>

definition literal_to_param :: "num_ref option \<Rightarrow> num_ref option \<Rightarrow> bool" where
  "literal_to_param before after =
     (case before of Some (Literal n) \<Rightarrow> is_param_ref after | _ \<Rightarrow> False)"

definition param_renamed :: "num_ref option \<Rightarrow> num_ref option \<Rightarrow> bool" where
  "param_renamed before after =
     (case (before, after) of (Some (ParamRef p), Some (ParamRef q)) \<Rightarrow> p \<noteq> q | _ \<Rightarrow> False)"

text \<open>The statistic without its level and margin: \<open>{ ...statistic, levelBps: 0, marginBps: 0 }\<close>.\<close>

definition statistic_shape :: "gate_definition \<Rightarrow> gate_statistic option" where
  "statistic_shape gate =
     map_option (\<lambda>s. s\<lparr>st_levelBps := None, st_marginBps := None\<rparr>) (gd_statistic gate)"

definition gate_level :: "gate_definition \<Rightarrow> num_ref option" where
  "gate_level gate = Option.bind (gd_statistic gate) st_levelBps"

definition gate_margin :: "gate_definition \<Rightarrow> num_ref option" where
  "gate_margin gate = Option.bind (gd_statistic gate) st_marginBps"

definition gate_mode :: "gate_definition \<Rightarrow> paired_mode" where
  "gate_mode gate = opt_default (Option.bind (gd_statistic gate) st_mode) NonInferiority"

text \<open>The level keeps \<open>undefined\<close> apart from the unresolvable \<open>null\<close>: the outer option is
  \<open>undefined\<close>.\<close>

definition checkLevel ::
    "gate_definition \<Rightarrow> gate_definition \<Rightarrow> gate_parameter dict \<Rightarrow> gate_error + unit" where
  "checkLevel parent child params =
     (let err = (\<lambda>c. GateRegistryError c (gd_id child));
          parentLevel = gate_level parent; childLevel = gate_level child;
          before = (if parentLevel = None then None else Some (resolveNumberDefault parentLevel params LevelParam));
          after = (if childLevel = None then None else Some (resolveNumberDefault childLevel params LevelParam))
      in
      thenR (checks
        [(literal_to_param parentLevel childLevel, err ''level-literal-to-parameter''),
         (param_renamed parentLevel childLevel, err ''level-parameter-renamed'')])
      (if before = Some None \<or> after = Some None then
         checks [(parentLevel \<noteq> childLevel, err ''level-unresolvable'')]
       else
         checks
           [((before \<noteq> None \<or> after \<noteq> None)
             \<and> num_lt (case after of Some (Some l) \<Rightarrow> l | _ \<Rightarrow> Fin 0)
                      (case before of Some (Some l) \<Rightarrow> l | _ \<Rightarrow> Fin 0), err ''level-lowered'')]))"

definition checkMargin ::
    "gate_definition \<Rightarrow> gate_definition \<Rightarrow> gate_parameter dict \<Rightarrow> gate_error + unit" where
  "checkMargin parent child params =
     (let err = (\<lambda>c. GateRegistryError c (gd_id child));
          parentMargin = gate_margin parent; childMargin = gate_margin child;
          before = resolveNumberDefault (Some (opt_default parentMargin (Literal (Fin 0)))) params ValueParam;
          after = resolveNumberDefault (Some (opt_default childMargin (Literal (Fin 0)))) params ValueParam
      in
      thenR (checks
        [(literal_to_param parentMargin childMargin, err ''margin-literal-to-parameter''),
         (param_renamed parentMargin childMargin, err ''margin-parameter-renamed'')])
      (case (before, after) of
         (Some b, Some a) \<Rightarrow> checks [(num_lt a b, err ''margin-lowered'')]
       | _ \<Rightarrow> checks [(parentMargin \<noteq> childMargin, err ''margin-unresolvable'')]))"

definition checkThreshold ::
    "gate_definition \<Rightarrow> gate_definition \<Rightarrow> gate_parameter dict \<Rightarrow> gate_error + unit" where
  "checkThreshold parent child params =
     (let err = (\<lambda>c. GateRegistryError c (gd_id child));
          parentValue = Option.bind (gd_threshold parent) th_value;
          parentParam = Option.bind (gd_threshold parent) th_param;
          childParam = Option.bind (gd_threshold child) th_param
      in
      thenR (checks
        [(parentValue \<noteq> None \<and> childParam \<noteq> None, err ''threshold-literal-to-parameter''),
         (parentParam \<noteq> None \<and> childParam \<noteq> None \<and> parentParam \<noteq> childParam,
          err ''threshold-parameter-renamed'')])
      (case (resolveThresholdDefault parent params, resolveThresholdDefault child params) of
         (Some before, Some after) \<Rightarrow>
           checks
             [(if gd_direction child = LowerIsStricter then num_lt before after else num_lt after before,
               err ''threshold-loosens'')]
       | _ \<Rightarrow> checks [(gd_threshold parent \<noteq> gd_threshold child, err ''threshold-unresolvable'')]))"

definition checkMinimum ::
    "gate_definition \<Rightarrow> gate_definition \<Rightarrow> gate_parameter dict \<Rightarrow> gate_error + unit" where
  "checkMinimum parent child params =
     (let err = (\<lambda>c. GateRegistryError c (gd_id child));
          before = (if gd_minimumN parent = None then Some (Fin 0)
                    else resolveNumberDefault (gd_minimumN parent) params CountParam);
          after = (if gd_minimumN child = None then Some (Fin 0)
                   else resolveNumberDefault (gd_minimumN child) params CountParam)
      in
      thenR (checks
        [(literal_to_param (gd_minimumN parent) (gd_minimumN child), err ''minimum-literal-to-parameter''),
         (param_renamed (gd_minimumN parent) (gd_minimumN child), err ''minimum-parameter-renamed'')])
      (case (before, after) of
         (Some b, Some a) \<Rightarrow> checks [(num_lt a b, err ''minimum-lowered'')]
       | _ \<Rightarrow> checks [(gd_minimumN parent \<noteq> gd_minimumN child, err ''minimum-unresolvable'')]))"

section \<open>The whole comparison\<close>

definition assertGateTightens ::
    "gate_definition \<Rightarrow> gate_definition \<Rightarrow> gate_parameter dict \<Rightarrow> gate_error + unit" where
  "assertGateTightens parent child params =
     (let err = (\<lambda>c. GateRegistryError c (gd_id child)) in
      thenR (checks
        [(gd_kind parent \<noteq> gd_kind child, err ''kind-changed''),
         (gd_metric parent \<noteq> gd_metric child, err ''metric-changed''),
         (gd_direction parent \<noteq> gd_direction child, err ''direction-changed''),
         (statistic_shape parent \<noteq> statistic_shape child, err ''statistic-changed'')])
      (thenR (checkLevel parent child params)
      (thenR (checks [(gate_mode parent \<noteq> gate_mode child, err ''mode-changed'')])
      (thenR (checkMargin parent child params)
      (thenR (checkThreshold parent child params)
      (thenR (checkMinimum parent child params)
      (thenR (checks
        [(ceilingDecision (gd_onFail child) [gd_onFail parent] \<noteq> gd_onFail child, err ''on-fail-demoted''),
         (opt_default (gd_onInsufficient parent) HOLD \<noteq> HOLD
            \<or> opt_default (gd_onInsufficient child) HOLD \<noteq> HOLD, err ''on-insufficient''),
         (gd_floor parent = Some True \<and> gd_floor child \<noteq> Some True, err ''un-floored'')])
      (thenR (assertScopeTightens parent child)
      (checks
        [(\<not> set (opt_default (gd_evidence parent) []) \<subseteq> set (opt_default (gd_evidence child) []),
          err ''evidence-dropped''),
         (gd_predicate parent \<noteq> gd_predicate child, err ''predicate-changed'')])))))))))"

section \<open>What an accepted tightening guarantees\<close>

text \<open>The resolved numbers a parent and a tighter child are compared on.\<close>

lemma assertGateTightens_basic:
  assumes "assertGateTightens parent child params = Inr ()"
  shows "gd_kind child = gd_kind parent" and "gd_metric child = gd_metric parent"
    and "gd_direction child = gd_direction parent" and "statistic_shape child = statistic_shape parent"
    and "gate_mode child = gate_mode parent" and "gd_predicate child = gd_predicate parent"
    and "gd_onFail parent \<le> gd_onFail child"
    and "set (opt_default (gd_evidence parent) []) \<subseteq> set (opt_default (gd_evidence child) [])"
    and "\<not> (gd_floor parent = Some True \<and> gd_floor child \<noteq> Some True)"
  using assms
  by (auto simp: assertGateTightens_def checks_Inr_iff ceilingDecision_def max_def split: if_splits)

lemma assertGateTightens_parts:
  assumes "assertGateTightens parent child params = Inr ()"
  shows "checkLevel parent child params = Inr ()" and "checkMargin parent child params = Inr ()"
    and "checkThreshold parent child params = Inr ()" and "checkMinimum parent child params = Inr ()"
    and "assertScopeTightens parent child = Inr ()"
  using assms by (simp_all add: assertGateTightens_def Let_def)

lemma checkThreshold_resolved:
  assumes "checkThreshold parent child params = Inr ()"
    and "resolveThresholdDefault parent params = Some b" and "resolveThresholdDefault child params = Some a"
  shows "if gd_direction child = LowerIsStricter then \<not> num_lt b a else \<not> num_lt a b"
  using assms by (auto simp: checkThreshold_def Let_def split: if_splits)

lemma checkThreshold_unresolved:
  assumes "checkThreshold parent child params = Inr ()"
    and "resolveThresholdDefault parent params = None \<or> resolveThresholdDefault child params = None"
  shows "gd_threshold parent = gd_threshold child"
  using assms by (auto simp: checkThreshold_def Let_def split: if_splits option.splits)

lemma checkMinimum_resolved:
  assumes "checkMinimum parent child params = Inr ()"
  shows "(case (if gd_minimumN parent = None then Some (Fin 0)
                else resolveNumberDefault (gd_minimumN parent) params CountParam,
              if gd_minimumN child = None then Some (Fin 0)
                else resolveNumberDefault (gd_minimumN child) params CountParam) of
            (Some b, Some a) \<Rightarrow> \<not> num_lt a b
          | _ \<Rightarrow> gd_minimumN parent = gd_minimumN child)"
  using assms by (simp add: checkMinimum_def Let_def split: if_splits option.splits)

end
