(* ===== verification/GateObservations.thy ===== *)
theory GateObservations
  imports GateTightening JsNumber
begin

text \<open>
  \<open>src/gates/observations.ts\<close>: pooling of metric observations, expansion of a gate's scope, and
  the evaluation of one gate on one observation. The interval estimators of \<open>src/gates/stats\<close>
  (normal and beta quantiles, bootstrap resampling) are a parameter: each returns \<open>None\<close> where
  the code throws \<open>PairedDifferenceError\<close>. \<open>pairedNonInferiority\<close> of \<open>stats/paired.ts\<close>, which
  decides on an interval, is modelled.
\<close>

section \<open>Parameters\<close>

record difference_interval =
  di_lowerBps :: jsnum
  di_upperBps :: jsnum
  di_estimateBps :: jsnum
  di_n :: jsnum

type_synonym cells = "jsnum \<times> jsnum \<times> jsnum \<times> jsnum"

record gate_runtime =
  wilsonScoreInterval :: "jsnum \<Rightarrow> jsnum \<Rightarrow> jsnum \<Rightarrow> (jsnum \<times> jsnum) option"
  clopperPearsonInterval :: "jsnum \<Rightarrow> jsnum \<Rightarrow> jsnum \<Rightarrow> (jsnum \<times> jsnum) option"
  pairedBinaryDifferenceInterval :: "cells \<Rightarrow> jsnum \<Rightarrow> bool \<Rightarrow> difference_interval option"
  pairedMeanDifferenceBootstrap ::
    "jsnum list \<Rightarrow> jsnum \<Rightarrow> jsnum option \<Rightarrow> jsnum option \<Rightarrow> (jsnum \<times> jsnum) option \<Rightarrow> difference_interval option"
  date_parse :: "string \<Rightarrow> jsnum"

section \<open>Support and pooling\<close>

definition is_count :: "jsnum \<Rightarrow> bool" where
  "is_count x \<longleftrightarrow> is_safe_integer x \<and> \<not> num_lt x (Fin 0)"

definition supportOf :: "metric_observation option \<Rightarrow> jsnum option" where
  "supportOf observation =
     (case Option.bind observation ob_n of
        None \<Rightarrow> None
      | Some n \<Rightarrow> if is_count n then Some n else None)"

text \<open>The loops return \<open>None\<close> (the source's \<open>null\<close>) at the first malformed observation.\<close>

fun pool_proportion :: "metric_observation list \<Rightarrow> jsnum \<Rightarrow> jsnum \<Rightarrow> (jsnum \<times> jsnum) option" where
  "pool_proportion [] n events = Some (n, events)"
| "pool_proportion (ob # obs) n events =
     (case (supportOf (Some ob), ob_events ob) of
        (Some m, Some e) \<Rightarrow>
          if \<not> is_count e \<or> num_lt m e then None
          else pool_proportion obs (js_add n m) (js_add events e)
      | _ \<Rightarrow> None)"

definition pairedCells :: "metric_observation option \<Rightarrow> cells option" where
  "pairedCells observation =
     (case Option.bind observation ob_paired of
        None \<Rightarrow> None
      | Some (a, b, c, d) \<Rightarrow>
          if is_count a \<and> is_count b \<and> is_count c \<and> is_count d then Some (a, b, c, d) else None)"

definition cell_sum :: "cells \<Rightarrow> jsnum" where
  "cell_sum q = (case q of (a, b, c, d) \<Rightarrow> js_add (js_add (js_add a b) c) d)"

fun pool_paired :: "metric_observation list \<Rightarrow> jsnum \<Rightarrow> cells \<Rightarrow> (jsnum \<times> cells) option" where
  "pool_paired [] n tot = Some (n, tot)"
| "pool_paired (ob # obs) n tot =
     (case (supportOf (Some ob), pairedCells (Some ob)) of
        (Some m, Some (a, b, c, d)) \<Rightarrow>
          if \<not> num_eq m (cell_sum (a, b, c, d)) then None
          else (case tot of (ta, tb, tc, td) \<Rightarrow>
            pool_paired obs (js_add n m) (js_add ta a, js_add tb b, js_add tc c, js_add td d))
      | _ \<Rightarrow> None)"

fun pool_scalar :: "metric_observation list \<Rightarrow> jsnum \<Rightarrow> jsnum \<Rightarrow> (jsnum \<times> jsnum) option" where
  "pool_scalar [] n weighted = Some (n, weighted)"
| "pool_scalar (ob # obs) n weighted =
     (case (supportOf (Some ob), ob_value ob) of
        (Some m, Some v) \<Rightarrow>
          if \<not> is_finite v then None
          else pool_scalar obs (js_add n m) (js_add weighted (js_mul m v))
      | _ \<Rightarrow> None)"

fun pool_differences :: "metric_observation list \<Rightarrow> jsnum \<Rightarrow> jsnum list \<Rightarrow> (jsnum \<times> jsnum list) option" where
  "pool_differences [] n ds = Some (n, ds)"
| "pool_differences (ob # obs) n ds =
     (case (supportOf (Some ob), ob_differences ob) of
        (Some m, Some es) \<Rightarrow>
          if \<not> list_all is_finite es \<or> \<not> num_eq m (num_of_int (int (length es))) then None
          else pool_differences obs (js_add n m) (ds @ es)
      | _ \<Rightarrow> None)"

definition empty_observation :: metric_observation where
  "empty_observation = \<lparr>ob_n = None, ob_events = None, ob_value = None, ob_paired = None,
     ob_differences = None, ob_available = None\<rparr>"

definition poolObservations :: "metric_kind option \<Rightarrow> metric_observation list \<Rightarrow> metric_observation option" where
  "poolObservations kind observations =
     (if observations = [] then None
      else case kind of
        Some Proportion \<Rightarrow>
          map_option (\<lambda>(n, e). empty_observation\<lparr>ob_n := Some n, ob_events := Some e\<rparr>)
            (pool_proportion observations (Fin 0) (Fin 0))
      | Some Paired \<Rightarrow>
          map_option (\<lambda>(n, t). empty_observation\<lparr>ob_n := Some n, ob_paired := Some t\<rparr>)
            (pool_paired observations (Fin 0) (Fin 0, Fin 0, Fin 0, Fin 0))
      | Some Scalar \<Rightarrow>
          (case pool_scalar observations (Fin 0) (Fin 0) of
             None \<Rightarrow> None
           | Some (n, w) \<Rightarrow>
               if num_eq n (Fin 0) then None
               else Some (empty_observation\<lparr>ob_n := Some n, ob_value := Some (js_div w n)\<rparr>))
      | Some Differences \<Rightarrow>
          map_option (\<lambda>(n, ds). empty_observation\<lparr>ob_n := Some n, ob_differences := Some ds\<rparr>)
            (pool_differences observations (Fin 0) [])
      | Some EvidenceMetric \<Rightarrow>
          if \<exists>ob \<in> set observations. ob_available ob = None then None
          else Some (empty_observation\<lparr>ob_available :=
            Some (concat (map (\<lambda>ob. opt_default (ob_available ob) []) observations))\<rparr>)
      | None \<Rightarrow> None)"

section \<open>Scopes\<close>

definition seriesFor ::
    "gate_definition \<Rightarrow> gate_pack \<Rightarrow> metric_series dict dict \<Rightarrow> metric_series option" where
  "seriesFor gate pack providers =
     (case gd_metric gate of
        None \<Rightarrow> None
      | Some m \<Rightarrow>
          (case map_of (pk_metrics pack) (mr_name m) of
             None \<Rightarrow> None
           | Some declared \<Rightarrow>
               if md_provider declared \<noteq> mr_provider m then None
               else Option.bind (map_of providers (mr_provider m)) (\<lambda>ms. map_of ms (mr_name m))))"

definition slice_observation :: "metric_series option \<Rightarrow> string \<Rightarrow> metric_observation option" where
  "slice_observation series slice = Option.bind series (\<lambda>s. map_of (ms_bySlice s) slice)"

definition expandScope ::
    "gate_definition \<Rightarrow> metric_kind option \<Rightarrow> metric_series option \<Rightarrow> string list
     \<Rightarrow> (string option \<times> metric_observation option) list" where
  "expandScope gate kind series slices =
     (let scope = gd_scope gate in
      case sc_mode scope of
        ScopeAll \<Rightarrow> [(None, Option.bind series ms_pooled)]
      | ScopePooled \<Rightarrow>
          (let observations = map (slice_observation series) (opt_default (sc_slices scope) [])
           in if None \<in> set observations then [(None, None)]
              else [(None, poolObservations kind (map the observations))])
      | mode \<Rightarrow>
          (let excluded = set (opt_default (sc_except scope) []);
               names = (if mode = ScopeEach then filter (\<lambda>s. s \<notin> excluded) slices
                        else opt_default (sc_slices scope) [])
           in map (\<lambda>s. (Some s, slice_observation series s)) names))"

section \<open>One gate on one observation\<close>

definition resolveGateNumber :: "num_ref option \<Rightarrow> string \<Rightarrow> jsnum dict \<Rightarrow> jsnum option" where
  "resolveGateNumber value packId parameters =
     (case value of
        None \<Rightarrow> None
      | Some (Literal n) \<Rightarrow> Some n
      | Some (ParamRef p) \<Rightarrow> map_of parameters (qualifyGateParameter packId p))"

definition thresholdValue :: "gate_definition \<Rightarrow> string \<Rightarrow> jsnum dict \<Rightarrow> jsnum option" where
  "thresholdValue gate packId parameters =
     (case gd_threshold gate of
        None \<Rightarrow> None
      | Some th \<Rightarrow>
          (case th_value th of
             Some v \<Rightarrow> Some v
           | None \<Rightarrow>
               (case th_param th of
                  None \<Rightarrow> None
                | Some p \<Rightarrow> map_of parameters (qualifyGateParameter packId p))))"

record observation_context =
  oc_packId :: string
  oc_parameters :: "jsnum dict"
  oc_metrics :: json
  oc_slices :: "string list"
  oc_upstream :: "integrity_metadata option"
  oc_nowMs :: jsnum
  oc_slice :: "string option"

text \<open>The document of a predicate gate: \<open>{ metrics, parameters, slices }\<close>.\<close>

definition gate_document :: "observation_context \<Rightarrow> json" where
  "gate_document ctx =
     JObj [(''metrics'', oc_metrics ctx),
       (''parameters'', JObj (map (\<lambda>(name, n). (name, JNum n)) (oc_parameters ctx))),
       (''slices'', JArr (map JStr (oc_slices ctx)))]"

datatype evidence_method =
    StatMethod statistic_method | ExactCount | ExactValue | EvidencePresent | PredicateMethod
  | UpstreamIntegrityMethod | SupportCount

text \<open>The interval of a statistic: level, lower and upper bound and estimate, in basis points.\<close>

record evidence_statistic =
  es_method :: evidence_method
  es_interval :: "(jsnum \<times> jsnum \<times> jsnum \<times> jsnum) option"

record evidence_threshold =
  et_op :: threshold_op
  et_value :: "jsnum option"
  et_param :: "string option"
  et_resolved :: jsnum

text \<open>\<open>events\<close>: the outer option is absent, the inner one \<open>null\<close>.\<close>

record slice_evaluation =
  se_slice :: "string option"
  se_n :: "jsnum option"
  se_status :: gate_status
  se_reason :: string
  se_events :: "jsnum option option"
  se_statistic :: "evidence_statistic option"
  se_threshold :: "evidence_threshold option"

definition mk_evaluation ::
    "string option \<Rightarrow> jsnum option \<Rightarrow> gate_status \<Rightarrow> string \<Rightarrow> slice_evaluation" where
  "mk_evaluation slice n status reason =
     \<lparr>se_slice = slice, se_n = n, se_status = status, se_reason = reason, se_events = None,
      se_statistic = None, se_threshold = None\<rparr>"

definition threshold_evidence :: "gate_definition \<Rightarrow> jsnum \<Rightarrow> evidence_threshold option" where
  "threshold_evidence gate target =
     map_option (\<lambda>th. \<lparr>et_op = th_op th, et_value = th_value th,
        et_param = (if th_value th \<noteq> None then None else th_param th), et_resolved = target\<rparr>)
       (gd_threshold gate)"

definition pass_fail :: "bool \<Rightarrow> gate_status" where
  "pass_fail passed = (if passed then PassStatus else FailStatus)"

definition plain_statistic :: "evidence_method \<Rightarrow> evidence_statistic option" where
  "plain_statistic m = Some \<lparr>es_method = m, es_interval = None\<rparr>"

text \<open>\<open>pairedNonInferiority\<close>; \<open>None\<close> is the \<open>PairedDifferenceError\<close> for a margin outside
  \<open>-10000..0\<close>.\<close>

datatype non_inferiority = NonInferior | NotNonInferior | InsufficientInterval

definition bps_range :: "jsnum \<Rightarrow> bool" where
  "bps_range v \<longleftrightarrow> is_safe_integer v \<and> num_le (Fin (- 10000)) v \<and> num_le v (Fin 10000)"

definition pairedNonInferiority :: "difference_interval \<Rightarrow> jsnum \<Rightarrow> non_inferiority option" where
  "pairedNonInferiority interval marginBps =
     (if \<not> is_safe_integer marginBps \<or> num_lt (Fin 0) marginBps \<or> num_lt marginBps (Fin (- 10000))
      then None
      else if \<not> (bps_range (di_lowerBps interval) \<and> bps_range (di_upperBps interval)
                \<and> bps_range (di_estimateBps interval)
                \<and> is_safe_integer (di_n interval) \<and> num_lt (Fin 0) (di_n interval)
                \<and> num_le (di_lowerBps interval) (di_estimateBps interval)
                \<and> num_le (di_estimateBps interval) (di_upperBps interval))
      then Some InsufficientInterval
      else if num_le marginBps (di_lowerBps interval) then Some NonInferior else Some NotNonInferior)"

text \<open>Errors that leave \<open>evaluateObservation\<close>.\<close>

datatype observation_error = PairedDifferenceError

definition intervalBound ::
    "gate_runtime \<Rightarrow> gate_definition \<Rightarrow> metric_observation \<Rightarrow> observation_context \<Rightarrow> jsnum \<Rightarrow> slice_evaluation" where
  "intervalBound rt gate ob ctx n =
     (let ev = mk_evaluation (oc_slice ctx) (Some n); st = gd_statistic gate in
      case ob_events ob of
        None \<Rightarrow> (ev InsufficientStatus ''events-unknown'')\<lparr>se_events := Some None\<rparr>
      | Some events \<Rightarrow>
        if \<not> is_count events then (ev InsufficientStatus ''events-unknown'')\<lparr>se_events := Some None\<rparr>
        else if num_lt n events
        then (ev InsufficientStatus ''events-exceed-n'')\<lparr>se_events := Some (Some events)\<rparr>
        else case thresholdValue gate (oc_packId ctx) (oc_parameters ctx) of
          None \<Rightarrow> (ev InsufficientStatus ''parameter-missing'')\<lparr>se_events := Some (Some events)\<rparr>
        | Some target \<Rightarrow>
          (case resolveGateNumber (gate_level gate) (oc_packId ctx) (oc_parameters ctx) of
             None \<Rightarrow> (ev InsufficientStatus ''parameter-missing'')\<lparr>se_events := Some (Some events)\<rparr>
           | Some levelBps \<Rightarrow>
             let method = opt_default (Option.bind st st_method) Wilson;
                 estimator = (if method = ClopperPearson then clopperPearsonInterval rt
                              else wilsonScoreInterval rt)
             in case estimator events n levelBps of
                  None \<Rightarrow> (ev InsufficientStatus ''statistic-invalid'')\<lparr>se_events := Some (Some events)\<rparr>
                | Some (lower, upper) \<Rightarrow>
                  let lowerBps = js_max (Fin 0) (js_floor (js_mul lower (Fin 10000)));
                      upperBps = js_min (Fin 10000) (js_ceil (js_mul upper (Fin 10000)));
                      estimateBps = js_round (js_mul (js_div events n) (Fin 10000));
                      passed = (if gate_bound gate = Some Upper then num_le upperBps target
                                else num_le target lowerBps)
                  in (ev (pass_fail passed)
                        (if passed then ''bound-within-threshold'' else ''bound-breaches-threshold''))
                     \<lparr>se_events := Some (Some events),
                      se_statistic := Some \<lparr>es_method = StatMethod method,
                        es_interval = Some (levelBps, lowerBps, upperBps, estimateBps)\<rparr>,
                      se_threshold := threshold_evidence gate target\<rparr>))"

definition pairedDifference ::
    "gate_runtime \<Rightarrow> gate_definition \<Rightarrow> metric_observation \<Rightarrow> observation_context \<Rightarrow> jsnum
     \<Rightarrow> observation_error + slice_evaluation" where
  "pairedDifference rt gate ob ctx n =
     (let ev = mk_evaluation (oc_slice ctx) (Some n); st = gd_statistic gate in
      case pairedCells (Some ob) of
        None \<Rightarrow> Inr (ev InsufficientStatus ''paired-unknown'')
      | Some q \<Rightarrow>
        if \<not> num_eq n (cell_sum q) then Inr (ev InsufficientStatus ''observation-mismatch'')
        else let method = opt_default (Option.bind st st_method) Newcombe in
          (case resolveGateNumber (gate_level gate) (oc_packId ctx) (oc_parameters ctx) of
             None \<Rightarrow> Inr (ev InsufficientStatus ''parameter-missing'')
           | Some levelBps \<Rightarrow>
             (case pairedBinaryDifferenceInterval rt q levelBps (method = Tango) of
                None \<Rightarrow> Inr (ev InsufficientStatus ''paired-invalid'')
              | Some interval \<Rightarrow>
                (case resolveGateNumber (Some (opt_default (gate_margin gate) (Literal (Fin 0))))
                        (oc_packId ctx) (oc_parameters ctx) of
                   None \<Rightarrow> Inr (ev InsufficientStatus ''parameter-missing'')
                 | Some margin \<Rightarrow>
                   let statistic = Some \<lparr>es_method = StatMethod method,
                         es_interval = Some (levelBps, di_lowerBps interval, di_upperBps interval,
                           di_estimateBps interval)\<rparr>;
                       threshold = Some \<lparr>et_op = Gte, et_value = None, et_param = None, et_resolved = margin\<rparr>
                   in if gate_mode gate = NonInferiority then
                        (case pairedNonInferiority interval margin of
                           None \<Rightarrow> Inl PairedDifferenceError
                         | Some InsufficientInterval \<Rightarrow>
                             Inr ((ev InsufficientStatus ''paired-invalid'')
                               \<lparr>se_statistic := statistic, se_threshold := threshold\<rparr>)
                         | Some verdict \<Rightarrow>
                             Inr ((ev (pass_fail (verdict = NonInferior))
                               (if verdict = NonInferior then ''lower-bound-at-or-above-margin''
                                else ''lower-bound-below-margin''))
                               \<lparr>se_statistic := statistic, se_threshold := threshold\<rparr>))
                      else
                        let passed = num_lt margin (di_lowerBps interval)
                        in Inr ((ev (pass_fail passed)
                             (if passed then ''lower-bound-above-margin''
                              else ''lower-bound-at-or-below-margin''))
                             \<lparr>se_statistic := statistic, se_threshold := threshold\<rparr>)))))"

definition bootstrapBound ::
    "gate_runtime \<Rightarrow> gate_definition \<Rightarrow> metric_observation \<Rightarrow> observation_context \<Rightarrow> jsnum \<Rightarrow> slice_evaluation" where
  "bootstrapBound rt gate ob ctx n =
     (let ev = mk_evaluation (oc_slice ctx) (Some n); st = gd_statistic gate in
      case ob_differences ob of
        None \<Rightarrow> ev InsufficientStatus ''differences-unknown''
      | Some differences \<Rightarrow>
        if \<not> num_eq (num_of_int (int (length differences))) n
        then ev InsufficientStatus ''observation-mismatch''
        else case thresholdValue gate (oc_packId ctx) (oc_parameters ctx) of
          None \<Rightarrow> ev InsufficientStatus ''parameter-missing''
        | Some target \<Rightarrow>
          (case resolveGateNumber (gate_level gate) (oc_packId ctx) (oc_parameters ctx) of
             None \<Rightarrow> ev InsufficientStatus ''parameter-missing''
           | Some levelBps \<Rightarrow>
             (case pairedMeanDifferenceBootstrap rt differences levelBps (Option.bind st st_seed)
                     (Option.bind st st_resamples) (Option.bind st st_bounds) of
                None \<Rightarrow> ev InsufficientStatus ''statistic-invalid''
              | Some interval \<Rightarrow>
                let passed = (if gate_bound gate = Some Upper then num_le (di_upperBps interval) target
                              else num_le target (di_lowerBps interval))
                in (ev (pass_fail passed)
                      (if passed then ''bound-within-threshold'' else ''bound-breaches-threshold''))
                   \<lparr>se_statistic := Some \<lparr>es_method = StatMethod Bootstrap,
                      es_interval = Some (levelBps, di_lowerBps interval, di_upperBps interval,
                        di_estimateBps interval)\<rparr>,
                    se_threshold := threshold_evidence gate target\<rparr>)))"

definition exactCount ::
    "gate_definition \<Rightarrow> metric_observation \<Rightarrow> observation_context \<Rightarrow> jsnum \<Rightarrow> slice_evaluation" where
  "exactCount gate ob ctx n =
     (let ev = mk_evaluation (oc_slice ctx) (Some n) in
      case ob_events ob of
        None \<Rightarrow> (ev InsufficientStatus ''events-unknown'')\<lparr>se_events := Some None\<rparr>
      | Some events \<Rightarrow>
        if \<not> is_count events then (ev InsufficientStatus ''events-unknown'')\<lparr>se_events := Some None\<rparr>
        else if num_lt n events
        then (ev InsufficientStatus ''events-exceed-n'')\<lparr>se_events := Some (Some events)\<rparr>
        else case thresholdValue gate (oc_packId ctx) (oc_parameters ctx) of
          None \<Rightarrow> (ev InsufficientStatus ''parameter-missing'')\<lparr>se_events := Some (Some events)\<rparr>
        | Some target \<Rightarrow>
          let passed = (if gd_kind gate = CountMax then num_le events target else num_le target events)
          in (ev (pass_fail passed)
                (if passed then ''count-within-threshold'' else ''count-breaches-threshold''))
             \<lparr>se_events := Some (Some events), se_statistic := plain_statistic ExactCount,
              se_threshold := threshold_evidence gate target\<rparr>)"

definition exactValue ::
    "gate_definition \<Rightarrow> metric_observation \<Rightarrow> observation_context \<Rightarrow> jsnum \<Rightarrow> slice_evaluation" where
  "exactValue gate ob ctx n =
     (let ev = mk_evaluation (oc_slice ctx) (Some n) in
      case ob_value ob of
        None \<Rightarrow> ev InsufficientStatus ''value-unknown''
      | Some v \<Rightarrow>
        if \<not> is_finite v then ev InsufficientStatus ''value-unknown''
        else case thresholdValue gate (oc_packId ctx) (oc_parameters ctx) of
          None \<Rightarrow> ev InsufficientStatus ''parameter-missing''
        | Some target \<Rightarrow>
          let passed = (if map_option th_op (gd_threshold gate) = Some Lte then num_le v target
                        else num_le target v)
          in (ev (pass_fail passed)
                (if passed then ''value-within-threshold'' else ''value-breaches-threshold''))
             \<lparr>se_statistic := plain_statistic ExactValue, se_threshold := threshold_evidence gate target\<rparr>)"

text \<open>The loop over the required attestations; an entry's expiry must lie after the evaluation.\<close>

fun evidenceVerdict ::
    "gate_runtime \<Rightarrow> jsnum \<Rightarrow> available_evidence list \<Rightarrow> string list \<Rightarrow> gate_status \<times> string" where
  "evidenceVerdict rt nowMs available [] = (PassStatus, ''evidence-present'')"
| "evidenceVerdict rt nowMs available (i # ids) =
     (case find (\<lambda>c. av_id c = i) available of
        None \<Rightarrow> (InsufficientStatus, ''evidence-missing'')
      | Some entry \<Rightarrow>
        if \<not> av_passed entry then (FailStatus, ''evidence-failed'')
        else if opt_holds (\<lambda>e. \<not> is_finite (date_parse rt e) \<or> num_le (date_parse rt e) nowMs)
                  (av_expiresAt entry)
        then (FailStatus, ''evidence-expired'')
        else evidenceVerdict rt nowMs available ids)"

definition evidencePresent ::
    "gate_runtime \<Rightarrow> gate_definition \<Rightarrow> metric_observation option \<Rightarrow> observation_context \<Rightarrow> slice_evaluation" where
  "evidencePresent rt gate observation ctx =
     (let ev = mk_evaluation (oc_slice ctx) (supportOf observation) in
      case Option.bind observation ob_available of
        None \<Rightarrow> ev InsufficientStatus ''evidence-unknown''
      | Some available \<Rightarrow>
        (case evidenceVerdict rt (oc_nowMs ctx) available (opt_default (gd_evidence gate) []) of
           (status, reason) \<Rightarrow> (ev status reason)\<lparr>se_statistic := plain_statistic EvidencePresent\<rparr>))"

definition predicateGate ::
    "gate_definition \<Rightarrow> metric_observation option \<Rightarrow> observation_context \<Rightarrow> slice_evaluation" where
  "predicateGate gate observation ctx =
     (let ev = mk_evaluation (oc_slice ctx) (supportOf observation);
          value = (case gd_predicate gate of
                     None \<Rightarrow> TUnknown
                   | Some p \<Rightarrow> evaluatePredicate p (gate_document ctx) [])
      in (case value of
            TTrue \<Rightarrow> ev PassStatus ''predicate-true''
          | TFalse \<Rightarrow> ev FailStatus ''predicate-false''
          | TUnknown \<Rightarrow> ev InsufficientStatus ''predicate-unknown'')
         \<lparr>se_statistic := plain_statistic PredicateMethod\<rparr>)"

definition upstreamGate ::
    "gate_definition \<Rightarrow> metric_observation option \<Rightarrow> observation_context \<Rightarrow> slice_evaluation" where
  "upstreamGate gate observation ctx =
     (let ev = mk_evaluation (oc_slice ctx) (supportOf observation);
          verdict = evaluateUpstreamCeiling (oc_upstream ctx) Allowlist (Fin 1) (Fin 0)
      in (if oc_upstream ctx = None then ev InsufficientStatus ''upstream-missing''
          else if up_problems verdict = [] then ev PassStatus ''upstream-clean''
          else ev FailStatus (if up_compromised verdict then ''upstream-compromised'' else ''upstream-allowlist''))
         \<lparr>se_statistic := plain_statistic UpstreamIntegrityMethod\<rparr>)"

definition counted_kind :: "gate_kind \<Rightarrow> bool" where
  "counted_kind k \<longleftrightarrow> k \<noteq> UpstreamCeilingGate \<and> k \<noteq> PredicateGate \<and> k \<noteq> Evidence"

definition evaluateObservation ::
    "gate_runtime \<Rightarrow> gate_definition \<Rightarrow> metric_observation option \<Rightarrow> observation_context
     \<Rightarrow> observation_error + slice_evaluation" where
  "evaluateObservation rt gate observation ctx =
     (let ev = mk_evaluation (oc_slice ctx) (supportOf observation);
          minimumN = (if gd_minimumN gate = None then Some (Fin 0)
                      else resolveGateNumber (gd_minimumN gate) (oc_packId ctx) (oc_parameters ctx))
      in case gd_kind gate of
           Evidence \<Rightarrow> Inr (evidencePresent rt gate observation ctx)
         | PredicateGate \<Rightarrow> Inr (predicateGate gate observation ctx)
         | UpstreamCeilingGate \<Rightarrow> Inr (upstreamGate gate observation ctx)
         | kind \<Rightarrow>
           (case observation of
              None \<Rightarrow> Inr (ev InsufficientStatus ''metric-missing'')
            | Some ob \<Rightarrow>
              (case supportOf observation of
                 None \<Rightarrow> Inr (ev InsufficientStatus ''support-unknown'')
               | Some n \<Rightarrow>
                 (case minimumN of
                    None \<Rightarrow> Inr (ev InsufficientStatus ''parameter-missing'')
                  | Some m \<Rightarrow>
                    if num_lt n m then Inr (ev InsufficientStatus ''below-minimum-n'')
                    else if kind = MinimumN then
                      Inr ((case (if gd_minimumN gate = None then None else minimumN) of
                              None \<Rightarrow> ev InsufficientStatus ''parameter-missing''
                            | Some target \<Rightarrow>
                              if num_le target n then ev PassStatus ''support-met''
                              else ev InsufficientStatus ''below-minimum-n'')
                           \<lparr>se_statistic := plain_statistic SupportCount\<rparr>)
                    else if kind = IntervalBound then Inr (intervalBound rt gate ob ctx n)
                    else if kind = PairedDifference then pairedDifference rt gate ob ctx n
                    else if kind = BootstrapBound then Inr (bootstrapBound rt gate ob ctx n)
                    else if kind = ValueThreshold then Inr (exactValue gate ob ctx n)
                    else Inr (exactCount gate ob ctx n)))))"

end
