(* ===== verification/GateComposition.thy ===== *)
theory GateComposition
  imports GateObservations
begin

text \<open>
  \<open>src/gates/pack-composition.ts\<close> (composition of packs along \<open>extends\<close>, project floors) and the
  ceiling rules of \<open>src/gates/floors.ts\<close>. The digest of a document and its schema check are
  parameters. The recursion over \<open>extends\<close> carries fuel; the registry theory shows how much is
  enough.
\<close>

section \<open>extends\<close>

definition mergeParameter ::
    "string \<Rightarrow> gate_parameter dict \<Rightarrow> string \<times> gate_parameter \<Rightarrow> gate_error + gate_parameter dict" where
  "mergeParameter packId merged entry =
     (case entry of (name, parameter) \<Rightarrow>
        case map_of merged name of
          None \<Rightarrow> Inr (AList.update name parameter merged)
        | Some before \<Rightarrow>
            if gp_type before \<noteq> gp_type parameter \<or> gp_direction before \<noteq> gp_direction parameter
            then Inl (GateRegistryError ''parameter-type-or-direction'' packId)
            else (case (gp_default before, gp_default parameter) of
                (None, Some d) \<Rightarrow> Inl (GateRegistryError ''parameter-default-added'' packId)
              | (Some b, None) \<Rightarrow> Inr (AList.update name parameter merged)
              | (Some b, Some d) \<Rightarrow>
                  if (if gp_direction parameter = LowerIsStricter then num_le d b else num_le b d)
                  then Inr (AList.update name parameter merged)
                  else Inl (GateRegistryError ''parameter-default-loosens'' packId)
              | (None, None) \<Rightarrow> Inr merged))"

definition mergeParentGate ::
    "gate_pack \<Rightarrow> gate_parameter dict \<Rightarrow> gate_definition list \<Rightarrow> gate_definition
     \<Rightarrow> gate_error + gate_definition list" where
  "mergeParentGate child params merged gate =
     (case find (\<lambda>c. gd_id c = gd_id gate) (pk_gates child) of
        None \<Rightarrow>
          if gd_floor gate = Some True then Inl (GateRegistryError ''floor-gate-removed'' (gd_id gate))
          else Inr merged
      | Some override \<Rightarrow>
          thenR (assertGateTightens gate override params) (Inr (merged @ [override])))"

definition mergeMetric ::
    "string \<Rightarrow> metric_declaration dict \<Rightarrow> string \<times> metric_declaration \<Rightarrow> gate_error + metric_declaration dict" where
  "mergeMetric packId merged entry =
     (case entry of (name, metric) \<Rightarrow>
        if opt_holds (\<lambda>b. md_provider b \<noteq> md_provider metric \<or> md_kind b \<noteq> md_kind metric) (map_of merged name)
        then Inl (GateRegistryError ''inherited-metric-changed'' packId)
        else Inr (AList.update name metric merged))"

text \<open>\<open>seen\<close> is the set of parent gates that the child overrides; a gate of the child that is new
  to the parent is appended.\<close>

definition applyGateExtends :: "gate_pack \<Rightarrow> gate_pack \<Rightarrow> gate_error + gate_pack" where
  "applyGateExtends parentResolved child =
     bindR (foldR (mergeParameter (pk_id child)) (opt_default (pk_parameters parentResolved) [])
              (opt_default (pk_parameters child) []))
       (\<lambda>mergedParams.
     bindR (foldR (mergeParentGate child mergedParams) [] (pk_gates parentResolved))
       (\<lambda>merged.
     let parentIds = set (map gd_id (pk_gates parentResolved));
         added = filter (\<lambda>g. gd_id g \<notin> parentIds) (pk_gates child)
     in bindR (foldR (mergeMetric (pk_id child)) (pk_metrics parentResolved) (pk_metrics child))
       (\<lambda>mergedMetrics.
          Inr (child\<lparr>pk_parameters := Some mergedParams, pk_metrics := mergedMetrics,
                 pk_gates := merged @ added\<rparr>))))"

type_synonym pack_lookup = "string \<Rightarrow> gate_error + gate_pack"

record gate_documents =
  doc_packDigest :: "gate_pack \<Rightarrow> string"
  doc_packValid :: "gate_pack \<Rightarrow> bool"

fun composeGatePack ::
    "gate_documents \<Rightarrow> nat \<Rightarrow> gate_pack \<Rightarrow> pack_lookup \<Rightarrow> gate_error + gate_pack" where
  "composeGatePack env fuel pack lookupAuthored =
     (case pk_extends pack of
        None \<Rightarrow> Inr pack
      | Some parentPin \<Rightarrow>
        (case fuel of
           0 \<Rightarrow> Inl (GateRegistryError ''extends-depth'' (pk_id pack))
         | Suc fuel' \<Rightarrow>
           bindR (lookupAuthored (pin_id parentPin)) (\<lambda>parentAuthored.
             if pk_version parentAuthored \<noteq> pin_version parentPin
               \<or> doc_packDigest env parentAuthored \<noteq> pin_digest parentPin
             then Inl (GateRegistryError ''parent-pin-mismatch'' (pk_id pack))
             else bindR (composeGatePack env fuel' parentAuthored lookupAuthored) (\<lambda>parent.
               applyGateExtends parent pack))))"

declare composeGatePack.simps [simp del]

section \<open>Floor packs\<close>

record expanded_floor =
  ef_packId :: string
  ef_gates :: "gate_definition list"
  ef_params :: "gate_parameter dict"

datatype floor_source = InlinePack gate_pack | PackRef artifact_pin

record project_floors =
  pf_floors :: "floor_source list"
  pf_ceilings :: "gate_outcome dict"

definition governsDefaultCeiling :: "expanded_floor \<Rightarrow> gate_definition \<Rightarrow> bool" where
  "governsDefaultCeiling fl defaultGate \<longleftrightarrow>
     (\<exists>gate \<in> set (ef_gates fl).
        gd_id gate = ''integrity-ceiling'' \<and> gd_kind gate = UpstreamCeilingGate
        \<and> sc_mode (gd_scope gate) = ScopeAll
        \<and> assertGateTightens defaultGate gate (ef_params fl) = Inr ())"

definition ref_name :: "num_ref option \<Rightarrow> string list" where
  "ref_name value = (case value of Some (ParamRef p) \<Rightarrow> [p] | _ \<Rightarrow> [])"

text \<open>The parameters a gate refers to: threshold, minimum, level and margin.\<close>

definition gate_refs :: "gate_definition \<Rightarrow> string list" where
  "gate_refs gate =
     (case Option.bind (gd_threshold gate) th_param of None \<Rightarrow> [] | Some p \<Rightarrow> [p])
     @ ref_name (gd_minimumN gate) @ ref_name (gate_level gate) @ ref_name (gate_margin gate)"

definition checkFloorRefs :: "gate_parameter dict \<Rightarrow> gate_definition \<Rightarrow> gate_error + unit" where
  "checkFloorRefs params gate =
     forEach (\<lambda>name. if Option.bind (map_of params name) gp_default = None
                then Inl (GateRegistryError ''floor-parameter-default'' (gd_id gate)) else Inr ())
       (gate_refs gate)"

definition expanded_of :: "string \<Rightarrow> gate_pack \<Rightarrow> expanded_floor" where
  "expanded_of packId composed =
     \<lparr>ef_packId = packId, ef_gates = pk_gates composed, ef_params = opt_default (pk_parameters composed) []\<rparr>"

definition expandFloorSource ::
    "gate_documents \<Rightarrow> nat \<Rightarrow> pack_lookup \<Rightarrow> provider_registry \<Rightarrow> floor_source \<Rightarrow> gate_error + expanded_floor" where
  "expandFloorSource env fuel lookupAuthored providers source =
     (case source of
        PackRef pin \<Rightarrow>
          bindR (lookupAuthored (pin_id pin)) (\<lambda>authored.
            if pk_version authored \<noteq> pin_version pin \<or> doc_packDigest env authored \<noteq> pin_digest pin
            then Inl (GateRegistryError ''floor-pin-mismatch'' (pin_id pin))
            else bindR (composeGatePack env fuel authored lookupAuthored) (\<lambda>composed.
              thenR (validateResolvedPack composed providers) (Inr (expanded_of (pk_id authored) composed))))
      | InlinePack pack \<Rightarrow>
          if \<not> doc_packValid env pack then Inl (GateRegistryError ''invalid-document'' (pk_id pack))
          else bindR (composeGatePack env fuel pack lookupAuthored) (\<lambda>composed.
            thenR (validateResolvedPack composed providers)
            (thenR (forEach (checkFloorRefs (opt_default (pk_parameters composed) [])) (pk_gates composed))
            (Inr (expanded_of (pk_id pack) composed)))))"

definition INTEGRITY_CEILING_FLOOR_PACK_ID :: string where
  "INTEGRITY_CEILING_FLOOR_PACK_ID = ''aiwg:decision-engine/integrity-ceiling''"

definition expandFloorPacks ::
    "gate_documents \<Rightarrow> nat \<Rightarrow> project_floors \<Rightarrow> pack_lookup \<Rightarrow> provider_registry
     \<Rightarrow> gate_error + expanded_floor list" where
  "expandFloorPacks env fuel floors lookupAuthored providers =
     bindR (mapR (expandFloorSource env fuel lookupAuthored providers) (pf_floors floors)) (\<lambda>expanded.
     bindR (lookupAuthored INTEGRITY_CEILING_FLOOR_PACK_ID) (\<lambda>defaultAuthored.
     bindR (composeGatePack env fuel defaultAuthored lookupAuthored) (\<lambda>defaultComposed.
     thenR (validateResolvedPack defaultComposed providers)
       (case find (\<lambda>g. gd_id g = ''integrity-ceiling'') (pk_gates defaultComposed) of
          None \<Rightarrow> Inl (GateRegistryError ''default-floor-gate-missing'' INTEGRITY_CEILING_FLOOR_PACK_ID)
        | Some defaultGate \<Rightarrow>
            if \<not> (\<exists>fl \<in> set expanded. governsDefaultCeiling fl defaultGate)
            then Inr (expanded @ [expanded_of (pk_id defaultAuthored) defaultComposed])
            else Inr expanded))))"

section \<open>Ceilings\<close>

definition projectCeilingSatisfied :: "gate_outcome option \<Rightarrow> gate_outcome option \<Rightarrow> bool" where
  "projectCeilingSatisfied declared configured =
     (case configured of
        None \<Rightarrow> True
      | Some c \<Rightarrow> GATE_RANK (opt_default declared PROMOTE) \<ge> GATE_RANK c)"

text \<open>A ceiling entry is \<open>None\<close> when it is not one of the three outcome strings.\<close>

definition assertCeilingDefaults :: "gate_outcome option dict \<Rightarrow> gate_error + unit" where
  "assertCeilingDefaults ceilings =
     (let star = Option.bind (map_of ceilings ''*'') (\<lambda>x. x) in
      forEach (\<lambda>(study, ceiling).
        case ceiling of
          None \<Rightarrow> Inl (GateRegistryError ''ceiling-outcome'' study)
        | Some c \<Rightarrow>
            if study = ''*'' then Inr ()
            else (case star of
                None \<Rightarrow> Inl (GateRegistryError ''ceiling-star-missing'' study)
              | Some s \<Rightarrow>
                  if GATE_RANK c < GATE_RANK s then Inl (GateRegistryError ''ceiling-loosens'' study)
                  else Inr ())) ceilings)"

section \<open>Enforcing the floors\<close>

record resolved_pack =
  rp_authored :: gate_pack
  rp_digest :: string
  rp_resolvedDigest :: string
  rp_resolved :: gate_pack

definition materialize ::
    "string \<Rightarrow> jsnum dict \<Rightarrow> string \<Rightarrow> string \<Rightarrow> gate_error + jsnum" where
  "materialize packId parameters gateId param =
     (case map_of parameters (qualifyGateParameter packId param) of
        None \<Rightarrow> Inl (GateRegistryError ''binding-value-missing'' gateId)
      | Some v \<Rightarrow> Inr v)"

definition materialize_ref ::
    "string \<Rightarrow> jsnum dict \<Rightarrow> string \<Rightarrow> num_ref option \<Rightarrow> gate_error + num_ref option" where
  "materialize_ref packId parameters gateId value =
     (case value of
        Some (ParamRef p) \<Rightarrow> bindR (materialize packId parameters gateId p) (\<lambda>v. Inr (Some (Literal v)))
      | _ \<Rightarrow> Inr value)"

definition materialize_threshold ::
    "string \<Rightarrow> jsnum dict \<Rightarrow> string \<Rightarrow> gate_threshold option \<Rightarrow> gate_error + gate_threshold option" where
  "materialize_threshold packId parameters gateId threshold =
     (case threshold of
        None \<Rightarrow> Inr None
      | Some th \<Rightarrow>
          (case th_param th of
             None \<Rightarrow> Inr (Some th)
           | Some p \<Rightarrow> bindR (materialize packId parameters gateId p)
               (\<lambda>v. Inr (Some \<lparr>th_op = th_op th, th_value = Some v, th_param = None\<rparr>))))"

definition materialize_statistic ::
    "string \<Rightarrow> jsnum dict \<Rightarrow> string \<Rightarrow> gate_statistic option \<Rightarrow> gate_error + gate_statistic option" where
  "materialize_statistic packId parameters gateId statistic =
     (case statistic of
        None \<Rightarrow> Inr None
      | Some st \<Rightarrow>
          bindR (materialize_ref packId parameters gateId (st_levelBps st)) (\<lambda>level.
          bindR (materialize_ref packId parameters gateId (st_marginBps st)) (\<lambda>margin.
          Inr (Some (st\<lparr>st_levelBps := level, st_marginBps := margin\<rparr>)))))"

definition synthesizeFloorCandidate ::
    "gate_definition \<Rightarrow> string \<Rightarrow> jsnum dict \<Rightarrow> gate_error + gate_definition" where
  "synthesizeFloorCandidate gate packId parameters =
     bindR (materialize_threshold packId parameters (gd_id gate) (gd_threshold gate)) (\<lambda>th.
     bindR (materialize_ref packId parameters (gd_id gate) (gd_minimumN gate)) (\<lambda>m.
     bindR (materialize_statistic packId parameters (gd_id gate) (gd_statistic gate)) (\<lambda>st.
     Inr (gate\<lparr>gd_threshold := th, gd_minimumN := m, gd_statistic := st\<rparr>))))"

definition union_gates :: "resolved_pack list \<Rightarrow> (gate_definition \<times> string) list" where
  "union_gates packs =
     concat (map (\<lambda>p. map (\<lambda>g. (g, pk_id (rp_authored p))) (pk_gates (rp_resolved p))) packs)"

definition enforceFloorGate ::
    "(gate_definition \<times> string) list \<Rightarrow> jsnum dict \<Rightarrow> expanded_floor \<Rightarrow> gate_definition \<Rightarrow> gate_error + unit" where
  "enforceFloorGate gates parameters fl floorGate =
     (let matches = filter (\<lambda>(g, p). gd_id g = gd_id floorGate) gates
      in if matches = [] then Inl (GateRegistryError ''floor-gate-omitted'' (gd_id floorGate))
         else forEach (\<lambda>(g, p).
           mapErr (\<lambda>_. GateRegistryError ''floor-gate-loosened'' (gd_id floorGate))
             (bindR (synthesizeFloorCandidate g p parameters) (\<lambda>candidate.
                assertGateTightens floorGate candidate (ef_params fl)))) matches)"

definition enforceProjectFloors ::
    "gate_binding \<Rightarrow> resolved_pack list \<Rightarrow> jsnum dict \<Rightarrow> expanded_floor list \<Rightarrow> gate_outcome dict
     \<Rightarrow> gate_error + unit" where
  "enforceProjectFloors binding packs parameters expanded ceilings =
     thenR (assertCeilingDefaults (map (\<lambda>(k, c). (k, Some c)) ceilings))
     (let configured = (case map_of ceilings (gb_id binding) of
                          Some c \<Rightarrow> Some c | None \<Rightarrow> map_of ceilings ''*'')
      in if \<not> projectCeilingSatisfied (gb_ceiling binding) configured
         then Inl (GateRegistryError ''binding-ceiling-below'' (gb_id binding))
         else forEach (\<lambda>fl. forEach (enforceFloorGate (union_gates packs) parameters fl) (ef_gates fl))
                expanded)"

end
