(* ===== verification/GateSoundness.thy ===== *)
theory GateSoundness
  imports GateComposition
begin

text \<open>
  What the tightening check is for: a gate that tightens another passes only observations that
  the other passes too. The lemmas characterise when each kind of gate passes; the theorem
  compares a gate without references (a materialized floor candidate) with a floor gate under
  its default parameters. The last section shows where the load checks do not give that
  guarantee.
\<close>

section \<open>When a gate passes\<close>

definition gate_passes ::
    "gate_runtime \<Rightarrow> gate_definition \<Rightarrow> metric_observation option \<Rightarrow> observation_context \<Rightarrow> bool" where
  "gate_passes rt gate obs ctx =
     (case evaluateObservation rt gate obs ctx of
        Inl e \<Rightarrow> False | Inr e \<Rightarrow> se_status e = PassStatus)"

definition resolved_minimum :: "gate_definition \<Rightarrow> observation_context \<Rightarrow> jsnum option" where
  "resolved_minimum gate ctx =
     (if gd_minimumN gate = None then Some (Fin 0)
      else resolveGateNumber (gd_minimumN gate) (oc_packId ctx) (oc_parameters ctx))"

definition ctx_threshold :: "gate_definition \<Rightarrow> observation_context \<Rightarrow> jsnum option" where
  "ctx_threshold gate ctx = thresholdValue gate (oc_packId ctx) (oc_parameters ctx)"

definition ctx_level :: "gate_definition \<Rightarrow> observation_context \<Rightarrow> jsnum option" where
  "ctx_level gate ctx = resolveGateNumber (gate_level gate) (oc_packId ctx) (oc_parameters ctx)"

definition ctx_margin :: "gate_definition \<Rightarrow> observation_context \<Rightarrow> jsnum option" where
  "ctx_margin gate ctx =
     resolveGateNumber (Some (opt_default (gate_margin gate) (Literal (Fin 0)))) (oc_packId ctx) (oc_parameters ctx)"

lemma status_mk [simp]: "se_status (mk_evaluation s n st r) = st"
  by (simp add: mk_evaluation_def)

lemma pass_fail_Pass [simp]: "pass_fail b = PassStatus \<longleftrightarrow> b"
  by (simp add: pass_fail_def)

definition counts_ok :: "metric_observation \<Rightarrow> jsnum \<Rightarrow> jsnum \<Rightarrow> bool" where
  "counts_ok ob n e \<longleftrightarrow> ob_events ob = Some e \<and> is_count e \<and> \<not> num_lt n e"

definition interval_passes ::
    "gate_runtime \<Rightarrow> gate_definition \<Rightarrow> metric_observation \<Rightarrow> jsnum \<Rightarrow> jsnum \<Rightarrow> jsnum \<Rightarrow> bool" where
  "interval_passes rt gate ob n level target \<longleftrightarrow>
     (\<exists>e lower upper. counts_ok ob n e
        \<and> (if opt_default (Option.bind (gd_statistic gate) st_method) Wilson = ClopperPearson
           then clopperPearsonInterval rt else wilsonScoreInterval rt) e n level = Some (lower, upper)
        \<and> (if gate_bound gate = Some Upper
           then num_le (js_min (Fin 10000) (js_ceil (js_mul upper (Fin 10000)))) target
           else num_le target (js_max (Fin 0) (js_floor (js_mul lower (Fin 10000))))))"

lemma intervalBound_pass:
  "se_status (intervalBound rt gate ob ctx n) = PassStatus \<longleftrightarrow>
     (\<exists>level target. ctx_level gate ctx = Some level \<and> ctx_threshold gate ctx = Some target
        \<and> interval_passes rt gate ob n level target)"
  by (simp add: intervalBound_def Let_def interval_passes_def counts_ok_def ctx_level_def
      ctx_threshold_def split: option.splits)

lemma exactCount_pass:
  "se_status (exactCount gate ob ctx n) = PassStatus \<longleftrightarrow>
     (\<exists>e target. counts_ok ob n e \<and> ctx_threshold gate ctx = Some target
        \<and> (if gd_kind gate = CountMax then num_le e target else num_le target e))"
  by (simp add: exactCount_def Let_def counts_ok_def ctx_threshold_def split: option.splits)

lemma exactValue_pass:
  "se_status (exactValue gate ob ctx n) = PassStatus \<longleftrightarrow>
     (\<exists>v target. ob_value ob = Some v \<and> is_finite v \<and> ctx_threshold gate ctx = Some target
        \<and> (if map_option th_op (gd_threshold gate) = Some Lte then num_le v target else num_le target v))"
  by (auto simp: exactValue_def Let_def ctx_threshold_def split: option.splits if_splits)

definition paired_passes ::
    "gate_runtime \<Rightarrow> gate_definition \<Rightarrow> metric_observation \<Rightarrow> jsnum \<Rightarrow> jsnum \<Rightarrow> jsnum \<Rightarrow> bool" where
  "paired_passes rt gate ob n level margin \<longleftrightarrow>
     (\<exists>q interval. pairedCells (Some ob) = Some q \<and> num_eq n (cell_sum q)
        \<and> pairedBinaryDifferenceInterval rt q level
            (opt_default (Option.bind (gd_statistic gate) st_method) Newcombe = Tango) = Some interval
        \<and> (if gate_mode gate = NonInferiority
           then pairedNonInferiority interval margin = Some NonInferior
           else num_lt margin (di_lowerBps interval)))"

lemma pairedDifference_pass:
  "(case pairedDifference rt gate ob ctx n of Inl e \<Rightarrow> False | Inr e \<Rightarrow> se_status e = PassStatus) \<longleftrightarrow>
     (\<exists>level margin. ctx_level gate ctx = Some level \<and> ctx_margin gate ctx = Some margin
        \<and> paired_passes rt gate ob n level margin)"
  by (auto simp: pairedDifference_def Let_def paired_passes_def ctx_level_def ctx_margin_def
      split: option.splits non_inferiority.splits)

definition bootstrap_passes ::
    "gate_runtime \<Rightarrow> gate_definition \<Rightarrow> metric_observation \<Rightarrow> jsnum \<Rightarrow> jsnum \<Rightarrow> jsnum \<Rightarrow> bool" where
  "bootstrap_passes rt gate ob n level target \<longleftrightarrow>
     (\<exists>ds interval. ob_differences ob = Some ds \<and> num_eq (num_of_int (int (length ds))) n
        \<and> pairedMeanDifferenceBootstrap rt ds level (Option.bind (gd_statistic gate) st_seed)
            (Option.bind (gd_statistic gate) st_resamples) (Option.bind (gd_statistic gate) st_bounds)
          = Some interval
        \<and> (if gate_bound gate = Some Upper then num_le (di_upperBps interval) target
           else num_le target (di_lowerBps interval)))"

lemma bootstrapBound_pass:
  "se_status (bootstrapBound rt gate ob ctx n) = PassStatus \<longleftrightarrow>
     (\<exists>level target. ctx_level gate ctx = Some level \<and> ctx_threshold gate ctx = Some target
        \<and> bootstrap_passes rt gate ob n level target)"
  by (simp add: bootstrapBound_def Let_def bootstrap_passes_def ctx_level_def ctx_threshold_def
      split: option.splits)

lemma evidenceVerdict_pass:
  "fst (evidenceVerdict rt now av ids) = PassStatus \<longleftrightarrow>
     (\<forall>i \<in> set ids. \<exists>entry. find (\<lambda>c. av_id c = i) av = Some entry \<and> av_passed entry
        \<and> \<not> opt_holds (\<lambda>e. \<not> is_finite (date_parse rt e) \<or> num_le (date_parse rt e) now) (av_expiresAt entry))"
  by (induction ids) (auto split: option.splits)

lemma evidencePresent_pass:
  "se_status (evidencePresent rt gate obs ctx) = PassStatus \<longleftrightarrow>
     (\<exists>av. Option.bind obs ob_available = Some av
        \<and> fst (evidenceVerdict rt (oc_nowMs ctx) av (opt_default (gd_evidence gate) [])) = PassStatus)"
  by (auto simp: evidencePresent_def Let_def split: option.splits prod.splits)

text \<open>The kinds that count support share their guards.\<close>

definition kind_passes ::
    "gate_runtime \<Rightarrow> gate_definition \<Rightarrow> metric_observation \<Rightarrow> observation_context \<Rightarrow> jsnum \<Rightarrow> bool" where
  "kind_passes rt gate ob ctx n =
     (case gd_kind gate of
        MinimumN \<Rightarrow> gd_minimumN gate \<noteq> None \<and> opt_holds (\<lambda>m. num_le m n) (resolved_minimum gate ctx)
      | IntervalBound \<Rightarrow> se_status (intervalBound rt gate ob ctx n) = PassStatus
      | PairedDifference \<Rightarrow>
          (case pairedDifference rt gate ob ctx n of Inl e \<Rightarrow> False | Inr e \<Rightarrow> se_status e = PassStatus)
      | BootstrapBound \<Rightarrow> se_status (bootstrapBound rt gate ob ctx n) = PassStatus
      | ValueThreshold \<Rightarrow> se_status (exactValue gate ob ctx n) = PassStatus
      | _ \<Rightarrow> se_status (exactCount gate ob ctx n) = PassStatus)"

lemma gate_passes_counted:
  assumes "counted_kind (gd_kind gate)"
  shows "gate_passes rt gate obs ctx \<longleftrightarrow>
     (\<exists>ob n m. obs = Some ob \<and> supportOf obs = Some n \<and> resolved_minimum gate ctx = Some m
        \<and> \<not> num_lt n m \<and> kind_passes rt gate ob ctx n)"
  using assms
  by (cases "gd_kind gate")
    (auto simp: gate_passes_def evaluateObservation_def counted_kind_def kind_passes_def Let_def
      resolved_minimum_def split: option.splits if_splits)

lemma gate_passes_evidence:
  "gd_kind gate = Evidence \<Longrightarrow>
     gate_passes rt gate obs ctx \<longleftrightarrow> se_status (evidencePresent rt gate obs ctx) = PassStatus"
  by (simp add: gate_passes_def evaluateObservation_def Let_def)

lemma gate_passes_predicate:
  "gd_kind gate = PredicateGate \<Longrightarrow>
     gate_passes rt gate obs ctx \<longleftrightarrow> se_status (predicateGate gate obs ctx) = PassStatus"
  by (simp add: gate_passes_def evaluateObservation_def Let_def)

lemma gate_passes_upstream:
  "gd_kind gate = UpstreamCeilingGate \<Longrightarrow>
     gate_passes rt gate obs ctx \<longleftrightarrow> se_status (upstreamGate gate obs ctx) = PassStatus"
  by (simp add: gate_passes_def evaluateObservation_def Let_def)

section \<open>Parameters at their defaults\<close>

text \<open>The binding in which every parameter of a pack has its default, the minimum a floor enforces.\<close>

definition default_parameters :: "string \<Rightarrow> gate_parameter dict \<Rightarrow> jsnum dict" where
  "default_parameters packId params =
     map (\<lambda>(name, d). (qualifyGateParameter packId name, d))
       (List.map_filter (\<lambda>(name, p). map_option (Pair name) (gp_default p)) params)"

lemma qualify_inject: "qualifyGateParameter packId a = qualifyGateParameter packId b \<longleftrightarrow> a = b"
  by (simp add: qualifyGateParameter_def)

lemma map_of_default_parameters:
  "distinct (map fst params) \<Longrightarrow>
     map_of (default_parameters packId params) (qualifyGateParameter packId name)
     = Option.bind (map_of params name) gp_default"
proof (induction params)
  case Nil
  then show ?case by (simp add: default_parameters_def List.map_filter_def)
next
  case (Cons e params)
  obtain n p where e: "e = (n, p)" by (cases e) auto
  have fresh: "map_of params n = None" using Cons.prems e by (simp add: map_of_eq_None_iff)
  have step: "map_of (default_parameters packId ((n, p) # params)) (qualifyGateParameter packId name)
      = (if n = name \<and> gp_default p \<noteq> None then gp_default p
         else map_of (default_parameters packId params) (qualifyGateParameter packId name))"
    by (cases "gp_default p")
      (auto simp: default_parameters_def List.map_filter_def qualify_inject)
  show ?case using Cons fresh by (auto simp: e step split: option.splits)
qed

text \<open>A gate whose numbers are all literals.\<close>

definition literal_gate :: "gate_definition \<Rightarrow> bool" where
  "literal_gate gate \<longleftrightarrow> gate_refs gate = []"

lemma literal_gateD:
  assumes "literal_gate gate"
  shows "Option.bind (gd_threshold gate) th_param = None" and "\<not> is_param_ref (gd_minimumN gate)"
    and "\<not> is_param_ref (gate_level gate)" and "\<not> is_param_ref (gate_margin gate)"
  using assms
  by (auto simp: literal_gate_def gate_refs_def ref_name_def is_param_ref_def
      split: option.splits num_ref.splits)

lemma literal_threshold:
  assumes "literal_gate gate"
  shows "ctx_threshold gate ctx = resolveThresholdDefault gate params"
  using literal_gateD(1) [OF assms]
  by (cases "gd_threshold gate")
    (auto simp: ctx_threshold_def thresholdValue_def resolveThresholdDefault_def split: option.splits)

lemma literal_number:
  "\<not> is_param_ref value \<Longrightarrow> resolveGateNumber value packId ps = resolveNumberDefault value params t"
  by (auto simp: is_param_ref_def resolveGateNumber_def resolveNumberDefault_def
      split: option.splits num_ref.splits)

lemma default_threshold:
  assumes "distinct (map fst params)" and "oc_parameters ctx = default_parameters (oc_packId ctx) params"
  shows "ctx_threshold gate ctx = resolveThresholdDefault gate params"
  by (cases "gd_threshold gate")
    (auto simp: ctx_threshold_def thresholdValue_def resolveThresholdDefault_def assms
      map_of_default_parameters split: option.splits)

lemma default_number:
  assumes "distinct (map fst params)"
    and "resolveNumberDefault value params t = Some v"
  shows "resolveGateNumber value packId (default_parameters packId params) = Some v"
  using assms
  by (auto simp: resolveGateNumber_def resolveNumberDefault_def map_of_default_parameters
      split: option.splits num_ref.splits if_splits)

section \<open>Coherent gates\<close>

text \<open>The declared direction is the direction in which the gate's test gets harder.\<close>

definition direction_coherent :: "gate_definition \<Rightarrow> bool" where
  "direction_coherent gate \<longleftrightarrow>
     (case gd_kind gate of
        CountMax \<Rightarrow> gd_direction gate = LowerIsStricter
      | CountMin \<Rightarrow> gd_direction gate = HigherIsStricter
      | ValueThreshold \<Rightarrow>
          (map_option th_op (gd_threshold gate) = Some Lte) = (gd_direction gate = LowerIsStricter)
      | IntervalBound \<Rightarrow> (gate_bound gate = Some Upper) = (gd_direction gate = LowerIsStricter)
      | BootstrapBound \<Rightarrow> (gate_bound gate = Some Upper) = (gd_direction gate = LowerIsStricter)
      | _ \<Rightarrow> True)"

text \<open>No number a gate resolves to is NaN.\<close>

definition numbers_defined :: "gate_definition \<Rightarrow> gate_parameter dict \<Rightarrow> bool" where
  "numbers_defined gate params \<longleftrightarrow>
     resolveThresholdDefault gate params \<noteq> Some NaN
     \<and> resolveNumberDefault (gd_minimumN gate) params CountParam \<noteq> Some NaN
     \<and> resolveNumberDefault (gate_margin gate) params ValueParam \<noteq> Some NaN"

text \<open>A paired gate's margin is in range, as pack validation and binding resolution check.\<close>

definition margin_valid :: "gate_definition \<Rightarrow> gate_parameter dict \<Rightarrow> bool" where
  "margin_valid gate params \<longleftrightarrow>
     gd_kind gate \<noteq> PairedDifference
     \<or> (case resolveNumberDefault (Some (opt_default (gate_margin gate) (Literal (Fin 0)))) params ValueParam of
          None \<Rightarrow> False
        | Some m \<Rightarrow> checkPairedMargin (gd_id gate) (gate_mode gate) m = Inr ())"

lemma not_num_lt: "a \<noteq> NaN \<Longrightarrow> b \<noteq> NaN \<Longrightarrow> \<not> num_lt a b \<longleftrightarrow> num_le b a"
  by (cases a; cases b) (auto simp: num_le_def)

lemma num_le_not_NaN: "num_le a b \<Longrightarrow> a \<noteq> NaN \<and> b \<noteq> NaN"
  by (cases a; cases b) (auto simp: num_le_def)

lemma num_lt_le_trans: "num_le a b \<Longrightarrow> num_lt b c \<Longrightarrow> num_lt a c"
  by (cases a; cases b; cases c) (auto simp: num_le_def)

lemma num_lt_le_trans2: "num_lt a b \<Longrightarrow> num_le b c \<Longrightarrow> num_lt a c"
  by (cases a; cases b; cases c) (auto simp: num_le_def)

definition stricter :: "gate_definition \<Rightarrow> jsnum \<Rightarrow> jsnum \<Rightarrow> bool" where
  "stricter gate a b \<longleftrightarrow> (if gd_direction gate = LowerIsStricter then num_le a b else num_le b a)"

text \<open>The threshold of a tighter gate without references.\<close>

lemma tightened_threshold:
  assumes T: "assertGateTightens parent child params = Inr ()" and "literal_gate child"
    and "distinct (map fst params)" and "oc_parameters ctxP = default_parameters (oc_packId ctxP) params"
    and "numbers_defined parent params" and "numbers_defined child params"
    and a: "ctx_threshold child ctxC = Some a"
  shows "\<exists>b. ctx_threshold parent ctxP = Some b \<and> stricter parent a b"
proof -
  have ra: "resolveThresholdDefault child params = Some a" using a literal_threshold [OF assms(2), where ctx = ctxC and params = params] by simp
  have "resolveThresholdDefault parent params \<noteq> None"
  proof
    assume none: "resolveThresholdDefault parent params = None"
    then have "gd_threshold parent = gd_threshold child"
      using checkThreshold_unresolved [OF assertGateTightens_parts(3) [OF T]] by blast
    with none ra show False by (simp add: resolveThresholdDefault_def)
  qed
  then obtain b where rb: "resolveThresholdDefault parent params = Some b" by auto
  have "if gd_direction child = LowerIsStricter then \<not> num_lt b a else \<not> num_lt a b"
    by (rule checkThreshold_resolved [OF assertGateTightens_parts(3) [OF T] rb ra])
  moreover have "a \<noteq> NaN" "b \<noteq> NaN" using assms(5,6) ra rb by (auto simp: numbers_defined_def)
  ultimately have "stricter parent a b"
    using assertGateTightens_basic(3) [OF T] by (auto simp: stricter_def not_num_lt split: if_splits)
  then show ?thesis using rb default_threshold [OF assms(3,4)] by auto
qed

lemma tightened_minimum:
  assumes T: "assertGateTightens parent child params = Inr ()" and "literal_gate child"
    and "distinct (map fst params)" and "oc_parameters ctxP = default_parameters (oc_packId ctxP) params"
    and "numbers_defined parent params" and "numbers_defined child params"
    and a: "resolved_minimum child ctxC = Some a"
  shows "\<exists>b. resolved_minimum parent ctxP = Some b \<and> num_le b a"
proof -
  let ?r = "\<lambda>g. if gd_minimumN g = None then Some (Fin 0) else resolveNumberDefault (gd_minimumN g) params CountParam"
  have ra: "?r child = Some a"
    using a literal_number [OF literal_gateD(2) [OF assms(2)], where params = params and t = CountParam
        and packId = "oc_packId ctxC" and ps = "oc_parameters ctxC"]
    by (auto simp: resolved_minimum_def split: if_splits)
  have "?r parent \<noteq> None"
    using checkMinimum_resolved [OF assertGateTightens_parts(4) [OF T]] ra by (auto split: option.splits if_splits)
  then obtain b where rb: "?r parent = Some b" by (auto split: if_splits)
  have "\<not> num_lt a b"
    using checkMinimum_resolved [OF assertGateTightens_parts(4) [OF T]] by (simp only: ra rb) simp
  moreover have "a \<noteq> NaN" "b \<noteq> NaN" using assms(5,6) ra rb by (auto simp: numbers_defined_def split: if_splits)
  ultimately have "num_le b a" by (simp add: not_num_lt)
  moreover have "resolved_minimum parent ctxP = Some b"
    using rb default_number [OF assms(3)] assms(4) by (auto simp: resolved_minimum_def split: if_splits)
  ultimately show ?thesis by blast
qed

lemma checkMargin_resolved:
  assumes "checkMargin parent child params = Inr ()"
    and "resolveNumberDefault (Some (opt_default (gate_margin parent) (Literal (Fin 0)))) params ValueParam = Some b"
    and "resolveNumberDefault (Some (opt_default (gate_margin child) (Literal (Fin 0)))) params ValueParam = Some a"
  shows "\<not> num_lt a b"
  using assms by (auto simp: checkMargin_def Let_def split: if_splits)

lemma tightened_margin:
  assumes T: "assertGateTightens parent child params = Inr ()" and "literal_gate child"
    and "distinct (map fst params)" and "oc_parameters ctxP = default_parameters (oc_packId ctxP) params"
    and "gd_kind parent = PairedDifference" and "margin_valid parent params"
    and a: "ctx_margin child ctxC = Some a" and "a \<noteq> NaN"
  shows "\<exists>b. ctx_margin parent ctxP = Some b \<and> num_le b a
    \<and> checkPairedMargin (gd_id parent) (gate_mode parent) b = Inr ()"
proof -
  have lit: "\<not> is_param_ref (Some (opt_default (gate_margin child) (Literal (Fin 0))))"
    using literal_gateD(4) [OF assms(2)] by (cases "gate_margin child") (auto simp: is_param_ref_def)
  have ra: "resolveNumberDefault (Some (opt_default (gate_margin child) (Literal (Fin 0)))) params ValueParam = Some a"
    using a literal_number [OF lit, where params = params and t = ValueParam
        and packId = "oc_packId ctxC" and ps = "oc_parameters ctxC"] by (simp add: ctx_margin_def)
  obtain b where rb: "resolveNumberDefault (Some (opt_default (gate_margin parent) (Literal (Fin 0)))) params ValueParam = Some b"
    and cb: "checkPairedMargin (gd_id parent) (gate_mode parent) b = Inr ()"
    using assms(5,6) by (auto simp: margin_valid_def split: option.splits)
  have "b \<noteq> NaN" using cb by (auto simp: checkPairedMargin_def)
  moreover have "\<not> num_lt a b"
    by (rule checkMargin_resolved [OF assertGateTightens_parts(2) [OF T] rb ra])
  ultimately have "num_le b a" using assms(8) by (simp add: not_num_lt)
  moreover have "ctx_margin parent ctxP = Some b"
    using default_number [OF assms(3) rb] assms(4) by (simp add: ctx_margin_def)
  ultimately show ?thesis using cb by blast
qed

section \<open>Tightening is sound\<close>

lemma statistic_shape_fields:
  assumes "statistic_shape child = statistic_shape parent"
  shows "Option.bind (gd_statistic child) st_method = Option.bind (gd_statistic parent) st_method"
    and "gate_bound child = gate_bound parent"
    and "Option.bind (gd_statistic child) st_seed = Option.bind (gd_statistic parent) st_seed"
    and "Option.bind (gd_statistic child) st_resamples = Option.bind (gd_statistic parent) st_resamples"
    and "Option.bind (gd_statistic child) st_bounds = Option.bind (gd_statistic parent) st_bounds"
proof -
  have get: "Option.bind (gd_statistic child) f = Option.bind (gd_statistic parent) f"
    if "\<And>s l m. f (s\<lparr>st_levelBps := l, st_marginBps := m\<rparr>) = f s" for f :: "gate_statistic \<Rightarrow> 'a option"
  proof -
    have "Option.bind (gd_statistic g) f = Option.bind (statistic_shape g) f" for g
      by (cases "gd_statistic g") (simp_all add: statistic_shape_def that)
    then show ?thesis using assms by simp
  qed
  show "Option.bind (gd_statistic child) st_method = Option.bind (gd_statistic parent) st_method"
    "Option.bind (gd_statistic child) st_seed = Option.bind (gd_statistic parent) st_seed"
    "Option.bind (gd_statistic child) st_resamples = Option.bind (gd_statistic parent) st_resamples"
    "Option.bind (gd_statistic child) st_bounds = Option.bind (gd_statistic parent) st_bounds"
    by (rule get; simp)+
  have "gate_bound g = Option.bind (gd_statistic g) st_bound" for g
    by (cases "gd_statistic g") (simp_all add: gate_bound_def)
  then show "gate_bound child = gate_bound parent" using get [of st_bound] by simp
qed

lemma non_inferior_mono:
  assumes "pairedNonInferiority interval a = Some NonInferior" and "num_le b a"
    and "checkPairedMargin g NonInferiority b = Inr ()"
  shows "pairedNonInferiority interval b = Some NonInferior"
proof -
  have "num_le a (di_lowerBps interval)"
    using assms(1) by (auto simp: pairedNonInferiority_def split: if_splits)
  then have "num_le b (di_lowerBps interval)" by (rule num_le_trans [OF assms(2)])
  then show ?thesis
    using assms(1,3) by (auto simp: pairedNonInferiority_def checkPairedMargin_def split: if_splits)
qed

text \<open>The two evaluations see the same upstream report and clock.\<close>

definition same_evidence :: "observation_context \<Rightarrow> observation_context \<Rightarrow> bool" where
  "same_evidence a b \<longleftrightarrow>
     oc_upstream a = oc_upstream b \<and> oc_nowMs a = oc_nowMs b"

text \<open>A floor gate that the load checks accepted, with coherent direction.\<close>

definition sound_floor :: "gate_definition \<Rightarrow> gate_parameter dict \<Rightarrow> bool" where
  "sound_floor gate params \<longleftrightarrow>
     distinct (map fst params) \<and> direction_coherent gate \<and> numbers_defined gate params
     \<and> margin_valid gate params"

lemma tightened_kind_passes:
  assumes T: "assertGateTightens parent child params = Inr ()" and lit: "literal_gate child"
    and floor: "sound_floor parent params" and "direction_coherent child" and "numbers_defined child params"
    and P: "oc_parameters ctxP = default_parameters (oc_packId ctxP) params"
    and level: "\<not> statistical_kind (gd_kind parent) \<or> ctx_level child ctxC = ctx_level parent ctxP"
    and "counted_kind (gd_kind parent)" and minimum: "gd_kind parent = MinimumN \<longrightarrow> gd_minimumN parent \<noteq> None"
    and pass: "kind_passes rt child ob ctxC n"
  shows "kind_passes rt parent ob ctxP n"
proof -
  note kind = assertGateTightens_basic(1) [OF T]
  note shape = statistic_shape_fields [OF assertGateTightens_basic(4) [OF T]]
  have d: "distinct (map fst params)" and np: "numbers_defined parent params"
    using floor by (simp_all add: sound_floor_def)
  note threshold = tightened_threshold [OF T lit d P np assms(5)]
  have coherent: "direction_coherent parent" using floor by (simp add: sound_floor_def)
  show ?thesis
  proof (cases "gd_kind parent")
    case IntervalBound
    then obtain l a where l: "ctx_level child ctxC = Some l" and a: "ctx_threshold child ctxC = Some a"
      and i: "interval_passes rt child ob n l a"
      using pass kind by (auto simp: kind_passes_def intervalBound_pass)
    obtain b where b: "ctx_threshold parent ctxP = Some b" "stricter parent a b" using threshold [OF a] by blast
    have "interval_passes rt parent ob n l b"
      using i b(2) coherent IntervalBound num_le_trans [of _ a b] num_le_trans [of b a]
      by (auto simp: interval_passes_def stricter_def direction_coherent_def shape split: if_splits)
    moreover have "ctx_level parent ctxP = Some l" using l level IntervalBound by (simp add: statistical_kind_def)
    ultimately show ?thesis using IntervalBound b(1) by (auto simp: kind_passes_def intervalBound_pass)
  next
    case PairedDifference
    then obtain l a where l: "ctx_level child ctxC = Some l" and a: "ctx_margin child ctxC = Some a"
      and i: "paired_passes rt child ob n l a"
      using pass kind by (auto simp: kind_passes_def pairedDifference_pass)
    have "a \<noteq> NaN"
      using i by (auto simp: paired_passes_def pairedNonInferiority_def split: if_splits)
    then obtain b where b: "ctx_margin parent ctxP = Some b" "num_le b a"
      "checkPairedMargin (gd_id parent) (gate_mode parent) b = Inr ()"
      using tightened_margin [OF T lit d P PairedDifference _ a] floor by (auto simp: sound_floor_def)
    have mode: "gate_mode child = gate_mode parent" by (rule assertGateTightens_basic(5) [OF T])
    have "paired_passes rt parent ob n l b"
      using i b non_inferior_mono [of _ a b "gd_id parent"] num_lt_le_trans [of b a]
      by (auto simp: paired_passes_def mode shape split: if_splits)
    moreover have "ctx_level parent ctxP = Some l" using l level PairedDifference by (simp add: statistical_kind_def)
    ultimately show ?thesis using PairedDifference b(1) by (auto simp: kind_passes_def pairedDifference_pass)
  next
    case BootstrapBound
    then obtain l a where l: "ctx_level child ctxC = Some l" and a: "ctx_threshold child ctxC = Some a"
      and i: "bootstrap_passes rt child ob n l a"
      using pass kind by (auto simp: kind_passes_def bootstrapBound_pass)
    obtain b where b: "ctx_threshold parent ctxP = Some b" "stricter parent a b" using threshold [OF a] by blast
    have "bootstrap_passes rt parent ob n l b"
      using i b(2) coherent BootstrapBound num_le_trans [of _ a b] num_le_trans [of b a]
      by (auto simp: bootstrap_passes_def stricter_def direction_coherent_def shape split: if_splits)
    moreover have "ctx_level parent ctxP = Some l" using l level BootstrapBound by (simp add: statistical_kind_def)
    ultimately show ?thesis using BootstrapBound b(1) by (auto simp: kind_passes_def bootstrapBound_pass)
  next
    case MinimumN
    then obtain a where a: "resolved_minimum child ctxC = Some a" "num_le a n"
      using pass kind by (auto simp: kind_passes_def opt_holds_iff)
    obtain b where b: "resolved_minimum parent ctxP = Some b" "num_le b a"
      using tightened_minimum [OF T lit d P np assms(5) a(1)] by blast
    show ?thesis
      using MinimumN a(2) b num_le_trans [of b a n] minimum by (auto simp: kind_passes_def opt_holds_iff)
  next
    case ValueThreshold
    then obtain v a where v: "ob_value ob = Some v" "is_finite v" and a: "ctx_threshold child ctxC = Some a"
      and i: "if map_option th_op (gd_threshold child) = Some Lte then num_le v a else num_le a v"
      using pass kind by (auto simp: kind_passes_def exactValue_pass)
    obtain b where b: "ctx_threshold parent ctxP = Some b" "stricter parent a b" using threshold [OF a] by blast
    have "(map_option th_op (gd_threshold child) = Some Lte) = (gd_direction parent = LowerIsStricter)"
      "(map_option th_op (gd_threshold parent) = Some Lte) = (gd_direction parent = LowerIsStricter)"
      using assms(4) coherent kind ValueThreshold assertGateTightens_basic(3) [OF T]
      by (simp_all add: direction_coherent_def)
    then have "if map_option th_op (gd_threshold parent) = Some Lte then num_le v b else num_le b v"
      using i b(2) num_le_trans [of v a b] num_le_trans [of b a v] by (auto simp: stricter_def split: if_splits)
    then show ?thesis using ValueThreshold v b(1) by (auto simp: kind_passes_def exactValue_pass)
  next
    case CountMax
    then obtain e a where e: "counts_ok ob n e" and a: "ctx_threshold child ctxC = Some a" and i: "num_le e a"
      using pass kind by (auto simp: kind_passes_def exactCount_pass)
    obtain b where b: "ctx_threshold parent ctxP = Some b" "stricter parent a b" using threshold [OF a] by blast
    have "num_le e b"
      using i b(2) coherent CountMax num_le_trans [of e a b] by (simp add: stricter_def direction_coherent_def)
    then show ?thesis using CountMax e b(1) by (auto simp: kind_passes_def exactCount_pass)
  next
    case CountMin
    then obtain e a where e: "counts_ok ob n e" and a: "ctx_threshold child ctxC = Some a" and i: "num_le a e"
      using pass kind by (auto simp: kind_passes_def exactCount_pass)
    obtain b where b: "ctx_threshold parent ctxP = Some b" "stricter parent a b" using threshold [OF a] by blast
    have "num_le b e"
      using i b(2) coherent CountMin num_le_trans [of b a e] by (simp add: stricter_def direction_coherent_def)
    then show ?thesis using CountMin e b(1) by (auto simp: kind_passes_def exactCount_pass)
  qed (use assms(8) in \<open>auto simp: counted_kind_def\<close>)
qed

lemma tightening_pass:
  assumes T: "assertGateTightens parent child params = Inr ()" and lit: "literal_gate child"
    and floor: "sound_floor parent params" and coh: "direction_coherent child" and nd: "numbers_defined child params"
    and P: "oc_parameters ctxP = default_parameters (oc_packId ctxP) params"
    and level: "\<not> statistical_kind (gd_kind parent) \<or> ctx_level child ctxC = ctx_level parent ctxP"
    and minimum: "gd_kind parent = MinimumN \<longrightarrow> gd_minimumN parent \<noteq> None"
    and same: "same_evidence ctxC ctxP" and observed: "gd_kind parent \<noteq> PredicateGate"
    and pass: "gate_passes rt child obs ctxC"
  shows "gate_passes rt parent obs ctxP"
proof -
  note kind = assertGateTightens_basic(1) [OF T]
  consider "gd_kind parent = Evidence" | "gd_kind parent = UpstreamCeilingGate" | "counted_kind (gd_kind parent)"
    using observed by (auto simp: counted_kind_def)
  then show ?thesis
  proof cases
    case 1
    then show ?thesis
      using pass kind same assertGateTightens_basic(8) [OF T]
      by (auto simp: gate_passes_evidence evidencePresent_pass evidenceVerdict_pass same_evidence_def)
  next
    case 2
    then show ?thesis
      using pass kind same
      by (auto simp: gate_passes_upstream upstreamGate_def same_evidence_def Let_def split: if_splits)
  next
    case 3
    have d: "distinct (map fst params)" and np: "numbers_defined parent params"
      using floor by (simp_all add: sound_floor_def)
    from pass 3 kind obtain ob n m where ob: "obs = Some ob" "supportOf obs = Some n"
      and m: "resolved_minimum child ctxC = Some m" "\<not> num_lt n m" and k: "kind_passes rt child ob ctxC n"
      by (auto simp: gate_passes_counted)
    obtain b where b: "resolved_minimum parent ctxP = Some b" "num_le b m"
      using tightened_minimum [OF T lit d P np nd m(1)] by blast
    have "\<not> num_lt n b"
      using m(2) b(2) num_lt_le [of n b] by (metis num_lt_le_trans2)
    moreover have "kind_passes rt parent ob ctxP n"
      by (rule tightened_kind_passes [OF T lit floor coh nd P level 3 minimum k])
    ultimately show ?thesis using ob b(1) 3 by (auto simp: gate_passes_counted)
  qed
qed

text \<open>A predicate is not tightened: it stays, and reads the document of the evaluation.\<close>

lemma tightening_predicate:
  assumes "assertGateTightens parent child params = Inr ()" and "gd_kind parent = PredicateGate"
  shows "gate_passes rt parent obs ctx = gate_passes rt child obs ctx"
  using assertGateTightens_basic(1,6) [OF assms(1)] assms(2) by (simp add: gate_passes_predicate predicateGate_def)

section \<open>Materialized candidates\<close>

text \<open>A threshold that does not carry a literal and a parameter at once.\<close>

definition unambiguous_threshold :: "gate_definition \<Rightarrow> bool" where
  "unambiguous_threshold gate \<longleftrightarrow>
     \<not> opt_holds (\<lambda>th. th_value th \<noteq> None \<and> th_param th \<noteq> None) (gd_threshold gate)"

lemma materialize_ref_resolves:
  assumes "materialize_ref packId ps g value = Inr w"
  shows "resolveGateNumber w packId ps = resolveGateNumber value packId ps"
    and "\<not> is_param_ref w" and "w = None \<longleftrightarrow> value = None"
    and "resolveGateNumber (Some (opt_default w d)) packId ps = resolveGateNumber (Some (opt_default value d)) packId ps"
  using assms
  by (auto simp: materialize_ref_def materialize_def resolveGateNumber_def is_param_ref_def
      split: option.splits num_ref.splits)

lemma materialize_threshold_resolves:
  assumes "materialize_threshold packId ps g th = Inr w"
  shows "map_option th_op w = map_option th_op th" and "Option.bind w th_param = None"
  using assms by (cases th; auto simp: materialize_threshold_def split: option.splits)+

lemma materialize_statistic_resolves:
  assumes "materialize_statistic packId ps g st = Inr w"
  shows "map_option (\<lambda>s. s\<lparr>st_levelBps := None, st_marginBps := None\<rparr>) w
      = map_option (\<lambda>s. s\<lparr>st_levelBps := None, st_marginBps := None\<rparr>) st"
    and "materialize_ref packId ps g (Option.bind st st_levelBps) = Inr (Option.bind w st_levelBps)"
    and "materialize_ref packId ps g (Option.bind st st_marginBps) = Inr (Option.bind w st_marginBps)"
  using assms
  by (cases st; auto simp: materialize_statistic_def materialize_ref_def [of _ _ _ None])+

lemma synthesize_parts:
  assumes "synthesizeFloorCandidate gate packId ps = Inr c"
  obtains th m st where "c = gate\<lparr>gd_threshold := th, gd_minimumN := m, gd_statistic := st\<rparr>"
    and "materialize_threshold packId ps (gd_id gate) (gd_threshold gate) = Inr th"
    and "materialize_ref packId ps (gd_id gate) (gd_minimumN gate) = Inr m"
    and "materialize_statistic packId ps (gd_id gate) (gd_statistic gate) = Inr st"
  using assms that by (auto simp: synthesizeFloorCandidate_def)

lemma synthesize_fields:
  assumes "synthesizeFloorCandidate gate packId ps = Inr c"
  shows "gd_kind c = gd_kind gate" and "gd_evidence c = gd_evidence gate"
    and "gd_predicate c = gd_predicate gate" and "gd_id c = gd_id gate"
    and "gd_direction c = gd_direction gate"
    and "map_option th_op (gd_threshold c) = map_option th_op (gd_threshold gate)"
    and "statistic_shape c = statistic_shape gate"
    and "Option.bind (gd_threshold c) th_param = None"
    and "materialize_ref packId ps (gd_id gate) (gd_minimumN gate) = Inr (gd_minimumN c)"
    and "materialize_ref packId ps (gd_id gate) (gate_level gate) = Inr (gate_level c)"
    and "materialize_ref packId ps (gd_id gate) (gate_margin gate) = Inr (gate_margin c)"
proof -
  obtain th m st where c: "c = gate\<lparr>gd_threshold := th, gd_minimumN := m, gd_statistic := st\<rparr>"
    and t: "materialize_threshold packId ps (gd_id gate) (gd_threshold gate) = Inr th"
    and mm: "materialize_ref packId ps (gd_id gate) (gd_minimumN gate) = Inr m"
    and s: "materialize_statistic packId ps (gd_id gate) (gd_statistic gate) = Inr st"
    using assms by (rule synthesize_parts)
  show "gd_kind c = gd_kind gate" "gd_evidence c = gd_evidence gate"
    "gd_predicate c = gd_predicate gate" "gd_id c = gd_id gate" "gd_direction c = gd_direction gate"
    by (simp_all add: c)
  show "map_option th_op (gd_threshold c) = map_option th_op (gd_threshold gate)"
    using materialize_threshold_resolves(1) [OF t] by (simp add: c)
  show "statistic_shape c = statistic_shape gate"
    using materialize_statistic_resolves(1) [OF s] by (simp add: c statistic_shape_def)
  show "Option.bind (gd_threshold c) th_param = None"
    using materialize_threshold_resolves(2) [OF t] by (simp add: c)
  show "materialize_ref packId ps (gd_id gate) (gd_minimumN gate) = Inr (gd_minimumN c)"
    using mm by (simp add: c)
  show "materialize_ref packId ps (gd_id gate) (gate_level gate) = Inr (gate_level c)"
    using materialize_statistic_resolves(2) [OF s] by (simp add: c gate_level_def)
  show "materialize_ref packId ps (gd_id gate) (gate_margin gate) = Inr (gate_margin c)"
    using materialize_statistic_resolves(3) [OF s] by (simp add: c gate_margin_def)
qed

lemma synthesize_threshold:
  assumes "synthesizeFloorCandidate gate packId ps = Inr c" and "unambiguous_threshold gate"
  shows "thresholdValue c packId ps = thresholdValue gate packId ps"
proof -
  obtain th m st where c: "c = gate\<lparr>gd_threshold := th, gd_minimumN := m, gd_statistic := st\<rparr>"
    and t: "materialize_threshold packId ps (gd_id gate) (gd_threshold gate) = Inr th"
    using assms(1) by (rule synthesize_parts)
  show ?thesis
  proof (cases "gd_threshold gate")
    case None
    with t show ?thesis by (simp add: c thresholdValue_def materialize_threshold_def)
  next
    case (Some h)
    with t assms(2) show ?thesis
      by (cases "th_param h")
        (auto simp: c thresholdValue_def materialize_threshold_def materialize_def
          unambiguous_threshold_def split: option.splits)
  qed
qed

lemma synthesize_literal:
  assumes "synthesizeFloorCandidate gate packId ps = Inr c"
  shows "literal_gate c"
proof -
  have "ref_name w = []" if "\<not> is_param_ref w" for w
    using that by (auto simp: ref_name_def is_param_ref_def split: option.splits num_ref.splits)
  then show ?thesis
    using synthesize_fields(8-11) [OF assms] materialize_ref_resolves(2)
    by (auto simp: literal_gate_def gate_refs_def split: option.splits)
qed

lemma gate_mode_shape: "statistic_shape a = statistic_shape b \<Longrightarrow> gate_mode a = gate_mode b"
proof -
  have "Option.bind (gd_statistic g) st_mode = Option.bind (statistic_shape g) st_mode" for g
    by (cases "gd_statistic g") (simp_all add: statistic_shape_def)
  then show "statistic_shape a = statistic_shape b \<Longrightarrow> gate_mode a = gate_mode b"
    by (simp add: gate_mode_def)
qed

text \<open>A materialized candidate passes exactly what the gate passes under the binding.\<close>

lemma synthesize_passes:
  assumes S: "synthesizeFloorCandidate gate (oc_packId ctx) (oc_parameters ctx) = Inr c"
    and U: "unambiguous_threshold gate"
  shows "gate_passes rt c obs ctx = gate_passes rt gate obs ctx"
proof -
  note f = synthesize_fields [OF S]
  note shape = statistic_shape_fields [OF f(7)]
  have th: "ctx_threshold c ctx = ctx_threshold gate ctx"
    using synthesize_threshold [OF S U] by (simp add: ctx_threshold_def)
  have level: "ctx_level c ctx = ctx_level gate ctx"
    using materialize_ref_resolves(1) [OF f(10)] by (simp add: ctx_level_def)
  have margin: "ctx_margin c ctx = ctx_margin gate ctx"
    using materialize_ref_resolves(4) [OF f(11)] by (simp add: ctx_margin_def)
  have nn: "(gd_minimumN c = None) = (gd_minimumN gate = None)"
    using materialize_ref_resolves(3) [OF f(9)] .
  have minimum: "resolved_minimum c ctx = resolved_minimum gate ctx"
    using materialize_ref_resolves(1) [OF f(9)] nn by (simp add: resolved_minimum_def)
  have mode: "gate_mode c = gate_mode gate" by (rule gate_mode_shape [OF f(7)])
  have kinds: "kind_passes rt c ob ctx n = kind_passes rt gate ob ctx n" for ob n
    by (cases "gd_kind gate")
      (simp_all add: kind_passes_def f(1) nn minimum intervalBound_pass interval_passes_def
        pairedDifference_pass paired_passes_def bootstrapBound_pass bootstrap_passes_def
        exactValue_pass exactCount_pass th level margin mode shape f(6))
  show ?thesis
  proof (cases "counted_kind (gd_kind gate)")
    case True
    then show ?thesis by (simp add: gate_passes_counted f(1) minimum kinds)
  next
    case False
    then consider "gd_kind gate = Evidence" | "gd_kind gate = PredicateGate" | "gd_kind gate = UpstreamCeilingGate"
      by (auto simp: counted_kind_def)
    then show ?thesis
      by cases (simp_all add: gate_passes_evidence gate_passes_predicate gate_passes_upstream f
        evidencePresent_pass predicateGate_def upstreamGate_def)
  qed
qed

section \<open>Project floors\<close>

text \<open>A binding gate whose numbers, under its binding, are defined.\<close>

definition sound_binding_gate :: "gate_definition \<Rightarrow> string \<Rightarrow> jsnum dict \<Rightarrow> bool" where
  "sound_binding_gate gate packId ps \<longleftrightarrow>
     unambiguous_threshold gate \<and> direction_coherent gate
     \<and> thresholdValue gate packId ps \<noteq> Some NaN
     \<and> resolveGateNumber (gd_minimumN gate) packId ps \<noteq> Some NaN
     \<and> resolveGateNumber (gate_margin gate) packId ps \<noteq> Some NaN"

lemma synthesize_sound:
  assumes S: "synthesizeFloorCandidate gate packId ps = Inr c" and "sound_binding_gate gate packId ps"
  shows "direction_coherent c" and "numbers_defined c params"
proof -
  note f = synthesize_fields [OF S]
  show "direction_coherent c"
    using assms(2) statistic_shape_fields(2) [OF f(7)]
    by (simp add: sound_binding_gate_def direction_coherent_def f split: gate_kind.splits)
  have lit: "literal_gate c" by (rule synthesize_literal [OF S])
  have U: "unambiguous_threshold gate" using assms(2) by (simp add: sound_binding_gate_def)
  have "resolveThresholdDefault c params = thresholdValue c packId ps"
    using literal_threshold [OF lit, where params = params
        and ctx = "\<lparr>oc_packId = packId, oc_parameters = ps, oc_metrics = JNull, oc_slices = [], oc_upstream = None,
          oc_nowMs = NaN, oc_slice = None\<rparr>"] by (simp add: ctx_threshold_def)
  moreover have "resolveNumberDefault (gd_minimumN c) params CountParam = resolveGateNumber (gd_minimumN gate) packId ps"
    using literal_number [OF literal_gateD(2) [OF lit], where params = params and t = CountParam
        and packId = packId and ps = ps] materialize_ref_resolves(1) [OF f(9)] by simp
  moreover have "resolveNumberDefault (gate_margin c) params ValueParam = resolveGateNumber (gate_margin gate) packId ps"
    using literal_number [OF literal_gateD(4) [OF lit], where params = params and t = ValueParam
        and packId = packId and ps = ps] materialize_ref_resolves(1) [OF f(11)] by simp
  ultimately show "numbers_defined c params"
    using assms(2) synthesize_threshold [OF S U] by (simp add: numbers_defined_def sound_binding_gate_def)
qed

lemma enforced_candidate:
  assumes "enforceProjectFloors binding packs ps expanded ceilings = Inr ()"
    and "fl \<in> set expanded" and "fg \<in> set (ef_gates fl)"
    and "(g, p) \<in> set (union_gates packs)" and "gd_id g = gd_id fg"
  shows "\<exists>c. synthesizeFloorCandidate g p ps = Inr c \<and> assertGateTightens fg c (ef_params fl) = Inr ()"
proof -
  have "enforceFloorGate (union_gates packs) ps fl fg = Inr ()"
    using assms(1-3) by (auto simp: enforceProjectFloors_def Let_def split: if_splits)
  moreover have "(g, p) \<in> set (filter (\<lambda>(g, p). gd_id g = gd_id fg) (union_gates packs))"
    using assms(4,5) by simp
  ultimately show ?thesis by (fastforce simp: enforceFloorGate_def Let_def split: if_splits)
qed

lemma enforced_present:
  assumes "enforceProjectFloors binding packs ps expanded ceilings = Inr ()"
    and "fl \<in> set expanded" and "fg \<in> set (ef_gates fl)"
  shows "\<exists>(g, p) \<in> set (union_gates packs). gd_id g = gd_id fg"
proof -
  have "enforceFloorGate (union_gates packs) ps fl fg = Inr ()"
    using assms by (auto simp: enforceProjectFloors_def Let_def split: if_splits)
  then have "filter (\<lambda>(g, p). gd_id g = gd_id fg) (union_gates packs) \<noteq> []"
    by (auto simp: enforceFloorGate_def Let_def split: if_splits)
  then show ?thesis by (auto simp: filter_empty_conv)
qed

definition floor_context :: "observation_context \<Rightarrow> expanded_floor \<Rightarrow> observation_context" where
  "floor_context ctx fl =
     ctx\<lparr>oc_packId := ef_packId fl, oc_parameters := default_parameters (ef_packId fl) (ef_params fl)\<rparr>"

text \<open>The context in which a floor gate is held against an observation: with the defaults of the floor
  pack as parameters. A predicate gate has no number to bind and is held against the document of the
  evaluation itself, which shows the parameters of the binding.\<close>

definition held_context :: "gate_definition \<Rightarrow> observation_context \<Rightarrow> expanded_floor \<Rightarrow> observation_context" where
  "held_context fg ctx fl = (if gd_kind fg = PredicateGate then ctx else floor_context ctx fl)"

text \<open>C2: Project floors bind sound gates. If \<open>enforceProjectFloors\<close> accepts a binding, then for every gate
  of every floor pack the binding's packs contain a gate of that id, and whenever such a gate passes
  an observation under the binding's parameters, the floor gate passes the same observation with
  its parameters at their defaults (a predicate gate: on the same document): no observation that
  breaks the floor is promoted. This holds for gates that are sound, which \<open>enforceProjectFloors\<close>
  does not check itself: (1) the declared direction of the floor gate and of the binding gate is the
  one in which the gate's test gets harder, given its kind, operator or bound; (2) no threshold,
  minimum or margin that either gate resolves to is NaN; (3) the binding gate's threshold does not
  carry a literal and a parameter at once; (4) the floor's parameters have distinct names, its paired
  margin is in range and a minimum-n floor has a minimum; (5) for the interval statistics both gates
  resolve to the same confidence level.\<close>

theorem project_floors_bind:
  assumes "enforceProjectFloors binding packs ps expanded ceilings = Inr ()"
    and "fl \<in> set expanded" and "fg \<in> set (ef_gates fl)" and "sound_floor fg (ef_params fl)"
    and "gd_kind fg = MinimumN \<longrightarrow> gd_minimumN fg \<noteq> None"
  shows "(\<exists>(g, p) \<in> set (union_gates packs). gd_id g = gd_id fg)
    \<and> (\<forall>(g, p) \<in> set (union_gates packs). \<forall>rt obs ctx.
         gd_id g = gd_id fg \<and> sound_binding_gate g p ps \<and> oc_packId ctx = p \<and> oc_parameters ctx = ps
         \<and> (\<not> statistical_kind (gd_kind fg) \<or> ctx_level g ctx = ctx_level fg (floor_context ctx fl))
         \<and> gate_passes rt g obs ctx \<longrightarrow>
           gate_passes rt fg obs (held_context fg ctx fl))"
proof (intro conjI ballI allI impI, goal_cases)
  case 1
  then show ?case using enforced_present [OF assms(1-3)] .
next
  case (2 gp)
  obtain g p where gp: "gp = (g, p)" by (cases gp) auto
  have "gate_passes rt fg obs (held_context fg ctx fl)"
    if h: "gd_id g = gd_id fg" "sound_binding_gate g p ps" "oc_packId ctx = p" "oc_parameters ctx = ps"
      "\<not> statistical_kind (gd_kind fg) \<or> ctx_level g ctx = ctx_level fg (floor_context ctx fl)"
      "gate_passes rt g obs ctx" for rt obs ctx
  proof -
    obtain c where S: "synthesizeFloorCandidate g p ps = Inr c"
      and T: "assertGateTightens fg c (ef_params fl) = Inr ()"
      using enforced_candidate [OF assms(1-3) _ h(1)] 2 gp by blast
    have S': "synthesizeFloorCandidate g (oc_packId ctx) (oc_parameters ctx) = Inr c" using S h by simp
    have U: "unambiguous_threshold g" using h(2) by (simp add: sound_binding_gate_def)
    have "ctx_level c ctx = ctx_level g ctx"
      using materialize_ref_resolves(1) [OF synthesize_fields(10) [OF S']] by (simp add: ctx_level_def)
    then have level: "\<not> statistical_kind (gd_kind fg) \<or> ctx_level c ctx = ctx_level fg (floor_context ctx fl)"
      using h(5) by simp
    have pass: "gate_passes rt c obs ctx" using synthesize_passes [OF S' U] h(6) by simp
    show ?thesis
    proof (cases "gd_kind fg = PredicateGate")
      case True
      then show ?thesis using tightening_predicate [OF T True] pass by (simp add: held_context_def)
    next
      case False
      have "gate_passes rt fg obs (floor_context ctx fl)"
        by (rule tightening_pass [OF T synthesize_literal [OF S] assms(4) synthesize_sound [OF S h(2)]
              _ level assms(5) _ False pass])
          (simp_all add: floor_context_def same_evidence_def)
      then show ?thesis using False by (simp add: held_context_def)
    qed
  qed
  then show ?case by (simp add: gp)
qed

section \<open>Concrete gates\<close>

definition demo_gate :: "gate_threshold \<Rightarrow> tightening_direction \<Rightarrow> gate_definition" where
  "demo_gate th dir =
     \<lparr>gd_id = ''errors'', gd_kind = CountMax, gd_metric = Some \<lparr>mr_provider = ''p'', mr_name = ''m''\<rparr>,
      gd_statistic = None, gd_threshold = Some th, gd_minimumN = None,
      gd_scope = \<lparr>sc_mode = ScopeAll, sc_slices = None, sc_except = None\<rparr>,
      gd_onFail = HOLD, gd_onInsufficient = None, gd_direction = dir, gd_floor = Some True,
      gd_evidence = None, gd_predicate = None\<rparr>"

definition literal_threshold_of :: "jsnum \<Rightarrow> gate_threshold" where
  "literal_threshold_of v = \<lparr>th_op = Lte, th_value = Some v, th_param = None\<rparr>"

definition demo_pack :: "gate_definition list \<Rightarrow> gate_pack" where
  "demo_pack gates =
     \<lparr>pk_id = ''project:demo'', pk_version = ''1.0.0'', pk_extends = None,
      pk_parameters = Some [(''limit'', \<lparr>gp_type = CountParam, gp_direction = LowerIsStricter, gp_default = None\<rparr>)],
      pk_metrics = [(''m'', \<lparr>md_provider = ''p'', md_kind = Proportion\<rparr>)], pk_gates = gates\<rparr>"

definition demo_providers :: provider_registry where
  "demo_providers = [(''p'', \<lparr>pv_version = ''1'', pv_sourceDigest = ''s'', pv_codeDigest = None,
     pv_metrics = [(''m'', Proportion)]\<rparr>)]"

definition demo_resolved :: "gate_definition list \<Rightarrow> resolved_pack" where
  "demo_resolved gates = \<lparr>rp_authored = demo_pack gates, rp_digest = ''a'', rp_resolvedDigest = ''b'',
     rp_resolved = demo_pack gates\<rparr>"

definition demo_binding :: gate_binding where
  "demo_binding = \<lparr>gb_id = ''study'', gb_packs = [], gb_parameters = [(''project:demo.limit'', Fin 5)],
     gb_slices = [], gb_sliceGroups = None, gb_references = [], gb_metricProviders = [], gb_ceiling = None,
     gb_registeredAt = [], gb_frozenAt = [], gb_declaresSplit = False\<rparr>"

definition demo_floor :: expanded_floor where
  "demo_floor = \<lparr>ef_packId = ''project:floor'',
     ef_gates = [demo_gate (literal_threshold_of (Fin 5)) LowerIsStricter], ef_params = []\<rparr>"

definition demo_context :: observation_context where
  "demo_context = \<lparr>oc_packId = ''project:demo'', oc_parameters = [(''project:demo.limit'', Fin 5)],
     oc_metrics = JNull, oc_slices = [], oc_upstream = None, oc_nowMs = Fin 0, oc_slice = None\<rparr>"

definition demo_observation :: "jsnum \<Rightarrow> jsnum \<Rightarrow> metric_observation" where
  "demo_observation n e = empty_observation\<lparr>ob_n := Some n, ob_events := Some e\<rparr>"

lemmas demo_defs = demo_gate_def literal_threshold_of_def demo_pack_def demo_providers_def
  demo_resolved_def demo_binding_def demo_floor_def demo_context_def demo_observation_def

lemmas load_defs = validateResolvedPack_def validateGate_def checkParameter_def checkMetric_def
  expectedMetricKind_def declaredMetricKind_def checkThresholdBlock_def checkStatisticBlock_def
  checkMinimumN_def checkParamRef_def needsThreshold_def expectedParamType_def gate_bound_def
  statistical_kind_def resolveNumberDefault_def

lemmas tighten_defs = assertGateTightens_def checkLevel_def checkMargin_def checkThreshold_def
  checkMinimum_def assertScopeTightens_def statistic_shape_def gate_level_def gate_margin_def
  gate_mode_def literal_to_param_def param_renamed_def is_param_ref_def resolveThresholdDefault_def
  resolveNumberDefault_def ceilingDecision_def

lemmas floor_defs = enforceProjectFloors_def assertCeilingDefaults_def projectCeilingSatisfied_def
  enforceFloorGate_def union_gates_def synthesizeFloorCandidate_def materialize_threshold_def
  materialize_def materialize_ref_def materialize_statistic_def qualifyGateParameter_def

lemmas pass_defs = gate_passes_def evaluateObservation_def exactCount_def supportOf_def is_count_def
  safe_int_def max_safe_integer_def empty_observation_def thresholdValue_def qualifyGateParameter_def

lemma demo_enforced:
  "enforceProjectFloors demo_binding [demo_resolved [demo_gate (literal_threshold_of (Fin 3)) LowerIsStricter]]
     (oc_parameters demo_context) [demo_floor] [] = Inr ()"
  by (simp add: demo_defs floor_defs tighten_defs)

lemma project_floors_bind_witness:
  "\<forall>rt. gate_passes rt (demo_gate (literal_threshold_of (Fin 5)) LowerIsStricter)
     (Some (demo_observation (Fin 10) (Fin 2))) (floor_context demo_context demo_floor)"
proof
  fix rt
  let ?g = "demo_gate (literal_threshold_of (Fin 3)) LowerIsStricter"
  let ?fg = "demo_gate (literal_threshold_of (Fin 5)) LowerIsStricter"
  have "(?g, ''project:demo'') \<in> set (union_gates [demo_resolved [?g]])"
    by (simp add: union_gates_def demo_defs)
  moreover have "sound_binding_gate ?g ''project:demo'' (oc_parameters demo_context)"
    by (simp add: sound_binding_gate_def unambiguous_threshold_def direction_coherent_def demo_defs
        thresholdValue_def resolveGateNumber_def gate_margin_def)
  moreover have "gate_passes rt ?g (Some (demo_observation (Fin 10) (Fin 2))) demo_context"
    by (simp add: pass_defs demo_defs)
  moreover have "sound_floor ?fg (ef_params demo_floor)"
    by (simp add: sound_floor_def direction_coherent_def numbers_defined_def margin_valid_def demo_defs
        resolveThresholdDefault_def resolveNumberDefault_def gate_margin_def)
  then have "\<forall>(g, p) \<in> set (union_gates [demo_resolved [?g]]). \<forall>rt obs ctx.
         gd_id g = gd_id ?fg \<and> sound_binding_gate g p (oc_parameters demo_context) \<and> oc_packId ctx = p
         \<and> oc_parameters ctx = oc_parameters demo_context
         \<and> (\<not> statistical_kind (gd_kind ?fg) \<or> ctx_level g ctx = ctx_level ?fg (floor_context ctx demo_floor))
         \<and> gate_passes rt g obs ctx \<longrightarrow>
           gate_passes rt ?fg obs (held_context ?fg ctx demo_floor)"
    by (intro project_floors_bind [OF demo_enforced, THEN conjunct2]) (simp_all add: demo_defs)
  ultimately show "gate_passes rt ?fg (Some (demo_observation (Fin 10) (Fin 2))) (floor_context demo_context demo_floor)"
    by (fastforce simp: demo_defs statistical_kind_def held_context_def)
qed

definition ambiguous_gate :: gate_definition where
  "ambiguous_gate = demo_gate \<lparr>th_op = Lte, th_value = Some (Fin 1000), th_param = Some ''limit''\<rparr> LowerIsStricter"

text \<open>A threshold that carries both a literal and a parameter escapes the project floors. The
  pack with the gate \<open>errors \<le> 1000 (param limit)\<close> loads, and \<open>enforceProjectFloors\<close> accepts it
  against the floor \<open>errors \<le> 5\<close> because the candidate takes the parameter's value 5; but
  evaluation prefers the literal, so 900 errors pass the binding's gate and fail the floor.\<close>

theorem ambiguous_threshold_escapes_floor:
  "validateResolvedPack (demo_pack [ambiguous_gate]) demo_providers = Inr ()
   \<and> enforceProjectFloors demo_binding [demo_resolved [ambiguous_gate]] [(''project:demo.limit'', Fin 5)]
        [demo_floor] [] = Inr ()
   \<and> gate_passes rt ambiguous_gate (Some (demo_observation (Fin 1000) (Fin 900))) demo_context
   \<and> \<not> gate_passes rt (demo_gate (literal_threshold_of (Fin 5)) LowerIsStricter)
        (Some (demo_observation (Fin 1000) (Fin 900))) (floor_context demo_context demo_floor)"
proof (intro conjI)
  show "validateResolvedPack (demo_pack [ambiguous_gate]) demo_providers = Inr ()"
    by (simp add: ambiguous_gate_def demo_defs load_defs safe_int_def max_safe_integer_def)
  show "enforceProjectFloors demo_binding [demo_resolved [ambiguous_gate]] [(''project:demo.limit'', Fin 5)]
        [demo_floor] [] = Inr ()"
    by (simp add: ambiguous_gate_def demo_defs floor_defs tighten_defs)
  show "gate_passes rt ambiguous_gate (Some (demo_observation (Fin 1000) (Fin 900))) demo_context"
    by (simp add: ambiguous_gate_def pass_defs demo_defs)
  show "\<not> gate_passes rt (demo_gate (literal_threshold_of (Fin 5)) LowerIsStricter)
        (Some (demo_observation (Fin 1000) (Fin 900))) (floor_context demo_context demo_floor)"
    by (simp add: floor_context_def pass_defs demo_defs)
qed

text \<open>Load validation does not tie the direction of a \<open>count-max\<close> gate to its test. A
  \<open>count-max\<close> gate declared higher-is-stricter loads, and raising its maximum from 5 to 1000 is
  accepted as a tightening although 900 events then pass where the parent fails.\<close>

theorem count_direction_unchecked:
  "validateResolvedPack (demo_pack [demo_gate (literal_threshold_of (Fin 5)) HigherIsStricter]) demo_providers = Inr ()
   \<and> validateResolvedPack (demo_pack [demo_gate (literal_threshold_of (Fin 1000)) HigherIsStricter]) demo_providers = Inr ()
   \<and> assertGateTightens (demo_gate (literal_threshold_of (Fin 5)) HigherIsStricter)
        (demo_gate (literal_threshold_of (Fin 1000)) HigherIsStricter) [] = Inr ()
   \<and> gate_passes rt (demo_gate (literal_threshold_of (Fin 1000)) HigherIsStricter)
        (Some (demo_observation (Fin 1000) (Fin 900))) demo_context
   \<and> \<not> gate_passes rt (demo_gate (literal_threshold_of (Fin 5)) HigherIsStricter)
        (Some (demo_observation (Fin 1000) (Fin 900))) demo_context"
proof (intro conjI)
  show "validateResolvedPack (demo_pack [demo_gate (literal_threshold_of (Fin 5)) HigherIsStricter]) demo_providers = Inr ()"
    "validateResolvedPack (demo_pack [demo_gate (literal_threshold_of (Fin 1000)) HigherIsStricter]) demo_providers = Inr ()"
    by (simp_all add: demo_defs load_defs safe_int_def max_safe_integer_def)
  show "assertGateTightens (demo_gate (literal_threshold_of (Fin 5)) HigherIsStricter)
        (demo_gate (literal_threshold_of (Fin 1000)) HigherIsStricter) [] = Inr ()"
    by (simp add: demo_defs tighten_defs)
  show "gate_passes rt (demo_gate (literal_threshold_of (Fin 1000)) HigherIsStricter)
        (Some (demo_observation (Fin 1000) (Fin 900))) demo_context"
    "\<not> gate_passes rt (demo_gate (literal_threshold_of (Fin 5)) HigherIsStricter)
        (Some (demo_observation (Fin 1000) (Fin 900))) demo_context"
    by (simp_all add: pass_defs demo_defs)
qed

end
