(* ===== verification/GateRegistry.thy ===== *)
theory GateRegistry
  imports GateSoundness
begin

text \<open>
  \<open>src/gates/registry.ts\<close>: pack ids, the registry of authored packs and the resolution of a
  binding. Digests of documents, their schema checks and \<open>Date.parse\<close> are parameters. The
  registry is the insertion-ordered list of its entries; composition gets one unit of fuel per
  registered pack, which the invariant below shows to be enough.
\<close>

section \<open>Pack ids\<close>

definition is_space :: "char \<Rightarrow> bool" where
  "is_space c \<longleftrightarrow> (of_char c :: nat) \<in> {9, 10, 11, 12, 13, 32, 160}"

datatype gate_namespace = NsAiwg | NsFramework | NsAddon | NsExtension | NsProject

definition GATE_NAMESPACES :: "(string \<times> gate_namespace) list" where
  "GATE_NAMESPACES = [(''aiwg'', NsAiwg), (''framework'', NsFramework), (''addon'', NsAddon),
     (''extension'', NsExtension), (''project'', NsProject)]"

text \<open>\<open>indexOf(':')\<close> with the parts before and after it.\<close>

definition split_at :: "char \<Rightarrow> string \<Rightarrow> (string \<times> string) option" where
  "split_at c s =
     (if c \<in> set s then Some (takeWhile (\<lambda>x. x \<noteq> c) s, tl (dropWhile (\<lambda>x. x \<noteq> c) s)) else None)"

text \<open>The pattern \<open>^[^/\s:]+\/[^/\s:]+$\<close>.\<close>

definition plain_segment :: "string \<Rightarrow> bool" where
  "plain_segment s \<longleftrightarrow> s \<noteq> [] \<and> list_all (\<lambda>c. c \<noteq> CHR ''/'' \<and> c \<noteq> CHR '':'' \<and> \<not> is_space c) s"

definition bundle_path :: "string \<Rightarrow> bool" where
  "bundle_path rest =
     (case split_at CHR ''/'' rest of None \<Rightarrow> False | Some (a, b) \<Rightarrow> plain_segment a \<and> plain_segment b)"

definition splitPackId :: "string \<Rightarrow> gate_error + gate_namespace \<times> string" where
  "splitPackId i =
     (let err = Inl (GateRegistryError ''pack-id'' i) in
      case split_at CHR '':'' i of
        None \<Rightarrow> err
      | Some (prefix, rest) \<Rightarrow>
        (case map_of GATE_NAMESPACES prefix of
           None \<Rightarrow> err
         | Some ns \<Rightarrow>
             if rest = [] \<or> list_ex is_space rest then err
             else if ns = NsProject then
               (if CHR '':'' \<in> set rest \<or> CHR ''/'' \<in> set rest then err else Inr (ns, rest))
             else if \<not> bundle_path rest then err
             else Inr (ns, rest)))"

section \<open>The registry\<close>

record registered_pack =
  ra_authored :: gate_pack
  ra_digest :: string
  ra_namespace :: gate_namespace

record gate_registry =
  gr_packs :: "registered_pack dict"
  gr_providers :: provider_registry

definition pack_namespace_rest :: "string \<Rightarrow> string" where
  "pack_namespace_rest i = (case splitPackId i of Inr (ns, rest) \<Rightarrow> rest | Inl e \<Rightarrow> [])"

text \<open>\<open>lookupPack\<close> and the lookup of \<open>resolveGateBinding\<close>: by full id, or by the rest of the id when
  the id carries no namespace and one pack has it. Registered ids have been split before.\<close>

definition lookupPack :: "registered_pack dict \<Rightarrow> string \<Rightarrow> gate_error + registered_pack" where
  "lookupPack packs i =
     (if CHR '':'' \<in> set i then
        (case map_of packs i of
           None \<Rightarrow> Inl (GateRegistryError ''unknown-pack'' i) | Some e \<Rightarrow> Inr e)
      else
        (let matches = filter (\<lambda>(k, e). pack_namespace_rest k = i) packs
         in case matches of
              [] \<Rightarrow> Inl (GateRegistryError ''unknown-pack'' i)
            | [(k, e)] \<Rightarrow> Inr e
            | _ \<Rightarrow> Inl (GateRegistryError ''ambiguous-pack'' i)))"

definition lookupAuthored :: "registered_pack dict \<Rightarrow> pack_lookup" where
  "lookupAuthored packs i = bindR (lookupPack packs i) (\<lambda>e. Inr (ra_authored e))"

definition lookupParent :: "registered_pack dict \<Rightarrow> pack_lookup" where
  "lookupParent packs i =
     (case map_of packs i of
        None \<Rightarrow> Inl (GateRegistryError ''extends-unknown-pack'' i) | Some e \<Rightarrow> Inr (ra_authored e))"

definition composeAuthored :: "gate_documents \<Rightarrow> registered_pack dict \<Rightarrow> gate_pack \<Rightarrow> gate_error + gate_pack" where
  "composeAuthored env packs pack = composeGatePack env (length packs) pack (lookupParent packs)"

definition requireParent ::
    "registered_pack dict \<Rightarrow> string \<Rightarrow> artifact_pin \<Rightarrow> gate_error + registered_pack" where
  "requireParent packs childId pin =
     (case map_of packs (pin_id pin) of
        None \<Rightarrow> Inl (GateRegistryError ''extends-unknown-pack'' childId)
      | Some entry \<Rightarrow>
          if pk_version (ra_authored entry) \<noteq> pin_version pin \<or> ra_digest entry \<noteq> pin_digest pin
          then Inl (GateRegistryError ''parent-pin-mismatch'' childId) else Inr entry)"

definition has_prefix :: "string \<Rightarrow> string \<Rightarrow> bool" where
  "has_prefix p s \<longleftrightarrow> take (length p) s = p"

definition checkOrigin :: "string \<Rightarrow> gate_namespace \<Rightarrow> string \<Rightarrow> gate_namespace \<Rightarrow> string option \<Rightarrow> gate_error + unit" where
  "checkOrigin i ns rest originNs bundle =
     checks
       [(ns \<noteq> originNs, GateRegistryError ''origin-namespace'' i),
        (ns \<noteq> NsProject \<and> \<not> opt_holds (list_ex (\<lambda>c. \<not> is_space c)) bundle,
         GateRegistryError ''origin-bundle-missing'' i),
        (ns \<noteq> NsProject \<and> \<not> opt_holds (\<lambda>b. has_prefix (b @ ''/'') rest) bundle,
         GateRegistryError ''origin-bundle'' i)]"

text \<open>A shipped (\<open>aiwg:\<close>) pack never shares the rest of its id with another pack.\<close>

definition checkShadows :: "registered_pack dict \<Rightarrow> string \<Rightarrow> string \<Rightarrow> gate_error + unit" where
  "checkShadows packs i rest =
     forEach (\<lambda>(k, e).
       if pack_namespace_rest k \<noteq> rest then Inr ()
       else if has_prefix ''aiwg:'' k \<or> has_prefix ''aiwg:'' i
       then Inl (GateRegistryError ''shadows-shipped-pack'' i) else Inr ()) packs"

definition registerPack ::
    "gate_documents \<Rightarrow> gate_registry \<Rightarrow> gate_pack \<Rightarrow> gate_namespace \<Rightarrow> string option
     \<Rightarrow> gate_error + gate_registry" where
  "registerPack env registry pack originNs bundle =
     (let i = pk_id pack; packs = gr_packs registry in
      if \<not> doc_packValid env pack then Inl (GateRegistryError ''invalid-document'' i)
      else bindR (splitPackId i) (\<lambda>(ns, rest).
        thenR (checkOrigin i ns rest originNs bundle)
        (if has_key packs i then Inl (GateRegistryError ''duplicate-pack'' i)
         else thenR (checkShadows packs i rest)
          (thenR (case pk_extends pack of
                    None \<Rightarrow> Inr () | Some pin \<Rightarrow> bindR (requireParent packs i pin) (\<lambda>_. Inr ()))
           (bindR (composeAuthored env packs pack) (\<lambda>resolved.
             thenR (validateResolvedPack resolved (gr_providers registry))
              (Inr (registry\<lparr>gr_packs := packs @
                 [(i, \<lparr>ra_authored = pack, ra_digest = doc_packDigest env pack, ra_namespace = ns\<rparr>)]\<rparr>))))))))"

definition resolvePack :: "gate_documents \<Rightarrow> gate_registry \<Rightarrow> string \<Rightarrow> gate_error + resolved_pack" where
  "resolvePack env registry i =
     bindR (lookupPack (gr_packs registry) i) (\<lambda>entry.
     bindR (composeAuthored env (gr_packs registry) (ra_authored entry)) (\<lambda>resolved.
       Inr \<lparr>rp_authored = ra_authored entry, rp_digest = ra_digest entry,
            rp_resolvedDigest = doc_packDigest env resolved, rp_resolved = resolved\<rparr>))"

section \<open>Resolution of a binding\<close>

definition checkBindingValue :: "string \<Rightarrow> gate_parameter \<Rightarrow> jsnum \<Rightarrow> gate_error + unit" where
  "checkBindingValue name parameter v =
     checks
       [(\<not> is_finite v, GateRegistryError ''binding-value-finite'' name),
        (gp_type parameter = BpsParam \<and> (num_lt v (Fin 0) \<or> num_lt bps_limit v),
         GateRegistryError ''binding-value-bps'' name),
        (gp_type parameter = LevelParam \<and> (\<not> is_safe_integer v \<or> num_le v (Fin 5000) \<or> num_le (Fin 9999) v),
         GateRegistryError ''binding-value-level'' name),
        (gp_type parameter = CountParam \<and> (\<not> is_safe_integer v \<or> num_lt v (Fin 0)),
         GateRegistryError ''binding-value-count'' name)]"

definition resolveBindingPack ::
    "gate_documents \<Rightarrow> registered_pack dict \<Rightarrow> string \<Rightarrow> gate_pack_pin \<Rightarrow> gate_error + resolved_pack" where
  "resolveBindingPack env packs bindingId pin =
     bindR (lookupPack packs (pp_id pin)) (\<lambda>entry.
       if pk_id (ra_authored entry) \<noteq> pp_id pin then Inl (GateRegistryError ''pin-full-id'' bindingId)
       else if doc_packDigest env (ra_authored entry) \<noteq> ra_digest entry
         \<or> pk_version (ra_authored entry) \<noteq> pp_version pin \<or> ra_digest entry \<noteq> pp_digest pin
       then Inl (GateRegistryError ''pack-pin-mismatch'' (pp_id pin))
       else bindR (composeGatePack env (length packs) (ra_authored entry) (lookupAuthored packs)) (\<lambda>resolved.
         if doc_packDigest env resolved \<noteq> pp_resolvedDigest pin
         then Inl (GateRegistryError ''composed-pin-mismatch'' (pp_id pin))
         else Inr \<lparr>rp_authored = ra_authored entry, rp_digest = ra_digest entry,
                rp_resolvedDigest = pp_resolvedDigest pin, rp_resolved = resolved\<rparr>))"

definition is_sha256 :: "string \<Rightarrow> bool" where
  "is_sha256 s \<longleftrightarrow> has_prefix ''sha256:'' s \<and> length s = 71
     \<and> list_all (\<lambda>c. c \<in> set ''0123456789abcdef'') (drop 7 s)"

definition checkProviderPin :: "provider_registry \<Rightarrow> string \<Rightarrow> gate_provider_pin \<Rightarrow> gate_error + unit" where
  "checkProviderPin providers bindingId pin =
     (case map_of providers (vp_id pin) of
        None \<Rightarrow> Inl (GateRegistryError ''unknown-provider'' (vp_id pin))
      | Some provider \<Rightarrow> checks
          [(pv_version provider \<noteq> vp_version pin \<or> pv_sourceDigest provider \<noteq> vp_sourceDigest pin,
            GateRegistryError ''provider-pin'' (vp_id pin)),
           (pv_codeDigest provider \<noteq> None \<and> vp_codeDigest pin \<noteq> pv_codeDigest provider,
            GateRegistryError ''provider-code-pin'' (vp_id pin)),
           (pv_codeDigest provider \<noteq> None \<and> \<not> opt_holds is_sha256 (vp_recordsDigest pin),
            GateRegistryError ''provider-records-pin'' (vp_id pin)),
           (pv_codeDigest provider = None \<and> vp_codeDigest pin \<noteq> None,
            GateRegistryError ''provider-code-pin'' (vp_id pin)),
           (pv_codeDigest provider = None \<and> vp_recordsDigest pin \<noteq> None,
            GateRegistryError ''provider-records-pin'' (vp_id pin))])"

definition resolved_gates :: "resolved_pack list \<Rightarrow> gate_definition list" where
  "resolved_gates packs = concat (map (\<lambda>p. pk_gates (rp_resolved p)) packs)"

text \<open>\<open>declared\<close>: the parameters of all packs under their qualified names, a \<open>Map\<close>.\<close>

definition declaredParameters :: "resolved_pack list \<Rightarrow> gate_parameter dict" where
  "declaredParameters packs =
     foldl (\<lambda>d (q, p). AList.update q p d) []
       (concat (map (\<lambda>pack. map (\<lambda>(n, p). (qualifyGateParameter (pk_id (rp_authored pack)) n, p))
          (opt_default (pk_parameters (rp_resolved pack)) [])) packs))"

definition resolveParameter :: "gate_binding \<Rightarrow> string \<times> gate_parameter \<Rightarrow> gate_error + string \<times> jsnum" where
  "resolveParameter binding entry =
     (case entry of (qualified, parameter) \<Rightarrow>
        case (case map_of (gb_parameters binding) qualified of
                Some v \<Rightarrow> Some v | None \<Rightarrow> gp_default parameter) of
          None \<Rightarrow> Inl (GateRegistryError ''parameter-missing'' qualified)
        | Some v \<Rightarrow> thenR (checkBindingValue qualified parameter v) (Inr (qualified, v)))"

definition checkResolvedGate ::
    "gate_binding \<Rightarrow> jsnum dict \<Rightarrow> string \<Rightarrow> gate_definition \<Rightarrow> gate_error + unit" where
  "checkResolvedGate binding parameters packId gate =
     (let slices = set (gb_slices binding); scope = gd_scope gate in
      thenR (if gd_kind gate = PairedDifference \<and> gate_margin gate \<noteq> None then
               checkPairedMargin (gd_id gate) (gate_mode gate)
                 (opt_default (resolveGateNumber (gate_margin gate) packId parameters) NaN)
             else Inr ())
      (checks
        [(\<not> set (opt_default (sc_slices scope) [] @ opt_default (sc_except scope) []) \<subseteq> slices,
          GateRegistryError ''slice-outside-inventory'' (gd_id gate)),
         (opt_holds (\<lambda>r. r \<notin> set (gb_references binding)) (Option.bind (gd_statistic gate) st_vs),
          GateRegistryError ''undeclared-reference'' (gd_id gate)),
         (sc_mode scope = ScopeEach
            \<and> list_all (\<lambda>s. s \<in> set (opt_default (sc_except scope) [])) (gb_slices binding),
          GateRegistryError ''each-excludes-all'' (gd_id gate))]))"

record resolved_binding =
  rb_binding :: gate_binding
  rb_packs :: "resolved_pack list"
  rb_parameters :: "jsnum dict"

definition resolveGateBinding ::
    "gate_documents \<Rightarrow> (string \<Rightarrow> jsnum) \<Rightarrow> (gate_binding \<Rightarrow> bool) \<Rightarrow> gate_binding \<Rightarrow> gate_registry
     \<Rightarrow> project_floors option \<Rightarrow> gate_error + resolved_binding" where
  "resolveGateBinding env parse bindingValid binding registry floors =
     (let packsById = gr_packs registry; providers = gr_providers registry; bid = gb_id binding in
      if \<not> bindingValid binding then Inl (GateRegistryError ''invalid-document'' bid)
      else if \<not> distinct (map pp_id (gb_packs binding)) then Inl (GateRegistryError ''pinned-twice'' bid)
      else bindR (mapR (resolveBindingPack env packsById bid) (gb_packs binding)) (\<lambda>packs.
      thenR (forEach (checkProviderPin providers bid) (gb_metricProviders binding))
      (thenR (forEach (\<lambda>g. if opt_holds (\<lambda>m. mr_provider m \<notin> set (map vp_id (gb_metricProviders binding)))
                                (gd_metric g)
                then Inl (GateRegistryError ''provider-unpinned'' (gd_id g)) else Inr ()) (resolved_gates packs))
      (let declared = declaredParameters packs in
       bindR (mapR (resolveParameter binding) declared) (\<lambda>parameters.
       thenR (forEach (\<lambda>(n, v). if \<not> has_key declared n
                then Inl (GateRegistryError ''undeclared-parameter'' n) else Inr ()) (gb_parameters binding))
       (thenR (forEach (\<lambda>(group, members). if \<not> set members \<subseteq> set (gb_slices binding)
                then Inl (GateRegistryError ''slice-group'' group) else Inr ())
                (opt_default (gb_sliceGroups binding) []))
       (thenR (forEach (\<lambda>pack. forEach (checkResolvedGate binding parameters (pk_id (rp_authored pack)))
                (pk_gates (rp_resolved pack))) packs)
       (let registeredAt = parse (gb_registeredAt binding); frozenAt = parse (gb_frozenAt binding) in
        if \<not> is_finite registeredAt \<or> \<not> is_finite frozenAt then Inl (GateRegistryError ''timestamps'' bid)
        else if num_lt frozenAt registeredAt then Inl (GateRegistryError ''registers-after-freeze'' bid)
        else case floors of
          None \<Rightarrow> Inr \<lparr>rb_binding = binding, rb_packs = packs, rb_parameters = parameters\<rparr>
        | Some pf \<Rightarrow>
            bindR (expandFloorPacks env (length packsById) pf (lookupAuthored packsById) providers) (\<lambda>expanded.
            thenR (enforceProjectFloors binding packs parameters expanded (pf_ceilings pf))
              (Inr \<lparr>rb_binding = binding, rb_packs = packs, rb_parameters = parameters\<rparr>))))))))))"

section \<open>Registered packs keep resolving\<close>

lemma compose_mono:
  assumes "composeGatePack env f pack lk = Inr r" and "f \<le> f'"
    and "\<And>i p. lk i = Inr p \<Longrightarrow> lk' i = Inr p"
  shows "composeGatePack env f' pack lk' = Inr r"
  using assms(1,2)
proof (induction f arbitrary: pack r f')
  case 0
  then show ?case
    by (simp add: composeGatePack.simps [of env 0] composeGatePack.simps [of env f'] split: option.splits)
next
  case (Suc f)
  then obtain f'' where f': "f' = Suc f''" "f \<le> f''" by (cases f') auto
  show ?case
  proof (cases "pk_extends pack")
    case None
    then show ?thesis using Suc.prems by (simp add: composeGatePack.simps [of env])
  next
    case (Some pin)
    then obtain a where a: "lk (pin_id pin) = Inr a"
      and v: "\<not> (pk_version a \<noteq> pin_version pin \<or> doc_packDigest env a \<noteq> pin_digest pin)"
      and c: "bindR (composeGatePack env f a lk) (\<lambda>parent. applyGateExtends parent pack) = Inr r"
      using Suc.prems(1) by (auto simp: composeGatePack.simps [of env "Suc f"] split: if_splits)
    then obtain q where q: "composeGatePack env f a lk = Inr q" "applyGateExtends q pack = Inr r" by auto
    then show ?thesis
      using Suc.IH [OF q(1) f'(2)] assms(3) [OF a] v Some
      by (simp add: composeGatePack.simps [of env "Suc f''"] f'(1))
  qed
qed

definition registry_ok :: "gate_documents \<Rightarrow> provider_registry \<Rightarrow> registered_pack dict \<Rightarrow> bool" where
  "registry_ok env providers packs \<longleftrightarrow>
     distinct (map fst packs)
     \<and> (\<forall>(k, e) \<in> set packs. CHR '':'' \<in> set k \<and> ra_digest e = doc_packDigest env (ra_authored e)
          \<and> (\<exists>r. composeGatePack env (length packs) (ra_authored e) (lookupParent packs) = Inr r
                \<and> validateResolvedPack r providers = Inr ()))"

inductive registry_reachable :: "gate_documents \<Rightarrow> gate_registry \<Rightarrow> bool" for env where
  empty: "gr_packs r = [] \<Longrightarrow> registry_reachable env r"
| register: "registry_reachable env r \<Longrightarrow> registerPack env r pack ns bundle = Inr r' \<Longrightarrow> registry_reachable env r'"

lemma lookupParent_append:
  "lookupParent packs i = Inr p \<Longrightarrow> lookupParent (packs @ added) i = Inr p"
  by (auto simp: lookupParent_def split: option.splits)

lemma compose_append:
  assumes "composeGatePack env (length packs) pack (lookupParent packs) = Inr r"
  shows "composeGatePack env (length (packs @ added)) pack (lookupParent (packs @ added)) = Inr r"
  by (rule compose_mono [OF assms]) (simp_all add: lookupParent_append)

lemma splitPackId_colon: "splitPackId i = Inr x \<Longrightarrow> CHR '':'' \<in> set i"
  by (auto simp: splitPackId_def split_at_def Let_def split: if_splits)

lemma registerPack_parts:
  assumes "registerPack env r pack ns bundle = Inr r'"
  shows "\<exists>nsr resolved. gr_packs r' = gr_packs r @
           [(pk_id pack, \<lparr>ra_authored = pack, ra_digest = doc_packDigest env pack, ra_namespace = nsr\<rparr>)]
         \<and> gr_providers r' = gr_providers r
         \<and> \<not> has_key (gr_packs r) (pk_id pack) \<and> CHR '':'' \<in> set (pk_id pack)
         \<and> composeAuthored env (gr_packs r) pack = Inr resolved
         \<and> validateResolvedPack resolved (gr_providers r) = Inr ()"
proof -
  obtain nsr rest where sp: "splitPackId (pk_id pack) = Inr (nsr, rest)"
    using assms by (auto simp: registerPack_def Let_def split: if_splits)
  then show ?thesis
    using assms splitPackId_colon [OF sp]
    by (auto simp: registerPack_def Let_def split: if_splits)
qed

lemma registerPack_ok:
  assumes "registry_ok env (gr_providers r) (gr_packs r)" and "registerPack env r pack ns bundle = Inr r'"
  shows "registry_ok env (gr_providers r') (gr_packs r')"
proof -
  obtain nsr resolved where
    p: "gr_packs r' = gr_packs r @
           [(pk_id pack, \<lparr>ra_authored = pack, ra_digest = doc_packDigest env pack, ra_namespace = nsr\<rparr>)]"
    and fresh: "\<not> has_key (gr_packs r) (pk_id pack)" and colon: "CHR '':'' \<in> set (pk_id pack)"
    and comp: "composeAuthored env (gr_packs r) pack = Inr resolved"
    and valid: "validateResolvedPack resolved (gr_providers r) = Inr ()"
    and prov: "gr_providers r' = gr_providers r"
    using registerPack_parts [OF assms(2)] by blast
  show ?thesis
    unfolding registry_ok_def
  proof (intro conjI ballI)
    show "distinct (map fst (gr_packs r'))"
      using assms(1) fresh by (simp add: p registry_ok_def has_key_iff)
  next
    fix x assume "x \<in> set (gr_packs r')"
    then consider "x \<in> set (gr_packs r)"
      | "x = (pk_id pack, \<lparr>ra_authored = pack, ra_digest = doc_packDigest env pack, ra_namespace = nsr\<rparr>)"
      by (auto simp: p)
    then show "case x of (k, e) \<Rightarrow> CHR '':'' \<in> set k \<and> ra_digest e = doc_packDigest env (ra_authored e)
        \<and> (\<exists>q. composeGatePack env (length (gr_packs r')) (ra_authored e) (lookupParent (gr_packs r')) = Inr q
              \<and> validateResolvedPack q (gr_providers r') = Inr ())"
    proof cases
      case 1
      then show ?thesis
        using assms(1) compose_append unfolding registry_ok_def p prov by fastforce
    next
      case 2
      then show ?thesis
        using colon compose_append [OF comp [unfolded composeAuthored_def],
          of "[(pk_id pack, \<lparr>ra_authored = pack, ra_digest = doc_packDigest env pack, ra_namespace = nsr\<rparr>)]"]
        valid by (auto simp: p prov)
    qed
  qed
qed

lemma reachable_ok: "registry_reachable env r \<Longrightarrow> registry_ok env (gr_providers r) (gr_packs r)"
proof (induction rule: registry_reachable.induct)
  case (empty r)
  then show ?case by (simp add: registry_ok_def)
next
  case (register r pack ns b r')
  then show ?case using registerPack_ok by blast
qed

lemma resolve_member:
  assumes "registry_ok env (gr_providers r) (gr_packs r)" and "(i, e) \<in> set (gr_packs r)"
    and "composeGatePack env (length (gr_packs r)) (ra_authored e) (lookupParent (gr_packs r)) = Inr q"
  shows "resolvePack env r i = Inr \<lparr>rp_authored = ra_authored e, rp_digest = ra_digest e,
     rp_resolvedDigest = doc_packDigest env q, rp_resolved = q\<rparr>"
proof -
  have "map_of (gr_packs r) i = Some e" and "CHR '':'' \<in> set i"
    using assms(1,2) by (auto simp: registry_ok_def)
  then show ?thesis
    using assms(3) by (simp add: resolvePack_def lookupPack_def composeAuthored_def)
qed

text \<open>C5: A registered gate pack resolves, and keeps resolving to the same composition. In every
  registry built by \<open>registerPack\<close>, each registered id resolves, its digest is the digest of its
  authored document, the recursion over \<open>extends\<close> ends within one step per registered pack, and
  no later registration changes what the id resolves to.\<close>

theorem registered_pack_stable:
  assumes "registry_reachable env r" and "registerPack env r pack ns bundle = Inr r'"
    and "(i, e) \<in> set (gr_packs r)"
  shows "\<exists>rp. resolvePack env r i = Inr rp \<and> resolvePack env r' i = Inr rp
    \<and> rp_authored rp = ra_authored e \<and> rp_digest rp = doc_packDigest env (rp_authored rp)
    \<and> rp_resolvedDigest rp = doc_packDigest env (rp_resolved rp)"
proof -
  have ok: "registry_ok env (gr_providers r) (gr_packs r)" by (rule reachable_ok [OF assms(1)])
  then obtain q where q: "composeGatePack env (length (gr_packs r)) (ra_authored e) (lookupParent (gr_packs r)) = Inr q"
    and d: "ra_digest e = doc_packDigest env (ra_authored e)"
    using assms(3) by (auto simp: registry_ok_def)
  obtain added where p: "gr_packs r' = gr_packs r @ added"
    using registerPack_parts [OF assms(2)] by blast
  have "(i, e) \<in> set (gr_packs r')" using assms(3) p by simp
  moreover have "composeGatePack env (length (gr_packs r')) (ra_authored e) (lookupParent (gr_packs r')) = Inr q"
    using compose_append [OF q] by (simp add: p)
  ultimately show ?thesis
    using resolve_member [OF ok assms(3) q] resolve_member [OF registerPack_ok [OF ok assms(2)]] d by simp
qed

section \<open>Binding packs are the registered compositions\<close>

lemma lookup_parent_authored:
  assumes "registry_ok env providers packs" and "lookupParent packs i = Inr p"
  shows "lookupAuthored packs i = Inr p"
proof -
  obtain e where e: "map_of packs i = Some e" "p = ra_authored e"
    using assms(2) by (auto simp: lookupParent_def split: option.splits)
  then have "CHR '':'' \<in> set i"
    using assms(1) map_of_SomeD [of packs i e] by (auto simp: registry_ok_def)
  with e show ?thesis by (simp add: lookupAuthored_def lookupPack_def)
qed

lemma lookupPack_member: "lookupPack packs i = Inr e \<Longrightarrow> \<exists>k. (k, e) \<in> set packs"
proof (cases "CHR '':'' \<in> set i")
  case True
  then show "lookupPack packs i = Inr e \<Longrightarrow> ?thesis"
    by (auto simp: lookupPack_def dest!: map_of_SomeD split: option.splits)
next
  case False
  assume l: "lookupPack packs i = Inr e"
  then have "\<exists>k. filter (\<lambda>(k, e). pack_namespace_rest k = i) packs = [(k, e)]"
    using False by (auto simp: lookupPack_def split: list.splits)
  then obtain k where "filter (\<lambda>(k, e). pack_namespace_rest k = i) packs = [(k, e)]" by blast
  then have "(k, e) \<in> set (filter (\<lambda>(k, e). pack_namespace_rest k = i) packs)" by simp
  then show ?thesis by auto
qed

lemma binding_pack_valid:
  assumes ok: "registry_ok env providers packs" and "resolveBindingPack env packs bid pin = Inr rp"
  shows "validateResolvedPack (rp_resolved rp) providers = Inr ()"
proof -
  obtain e where l: "lookupPack packs (pp_id pin) = Inr e"
    and c: "composeGatePack env (length packs) (ra_authored e) (lookupAuthored packs) = Inr (rp_resolved rp)"
    using assms(2) by (auto simp: resolveBindingPack_def split: if_splits)
  obtain k where "(k, e) \<in> set packs" using lookupPack_member [OF l] by blast
  then obtain r where r: "composeGatePack env (length packs) (ra_authored e) (lookupParent packs) = Inr r"
    and v: "validateResolvedPack r providers = Inr ()"
    using ok by (auto simp: registry_ok_def)
  have "composeGatePack env (length packs) (ra_authored e) (lookupAuthored packs) = Inr r"
    by (rule compose_mono [OF r]) (simp_all add: lookup_parent_authored [OF ok])
  with c v show ?thesis by simp
qed

lemma resolved_binding_parts:
  assumes "resolveGateBinding env parse valid binding registry floors = Inr rb"
  shows "mapR (resolveBindingPack env (gr_packs registry) (gb_id binding)) (gb_packs binding) = Inr (rb_packs rb)"
  using assms
  by (auto simp: resolveGateBinding_def Let_def split: if_splits option.splits)

lemma validated_gate_outcomes:
  assumes "validateResolvedPack pack providers = Inr ()" and "g \<in> set (pk_gates pack)"
  shows "gd_onFail g \<noteq> PROMOTE" and "gd_onInsufficient g \<noteq> Some PROMOTE"
proof -
  have "validateGate pack g = Inr ()"
    using assms by (auto simp: validateResolvedPack_def split: if_splits)
  then show "gd_onFail g \<noteq> PROMOTE" "gd_onInsufficient g \<noteq> Some PROMOTE"
    by (auto simp: validateGate_def Let_def split: if_splits)
qed

lemma binding_gate_outcomes:
  assumes "registry_reachable env registry"
    and "resolveGateBinding env parse valid binding registry floors = Inr rb"
    and "pack \<in> set (rb_packs rb)" and "g \<in> set (pk_gates (rp_resolved pack))"
  shows "gd_onFail g \<noteq> PROMOTE" and "gd_onInsufficient g \<noteq> Some PROMOTE"
proof -
  obtain pin where "resolveBindingPack env (gr_packs registry) (gb_id binding) pin = Inr pack"
    using resolved_binding_parts [OF assms(2)] assms(3)
    by (auto simp: mapR_Inr_iff list_all2_conv_all_nth in_set_conv_nth)
  then have "validateResolvedPack (rp_resolved pack) (gr_providers registry) = Inr ()"
    by (rule binding_pack_valid [OF reachable_ok [OF assms(1)]])
  then show "gd_onFail g \<noteq> PROMOTE" "gd_onInsufficient g \<noteq> Some PROMOTE"
    using validated_gate_outcomes assms(4) by blast+
qed

section \<open>A registry with one pack\<close>

definition demo_documents :: gate_documents where
  "demo_documents = \<lparr>doc_packDigest = pk_version, doc_packValid = (\<lambda>p. True)\<rparr>"

definition demo_registered :: "string \<Rightarrow> gate_pack" where
  "demo_registered i = (demo_pack [demo_gate (literal_threshold_of (Fin 5)) LowerIsStricter])\<lparr>pk_id := i\<rparr>"

definition demo_entry :: "string \<Rightarrow> string \<times> registered_pack" where
  "demo_entry i = (i, \<lparr>ra_authored = demo_registered i, ra_digest = ''1.0.0'', ra_namespace = NsProject\<rparr>)"

definition demo_registry :: "(string \<times> registered_pack) list \<Rightarrow> gate_registry" where
  "demo_registry entries = \<lparr>gr_packs = entries, gr_providers = demo_providers\<rparr>"

lemma demo_split:
  "splitPackId ''project:a'' = Inr (NsProject, ''a'')" "splitPackId ''project:b'' = Inr (NsProject, ''b'')"
  by (simp_all add: splitPackId_def split_at_def GATE_NAMESPACES_def is_space_def)

lemma demo_valid: "validateResolvedPack (demo_registered i) demo_providers = Inr ()"
  by (simp add: demo_registered_def demo_defs load_defs safe_int_def max_safe_integer_def)

lemma demo_register:
  "registerPack demo_documents (demo_registry []) (demo_registered ''project:a'') NsProject None
     = Inr (demo_registry [demo_entry ''project:a''])"
  "registerPack demo_documents (demo_registry [demo_entry ''project:a'']) (demo_registered ''project:b'') NsProject None
     = Inr (demo_registry [demo_entry ''project:a'', demo_entry ''project:b''])"
proof -
  have i: "pk_id (demo_registered i) = i" "pk_extends (demo_registered i) = None"
    "pk_version (demo_registered i) = ''1.0.0''" for i
    by (simp_all add: demo_registered_def demo_pack_def)
  have c: "composeAuthored env ps (demo_registered i) = Inr (demo_registered i)" for env ps i
    by (simp add: composeAuthored_def composeGatePack.simps i)
  show "registerPack demo_documents (demo_registry []) (demo_registered ''project:a'') NsProject None
     = Inr (demo_registry [demo_entry ''project:a''])"
    by (simp add: registerPack_def Let_def i c demo_split demo_valid checkOrigin_def checkShadows_def
        demo_registry_def demo_documents_def has_key_def demo_entry_def)
  show "registerPack demo_documents (demo_registry [demo_entry ''project:a'']) (demo_registered ''project:b'') NsProject None
     = Inr (demo_registry [demo_entry ''project:a'', demo_entry ''project:b''])"
    by (simp add: registerPack_def Let_def i c demo_split demo_valid checkOrigin_def checkShadows_def
        pack_namespace_rest_def demo_registry_def demo_documents_def has_key_def demo_entry_def)
qed

lemma registered_pack_stable_witness:
  "\<exists>rp. resolvePack demo_documents (demo_registry [demo_entry ''project:a'']) ''project:a'' = Inr rp
    \<and> resolvePack demo_documents (demo_registry [demo_entry ''project:a'', demo_entry ''project:b'']) ''project:a'' = Inr rp
    \<and> rp_authored rp = ra_authored (snd (demo_entry ''project:a''))
    \<and> rp_digest rp = doc_packDigest demo_documents (rp_authored rp)
    \<and> rp_resolvedDigest rp = doc_packDigest demo_documents (rp_resolved rp)"
proof (rule registered_pack_stable [OF _ demo_register(2)])
  have "registry_reachable demo_documents (demo_registry [])"
    by (rule registry_reachable.empty) (simp add: demo_registry_def)
  then show "registry_reachable demo_documents (demo_registry [demo_entry ''project:a''])"
    using demo_register(1) by (rule registry_reachable.register)
qed (simp add: demo_registry_def demo_entry_def)

end
