(* ===== verification/GateEvaluate.thy ===== *)
theory GateEvaluate
  imports GateRegistry
begin

text \<open>
  \<open>src/gates/evaluate.ts\<close>: the preconditions of an evaluation (pins, sealed upstream and holdout
  records, freeze order, isolated re-runs), the evidence of every gate and the decision.
  Parameters: the digests of the documents, \<open>Date.parse\<close>, the isolated provider run (with the
  sealing of its section), and the JSON document a predicate gate reads.
\<close>

section \<open>Inputs\<close>

record provider_section =
  psec_version :: string
  psec_sourceDigest :: string
  psec_codeDigest :: "string option"
  psec_recordsDigest :: "string option"
  psec_metrics :: "metric_series dict"

record gate_holdout =
  ho_frozenDigest :: string
  ho_firstAccessedAt :: "string option"
  ho_digest :: string

record provider_snapshot =
  sn_id :: string
  sn_version :: string
  sn_sourceDigest :: string
  sn_codeDigest :: string

record provider_runtime =
  prt_providers :: "provider_snapshot list"
  prt_records :: "json list dict"

datatype floors_input = FloorsApplied project_floors | FloorsOptOut

record gate_input =
  gi_binding :: gate_binding
  gi_registry :: gate_registry
  gi_trustedBindingDigest :: string
  gi_holdout :: "gate_holdout option"
  gi_metrics :: "provider_section dict"
  gi_references :: "string list"
  gi_upstream :: "(integrity_metadata \<times> string) option"
  gi_floors :: "floors_input option"
  gi_now :: string
  gi_runtime :: "provider_runtime option"

record gate_environment =
  env_documents :: gate_documents
  env_runtime :: gate_runtime
  env_bindingValid :: "gate_binding \<Rightarrow> bool"
  env_bindingDigest :: "gate_binding \<Rightarrow> string"
  env_upstreamDigest :: "integrity_metadata \<Rightarrow> string"
  env_holdoutDigest :: "string \<Rightarrow> string option \<Rightarrow> string"
  env_recordsDigest :: "json list \<Rightarrow> string option"
  env_rerun :: "string \<Rightarrow> json list \<Rightarrow> jsnum \<Rightarrow> string \<Rightarrow> provider_section option"
  env_metricsDocument :: "provider_section dict \<Rightarrow> json"

datatype evaluation_error =
    GateEvaluationError string
  | ResolutionError gate_error
  | ObservationFailure observation_error

section \<open>Outcomes\<close>

fun gateStatusOutcome :: "gate_status \<Rightarrow> gate_definition \<Rightarrow> gate_outcome" where
  "gateStatusOutcome PassStatus gate = PROMOTE"
| "gateStatusOutcome FailStatus gate = gd_onFail gate"
| "gateStatusOutcome InsufficientStatus gate = opt_default (gd_onInsufficient gate) HOLD"

definition upstreamOutcome :: "integrity_metadata option \<Rightarrow> upstream_evaluation" where
  "upstreamOutcome upstream = evaluateUpstreamCeiling upstream Allowlist (Fin 1) (Fin 0)"

section \<open>Preconditions\<close>

definition checkPackPin ::
    "gate_documents \<Rightarrow> gate_binding \<Rightarrow> resolved_pack \<Rightarrow> evaluation_error + unit" where
  "checkPackPin env binding pack =
     (let i = pk_id (rp_authored pack) in
      checks
        [(doc_packDigest env (rp_authored pack) \<noteq> rp_digest pack, GateEvaluationError ''pack-digest''),
         (doc_packDigest env (rp_resolved pack) \<noteq> rp_resolvedDigest pack, GateEvaluationError ''composed-digest''),
         (\<not> opt_holds (\<lambda>pin. pp_version pin = pk_version (rp_authored pack) \<and> pp_digest pin = rp_digest pack
              \<and> pp_resolvedDigest pin = rp_resolvedDigest pack)
            (find (\<lambda>pin. pp_id pin = i) (gb_packs binding)), GateEvaluationError ''pack-pin'')])"

text \<open>\<open>new Map(providers.map(p => [p.id, p]))\<close>: the last snapshot of an id.\<close>

definition runtime_snapshot :: "provider_runtime option \<Rightarrow> string \<Rightarrow> provider_snapshot option" where
  "runtime_snapshot runtime i =
     Option.bind runtime (\<lambda>r. find (\<lambda>s. sn_id s = i) (rev (prt_providers r)))"

definition runtime_records :: "provider_runtime option \<Rightarrow> string \<Rightarrow> json list option" where
  "runtime_records runtime i = Option.bind runtime (\<lambda>r. map_of (prt_records r) i)"

definition checkSection ::
    "provider_section dict \<Rightarrow> provider_runtime option \<Rightarrow> gate_provider_pin \<Rightarrow> evaluation_error + unit" where
  "checkSection metrics runtime pin =
     (let err = GateEvaluationError ''provider-pin'' in
      case map_of metrics (vp_id pin) of
        None \<Rightarrow>
          if runtime_snapshot runtime (vp_id pin) \<noteq> None \<and> runtime_records runtime (vp_id pin) \<noteq> None
          then Inr () else Inl err
      | Some section \<Rightarrow> checks
          [(psec_version section \<noteq> vp_version pin \<or> psec_sourceDigest section \<noteq> vp_sourceDigest pin, err),
           (vp_codeDigest pin \<noteq> None \<and> psec_codeDigest section \<noteq> vp_codeDigest pin, err),
           (vp_codeDigest pin \<noteq> None \<and> \<not> opt_holds is_sha256 (psec_recordsDigest section), err),
           (vp_codeDigest pin = None \<and> psec_codeDigest section \<noteq> None, err)])"

definition observes_upstream :: "resolved_pack list \<Rightarrow> bool" where
  "observes_upstream packs \<longleftrightarrow> (\<exists>g \<in> set (resolved_gates packs). gd_kind g = UpstreamCeilingGate)"

definition checkHoldout ::
    "gate_environment \<Rightarrow> gate_input \<Rightarrow> jsnum \<Rightarrow> evaluation_error + unit" where
  "checkHoldout env input nowMs =
     (let binding = gi_binding input; parse = date_parse (env_runtime env) in
      case gi_holdout input of
        None \<Rightarrow> Inl (GateEvaluationError ''holdout-missing'')
      | Some sealed \<Rightarrow>
        let frozenAt = parse (gb_frozenAt binding);
            accessedAt = map_option parse (ho_firstAccessedAt sealed)
        in checks
          [(env_holdoutDigest env (ho_frozenDigest sealed) (ho_firstAccessedAt sealed) \<noteq> ho_digest sealed,
            GateEvaluationError ''holdout-seal''),
           (ho_frozenDigest sealed \<noteq> gi_trustedBindingDigest input, GateEvaluationError ''holdout-binding''),
           (ho_firstAccessedAt sealed = None \<and> gb_declaresSplit binding, GateEvaluationError ''holdout-no-access''),
           (\<not> is_finite frozenAt, GateEvaluationError ''freeze-timestamp''),
           (num_lt nowMs frozenAt, GateEvaluationError ''freeze-after-evaluation''),
           (opt_holds (\<lambda>a. \<not> is_finite a) accessedAt, GateEvaluationError ''access-timestamp''),
           (opt_holds (\<lambda>a. num_le a frozenAt) accessedAt, GateEvaluationError ''freeze-after-access''),
           (opt_holds (\<lambda>a. num_lt nowMs a) accessedAt, GateEvaluationError ''access-after-evaluation'')])"

definition checkPreconditions ::
    "gate_environment \<Rightarrow> gate_input \<Rightarrow> resolved_pack list \<Rightarrow> jsnum \<Rightarrow> evaluation_error + unit" where
  "checkPreconditions env input packs nowMs =
     (let binding = gi_binding input; metrics = gi_metrics input; upstream = gi_upstream input in
      thenR (checks [(length packs \<noteq> length (gb_packs binding), GateEvaluationError ''pins-packs'')])
      (thenR (forEach (checkPackPin (env_documents env) binding) packs)
      (thenR (forEach (checkSection metrics (gi_runtime input)) (gb_metricProviders binding))
      (thenR (forEach (\<lambda>(i, s). if i \<notin> set (map vp_id (gb_metricProviders binding))
                then Inl (GateEvaluationError ''provider-unpinned'') else Inr ()) metrics)
      (thenR (checks
        [(opt_holds (\<lambda>(m, d). env_upstreamDigest env m \<noteq> d) upstream, GateEvaluationError ''upstream-digest''),
         (upstream = None \<and> observes_upstream packs, GateEvaluationError ''upstream-required''),
         (\<not> is_finite nowMs, GateEvaluationError ''evaluation-timestamp''),
         (env_bindingDigest env binding \<noteq> gi_trustedBindingDigest input, GateEvaluationError ''binding-digest'')])
      (checkHoldout env input nowMs))))))"

section \<open>Isolated re-runs\<close>

definition rerunProvider ::
    "gate_environment \<Rightarrow> gate_input \<Rightarrow> jsnum \<Rightarrow> provider_section dict \<Rightarrow> gate_provider_pin
     \<Rightarrow> evaluation_error + provider_section dict" where
  "rerunProvider env input nowMs effective pin =
     (case vp_codeDigest pin of
        None \<Rightarrow> Inr effective
      | Some pinnedCode \<Rightarrow>
        (case (runtime_snapshot (gi_runtime input) (vp_id pin), runtime_records (gi_runtime input) (vp_id pin)) of
           (Some snapshot, Some records) \<Rightarrow>
             (case map_of (gr_providers (gi_registry input)) (vp_id pin) of
                None \<Rightarrow> Inl (GateEvaluationError ''provider-unknown'')
              | Some registered \<Rightarrow>
                thenR (checks
                  [(pv_version registered \<noteq> vp_version pin \<or> pv_sourceDigest registered \<noteq> vp_sourceDigest pin
                    \<or> pv_codeDigest registered \<noteq> Some pinnedCode
                    \<or> sn_version snapshot \<noteq> vp_version pin \<or> sn_sourceDigest snapshot \<noteq> vp_sourceDigest pin
                    \<or> sn_codeDigest snapshot \<noteq> pinnedCode, GateEvaluationError ''provider-pin''),
                   (env_recordsDigest env records = None, GateEvaluationError ''records-digest''),
                   (env_recordsDigest env records \<noteq> vp_recordsDigest pin, GateEvaluationError ''records-mismatch'')])
                (case env_rerun env (vp_id pin) records nowMs pinnedCode of
                   None \<Rightarrow> Inl (GateEvaluationError ''provider-rerun'')
                 | Some section \<Rightarrow> Inr (AList.update (vp_id pin) section effective)))
         | _ \<Rightarrow> Inl (GateEvaluationError ''provider-rerun-required'')))"

section \<open>Evidence\<close>

record gate_evidence =
  ge_gateId :: string
  ge_kind :: gate_kind
  ge_scope :: gate_scope
  ge_slice :: "string option"
  ge_n :: "jsnum option"
  ge_events :: "jsnum option option"
  ge_statistic :: "evidence_statistic option"
  ge_threshold :: "evidence_threshold option"
  ge_status :: gate_status
  ge_outcome :: gate_outcome
  ge_reason :: string

definition gateTargets ::
    "gate_definition \<Rightarrow> gate_pack \<Rightarrow> provider_section dict \<Rightarrow> string list
     \<Rightarrow> (string option \<times> metric_observation option) list" where
  "gateTargets gate pack metrics slices =
     (if gd_kind gate = UpstreamCeilingGate \<or> gd_kind gate = PredicateGate then [(None, None)]
      else expandScope gate (declaredMetricKind gate pack)
             (seriesFor gate pack (map (\<lambda>(i, s). (i, psec_metrics s)) metrics)) slices)"

definition targetEvidence ::
    "gate_runtime \<Rightarrow> gate_definition \<Rightarrow> integrity_metadata option \<Rightarrow> observation_context
     \<Rightarrow> string option \<times> metric_observation option \<Rightarrow> evaluation_error + gate_evidence" where
  "targetEvidence rt gate upstream ctx target =
     (case evaluateObservation rt gate (snd target) (ctx\<lparr>oc_slice := fst target\<rparr>) of
        Inl e \<Rightarrow> Inl (ObservationFailure e)
      | Inr ev \<Rightarrow>
        Inr \<lparr>ge_gateId = gd_id gate, ge_kind = gd_kind gate, ge_scope = gd_scope gate,
             ge_slice = se_slice ev, ge_n = se_n ev, ge_events = se_events ev,
             ge_statistic = se_statistic ev, ge_threshold = se_threshold ev, ge_status = se_status ev,
             ge_outcome = (if gd_kind gate = UpstreamCeilingGate \<and> se_status ev = FailStatus
                           then up_ceiling (upstreamOutcome upstream)
                           else gateStatusOutcome (se_status ev) gate),
             ge_reason = gd_id gate @ '':'' @ se_reason ev\<rparr>)"

definition noTargetEvidence :: "gate_definition \<Rightarrow> gate_evidence" where
  "noTargetEvidence gate =
     \<lparr>ge_gateId = gd_id gate, ge_kind = gd_kind gate, ge_scope = gd_scope gate, ge_slice = None, ge_n = None,
      ge_events = None, ge_statistic = None, ge_threshold = None, ge_status = InsufficientStatus,
      ge_outcome = opt_default (gd_onInsufficient gate) HOLD,
      ge_reason = gd_id gate @ '':no-evaluation-targets''\<rparr>"

definition gateEvidence ::
    "gate_runtime \<Rightarrow> integrity_metadata option \<Rightarrow> observation_context \<Rightarrow> provider_section dict
     \<Rightarrow> string list \<Rightarrow> resolved_pack \<Rightarrow> gate_definition \<Rightarrow> evaluation_error + gate_evidence list" where
  "gateEvidence rt upstream ctx metrics slices pack gate =
     (let targets = gateTargets gate (rp_resolved pack) metrics slices in
      if targets = [] then Inr [noTargetEvidence gate]
      else mapR (targetEvidence rt gate upstream (ctx\<lparr>oc_packId := pk_id (rp_authored pack)\<rparr>)) targets)"

definition packEvidence ::
    "gate_runtime \<Rightarrow> integrity_metadata option \<Rightarrow> observation_context \<Rightarrow> provider_section dict
     \<Rightarrow> string list \<Rightarrow> resolved_pack list \<Rightarrow> evaluation_error + gate_evidence list" where
  "packEvidence rt upstream ctx metrics slices packs =
     bindR (mapR (\<lambda>pack. bindR (mapR (gateEvidence rt upstream ctx metrics slices pack)
                                  (pk_gates (rp_resolved pack))) (\<lambda>es. Inr (concat es))) packs)
       (\<lambda>es. Inr (concat es))"

section \<open>The report\<close>

record gate_report =
  gr_bindingId :: string
  gr_bindingDigest :: string
  gr_packPins :: "gate_pack_pin list"
  gr_evidence :: "gate_evidence list"
  gr_observedReferences :: "(string \<times> bool) list"
  gr_upstream :: "(gate_outcome \<times> integrity_problem list) option"
  gr_packOutcome :: gate_outcome
  gr_upstreamCeiling :: gate_outcome
  gr_bindingCeiling :: gate_outcome
  gr_decision :: gate_outcome
  gr_evaluatedAt :: string

definition buildReport ::
    "gate_input \<Rightarrow> resolved_pack list \<Rightarrow> gate_evidence list \<Rightarrow> gate_report" where
  "buildReport input packs evidence =
     (let binding = gi_binding input;
          upstream = map_option fst (gi_upstream input);
          packOutcome = maxOutcome (map ge_outcome evidence);
          verdict = upstreamOutcome upstream;
          bindingCeiling = opt_default (gb_ceiling binding) PROMOTE
      in \<lparr>gr_bindingId = gb_id binding, gr_bindingDigest = gi_trustedBindingDigest input,
          gr_packPins = map (\<lambda>p. \<lparr>pp_id = pk_id (rp_authored p), pp_version = pk_version (rp_authored p),
             pp_digest = rp_digest p, pp_resolvedDigest = rp_resolvedDigest p\<rparr>) packs,
          gr_evidence = evidence,
          gr_observedReferences = map (\<lambda>r. (r, r \<in> set (gi_references input))) (gb_references binding),
          gr_upstream = map_option (\<lambda>_. (up_ceiling verdict, up_problems verdict)) upstream,
          gr_packOutcome = packOutcome, gr_upstreamCeiling = up_ceiling verdict,
          gr_bindingCeiling = bindingCeiling,
          gr_decision = ceilingDecision packOutcome [up_ceiling verdict, bindingCeiling],
          gr_evaluatedAt = gi_now input\<rparr>)"

definition evaluateGates :: "gate_environment \<Rightarrow> gate_input \<Rightarrow> evaluation_error + gate_report" where
  "evaluateGates env input =
     (let binding = gi_binding input; rt = env_runtime env in
      case gi_floors input of
        None \<Rightarrow> Inl (GateEvaluationError ''floors-required'')
      | Some floorsInput \<Rightarrow>
        let floors = (case floorsInput of FloorsApplied pf \<Rightarrow> Some pf | FloorsOptOut \<Rightarrow> None);
            nowMs = date_parse rt (gi_now input)
        in bindR (mapErr ResolutionError (resolveGateBinding (env_documents env) (date_parse rt)
                    (env_bindingValid env) binding (gi_registry input) floors)) (\<lambda>resolved.
           let packs = rb_packs resolved; parameters = rb_parameters resolved in
           thenR (checkPreconditions env input packs nowMs)
           (bindR (foldR (rerunProvider env input nowMs) (gi_metrics input) (gb_metricProviders binding))
             (\<lambda>metrics.
            let upstream = map_option fst (gi_upstream input);
                ctx = \<lparr>oc_packId = [], oc_parameters = parameters,
                       oc_metrics = env_metricsDocument env metrics, oc_slices = gb_slices binding,
                       oc_upstream = upstream, oc_nowMs = nowMs, oc_slice = None\<rparr>
            in bindR (packEvidence rt upstream ctx metrics (gb_slices binding) packs) (\<lambda>evidence.
               Inr (buildReport input packs evidence))))))"

end
