(* ===== verification/GateDecision.thy ===== *)
theory GateDecision
  imports GateEvaluate
begin

text \<open>
  What a gate decision guarantees: the lemmas about \<open>evaluateGates\<close> (\<open>src/gates/evaluate.ts\<close>)
  over a registry built by \<open>registerPack\<close>. A report that promotes means that every gate of
  every pinned pack passed on every one of its targets, under a trusted binding that froze before
  the held-out data was read, and that the upstream and binding ceilings promote.
\<close>

section \<open>The parts of a successful evaluation\<close>

definition input_floors :: "gate_input \<Rightarrow> project_floors option" where
  "input_floors input =
     (case gi_floors input of Some (FloorsApplied pf) \<Rightarrow> Some pf | _ \<Rightarrow> None)"

definition input_now :: "gate_environment \<Rightarrow> gate_input \<Rightarrow> jsnum" where
  "input_now env input = date_parse (env_runtime env) (gi_now input)"

definition resolved_input :: "gate_environment \<Rightarrow> gate_input \<Rightarrow> gate_error + resolved_binding" where
  "resolved_input env input =
     resolveGateBinding (env_documents env) (date_parse (env_runtime env)) (env_bindingValid env)
       (gi_binding input) (gi_registry input) (input_floors input)"

definition effective_metrics ::
    "gate_environment \<Rightarrow> gate_input \<Rightarrow> evaluation_error + provider_section dict" where
  "effective_metrics env input =
     foldR (rerunProvider env input (input_now env input)) (gi_metrics input)
       (gb_metricProviders (gi_binding input))"

text \<open>The context in which a gate of a pack is evaluated on a slice.\<close>

definition evaluation_context ::
    "gate_environment \<Rightarrow> gate_input \<Rightarrow> jsnum dict \<Rightarrow> provider_section dict \<Rightarrow> string \<Rightarrow> string option
     \<Rightarrow> observation_context" where
  "evaluation_context env input parameters metrics packId slice =
     \<lparr>oc_packId = packId, oc_parameters = parameters,
      oc_metrics = env_metricsDocument env metrics, oc_slices = gb_slices (gi_binding input),
      oc_upstream = map_option fst (gi_upstream input), oc_nowMs = input_now env input, oc_slice = slice\<rparr>"

lemma evaluateGates_parts:
  assumes "evaluateGates env input = Inr rep"
  obtains rb metrics evidence where
    "gi_floors input \<noteq> None"
    "resolved_input env input = Inr rb"
    "checkPreconditions env input (rb_packs rb) (input_now env input) = Inr ()"
    "effective_metrics env input = Inr metrics"
    "packEvidence (env_runtime env) (map_option fst (gi_upstream input))
       (evaluation_context env input (rb_parameters rb) metrics [] None) metrics
       (gb_slices (gi_binding input)) (rb_packs rb) = Inr evidence"
    "rep = buildReport input (rb_packs rb) evidence"
proof -
  obtain f where f: "gi_floors input = Some f"
    using assms by (cases "gi_floors input") (auto simp: evaluateGates_def Let_def)
  have fl: "(case f of FloorsApplied pf \<Rightarrow> Some pf | FloorsOptOut \<Rightarrow> None) = input_floors input"
    by (simp add: f input_floors_def)
  show ?thesis
    using assms
    unfolding evaluateGates_def f option.case Let_def fl
    by (auto simp: resolved_input_def effective_metrics_def evaluation_context_def input_now_def f
        intro!: that)
qed

text \<open>The converse: the parts make an evaluation.\<close>

lemma evaluateGates_intro:
  assumes "gi_floors input \<noteq> None" and "resolved_input env input = Inr rb"
    and "checkPreconditions env input (rb_packs rb) (input_now env input) = Inr ()"
    and "effective_metrics env input = Inr metrics"
    and "packEvidence (env_runtime env) (map_option fst (gi_upstream input))
       (evaluation_context env input (rb_parameters rb) metrics [] None) metrics
       (gb_slices (gi_binding input)) (rb_packs rb) = Inr evidence"
  shows "evaluateGates env input = Inr (buildReport input (rb_packs rb) evidence)"
proof -
  obtain f where f: "gi_floors input = Some f" using assms(1) by blast
  have fl: "(case f of FloorsApplied pf \<Rightarrow> Some pf | FloorsOptOut \<Rightarrow> None) = input_floors input"
    by (simp add: f input_floors_def)
  show ?thesis
    using assms(2-)
    unfolding evaluateGates_def f option.case Let_def fl
    by (simp add: resolved_input_def effective_metrics_def evaluation_context_def input_now_def)
qed

lemma packEvidence_member:
  assumes "packEvidence rt upstream ctx metrics slices packs = Inr evidence"
    and "pack \<in> set packs" and "g \<in> set (pk_gates (rp_resolved pack))"
  shows "\<exists>es. gateEvidence rt upstream ctx metrics slices pack g = Inr es \<and> set es \<subseteq> set evidence"
proof -
  obtain ess where ess: "list_all2 (\<lambda>p es. bindR (mapR (gateEvidence rt upstream ctx metrics slices p)
      (pk_gates (rp_resolved p))) (\<lambda>es. Inr (concat es)) = Inr es) packs ess" "evidence = concat ess"
    using assms(1) by (auto simp: packEvidence_def mapR_Inr_iff)
  then obtain es where es: "es \<in> set ess"
    "bindR (mapR (gateEvidence rt upstream ctx metrics slices pack) (pk_gates (rp_resolved pack)))
       (\<lambda>es. Inr (concat es)) = Inr es"
    using assms(2) by (fastforce simp: list_all2_conv_all_nth in_set_conv_nth)
  then obtain gss where gss: "list_all2 (\<lambda>g e. gateEvidence rt upstream ctx metrics slices pack g = Inr e)
      (pk_gates (rp_resolved pack)) gss" "es = concat gss"
    by (auto simp: mapR_Inr_iff)
  then obtain e where "e \<in> set gss" "gateEvidence rt upstream ctx metrics slices pack g = Inr e"
    using assms(3) by (fastforce simp: list_all2_conv_all_nth in_set_conv_nth)
  moreover have "set es \<subseteq> set evidence" using es(1) by (auto simp: ess(2))
  moreover have "set e \<subseteq> set es" if "e \<in> set gss" for e using that by (auto simp: gss(2))
  ultimately show ?thesis by blast
qed

lemma upstreamGate_not_fail:
  assumes "up_problems (upstreamOutcome (oc_upstream ctx)) = []"
  shows "se_status (upstreamGate g ob ctx) \<noteq> FailStatus"
  using assms by (simp add: upstreamGate_def upstreamOutcome_def Let_def)

lemma gateEvidence_promotes:
  assumes "gateEvidence rt upstream ctx metrics slices pack g = Inr es"
    and "\<forall>e \<in> set es. ge_outcome e = PROMOTE"
    and "gd_onFail g \<noteq> PROMOTE" and "gd_onInsufficient g \<noteq> Some PROMOTE"
    and "gd_kind g = UpstreamCeilingGate \<longrightarrow> up_ceiling (upstreamOutcome upstream) = PROMOTE"
    and "oc_upstream ctx = upstream"
  shows "gateTargets g (rp_resolved pack) metrics slices \<noteq> []"
    and "\<forall>t \<in> set (gateTargets g (rp_resolved pack) metrics slices).
           gate_passes rt g (snd t) (ctx\<lparr>oc_packId := pk_id (rp_authored pack), oc_slice := fst t\<rparr>)"
proof -
  let ?ts = "gateTargets g (rp_resolved pack) metrics slices"
  have ins: "opt_default (gd_onInsufficient g) HOLD \<noteq> PROMOTE"
    using assms(4) by (cases "gd_onInsufficient g") simp_all
  show ne: "?ts \<noteq> []"
    using assms(1,2) ins by (auto simp: gateEvidence_def noTargetEvidence_def)
  have m: "list_all2 (\<lambda>t e. targetEvidence rt g upstream (ctx\<lparr>oc_packId := pk_id (rp_authored pack)\<rparr>) t = Inr e) ?ts es"
    using assms(1) ne by (simp add: gateEvidence_def Let_def mapR_Inr_iff)
  show "\<forall>t \<in> set ?ts. gate_passes rt g (snd t) (ctx\<lparr>oc_packId := pk_id (rp_authored pack), oc_slice := fst t\<rparr>)"
  proof
    fix t assume "t \<in> set ?ts"
    then obtain e where e: "e \<in> set es"
      "targetEvidence rt g upstream (ctx\<lparr>oc_packId := pk_id (rp_authored pack)\<rparr>) t = Inr e"
      using m by (fastforce simp: list_all2_conv_all_nth in_set_conv_nth)
    then obtain ev where ev: "evaluateObservation rt g (snd t)
        (ctx\<lparr>oc_packId := pk_id (rp_authored pack), oc_slice := fst t\<rparr>) = Inr ev"
      and out: "ge_outcome e = (if gd_kind g = UpstreamCeilingGate \<and> se_status ev = FailStatus
           then up_ceiling (upstreamOutcome upstream) else gateStatusOutcome (se_status ev) g)"
      by (auto simp: targetEvidence_def split: sum.splits)
    have P: "ge_outcome e = PROMOTE" using assms(2) e(1) by blast
    have "se_status ev = PassStatus"
    proof (cases "se_status ev")
      case FailStatus
      then have k: "gd_kind g = UpstreamCeilingGate"
        using out P assms(3) by (auto split: if_splits)
      then have "up_problems (upstreamOutcome upstream) = []"
        using assms(5) by (cases upstream) (auto simp: upstreamOutcome_def evaluateUpstreamCeiling_def
            Let_def ceilingDecision_def split: if_splits)
      then have "se_status ev \<noteq> FailStatus"
        using ev k assms(6) by (auto simp: evaluateObservation_def upstreamGate_not_fail)
      with FailStatus show ?thesis by simp
    next
      case InsufficientStatus
      then show ?thesis using out P ins by simp
    qed
    then show "gate_passes rt g (snd t) (ctx\<lparr>oc_packId := pk_id (rp_authored pack), oc_slice := fst t\<rparr>)"
      by (simp add: gate_passes_def ev)
  qed
qed

section \<open>What a promotion means\<close>

lemma buildReport_promotes:
  assumes "gr_decision (buildReport input packs evidence) = PROMOTE"
  shows "\<forall>e \<in> set evidence. ge_outcome e = PROMOTE"
    and "up_ceiling (upstreamOutcome (map_option fst (gi_upstream input))) = PROMOTE"
    and "gb_ceiling (gi_binding input) \<noteq> Some HOLD" and "gb_ceiling (gi_binding input) \<noteq> Some ROLLBACK"
  using assms
  by (auto simp: buildReport_def Let_def ceilingDecision_def maxOutcome_PROMOTE_iff)

lemma resolved_gates_member:
  assumes "pack \<in> set packs" and "g \<in> set (pk_gates (rp_resolved pack))"
  shows "g \<in> set (resolved_gates packs)"
  using assms by (auto simp: resolved_gates_def)

lemma preconditions_parts:
  assumes "checkPreconditions env input packs now = Inr ()"
  shows "opt_holds (\<lambda>(m, d). env_upstreamDigest env m \<noteq> d) (gi_upstream input) \<Longrightarrow> False"
    and "is_finite now" and "env_bindingDigest env (gi_binding input) = gi_trustedBindingDigest input"
    and "checkHoldout env input now = Inr ()"
  using assms by (auto simp: checkPreconditions_def Let_def checks_Inr_iff simp del: checks.simps)

text \<open>C1: A gate report promotes only what it observed. Over a registry built by registration, a
  PROMOTE decision means that a sealed upstream report is present, its digest matches and its
  ceiling promotes, the binding declares no lower ceiling, and every gate of every pack the
  binding resolves to has at least one target and passed on each of them, on the metrics in which
  every section of an isolated provider was replaced by its re-run.\<close>

theorem promotion_is_observed:
  assumes "registry_reachable (env_documents env) (gi_registry input)"
    and "evaluateGates env input = Inr rep" and "gr_decision rep = PROMOTE"
  shows "\<exists>rb metrics u d.
      resolved_input env input = Inr rb \<and> effective_metrics env input = Inr metrics
    \<and> gi_upstream input = Some (u, d) \<and> env_upstreamDigest env u = d
    \<and> up_ceiling (upstreamOutcome (Some u)) = PROMOTE
    \<and> gb_ceiling (gi_binding input) \<notin> {Some HOLD, Some ROLLBACK}
    \<and> (\<forall>pack \<in> set (rb_packs rb). \<forall>g \<in> set (pk_gates (rp_resolved pack)).
         let targets = gateTargets g (rp_resolved pack) metrics (gb_slices (gi_binding input))
         in targets \<noteq> [] \<and> (\<forall>t \<in> set targets. gate_passes (env_runtime env) g (snd t)
              (evaluation_context env input (rb_parameters rb) metrics (pk_id (rp_authored pack)) (fst t))))"
proof -
  obtain rb metrics evidence where
    rb: "resolved_input env input = Inr rb"
    and pre: "checkPreconditions env input (rb_packs rb) (input_now env input) = Inr ()"
    and metrics: "effective_metrics env input = Inr metrics"
    and ev: "packEvidence (env_runtime env) (map_option fst (gi_upstream input))
       (evaluation_context env input (rb_parameters rb) metrics [] None) metrics
       (gb_slices (gi_binding input)) (rb_packs rb) = Inr evidence"
    and rep: "rep = buildReport input (rb_packs rb) evidence"
    by (rule evaluateGates_parts [OF assms(2)])
  note P = buildReport_promotes [OF assms(3) [unfolded rep]]
  obtain u d where ud: "gi_upstream input = Some (u, d)"
    using P(2) by (cases "gi_upstream input") (auto simp: upstreamOutcome_def evaluateUpstreamCeiling_def)
  have "env_upstreamDigest env u = d"
    using preconditions_parts(1) [OF pre] by (auto simp: ud)
  moreover have "gateTargets g (rp_resolved pack) metrics (gb_slices (gi_binding input)) \<noteq> []
      \<and> (\<forall>t \<in> set (gateTargets g (rp_resolved pack) metrics (gb_slices (gi_binding input))).
           gate_passes (env_runtime env) g (snd t)
             (evaluation_context env input (rb_parameters rb) metrics (pk_id (rp_authored pack)) (fst t)))"
    if m: "pack \<in> set (rb_packs rb)" "g \<in> set (pk_gates (rp_resolved pack))" for pack g
  proof -
    note outcomes = binding_gate_outcomes [OF assms(1) rb [unfolded resolved_input_def] m]
    obtain es where es: "gateEvidence (env_runtime env) (map_option fst (gi_upstream input))
        (evaluation_context env input (rb_parameters rb) metrics [] None) metrics
        (gb_slices (gi_binding input)) pack g = Inr es" and sub: "set es \<subseteq> set evidence"
      using packEvidence_member [OF ev m] by blast
    have "\<forall>e \<in> set es. ge_outcome e = PROMOTE" using P(1) sub by blast
    note G = gateEvidence_promotes [OF es this outcomes]
    show ?thesis using G P(2) by (simp add: evaluation_context_def)
  qed
  ultimately show ?thesis
    using rb metrics ud P(2-4) by (auto simp: Let_def)
qed

text \<open>C3: An evaluation happens only in order: the binding is the one whose digest was frozen, its
  holdout record is sealed, it froze at or before the time of evaluation, and the held-out data
  was first read strictly after the freeze and not after the evaluation; a binding that declares
  held-out data has such a read.\<close>

theorem evaluation_follows_freeze:
  assumes "evaluateGates env input = Inr rep"
  shows "\<exists>sealed frozen now. gi_holdout input = Some sealed
    \<and> env_bindingDigest env (gi_binding input) = gi_trustedBindingDigest input
    \<and> ho_frozenDigest sealed = gi_trustedBindingDigest input
    \<and> env_holdoutDigest env (ho_frozenDigest sealed) (ho_firstAccessedAt sealed) = ho_digest sealed
    \<and> date_parse (env_runtime env) (gb_frozenAt (gi_binding input)) = Fin frozen
    \<and> date_parse (env_runtime env) (gi_now input) = Fin now \<and> frozen \<le> now
    \<and> (case ho_firstAccessedAt sealed of
         None \<Rightarrow> \<not> gb_declaresSplit (gi_binding input)
       | Some access \<Rightarrow> (\<exists>accessed. date_parse (env_runtime env) access = Fin accessed
                          \<and> frozen < accessed \<and> accessed \<le> now))"
proof -
  have "\<exists>packs. checkPreconditions env input packs (input_now env input) = Inr ()"
    by (rule evaluateGates_parts [OF assms], rule exI)
  then obtain packs where pre: "checkPreconditions env input packs (input_now env input) = Inr ()" ..
  note fin = preconditions_parts(2) [OF pre] and dig = preconditions_parts(3) [OF pre]
    and h = preconditions_parts(4) [OF pre]
  obtain sealed where s: "gi_holdout input = Some sealed"
    using h by (cases "gi_holdout input") (simp_all add: checkHoldout_def)
  obtain now where now: "date_parse (env_runtime env) (gi_now input) = Fin now"
    using fin by (auto simp: input_now_def is_finite_iff)
  note H = h [unfolded checkHoldout_def s option.case Let_def checks_Inr_iff]
  obtain frozen where fr: "date_parse (env_runtime env) (gb_frozenAt (gi_binding input)) = Fin frozen"
    using H by (auto simp: is_finite_iff)
  show ?thesis
    using H fr now dig s
    by (cases "ho_firstAccessedAt sealed") (auto simp: input_now_def is_finite_iff)
qed

section \<open>A promoted study\<close>

text \<open>The registry with the pack \<open>project:a\<close>: its gate allows five events. The study observes two
  events in ten, its upstream report is clean, and its timestamps are numerals of one digit.\<close>

definition demo_runtime :: gate_runtime where
  "demo_runtime =
     \<lparr>wilsonScoreInterval = (\<lambda>e n l. None), clopperPearsonInterval = (\<lambda>e n l. None),
      pairedBinaryDifferenceInterval = (\<lambda>c l t. None),
      pairedMeanDifferenceBootstrap = (\<lambda>d l s r b. None),
      date_parse = (\<lambda>t. if t = [] then NaN else Fin (of_nat (length t)))\<rparr>"

definition demo_environment :: gate_environment where
  "demo_environment =
     \<lparr>env_documents = demo_documents, env_runtime = demo_runtime, env_bindingValid = (\<lambda>b. True),
      env_bindingDigest = gb_id, env_upstreamDigest = trusted_score_source,
      env_holdoutDigest = (\<lambda>d a. d), env_recordsDigest = (\<lambda>r. None), env_rerun = (\<lambda>p r t c. None),
      env_metricsDocument = (\<lambda>m. JNull)\<rparr>"

definition demo_report :: integrity_metadata where
  "demo_report =
     \<lparr>sample_n = Fin 10, uncertainty_present = True, paired_baseline_present = True,
      integrity_mode = ''fresh'', fresh_workspace_required = True, fresh_workspace_verified = True,
      integrity_state = ''verified'', trusted_score_source = ''fresh-workspace'', compromise_labels = [],
      weak_signal_reason = None, integrity_release_gate = \<lparr>rg_decision = PROMOTE, rg_reasons = []\<rparr>\<rparr>"

definition demo_study :: gate_binding where
  "demo_study = demo_binding
     \<lparr>gb_packs := [\<lparr>pp_id = ''project:a'', pp_version = ''1.0.0'', pp_digest = ''1.0.0'',
                     pp_resolvedDigest = ''1.0.0''\<rparr>],
      gb_parameters := [(''project:a.limit'', Fin 5)], gb_slices := [''all''],
      gb_metricProviders := [\<lparr>vp_id = ''p'', vp_version = ''1'', vp_sourceDigest = ''s'',
                               vp_codeDigest = None, vp_recordsDigest = None\<rparr>],
      gb_registeredAt := ''1'', gb_frozenAt := ''1'', gb_declaresSplit := True\<rparr>"

definition demo_sections :: "provider_section dict" where
  "demo_sections = [(''p'', \<lparr>psec_version = ''1'', psec_sourceDigest = ''s'', psec_codeDigest = None,
     psec_recordsDigest = None,
     psec_metrics = [(''m'', \<lparr>ms_bySlice = [], ms_pooled = Some (demo_observation (Fin 10) (Fin 2))\<rparr>)]\<rparr>)]"

definition demo_input :: gate_input where
  "demo_input =
     \<lparr>gi_binding = demo_study, gi_registry = demo_registry [demo_entry ''project:a''],
      gi_trustedBindingDigest = ''study'',
      gi_holdout = Some \<lparr>ho_frozenDigest = ''study'', ho_firstAccessedAt = Some ''22'', ho_digest = ''study''\<rparr>,
      gi_metrics = demo_sections, gi_references = [], gi_upstream = Some (demo_report, ''fresh-workspace''),
      gi_floors = Some FloorsOptOut, gi_now = ''333'', gi_runtime = None\<rparr>"

definition demo_resolution :: resolved_binding where
  "demo_resolution =
     \<lparr>rb_binding = demo_study,
      rb_packs = [\<lparr>rp_authored = demo_registered ''project:a'', rp_digest = ''1.0.0'',
                   rp_resolvedDigest = ''1.0.0'', rp_resolved = demo_registered ''project:a''\<rparr>],
      rb_parameters = [(''project:a.limit'', Fin 5)]\<rparr>"

lemma demo_reachable: "registry_reachable demo_documents (demo_registry [demo_entry ''project:a''])"
proof -
  have "registry_reachable demo_documents (demo_registry [])"
    by (rule registry_reachable.empty) (simp add: demo_registry_def)
  then show ?thesis using demo_register(1) by (rule registry_reachable.register)
qed

lemma demo_resolved_pack:
  "resolveBindingPack demo_documents [demo_entry ''project:a''] ''study'' (hd (gb_packs demo_study))
     = Inr (hd (rb_packs demo_resolution))"
  by (simp add: resolveBindingPack_def demo_study_def demo_entry_def lookupPack_def demo_resolution_def
      composeGatePack.simps demo_registered_def demo_pack_def demo_documents_def)

lemma demo_resolves: "resolved_input demo_environment demo_input = Inr demo_resolution"
proof -
  have p: "gb_packs demo_study = [hd (gb_packs demo_study)]" "gb_id demo_study = ''study''"
    by (simp_all add: demo_study_def demo_binding_def)
  have r: "rb_packs demo_resolution = [hd (rb_packs demo_resolution)]" by (simp add: demo_resolution_def)
  have m: "mapR (resolveBindingPack demo_documents [demo_entry ''project:a''] ''study'') (gb_packs demo_study)
      = Inr (rb_packs demo_resolution)"
    by (subst p(1), subst r) (simp add: demo_resolved_pack del: list.sel)
  show ?thesis
    unfolding resolved_input_def resolveGateBinding_def Let_def
    by (simp add: demo_input_def demo_environment_def demo_registry_def m p(2) input_floors_def)
      (simp add: demo_resolution_def demo_study_def demo_binding_def demo_registered_def demo_pack_def
        demo_gate_def literal_threshold_of_def checkProviderPin_def demo_providers_def resolved_gates_def
        declaredParameters_def resolveParameter_def checkBindingValue_def qualifyGateParameter_def
        checkResolvedGate_def demo_runtime_def has_key_def safe_int_def max_safe_integer_def)
qed

definition demo_evidence :: gate_evidence where
  "demo_evidence =
     \<lparr>ge_gateId = ''errors'', ge_kind = CountMax,
      ge_scope = \<lparr>sc_mode = ScopeAll, sc_slices = None, sc_except = None\<rparr>, ge_slice = None,
      ge_n = Some (Fin 10), ge_events = Some (Some (Fin 2)), ge_statistic = plain_statistic ExactCount,
      ge_threshold = Some \<lparr>et_op = Lte, et_value = Some (Fin 5), et_param = None, et_resolved = Fin 5\<rparr>,
      ge_status = PassStatus, ge_outcome = PROMOTE, ge_reason = ''errors:count-within-threshold''\<rparr>"

lemma demo_now: "input_now demo_environment demo_input = Fin 3"
  by (simp add: input_now_def demo_environment_def demo_input_def demo_runtime_def)

lemma demo_preconditions:
  "checkPreconditions demo_environment demo_input (rb_packs demo_resolution) (Fin 3) = Inr ()"
  by (simp add: checkPreconditions_def checkPackPin_def checkSection_def checkHoldout_def
      demo_input_def demo_environment_def demo_resolution_def demo_study_def demo_binding_def
      demo_sections_def demo_documents_def demo_registered_def demo_pack_def demo_report_def
      demo_runtime_def)

lemma demo_metrics: "effective_metrics demo_environment demo_input = Inr demo_sections"
  by (simp add: effective_metrics_def rerunProvider_def demo_input_def demo_study_def)

lemma demo_pack_evidence:
  "packEvidence (env_runtime demo_environment) (map_option fst (gi_upstream demo_input))
     (evaluation_context demo_environment demo_input (rb_parameters demo_resolution) demo_sections [] None)
     demo_sections (gb_slices (gi_binding demo_input)) (rb_packs demo_resolution) = Inr [demo_evidence]"
  by (simp add: packEvidence_def gateEvidence_def gateTargets_def expandScope_def seriesFor_def
      targetEvidence_def evaluateObservation_def exactCount_def mk_evaluation_def threshold_evidence_def
      demo_resolution_def demo_registered_def demo_pack_def demo_gate_def literal_threshold_of_def
      demo_sections_def demo_observation_def empty_observation_def supportOf_def is_count_def
      thresholdValue_def pass_fail_def demo_evidence_def safe_int_def max_safe_integer_def)

lemma demo_evaluates:
  "evaluateGates demo_environment demo_input
     = Inr (buildReport demo_input (rb_packs demo_resolution) [demo_evidence])"
  by (rule evaluateGates_intro [OF _ demo_resolves _ demo_metrics demo_pack_evidence])
    (simp_all add: demo_now demo_preconditions, simp add: demo_input_def)

lemma demo_promotes:
  "gr_decision (buildReport demo_input (rb_packs demo_resolution) [demo_evidence]) = PROMOTE"
  by (simp add: buildReport_def demo_input_def demo_study_def demo_binding_def demo_evidence_def
      demo_report_def upstreamOutcome_def evaluateUpstreamCeiling_def integrityProblems_def
      qualificationIntegrityAllowlistProblems_def VERIFIED_QUALIFICATION_INTEGRITY_SOURCES_def
      ceilingDecision_def safe_int_def max_safe_integer_def)

lemma promotion_is_observed_witness:
  "gate_passes demo_runtime (hd (pk_gates (demo_registered ''project:a'')))
     (Some (demo_observation (Fin 10) (Fin 2)))
     (evaluation_context demo_environment demo_input [(''project:a.limit'', Fin 5)] demo_sections ''project:a'' None)"
proof -
  let ?g = "hd (pk_gates (demo_registered ''project:a''))"
  have g: "?g \<in> set (pk_gates (demo_registered ''project:a''))"
    by (simp add: demo_registered_def demo_pack_def)
  have d: "env_documents demo_environment = demo_documents"
    "gi_registry demo_input = demo_registry [demo_entry ''project:a'']"
    "env_runtime demo_environment = demo_runtime"
    by (simp_all add: demo_environment_def demo_input_def)
  have t: "gateTargets ?g (demo_registered ''project:a'') demo_sections (gb_slices (gi_binding demo_input))
      = [(None, Some (demo_observation (Fin 10) (Fin 2)))]"
    by (simp add: gateTargets_def expandScope_def seriesFor_def demo_registered_def demo_pack_def
        demo_gate_def demo_sections_def)
  have "registry_reachable (env_documents demo_environment) (gi_registry demo_input)"
    unfolding d by (rule demo_reachable)
  from promotion_is_observed [OF this demo_evaluates demo_promotes] g t show ?thesis
    by (auto simp: demo_resolves demo_metrics d demo_resolution_def Let_def demo_registered_def demo_pack_def)
qed

lemma evaluation_follows_freeze_witness:
  "\<exists>frozen accessed. date_parse demo_runtime ''1'' = Fin frozen \<and> date_parse demo_runtime ''22'' = Fin accessed
     \<and> frozen < accessed"
proof -
  have "gi_holdout demo_input = Some \<lparr>ho_frozenDigest = ''study'', ho_firstAccessedAt = Some ''22'', ho_digest = ''study''\<rparr>"
    "env_runtime demo_environment = demo_runtime" "gb_frozenAt (gi_binding demo_input) = ''1''"
    by (simp_all add: demo_input_def demo_environment_def demo_study_def)
  with evaluation_follows_freeze [OF demo_evaluates] show ?thesis by auto
qed

end
