(* ===== verification/GateInheritance.thy ===== *)
theory GateInheritance
  imports GateSoundness
begin

text \<open>
  What a pack inherits along \<open>extends\<close> (\<open>applyGateExtends\<close>, \<open>src/gates/pack-composition.ts\<close>): a floor
  gate of any ancestor is in every descendant, of the same kind, on the same metric, at least as
  severe on failure and with at least the same required evidence.
\<close>

section \<open>One step of inheritance\<close>

definition inherits_gate :: "gate_definition \<Rightarrow> gate_definition \<Rightarrow> bool" where
  "inherits_gate parent child \<longleftrightarrow>
     gd_id child = gd_id parent \<and> gd_kind child = gd_kind parent \<and> gd_metric child = gd_metric parent
     \<and> gd_direction child = gd_direction parent \<and> gd_predicate child = gd_predicate parent
     \<and> gd_floor child = Some True \<and> gd_onFail parent \<le> gd_onFail child
     \<and> set (opt_default (gd_evidence parent) []) \<subseteq> set (opt_default (gd_evidence child) [])"

lemma inherits_gate_trans: "inherits_gate a b \<Longrightarrow> inherits_gate b c \<Longrightarrow> inherits_gate a c"
  by (auto simp: inherits_gate_def)

lemma inherits_gate_refl: "gd_floor g = Some True \<Longrightarrow> inherits_gate g g"
  by (simp add: inherits_gate_def)

lemma tightens_inherits:
  assumes "assertGateTightens parent child params = Inr ()" and "gd_id child = gd_id parent"
    and "gd_floor parent = Some True"
  shows "inherits_gate parent child"
  using assertGateTightens_basic [OF assms(1)] assms(2,3) by (auto simp: inherits_gate_def)

lemma mergeParentGate_keeps:
  assumes "mergeParentGate child params merged g = Inr merged'"
  shows "set merged \<subseteq> set merged'"
    and "gd_floor g = Some True \<Longrightarrow> \<exists>h \<in> set merged'. inherits_gate g h"
  using assms
  by (auto simp: mergeParentGate_def find_Some_iff intro: tightens_inherits split: option.splits if_splits)

text \<open>The loop over the parent's gates keeps every gate it merged.\<close>

lemma mergeParentGates_keep:
  assumes "foldR (mergeParentGate child params) merged gates = Inr merged'"
  shows "set merged \<subseteq> set merged'"
    and "g \<in> set gates \<Longrightarrow> gd_floor g = Some True \<Longrightarrow> \<exists>h \<in> set merged'. inherits_gate g h"
  using assms
proof (induction gates arbitrary: merged)
  case Nil
  { case 1 then show ?case by simp }
  { case 2 then show ?case by simp }
next
  case (Cons a gates)
  { case 1
    then obtain m where m: "mergeParentGate child params merged a = Inr m"
      "foldR (mergeParentGate child params) m gates = Inr merged'" by auto
    then show ?case using mergeParentGate_keeps(1) Cons.IH(1) by blast }
  { case 2
    then obtain m where m: "mergeParentGate child params merged a = Inr m"
      "foldR (mergeParentGate child params) m gates = Inr merged'" by auto
    then show ?case
      using mergeParentGate_keeps(2) [OF m(1)] Cons.IH(1) [OF m(2)] Cons.IH(2) [OF _ _ m(2)] 2 by auto }
qed

lemma applyGateExtends_floors:
  assumes "applyGateExtends parent child = Inr r" and "g \<in> set (pk_gates parent)" and "gd_floor g = Some True"
  shows "\<exists>h \<in> set (pk_gates r). inherits_gate g h"
proof -
  obtain params merged where
    "foldR (mergeParentGate child params) [] (pk_gates parent) = Inr merged"
    and r: "set merged \<subseteq> set (pk_gates r)"
    using assms(1) by (auto simp: applyGateExtends_def Let_def)
  then show ?thesis using mergeParentGates_keep(2) assms(2,3) by blast
qed

section \<open>Along the chain\<close>

text \<open>The packs reached by following the \<open>extends\<close> pins.\<close>

inductive pack_ancestor :: "pack_lookup \<Rightarrow> gate_pack \<Rightarrow> gate_pack \<Rightarrow> bool" for lookup where
  self: "pack_ancestor lookup p p"
| parent: "pk_extends p = Some pin \<Longrightarrow> lookup (pin_id pin) = Inr q \<Longrightarrow> pack_ancestor lookup q a
    \<Longrightarrow> pack_ancestor lookup p a"

lemma compose_parent:
  assumes "composeGatePack env fuel pack lookup = Inr r" and "pk_extends pack = Some pin"
    and "lookup (pin_id pin) = Inr q"
  shows "\<exists>fuel' c. composeGatePack env fuel' q lookup = Inr c \<and> applyGateExtends c pack = Inr r"
  using assms
  by (cases fuel) (auto simp: composeGatePack.simps [of env] split: if_splits)

text \<open>C4: Floor gates are inherited. Whatever a pack extends, directly or through other packs, a
  gate that an ancestor's composition marks as a floor is in the pack's own composition under the
  same id, still a floor, with the same kind, metric, direction and predicate, an outcome on
  failure at least as severe, and all the evidence the ancestor required.\<close>

theorem floor_gates_inherited:
  assumes "pack_ancestor lookup pack ancestor" and "composeGatePack env fuel pack lookup = Inr r"
  shows "\<exists>fuel' c. composeGatePack env fuel' ancestor lookup = Inr c
    \<and> (\<forall>g \<in> set (pk_gates c). gd_floor g = Some True \<longrightarrow> (\<exists>h \<in> set (pk_gates r). inherits_gate g h))"
  using assms
proof (induction arbitrary: fuel r rule: pack_ancestor.induct)
  case (self p)
  then show ?case using inherits_gate_refl by blast
next
  case (parent p pin q a)
  obtain fuel' c where c: "composeGatePack env fuel' q lookup = Inr c" "applyGateExtends c p = Inr r"
    using compose_parent [OF parent.prems parent.hyps(1,2)] by blast
  obtain fuel'' d where d: "composeGatePack env fuel'' a lookup = Inr d"
    "\<forall>g \<in> set (pk_gates d). gd_floor g = Some True \<longrightarrow> (\<exists>h \<in> set (pk_gates c). inherits_gate g h)"
    using parent.IH [OF c(1)] by blast
  have "\<exists>h \<in> set (pk_gates r). inherits_gate g h"
    if m: "g \<in> set (pk_gates d)" "gd_floor g = Some True" for g
  proof -
    obtain h where h: "h \<in> set (pk_gates c)" "inherits_gate g h" using d(2) m by blast
    then have "gd_floor h = Some True" by (simp add: inherits_gate_def)
    then show ?thesis using applyGateExtends_floors [OF c(2) h(1)] h(2) inherits_gate_trans by blast
  qed
  then show ?case using d(1) by blast
qed

section \<open>A child pack\<close>

definition demo_child :: gate_pack where
  "demo_child = (demo_pack [demo_gate (literal_threshold_of (Fin 3)) LowerIsStricter])
     \<lparr>pk_extends := Some \<lparr>pin_id = ''project:demo'', pin_version = ''1.0.0'', pin_digest = ''1.0.0''\<rparr>\<rparr>"

definition demo_lookup :: pack_lookup where
  "demo_lookup i = Inr (demo_pack [demo_gate (literal_threshold_of (Fin 5)) LowerIsStricter])"

lemma demo_child_composes:
  "\<exists>r. composeGatePack \<lparr>doc_packDigest = pk_version, doc_packValid = (\<lambda>p. True)\<rparr> 1 demo_child demo_lookup = Inr r
     \<and> pk_gates r = [demo_gate (literal_threshold_of (Fin 3)) LowerIsStricter]"
  by (simp add: composeGatePack.simps demo_child_def demo_lookup_def demo_pack_def applyGateExtends_def
      mergeParameter_def mergeParentGate_def mergeMetric_def)
    (simp add: demo_defs tighten_defs)

lemma floor_gates_inherited_witness:
  "inherits_gate (demo_gate (literal_threshold_of (Fin 5)) LowerIsStricter)
     (demo_gate (literal_threshold_of (Fin 3)) LowerIsStricter)"
proof -
  let ?env = "\<lparr>doc_packDigest = pk_version, doc_packValid = (\<lambda>p. True)\<rparr>"
  let ?base = "demo_pack [demo_gate (literal_threshold_of (Fin 5)) LowerIsStricter]"
  obtain r where r: "composeGatePack ?env 1 demo_child demo_lookup = Inr r"
    "pk_gates r = [demo_gate (literal_threshold_of (Fin 3)) LowerIsStricter]"
    using demo_child_composes by blast
  have "pack_ancestor demo_lookup demo_child ?base"
    by (rule pack_ancestor.parent [OF _ _ pack_ancestor.self]) (simp_all add: demo_child_def demo_lookup_def)
  then obtain fuel c where c: "composeGatePack ?env fuel ?base demo_lookup = Inr c"
    "\<forall>g \<in> set (pk_gates c). gd_floor g = Some True \<longrightarrow> (\<exists>h \<in> set (pk_gates r). inherits_gate g h)"
    using floor_gates_inherited [OF _ r(1)] by blast
  have "c = ?base" using c(1) by (simp add: composeGatePack.simps demo_pack_def)
  with c(2) r(2) show ?thesis by (simp add: demo_pack_def demo_gate_def)
qed

end
