(* ===== verification/JobContract.thy ===== *)
theory JobContract
  imports Prelude
begin

text \<open>
  The contract of decision jobs (\<open>src/decision/job-contract.ts\<close> and
  \<open>schemas/decision/DecisionJob.v1.schema.json\<close>): the documents, their validation and the accepted
  revisions of a job. Admission (\<open>admitEntry\<close>: size, depth and time limits of the document) is a
  parameter. Schema integers are \<open>int\<close>. Comparing two canonical JSON texts is equality of the
  documents (theory JsonText).
\<close>

section \<open>Documents\<close>

datatype item_state =
    ItemQueued | ItemRunning | ItemSucceeded | ItemAbstained | ItemReview | ItemUnsupported
  | ItemRetryableFailed | ItemPermanentFailed | ItemCanceled | ItemExpired | ItemExecutionUnknown

definition ITEM_STATES :: "item_state list" where
  "ITEM_STATES =
     [ItemQueued, ItemRunning, ItemSucceeded, ItemAbstained, ItemReview, ItemUnsupported,
      ItemRetryableFailed, ItemPermanentFailed, ItemCanceled, ItemExpired, ItemExecutionUnknown]"

text \<open>The spelling of a state is the key of its count in the summary.\<close>

fun item_state_name :: "item_state \<Rightarrow> string" where
  "item_state_name ItemQueued = ''queued''"
| "item_state_name ItemRunning = ''running''"
| "item_state_name ItemSucceeded = ''succeeded''"
| "item_state_name ItemAbstained = ''abstained''"
| "item_state_name ItemReview = ''review''"
| "item_state_name ItemUnsupported = ''unsupported''"
| "item_state_name ItemRetryableFailed = ''retryable-failed''"
| "item_state_name ItemPermanentFailed = ''permanent-failed''"
| "item_state_name ItemCanceled = ''canceled''"
| "item_state_name ItemExpired = ''expired''"
| "item_state_name ItemExecutionUnknown = ''execution-unknown''"

datatype job_state =
    JobValidating | JobQueued | JobRunning | JobPartiallyCompleted | JobCompleted
  | JobCancelRequested | JobCanceled | JobExpired | JobFailed

datatype attempt_outcome = Dispatched | AttemptSucceeded | AttemptFailed | AttemptUnknown

record attempt_resolution =
  re_method :: string
  re_effectId :: string
  re_reason :: string
  re_receiptDigest :: string

record job_attempt =
  at_id :: string
  at_requestDigest :: string
  at_receiptDigest :: "string option"
  at_reservedTokens :: "int option"
  at_reservedCostMicros :: "int option"
  at_outcome :: attempt_outcome
  at_resolution :: "attempt_resolution option"

record job_item =
  it_id :: string
  it_fingerprint :: string
  it_subjectDigest :: string
  it_definitionDigest :: string
  it_bindingDigest :: string
  it_rulesetDigest :: "string option"
  it_state :: item_state
  it_attempts :: "job_attempt list"
  it_resultDigest :: "string option"
  it_errorCode :: "string option"

record job_scope =
  sp_tenantId :: string
  sp_projectId :: string
  sp_workspaceId :: string
  sp_principalId :: string

record job_budget =
  bd_maxAttempts :: int
  bd_maxTokens :: int
  bd_maxCostMicros :: int
  bd_maxConcurrency :: int

record decision_job =
  jb_id :: string
  jb_scope :: job_scope
  jb_fingerprint :: string
  jb_state :: job_state
  jb_items :: "job_item list"
  jb_summary :: "int dict"
  jb_createdAt :: int
  jb_expiresAt :: int
  jb_budget :: job_budget

datatype job_error = DecisionJobContractError string | JobConflictError string

abbreviation reject :: "string \<Rightarrow> job_error" where
  "reject \<equiv> DecisionJobContractError"

section \<open>The schema\<close>

text \<open>The patterns \<open>^[a-zA-Z0-9][a-zA-Z0-9_-]{0,127}$\<close> and \<open>^sha256:[0-9a-f]{64}$\<close>.\<close>

definition is_alnum :: "char \<Rightarrow> bool" where
  "is_alnum c \<longleftrightarrow> (CHR ''a'' \<le> c \<and> c \<le> CHR ''z'') \<or> (CHR ''A'' \<le> c \<and> c \<le> CHR ''Z'')
     \<or> (CHR ''0'' \<le> c \<and> c \<le> CHR ''9'')"

definition schema_id :: "string \<Rightarrow> bool" where
  "schema_id s \<longleftrightarrow>
     (case s of
        [] \<Rightarrow> False
      | c # cs \<Rightarrow> is_alnum c \<and> length cs \<le> 127
                  \<and> list_all (\<lambda>d. is_alnum d \<or> d = CHR ''_'' \<or> d = CHR ''-'') cs)"

definition schema_digest :: "string \<Rightarrow> bool" where
  "schema_digest s \<longleftrightarrow>
     take 7 s = ''sha256:'' \<and> length s = 71 \<and> list_all (\<lambda>c. c \<in> set ''0123456789abcdef'') (drop 7 s)"

definition opt_all :: "('a \<Rightarrow> bool) \<Rightarrow> 'a option \<Rightarrow> bool" where
  "opt_all P x = (case x of None \<Rightarrow> True | Some v \<Rightarrow> P v)"

definition schema_range :: "int \<Rightarrow> int \<Rightarrow> int \<Rightarrow> bool" where
  "schema_range lo hi n \<longleftrightarrow> lo \<le> n \<and> n \<le> hi"

definition schema_effect_id :: "string \<Rightarrow> bool" where
  "schema_effect_id s \<longleftrightarrow>
     take 5 s = ''eff1_'' \<and> length s = 57
     \<and> list_all (\<lambda>c. (CHR ''a'' \<le> c \<and> c \<le> CHR ''z'') \<or> (CHR ''2'' \<le> c \<and> c \<le> CHR ''7'')) (drop 5 s)
     \<and> last s \<in> {CHR ''a'', CHR ''q''}"

definition schema_resolution :: "attempt_resolution \<Rightarrow> bool" where
  "schema_resolution r \<longleftrightarrow>
     re_method r = ''effect-ledger'' \<and> schema_effect_id (re_effectId r) \<and> re_reason r = ''digest-match''
     \<and> schema_digest (re_receiptDigest r)"

definition schema_attempt :: "job_attempt \<Rightarrow> bool" where
  "schema_attempt a \<longleftrightarrow>
     schema_id (at_id a) \<and> schema_digest (at_requestDigest a) \<and> opt_all schema_digest (at_receiptDigest a)
     \<and> opt_all (schema_range 0 10000000) (at_reservedTokens a)
     \<and> opt_all (schema_range 0 1000000000) (at_reservedCostMicros a)
     \<and> opt_all schema_resolution (at_resolution a)"

definition schema_item :: "job_item \<Rightarrow> bool" where
  "schema_item it \<longleftrightarrow>
     schema_id (it_id it) \<and> schema_digest (it_fingerprint it) \<and> schema_digest (it_subjectDigest it)
     \<and> schema_digest (it_definitionDigest it) \<and> schema_digest (it_bindingDigest it)
     \<and> opt_all schema_digest (it_rulesetDigest it)
     \<and> length (it_attempts it) \<le> 1000 \<and> list_all schema_attempt (it_attempts it)
     \<and> opt_all schema_digest (it_resultDigest it) \<and> opt_all schema_id (it_errorCode it)"

definition schema_budget :: "job_budget \<Rightarrow> bool" where
  "schema_budget b \<longleftrightarrow>
     schema_range 1 1000 (bd_maxAttempts b) \<and> schema_range 1 10000000 (bd_maxTokens b)
     \<and> schema_range 1 1000000000 (bd_maxCostMicros b) \<and> schema_range 1 128 (bd_maxConcurrency b)"

definition schema_scope :: "job_scope \<Rightarrow> bool" where
  "schema_scope s \<longleftrightarrow>
     schema_id (sp_tenantId s) \<and> schema_id (sp_projectId s) \<and> schema_id (sp_workspaceId s)
     \<and> schema_id (sp_principalId s)"

definition schema_job :: "decision_job \<Rightarrow> bool" where
  "schema_job job \<longleftrightarrow>
     schema_id (jb_id job) \<and> schema_scope (jb_scope job) \<and> schema_digest (jb_fingerprint job)
     \<and> 1 \<le> length (jb_items job) \<and> length (jb_items job) \<le> 1000 \<and> list_all schema_item (jb_items job)
     \<and> jb_summary job \<noteq> [] \<and> list_all (\<lambda>(k, n). 0 \<le> n) (jb_summary job)
     \<and> 0 \<le> jb_createdAt job \<and> 1 \<le> jb_expiresAt job \<and> schema_budget (jb_budget job)"

section \<open>Validation of a job\<close>

text \<open>A string member is truthy when it is present and not empty.\<close>

definition truthy :: "string option \<Rightarrow> bool" where
  "truthy s \<longleftrightarrow> s \<noteq> None \<and> s \<noteq> Some []"

definition RESULT_STATES :: "item_state list" where
  "RESULT_STATES = [ItemSucceeded, ItemAbstained, ItemReview]"

definition validResolution :: "job_attempt \<Rightarrow> bool" where
  "validResolution a =
     (case at_resolution a of
        None \<Rightarrow> True
      | Some r \<Rightarrow> re_method r = ''effect-ledger'' \<and> re_reason r = ''digest-match''
          \<and> at_outcome a = AttemptSucceeded \<and> truthy (at_receiptDigest a)
          \<and> Some (re_receiptDigest r) = at_receiptDigest a)"

text \<open>\<open>actual[state]\<close> after the loop over the items.\<close>

definition state_count :: "job_item list \<Rightarrow> item_state \<Rightarrow> int" where
  "state_count items s = int (length (filter (\<lambda>it. it_state it = s) items))"

fun checkAttempt :: "int \<times> int \<Rightarrow> job_attempt \<Rightarrow> job_error + int \<times> int" where
  "checkAttempt (tokens, cost) a =
     (let tokens' = tokens + opt_default (at_reservedTokens a) 0;
          cost' = cost + opt_default (at_reservedCostMicros a) 0
      in thenR (checks
        [((at_reservedTokens a = None) \<noteq> (at_reservedCostMicros a = None), reject ''incomplete job reservation''),
         (\<not> safe_int tokens' \<or> \<not> safe_int cost', reject ''job reservation overflow''),
         (\<not> validResolution a, reject ''unbound execution-unknown resolution'')])
        (Inr (tokens', cost')))"

definition has_receipt :: "job_attempt \<Rightarrow> bool" where
  "has_receipt a \<longleftrightarrow> at_outcome a = AttemptSucceeded \<and> truthy (at_receiptDigest a)"

definition checkItem ::
    "job_budget \<Rightarrow> string list \<times> int \<times> int \<Rightarrow> job_item \<Rightarrow> job_error + string list \<times> int \<times> int" where
  "checkItem budget acc it =
     (case acc of (ids, reserved) \<Rightarrow>
        thenR (checks
          [(it_id it \<in> set ids, reject ''duplicate job item ID''),
           (int (length (it_attempts it)) > bd_maxAttempts budget \<or> \<not> distinct (map at_id (it_attempts it)),
            reject ''invalid item attempts''),
           (it_state it \<in> set RESULT_STATES
              \<and> (\<not> truthy (it_resultDigest it) \<or> \<not> list_ex has_receipt (it_attempts it)),
            reject ''result item lacks validated receipt''),
           (truthy (it_resultDigest it) \<and> it_state it \<notin> set RESULT_STATES, reject ''invalid item result''),
           (it_state it = ItemExecutionUnknown
              \<and> \<not> list_ex (\<lambda>a. at_outcome a = AttemptUnknown) (it_attempts it),
            reject ''unreconciled item missing attempt'')])
        (bindR (foldR checkAttempt reserved (it_attempts it)) (\<lambda>reserved'. Inr (it_id it # ids, reserved'))))"

definition summary_matches :: "decision_job \<Rightarrow> bool" where
  "summary_matches job \<longleftrightarrow>
     length (jb_summary job) = length ITEM_STATES
     \<and> list_all (\<lambda>s. map_of (jb_summary job) (item_state_name s) = Some (state_count (jb_items job) s)) ITEM_STATES"

definition validateDecisionJob :: "(decision_job \<Rightarrow> bool) \<Rightarrow> decision_job \<Rightarrow> job_error + unit" where
  "validateDecisionJob admits job =
     (let actual = state_count (jb_items job); budget = jb_budget job in
      thenR (checks
        [(\<not> admits job, reject ''job admission denied''),
         (\<not> schema_job job, reject ''invalid decision job schema''),
         (jb_expiresAt job \<le> jb_createdAt job, reject ''invalid job expiry'')])
      (bindR (foldR (checkItem budget) ([], 0, 0) (jb_items job)) (\<lambda>(ids, tokens, cost).
       checks
        [(tokens > bd_maxTokens budget \<or> cost > bd_maxCostMicros budget, reject ''job budget reservation exceeded''),
         (\<not> summary_matches job, reject ''job summary mismatch''),
         (jb_state job \<in> {JobValidating, JobQueued}
            \<and> (actual ItemRunning \<noteq> 0 \<or> actual ItemSucceeded \<noteq> 0 \<or> actual ItemExecutionUnknown \<noteq> 0),
          reject ''unstarted job contains dispatched items''),
         (jb_state job = JobCanceled
            \<and> (actual ItemRunning \<noteq> 0 \<or> actual ItemQueued \<noteq> 0 \<or> actual ItemExecutionUnknown \<noteq> 0),
          reject ''canceled job conceals in-flight ambiguity''),
         (jb_state job = JobCompleted
            \<and> (actual ItemRunning \<noteq> 0 \<or> actual ItemQueued \<noteq> 0 \<or> actual ItemRetryableFailed \<noteq> 0
               \<or> actual ItemExecutionUnknown \<noteq> 0),
          reject ''completed job conceals unfinished items'')])))"

section \<open>Revisions\<close>

fun transitions :: "job_state \<Rightarrow> job_state list" where
  "transitions JobValidating = [JobQueued, JobFailed, JobCanceled, JobExpired]"
| "transitions JobQueued = [JobRunning, JobCancelRequested, JobExpired, JobFailed]"
| "transitions JobRunning =
     [JobRunning, JobPartiallyCompleted, JobCompleted, JobCancelRequested, JobExpired, JobFailed]"
| "transitions JobPartiallyCompleted =
     [JobPartiallyCompleted, JobCompleted, JobCancelRequested, JobExpired, JobFailed]"
| "transitions JobCancelRequested = [JobCanceled, JobPartiallyCompleted, JobFailed, JobExpired]"
| "transitions JobCompleted = []"
| "transitions JobCanceled = []"
| "transitions JobExpired = []"
| "transitions JobFailed = []"

fun itemTransitions :: "item_state \<Rightarrow> item_state list" where
  "itemTransitions ItemQueued = [ItemRunning, ItemCanceled, ItemExpired]"
| "itemTransitions ItemRunning =
     [ItemSucceeded, ItemAbstained, ItemReview, ItemUnsupported, ItemRetryableFailed,
      ItemPermanentFailed, ItemExecutionUnknown, ItemCanceled, ItemExpired]"
| "itemTransitions ItemRetryableFailed = [ItemQueued, ItemRunning, ItemCanceled, ItemExpired]"
| "itemTransitions ItemSucceeded = []"
| "itemTransitions ItemAbstained = []"
| "itemTransitions ItemReview = []"
| "itemTransitions ItemUnsupported = []"
| "itemTransitions ItemPermanentFailed = []"
| "itemTransitions ItemCanceled = []"
| "itemTransitions ItemExpired = []"
| "itemTransitions ItemExecutionUnknown = []"

text \<open>\<open>{ receiptDigest, resolution, outcome, ...rest }\<close>: what remains of an attempt.\<close>

definition attempt_rest :: "job_attempt \<Rightarrow> job_attempt" where
  "attempt_rest a = a\<lparr>at_receiptDigest := None, at_resolution := None, at_outcome := Dispatched\<rparr>"

definition isExecutionUnknownResolution :: "job_item \<Rightarrow> job_item \<Rightarrow> bool" where
  "isExecutionUnknownResolution previous it \<longleftrightarrow>
     it_state previous = ItemExecutionUnknown \<and> it_state it \<in> set RESULT_STATES
     \<and> it_attempts previous \<noteq> [] \<and> it_attempts it \<noteq> []
     \<and> length (it_attempts it) = length (it_attempts previous)
     \<and> (let before = last (it_attempts previous); after = last (it_attempts it) in
         at_outcome before = AttemptUnknown \<and> at_receiptDigest before = None \<and> at_resolution before = None
         \<and> it_resultDigest previous = None \<and> truthy (it_resultDigest it)
         \<and> it_errorCode it = it_errorCode previous
         \<and> butlast (it_attempts previous) = butlast (it_attempts it)
         \<and> at_outcome after = AttemptSucceeded \<and> truthy (at_receiptDigest after)
         \<and> at_resolution after \<noteq> None \<and> validResolution after
         \<and> attempt_rest after = attempt_rest before)"

definition resolutionOnly :: "decision_job \<Rightarrow> decision_job \<Rightarrow> bool" where
  "resolutionOnly before after \<longleftrightarrow>
     jb_state before = jb_state after \<and> length (jb_items before) = length (jb_items after)
     \<and> list_all (\<lambda>(previous, it). it_id it = it_id previous
          \<and> (isExecutionUnknownResolution previous it \<or> previous = it)) (zip (jb_items before) (jb_items after))
     \<and> list_ex (\<lambda>(previous, it). isExecutionUnknownResolution previous it) (zip (jb_items before) (jb_items after))"

definition samePins :: "job_item \<Rightarrow> job_item \<Rightarrow> bool" where
  "samePins previous it \<longleftrightarrow>
     it_fingerprint previous = it_fingerprint it \<and> it_subjectDigest previous = it_subjectDigest it
     \<and> it_definitionDigest previous = it_definitionDigest it \<and> it_bindingDigest previous = it_bindingDigest it
     \<and> it_rulesetDigest previous = it_rulesetDigest it"

text \<open>The one way an attempt of the previous revision may change: the dispatched last attempt of a
  running item settles, and the item's new state says how.\<close>

definition attemptSettles :: "job_item \<Rightarrow> job_item \<Rightarrow> nat \<Rightarrow> bool" where
  "attemptSettles previous it index \<longleftrightarrow>
     (let a = it_attempts previous ! index; b = it_attempts it ! index in
      it_state previous = ItemRunning \<and> Suc index = length (it_attempts previous)
      \<and> at_outcome a = Dispatched
      \<and> (at_outcome b = AttemptUnknown \<and> it_state it = ItemExecutionUnknown
         \<or> at_outcome b = AttemptSucceeded \<and> it_state it \<in> set RESULT_STATES \<and> truthy (at_receiptDigest b)
         \<or> at_outcome b = AttemptFailed
           \<and> it_state it \<in> {ItemRetryableFailed, ItemPermanentFailed, ItemUnsupported})
      \<and> at_id a = at_id b \<and> at_requestDigest a = at_requestDigest b
      \<and> at_reservedTokens a = at_reservedTokens b \<and> at_reservedCostMicros a = at_reservedCostMicros b
      \<and> (at_outcome b = AttemptUnknown \<longrightarrow> \<not> truthy (at_receiptDigest b)))"

definition settled_states :: "item_state list" where
  "settled_states =
     [ItemSucceeded, ItemAbstained, ItemReview, ItemUnsupported, ItemPermanentFailed, ItemCanceled,
      ItemExpired, ItemExecutionUnknown]"

definition illegalItemTransition :: "job_item \<Rightarrow> job_item \<Rightarrow> bool" where
  "illegalItemTransition previous it \<longleftrightarrow>
     (it_state previous \<noteq> it_state it \<and> it_state it \<notin> set (itemTransitions (it_state previous)))
     \<or> length (it_attempts it) < length (it_attempts previous)
     \<or> length (it_attempts it) > length (it_attempts previous) + 1
     \<or> (length (it_attempts it) > length (it_attempts previous)
        \<and> \<not> (it_state it = ItemRunning \<and> it_state previous \<in> {ItemQueued, ItemRetryableFailed}
             \<and> at_outcome (last (it_attempts it)) = Dispatched))
     \<or> (it_state previous \<in> set settled_states \<and> length (it_attempts it) \<noteq> length (it_attempts previous))
     \<or> (it_state previous = ItemRunning \<and> it_state it = ItemCanceled
        \<and> list_ex (\<lambda>a. at_outcome a = Dispatched) (it_attempts previous))
     \<or> (it_resultDigest previous \<noteq> None \<and> it_resultDigest it \<noteq> it_resultDigest previous)
     \<or> (it_errorCode previous \<noteq> None \<and> it_errorCode it \<noteq> it_errorCode previous)
     \<or> (it_state previous = it_state it
        \<and> (it_resultDigest previous \<noteq> it_resultDigest it \<or> it_errorCode previous \<noteq> it_errorCode it))
     \<or> list_ex (\<lambda>index. it_attempts previous ! index \<noteq> it_attempts it ! index
          \<and> \<not> attemptSettles previous it index) [0..<length (it_attempts previous)]"

definition assertItemTransition :: "job_item \<times> job_item \<Rightarrow> job_error + unit" where
  "assertItemTransition pair =
     (case pair of (previous, it) \<Rightarrow>
        checks
          [(it_id it \<noteq> it_id previous, reject ''job item order changed''),
           (\<not> samePins previous it, reject ''illegal item transition, mutated pins or attempt history''),
           (\<not> isExecutionUnknownResolution previous it \<and> illegalItemTransition previous it,
            reject ''illegal item transition, mutated pins or attempt history'')])"

definition assertJobTransition ::
    "(decision_job \<Rightarrow> bool) \<Rightarrow> decision_job \<Rightarrow> decision_job \<Rightarrow> job_error + unit" where
  "assertJobTransition admits before after =
     thenR (validateDecisionJob admits before)
     (thenR (validateDecisionJob admits after)
     (thenR (checks
        [(jb_id before \<noteq> jb_id after \<or> jb_fingerprint before \<noteq> jb_fingerprint after
          \<or> jb_scope before \<noteq> jb_scope after \<or> jb_createdAt before \<noteq> jb_createdAt after
          \<or> jb_expiresAt before \<noteq> jb_expiresAt after \<or> jb_budget before \<noteq> jb_budget after
          \<or> \<not> (jb_state after \<in> set (transitions (jb_state before)) \<or> resolutionOnly before after),
          reject ''illegal job transition or changed identity''),
         (card (set (map it_id (jb_items after))) \<noteq> length (jb_items before)
          \<or> length (jb_items after) \<noteq> length (jb_items before), reject ''job items changed'')])
     (forEach assertItemTransition (zip (jb_items before) (jb_items after)))))"

end
