(* ===== verification/JobInvariants.thy ===== *)
theory JobInvariants
  imports JobContract
begin

text \<open>
  What \<open>validateDecisionJob\<close> and \<open>assertJobTransition\<close> (\<open>src/decision/job-contract.ts\<close>) guarantee:
  the loops of the validation against a reference predicate, and the attempt history of a job along
  its accepted revisions.
\<close>

section \<open>Validation is a reference predicate\<close>

abbreviation overflow :: job_error where
  "overflow \<equiv> reject ''job reservation overflow''"

abbreviation tokens_of :: "job_attempt \<Rightarrow> int" where
  "tokens_of a \<equiv> opt_default (at_reservedTokens a) 0"

abbreviation cost_of :: "job_attempt \<Rightarrow> int" where
  "cost_of a \<equiv> opt_default (at_reservedCostMicros a) 0"

definition item_tokens :: "job_item \<Rightarrow> int" where
  "item_tokens it = sum_list (map tokens_of (it_attempts it))"

definition item_cost :: "job_item \<Rightarrow> int" where
  "item_cost it = sum_list (map cost_of (it_attempts it))"

definition job_tokens :: "decision_job \<Rightarrow> int" where
  "job_tokens job = sum_list (map item_tokens (jb_items job))"

definition job_cost :: "decision_job \<Rightarrow> int" where
  "job_cost job = sum_list (map item_cost (jb_items job))"

definition attempt_sound :: "job_attempt \<Rightarrow> bool" where
  "attempt_sound a \<longleftrightarrow> (at_reservedTokens a = None) = (at_reservedCostMicros a = None) \<and> validResolution a"

definition item_sound :: "job_budget \<Rightarrow> job_item \<Rightarrow> bool" where
  "item_sound budget it \<longleftrightarrow>
     int (length (it_attempts it)) \<le> bd_maxAttempts budget \<and> distinct (map at_id (it_attempts it))
     \<and> (if it_state it \<in> set RESULT_STATES
        then truthy (it_resultDigest it) \<and> list_ex has_receipt (it_attempts it)
        else \<not> truthy (it_resultDigest it))
     \<and> \<not> (it_state it = ItemExecutionUnknown \<and> \<not> list_ex (\<lambda>a. at_outcome a = AttemptUnknown) (it_attempts it))
     \<and> list_all attempt_sound (it_attempts it)"

lemma schema_attempt_range:
  assumes "schema_attempt a"
  shows "0 \<le> tokens_of a" "tokens_of a \<le> 10000000" "0 \<le> cost_of a" "cost_of a \<le> 1000000000"
  using assms
  by (auto simp: schema_attempt_def schema_range_def opt_all_def split: option.splits)

lemma sum_list_range:
  assumes "\<And>x. x \<in> set xs \<Longrightarrow> 0 \<le> f x \<and> f x \<le> (b::int)"
  shows "0 \<le> sum_list (map f xs)" and "sum_list (map f xs) \<le> int (length xs) * b"
  using assms
proof (induction xs)
  case Nil
  { case 1 show ?case by simp }
  { case 2 show ?case by simp }
next
  case (Cons x xs)
  { case 1
    then show ?case using Cons.IH(1) by (simp add: add_nonneg_nonneg) }
  { case 2
    then have "sum_list (map f xs) \<le> int (length xs) * b" "f x \<le> b" using Cons.IH(2) by auto
    then show ?case by (simp add: algebra_simps) }
qed

lemma schema_item_range:
  assumes "schema_item it"
  shows "0 \<le> item_tokens it" "item_tokens it \<le> 10000000000" "0 \<le> item_cost it" "item_cost it \<le> 1000000000000"
proof -
  have a: "schema_attempt a" if "a \<in> set (it_attempts it)" for a
    using assms that by (simp add: schema_item_def list_all_iff)
  have l: "int (length (it_attempts it)) \<le> 1000" using assms by (simp add: schema_item_def)
  note t = sum_list_range [of "it_attempts it" tokens_of 10000000]
  note c = sum_list_range [of "it_attempts it" cost_of 1000000000]
  show "0 \<le> item_tokens it" "0 \<le> item_cost it"
    using t(1) c(1) schema_attempt_range a by (auto simp: item_tokens_def item_cost_def)
  have "item_tokens it \<le> int (length (it_attempts it)) * 10000000"
    using t(2) schema_attempt_range a by (simp add: item_tokens_def)
  then show "item_tokens it \<le> 10000000000" using l by linarith
  have "item_cost it \<le> int (length (it_attempts it)) * 1000000000"
    using c(2) schema_attempt_range a by (simp add: item_cost_def)
  then show "item_cost it \<le> 1000000000000" using l by linarith
qed

lemma schema_job_range:
  assumes "schema_job job"
  shows "0 \<le> job_tokens job" "job_tokens job \<le> 10000000000000"
    "0 \<le> job_cost job" "job_cost job \<le> 1000000000000000"
proof -
  have a: "schema_item it" if "it \<in> set (jb_items job)" for it
    using assms that by (simp add: schema_job_def list_all_iff)
  have l: "int (length (jb_items job)) \<le> 1000" using assms by (simp add: schema_job_def)
  note t = sum_list_range [of "jb_items job" item_tokens 10000000000]
  note c = sum_list_range [of "jb_items job" item_cost 1000000000000]
  show "0 \<le> job_tokens job" "0 \<le> job_cost job"
    using t(1) c(1) schema_item_range a by (auto simp: job_tokens_def job_cost_def)
  have "job_tokens job \<le> int (length (jb_items job)) * 10000000000"
    using t(2) schema_item_range a by (simp add: job_tokens_def)
  then show "job_tokens job \<le> 10000000000000" using l by linarith
  have "job_cost job \<le> int (length (jb_items job)) * 1000000000000"
    using c(2) schema_item_range a by (simp add: job_cost_def)
  then show "job_cost job \<le> 1000000000000000" using l by linarith
qed

text \<open>The loop over the attempts: with non-negative reservations the intermediate sums are safe when
  the last one is.\<close>

lemma checkAttempt_safe:
  assumes "safe_int (t + tokens_of a)" and "safe_int (c + cost_of a)"
  shows "checkAttempt (t, c) a = Inr r \<longleftrightarrow> attempt_sound a \<and> r = (t + tokens_of a, c + cost_of a)"
  using assms by (auto simp: attempt_sound_def Let_def)

lemma checkAttempts_iff:
  assumes "list_all schema_attempt as" and "0 \<le> t" and "0 \<le> c"
    and "t + sum_list (map tokens_of as) \<le> max_safe_integer"
    and "c + sum_list (map cost_of as) \<le> max_safe_integer"
  shows "foldR checkAttempt (t, c) as = Inr r \<longleftrightarrow>
    list_all attempt_sound as \<and> r = (t + sum_list (map tokens_of as), c + sum_list (map cost_of as))"
  using assms
proof (induction as arbitrary: t c)
  case Nil
  then show ?case by auto
next
  case (Cons a as)
  have nn: "0 \<le> sum_list (map tokens_of as)" "0 \<le> sum_list (map cost_of as)"
    using Cons.prems(1) schema_attempt_range
    by (auto intro!: sum_list_nonneg simp: list_all_iff)
  note ra = schema_attempt_range [of a]
  have a: "schema_attempt a" using Cons.prems(1) by simp
  have safe: "safe_int (t + tokens_of a)" "safe_int (c + cost_of a)"
    using Cons.prems nn ra [OF a] by (auto simp: safe_int_def)
  show ?case
    using Cons.IH [of "t + tokens_of a" "c + cost_of a"] Cons.prems ra [OF a]
    by (auto simp: checkAttempt_safe [OF safe] add.assoc simp del: checkAttempt.simps)
qed

lemma checkItem_iff:
  assumes "schema_item it" and "0 \<le> t" and "0 \<le> c"
    and "t + item_tokens it \<le> max_safe_integer" and "c + item_cost it \<le> max_safe_integer"
  shows "checkItem budget (ids, t, c) it = Inr r \<longleftrightarrow>
    it_id it \<notin> set ids \<and> item_sound budget it \<and> r = (it_id it # ids, t + item_tokens it, c + item_cost it)"
proof -
  have s: "list_all schema_attempt (it_attempts it)" using assms(1) by (simp add: schema_item_def)
  note F = checkAttempts_iff [OF s assms(2,3), folded item_tokens_def item_cost_def, OF assms(4,5)]
  show ?thesis
    by (auto simp: checkItem_def F item_sound_def checks_Inr_iff simp del: checks.simps)
qed

lemma checkItems_iff:
  assumes "list_all schema_item items" and "0 \<le> t" and "0 \<le> c"
    and "t + sum_list (map item_tokens items) \<le> max_safe_integer"
    and "c + sum_list (map item_cost items) \<le> max_safe_integer"
  shows "(\<exists>ids'. foldR (checkItem budget) (ids, t, c) items = Inr (ids', t', c')) \<longleftrightarrow>
    distinct (map it_id items) \<and> set (map it_id items) \<inter> set ids = {}
    \<and> list_all (item_sound budget) items
    \<and> t' = t + sum_list (map item_tokens items) \<and> c' = c + sum_list (map item_cost items)"
  using assms
proof (induction items arbitrary: ids t c)
  case Nil
  then show ?case by auto
next
  case (Cons it items)
  have nn: "0 \<le> sum_list (map item_tokens items)" "0 \<le> sum_list (map item_cost items)"
    using Cons.prems(1) schema_item_range by (auto intro!: sum_list_nonneg simp: list_all_iff)
  have s: "schema_item it" using Cons.prems(1) by simp
  note ri = schema_item_range [OF s]
  have F: "checkItem budget (ids, t, c) it = Inr r \<longleftrightarrow>
    it_id it \<notin> set ids \<and> item_sound budget it \<and> r = (it_id it # ids, t + item_tokens it, c + item_cost it)" for r
    using Cons.prems nn ri by (intro checkItem_iff [OF s]) auto
  show ?case
    using Cons.IH [of "t + item_tokens it" "c + item_cost it" "it_id it # ids"] Cons.prems ri
    by (auto simp: F add.assoc)
qed

text \<open>Nor does the overflow check fire.\<close>

lemma checkAttempts_no_overflow:
  assumes "list_all schema_attempt as" and "0 \<le> t" and "0 \<le> c"
    and "t + sum_list (map tokens_of as) \<le> max_safe_integer"
    and "c + sum_list (map cost_of as) \<le> max_safe_integer"
  shows "foldR checkAttempt (t, c) as \<noteq> Inl overflow"
  using assms
proof (induction as arbitrary: t c)
  case Nil
  then show ?case by simp
next
  case (Cons a as)
  have nn: "0 \<le> sum_list (map tokens_of as)" "0 \<le> sum_list (map cost_of as)"
    using Cons.prems(1) schema_attempt_range
    by (auto intro!: sum_list_nonneg simp: list_all_iff)
  have a: "schema_attempt a" using Cons.prems(1) by simp
  note ra = schema_attempt_range [OF a]
  have safe: "safe_int (t + tokens_of a)" "safe_int (c + cost_of a)"
    using Cons.prems nn ra by (auto simp: safe_int_def)
  have "checkAttempt (t, c) a \<noteq> Inl overflow" using safe by (simp add: Let_def thenR_Inl_iff)
  moreover have "foldR checkAttempt (t + tokens_of a, c + cost_of a) as \<noteq> Inl overflow"
    using Cons.prems ra by (intro Cons.IH) auto
  ultimately show ?case
    using checkAttempt_safe [OF safe] by (auto simp: bindR_Inl_iff simp del: checkAttempt.simps)
qed

lemma checkItem_no_overflow:
  assumes "schema_item it" and "0 \<le> t" and "0 \<le> c"
    and "t + item_tokens it \<le> max_safe_integer" and "c + item_cost it \<le> max_safe_integer"
  shows "checkItem budget (ids, t, c) it \<noteq> Inl overflow"
proof
  assume "checkItem budget (ids, t, c) it = Inl overflow"
  then have "foldR checkAttempt (t, c) (it_attempts it) = Inl overflow"
    by (auto simp: checkItem_def thenR_Inl_iff bindR_Inl_iff dest!: checks_InlD simp del: checks.simps)
  then show False
    using checkAttempts_no_overflow [of "it_attempts it" t c] assms
    by (simp add: schema_item_def item_tokens_def item_cost_def)
qed

lemma checkItems_no_overflow:
  assumes "list_all schema_item items" and "0 \<le> t" and "0 \<le> c"
    and "t + sum_list (map item_tokens items) \<le> max_safe_integer"
    and "c + sum_list (map item_cost items) \<le> max_safe_integer"
  shows "foldR (checkItem budget) (ids, t, c) items \<noteq> Inl overflow"
  using assms
proof (induction items arbitrary: ids t c)
  case Nil
  then show ?case by simp
next
  case (Cons it items)
  have nn: "0 \<le> sum_list (map item_tokens items)" "0 \<le> sum_list (map item_cost items)"
    using Cons.prems(1) schema_item_range by (auto intro!: sum_list_nonneg simp: list_all_iff)
  have s: "schema_item it" using Cons.prems(1) by simp
  note ri = schema_item_range [OF s]
  have le: "t + item_tokens it \<le> max_safe_integer" "c + item_cost it \<le> max_safe_integer"
    using Cons.prems nn by auto
  have "foldR (checkItem budget) (it_id it # ids, t + item_tokens it, c + item_cost it) items \<noteq> Inl overflow"
    using Cons.prems ri by (intro Cons.IH) auto
  then show ?case
    using checkItem_no_overflow [OF s Cons.prems(2,3) le] checkItem_iff [OF s Cons.prems(2,3) le]
    by (auto simp: bindR_Inl_iff)
qed

definition state_consistent :: "decision_job \<Rightarrow> bool" where
  "state_consistent job \<longleftrightarrow>
     (let n = state_count (jb_items job) in
      case jb_state job of
        JobValidating \<Rightarrow> n ItemRunning = 0 \<and> n ItemSucceeded = 0 \<and> n ItemExecutionUnknown = 0
      | JobQueued \<Rightarrow> n ItemRunning = 0 \<and> n ItemSucceeded = 0 \<and> n ItemExecutionUnknown = 0
      | JobCanceled \<Rightarrow> n ItemRunning = 0 \<and> n ItemQueued = 0 \<and> n ItemExecutionUnknown = 0
      | JobCompleted \<Rightarrow> n ItemRunning = 0 \<and> n ItemQueued = 0 \<and> n ItemRetryableFailed = 0
                        \<and> n ItemExecutionUnknown = 0
      | _ \<Rightarrow> True)"

definition job_valid :: "decision_job \<Rightarrow> bool" where
  "job_valid job \<longleftrightarrow>
     schema_job job \<and> jb_createdAt job < jb_expiresAt job \<and> distinct (map it_id (jb_items job))
     \<and> list_all (item_sound (jb_budget job)) (jb_items job)
     \<and> job_tokens job \<le> bd_maxTokens (jb_budget job) \<and> job_cost job \<le> bd_maxCostMicros (jb_budget job)
     \<and> summary_matches job \<and> state_consistent job"

lemma job_items_checked:
  assumes "schema_job job"
  shows "(\<exists>ids. foldR (checkItem (jb_budget job)) ([], 0, 0) (jb_items job) = Inr (ids, t, c)) \<longleftrightarrow>
    distinct (map it_id (jb_items job)) \<and> list_all (item_sound (jb_budget job)) (jb_items job)
    \<and> t = job_tokens job \<and> c = job_cost job"
proof -
  have s: "list_all schema_item (jb_items job)" using assms by (simp add: schema_job_def)
  show ?thesis
    using checkItems_iff [OF s, of 0 0 "jb_budget job" "[]" t c] schema_job_range [OF assms]
    by (simp add: job_tokens_def job_cost_def max_safe_integer_def)
qed

lemma validate_iff: "validateDecisionJob admits job = Inr () \<longleftrightarrow> admits job \<and> job_valid job"
proof (cases "admits job \<and> schema_job job \<and> jb_createdAt job < jb_expiresAt job")
  case False
  then show ?thesis by (auto simp: validateDecisionJob_def Let_def job_valid_def not_less)
next
  case True
  then have s: "schema_job job" by simp
  let ?rest = "\<lambda>t c. t \<le> bd_maxTokens (jb_budget job) \<and> c \<le> bd_maxCostMicros (jb_budget job)
      \<and> summary_matches job \<and> state_consistent job"
  have "validateDecisionJob admits job = Inr () \<longleftrightarrow>
     (\<exists>ids t c. foldR (checkItem (jb_budget job)) ([], 0, 0) (jb_items job) = Inr (ids, t, c) \<and> ?rest t c)"
    using True
    by (cases "jb_state job")
      (auto simp: validateDecisionJob_def Let_def checks_Inr_iff state_consistent_def not_less
        simp del: checks.simps)
  also have "\<dots> \<longleftrightarrow> job_valid job"
  proof
    assume "\<exists>ids t c. foldR (checkItem (jb_budget job)) ([], 0, 0) (jb_items job) = Inr (ids, t, c) \<and> ?rest t c"
    then obtain t c where
      "\<exists>ids. foldR (checkItem (jb_budget job)) ([], 0, 0) (jb_items job) = Inr (ids, t, c)" "?rest t c"
      by blast
    then show "job_valid job" using True by (simp add: job_valid_def job_items_checked [OF s])
  next
    assume v: "job_valid job"
    then have "\<exists>ids. foldR (checkItem (jb_budget job)) ([], 0, 0) (jb_items job)
        = Inr (ids, job_tokens job, job_cost job)"
      by (simp add: job_valid_def job_items_checked [OF s])
    then show "\<exists>ids t c. foldR (checkItem (jb_budget job)) ([], 0, 0) (jb_items job) = Inr (ids, t, c) \<and> ?rest t c"
      using v by (auto simp: job_valid_def)
  qed
  finally show ?thesis using True by simp
qed

text \<open>Validation computes a reference predicate. The loop over items and attempts, with its
  running sums and sets, accepts exactly the admitted, schema-conforming jobs that expire after
  they are created, have distinct items, sound items and attempts, reservations within the budget,
  a summary that counts the items and a state consistent with the counts. On a job that conforms
  to the schema the running sums stay safe integers, so the overflow check never fires.\<close>

theorem validateDecisionJob_iff:
  "(validateDecisionJob admits job = Inr () \<longleftrightarrow> admits job \<and> job_valid job)
   \<and> validateDecisionJob admits job \<noteq> Inl (reject ''job reservation overflow'')"
proof
  show "validateDecisionJob admits job = Inr () \<longleftrightarrow> admits job \<and> job_valid job" by (rule validate_iff)
  show "validateDecisionJob admits job \<noteq> Inl overflow"
  proof
    assume v: "validateDecisionJob admits job = Inl overflow"
    then have "foldR (checkItem (jb_budget job)) ([], 0, 0) (jb_items job) = Inl overflow"
      and s: "schema_job job"
      by (auto simp: validateDecisionJob_def Let_def thenR_Inl_iff bindR_Inl_iff checks_Inr_iff
          dest!: checks_InlD simp del: checks.simps)
    moreover have "list_all schema_item (jb_items job)" using s by (simp add: schema_job_def)
    ultimately show False
      using checkItems_no_overflow [of "jb_items job" 0 0 "jb_budget job" "[]"] schema_job_range [OF s]
      by (simp add: job_tokens_def job_cost_def max_safe_integer_def)
  qed
qed

end
