(* ===== verification/JobHistory.thy ===== *)
theory JobHistory
  imports JobInvariants
begin

text \<open>
  The accepted revisions of a job (\<open>assertJobTransition\<close>, \<open>src/decision/job-contract.ts\<close>) and the
  abstract history they implement: attempts are appended and settle once, final items never change,
  and what was reserved stays reserved.
\<close>

section \<open>The abstract history\<close>

text \<open>How an attempt may develop: a dispatched attempt settles; an unknown one is resolved to a
  success with a recorded resolution; everything else is immutable.\<close>

definition attempt_evolves :: "job_attempt \<Rightarrow> job_attempt \<Rightarrow> bool" where
  "attempt_evolves a b \<longleftrightarrow>
     at_id b = at_id a \<and> at_requestDigest b = at_requestDigest a
     \<and> at_reservedTokens b = at_reservedTokens a \<and> at_reservedCostMicros b = at_reservedCostMicros a
     \<and> (b = a \<or> at_outcome a = Dispatched \<and> at_outcome b \<noteq> Dispatched
        \<or> at_outcome a = AttemptUnknown \<and> at_outcome b = AttemptSucceeded \<and> at_resolution b \<noteq> None)"

definition final_states :: "item_state set" where
  "final_states = {ItemSucceeded, ItemAbstained, ItemReview, ItemUnsupported, ItemPermanentFailed,
     ItemCanceled, ItemExpired}"

definition item_evolves :: "job_item \<Rightarrow> job_item \<Rightarrow> bool" where
  "item_evolves p q \<longleftrightarrow>
     it_id q = it_id p \<and> samePins p q
     \<and> length (it_attempts p) \<le> length (it_attempts q)
     \<and> (\<forall>i < length (it_attempts p). attempt_evolves (it_attempts p ! i) (it_attempts q ! i))
     \<and> (it_state p \<in> final_states \<longrightarrow> q = p)
     \<and> (it_state p = ItemExecutionUnknown \<longrightarrow> q = p \<or> isExecutionUnknownResolution p q)"

definition job_evolves :: "decision_job \<Rightarrow> decision_job \<Rightarrow> bool" where
  "job_evolves before after \<longleftrightarrow>
     jb_id after = jb_id before \<and> jb_scope after = jb_scope before
     \<and> jb_fingerprint after = jb_fingerprint before \<and> jb_createdAt after = jb_createdAt before
     \<and> jb_expiresAt after = jb_expiresAt before \<and> jb_budget after = jb_budget before
     \<and> list_all2 item_evolves (jb_items before) (jb_items after)"

lemma attempt_evolves_refl: "attempt_evolves a a"
  by (simp add: attempt_evolves_def)

lemma attempt_evolves_trans: "attempt_evolves a b \<Longrightarrow> attempt_evolves b c \<Longrightarrow> attempt_evolves a c"
  by (auto simp: attempt_evolves_def)

lemma item_evolves_refl: "item_evolves p p"
  by (simp add: item_evolves_def samePins_def attempt_evolves_refl)

lemma resolution_final:
  assumes "isExecutionUnknownResolution p q"
  shows "it_state q \<in> final_states"
  using assms by (auto simp: isExecutionUnknownResolution_def RESULT_STATES_def final_states_def)

lemma item_evolves_trans:
  assumes "item_evolves p q" and "item_evolves q r"
  shows "item_evolves p r"
proof -
  have res: "r = q" if "isExecutionUnknownResolution p q"
    using assms(2) resolution_final [OF that] by (simp add: item_evolves_def)
  have len: "length (it_attempts p) \<le> length (it_attempts q)" "length (it_attempts q) \<le> length (it_attempts r)"
    using assms by (simp_all add: item_evolves_def)
  have "attempt_evolves (it_attempts p ! i) (it_attempts r ! i)" if i: "i < length (it_attempts p)" for i
  proof (rule attempt_evolves_trans)
    show "attempt_evolves (it_attempts p ! i) (it_attempts q ! i)" using assms(1) i by (simp add: item_evolves_def)
    show "attempt_evolves (it_attempts q ! i) (it_attempts r ! i)"
      using assms(2) i len(1) by (simp add: item_evolves_def)
  qed
  moreover have "r = p" if f: "it_state p \<in> final_states"
    using assms f by (auto simp: item_evolves_def)
  moreover have "r = p \<or> isExecutionUnknownResolution p r" if u: "it_state p = ItemExecutionUnknown"
  proof -
    have "q = p \<or> isExecutionUnknownResolution p q" using assms(1) u by (simp add: item_evolves_def)
    then show ?thesis using assms(2) u res by (auto simp: item_evolves_def)
  qed
  ultimately show ?thesis
    using assms len by (auto simp: item_evolves_def samePins_def)
qed

lemma job_evolves_refl: "job_evolves j j"
  by (simp add: job_evolves_def list_all2_refl item_evolves_refl)

lemma job_evolves_trans: "job_evolves a b \<Longrightarrow> job_evolves b c \<Longrightarrow> job_evolves a c"
  unfolding job_evolves_def by (auto intro: list_all2_trans [rotated] item_evolves_trans)

section \<open>A revision is a step of the history\<close>

lemma settles_evolves: "attemptSettles p q i \<Longrightarrow> attempt_evolves (it_attempts p ! i) (it_attempts q ! i)"
  by (auto simp: attemptSettles_def Let_def attempt_evolves_def)

lemma legal_attempts:
  assumes "\<not> illegalItemTransition p q" and "i < length (it_attempts p)"
  shows "it_attempts q ! i = it_attempts p ! i \<or> attemptSettles p q i"
proof -
  have "\<not> list_ex (\<lambda>index. it_attempts p ! index \<noteq> it_attempts q ! index \<and> \<not> attemptSettles p q index)
      [0..<length (it_attempts p)]"
    using assms(1) unfolding illegalItemTransition_def by (simp only: de_Morgan_disj not_False_eq_True)
  then show ?thesis using assms(2) by (auto simp: list_ex_iff dest!: bspec [of _ _ i])
qed

lemma legal_lengths:
  assumes "\<not> illegalItemTransition p q"
  shows "length (it_attempts p) \<le> length (it_attempts q)"
    and "it_state p \<in> set settled_states \<Longrightarrow> length (it_attempts p) = length (it_attempts q)"
  using assms unfolding illegalItemTransition_def de_Morgan_disj by (simp_all only: not_less) auto

lemma settled_immutable:
  assumes "\<not> illegalItemTransition p q" and "it_state p \<in> set settled_states"
    and "it_id q = it_id p" and "samePins p q"
  shows "q = p"
proof -
  have s: "itemTransitions (it_state p) = []" "it_state p \<noteq> ItemRunning"
    using assms(2) by (auto simp: settled_states_def)
  then have st: "it_state q = it_state p" and "it_resultDigest q = it_resultDigest p"
    "it_errorCode q = it_errorCode p"
    using assms(1) by (auto simp: illegalItemTransition_def)
  moreover have "it_attempts q = it_attempts p"
  proof (rule nth_equalityI)
    show "length (it_attempts q) = length (it_attempts p)" using legal_lengths(2) [OF assms(1,2)] by simp
    fix i assume "i < length (it_attempts q)"
    then show "it_attempts q ! i = it_attempts p ! i"
      using legal_attempts [OF assms(1), of i] legal_lengths(2) [OF assms(1,2)] s(2)
      by (auto simp: attemptSettles_def Let_def)
  qed
  ultimately show ?thesis using assms(3,4) by (simp add: samePins_def)
qed

lemma attempt_rest_fields:
  assumes "attempt_rest a = attempt_rest b"
  shows "at_id a = at_id b" and "at_requestDigest a = at_requestDigest b"
    and "at_reservedTokens a = at_reservedTokens b" and "at_reservedCostMicros a = at_reservedCostMicros b"
  using assms by (cases a; cases b; simp add: attempt_rest_def)+

lemma resolution_attempts:
  assumes "isExecutionUnknownResolution p q" and "i < length (it_attempts p)"
  shows "attempt_evolves (it_attempts p ! i) (it_attempts q ! i)"
proof (cases "Suc i = length (it_attempts p)")
  case True
  have ne: "it_attempts p \<noteq> []" "it_attempts q \<noteq> []" and l: "length (it_attempts q) = length (it_attempts p)"
    using assms(1) by (auto simp: isExecutionUnknownResolution_def)
  have "it_attempts p ! i = last (it_attempts p)" "it_attempts q ! i = last (it_attempts q)"
    using l ne by (simp_all add: last_conv_nth flip: True)
  moreover have "attempt_rest (last (it_attempts q)) = attempt_rest (last (it_attempts p))"
    "at_outcome (last (it_attempts p)) = AttemptUnknown" "at_outcome (last (it_attempts q)) = AttemptSucceeded"
    "at_resolution (last (it_attempts q)) \<noteq> None"
    using assms(1) by (simp_all add: isExecutionUnknownResolution_def Let_def)
  ultimately show ?thesis
    using attempt_rest_fields [of "last (it_attempts q)" "last (it_attempts p)"]
    by (simp add: attempt_evolves_def)
next
  case False
  then have i: "i < length (butlast (it_attempts p))" using assms(2) by simp
  moreover have "butlast (it_attempts p) = butlast (it_attempts q)"
    using assms(1) by (simp add: isExecutionUnknownResolution_def Let_def)
  ultimately have "it_attempts p ! i = it_attempts q ! i" by (metis nth_butlast)
  then show ?thesis by (simp add: attempt_evolves_refl)
qed

lemma item_transition_evolves:
  assumes "assertItemTransition (p, q) = Inr ()"
  shows "item_evolves p q"
proof -
  have a: "it_id q = it_id p" "samePins p q"
    "isExecutionUnknownResolution p q \<or> \<not> illegalItemTransition p q"
    using assms by (auto simp: assertItemTransition_def split: if_splits)
  from a(3) show ?thesis
  proof
    assume r: "isExecutionUnknownResolution p q"
    then have "it_state p \<notin> final_states" "length (it_attempts p) \<le> length (it_attempts q)"
      by (auto simp: isExecutionUnknownResolution_def final_states_def)
    then show ?thesis using r a resolution_attempts by (simp add: item_evolves_def)
  next
    assume l: "\<not> illegalItemTransition p q"
    have "it_state p \<in> final_states \<or> it_state p = ItemExecutionUnknown \<Longrightarrow> q = p"
      by (rule settled_immutable [OF l _ a(1,2)]) (auto simp: final_states_def settled_states_def)
    then show ?thesis
      using l a legal_lengths(1) [OF l] legal_attempts [OF l] settles_evolves
      unfolding item_evolves_def by (metis attempt_evolves_refl)
  qed
qed

lemma transition_evolves:
  assumes "assertJobTransition admits before after = Inr ()"
  shows "job_evolves before after"
proof -
  have l: "length (jb_items before) = length (jb_items after)"
    and f: "forEach assertItemTransition (zip (jb_items before) (jb_items after)) = Inr ()"
    using assms by (auto simp: assertJobTransition_def checks_Inr_iff simp del: checks.simps forEach_Inr_iff)
  have "list_all2 item_evolves (jb_items before) (jb_items after)"
    using l f item_transition_evolves by (auto simp: list_all2_iff)
  then show ?thesis
    using assms by (auto simp: assertJobTransition_def checks_Inr_iff job_evolves_def simp del: checks.simps)
qed

section \<open>Sequences of revisions\<close>

inductive job_revisions :: "(decision_job \<Rightarrow> bool) \<Rightarrow> decision_job \<Rightarrow> decision_job \<Rightarrow> bool" for admits where
  start: "job_revisions admits j j"
| revise: "job_revisions admits j k \<Longrightarrow> assertJobTransition admits k l = Inr () \<Longrightarrow> job_revisions admits j l"

lemma revisions_evolve: "job_revisions admits j k \<Longrightarrow> job_evolves j k"
  by (induction rule: job_revisions.induct)
    (auto intro: job_evolves_refl job_evolves_trans transition_evolves)

lemma transition_valid:
  assumes "assertJobTransition admits before after = Inr ()"
  shows "job_valid before" and "job_valid after"
  using assms by (simp_all add: assertJobTransition_def validate_iff)

lemma revisions_valid: "job_revisions admits j k \<Longrightarrow> job_valid j \<Longrightarrow> job_valid k"
  by (induction rule: job_revisions.induct) (auto dest: transition_valid)

lemma evolves_item_sums:
  assumes "item_evolves p q" and "schema_item q"
  shows "item_tokens p \<le> item_tokens q" and "item_cost p \<le> item_cost q"
proof -
  let ?n = "length (it_attempts p)"
  let ?xs = "take ?n (it_attempts q)" and ?ys = "drop ?n (it_attempts q)"
  have l: "?n \<le> length (it_attempts q)" using assms(1) by (simp add: item_evolves_def)
  have "map tokens_of ?xs = map tokens_of (it_attempts p)" "map cost_of ?xs = map cost_of (it_attempts p)"
    using assms(1) l by (auto intro!: nth_equalityI simp: item_evolves_def attempt_evolves_def)
  moreover have "0 \<le> sum_list (map tokens_of ?ys)" "0 \<le> sum_list (map cost_of ?ys)"
    using assms(2) schema_attempt_range
    by (auto intro!: sum_list_nonneg simp: schema_item_def list_all_iff dest!: in_set_dropD)
  moreover have "item_tokens q = sum_list (map tokens_of ?xs) + sum_list (map tokens_of ?ys)"
    "item_cost q = sum_list (map cost_of ?xs) + sum_list (map cost_of ?ys)"
    by (simp_all add: item_tokens_def item_cost_def flip: sum_list_append map_append)
  ultimately show "item_tokens p \<le> item_tokens q" "item_cost p \<le> item_cost q"
    by (simp_all add: item_tokens_def item_cost_def)
qed

lemma sum_list_mono2:
  assumes "list_all2 (\<lambda>x y. f x \<le> (f y::int)) xs ys"
  shows "sum_list (map f xs) \<le> sum_list (map f ys)"
  using assms by (induction rule: list_all2_induct) auto

lemma evolves_job_sums:
  assumes "job_evolves j k" and "schema_job k"
  shows "job_tokens j \<le> job_tokens k" and "job_cost j \<le> job_cost k"
proof -
  have i: "list_all2 item_evolves (jb_items j) (jb_items k)" using assms(1) by (simp add: job_evolves_def)
  have s: "schema_item it" if "it \<in> set (jb_items k)" for it
    using assms(2) that by (simp add: schema_job_def list_all_iff)
  have "list_all2 (\<lambda>p q. item_tokens p \<le> item_tokens q) (jb_items j) (jb_items k)"
    "list_all2 (\<lambda>p q. item_cost p \<le> item_cost q) (jb_items j) (jb_items k)"
    by (auto intro!: list.rel_mono_strong [OF i] intro: evolves_item_sums s)
  then show "job_tokens j \<le> job_tokens k" "job_cost j \<le> job_cost k"
    by (simp_all add: job_tokens_def job_cost_def sum_list_mono2)
qed

text \<open>C10: The history of a job is append-only. Along any sequence of accepted revisions a job keeps
  its identity, scope, budget and pins; every attempt stays at its place with its id, request and
  reservation, and changes only by settling once, or from unknown to a success with a recorded
  resolution; an item in a final state never changes again and an unknown one only by such a
  resolution; reserved tokens and cost never shrink and never exceed the budget.\<close>

theorem job_history_append_only:
  assumes "job_revisions admits j k" and "job_valid j"
  shows "job_evolves j k \<and> job_valid k \<and> job_tokens j \<le> job_tokens k \<and> job_cost j \<le> job_cost k
    \<and> job_tokens k \<le> bd_maxTokens (jb_budget j) \<and> job_cost k \<le> bd_maxCostMicros (jb_budget j)"
proof -
  have e: "job_evolves j k" by (rule revisions_evolve [OF assms(1)])
  have v: "job_valid k" by (rule revisions_valid [OF assms])
  then have "schema_job k" by (simp add: job_valid_def)
  with e v show ?thesis
    using evolves_job_sums [OF e] by (simp add: job_valid_def job_evolves_def)
qed

text \<open>A finished job is closed. Once a job is completed, canceled, expired or failed, an accepted
  revision keeps its state and dispatches nothing: every item is unchanged or is an unknown one
  resolved through a recorded receipt, and at least one item is.\<close>

theorem finished_job_closed:
  assumes "assertJobTransition admits before after = Inr ()"
    and "jb_state before \<in> {JobCompleted, JobCanceled, JobExpired, JobFailed}"
  shows "jb_state after = jb_state before
    \<and> list_all2 (\<lambda>p q. q = p \<or> isExecutionUnknownResolution p q) (jb_items before) (jb_items after)
    \<and> list_ex (\<lambda>(p, q). isExecutionUnknownResolution p q) (zip (jb_items before) (jb_items after))"
proof -
  have "resolutionOnly before after"
    using assms by (auto simp: assertJobTransition_def checks_Inr_iff simp del: checks.simps)
  then show ?thesis
    by (auto simp: resolutionOnly_def list_all2_iff list_all_iff)
qed

section \<open>A concrete job\<close>

definition demo_digest :: string where
  "demo_digest = ''sha256:'' @ replicate 64 (CHR ''0'')"

definition demo_attempt :: "string \<Rightarrow> attempt_outcome \<Rightarrow> job_attempt" where
  "demo_attempt i outcome =
     \<lparr>at_id = i, at_requestDigest = demo_digest, at_receiptDigest = None, at_reservedTokens = Some 3,
      at_reservedCostMicros = Some 5, at_outcome = outcome, at_resolution = None\<rparr>"

definition demo_item :: "item_state \<Rightarrow> job_attempt list \<Rightarrow> job_item" where
  "demo_item state attempts =
     \<lparr>it_id = ''i'', it_fingerprint = demo_digest, it_subjectDigest = demo_digest,
      it_definitionDigest = demo_digest, it_bindingDigest = demo_digest, it_rulesetDigest = None,
      it_state = state, it_attempts = attempts, it_resultDigest = None, it_errorCode = None\<rparr>"

definition demo_budget :: job_budget where
  "demo_budget = \<lparr>bd_maxAttempts = 3, bd_maxTokens = 10, bd_maxCostMicros = 20, bd_maxConcurrency = 1\<rparr>"

definition demo_job :: "job_state \<Rightarrow> job_item list \<Rightarrow> decision_job" where
  "demo_job state items =
     \<lparr>jb_id = ''j'', jb_scope = \<lparr>sp_tenantId = ''t'', sp_projectId = ''p'', sp_workspaceId = ''w'', sp_principalId = ''u''\<rparr>,
      jb_fingerprint = demo_digest, jb_state = state, jb_items = items,
      jb_summary = map (\<lambda>s. (item_state_name s, state_count items s)) ITEM_STATES,
      jb_createdAt = 0, jb_expiresAt = 100,
      jb_budget = demo_budget\<rparr>"

lemma schema_ids [simp]: "schema_id [c] \<longleftrightarrow> is_alnum c"
  by (simp add: schema_id_def)

lemma demo_digest_schema [simp]: "schema_digest demo_digest"
  by (simp add: schema_digest_def demo_digest_def list_all_iff)

lemma alnum_letters [simp]:
  "is_alnum (CHR ''a'')" "is_alnum (CHR ''b'')" "is_alnum (CHR ''i'')" "is_alnum (CHR ''j'')"
  "is_alnum (CHR ''t'')" "is_alnum (CHR ''p'')" "is_alnum (CHR ''w'')" "is_alnum (CHR ''u'')"
  by (simp_all add: is_alnum_def less_eq_char_def)

lemma demo_attempt_schema: "is_alnum c \<Longrightarrow> schema_attempt (demo_attempt [c] o')"
  by (simp add: schema_attempt_def demo_attempt_def opt_all_def schema_range_def)

lemma demo_item_schema:
  "list_all schema_attempt attempts \<Longrightarrow> length attempts \<le> 1000 \<Longrightarrow> schema_item (demo_item st attempts)"
  by (simp add: schema_item_def demo_item_def opt_all_def)

lemma demo_summary: "summary_matches (demo_job st items)"
  by (simp add: summary_matches_def demo_job_def ITEM_STATES_def)

lemma demo_job_schema: "schema_item it \<Longrightarrow> schema_job (demo_job st [it])"
  by (simp add: schema_job_def demo_job_def schema_scope_def schema_budget_def schema_range_def demo_budget_def
      ITEM_STATES_def state_count_def)

lemma demo_job_fields [simp]:
  "jb_state (demo_job st items) = st" "jb_items (demo_job st items) = items"
  "jb_budget (demo_job st items) = demo_budget"
  by (simp_all add: demo_job_def)

lemma demo_job_valid_item:
  assumes "schema_item it" and "item_sound demo_budget it" and "item_tokens it \<le> 10" and "item_cost it \<le> 20"
    and "state_consistent (demo_job jst [it])"
  shows "job_valid (demo_job jst [it])"
proof -
  have "jb_createdAt (demo_job jst [it]) < jb_expiresAt (demo_job jst [it])" by (simp add: demo_job_def)
  moreover have "bd_maxTokens demo_budget = 10" "bd_maxCostMicros demo_budget = 20"
    by (simp_all add: demo_budget_def)
  ultimately show ?thesis
    using assms demo_job_schema [OF assms(1), of jst] demo_summary [of jst "[it]"]
    by (simp add: job_valid_def job_tokens_def job_cost_def)
qed

lemma demo_job_valid:
  assumes "list_all schema_attempt attempts" and "length attempts \<le> 3" and "distinct (map at_id attempts)"
    and "list_all attempt_sound attempts" and "sum_list (map tokens_of attempts) \<le> 10"
    and "sum_list (map cost_of attempts) \<le> 20"
    and "ist \<in> {ItemQueued, ItemRunning, ItemRetryableFailed, ItemCanceled}"
    and "jst \<in> {JobRunning, JobCancelRequested} \<or> jst = JobCanceled \<and> ist = ItemCanceled"
  shows "job_valid (demo_job jst [demo_item ist attempts])"
proof (rule demo_job_valid_item)
  show "item_sound demo_budget (demo_item ist attempts)"
    using assms by (auto simp: item_sound_def demo_budget_def demo_item_def truthy_def RESULT_STATES_def)
  show "state_consistent (demo_job jst [demo_item ist attempts])"
    using assms(8) by (auto simp: state_consistent_def Let_def state_count_def demo_item_def)
qed (use assms in \<open>simp_all add: item_tokens_def item_cost_def demo_item_def demo_item_schema [unfolded demo_item_def]\<close>)

abbreviation in_flight :: job_attempt where
  "in_flight \<equiv> demo_attempt ''a'' Dispatched"

lemma demo_attempt_sound: "attempt_sound (demo_attempt i o')"
  by (simp add: attempt_sound_def demo_attempt_def validResolution_def)

lemma demo_jobs_valid:
  assumes "ist \<in> {ItemQueued, ItemRunning, ItemRetryableFailed, ItemCanceled}"
    and "jst \<in> {JobRunning, JobCancelRequested} \<or> jst = JobCanceled \<and> ist = ItemCanceled"
  shows "job_valid (demo_job jst [demo_item ist []])"
    and "job_valid (demo_job jst [demo_item ist [demo_attempt ''a'' o1]])"
    and "job_valid (demo_job jst [demo_item ist [demo_attempt ''a'' o1, demo_attempt ''b'' o2]])"
proof -
  have f: "at_id (demo_attempt i o') = i" "at_reservedTokens (demo_attempt i o') = Some 3"
    "at_reservedCostMicros (demo_attempt i o') = Some 5" for i o'
    by (simp_all add: demo_attempt_def)
  note v = demo_job_valid [OF _ _ _ _ _ _ assms] and a = demo_attempt_schema demo_attempt_sound f
  show "job_valid (demo_job jst [demo_item ist []])" by (rule v) (simp_all add: a)
  show "job_valid (demo_job jst [demo_item ist [demo_attempt ''a'' o1]])" by (rule v) (simp_all add: a)
  show "job_valid (demo_job jst [demo_item ist [demo_attempt ''a'' o1, demo_attempt ''b'' o2]])"
    by (rule v) (simp_all add: a)
qed

lemma demo_transition:
  assumes "job_valid (demo_job s [p])" and "job_valid (demo_job t [q])" and "t \<in> set (transitions s) \<or> resolutionOnly (demo_job s [p]) (demo_job t [q])"
    and "assertItemTransition (p, q) = Inr ()"
  shows "assertJobTransition (\<lambda>j. True) (demo_job s [p]) (demo_job t [q]) = Inr ()"
proof -
  have "jb_id (demo_job s [p]) = jb_id (demo_job t [q])"
    "jb_fingerprint (demo_job s [p]) = jb_fingerprint (demo_job t [q])"
    "jb_scope (demo_job s [p]) = jb_scope (demo_job t [q])"
    "jb_createdAt (demo_job s [p]) = jb_createdAt (demo_job t [q])"
    "jb_expiresAt (demo_job s [p]) = jb_expiresAt (demo_job t [q])"
    by (simp_all add: demo_job_def)
  then show ?thesis using assms by (simp add: assertJobTransition_def validate_iff)
qed

lemmas demo_item_steps = assertItemTransition_def samePins_def isExecutionUnknownResolution_def
  illegalItemTransition_def settled_states_def demo_item_def demo_attempt_def

text \<open>The contract lets an item be retried beside an attempt that is still in flight. A running
  item may become \<open>retryable-failed\<close> while its last attempt stays \<open>dispatched\<close>; the next revision
  may then dispatch a second attempt, and a cancellation may end in a canceled job that still
  holds the dispatched attempt, although the direct step from running to canceled is refused.\<close>

theorem retry_beside_dispatched_attempt:
  "assertJobTransition (\<lambda>j. True) (demo_job JobRunning [demo_item ItemRunning [in_flight]])
     (demo_job JobRunning [demo_item ItemRetryableFailed [in_flight]]) = Inr ()
   \<and> assertJobTransition (\<lambda>j. True) (demo_job JobRunning [demo_item ItemRetryableFailed [in_flight]])
     (demo_job JobRunning [demo_item ItemRunning [in_flight, demo_attempt ''b'' Dispatched]]) = Inr ()
   \<and> assertJobTransition (\<lambda>j. True) (demo_job JobRunning [demo_item ItemRetryableFailed [in_flight]])
     (demo_job JobCancelRequested [demo_item ItemCanceled [in_flight]]) = Inr ()
   \<and> assertJobTransition (\<lambda>j. True) (demo_job JobCancelRequested [demo_item ItemCanceled [in_flight]])
     (demo_job JobCanceled [demo_item ItemCanceled [in_flight]]) = Inr ()
   \<and> assertJobTransition (\<lambda>j. True) (demo_job JobRunning [demo_item ItemRunning [in_flight]])
     (demo_job JobCancelRequested [demo_item ItemCanceled [in_flight]]) \<noteq> Inr ()"
proof (intro conjI)
  show "assertJobTransition (\<lambda>j. True) (demo_job JobRunning [demo_item ItemRunning [in_flight]])
     (demo_job JobRunning [demo_item ItemRetryableFailed [in_flight]]) = Inr ()"
    by (rule demo_transition [OF demo_jobs_valid(2) demo_jobs_valid(2)]) (simp_all add: demo_item_steps)
  show "assertJobTransition (\<lambda>j. True) (demo_job JobRunning [demo_item ItemRetryableFailed [in_flight]])
     (demo_job JobRunning [demo_item ItemRunning [in_flight, demo_attempt ''b'' Dispatched]]) = Inr ()"
    by (rule demo_transition [OF demo_jobs_valid(2) demo_jobs_valid(3)]) (simp_all add: demo_item_steps)
  show "assertJobTransition (\<lambda>j. True) (demo_job JobRunning [demo_item ItemRetryableFailed [in_flight]])
     (demo_job JobCancelRequested [demo_item ItemCanceled [in_flight]]) = Inr ()"
    by (rule demo_transition [OF demo_jobs_valid(2) demo_jobs_valid(2)]) (simp_all add: demo_item_steps)
  show "assertJobTransition (\<lambda>j. True) (demo_job JobCancelRequested [demo_item ItemCanceled [in_flight]])
     (demo_job JobCanceled [demo_item ItemCanceled [in_flight]]) = Inr ()"
    by (rule demo_transition [OF demo_jobs_valid(2) demo_jobs_valid(2)]) (simp_all add: demo_item_steps)
  have "assertItemTransition (demo_item ItemRunning [in_flight], demo_item ItemCanceled [in_flight]) \<noteq> Inr ()"
    by (simp add: demo_item_steps)
  then show "assertJobTransition (\<lambda>j. True) (demo_job JobRunning [demo_item ItemRunning [in_flight]])
     (demo_job JobCancelRequested [demo_item ItemCanceled [in_flight]]) \<noteq> Inr ()"
    by (simp add: assertJobTransition_def)
qed

text \<open>A job whose item is dispatched, and whose attempt then fails.\<close>

lemma demo_dispatch:
  "assertJobTransition (\<lambda>j. True) (demo_job JobRunning [demo_item ItemQueued []])
     (demo_job JobRunning [demo_item ItemRunning [in_flight]]) = Inr ()"
  by (rule demo_transition [OF demo_jobs_valid(1) demo_jobs_valid(2)]) (simp_all add: demo_item_steps)

lemma demo_settle:
  "assertJobTransition (\<lambda>j. True) (demo_job JobRunning [demo_item ItemRunning [in_flight]])
     (demo_job JobRunning [demo_item ItemRetryableFailed [demo_attempt ''a'' AttemptFailed]]) = Inr ()"
proof (rule demo_transition)
  show "assertItemTransition (demo_item ItemRunning [in_flight],
      demo_item ItemRetryableFailed [demo_attempt ''a'' AttemptFailed]) = Inr ()"
    by (simp add: demo_item_steps attemptSettles_def)
qed (simp_all add: demo_jobs_valid(2))

lemma job_history_append_only_witness:
  "job_tokens (demo_job JobRunning [demo_item ItemQueued []])
     \<le> job_tokens (demo_job JobRunning [demo_item ItemRetryableFailed [demo_attempt ''a'' AttemptFailed]])
   \<and> job_tokens (demo_job JobRunning [demo_item ItemRetryableFailed [demo_attempt ''a'' AttemptFailed]]) \<le> 10"
proof -
  have "job_revisions (\<lambda>j. True) (demo_job JobRunning [demo_item ItemQueued []])
      (demo_job JobRunning [demo_item ItemRetryableFailed [demo_attempt ''a'' AttemptFailed]])"
    by (rule job_revisions.revise [OF job_revisions.revise [OF job_revisions.start demo_dispatch] demo_settle])
  moreover have "job_valid (demo_job JobRunning [demo_item ItemQueued []])" by (simp add: demo_jobs_valid(1))
  ultimately show ?thesis using job_history_append_only by (fastforce simp: demo_budget_def)
qed

text \<open>A failed job whose unknown attempt is resolved.\<close>

definition demo_resolved_attempt :: job_attempt where
  "demo_resolved_attempt = (demo_attempt ''a'' AttemptSucceeded)
     \<lparr>at_receiptDigest := Some demo_digest,
      at_resolution := Some \<lparr>re_method = ''effect-ledger'', re_effectId = ''eff1_'' @ replicate 52 (CHR ''a''),
        re_reason = ''digest-match'', re_receiptDigest = demo_digest\<rparr>\<rparr>"

definition demo_resolved_item :: job_item where
  "demo_resolved_item = (demo_item ItemSucceeded [demo_resolved_attempt])\<lparr>it_resultDigest := Some demo_digest\<rparr>"

lemma demo_truthy: "truthy (Some demo_digest)"
  by (simp add: truthy_def demo_digest_def)

lemma demo_unknown_valid: "job_valid (demo_job JobFailed [demo_item ItemExecutionUnknown [demo_attempt ''a'' AttemptUnknown]])"
proof (rule demo_job_valid_item)
  show "schema_item (demo_item ItemExecutionUnknown [demo_attempt ''a'' AttemptUnknown])"
    by (rule demo_item_schema) (simp_all add: demo_attempt_schema)
qed (simp_all add: item_sound_def demo_item_def demo_attempt_def truthy_def RESULT_STATES_def attempt_sound_def
  validResolution_def item_tokens_def item_cost_def state_consistent_def demo_budget_def)

lemma demo_resolved_valid: "job_valid (demo_job JobFailed [demo_resolved_item])"
proof (rule demo_job_valid_item)
  have "schema_resolution \<lparr>re_method = ''effect-ledger'', re_effectId = ''eff1_'' @ replicate 52 (CHR ''a''),
        re_reason = ''digest-match'', re_receiptDigest = demo_digest\<rparr>"
    by (simp add: schema_resolution_def schema_effect_id_def list_all_iff less_eq_char_def)
  then have "schema_attempt demo_resolved_attempt"
    using demo_attempt_schema [of "CHR ''a''" AttemptSucceeded]
    by (simp add: demo_resolved_attempt_def schema_attempt_def opt_all_def)
  then show "schema_item demo_resolved_item"
    using demo_item_schema [of "[demo_resolved_attempt]" ItemSucceeded]
    by (simp add: demo_resolved_item_def schema_item_def opt_all_def)
qed (simp_all add: item_sound_def demo_resolved_item_def demo_resolved_attempt_def demo_item_def demo_attempt_def
  RESULT_STATES_def attempt_sound_def validResolution_def item_tokens_def item_cost_def state_consistent_def
  demo_budget_def has_receipt_def demo_truthy)

lemma demo_resolution:
  "isExecutionUnknownResolution (demo_item ItemExecutionUnknown [demo_attempt ''a'' AttemptUnknown]) demo_resolved_item"
  by (simp add: isExecutionUnknownResolution_def demo_resolved_item_def demo_resolved_attempt_def demo_item_def
      demo_attempt_def RESULT_STATES_def demo_truthy validResolution_def attempt_rest_def)

lemma finished_job_closed_witness:
  "assertJobTransition (\<lambda>j. True)
     (demo_job JobFailed [demo_item ItemExecutionUnknown [demo_attempt ''a'' AttemptUnknown]])
     (demo_job JobFailed [demo_resolved_item]) = Inr ()
   \<and> jb_state (demo_job JobFailed [demo_resolved_item]) = JobFailed"
proof -
  let ?p = "demo_item ItemExecutionUnknown [demo_attempt ''a'' AttemptUnknown]"
  have i: "it_id ?p = it_id demo_resolved_item" "samePins ?p demo_resolved_item"
    by (simp_all add: demo_resolved_item_def demo_item_def samePins_def)
  have "resolutionOnly (demo_job JobFailed [?p]) (demo_job JobFailed [demo_resolved_item])"
    by (simp add: resolutionOnly_def demo_resolution i)
  then have t: "assertJobTransition (\<lambda>j. True) (demo_job JobFailed [?p]) (demo_job JobFailed [demo_resolved_item]) = Inr ()"
    by (intro demo_transition demo_unknown_valid demo_resolved_valid)
      (simp_all add: assertItemTransition_def demo_resolution i)
  then show ?thesis using finished_job_closed [OF t] by simp
qed

end
