(* ===== verification/JobStore.thy ===== *)
theory JobStore
  imports JobHistory
begin

text \<open>
  Revisioned storage of jobs (\<open>src/decision/job-store.ts\<close>): the rules for a first snapshot and for the
  next one, and the in-memory store. Records are keyed by the canonical JSON of scope and id, which
  is as good as the pair. The contract that both stores offer their client is the locale
  \<open>job_store\<close>; the file store has its own theory.
\<close>

section \<open>Snapshots\<close>

record job_snapshot =
  ss_revision :: int
  ss_job :: decision_job
  ss_deleted :: bool
  ss_legalHold :: "bool option"

definition held :: "job_snapshot \<Rightarrow> bool" where
  "held s \<longleftrightarrow> ss_legalHold s = Some True"

type_synonym job_key = "job_scope \<times> string"

definition job_key_of :: "decision_job \<Rightarrow> job_key" where
  "job_key_of job = (jb_scope job, jb_id job)"

definition initial_snapshot :: "decision_job \<Rightarrow> job_snapshot" where
  "initial_snapshot job = \<lparr>ss_revision = 1, ss_job = job, ss_deleted = False, ss_legalHold = Some False\<rparr>"

definition validateFirst :: "(decision_job \<Rightarrow> bool) \<Rightarrow> decision_job \<Rightarrow> job_error + unit" where
  "validateFirst admits job =
     thenR (validateDecisionJob admits job)
       (checks [(jb_state job \<noteq> JobValidating
                 \<or> list_ex (\<lambda>it. it_state it \<noteq> ItemQueued \<or> it_attempts it \<noteq> []) (jb_items job),
                 JobConflictError ''Initial job must be undispatched'')])"

text \<open>The items by id, in the order of their first occurrence.\<close>

definition collapseItem :: "job_item dict \<Rightarrow> job_item \<Rightarrow> job_error + job_item dict" where
  "collapseItem unique it =
     (case map_of unique (it_id it) of
        None \<Rightarrow> Inr (unique @ [(it_id it, it)])
      | Some previous \<Rightarrow>
          if previous \<noteq> it then Inl (JobConflictError ''Duplicate item ID belongs to different request'')
          else Inr unique)"

definition canonicalizeInitialJob :: "(decision_job \<Rightarrow> bool) \<Rightarrow> decision_job \<Rightarrow> job_error + decision_job" where
  "canonicalizeInitialJob admits job =
     bindR (foldR collapseItem [] (jb_items job)) (\<lambda>unique.
       if length unique = length (jb_items job) then thenR (validateFirst admits job) (Inr job)
       else if jb_state job \<noteq> JobValidating
         \<or> map_of (jb_summary job) ''queued'' \<noteq> Some (int (length (jb_items job)))
         \<or> list_ex (\<lambda>(state, count). state \<noteq> ''queued'' \<and> count \<noteq> 0) (jb_summary job)
       then Inl (JobConflictError ''Duplicate item summary mismatch'')
       else
         (let normalized = job\<lparr>jb_items := map snd unique,
                jb_summary := AList.update ''queued'' (int (length unique)) (jb_summary job)\<rparr>
          in thenR (validateFirst admits normalized) (Inr normalized)))"

text \<open>The immutable members of an item.\<close>

definition item_identity :: "job_item \<Rightarrow> string list \<times> string option" where
  "item_identity it =
     ([it_id it, it_fingerprint it, it_subjectDigest it, it_definitionDigest it, it_bindingDigest it],
      if truthy (it_rulesetDigest it) then it_rulesetDigest it else None)"

definition assertIdentity :: "decision_job \<Rightarrow> decision_job \<Rightarrow> job_error + unit" where
  "assertIdentity initial existing =
     checks
       [(jb_fingerprint initial \<noteq> jb_fingerprint existing
         \<or> map item_identity (jb_items initial) \<noteq> map item_identity (jb_items existing)
         \<or> jb_budget initial \<noteq> jb_budget existing
         \<or> jb_createdAt initial \<noteq> jb_createdAt existing \<or> jb_expiresAt initial \<noteq> jb_expiresAt existing,
         JobConflictError ''Job ID belongs to a different immutable request'')]"

definition validateNext :: "(decision_job \<Rightarrow> bool) \<Rightarrow> job_snapshot \<Rightarrow> job_snapshot \<Rightarrow> job_error + unit" where
  "validateNext admits previous next' =
     thenR (checks
       [(ss_deleted previous \<or> ss_revision next' \<noteq> ss_revision previous + 1
         \<or> (ss_deleted next' \<and> (held previous \<or> held next'
              \<or> jb_state (ss_job next') \<noteq> jb_state (ss_job previous))),
         JobConflictError ''Invalid job revision or tombstone'')])
     (if held previous \<noteq> held next' then
        checks [(ss_deleted next' \<or> ss_job previous \<noteq> ss_job next',
                 JobConflictError ''Legal hold cannot change during job transition'')]
      else if ss_deleted next' then
        checks [(ss_job previous \<noteq> ss_job next', JobConflictError ''Tombstone changed job'')]
      else assertJobTransition admits (ss_job previous) (ss_job next'))"

section \<open>The operations of a store\<close>

record 's job_store_ops =
  so_acquire :: "decision_job \<Rightarrow> 's \<Rightarrow> job_error + (bool \<times> job_snapshot) \<times> 's"
  so_read :: "'s \<Rightarrow> job_scope \<Rightarrow> string \<Rightarrow> job_error + job_snapshot option"
  so_cas :: "job_snapshot \<Rightarrow> job_snapshot \<Rightarrow> 's \<Rightarrow> job_error + bool \<times> 's"

type_synonym memory_records = "(job_key \<times> job_snapshot) list"

definition memory_acquire ::
    "(decision_job \<Rightarrow> bool) \<Rightarrow> decision_job \<Rightarrow> memory_records
     \<Rightarrow> job_error + (bool \<times> job_snapshot) \<times> memory_records" where
  "memory_acquire admits job records =
     bindR (canonicalizeInitialJob admits job) (\<lambda>job.
       case map_of records (job_key_of job) of
         Some existing \<Rightarrow>
           thenR (assertIdentity job (ss_job existing)) (Inr ((False, existing), records))
       | None \<Rightarrow>
           Inr ((True, initial_snapshot job), AList.update (job_key_of job) (initial_snapshot job) records))"

definition memory_read :: "memory_records \<Rightarrow> job_scope \<Rightarrow> string \<Rightarrow> job_error + job_snapshot option" where
  "memory_read records scope i = Inr (map_of records (scope, i))"

definition memory_cas ::
    "(decision_job \<Rightarrow> bool) \<Rightarrow> job_snapshot \<Rightarrow> job_snapshot \<Rightarrow> memory_records
     \<Rightarrow> job_error + bool \<times> memory_records" where
  "memory_cas admits previous next' records =
     thenR (validateNext admits previous next')
       (let k = job_key_of (ss_job previous) in
        if map_of records k \<noteq> Some previous then Inr (False, records)
        else Inr (True, AList.update k next' records))"

definition MemoryJobStore :: "(decision_job \<Rightarrow> bool) \<Rightarrow> memory_records job_store_ops" where
  "MemoryJobStore admits =
     \<lparr>so_acquire = memory_acquire admits, so_read = memory_read, so_cas = memory_cas admits\<rparr>"

section \<open>The contract\<close>

text \<open>What a revision may follow on: the same key, an evolved job, the next number.\<close>

lemma validateNext_revision:
  assumes "validateNext admits previous next' = Inr ()"
  shows "ss_revision next' = ss_revision previous + 1" and "\<not> ss_deleted previous"
    and "job_evolves (ss_job previous) (ss_job next')"
    and "job_valid (ss_job previous) \<Longrightarrow> job_valid (ss_job next')"
    and "job_key_of (ss_job next') = job_key_of (ss_job previous)"
    and "ss_deleted next' \<Longrightarrow> \<not> held previous"
proof -
  have e: "job_evolves (ss_job previous) (ss_job next') \<and> (job_valid (ss_job previous) \<longrightarrow> job_valid (ss_job next'))"
    using assms transition_evolves transition_valid(2) job_evolves_refl
    by (auto simp: validateNext_def split: if_splits)
  then show "job_evolves (ss_job previous) (ss_job next')"
    "job_valid (ss_job previous) \<Longrightarrow> job_valid (ss_job next')"
    "job_key_of (ss_job next') = job_key_of (ss_job previous)"
    by (auto simp: job_evolves_def job_key_of_def)
  show "ss_revision next' = ss_revision previous + 1" "\<not> ss_deleted previous"
    "ss_deleted next' \<Longrightarrow> \<not> held previous"
    using assms by (auto simp: validateNext_def split: if_splits)
qed

text \<open>
  The contract of a job store: \<open>view\<close> is what the store holds under a key, \<open>invar\<close> its invariant. A
  read returns the view; a successful swap replaces exactly the expected snapshot by a valid
  successor; a failed swap and a refused operation change nothing; an acquisition creates a first
  snapshot or returns the one present.
\<close>

definition snapshot_grows :: "job_snapshot \<Rightarrow> job_snapshot \<Rightarrow> bool" where
  "snapshot_grows v v' \<longleftrightarrow>
     job_evolves (ss_job v) (ss_job v') \<and> ss_revision v \<le> ss_revision v'
     \<and> (ss_revision v' = ss_revision v \<longrightarrow> v' = v) \<and> (ss_deleted v \<longrightarrow> v' = v)"

lemma snapshot_grows_refl [simp]: "snapshot_grows v v"
  by (simp add: snapshot_grows_def job_evolves_refl)

lemma snapshot_grows_trans:
  assumes "snapshot_grows u v" and "snapshot_grows v w"
  shows "snapshot_grows u w"
proof -
  have "w = u" if r: "ss_revision w = ss_revision u"
  proof -
    have "ss_revision v = ss_revision u" "ss_revision w = ss_revision v"
      using assms r by (auto simp: snapshot_grows_def)
    then show ?thesis using assms by (simp add: snapshot_grows_def)
  qed
  then show ?thesis
    using assms job_evolves_trans by (auto simp: snapshot_grows_def)
qed

lemma validateNext_grows: "validateNext admits p q = Inr () \<Longrightarrow> snapshot_grows p q"
  using validateNext_revision [of admits p q] by (auto simp: snapshot_grows_def)

text \<open>The history of one record: a path of valid successors.\<close>

definition revises :: "(decision_job \<Rightarrow> bool) \<Rightarrow> job_snapshot \<Rightarrow> job_snapshot \<Rightarrow> bool" where
  "revises admits = (\<lambda>p q. validateNext admits p q = Inr ())\<^sup>*\<^sup>*"

lemma revises_refl [simp]: "revises admits v v"
  by (simp add: revises_def)

lemma revises_trans: "revises admits u v \<Longrightarrow> revises admits v w \<Longrightarrow> revises admits u w"
  by (simp add: revises_def)

lemma revises_step: "validateNext admits p q = Inr () \<Longrightarrow> revises admits p q"
  by (simp add: revises_def r_into_rtranclp)

lemma revises_grows: "revises admits v w \<Longrightarrow> snapshot_grows v w"
  unfolding revises_def
  by (induction rule: rtranclp_induct) (auto intro: snapshot_grows_trans validateNext_grows)

text \<open>A held snapshot has a deleted successor only beyond an explicit release of the hold.\<close>

lemma revises_release:
  assumes "revises admits v w" and "held v" and "\<not> held w \<or> ss_deleted w" and "\<not> ss_deleted v"
  shows "\<exists>p q. revises admits v p \<and> validateNext admits p q = Inr () \<and> held p \<and> \<not> held q
    \<and> ss_job q = ss_job p \<and> \<not> ss_deleted q \<and> revises admits q w"
  using assms(1,3) unfolding revises_def
proof (induction rule: rtranclp_induct)
  case base
  then show ?case using assms(2,4) by simp
next
  case (step p q)
  show ?case
  proof (cases "held p \<and> \<not> ss_deleted p")
    case True
    then have "\<not> ss_deleted q" using validateNext_revision(6) [OF step.hyps(2)] by blast
    moreover from this have "\<not> held q" using step.prems by blast
    moreover from this have "ss_job q = ss_job p"
      using step.hyps(2) True by (auto simp: validateNext_def split: if_splits)
    ultimately show ?thesis using step.hyps True by blast
  next
    case False
    then obtain a b where "(\<lambda>p q. validateNext admits p q = Inr ())\<^sup>*\<^sup>* v a" "validateNext admits a b = Inr ()"
      "held a" "\<not> held b" "ss_job b = ss_job a" "\<not> ss_deleted b"
      "(\<lambda>p q. validateNext admits p q = Inr ())\<^sup>*\<^sup>* b p"
      using step.IH by blast
    then show ?thesis using step.hyps(2) by (meson rtranclp.rtrancl_into_rtrancl)
  qed
qed

locale job_store =
  fixes admits :: "decision_job \<Rightarrow> bool"
    and store :: "'s job_store_ops"
    and view :: "'s \<Rightarrow> job_key \<Rightarrow> job_snapshot option"
    and invar :: "'s \<Rightarrow> bool"
  assumes read_view: "invar s \<Longrightarrow> so_read store s scope i = Inr r \<Longrightarrow> r = view s (scope, i)"
    and view_valid: "invar s \<Longrightarrow> view s k = Some v \<Longrightarrow> job_valid (ss_job v) \<and> job_key_of (ss_job v) = k \<and> 1 \<le> ss_revision v"
    and cas_invar: "invar s \<Longrightarrow> so_cas store p q s = Inr (b, s') \<Longrightarrow> invar s'"
    and cas_true: "invar s \<Longrightarrow> so_cas store p q s = Inr (True, s') \<Longrightarrow>
      validateNext admits p q = Inr () \<and> view s (job_key_of (ss_job p)) = Some p
      \<and> view s' = (view s)(job_key_of (ss_job p) \<mapsto> q)"
    and cas_false: "invar s \<Longrightarrow> so_cas store p q s = Inr (False, s') \<Longrightarrow> view s' = view s"
    and acquire_invar: "invar s \<Longrightarrow> so_acquire store j s = Inr ((b, v), s') \<Longrightarrow> invar s'"
    and acquire_new: "invar s \<Longrightarrow> so_acquire store j s = Inr ((True, v), s') \<Longrightarrow>
      view s (job_key_of (ss_job v)) = None \<and> view s' = (view s)(job_key_of (ss_job v) \<mapsto> v)
      \<and> v = initial_snapshot (ss_job v) \<and> validateFirst admits (ss_job v) = Inr ()"
    and acquire_old: "invar s \<Longrightarrow> so_acquire store j s = Inr ((False, v), s') \<Longrightarrow>
      view s' = view s \<and> view s (job_key_of (ss_job v)) = Some v"
begin

text \<open>How the view of a store develops under its operations: a key keeps its record, which is replaced
  by valid successors only.\<close>

definition view_grows :: "'s \<Rightarrow> 's \<Rightarrow> bool" where
  "view_grows s s' \<longleftrightarrow> (\<forall>k v. view s k = Some v \<longrightarrow> (\<exists>v'. view s' k = Some v' \<and> revises admits v v'))"

lemma view_growsI: "(\<And>k v. view s k = Some v \<Longrightarrow> \<exists>v'. view s' k = Some v' \<and> revises admits v v') \<Longrightarrow> view_grows s s'"
  by (simp add: view_grows_def)

lemma view_grows_refl: "view_grows s s"
  by (auto intro!: view_growsI)

lemma view_grows_trans: "view_grows s t \<Longrightarrow> view_grows t u \<Longrightarrow> view_grows s u"
  unfolding view_grows_def by (meson revises_trans)

lemma cas_grows:
  assumes "invar s" and "so_cas store p q s = Inr (b, s')"
  shows "view_grows s s'"
proof (cases b)
  case True
  with assms(2) have "so_cas store p q s = Inr (True, s')" by simp
  note c = cas_true [OF assms(1) this]
  have "revises admits p q" by (rule revises_step) (use c in blast)
  then show ?thesis using c by (auto intro!: view_growsI)
next
  case False
  with assms(2) have "so_cas store p q s = Inr (False, s')" by simp
  from cas_false [OF assms(1) this] show ?thesis by (auto intro!: view_growsI)
qed

lemma acquire_grows:
  assumes "invar s" and "so_acquire store j s = Inr ((b, v), s')"
  shows "view_grows s s'"
proof (cases b)
  case True
  with assms(2) have "so_acquire store j s = Inr ((True, v), s')" by simp
  from acquire_new [OF assms(1) this] show ?thesis
    by (auto intro!: view_growsI)
next
  case False
  with assms(2) have "so_acquire store j s = Inr ((False, v), s')" by simp
  from acquire_old [OF assms(1) this] show ?thesis by (auto intro!: view_growsI)
qed

text \<open>Of two swaps that expect the same snapshot, at most one succeeds.\<close>

lemma cas_exclusive:
  assumes "invar s" and "so_cas store p q s = Inr (True, s')" and "so_cas store p r s' = Inr (b, s'')"
  shows "\<not> b"
proof
  assume b: b
  have i: "invar s'" by (rule cas_invar [OF assms(1,2)])
  have c: "validateNext admits p q = Inr ()" "view s' = (view s)(job_key_of (ss_job p) \<mapsto> q)"
    using cas_true [OF assms(1,2)] by auto
  have "view s' (job_key_of (ss_job p)) = Some p" using cas_true [OF i, of p r s''] assms(3) b by simp
  then have "q = p" using c(2) by simp
  then show False using validateNext_revision(1) [OF c(1)] by simp
qed

end

section \<open>The memory store keeps the contract\<close>

definition memory_invar :: "memory_records \<Rightarrow> bool" where
  "memory_invar records \<longleftrightarrow>
     (\<forall>k v. map_of records k = Some v \<longrightarrow>
        job_valid (ss_job v) \<and> job_key_of (ss_job v) = k \<and> 1 \<le> ss_revision v)"

lemma validateFirst_valid: "validateFirst admits job = Inr () \<Longrightarrow> job_valid job"
  by (simp add: validateFirst_def validate_iff)

lemma canonicalize_first:
  assumes "canonicalizeInitialJob admits job = Inr j"
  shows "validateFirst admits j = Inr ()"
  using assms by (auto simp: canonicalizeInitialJob_def Let_def split: if_splits)

lemma memory_invarD:
  assumes "memory_invar records" and "map_of records k = Some v"
  shows "job_valid (ss_job v)" and "job_key_of (ss_job v) = k" and "1 \<le> ss_revision v"
  using assms unfolding memory_invar_def by blast+

lemma memory_invar_update:
  assumes "memory_invar records" and "job_valid (ss_job v)" and "job_key_of (ss_job v) = k" and "1 \<le> ss_revision v"
  shows "memory_invar (AList.update k v records)"
  using assms unfolding memory_invar_def update_conv' by auto

lemma memory_cas_Inr:
  assumes "memory_cas admits p q records = Inr (b, records')"
  shows "validateNext admits p q = Inr ()"
    and "b \<longleftrightarrow> map_of records (job_key_of (ss_job p)) = Some p"
    and "records' = (if b then AList.update (job_key_of (ss_job p)) q records else records)"
  using assms by (auto simp: memory_cas_def Let_def split: if_splits)

lemma memory_cas_invar:
  assumes "memory_invar records" and "memory_cas admits p q records = Inr (b, records')"
  shows "memory_invar records'"
proof (cases b)
  case True
  then have m: "map_of records (job_key_of (ss_job p)) = Some p" using memory_cas_Inr(2) [OF assms(2)] by simp
  then have p: "job_valid (ss_job p)" "1 \<le> ss_revision p"
    using assms(1) unfolding memory_invar_def by blast+
  note n = validateNext_revision [OF memory_cas_Inr(1) [OF assms(2)]]
  have "memory_invar (AList.update (job_key_of (ss_job p)) q records)"
    by (rule memory_invar_update [OF assms(1) n(4) [OF p(1)] n(5)]) (use n(1) p(2) in simp)
  then show ?thesis using memory_cas_Inr(3) [OF assms(2)] True by simp
next
  case False
  then show ?thesis using memory_cas_Inr(3) [OF assms(2)] assms(1) by simp
qed

interpretation memory: job_store admits "MemoryJobStore admits" map_of memory_invar for admits
proof unfold_locales
  fix s :: memory_records and p q v r b s' j scope i k
  assume inv: "memory_invar s"
  { assume "so_read (MemoryJobStore admits) s scope i = Inr r"
    then show "r = map_of s (scope, i)" by (simp add: MemoryJobStore_def memory_read_def) }
  { assume "map_of s k = Some v"
    then show "job_valid (ss_job v) \<and> job_key_of (ss_job v) = k \<and> 1 \<le> ss_revision v"
      using inv unfolding memory_invar_def by blast }
  { assume "so_cas (MemoryJobStore admits) p q s = Inr (b, s')"
    then have c: "memory_cas admits p q s = Inr (b, s')" by (simp add: MemoryJobStore_def)
    show "memory_invar s'"
      by (rule memory_cas_invar [OF inv c]) }
  { assume "so_cas (MemoryJobStore admits) p q s = Inr (True, s')"
    then show "validateNext admits p q = Inr () \<and> map_of s (job_key_of (ss_job p)) = Some p
      \<and> map_of s' = (map_of s)(job_key_of (ss_job p) \<mapsto> q)"
      by (auto simp: MemoryJobStore_def memory_cas_def Let_def update_conv' split: if_splits) }
  { assume "so_cas (MemoryJobStore admits) p q s = Inr (False, s')"
    then show "map_of s' = map_of s"
      by (auto simp: MemoryJobStore_def memory_cas_def Let_def split: if_splits) }
  { assume "so_acquire (MemoryJobStore admits) j s = Inr ((b, v), s')"
    then show "memory_invar s'"
      using inv
      by (auto simp: MemoryJobStore_def memory_acquire_def initial_snapshot_def
          intro!: memory_invar_update validateFirst_valid [OF canonicalize_first] split: option.splits) }
  { assume "so_acquire (MemoryJobStore admits) j s = Inr ((True, v), s')"
    then show "map_of s (job_key_of (ss_job v)) = None \<and> map_of s' = (map_of s)(job_key_of (ss_job v) \<mapsto> v)
      \<and> v = initial_snapshot (ss_job v) \<and> validateFirst admits (ss_job v) = Inr ()"
      using canonicalize_first
      by (auto simp: MemoryJobStore_def memory_acquire_def update_conv' initial_snapshot_def split: option.splits) }
  { assume "so_acquire (MemoryJobStore admits) j s = Inr ((False, v), s')"
    then obtain x where "map_of s (job_key_of x) = Some v" and "s' = s"
      by (auto simp: MemoryJobStore_def memory_acquire_def split: option.splits)
    then show "map_of s' = map_of s \<and> map_of s (job_key_of (ss_job v)) = Some v"
      using memory_invarD(2) [OF inv, of "job_key_of x" v] by simp }
qed

end
