(* ===== verification/JobRuntime.thy ===== *)
theory JobRuntime
  imports JobStore
begin

text \<open>
  The job runtime (\<open>src/decision/job-runtime.ts\<close>) over the operations of a store. The clock is
  an argument of each operation, telemetry (which may not change state) is left out, the resolver
  of unknown attempts is a parameter whose \<open>None\<close> covers a null answer and a throw. An operation
  returns its result with the state of the store, or the error it throws.
\<close>

section \<open>Helpers\<close>

definition authorize :: "job_scope \<Rightarrow> job_scope \<Rightarrow> job_error + unit" where
  "authorize actor scope =
     checks
       [(sp_tenantId actor \<noteq> sp_tenantId scope \<or> sp_projectId actor \<noteq> sp_projectId scope
         \<or> sp_workspaceId actor \<noteq> sp_workspaceId scope \<or> sp_principalId actor \<noteq> sp_principalId scope,
         JobConflictError ''Job unavailable'')]"

definition recount :: "decision_job \<Rightarrow> decision_job" where
  "recount job = job\<lparr>jb_summary := map (\<lambda>s. (item_state_name s, state_count (jb_items job) s)) ITEM_STATES\<rparr>"

definition proposal :: "job_snapshot \<Rightarrow> decision_job \<Rightarrow> job_snapshot" where
  "proposal expected next' =
     \<lparr>ss_revision = ss_revision expected + 1, ss_job = next', ss_deleted = False,
      ss_legalHold = Some (opt_default (ss_legalHold expected) False)\<rparr>"

definition swap ::
    "'s job_store_ops \<Rightarrow> job_snapshot \<Rightarrow> job_snapshot \<Rightarrow> 's \<Rightarrow> job_error + job_snapshot option \<times> 's" where
  "swap store previous next' s =
     bindR (so_cas store previous next' s) (\<lambda>(done, s').
       if \<not> done then Inl (JobConflictError ''Concurrent job update'') else Inr (Some next', s'))"

section \<open>Operations\<close>

definition submit ::
    "'s job_store_ops \<Rightarrow> int \<Rightarrow> decision_job \<Rightarrow> job_scope \<Rightarrow> 's \<Rightarrow> job_error + job_snapshot option \<times> 's" where
  "submit store now job actor s =
     thenR (authorize actor (jb_scope job))
     (if now \<ge> jb_expiresAt job then Inl (JobConflictError ''Expired job'')
      else bindR (so_acquire store job s) (\<lambda>((owner, snapshot), s'). Inr (Some snapshot, s')))"

definition poll :: "'s job_store_ops \<Rightarrow> job_scope \<Rightarrow> string \<Rightarrow> 's \<Rightarrow> job_error + job_snapshot option" where
  "poll store actor i s =
     bindR (so_read store s actor i) (\<lambda>snapshot.
       case snapshot of
         None \<Rightarrow> Inr None
       | Some v \<Rightarrow> Inr (if ss_deleted v then None else Some v))"

definition job_items_page ::
    "'s job_store_ops \<Rightarrow> job_scope \<Rightarrow> string \<Rightarrow> jsnum \<Rightarrow> jsnum \<Rightarrow> 's \<Rightarrow> job_error + job_item list option" where
  "job_items_page store actor i offset limit s =
     thenR (checks
       [(\<not> is_safe_integer offset \<or> num_lt offset (Fin 0) \<or> \<not> is_safe_integer limit
         \<or> num_lt limit (Fin 1) \<or> num_lt (Fin 100) limit, JobConflictError ''Invalid page'')])
     (bindR (poll store actor i s) (\<lambda>snapshot.
       Inr (map_option (\<lambda>v. take (nat (to_int limit)) (drop (nat (to_int offset)) (jb_items (ss_job v)))) snapshot)))"

definition advance ::
    "'s job_store_ops \<Rightarrow> int \<Rightarrow> job_scope \<Rightarrow> string \<Rightarrow> job_snapshot \<Rightarrow> decision_job \<Rightarrow> 's
     \<Rightarrow> job_error + job_snapshot option \<times> 's" where
  "advance store now actor i expected next' s =
     thenR (authorize actor (jb_scope (ss_job expected)))
     (if jb_id (ss_job expected) \<noteq> i \<or> now \<ge> jb_expiresAt (ss_job expected)
      then Inl (JobConflictError ''Job expired or mismatched'')
      else swap store expected (proposal expected next') s)"

text \<open>A read of the job that every operation begins with; a missing job returns \<open>null\<close>.\<close>

definition with_job ::
    "'s job_store_ops \<Rightarrow> job_scope \<Rightarrow> string \<Rightarrow> 's
     \<Rightarrow> (job_snapshot \<Rightarrow> job_error + job_snapshot option \<times> 's) \<Rightarrow> job_error + job_snapshot option \<times> 's" where
  "with_job store actor i s body =
     bindR (poll store actor i s) (\<lambda>previous.
       case previous of None \<Rightarrow> Inr (None, s) | Some v \<Rightarrow> body v)"

text \<open>\<open>items.find(id)!.state = 'queued'\<close>: the first item with the id.\<close>

fun requeue_item :: "string \<Rightarrow> job_item list \<Rightarrow> job_item list" where
  "requeue_item i [] = []"
| "requeue_item i (it # items) =
     (if it_id it = i then it\<lparr>it_state := ItemQueued\<rparr> # items else it # requeue_item i items)"

definition retry ::
    "'s job_store_ops \<Rightarrow> int \<Rightarrow> job_scope \<Rightarrow> string \<Rightarrow> string \<Rightarrow> 's \<Rightarrow> job_error + job_snapshot option \<times> 's" where
  "retry store now actor i itemId s =
     with_job store actor i s (\<lambda>previous.
       let job = ss_job previous in
       case find (\<lambda>it. it_id it = itemId) (jb_items job) of
         None \<Rightarrow> Inl (JobConflictError ''Item not retryable'')
       | Some it \<Rightarrow>
           if it_state it \<noteq> ItemRetryableFailed \<or> int (length (it_attempts it)) \<ge> bd_maxAttempts (jb_budget job)
             \<or> jb_state job \<notin> {JobRunning, JobPartiallyCompleted}
           then Inl (JobConflictError ''Item not retryable'')
           else advance store now actor i previous
             (recount (job\<lparr>jb_items := requeue_item itemId (jb_items job)\<rparr>)) s)"

definition cancel_item :: "job_item \<Rightarrow> job_item" where
  "cancel_item it =
     (if it_state it = ItemQueued \<or> it_state it = ItemRetryableFailed then it\<lparr>it_state := ItemCanceled\<rparr> else it)"

definition cancel ::
    "'s job_store_ops \<Rightarrow> int \<Rightarrow> job_scope \<Rightarrow> string \<Rightarrow> 's \<Rightarrow> job_error + job_snapshot option \<times> 's" where
  "cancel store now actor i s =
     with_job store actor i s (\<lambda>previous.
       let job = ss_job previous in
       if jb_state job \<in> {JobCompleted, JobCanceled, JobExpired, JobFailed, JobCancelRequested}
       then Inr (Some previous, s)
       else advance store now actor i previous
         (recount (job\<lparr>jb_state := if jb_state job = JobValidating then JobCanceled else JobCancelRequested,
                      jb_items := map cancel_item (jb_items job)\<rparr>)) s)"

text \<open>Both ways to close a job: a queued or retryable item gets the given state; a running one is
  unknown when its last attempt is in flight.\<close>

definition settle_item :: "item_state \<Rightarrow> job_item \<Rightarrow> job_item" where
  "settle_item final it =
     (if it_state it = ItemQueued \<or> it_state it = ItemRetryableFailed then it\<lparr>it_state := final\<rparr>
      else if it_state it = ItemRunning then
        (if it_attempts it \<noteq> [] \<and> at_outcome (last (it_attempts it)) = Dispatched
         then it\<lparr>it_state := ItemExecutionUnknown,
                it_attempts := butlast (it_attempts it)
                  @ [(last (it_attempts it))\<lparr>at_outcome := AttemptUnknown\<rparr>]\<rparr>
         else it\<lparr>it_state := final\<rparr>)
      else it)"

definition reconcileDispatches ::
    "'s job_store_ops \<Rightarrow> int \<Rightarrow> job_scope \<Rightarrow> string \<Rightarrow> 's \<Rightarrow> job_error + job_snapshot option \<times> 's" where
  "reconcileDispatches store now actor i s =
     with_job store actor i s (\<lambda>previous.
       let job = ss_job previous in
       if jb_state job \<notin> {JobRunning, JobPartiallyCompleted, JobCancelRequested} then Inr (Some previous, s)
       else advance store now actor i previous
         (recount (job\<lparr>jb_state := JobFailed, jb_items := map (settle_item ItemCanceled) (jb_items job)\<rparr>)) s)"

definition expire ::
    "'s job_store_ops \<Rightarrow> int \<Rightarrow> job_scope \<Rightarrow> string \<Rightarrow> 's \<Rightarrow> job_error + job_snapshot option \<times> 's" where
  "expire store now actor i s =
     with_job store actor i s (\<lambda>previous.
       let job = ss_job previous in
       if now < jb_expiresAt job \<or> jb_state job \<in> {JobExpired, JobCanceled, JobCompleted, JobFailed}
       then Inr (Some previous, s)
       else swap store previous (proposal previous
         (recount (job\<lparr>jb_state := JobExpired, jb_items := map (settle_item ItemExpired) (jb_items job)\<rparr>))) s)"

record unknown_resolution =
  ur_state :: item_state
  ur_effectId :: string
  ur_reason :: string
  ur_receiptDigest :: string
  ur_resultDigest :: string

type_synonym unknown_resolver = "decision_job \<Rightarrow> job_item \<Rightarrow> job_attempt \<Rightarrow> unknown_resolution option"

definition acceptedResolution :: "unknown_resolution \<Rightarrow> bool" where
  "acceptedResolution r \<longleftrightarrow>
     ur_reason r = ''digest-match'' \<and> ur_state r \<in> set RESULT_STATES
     \<and> schema_digest (ur_receiptDigest r) \<and> schema_digest (ur_resultDigest r) \<and> schema_effect_id (ur_effectId r)"

text \<open>The item after its unknown attempt was offered to the resolver, if the answer was accepted.\<close>

definition resolve_item :: "unknown_resolver \<Rightarrow> decision_job \<Rightarrow> job_item \<Rightarrow> job_item option" where
  "resolve_item resolver job it =
     (if it_state it \<noteq> ItemExecutionUnknown \<or> it_attempts it = []
         \<or> at_outcome (last (it_attempts it)) \<noteq> AttemptUnknown then None
      else
        (case resolver job it (last (it_attempts it)) of
           None \<Rightarrow> None
         | Some r \<Rightarrow>
           if \<not> acceptedResolution r then None
           else Some (it\<lparr>it_state := ur_state r, it_resultDigest := Some (ur_resultDigest r),
             it_attempts := butlast (it_attempts it) @ [(last (it_attempts it))
               \<lparr>at_outcome := AttemptSucceeded, at_receiptDigest := Some (ur_receiptDigest r),
                at_resolution := Some \<lparr>re_method = ''effect-ledger'', re_effectId = ur_effectId r,
                  re_reason = ''digest-match'', re_receiptDigest = ur_receiptDigest r\<rparr>\<rparr>]\<rparr>)))"

definition resolveUnknown ::
    "(decision_job \<Rightarrow> bool) \<Rightarrow> 's job_store_ops \<Rightarrow> job_scope \<Rightarrow> string \<Rightarrow> unknown_resolver \<Rightarrow> 's
     \<Rightarrow> job_error + job_snapshot option \<times> 's" where
  "resolveUnknown admits store actor i resolver s =
     with_job store actor i s (\<lambda>previous.
       let job = ss_job previous;
           next' = recount (job\<lparr>jb_items := map (\<lambda>it. opt_default (resolve_item resolver job it) it) (jb_items job)\<rparr>)
       in thenR (authorize actor (jb_scope job))
          (if list_all (\<lambda>it. resolve_item resolver job it = None) (jb_items job) then Inr (Some previous, s)
           else thenR (validateDecisionJob admits next') (swap store previous (proposal previous next') s)))"

definition reconcile ::
    "(decision_job \<Rightarrow> bool) \<Rightarrow> 's job_store_ops \<Rightarrow> int \<Rightarrow> job_scope \<Rightarrow> string \<Rightarrow> unknown_resolver option \<Rightarrow> 's
     \<Rightarrow> job_error + job_snapshot option \<times> 's" where
  "reconcile admits store now actor i resolver s =
     bindR (reconcileDispatches store now actor i s) (\<lambda>(reconciled, s').
       case (reconciled, resolver) of
         (Some v, Some f) \<Rightarrow> resolveUnknown admits store actor i f s'
       | _ \<Rightarrow> Inr (reconciled, s'))"

definition setLegalHold ::
    "'s job_store_ops \<Rightarrow> job_scope \<Rightarrow> string \<Rightarrow> bool \<Rightarrow> 's \<Rightarrow> job_error + job_snapshot option \<times> 's" where
  "setLegalHold store actor i enabled s =
     with_job store actor i s (\<lambda>previous.
       if held previous = enabled then Inr (Some previous, s)
       else swap store previous
         (previous\<lparr>ss_revision := ss_revision previous + 1, ss_legalHold := Some enabled\<rparr>) s)"

definition remove_job ::
    "'s job_store_ops \<Rightarrow> job_scope \<Rightarrow> string \<Rightarrow> 's \<Rightarrow> job_error + bool \<times> 's" where
  "remove_job store actor i s =
     bindR (poll store actor i s) (\<lambda>previous.
       case previous of
         None \<Rightarrow> Inr (False, s)
       | Some v \<Rightarrow>
           if held v then Inl (JobConflictError ''Legal hold prohibits deletion'')
           else bindR (swap store v (v\<lparr>ss_revision := ss_revision v + 1, ss_deleted := True,
                  ss_legalHold := Some False\<rparr>) s) (\<lambda>(r, s'). Inr (True, s')))"

section \<open>What the runtime does to a store\<close>

text \<open>One operation of the runtime that returned, by any actor at any time.\<close>

inductive runtime_step ::
    "(decision_job \<Rightarrow> bool) \<Rightarrow> 's job_store_ops \<Rightarrow> 's \<Rightarrow> 's \<Rightarrow> bool" for admits store where
  submit: "submit store now job actor s = Inr (r, s') \<Longrightarrow> runtime_step admits store s s'"
| advance: "advance store now actor i expected next' s = Inr (r, s') \<Longrightarrow> runtime_step admits store s s'"
| retry: "retry store now actor i itemId s = Inr (r, s') \<Longrightarrow> runtime_step admits store s s'"
| cancel: "cancel store now actor i s = Inr (r, s') \<Longrightarrow> runtime_step admits store s s'"
| reconcile: "reconcile admits store now actor i resolver s = Inr (r, s') \<Longrightarrow> runtime_step admits store s s'"
| resolve: "resolveUnknown admits store actor i f s = Inr (r, s') \<Longrightarrow> runtime_step admits store s s'"
| expire: "expire store now actor i s = Inr (r, s') \<Longrightarrow> runtime_step admits store s s'"
| hold: "setLegalHold store actor i enabled s = Inr (r, s') \<Longrightarrow> runtime_step admits store s s'"
| remove: "remove_job store actor i s = Inr (b, s') \<Longrightarrow> runtime_step admits store s s'"

inductive runtime_run ::
    "(decision_job \<Rightarrow> bool) \<Rightarrow> 's job_store_ops \<Rightarrow> 's \<Rightarrow> 's \<Rightarrow> bool" for admits store where
  start: "runtime_run admits store s s"
| step: "runtime_run admits store s t \<Longrightarrow> runtime_step admits store t u \<Longrightarrow> runtime_run admits store s u"

context job_store
begin

lemma swap_Inr:
  assumes "invar s" and "swap store p q s = Inr (r, s')"
  shows "invar s'" and "view_grows s s'" and "r = Some q" and "view s (job_key_of (ss_job p)) = Some p"
    and "view s' = (view s)(job_key_of (ss_job p) \<mapsto> q)" and "validateNext admits p q = Inr ()"
proof -
  have c: "so_cas store p q s = Inr (True, s')" and "r = Some q"
    using assms(2) by (auto simp: swap_def split: if_splits)
  then show "invar s'" "view_grows s s'" "r = Some q" "view s (job_key_of (ss_job p)) = Some p"
    "view s' = (view s)(job_key_of (ss_job p) \<mapsto> q)" "validateNext admits p q = Inr ()"
    using cas_invar cas_grows cas_true assms(1) by simp_all
qed

lemma poll_Inr:
  assumes "invar s" and "poll store actor i s = Inr (Some v)"
  shows "view s (actor, i) = Some v" and "\<not> ss_deleted v"
  using assms read_view [OF assms(1)] by (auto simp: poll_def split: option.splits if_splits)

abbreviation grows :: "'s \<Rightarrow> 's \<Rightarrow> bool" where
  "grows s s' \<equiv> invar s' \<and> view_grows s s'"

lemma advance_grows: "invar s \<Longrightarrow> advance store now actor i e n s = Inr (r, s') \<Longrightarrow> grows s s'"
  using swap_Inr(1,2) by (auto simp: advance_def split: if_splits)

lemma with_job_grows:
  assumes "invar s" and "with_job store actor i s body = Inr (r, s')"
    and "\<And>v. poll store actor i s = Inr (Some v) \<Longrightarrow> body v = Inr (r, s') \<Longrightarrow> grows s s'"
  shows "grows s s'"
  using assms(2,3) view_grows_refl assms(1) by (auto simp: with_job_def split: option.splits)

lemma submit_grows: "invar s \<Longrightarrow> submit store now j actor s = Inr (r, s') \<Longrightarrow> grows s s'"
  using acquire_invar acquire_grows by (auto simp: submit_def split: if_splits)

lemma retry_grows:
  assumes "invar s" and "retry store now actor i itemId s = Inr (r, s')"
  shows "grows s s'"
  using assms(2) unfolding retry_def
  by (rule with_job_grows [OF assms(1)])
    (auto simp: Let_def dest: advance_grows [OF assms(1)] split: option.splits if_splits)

lemma cancel_grows:
  assumes "invar s" and "cancel store now actor i s = Inr (r, s')"
  shows "grows s s'"
  using assms(2) unfolding cancel_def
  by (rule with_job_grows [OF assms(1)])
    (use assms(1) view_grows_refl in \<open>auto simp: Let_def dest: advance_grows [OF assms(1)] split: if_splits\<close>)

lemma reconcileDispatches_grows:
  assumes "invar s" and "reconcileDispatches store now actor i s = Inr (r, s')"
  shows "grows s s'"
  using assms(2) unfolding reconcileDispatches_def
  by (rule with_job_grows [OF assms(1)])
    (use assms(1) view_grows_refl in \<open>auto simp: Let_def dest: advance_grows [OF assms(1)] split: if_splits\<close>)

lemma expire_grows:
  assumes "invar s" and "expire store now actor i s = Inr (r, s')"
  shows "grows s s'"
  using assms(2) unfolding expire_def
  by (rule with_job_grows [OF assms(1)])
    (use assms(1) view_grows_refl swap_Inr(1,2) [OF assms(1)] in \<open>auto simp: Let_def split: if_splits\<close>)

lemma resolveUnknown_grows:
  assumes "invar s" and "resolveUnknown admits store actor i f s = Inr (r, s')"
  shows "grows s s'"
  using assms(2) unfolding resolveUnknown_def
  by (rule with_job_grows [OF assms(1)])
    (use assms(1) view_grows_refl swap_Inr(1,2) [OF assms(1)] in \<open>auto simp: Let_def split: if_splits\<close>)

lemma reconcile_grows:
  assumes "invar s" and "reconcile admits store now actor i f s = Inr (r, s')"
  shows "grows s s'"
proof -
  obtain v t where t: "reconcileDispatches store now actor i s = Inr (v, t)"
    and rest: "t = s' \<or> (\<exists>g. resolveUnknown admits store actor i g t = Inr (r, s'))"
    using assms(2) by (auto simp: reconcile_def split: option.splits)
  have g: "grows s t" by (rule reconcileDispatches_grows [OF assms(1) t])
  then have "t = s' \<or> grows t s'" using rest resolveUnknown_grows by blast
  with g show ?thesis using view_grows_trans by blast
qed

lemma hold_grows:
  assumes "invar s" and "setLegalHold store actor i enabled s = Inr (r, s')"
  shows "grows s s'"
  using assms(2) unfolding setLegalHold_def
  by (rule with_job_grows [OF assms(1)])
    (use assms(1) view_grows_refl swap_Inr(1,2) [OF assms(1)] in \<open>auto split: if_splits\<close>)

lemma remove_grows: "invar s \<Longrightarrow> remove_job store actor i s = Inr (b, s') \<Longrightarrow> grows s s'"
  using swap_Inr(1,2) view_grows_refl by (auto simp: remove_job_def split: option.splits if_splits)

lemmas operation_grows = submit_grows advance_grows retry_grows cancel_grows reconcile_grows
  resolveUnknown_grows expire_grows hold_grows remove_grows

lemma runtime_step_grows: "runtime_step admits store s s' \<Longrightarrow> invar s \<Longrightarrow> grows s s'"
  by (induction rule: runtime_step.induct) (blast intro: operation_grows [THEN conjunct1] operation_grows [THEN conjunct2])+

lemma runtime_run_grows: "runtime_run admits store s s' \<Longrightarrow> invar s \<Longrightarrow> grows s s'"
proof (induction rule: runtime_run.induct)
  case (start s)
  then show ?case by (simp add: view_grows_refl)
next
  case (step s t u)
  then show ?case using runtime_step_grows view_grows_trans by blast
qed

text \<open>A deleted job stays deleted for every reader.\<close>

lemma deleted_stays:
  assumes "runtime_run admits store s s'" and "invar s" and "view s (scope, i) = Some v" and "ss_deleted v"
    and "poll store scope i s' = Inr r"
  shows "r = None"
proof -
  have g: "grows s s'" by (rule runtime_run_grows [OF assms(1,2)])
  then have "view s' (scope, i) = Some v"
    using assms(3,4) revises_grows by (fastforce simp: view_grows_def snapshot_grows_def)
  then show ?thesis
    using assms(4,5) read_view g by (auto simp: poll_def split: option.splits)
qed

end

end
