(* ===== verification/JobLiveness.thy ===== *)
theory JobLiveness
  imports JobRuntime
begin

text \<open>
  The closing operations of the job runtime (\<open>cancel\<close>, \<open>reconcileDispatches\<close> and \<open>expire\<close>,
  \<open>src/decision/job-runtime.ts\<close>) propose a revision that the contract accepts: a job can always be
  closed, and what was in flight is recorded as unknown. The store must answer reads and swap
  when the expected snapshot is current (locale \<open>responsive_store\<close>).
\<close>

section \<open>Item by item revisions that keep the reservations\<close>

definition quiet :: "job_budget \<Rightarrow> job_item \<Rightarrow> job_item \<Rightarrow> bool" where
  "quiet budget p q \<longleftrightarrow>
     it_id q = it_id p \<and> schema_item q \<and> item_sound budget q \<and> item_tokens q = item_tokens p
     \<and> item_cost q = item_cost p \<and> assertItemTransition (p, q) = Inr ()"

lemma recount_fields [simp]:
  "jb_id (recount j) = jb_id j" "jb_scope (recount j) = jb_scope j" "jb_fingerprint (recount j) = jb_fingerprint j"
  "jb_state (recount j) = jb_state j" "jb_items (recount j) = jb_items j"
  "jb_createdAt (recount j) = jb_createdAt j" "jb_expiresAt (recount j) = jb_expiresAt j"
  "jb_budget (recount j) = jb_budget j"
  by (simp_all add: recount_def)

lemma recount_summary: "summary_matches (recount j)"
  by (simp add: summary_matches_def recount_def ITEM_STATES_def)

lemma recount_schema:
  assumes "schema_job j" and "list_all schema_item items" and "length items = length (jb_items j)"
  shows "schema_job (recount (j\<lparr>jb_state := st, jb_items := items\<rparr>))"
  using assms by (simp add: schema_job_def recount_def ITEM_STATES_def state_count_def)

abbreviation revised :: "job_state \<Rightarrow> (job_item \<Rightarrow> job_item) \<Rightarrow> decision_job \<Rightarrow> decision_job" where
  "revised st f job \<equiv> recount (job\<lparr>jb_state := st, jb_items := map f (jb_items job)\<rparr>)"

lemma revised_valid:
  assumes "job_valid job" and "\<And>it. it \<in> set (jb_items job) \<Longrightarrow> quiet (jb_budget job) it (f it)"
    and "state_consistent (revised st f job)"
  shows "job_valid (revised st f job)"
proof -
  have s: "schema_job (revised st f job)"
    by (rule recount_schema) (use assms(1,2) in \<open>auto simp: job_valid_def quiet_def list_all_iff\<close>)
  have i: "map it_id (map f (jb_items job)) = map it_id (jb_items job)"
    "map item_tokens (map f (jb_items job)) = map item_tokens (jb_items job)"
    "map item_cost (map f (jb_items job)) = map item_cost (jb_items job)"
    using assms(2) by (simp_all add: quiet_def)
  have "list_all (item_sound (jb_budget job)) (map f (jb_items job))"
    using assms(2) by (auto simp: list_all_iff quiet_def)
  moreover have "job_tokens (revised st f job) = job_tokens job" "job_cost (revised st f job) = job_cost job"
    using i(2,3) by (simp_all add: job_tokens_def job_cost_def del: map_map)
  moreover have "distinct (map it_id (jb_items (revised st f job)))"
    using assms(1) i(1) by (simp add: job_valid_def del: map_map)
  ultimately show ?thesis
    using s assms(1,3) recount_summary by (simp add: job_valid_def)
qed

lemma revised_transition:
  assumes "job_valid job" and "\<And>it. it \<in> set (jb_items job) \<Longrightarrow> quiet (jb_budget job) it (f it)"
    and "state_consistent (revised st f job)" and "st \<in> set (transitions (jb_state job))"
    and "admits job" and "admits (revised st f job)"
  shows "assertJobTransition admits job (revised st f job) = Inr ()"
proof -
  have v: "job_valid (revised st f job)" by (rule revised_valid [OF assms(1-3)])
  have "map it_id (map f (jb_items job)) = map it_id (jb_items job)"
    using assms(2) by (simp add: quiet_def)
  then have "card (set (map it_id (map f (jb_items job)))) = length (jb_items job)"
    using assms(1) by (simp only: distinct_card job_valid_def length_map)
  moreover have "forEach assertItemTransition (zip (jb_items job) (map f (jb_items job))) = Inr ()"
    using assms(2) by (auto simp: quiet_def zip_map2 in_set_zip)
  ultimately show ?thesis
    using v assms by (simp add: assertJobTransition_def validate_iff)
qed

section \<open>Canceling and settling items\<close>

lemma same_attempts_transition:
  assumes "q = p\<lparr>it_state := st\<rparr>" and "st \<in> set (itemTransitions (it_state p))"
    and "st = ItemRunning \<Longrightarrow> False"
    and "it_state p = ItemRunning \<Longrightarrow> st = ItemCanceled
      \<Longrightarrow> list_all (\<lambda>a. at_outcome a \<noteq> Dispatched) (it_attempts p)"
  shows "assertItemTransition (p, q) = Inr ()"
proof -
  have "it_state p \<noteq> st" using assms(2) by (cases "it_state p") auto
  moreover have "it_state p \<notin> set settled_states"
    using assms(2) by (cases "it_state p") (simp_all add: settled_states_def)
  ultimately have "\<not> illegalItemTransition p q"
    using assms by (auto simp: illegalItemTransition_def list_ex_iff list_all_iff)
  then show ?thesis using assms(1) by (simp add: assertItemTransition_def samePins_def)
qed

lemma same_attempts_sound:
  assumes "item_sound budget p" and "it_state p \<notin> set RESULT_STATES"
    and "st \<notin> set RESULT_STATES" and "st \<noteq> ItemExecutionUnknown"
  shows "item_sound budget (p\<lparr>it_state := st\<rparr>)"
  using assms by (simp add: item_sound_def)

lemma same_attempts_quiet:
  assumes "schema_item p" and "item_sound budget p" and "st \<in> {ItemCanceled, ItemExpired}"
    and "it_state p \<in> {ItemQueued, ItemRetryableFailed, ItemRunning}"
    and "it_state p = ItemRunning \<Longrightarrow> st = ItemCanceled
      \<Longrightarrow> list_all (\<lambda>a. at_outcome a \<noteq> Dispatched) (it_attempts p)"
  shows "quiet budget p (p\<lparr>it_state := st\<rparr>)"
proof -
  have "assertItemTransition (p, p\<lparr>it_state := st\<rparr>) = Inr ()"
    by (rule same_attempts_transition [OF refl]) (use assms(3-5) in auto)
  moreover have "item_sound budget (p\<lparr>it_state := st\<rparr>)"
    by (rule same_attempts_sound [OF assms(2)]) (use assms(3,4) in \<open>auto simp: RESULT_STATES_def\<close>)
  ultimately show ?thesis
    using assms(1) by (simp add: quiet_def schema_item_def item_tokens_def item_cost_def)
qed

lemma quiet_refl: "schema_item p \<Longrightarrow> item_sound budget p \<Longrightarrow> quiet budget p p"
  by (auto simp: quiet_def assertItemTransition_def samePins_def illegalItemTransition_def list_ex_iff)

lemma cancel_item_quiet:
  assumes "schema_item p" and "item_sound budget p"
  shows "quiet budget p (cancel_item p)"
  using same_attempts_quiet [OF assms, of ItemCanceled] quiet_refl [OF assms]
  by (auto simp: cancel_item_def)

text \<open>The dispatched attempts of a running item: only the last one, and without a receipt.\<close>

definition dispatch_clean :: "job_item \<Rightarrow> bool" where
  "dispatch_clean it \<longleftrightarrow>
     it_state it = ItemRunning \<longrightarrow>
       list_all (\<lambda>a. at_outcome a \<noteq> Dispatched) (butlast (it_attempts it))
       \<and> (it_attempts it \<noteq> [] \<longrightarrow> at_outcome (last (it_attempts it)) = Dispatched
          \<longrightarrow> \<not> truthy (at_receiptDigest (last (it_attempts it))))"

abbreviation unknown_last :: "job_attempt list \<Rightarrow> job_attempt list" where
  "unknown_last as \<equiv> butlast as @ [(last as)\<lparr>at_outcome := AttemptUnknown\<rparr>]"

lemma unknown_last_facts:
  assumes "as \<noteq> []" and "at_outcome (last as) = Dispatched" and "list_all attempt_sound as"
  shows "map at_id (unknown_last as) = map at_id as" and "list_all attempt_sound (unknown_last as)"
    and "map tokens_of (unknown_last as) = map tokens_of as" and "map cost_of (unknown_last as) = map cost_of as"
    and "list_all schema_attempt as \<Longrightarrow> list_all schema_attempt (unknown_last as)"
    and "\<And>i. Suc i < length as \<Longrightarrow> unknown_last as ! i = as ! i"
    and "unknown_last as ! (length as - 1) = (last as)\<lparr>at_outcome := AttemptUnknown\<rparr>"
proof -
  obtain bs b where as: "as = bs @ [b]" using assms(1) by (cases as rule: rev_cases) auto
  have "at_resolution b = None"
    using assms(2,3) by (auto simp: as attempt_sound_def validResolution_def split: option.splits)
  then show "list_all attempt_sound (unknown_last as)"
    using assms(3) by (simp add: as attempt_sound_def validResolution_def)
  show "map at_id (unknown_last as) = map at_id as" "map tokens_of (unknown_last as) = map tokens_of as"
    "map cost_of (unknown_last as) = map cost_of as"
    "list_all schema_attempt as \<Longrightarrow> list_all schema_attempt (unknown_last as)"
    "\<And>i. Suc i < length as \<Longrightarrow> unknown_last as ! i = as ! i"
    "unknown_last as ! (length as - 1) = (last as)\<lparr>at_outcome := AttemptUnknown\<rparr>"
    by (simp_all add: as schema_attempt_def nth_append)
qed

lemma settle_unknown_quiet:
  assumes "schema_item p" and "item_sound budget p" and "it_state p = ItemRunning"
    and "it_attempts p \<noteq> []" and "at_outcome (last (it_attempts p)) = Dispatched"
    and "\<not> truthy (at_receiptDigest (last (it_attempts p)))"
  shows "quiet budget p (p\<lparr>it_state := ItemExecutionUnknown, it_attempts := unknown_last (it_attempts p)\<rparr>)"
    (is "quiet budget p ?q")
proof -
  have s: "list_all attempt_sound (it_attempts p)" using assms(2) by (simp add: item_sound_def)
  note u = unknown_last_facts [OF assms(4,5) s]
  have len: "length (it_attempts ?q) = length (it_attempts p)" using assms(4) by simp
  have settles: "attemptSettles p ?q i"
    if i: "i < length (it_attempts p)" "it_attempts p ! i \<noteq> it_attempts ?q ! i" for i
  proof -
    have last: "Suc i = length (it_attempts p)" using i u(6) [of i] by fastforce
    then have e: "it_attempts p ! i = last (it_attempts p)" using assms(4) by (simp add: last_conv_nth flip: last)
    have q: "it_attempts ?q ! i = (last (it_attempts p))\<lparr>at_outcome := AttemptUnknown\<rparr>"
      using u(7) by (simp flip: last)
    show ?thesis
      using last assms(3,5,6) unfolding attemptSettles_def Let_def e q by simp
  qed
  have "\<not> list_ex (\<lambda>index. it_attempts p ! index \<noteq> it_attempts ?q ! index \<and> \<not> attemptSettles p ?q index)
      [0..<length (it_attempts p)]"
    by (auto simp only: list_ex_iff set_upt atLeastLessThan_iff dest: settles)
  then have "\<not> illegalItemTransition p ?q"
    using assms(3) len by (simp add: illegalItemTransition_def settled_states_def)
  then have t: "assertItemTransition (p, ?q) = Inr ()"
    by (simp add: assertItemTransition_def samePins_def)
  have "item_sound budget ?q"
    using assms(2,3) u(1,2) len by (auto simp: item_sound_def RESULT_STATES_def)
  then show ?thesis
    using t assms(1,4) u(3-5) by (simp add: quiet_def schema_item_def item_tokens_def item_cost_def)
qed

lemma settle_item_quiet:
  assumes "schema_item p" and "item_sound budget p" and "dispatch_clean p" and "st \<in> {ItemCanceled, ItemExpired}"
  shows "quiet budget p (settle_item st p)"
proof (cases "it_state p = ItemRunning")
  case True
  show ?thesis
  proof (cases "it_attempts p \<noteq> [] \<and> at_outcome (last (it_attempts p)) = Dispatched")
    case d: True
    then have "\<not> truthy (at_receiptDigest (last (it_attempts p)))" using assms(3) True by (simp add: dispatch_clean_def)
    then have "quiet budget p (p\<lparr>it_state := ItemExecutionUnknown, it_attempts := unknown_last (it_attempts p)\<rparr>)"
      using settle_unknown_quiet [OF assms(1,2) True] d by blast
    then show ?thesis using d True by (simp add: settle_item_def)
  next
    case d: False
    have "list_all (\<lambda>a. at_outcome a \<noteq> Dispatched) (it_attempts p)"
      using assms(3) True d by (cases "it_attempts p" rule: rev_cases) (simp_all add: dispatch_clean_def)
    then show ?thesis
      using same_attempts_quiet [OF assms(1,2,4)] True d by (auto simp: settle_item_def)
  qed
next
  case False
  then show ?thesis
    using same_attempts_quiet [OF assms(1,2,4)] quiet_refl [OF assms(1,2)] by (auto simp: settle_item_def)
qed

section \<open>The closing operations succeed\<close>

locale responsive_store = job_store +
  assumes read_succeeds: "invar s \<Longrightarrow> so_read store s scope i = Inr (view s (scope, i))"
    and cas_succeeds: "invar s \<Longrightarrow> view s (job_key_of (ss_job p)) = Some p \<Longrightarrow> validateNext admits p q = Inr ()
      \<Longrightarrow> \<exists>s'. so_cas store p q s = Inr (True, s')"
begin

lemma with_job_live:
  assumes "invar s" and "view s (actor, i) = Some v" and "\<not> ss_deleted v"
  shows "with_job store actor i s body = body v"
  using assms by (simp add: with_job_def poll_def read_succeeds)

lemma swap_succeeds:
  assumes "invar s" and "view s (job_key_of (ss_job p)) = Some p" and "validateNext admits p q = Inr ()"
  shows "\<exists>s'. swap store p q s = Inr (Some q, s') \<and> view s' = (view s)(job_key_of (ss_job p) \<mapsto> q) \<and> invar s'"
proof -
  obtain s' where s': "so_cas store p q s = Inr (True, s')" using cas_succeeds [OF assms] by blast
  then have w: "swap store p q s = Inr (Some q, s')" by (simp add: swap_def)
  show ?thesis
    by (intro exI conjI) (rule w, rule swap_Inr(5) [OF assms(1) w], rule swap_Inr(1) [OF assms(1) w])
qed

lemma propose_revision:
  assumes "invar s" and "view s (actor, i) = Some v" and "\<not> ss_deleted v"
    and "assertJobTransition admits (ss_job v) n = Inr ()"
  shows "\<exists>s'. swap store v (proposal v n) s = Inr (Some (proposal v n), s')
    \<and> view s' = (view s)((actor, i) \<mapsto> proposal v n) \<and> invar s'"
proof -
  have k: "job_key_of (ss_job v) = (actor, i)" using view_valid [OF assms(1,2)] by simp
  have "validateNext admits v (proposal v n) = Inr ()"
    using assms(3,4) by (auto simp: validateNext_def proposal_def held_def opt_default_def split: option.splits)
  then show ?thesis using swap_succeeds [OF assms(1), of v "proposal v n"] assms(2) k by simp
qed

lemma advance_succeeds:
  assumes "invar s" and "view s (actor, i) = Some v" and "\<not> ss_deleted v" and "now < jb_expiresAt (ss_job v)"
    and "assertJobTransition admits (ss_job v) n = Inr ()"
  shows "\<exists>s'. advance store now actor i v n s = Inr (Some (proposal v n), s')
    \<and> view s' = (view s)((actor, i) \<mapsto> proposal v n) \<and> invar s'"
proof -
  have "job_key_of (ss_job v) = (actor, i)" using view_valid [OF assms(1,2)] by simp
  then have "authorize actor (jb_scope (ss_job v)) = Inr ()" "jb_id (ss_job v) = i"
    by (auto simp: job_key_of_def authorize_def)
  then show ?thesis
    using propose_revision [OF assms(1-3,5)] assms(4) by (simp add: advance_def)
qed

end

lemma valid_items:
  assumes "job_valid job" and "it \<in> set (jb_items job)"
  shows "schema_item it" and "item_sound (jb_budget job) it"
  using assms by (auto simp: job_valid_def schema_job_def list_all_iff)

text \<open>The jobs that the three operations propose.\<close>

abbreviation canceled_job :: "decision_job \<Rightarrow> decision_job" where
  "canceled_job job \<equiv>
     revised (if jb_state job = JobValidating then JobCanceled else JobCancelRequested) cancel_item job"

abbreviation reconciled_job :: "decision_job \<Rightarrow> decision_job" where
  "reconciled_job job \<equiv> revised JobFailed (settle_item ItemCanceled) job"

abbreviation expired_job :: "decision_job \<Rightarrow> decision_job" where
  "expired_job job \<equiv> revised JobExpired (settle_item ItemExpired) job"

lemma state_count_0: "state_count items st = 0 \<longleftrightarrow> list_all (\<lambda>it. it_state it \<noteq> st) items"
  by (auto simp: state_count_def filter_empty_conv list_all_iff)

lemma canceled_transition:
  assumes "job_valid job" and "jb_state job \<in> {JobValidating, JobQueued, JobRunning, JobPartiallyCompleted}"
    and "admits job" and "admits (canceled_job job)"
  shows "assertJobTransition admits job (canceled_job job) = Inr ()"
proof (rule revised_transition [OF assms(1) _ _ _ assms(3,4)])
  show "quiet (jb_budget job) it (cancel_item it)" if "it \<in> set (jb_items job)" for it
    by (rule cancel_item_quiet) (rule valid_items [OF assms(1) that])+
  show "state_consistent (canceled_job job)"
  proof (cases "jb_state job = JobValidating")
    case True
    then have "state_count (jb_items job) ItemRunning = 0" "state_count (jb_items job) ItemExecutionUnknown = 0"
      using assms(1) by (simp_all add: job_valid_def state_consistent_def Let_def)
    then show ?thesis
      using True by (auto simp: state_consistent_def state_count_0 list_all_iff cancel_item_def)
  qed (simp add: state_consistent_def)
  show "(if jb_state job = JobValidating then JobCanceled else JobCancelRequested) \<in> set (transitions (jb_state job))"
    using assms(2) by auto
qed

lemma settled_transition:
  assumes "job_valid job" and "list_all dispatch_clean (jb_items job)" and "final \<in> {ItemCanceled, ItemExpired}"
    and "st \<in> {JobFailed, JobExpired}" and "st \<in> set (transitions (jb_state job))"
    and "admits job" and "admits (revised st (settle_item final) job)"
  shows "assertJobTransition admits job (revised st (settle_item final) job) = Inr ()"
proof (rule revised_transition [OF assms(1) _ _ assms(5-7)])
  show "quiet (jb_budget job) it (settle_item final it)" if "it \<in> set (jb_items job)" for it
    by (rule settle_item_quiet [OF valid_items [OF assms(1) that]])
      (use assms(2,3) that in \<open>auto simp: list_all_iff\<close>)
  show "state_consistent (revised st (settle_item final) job)"
    using assms(4) by (auto simp: state_consistent_def)
qed

context responsive_store
begin

text \<open>The store holds an undeleted snapshot of the job.\<close>

definition live :: "'a \<Rightarrow> job_scope \<Rightarrow> string \<Rightarrow> job_snapshot \<Rightarrow> bool" where
  "live s actor i v \<longleftrightarrow> invar s \<and> view s (actor, i) = Some v \<and> \<not> ss_deleted v"

lemma cancel_live:
  assumes "live s actor i v" and "now < jb_expiresAt (ss_job v)"
    and "jb_state (ss_job v) \<in> {JobValidating, JobQueued, JobRunning, JobPartiallyCompleted}"
    and "admits (ss_job v)" and "admits (canceled_job (ss_job v))"
  shows "\<exists>s'. cancel store now actor i s = Inr (Some (proposal v (canceled_job (ss_job v))), s')
    \<and> view s' = (view s)((actor, i) \<mapsto> proposal v (canceled_job (ss_job v))) \<and> invar s'"
proof -
  have l: "invar s" "view s (actor, i) = Some v" "\<not> ss_deleted v" using assms(1) by (simp_all add: live_def)
  have "job_valid (ss_job v)" using view_valid [OF l(1,2)] by simp
  note t = canceled_transition [of "ss_job v" admits, OF this assms(3-5)]
  have "cancel store now actor i s = advance store now actor i v (canceled_job (ss_job v)) s"
    unfolding cancel_def with_job_live [OF l] Let_def using assms(3) by auto
  then show ?thesis using advance_succeeds [OF l assms(2) t] by simp
qed

lemma reconcileDispatches_live:
  assumes "live s actor i v" and "now < jb_expiresAt (ss_job v)"
    and "jb_state (ss_job v) \<in> {JobRunning, JobPartiallyCompleted, JobCancelRequested}"
    and "list_all dispatch_clean (jb_items (ss_job v))"
    and "admits (ss_job v)" and "admits (reconciled_job (ss_job v))"
  shows "\<exists>s'. reconcileDispatches store now actor i s = Inr (Some (proposal v (reconciled_job (ss_job v))), s')
    \<and> view s' = (view s)((actor, i) \<mapsto> proposal v (reconciled_job (ss_job v))) \<and> invar s'"
proof -
  have l: "invar s" "view s (actor, i) = Some v" "\<not> ss_deleted v" using assms(1) by (simp_all add: live_def)
  have v: "job_valid (ss_job v)" using view_valid [OF l(1,2)] by simp
  have t: "assertJobTransition admits (ss_job v) (reconciled_job (ss_job v)) = Inr ()"
    by (rule settled_transition [OF v assms(4) _ _ _ assms(5,6)]) (use assms(3) in auto)
  have "reconcileDispatches store now actor i s = advance store now actor i v (reconciled_job (ss_job v)) s"
    unfolding reconcileDispatches_def with_job_live [OF l] Let_def using assms(3) by auto
  then show ?thesis using advance_succeeds [OF l assms(2) t] by simp
qed

lemma expire_live:
  assumes "live s actor i v" and "jb_expiresAt (ss_job v) \<le> now"
    and "jb_state (ss_job v) \<notin> {JobExpired, JobCanceled, JobCompleted, JobFailed}"
    and "list_all dispatch_clean (jb_items (ss_job v))"
    and "admits (ss_job v)" and "admits (expired_job (ss_job v))"
  shows "\<exists>s'. expire store now actor i s = Inr (Some (proposal v (expired_job (ss_job v))), s')
    \<and> view s' = (view s)((actor, i) \<mapsto> proposal v (expired_job (ss_job v))) \<and> invar s'"
proof -
  have l: "invar s" "view s (actor, i) = Some v" "\<not> ss_deleted v" using assms(1) by (simp_all add: live_def)
  have v: "job_valid (ss_job v)" using view_valid [OF l(1,2)] by simp
  have "JobExpired \<in> set (transitions (jb_state (ss_job v)))" using assms(3) by (cases "jb_state (ss_job v)") simp_all
  then have t: "assertJobTransition admits (ss_job v) (expired_job (ss_job v)) = Inr ()"
    by (intro settled_transition [OF v assms(4) _ _ _ assms(5,6)]) auto
  have "expire store now actor i s = swap store v (proposal v (expired_job (ss_job v))) s"
    unfolding expire_def with_job_live [OF l] Let_def using assms(2,3) by auto
  then show ?thesis using propose_revision [OF l t] by simp
qed

text \<open>A hold can be set and released, and a job that is not held can be removed.\<close>

lemma hold_live:
  assumes "live s actor i v" and "held v \<noteq> enabled"
  defines "w \<equiv> v\<lparr>ss_revision := ss_revision v + 1, ss_legalHold := Some enabled\<rparr>"
  shows "\<exists>s'. setLegalHold store actor i enabled s = Inr (Some w, s') \<and> live s' actor i w
    \<and> view s' = (view s)((actor, i) \<mapsto> w)"
proof -
  have l: "invar s" "view s (actor, i) = Some v" "\<not> ss_deleted v" using assms(1) by (simp_all add: live_def)
  have k: "job_key_of (ss_job v) = (actor, i)" using view_valid [OF l(1,2)] by simp
  have "validateNext admits v w = Inr ()"
    using l(3) assms(2) by (simp add: validateNext_def w_def held_def)
  then obtain s' where s': "swap store v w s = Inr (Some w, s')" "view s' = (view s)((actor, i) \<mapsto> w)" "invar s'"
    using swap_succeeds [OF l(1), of v w] l(2) k by auto
  moreover have "setLegalHold store actor i enabled s = swap store v w s"
    unfolding setLegalHold_def with_job_live [OF l] using assms(2) by (simp add: w_def)
  ultimately show ?thesis using l(3) by (auto simp: live_def w_def)
qed

lemma remove_live:
  assumes "live s actor i v" and "\<not> held v"
  defines "w \<equiv> v\<lparr>ss_revision := ss_revision v + 1, ss_deleted := True, ss_legalHold := Some False\<rparr>"
  shows "\<exists>s'. remove_job store actor i s = Inr (True, s') \<and> invar s' \<and> view s' = (view s)((actor, i) \<mapsto> w)"
proof -
  have l: "invar s" "view s (actor, i) = Some v" "\<not> ss_deleted v" using assms(1) by (simp_all add: live_def)
  have k: "job_key_of (ss_job v) = (actor, i)" using view_valid [OF l(1,2)] by simp
  have "validateNext admits v w = Inr ()"
    using l(3) assms(2) by (simp add: validateNext_def w_def held_def)
  then obtain s' where s': "swap store v w s = Inr (Some w, s')" "view s' = (view s)((actor, i) \<mapsto> w)" "invar s'"
    using swap_succeeds [OF l(1), of v w] l(2) k by auto
  moreover have "poll store actor i s = Inr (Some v)" using l by (simp add: poll_def read_succeeds)
  ultimately show ?thesis using assms(2) by (simp add: remove_job_def w_def)
qed

end

text \<open>What the closing operations leave behind.\<close>

definition open_states :: "item_state set" where
  "open_states = {ItemQueued, ItemRetryableFailed, ItemRunning}"

definition dispatched_last :: "job_item \<Rightarrow> bool" where
  "dispatched_last it \<longleftrightarrow> it_state it = ItemRunning \<and> it_attempts it \<noteq> []
     \<and> at_outcome (last (it_attempts it)) = Dispatched"

definition settled_from :: "job_item \<Rightarrow> job_item \<Rightarrow> bool" where
  "settled_from p q \<longleftrightarrow>
     it_state q \<notin> open_states
     \<and> (if dispatched_last p then it_state q = ItemExecutionUnknown \<and> it_attempts q = unknown_last (it_attempts p)
        else it_attempts q = it_attempts p)"

lemma settle_item_settled: "final \<in> {ItemCanceled, ItemExpired} \<Longrightarrow> settled_from it (settle_item final it)"
  by (auto simp: settled_from_def settle_item_def open_states_def dispatched_last_def)

lemma settled_items:
  "final \<in> {ItemCanceled, ItemExpired} \<Longrightarrow>
     list_all2 settled_from (jb_items job) (jb_items (revised st (settle_item final) job))"
  using settle_item_settled by (auto simp: list_all2_conv_all_nth)

interpretation live_memory: responsive_store admits "MemoryJobStore admits" map_of memory_invar for admits
  by unfold_locales (auto simp: MemoryJobStore_def memory_read_def memory_cas_def Let_def)

end
