(* ===== verification/FileJobStore.thy ===== *)
theory FileJobStore
  imports JobLiveness
begin

text \<open>
  The file store of jobs (\<open>FileJobStore\<close>, \<open>src/decision/job-store.ts\<close>): one immutable file per
  revision, named by the digest of the job's key and the revision, and a marker file for an erased
  job. A directory is the list of its revision files in the order of \<open>readdir\<close> with their parsed
  contents, and the prefixes of its markers; temporary files, which every operation removes again,
  are left out. The digest \<open>prefix\<close> (SHA-256 of the canonical key) and the external tombstones are
  parameters; that distinct keys have distinct digests is part of the store's invariant.
\<close>

section \<open>The directory\<close>

record job_directory =
  jd_private :: bool
  jd_revisions :: "((string \<times> nat) \<times> job_snapshot) list"
  jd_markers :: "string list"

record file_config =
  fc_prefix :: "job_key \<Rightarrow> string"
  fc_externallyDeleted :: "job_key \<Rightarrow> bool"

definition ensureDirectory :: "job_directory \<Rightarrow> job_error + unit" where
  "ensureDirectory dir = checks [(\<not> jd_private dir, JobConflictError ''Job storage root must be private'')]"

definition hasMarker :: "file_config \<Rightarrow> job_directory \<Rightarrow> job_key \<Rightarrow> bool" where
  "hasMarker c dir k \<longleftrightarrow> fc_prefix c k \<in> set (jd_markers dir)"

definition isDeleted :: "file_config \<Rightarrow> job_directory \<Rightarrow> job_key \<Rightarrow> bool" where
  "isDeleted c dir k \<longleftrightarrow> hasMarker c dir k \<or> fc_externallyDeleted c k"

text \<open>The revisions of a key, in numeric order.\<close>

definition revisions :: "file_config \<Rightarrow> job_directory \<Rightarrow> job_key \<Rightarrow> nat list" where
  "revisions c dir k = sort (map (snd \<circ> fst) (filter (\<lambda>f. fst (fst f) = fc_prefix c k) (jd_revisions dir)))"

text \<open>One iteration of the read loop: the index, the previous snapshot and the next revision.\<close>

definition readRevision ::
    "(decision_job \<Rightarrow> bool) \<Rightarrow> file_config \<Rightarrow> job_directory \<Rightarrow> job_key
     \<Rightarrow> nat \<times> job_snapshot option \<Rightarrow> nat \<Rightarrow> job_error + nat \<times> job_snapshot option" where
  "readRevision admits c dir k acc revision =
     (case acc of (index, previous) \<Rightarrow>
        thenR (checks [(revision \<noteq> index + 1, JobConflictError ''Job revision gap'')])
        (case map_of (jd_revisions dir) (fc_prefix c k, revision) of
           None \<Rightarrow> Inl (JobConflictError ''ENOENT'')
         | Some snapshot \<Rightarrow>
             thenR (checks [(ss_revision snapshot \<noteq> int revision \<or> job_key_of (ss_job snapshot) \<noteq> k,
                       JobConflictError ''Job scope substitution'')])
             (thenR (case previous of
                  Some v \<Rightarrow> validateNext admits v snapshot
                | None \<Rightarrow> thenR (validateFirst admits (ss_job snapshot))
                    (checks [(ss_deleted snapshot \<or> held snapshot, JobConflictError ''Invalid initial snapshot'')]))
              (Inr (index + 1, Some snapshot)))))"

definition readJournal ::
    "(decision_job \<Rightarrow> bool) \<Rightarrow> file_config \<Rightarrow> job_directory \<Rightarrow> job_key \<Rightarrow> job_error + job_snapshot option" where
  "readJournal admits c dir k =
     bindR (foldR (readRevision admits c dir k) (0, None) (revisions c dir k)) (\<lambda>(index, v). Inr v)"

definition file_read ::
    "(decision_job \<Rightarrow> bool) \<Rightarrow> file_config \<Rightarrow> job_directory \<Rightarrow> job_scope \<Rightarrow> string
     \<Rightarrow> job_error + job_snapshot option" where
  "file_read admits c dir scope i =
     thenR (ensureDirectory dir)
       (if isDeleted c dir (scope, i) then Inr None else readJournal admits c dir (scope, i))"

text \<open>\<open>link(temporary, destination)\<close> fails when the destination exists.\<close>

definition linkRevision :: "file_config \<Rightarrow> job_snapshot \<Rightarrow> job_directory \<Rightarrow> bool \<times> job_directory" where
  "linkRevision c snapshot dir =
     (let destination = (fc_prefix c (job_key_of (ss_job snapshot)), nat (ss_revision snapshot)) in
      if has_key (jd_revisions dir) destination then (False, dir)
      else (True, dir\<lparr>jd_revisions := jd_revisions dir @ [(destination, snapshot)]\<rparr>))"

definition publish ::
    "file_config \<Rightarrow> job_snapshot \<Rightarrow> job_directory \<Rightarrow> job_error + bool \<times> job_directory" where
  "publish c snapshot dir =
     thenR (ensureDirectory dir)
       (if isDeleted c dir (job_key_of (ss_job snapshot)) then Inl (JobConflictError ''Job tombstoned'')
        else Inr (linkRevision c snapshot dir))"

definition file_acquire ::
    "(decision_job \<Rightarrow> bool) \<Rightarrow> file_config \<Rightarrow> decision_job \<Rightarrow> job_directory
     \<Rightarrow> job_error + (bool \<times> job_snapshot) \<times> job_directory" where
  "file_acquire admits c job dir =
     bindR (canonicalizeInitialJob admits job) (\<lambda>job.
     thenR (ensureDirectory dir)
     (if isDeleted c dir (job_key_of job) then Inl (JobConflictError ''Job tombstoned'')
      else bindR (publish c (initial_snapshot job) dir) (\<lambda>(owner, dir').
        if owner then Inr ((True, initial_snapshot job), dir')
        else bindR (file_read admits c dir' (jb_scope job) (jb_id job)) (\<lambda>existing.
          case existing of
            None \<Rightarrow> Inl (JobConflictError ''Job revision unavailable'')
          | Some v \<Rightarrow> thenR (assertIdentity job (ss_job v)) (Inr ((False, v), dir'))))))"

definition file_cas ::
    "(decision_job \<Rightarrow> bool) \<Rightarrow> file_config \<Rightarrow> job_snapshot \<Rightarrow> job_snapshot \<Rightarrow> job_directory
     \<Rightarrow> job_error + bool \<times> job_directory" where
  "file_cas admits c previous next' dir =
     thenR (validateNext admits previous next')
     (bindR (file_read admits c dir (jb_scope (ss_job previous)) (jb_id (ss_job previous))) (\<lambda>current.
       if current \<noteq> Some previous then Inr (False, dir) else publish c next' dir))"

definition FileStore :: "(decision_job \<Rightarrow> bool) \<Rightarrow> file_config \<Rightarrow> job_directory job_store_ops" where
  "FileStore admits c =
     \<lparr>so_acquire = file_acquire admits c, so_read = file_read admits c, so_cas = file_cas admits c\<rparr>"

text \<open>The quota scan: every journal that has a first revision.\<close>

definition listSnapshots ::
    "(decision_job \<Rightarrow> bool) \<Rightarrow> file_config \<Rightarrow> job_directory \<Rightarrow> job_error + job_snapshot list" where
  "listSnapshots admits c dir =
     thenR (ensureDirectory dir)
     (foldR (\<lambda>snapshots ((prefix, revision), first).
        if revision \<noteq> 1 then Inr snapshots
        else thenR (checks [(prefix \<noteq> fc_prefix c (job_key_of (ss_job first)),
                 JobConflictError ''Job scope substitution'')])
          (bindR (file_read admits c dir (jb_scope (ss_job first)) (jb_id (ss_job first))) (\<lambda>current.
             Inr (case current of None \<Rightarrow> snapshots | Some v \<Rightarrow> snapshots @ [v]))))
      [] (jd_revisions dir))"

text \<open>The eraser: what it checks, and the sequence of its effects on the directory.\<close>

definition purgeEligible ::
    "(decision_job \<Rightarrow> bool) \<Rightarrow> file_config \<Rightarrow> job_directory \<Rightarrow> job_key \<Rightarrow> job_error + unit" where
  "purgeEligible admits c dir k =
     bindR (file_read admits c dir (fst k) (snd k)) (\<lambda>record.
       checks
         [(record \<noteq> None \<and> (\<not> ss_deleted (the record) \<or> held (the record)),
           JobConflictError ''Job not eligible for erasure''),
          (record = None \<and> \<not> hasMarker c dir k \<and> \<not> fc_externallyDeleted c k,
           JobConflictError ''Job tombstone required before erasure'')])"

datatype purge_effect = WriteMarker string | RemoveFile "string \<times> nat"

fun purge_apply :: "purge_effect \<Rightarrow> job_directory \<Rightarrow> job_directory" where
  "purge_apply (WriteMarker p) dir = dir\<lparr>jd_markers := List.insert p (jd_markers dir)\<rparr>"
| "purge_apply (RemoveFile f) dir = dir\<lparr>jd_revisions := filter (\<lambda>(g, v). g \<noteq> f) (jd_revisions dir)\<rparr>"

definition purge_effects :: "file_config \<Rightarrow> job_directory \<Rightarrow> job_key \<Rightarrow> purge_effect list" where
  "purge_effects c dir k =
     WriteMarker (fc_prefix c k)
     # map RemoveFile (filter (\<lambda>f. fst f = fc_prefix c k \<and> 1 \<le> snd f) (map fst (jd_revisions dir)))"

definition purgeDeleted ::
    "(decision_job \<Rightarrow> bool) \<Rightarrow> file_config \<Rightarrow> job_key \<Rightarrow> job_directory \<Rightarrow> job_error + job_directory" where
  "purgeDeleted admits c k dir =
     thenR (purgeEligible admits c dir k)
       (thenR (ensureDirectory dir) (Inr (fold purge_apply (purge_effects c dir k) dir)))"

end
