(* ===== verification/FileStoreContract.thy ===== *)
theory FileStoreContract
  imports FileJobStore "HOL-Library.Multiset"
begin

text \<open>
  The file store keeps the contract of a job store (locale \<open>responsive_store\<close> of theory
  JobLiveness): the journal of a key that reads back is extended by a valid successor and reads
  back again.
\<close>

section \<open>The read loop\<close>

lemma readRevision_Inr:
  "readRevision admits c dir k (i, prev) r = Inr (j, v) \<longleftrightarrow>
     r = i + 1 \<and> j = i + 1
     \<and> (\<exists>s. v = Some s \<and> map_of (jd_revisions dir) (fc_prefix c k, r) = Some s
        \<and> ss_revision s = int r \<and> job_key_of (ss_job s) = k
        \<and> (case prev of Some p \<Rightarrow> validateNext admits p s = Inr ()
           | None \<Rightarrow> validateFirst admits (ss_job s) = Inr () \<and> \<not> ss_deleted s \<and> \<not> held s))"
  by (auto simp: readRevision_def split: option.splits if_splits)

text \<open>What the loop has seen when it returns.\<close>

definition seen :: "job_key \<Rightarrow> nat \<Rightarrow> job_snapshot option \<Rightarrow> bool" where
  "seen k n v \<longleftrightarrow>
     (case v of None \<Rightarrow> n = 0
      | Some s \<Rightarrow> ss_revision s = int n \<and> 1 \<le> n \<and> job_key_of (ss_job s) = k \<and> job_valid (ss_job s))"

lemma readRevision_seen:
  assumes "readRevision admits c dir k (i, prev) r = Inr (j, v)" and "seen k i prev"
  shows "seen k j v"
  using assms validateNext_revision(4) validateFirst_valid
  by (auto simp: readRevision_Inr seen_def split: option.splits)

lemma readLoop:
  assumes "foldR (readRevision admits c dir k) (i, prev) rs = Inr (n, v)" and "seen k i prev"
  shows "rs = [Suc i..<Suc n] \<and> i \<le> n \<and> seen k n v
    \<and> (rs = [] \<longrightarrow> v = prev) \<and> (rs \<noteq> [] \<longrightarrow> map_of (jd_revisions dir) (fc_prefix c k, n) = v)"
  using assms
proof (induction rs arbitrary: i prev)
  case Nil
  then show ?case by simp
next
  case (Cons r rs)
  from Cons.prems(1) obtain j w where w: "readRevision admits c dir k (i, prev) r = Inr (j, w)"
    and rest: "foldR (readRevision admits c dir k) (j, w) rs = Inr (n, v)" by auto
  have j: "r = Suc i" "j = Suc i" "map_of (jd_revisions dir) (fc_prefix c k, j) = w"
    using w by (auto simp: readRevision_Inr)
  note IH = Cons.IH [OF rest readRevision_seen [OF w Cons.prems(2)]]
  then show ?case using j by (cases "rs = []") (auto simp: upt_rec [of "Suc i"])
qed

lemma readJournal_Inr:
  assumes "readJournal admits c dir k = Inr v"
  obtains n where "revisions c dir k = [1..<Suc n]" and "seen k n v"
    and "v = None \<longleftrightarrow> n = 0" and "n \<noteq> 0 \<Longrightarrow> map_of (jd_revisions dir) (fc_prefix c k, n) = v"
    and "foldR (readRevision admits c dir k) (0, None) (revisions c dir k) = Inr (n, v)"
proof -
  from assms obtain n where n: "foldR (readRevision admits c dir k) (0, None) (revisions c dir k) = Inr (n, v)"
    by (auto simp: readJournal_def)
  note l = readLoop [OF n, unfolded seen_def, simplified]
  show ?thesis
  proof (rule that [of n])
    show "revisions c dir k = [1..<Suc n]" using l by simp
    show "seen k n v" using l by (simp add: seen_def)
    show "v = None \<longleftrightarrow> n = 0" using l by (auto split: option.splits)
    show "map_of (jd_revisions dir) (fc_prefix c k, n) = v" if "n \<noteq> 0" using l that by auto
    show "foldR (readRevision admits c dir k) (0, None) (revisions c dir k) = Inr (n, v)" by (rule n)
  qed
qed

lemma set_revisions:
  "r \<in> set (revisions c dir k) \<longleftrightarrow> has_key (jd_revisions dir) (fc_prefix c k, r)"
  by (force simp: revisions_def has_key_iff)

section \<open>Adding a revision\<close>

definition extended :: "file_config \<Rightarrow> job_snapshot \<Rightarrow> job_directory \<Rightarrow> job_directory" where
  "extended c q dir =
     dir\<lparr>jd_revisions := jd_revisions dir @ [((fc_prefix c (job_key_of (ss_job q)), nat (ss_revision q)), q)]\<rparr>"

lemma linkRevision_True:
  assumes "linkRevision c q dir = (True, dir')"
  shows "dir' = extended c q dir"
    and "map_of (jd_revisions dir) (fc_prefix c (job_key_of (ss_job q)), nat (ss_revision q)) = None"
  using assms by (auto simp: linkRevision_def Let_def extended_def has_key_def split: if_splits)

lemma extended_fields [simp]:
  "jd_private (extended c q dir) = jd_private dir" "jd_markers (extended c q dir) = jd_markers dir"
  "hasMarker c (extended c q dir) k = hasMarker c dir k" "isDeleted c (extended c q dir) k = isDeleted c dir k"
  by (simp_all add: extended_def hasMarker_def isDeleted_def)

lemma extended_old:
  assumes "map_of (jd_revisions dir) (fc_prefix c k, r) = Some v"
  shows "map_of (jd_revisions (extended c q dir)) (fc_prefix c k, r) = Some v"
  using assms by (simp add: extended_def map_add_Some_iff)

lemma extended_other:
  assumes "fc_prefix c (job_key_of (ss_job q)) \<noteq> fc_prefix c k"
  shows "readJournal admits c (extended c q dir) k = readJournal admits c dir k"
proof -
  have "map_of (jd_revisions (extended c q dir)) (fc_prefix c k, r) = map_of (jd_revisions dir) (fc_prefix c k, r)" for r
    using assms by (auto simp: extended_def map_add_def split: option.splits)
  then have "readRevision admits c (extended c q dir) k = readRevision admits c dir k"
    by (intro ext) (simp add: readRevision_def split: prod.splits)
  moreover have "revisions c (extended c q dir) k = revisions c dir k"
    using assms by (simp add: revisions_def extended_def)
  ultimately show ?thesis by (simp add: readJournal_def)
qed

lemma foldR_cong: "(\<And>s x. x \<in> set xs \<Longrightarrow> f s x = g s x) \<Longrightarrow> foldR f s xs = foldR g s xs"
  by (induction xs arbitrary: s) (auto intro: arg_cong2 [where f = bindR])

lemma sort_snoc_upt: "sort xs = [a..<b] \<Longrightarrow> a \<le> b \<Longrightarrow> sort (xs @ [b]) = [a..<Suc b]"
  by (rule properties_for_sort) (auto simp: sorted_append dest: arg_cong [where f = mset])

lemma extended_journal:
  assumes "readJournal admits c dir (job_key_of (ss_job q)) = Inr v"
    and "ss_revision q = (case v of None \<Rightarrow> 1 | Some p \<Rightarrow> ss_revision p + 1)"
    and "case v of Some p \<Rightarrow> validateNext admits p q = Inr ()
         | None \<Rightarrow> validateFirst admits (ss_job q) = Inr () \<and> \<not> ss_deleted q \<and> \<not> held q"
  shows "readJournal admits c (extended c q dir) (job_key_of (ss_job q)) = Inr (Some q)"
proof -
  let ?k = "job_key_of (ss_job q)" and ?e = "extended c q dir"
  obtain n where r: "revisions c dir ?k = [1..<Suc n]" and s: "seen ?k n v" and n: "v = None \<longleftrightarrow> n = 0"
    and loop: "foldR (readRevision admits c dir ?k) (0, None) (revisions c dir ?k) = Inr (n, v)"
    by (rule readJournal_Inr [OF assms(1)])
  have q: "ss_revision q = int (Suc n)" "nat (ss_revision q) = Suc n"
    using assms(2) s n by (auto simp: seen_def split: option.splits)
  have free: "map_of (jd_revisions dir) (fc_prefix c ?k, Suc n) = None"
    using set_revisions [of "Suc n" c dir ?k] r by (simp add: has_key_def)
  have "revisions c ?e ?k = [1..<Suc n] @ [Suc n]"
    using sort_snoc_upt [OF r [unfolded revisions_def]] q by (simp add: revisions_def extended_def)
  moreover have "foldR (readRevision admits c ?e ?k) (0, None) [1..<Suc n] = Inr (n, v)"
  proof -
    have "readRevision admits c ?e ?k st i = readRevision admits c dir ?k st i" if m: "i \<in> set [1..<Suc n]" for st i
    proof -
      obtain w where "map_of (jd_revisions dir) (fc_prefix c ?k, i) = Some w"
        using m set_revisions [of i c dir ?k] unfolding r has_key_def by blast
      then show ?thesis using extended_old by (simp add: readRevision_def)
    qed
    then show ?thesis using foldR_cong [of "[1..<Suc n]"] loop r by metis
  qed
  moreover have "readRevision admits c ?e ?k (n, v) (Suc n) = Inr (Suc n, Some q)"
    using assms(3) q free by (simp add: readRevision_Inr extended_def map_add_def)
  ultimately show ?thesis by (simp add: readJournal_def foldR_append)
qed

section \<open>The invariant\<close>

text \<open>The directory is private, distinct keys have distinct digests, and every journal without a marker
  reads back.\<close>

definition file_invar :: "(decision_job \<Rightarrow> bool) \<Rightarrow> file_config \<Rightarrow> job_directory \<Rightarrow> bool" where
  "file_invar admits c dir \<longleftrightarrow>
     jd_private dir \<and> inj (fc_prefix c)
     \<and> (\<forall>k. hasMarker c dir k \<or> (\<exists>v. readJournal admits c dir k = Inr v))"

definition file_view :: "(decision_job \<Rightarrow> bool) \<Rightarrow> file_config \<Rightarrow> job_directory \<Rightarrow> job_key \<Rightarrow> job_snapshot option" where
  "file_view admits c dir k =
     (if isDeleted c dir k then None else case readJournal admits c dir k of Inl e \<Rightarrow> None | Inr v \<Rightarrow> v)"

lemma file_invarD:
  assumes "file_invar admits c dir"
  shows "jd_private dir" and "inj (fc_prefix c)" and "hasMarker c dir k \<or> (\<exists>v. readJournal admits c dir k = Inr v)"
  using assms unfolding file_invar_def by blast+

lemma file_invar_read:
  assumes "file_invar admits c dir"
  shows "file_read admits c dir scope i = Inr (file_view admits c dir (scope, i))"
  using file_invarD(1) [OF assms] file_invarD(3) [OF assms, of "(scope, i)"]
  by (auto simp: file_read_def file_view_def ensureDirectory_def isDeleted_def)

lemma file_view_valid:
  assumes "file_view admits c dir k = Some v"
  shows "\<not> isDeleted c dir k" and "readJournal admits c dir k = Inr (Some v)"
    and "job_valid (ss_job v)" and "job_key_of (ss_job v) = k" and "1 \<le> ss_revision v"
proof -
  show d: "\<not> isDeleted c dir k" and r: "readJournal admits c dir k = Inr (Some v)"
    using assms by (auto simp: file_view_def split: if_splits sum.splits)
  obtain n where "seen k n (Some v)" by (rule readJournal_Inr [OF r])
  then show "job_valid (ss_job v)" "job_key_of (ss_job v) = k" "1 \<le> ss_revision v"
    by (simp_all add: seen_def)
qed

text \<open>A first snapshot or a valid successor of the view keeps the invariant and becomes the view.\<close>

definition continues :: "(decision_job \<Rightarrow> bool) \<Rightarrow> job_snapshot option \<Rightarrow> job_snapshot \<Rightarrow> bool" where
  "continues admits v q \<longleftrightarrow>
     (case v of
        Some p \<Rightarrow> validateNext admits p q = Inr () \<and> job_key_of (ss_job p) = job_key_of (ss_job q)
      | None \<Rightarrow> validateFirst admits (ss_job q) = Inr () \<and> q = initial_snapshot (ss_job q))"

lemma initial_fields [simp]:
  "ss_revision (initial_snapshot j) = 1" "ss_job (initial_snapshot j) = j" "\<not> ss_deleted (initial_snapshot j)"
  "\<not> held (initial_snapshot j)"
  by (simp_all add: initial_snapshot_def held_def)

lemma continues_None:
  assumes "continues admits None q"
  shows "ss_revision q = 1 \<and> \<not> ss_deleted q \<and> \<not> held q \<and> validateFirst admits (ss_job q) = Inr ()"
proof -
  obtain j where "q = initial_snapshot j" "validateFirst admits (ss_job q) = Inr ()"
    using assms unfolding continues_def option.case by blast
  then show ?thesis by simp
qed

lemma continues_journal:
  assumes "readJournal admits c dir (job_key_of (ss_job q)) = Inr v" and "continues admits v q"
  shows "readJournal admits c (extended c q dir) (job_key_of (ss_job q)) = Inr (Some q)"
proof (rule extended_journal [OF assms(1)])
  show "ss_revision q = (case v of None \<Rightarrow> 1 | Some p \<Rightarrow> ss_revision p + 1)"
  proof (cases v)
    case None
    then show ?thesis using continues_None assms(2) by simp
  next
    case (Some p)
    then show ?thesis using validateNext_revision(1) [of admits p q] assms(2) by (simp add: continues_def)
  qed
  show "case v of Some p \<Rightarrow> validateNext admits p q = Inr ()
         | None \<Rightarrow> validateFirst admits (ss_job q) = Inr () \<and> \<not> ss_deleted q \<and> \<not> held q"
  proof (cases v)
    case None
    then show ?thesis using continues_None assms(2) by simp
  next
    case (Some p)
    then show ?thesis using assms(2) by (simp add: continues_def)
  qed
qed

lemma extended_invar:
  assumes "file_invar admits c dir" and "readJournal admits c dir (job_key_of (ss_job q)) = Inr v"
    and "continues admits v q"
  shows "file_invar admits c (extended c q dir)"
proof -
  have "hasMarker c dir k \<or> (\<exists>v. readJournal admits c (extended c q dir) k = Inr v)" for k
  proof (cases "k = job_key_of (ss_job q)")
    case True
    then show ?thesis using continues_journal [OF assms(2,3)] by blast
  next
    case False
    then have "fc_prefix c (job_key_of (ss_job q)) \<noteq> fc_prefix c k"
      using file_invarD(2) [OF assms(1)] by (auto dest: injD)
    then show ?thesis using file_invarD(3) [OF assms(1)] extended_other by simp
  qed
  then show ?thesis using file_invarD(1,2) [OF assms(1)] unfolding file_invar_def by simp
qed

lemma extended_view:
  assumes "file_invar admits c dir" and "readJournal admits c dir (job_key_of (ss_job q)) = Inr v"
    and "continues admits v q" and "\<not> isDeleted c dir (job_key_of (ss_job q))"
  shows "file_view admits c (extended c q dir) = (file_view admits c dir)(job_key_of (ss_job q) \<mapsto> q)"
proof
  fix k
  show "file_view admits c (extended c q dir) k = ((file_view admits c dir)(job_key_of (ss_job q) \<mapsto> q)) k"
  proof (cases "k = job_key_of (ss_job q)")
    case True
    then show ?thesis using continues_journal [OF assms(2,3)] assms(4) by (simp add: file_view_def)
  next
    case False
    then have "fc_prefix c (job_key_of (ss_job q)) \<noteq> fc_prefix c k"
      using file_invarD(2) [OF assms(1)] by (auto dest: injD)
    then show ?thesis using False extended_other by (simp add: file_view_def)
  qed
qed

section \<open>The operations\<close>

lemma publish_Inr:
  assumes "publish c q dir = Inr (b, dir')"
  shows "\<not> isDeleted c dir (job_key_of (ss_job q))" and "linkRevision c q dir = (b, dir')"
  using assms by (auto simp: publish_def split: if_splits)

lemma linkRevision_False: "linkRevision c q dir = (False, dir') \<Longrightarrow> dir' = dir"
  by (simp add: linkRevision_def Let_def split: if_splits)

lemma publish_True:
  assumes "file_invar admits c dir" and "publish c q dir = Inr (True, dir')"
    and "readJournal admits c dir (job_key_of (ss_job q)) = Inr v" and "continues admits v q"
  shows "file_invar admits c dir'" and "file_view admits c dir' = (file_view admits c dir)(job_key_of (ss_job q) \<mapsto> q)"
    and "file_view admits c dir (job_key_of (ss_job q)) = v"
proof -
  note p = publish_Inr [OF assms(2)]
  have d: "dir' = extended c q dir" by (rule linkRevision_True(1) [OF p(2)])
  show "file_invar admits c dir'" unfolding d by (rule extended_invar [OF assms(1,3,4)])
  show "file_view admits c dir' = (file_view admits c dir)(job_key_of (ss_job q) \<mapsto> q)"
    unfolding d by (rule extended_view [OF assms(1,3,4) p(1)])
  show "file_view admits c dir (job_key_of (ss_job q)) = v" using assms(3) p(1) by (simp add: file_view_def)
qed

lemma file_cas_Inr:
  assumes "file_invar admits c dir" and "file_cas admits c p q dir = Inr (b, dir')"
  shows "validateNext admits p q = Inr ()"
    and "if file_view admits c dir (job_key_of (ss_job p)) = Some p then publish c q dir = Inr (b, dir')
         else dir' = dir \<and> \<not> b"
  using assms(2) file_invar_read [OF assms(1)] by (auto simp: file_cas_def job_key_of_def split: if_splits)

lemma file_cas_swapped:
  assumes "file_invar admits c dir" and "file_cas admits c p q dir = Inr (True, dir')"
  shows "file_invar admits c dir'" and "file_view admits c dir (job_key_of (ss_job p)) = Some p"
    and "file_view admits c dir' = (file_view admits c dir)(job_key_of (ss_job p) \<mapsto> q)"
proof -
  note f = file_cas_Inr [OF assms]
  show v: "file_view admits c dir (job_key_of (ss_job p)) = Some p" using f(2) by (simp split: if_splits)
  then have p: "publish c q dir = Inr (True, dir')" using f(2) by simp
  have k: "job_key_of (ss_job q) = job_key_of (ss_job p)" by (rule validateNext_revision(5) [OF f(1)])
  have c: "continues admits (Some p) q" using f(1) k by (simp add: continues_def)
  note t = publish_True [OF assms(1) p _ c, unfolded k, OF file_view_valid(2) [OF v]]
  show "file_invar admits c dir'" by (rule t(1))
  show "file_view admits c dir' = (file_view admits c dir)(job_key_of (ss_job p) \<mapsto> q)" by (rule t(2))
qed

lemma file_cas_failed:
  assumes "file_invar admits c dir" and "file_cas admits c p q dir = Inr (False, dir')"
  shows "dir' = dir"
  using file_cas_Inr(2) [OF assms] linkRevision_False publish_Inr(2) by (metis (full_types))

lemma canonicalize_valid: "canonicalizeInitialJob admits j0 = Inr j \<Longrightarrow> validateFirst admits j = Inr ()"
  by (rule canonicalize_first)

lemma file_acquire_owner:
  assumes "file_invar admits c dir" and "file_acquire admits c j dir = Inr ((True, v), dir')"
  shows "file_invar admits c dir'" and "file_view admits c dir (job_key_of (ss_job v)) = None"
    and "file_view admits c dir' = (file_view admits c dir)(job_key_of (ss_job v) \<mapsto> v)"
    and "v = initial_snapshot (ss_job v)" and "validateFirst admits (ss_job v) = Inr ()"
proof -
  from assms(2) obtain i where i: "canonicalizeInitialJob admits j = Inr i" and v: "v = initial_snapshot i"
    and p: "publish c v dir = Inr (True, dir')"
    by (auto simp: file_acquire_def split: if_splits option.splits)
  show f: "validateFirst admits (ss_job v) = Inr ()" using canonicalize_valid [OF i] v by simp
  show e: "v = initial_snapshot (ss_job v)" using v by simp
  let ?k = "job_key_of (ss_job v)"
  have "\<not> hasMarker c dir ?k" using publish_Inr(1) [OF p] by (simp add: isDeleted_def)
  then obtain w where w: "readJournal admits c dir ?k = Inr w"
    using file_invarD(3) [OF assms(1)] by blast
  have "w = None"
  proof (rule ccontr)
    assume "w \<noteq> None"
    then obtain n where n: "revisions c dir ?k = [1..<Suc n]" "n \<noteq> 0" using readJournal_Inr [OF w] by metis
    then have "1 \<in> set (revisions c dir ?k)" by (simp del: upt_Suc)
    then have "map_of (jd_revisions dir) (fc_prefix c ?k, 1) \<noteq> None"
      using set_revisions [of 1 c dir ?k] by (simp add: has_key_def)
    moreover have "ss_revision v = 1" using v by simp
    ultimately show False
      using linkRevision_True(2) [OF publish_Inr(2) [OF p]] by simp
  qed
  moreover have "continues admits None v" using f e by (simp add: continues_def)
  ultimately show "file_invar admits c dir'" "file_view admits c dir ?k = None"
    "file_view admits c dir' = (file_view admits c dir)(?k \<mapsto> v)"
    using publish_True [OF assms(1) p w] by simp_all
qed

lemma file_acquire_guest:
  assumes "file_invar admits c dir" and "file_acquire admits c j dir = Inr ((False, v), dir')"
  shows "dir' = dir" and "file_view admits c dir (job_key_of (ss_job v)) = Some v"
proof -
  from assms(2) obtain i where p: "publish c (initial_snapshot i) dir = Inr (False, dir')"
    and r: "file_read admits c dir' (jb_scope i) (jb_id i) = Inr (Some v)"
    by (auto simp: file_acquire_def split: if_splits option.splits)
  show d: "dir' = dir" by (rule linkRevision_False [OF publish_Inr(2) [OF p]])
  have "file_view admits c dir (jb_scope i, jb_id i) = Some v"
    using r file_invar_read [OF assms(1)] d by simp
  then show "file_view admits c dir (job_key_of (ss_job v)) = Some v"
    using file_view_valid(4) by fastforce
qed

lemma file_cas_live:
  assumes "file_invar admits c dir" and "file_view admits c dir (job_key_of (ss_job p)) = Some p"
    and "validateNext admits p q = Inr ()"
  shows "\<exists>dir'. file_cas admits c p q dir = Inr (True, dir')"
proof -
  let ?k = "job_key_of (ss_job p)"
  note v = file_view_valid [OF assms(2)]
  have k: "job_key_of (ss_job q) = ?k" by (rule validateNext_revision(5) [OF assms(3)])
  obtain n where n: "revisions c dir ?k = [1..<Suc n]" "seen ?k n (Some p)" by (rule readJournal_Inr [OF v(2)])
  then have "nat (ss_revision q) = Suc n"
    using validateNext_revision(1) [OF assms(3)] by (simp add: seen_def)
  then have "\<not> has_key (jd_revisions dir) (fc_prefix c ?k, nat (ss_revision q))"
    using set_revisions [of "Suc n" c dir ?k] n(1) by (simp del: upt_Suc)
  then have "publish c q dir = Inr (True, extended c q dir)"
    using assms(1) v(1) k by (simp add: publish_def linkRevision_def extended_def ensureDirectory_def file_invarD(1))
  then show ?thesis
    using assms file_invar_read [OF assms(1)] by (simp add: file_cas_def job_key_of_def)
qed

interpretation journal: responsive_store admits "FileStore admits c" "file_view admits c" "file_invar admits c"
  for admits c
proof unfold_locales
  fix s :: job_directory and p q v r b s' j scope i k
  assume inv: "file_invar admits c s"
  { assume "so_read (FileStore admits c) s scope i = Inr r"
    then show "r = file_view admits c s (scope, i)" by (simp add: FileStore_def file_invar_read [OF inv]) }
  { assume "file_view admits c s k = Some v"
    then show "job_valid (ss_job v) \<and> job_key_of (ss_job v) = k \<and> 1 \<le> ss_revision v"
      using file_view_valid(3-5) by blast }
  { assume "so_cas (FileStore admits c) p q s = Inr (b, s')"
    then have f: "file_cas admits c p q s = Inr (b, s')" by (simp add: FileStore_def)
    then show "file_invar admits c s'"
    proof (cases b)
      case True
      then show ?thesis using file_cas_swapped(1) [OF inv] f by simp
    next
      case False
      then show ?thesis using file_cas_failed [OF inv] f inv by auto
    qed }
  { assume "so_cas (FileStore admits c) p q s = Inr (True, s')"
    then have "file_cas admits c p q s = Inr (True, s')" by (simp add: FileStore_def)
    then show "validateNext admits p q = Inr () \<and> file_view admits c s (job_key_of (ss_job p)) = Some p
      \<and> file_view admits c s' = (file_view admits c s)(job_key_of (ss_job p) \<mapsto> q)"
      using file_cas_Inr(1) [OF inv] file_cas_swapped(2,3) [OF inv] by blast }
  { assume "so_cas (FileStore admits c) p q s = Inr (False, s')"
    then have "file_cas admits c p q s = Inr (False, s')" by (simp add: FileStore_def)
    then have "s' = s" by (rule file_cas_failed [OF inv])
    then show "file_view admits c s' = file_view admits c s" by simp }
  { assume "so_acquire (FileStore admits c) j s = Inr ((b, v), s')"
    then have a: "file_acquire admits c j s = Inr ((b, v), s')" by (simp add: FileStore_def)
    then show "file_invar admits c s'"
    proof (cases b)
      case True
      then show ?thesis using file_acquire_owner(1) [OF inv] a by simp
    next
      case False
      then show ?thesis using file_acquire_guest(1) [OF inv] a inv by auto
    qed }
  { assume "so_acquire (FileStore admits c) j s = Inr ((True, v), s')"
    then have "file_acquire admits c j s = Inr ((True, v), s')" by (simp add: FileStore_def)
    then show "file_view admits c s (job_key_of (ss_job v)) = None
      \<and> file_view admits c s' = (file_view admits c s)(job_key_of (ss_job v) \<mapsto> v)
      \<and> v = initial_snapshot (ss_job v) \<and> validateFirst admits (ss_job v) = Inr ()"
      using file_acquire_owner [OF inv] by blast }
  { assume "so_acquire (FileStore admits c) j s = Inr ((False, v), s')"
    then have "file_acquire admits c j s = Inr ((False, v), s')" by (simp add: FileStore_def)
    then show "file_view admits c s' = file_view admits c s \<and> file_view admits c s (job_key_of (ss_job v)) = Some v"
      using file_acquire_guest [OF inv] by blast }
  { show "so_read (FileStore admits c) s scope i = Inr (file_view admits c s (scope, i))"
      by (simp add: FileStore_def file_invar_read [OF inv]) }
  { assume "file_view admits c s (job_key_of (ss_job p)) = Some p" and "validateNext admits p q = Inr ()"
    then show "\<exists>s'. so_cas (FileStore admits c) p q s = Inr (True, s')"
      using file_cas_live [OF inv] by (simp add: FileStore_def) }
qed

end
