(* ===== verification/FileStoreConcurrency.thy ===== *)
theory FileStoreConcurrency
  imports FileStoreContract
begin

text \<open>
  Processes that share the directory of a file store (\<open>FileJobStore\<close>,
  \<open>src/decision/job-store.ts\<close>). A swap is two steps, the checked read and the link of the next
  revision, and steps of other processes, erasures included, may come between them. An erasure is
  the sequence of its effects and may stop after any of them.
\<close>

section \<open>Interleaved processes\<close>

record store_world =
  sw_dir :: job_directory
  sw_swaps :: "(job_snapshot \<times> job_snapshot) set"

abbreviation snapshot_key :: "job_snapshot \<Rightarrow> job_key" where
  "snapshot_key v \<equiv> job_key_of (ss_job v)"

text \<open>\<open>sw_swaps\<close> holds the swaps that have passed their checks and not yet linked. The link is not
  guarded by the marker here: the marker may appear between the check in \<open>publish\<close> and the link.\<close>

inductive world_step ::
    "(decision_job \<Rightarrow> bool) \<Rightarrow> file_config \<Rightarrow> store_world \<Rightarrow> store_world \<Rightarrow> bool" for admits c where
  check: "validateNext admits p q = Inr () \<Longrightarrow>
      file_read admits c (sw_dir w) (jb_scope (ss_job p)) (jb_id (ss_job p)) = Inr (Some p) \<Longrightarrow>
      world_step admits c w (w\<lparr>sw_swaps := insert (p, q) (sw_swaps w)\<rparr>)"
| link: "(p, q) \<in> sw_swaps w \<Longrightarrow> linkRevision c q (sw_dir w) = (b, d) \<Longrightarrow>
      world_step admits c w (w\<lparr>sw_dir := d, sw_swaps := sw_swaps w - {(p, q)}\<rparr>)"
| acquire: "canonicalizeInitialJob admits i = Inr j \<Longrightarrow> linkRevision c (initial_snapshot j) (sw_dir w) = (b, d) \<Longrightarrow>
      world_step admits c w (w\<lparr>sw_dir := d\<rparr>)"
| mark: "world_step admits c w (w\<lparr>sw_dir := purge_apply (WriteMarker (fc_prefix c k)) (sw_dir w)\<rparr>)"
| erase: "hasMarker c (sw_dir w) k \<Longrightarrow>
      world_step admits c w (w\<lparr>sw_dir := purge_apply (RemoveFile (fc_prefix c k, r)) (sw_dir w)\<rparr>)"

inductive world_run ::
    "(decision_job \<Rightarrow> bool) \<Rightarrow> file_config \<Rightarrow> store_world \<Rightarrow> store_world \<Rightarrow> bool" for admits c where
  world_start: "world_run admits c w w"
| world_next: "world_run admits c u v \<Longrightarrow> world_step admits c v w \<Longrightarrow> world_run admits c u w"

lemma link_cases:
  assumes "linkRevision c q dir = (b, d)"
  obtains "b" and "linkRevision c q dir = (True, d)" and "d = extended c q dir" | "\<not> b" and "d = dir"
proof (cases b)
  case True
  with assms have "linkRevision c q dir = (True, d)" by simp
  then show ?thesis using that(1) True linkRevision_True(1) by blast
next
  case False
  with assms have "linkRevision c q dir = (False, d)" by simp
  then show ?thesis using that(2) False linkRevision_False by blast
qed

lemma readJournal_last:
  assumes "readJournal admits c dir k = Inr v"
  shows "\<exists>n. revisions c dir k = [1..<Suc n] \<and> seen k n v \<and> (v = None \<longleftrightarrow> n = 0)
    \<and> (n \<noteq> 0 \<longrightarrow> map_of (jd_revisions dir) (fc_prefix c k, n) = v)"
  by (rule readJournal_Inr [OF assms]) blast

section \<open>Erasing files\<close>

lemma map_of_remove: "map_of (filter (\<lambda>(g, v). g \<noteq> f) xs) x = (if x = f then None else map_of xs x)"
  by (induction xs) auto

lemma purge_fields [simp]:
  "jd_private (purge_apply e dir) = jd_private dir"
  "jd_revisions (purge_apply (WriteMarker p) dir) = jd_revisions dir"
  "jd_markers (purge_apply (RemoveFile f) dir) = jd_markers dir"
  "jd_revisions (purge_apply (RemoveFile f) dir) = filter (\<lambda>(g, v). g \<noteq> f) (jd_revisions dir)"
  by (cases e) auto

lemma marked_apply [simp]:
  "hasMarker c (purge_apply (WriteMarker p) dir) k \<longleftrightarrow> fc_prefix c k = p \<or> hasMarker c dir k"
  "hasMarker c (purge_apply (RemoveFile f) dir) k \<longleftrightarrow> hasMarker c dir k"
  by (auto simp: hasMarker_def)

declare purge_apply.simps [simp del]

lemma readJournal_files:
  assumes "\<And>r. map_of (jd_revisions d) (fc_prefix c k, r) = map_of (jd_revisions dir) (fc_prefix c k, r)"
    and "revisions c d k = revisions c dir k"
  shows "readJournal admits c d k = readJournal admits c dir k"
proof -
  have "readRevision admits c d k = readRevision admits c dir k"
    by (intro ext) (simp add: readRevision_def assms(1) split: prod.splits)
  then show ?thesis by (simp add: readJournal_def assms(2))
qed

lemma marker_journal: "readJournal admits c (purge_apply (WriteMarker p) dir) k = readJournal admits c dir k"
  by (rule readJournal_files) (simp_all add: revisions_def)

lemma erased_revisions:
  assumes "fst f \<noteq> fc_prefix c k"
  shows "revisions c (purge_apply (RemoveFile f) dir) k = revisions c dir k"
proof -
  have "filter (\<lambda>g. fst (fst g) = fc_prefix c k) (filter (\<lambda>(g, v). g \<noteq> f) xs)
      = filter (\<lambda>g. fst (fst g) = fc_prefix c k) xs" for xs :: "((string \<times> nat) \<times> job_snapshot) list"
    using assms by (induction xs) auto
  then show ?thesis by (simp add: revisions_def)
qed

lemma erased_journal:
  assumes "fst f \<noteq> fc_prefix c k"
  shows "readJournal admits c (purge_apply (RemoveFile f) dir) k = readJournal admits c dir k"
  by (rule readJournal_files [OF _ erased_revisions [OF assms]]) (use assms in \<open>auto simp: map_of_remove\<close>)

lemma file_invarI:
  assumes "jd_private dir" and "inj (fc_prefix c)"
    and "\<And>k. hasMarker c dir k \<or> (\<exists>v. readJournal admits c dir k = Inr v)"
  shows "file_invar admits c dir"
  using assms unfolding file_invar_def by blast

lemma marker_invar: "file_invar admits c dir \<Longrightarrow> file_invar admits c (purge_apply (WriteMarker p) dir)"
  by (rule file_invarI, simp_all only: purge_fields marker_journal marked_apply)
    (blast dest: file_invarD)+

lemma erase_invar:
  assumes "file_invar admits c dir" and "hasMarker c dir k"
  shows "file_invar admits c (purge_apply (RemoveFile (fc_prefix c k, r)) dir)"
proof (rule file_invarI)
  fix k'
  show "hasMarker c (purge_apply (RemoveFile (fc_prefix c k, r)) dir) k'
    \<or> (\<exists>v. readJournal admits c (purge_apply (RemoveFile (fc_prefix c k, r)) dir) k' = Inr v)"
  proof (cases "fc_prefix c k = fc_prefix c k'")
    case True
    then have "hasMarker c dir k'" using assms(2) by (simp add: hasMarker_def)
    then show ?thesis by simp
  next
    case False
    then show ?thesis using file_invarD(3) [OF assms(1), of k'] erased_journal by simp
  qed
qed (use file_invarD [OF assms(1)] in simp_all)

lemma marked_extended_invar:
  assumes "file_invar admits c dir" and "hasMarker c dir (snapshot_key q)"
  shows "file_invar admits c (extended c q dir)"
proof (rule file_invarI)
  fix k
  show "hasMarker c (extended c q dir) k \<or> (\<exists>v. readJournal admits c (extended c q dir) k = Inr v)"
  proof (cases "fc_prefix c (snapshot_key q) = fc_prefix c k")
    case True
    then show ?thesis using assms(2) by (simp add: hasMarker_def)
  next
    case False
    then show ?thesis using file_invarD(3) [OF assms(1), of k] extended_other by simp
  qed
qed (use file_invarD [OF assms(1)] in simp_all)

section \<open>The invariant of the interleaved processes\<close>

definition swap_pending :: "(decision_job \<Rightarrow> bool) \<Rightarrow> file_config \<Rightarrow> job_directory \<Rightarrow> job_snapshot \<times> job_snapshot \<Rightarrow> bool" where
  "swap_pending admits c dir s \<longleftrightarrow>
     validateNext admits (fst s) (snd s) = Inr () \<and> 1 \<le> ss_revision (fst s)
     \<and> (hasMarker c dir (snapshot_key (fst s))
        \<or> map_of (jd_revisions dir) (fc_prefix c (snapshot_key (fst s)), nat (ss_revision (fst s))) = Some (fst s))"

definition world_ok :: "(decision_job \<Rightarrow> bool) \<Rightarrow> file_config \<Rightarrow> store_world \<Rightarrow> bool" where
  "world_ok admits c w \<longleftrightarrow>
     file_invar admits c (sw_dir w) \<and> (\<forall>s \<in> sw_swaps w. swap_pending admits c (sw_dir w) s)"

text \<open>A pending swap that links on an unmarked journal still expects its last revision.\<close>

lemma pending_is_last:
  assumes "file_invar admits c dir" and "swap_pending admits c dir (p, q)"
    and "\<not> hasMarker c dir (snapshot_key p)" and "linkRevision c q dir = (True, d)"
  shows "readJournal admits c dir (snapshot_key p) = Inr (Some p)"
proof -
  let ?k = "snapshot_key p"
  have n: "validateNext admits p q = Inr ()" and r: "1 \<le> ss_revision p"
    and present: "map_of (jd_revisions dir) (fc_prefix c ?k, nat (ss_revision p)) = Some p"
    using assms(2,3) by (auto simp: swap_pending_def)
  have k: "snapshot_key q = ?k" by (rule validateNext_revision(5) [OF n])
  have "nat (ss_revision q) = Suc (nat (ss_revision p))" using validateNext_revision(1) [OF n] r by simp
  then have free: "map_of (jd_revisions dir) (fc_prefix c ?k, Suc (nat (ss_revision p))) = None"
    using linkRevision_True(2) [OF assms(4)] k by simp
  obtain v where v: "readJournal admits c dir ?k = Inr v" using file_invarD(3) [OF assms(1)] assms(3) by blast
  obtain m where m: "revisions c dir ?k = [1..<Suc m]" "m \<noteq> 0 \<longrightarrow> map_of (jd_revisions dir) (fc_prefix c ?k, m) = v"
    using readJournal_last [OF v] by blast
  have "nat (ss_revision p) \<in> set [1..<Suc m]" "Suc (nat (ss_revision p)) \<notin> set [1..<Suc m]"
    using set_revisions [of "nat (ss_revision p)" c dir ?k] set_revisions [of "Suc (nat (ss_revision p))" c dir ?k]
    unfolding m(1) has_key_def present free by simp_all
  then have "m = nat (ss_revision p)" "m \<noteq> 0" using r by auto
  then show ?thesis using v m(2) present by simp
qed

lemma pending_mono:
  assumes "swap_pending admits c dir s"
    and "\<And>k. hasMarker c dir k \<Longrightarrow> hasMarker c d k"
    and "\<And>k r v. \<not> hasMarker c d k \<Longrightarrow> map_of (jd_revisions dir) (fc_prefix c k, r) = Some v
      \<Longrightarrow> map_of (jd_revisions d) (fc_prefix c k, r) = Some v"
  shows "swap_pending admits c d s"
  using assms unfolding swap_pending_def by blast

lemma link_pending:
  assumes "swap_pending admits c dir s" and "linkRevision c q dir = (b, d)"
  shows "swap_pending admits c d s"
  using assms(2)
proof (cases rule: link_cases)
  case 1
  show ?thesis unfolding 1(3) by (rule pending_mono [OF assms(1)]) (auto intro: extended_old)
qed (use assms(1) in simp)

lemma link_invar:
  assumes "file_invar admits c dir" and "swap_pending admits c dir (p, q)" and "linkRevision c q dir = (b, d)"
  shows "file_invar admits c d"
  using assms(3)
proof (cases rule: link_cases)
  case 1
  note l = 1(2) and d = 1(3)
  have n: "validateNext admits p q = Inr ()" using assms(2) by (simp add: swap_pending_def)
  have k: "snapshot_key q = snapshot_key p" by (rule validateNext_revision(5) [OF n])
  show ?thesis
  proof (cases "hasMarker c dir (snapshot_key p)")
    case True
    then show ?thesis unfolding d by (intro marked_extended_invar [OF assms(1)]) (simp add: k)
  next
    case False
    have j: "readJournal admits c dir (snapshot_key q) = Inr (Some p)"
      unfolding k by (rule pending_is_last [OF assms(1,2) False l])
    show ?thesis unfolding d by (rule extended_invar [OF assms(1) j]) (simp add: continues_def n k)
  qed
qed (use assms(1) in simp)

lemma first_invar:
  assumes "file_invar admits c dir" and "validateFirst admits j = Inr ()"
    and "linkRevision c (initial_snapshot j) dir = (b, d)"
  shows "file_invar admits c d"
  using assms(3)
proof (cases rule: link_cases)
  case 1
  note l = 1(2) and d = 1(3)
  let ?k = "job_key_of j"
  show ?thesis
  proof (cases "hasMarker c dir ?k")
    case True
    then show ?thesis unfolding d by (intro marked_extended_invar [OF assms(1)]) simp
  next
    case False
    then obtain v where v: "readJournal admits c dir ?k = Inr v" using file_invarD(3) [OF assms(1)] by blast
    obtain m where m: "revisions c dir ?k = [1..<Suc m]" "v = None \<longleftrightarrow> m = 0" by (rule readJournal_Inr [OF v])
    have "1 \<notin> set (revisions c dir ?k)"
      using linkRevision_True(2) [OF l] set_revisions [of 1 c dir ?k] by (simp add: has_key_def)
    then have "v = None" using m by (simp del: upt_Suc)
    then have "continues admits v (initial_snapshot j)" using assms(2) by (simp add: continues_def)
    then show ?thesis unfolding d using extended_invar [OF assms(1)] v by simp
  qed
qed (use assms(1) in simp)

lemma world_step_ok:
  assumes "world_step admits c w w'" and "world_ok admits c w"
  shows "world_ok admits c w'"
proof -
  have inv: "file_invar admits c (sw_dir w)" and pend: "\<And>s. s \<in> sw_swaps w \<Longrightarrow> swap_pending admits c (sw_dir w) s"
    using assms(2) by (simp_all add: world_ok_def)
  from assms(1) show ?thesis
  proof (cases rule: world_step.cases)
    case (check p q)
    have "file_view admits c (sw_dir w) (snapshot_key p) = Some p"
      using check(3) file_invar_read [OF inv] by (simp add: job_key_of_def)
    note v = file_view_valid [OF this]
    obtain m where m: "seen (snapshot_key p) m (Some p)"
      "m \<noteq> 0 \<longrightarrow> map_of (jd_revisions (sw_dir w)) (fc_prefix c (snapshot_key p), m) = Some p"
      using readJournal_last [OF v(2)] by blast
    then have "swap_pending admits c (sw_dir w) (p, q)"
      using check(2) by (simp add: swap_pending_def seen_def)
    then show ?thesis using check(1) inv pend by (simp add: world_ok_def)
  next
    case (link p q b d)
    have "file_invar admits c d" by (rule link_invar [OF inv pend [OF link(2)] link(3)])
    then show ?thesis using link(1) pend link_pending [OF _ link(3)] by (simp add: world_ok_def)
  next
    case (acquire i j b d)
    have "file_invar admits c d" by (rule first_invar [OF inv canonicalize_first [OF acquire(2)] acquire(3)])
    then show ?thesis using acquire(1) pend link_pending [OF _ acquire(3)] by (simp add: world_ok_def)
  next
    case (mark k)
    have "swap_pending admits c (purge_apply (WriteMarker (fc_prefix c k)) (sw_dir w)) s" if "s \<in> sw_swaps w" for s
      by (rule pending_mono [OF pend [OF that]]) simp_all
    then show ?thesis using mark marker_invar [OF inv] by (simp add: world_ok_def)
  next
    case (erase k r)
    have "swap_pending admits c (purge_apply (RemoveFile (fc_prefix c k, r)) (sw_dir w)) s" if "s \<in> sw_swaps w" for s
    proof (rule pending_mono [OF pend [OF that]])
      fix k' r' v
      assume "\<not> hasMarker c (purge_apply (RemoveFile (fc_prefix c k, r)) (sw_dir w)) k'"
        and o: "map_of (jd_revisions (sw_dir w)) (fc_prefix c k', r') = Some v"
      then have "fc_prefix c k' \<noteq> fc_prefix c k" using erase(2) by (auto simp: hasMarker_def)
      then show "map_of (jd_revisions (purge_apply (RemoveFile (fc_prefix c k, r)) (sw_dir w))) (fc_prefix c k', r') = Some v"
        using o by (simp add: map_of_remove)
    qed simp
    then show ?thesis using erase(1) erase_invar [OF inv erase(2)] by (simp add: world_ok_def)
  qed
qed

lemma world_run_ok: "world_run admits c w w' \<Longrightarrow> world_ok admits c w \<Longrightarrow> world_ok admits c w'"
  by (induction rule: world_run.induct) (auto intro: world_step_ok)

section \<open>Interrupted erasures\<close>

text \<open>The directory after an erasure that stopped after \<open>m\<close> effects.\<close>

definition purged :: "file_config \<Rightarrow> job_key \<Rightarrow> nat \<Rightarrow> job_directory \<Rightarrow> job_directory" where
  "purged c k m dir = fold purge_apply (take m (purge_effects c dir k)) dir"

lemma erase_files:
  assumes "list_all (\<lambda>f. fst f = fc_prefix c k) fs" and "file_invar admits c dir" and "hasMarker c dir k"
  shows "file_invar admits c (fold purge_apply (map RemoveFile fs) dir)
    \<and> jd_markers (fold purge_apply (map RemoveFile fs) dir) = jd_markers dir
    \<and> (\<forall>k'. fc_prefix c k' \<noteq> fc_prefix c k \<longrightarrow>
         readJournal admits c (fold purge_apply (map RemoveFile fs) dir) k' = readJournal admits c dir k')"
  using assms
proof (induction fs arbitrary: dir)
  case Nil
  then show ?case by simp
next
  case (Cons f fs)
  obtain r where f: "f = (fc_prefix c k, r)" using Cons.prems(1) by (cases f) auto
  let ?d = "purge_apply (RemoveFile f) dir"
  have "file_invar admits c ?d" unfolding f by (rule erase_invar [OF Cons.prems(2,3)])
  moreover have "hasMarker c ?d k" using Cons.prems(3) by simp
  moreover have "readJournal admits c ?d k' = readJournal admits c dir k'" if "fc_prefix c k' \<noteq> fc_prefix c k" for k'
    using erased_journal [of f c k'] that by (simp add: f)
  ultimately show ?case using Cons.IH [of ?d] Cons.prems(1) by (simp del: split_paired_All)
qed

lemma purged_Suc:
  "\<exists>fs. list_all (\<lambda>f. fst f = fc_prefix c k) fs
     \<and> purged c k (Suc m) dir = fold purge_apply (map RemoveFile fs) (purge_apply (WriteMarker (fc_prefix c k)) dir)"
proof -
  let ?fs = "take m (filter (\<lambda>f. fst f = fc_prefix c k \<and> 1 \<le> snd f) (map fst (jd_revisions dir)))"
  have "list_all (\<lambda>f. fst f = fc_prefix c k) ?fs" by (auto simp: list_all_iff dest!: in_set_takeD)
  moreover have "purged c k (Suc m) dir
      = fold purge_apply (map RemoveFile ?fs) (purge_apply (WriteMarker (fc_prefix c k)) dir)"
    by (simp add: purged_def purge_effects_def take_map)
  ultimately show ?thesis by blast
qed

lemma purged_view:
  assumes "file_invar admits c dir" and "0 < m"
  shows "file_invar admits c (purged c k m dir)" and "hasMarker c (purged c k m dir) k"
    and "file_view admits c (purged c k m dir) = (file_view admits c dir)(k := None)"
proof -
  let ?M = "purge_apply (WriteMarker (fc_prefix c k)) dir"
  obtain fs where fs: "list_all (\<lambda>f. fst f = fc_prefix c k) fs"
    and d: "purged c k m dir = fold purge_apply (map RemoveFile fs) ?M"
    using purged_Suc [of c k "m - 1" dir] assms(2) by auto
  have "hasMarker c ?M k" by simp
  note e = erase_files [OF fs marker_invar [OF assms(1)] this, folded d]
  have mk: "hasMarker c (purged c k m dir) k' \<longleftrightarrow> fc_prefix c k' = fc_prefix c k \<or> hasMarker c dir k'" for k'
    using e marked_apply(1) [of c "fc_prefix c k" dir k'] by (simp add: hasMarker_def)
  show "file_invar admits c (purged c k m dir)" "hasMarker c (purged c k m dir) k" using e mk by blast+
  show "file_view admits c (purged c k m dir) = (file_view admits c dir)(k := None)"
  proof
    fix k'
    have "k' = k \<longleftrightarrow> fc_prefix c k' = fc_prefix c k" using file_invarD(2) [OF assms(1)] by (auto dest: injD)
    then show "file_view admits c (purged c k m dir) k' = ((file_view admits c dir)(k := None)) k'"
      using e mk by (simp add: file_view_def isDeleted_def marker_journal del: split_paired_All)
  qed
qed

lemma erase_all:
  "map fst (jd_revisions (fold purge_apply (map RemoveFile fs) dir)) = filter (\<lambda>f. f \<notin> set fs) (map fst (jd_revisions dir))"
proof (induction fs arbitrary: dir)
  case (Cons f fs)
  have "map fst (filter (\<lambda>(g, v). g \<noteq> f) xs) = filter (\<lambda>g. g \<noteq> f) (map fst xs)" for xs :: "((string \<times> nat) \<times> job_snapshot) list"
    by (induction xs) auto
  then show ?case using Cons by (simp add: conj_commute)
qed simp

lemma canonicalize_key: "canonicalizeInitialJob admits j0 = Inr j \<Longrightarrow> job_key_of j = job_key_of j0"
  by (auto simp: canonicalizeInitialJob_def Let_def job_key_of_def split: if_splits)

lemma marked_acquire:
  assumes "hasMarker c dir (job_key_of j)"
  shows "file_acquire admits c j dir \<noteq> Inr r"
  using assms canonicalize_key [of admits j] by (auto simp: file_acquire_def isDeleted_def)

text \<open>A complete erasure leaves no revision, also when it is resumed.\<close>

lemma purge_leaves_none: "(fc_prefix c k, Suc n) \<notin> fst ` set (jd_revisions (fold purge_apply (purge_effects c dir k) dir))"
proof -
  have "fst ` set (jd_revisions (purge_apply (WriteMarker p) d)) = fst ` set (jd_revisions d)" for p d by simp
  then show ?thesis
    unfolding set_map [symmetric] purge_effects_def by (auto simp: erase_all simp del: set_map)
qed

end
