(* ===== verification/JobGuarantees.thy ===== *)
theory JobGuarantees
  imports FileStoreConcurrency
begin

text \<open>
  What users of the job layer rely on, across contract, stores and runtime
  (\<open>src/decision/job-contract.ts\<close>, \<open>job-store.ts\<close>, \<open>job-runtime.ts\<close>), with the concrete stores
  on which the statements are exercised.
\<close>

section \<open>Concrete stores\<close>

text \<open>An injective stand-in for the digest: every string is written with a prefix per character and
  an end mark.\<close>

definition demo_encode :: "string \<Rightarrow> string" where
  "demo_encode s = concat (map (\<lambda>c. [CHR ''x'', c]) s) @ ''.''"

definition demo_config :: file_config where
  "demo_config =
     \<lparr>fc_prefix = (\<lambda>(scope, i). demo_encode (sp_tenantId scope) @ demo_encode (sp_projectId scope)
        @ demo_encode (sp_workspaceId scope) @ demo_encode (sp_principalId scope) @ demo_encode i),
      fc_externallyDeleted = (\<lambda>k. False)\<rparr>"

lemma demo_encode_inj: "demo_encode s @ r = demo_encode t @ u \<longleftrightarrow> s = t \<and> r = u"
proof (induction s arbitrary: t)
  case Nil
  then show ?case by (cases t) (auto simp: demo_encode_def)
next
  case (Cons c s)
  then show ?case by (cases t) (auto simp: demo_encode_def)
qed

lemma demo_prefix_inj: "inj (fc_prefix demo_config)"
proof (rule injI)
  fix k l :: job_key
  assume e: "fc_prefix demo_config k = fc_prefix demo_config l"
  obtain a i b j where kl: "k = (a, i)" "l = (b, j)" by (cases k, cases l) blast
  have "demo_encode i @ [] = demo_encode j @ [] \<longleftrightarrow> i = j" by (simp only: demo_encode_inj simp_thms)
  with e show "k = l" by (simp add: kl demo_config_def demo_encode_inj)
qed

definition demo_directory :: job_directory where
  "demo_directory = \<lparr>jd_private = True, jd_revisions = [], jd_markers = []\<rparr>"

lemma demo_directory_invar: "file_invar admits demo_config demo_directory"
  by (rule file_invarI) (simp_all add: demo_prefix_inj demo_directory_def readJournal_def revisions_def)

definition new_job :: decision_job where
  "new_job = demo_job JobValidating [demo_item ItemQueued []]"

abbreviation demo_scope :: job_scope where
  "demo_scope \<equiv> jb_scope new_job"

lemma new_job_key: "job_key_of new_job = (demo_scope, ''j'')"
  by (simp add: new_job_def demo_job_def job_key_of_def)

lemma new_job_valid: "job_valid new_job"
  unfolding new_job_def
proof (rule demo_job_valid_item)
  show "schema_item (demo_item ItemQueued [])" by (rule demo_item_schema) simp_all
qed (simp_all add: item_sound_def demo_budget_def demo_item_def truthy_def RESULT_STATES_def item_tokens_def
  item_cost_def state_consistent_def state_count_def)

lemma new_job_first: "validateFirst (\<lambda>j. True) new_job = Inr ()"
  using new_job_valid by (simp add: validateFirst_def validate_iff) (simp add: new_job_def demo_item_def)

lemma new_job_canonical: "canonicalizeInitialJob (\<lambda>j. True) new_job = Inr new_job"
proof -
  have "foldR collapseItem [] (jb_items new_job) = Inr [(''i'', demo_item ItemQueued [])]"
    by (simp add: new_job_def collapseItem_def demo_item_def)
  then show ?thesis
    using new_job_first by (simp add: canonicalizeInitialJob_def) (simp add: new_job_def)
qed

text \<open>The file store after the first job was submitted.\<close>

definition submitted :: job_directory where
  "submitted = extended demo_config (initial_snapshot new_job) demo_directory"

lemma empty_journal: "readJournal admits c demo_directory k = Inr None"
  by (simp add: demo_directory_def readJournal_def revisions_def)

lemma new_job_continues: "continues (\<lambda>j. True) None (initial_snapshot new_job)"
  using new_job_first by (simp add: continues_def)

lemma submitted_invar: "file_invar (\<lambda>j. True) demo_config submitted"
  unfolding submitted_def
  by (rule extended_invar [OF demo_directory_invar empty_journal new_job_continues])

lemma submitted_view:
  "file_view (\<lambda>j. True) demo_config submitted
     = (file_view (\<lambda>j. True) demo_config demo_directory)((demo_scope, ''j'') \<mapsto> initial_snapshot new_job)"
proof -
  have "\<not> isDeleted demo_config demo_directory (snapshot_key (initial_snapshot new_job))"
    by (simp add: isDeleted_def hasMarker_def demo_directory_def demo_config_def)
  from extended_view [OF demo_directory_invar empty_journal new_job_continues this] show ?thesis
    by (simp add: submitted_def new_job_key)
qed

lemma submitted_live: "journal.live (\<lambda>j. True) demo_config submitted demo_scope ''j'' (initial_snapshot new_job)"
  using submitted_invar submitted_view by (simp add: journal.live_def)

text \<open>A memory store with one record.\<close>

definition one_record :: "job_snapshot \<Rightarrow> memory_records" where
  "one_record v = [(job_key_of (ss_job v), v)]"

lemma one_record_invar: "job_valid (ss_job v) \<Longrightarrow> 1 \<le> ss_revision v \<Longrightarrow> memory_invar (one_record v)"
  by (simp add: memory_invar_def one_record_def)

lemma one_record_view [simp]: "map_of (one_record v) (job_key_of (ss_job v)) = Some v"
  by (simp add: one_record_def)

lemma new_job_times: "jb_expiresAt new_job = 100" "jb_state new_job = JobValidating"
  by (simp_all add: new_job_def demo_job_def)

section \<open>Histories\<close>

text \<open>C11: A store keeps the history of every job, whatever the runtime does. Along any run of runtime
  operations on the memory store (submissions, revisions, retries, cancellations, reconciliations,
  expiries, holds and removals by any actors at any times) a record is never lost: what it held
  before leads to what it holds afterwards by valid successors only, with growing revisions, an
  append-only job, reservations that only grow and stay within the budget; a deleted record is
  never revived.\<close>

theorem runtime_keeps_history:
  assumes "runtime_run admits (MemoryJobStore admits) s s'" and "memory_invar s" and "map_of s k = Some v"
  shows "\<exists>v'. map_of s' k = Some v' \<and> revises admits v v' \<and> snapshot_grows v v' \<and> job_key_of (ss_job v') = k
    \<and> job_tokens (ss_job v) \<le> job_tokens (ss_job v') \<and> job_tokens (ss_job v') \<le> bd_maxTokens (jb_budget (ss_job v))
    \<and> job_cost (ss_job v) \<le> job_cost (ss_job v') \<and> job_cost (ss_job v') \<le> bd_maxCostMicros (jb_budget (ss_job v))"
proof -
  have g: "memory_invar s' \<and> memory.view_grows admits s s'" by (rule memory.runtime_run_grows [OF assms(1,2)])
  then obtain v' where v': "map_of s' k = Some v'" and r: "revises admits v v'"
    using assms(3) unfolding memory.view_grows_def by blast
  have e: "job_evolves (ss_job v) (ss_job v')" using revises_grows [OF r] by (simp add: snapshot_grows_def)
  have valid: "job_valid (ss_job v')" "job_key_of (ss_job v') = k" using memory_invarD [OF conjunct1 [OF g] v'] by simp_all
  then have "schema_job (ss_job v')" by (simp add: job_valid_def)
  note sums = evolves_job_sums [OF e this]
  then show ?thesis
    using v' r revises_grows [OF r] valid e by (auto simp: job_valid_def job_evolves_def)
qed

text \<open>C18: A legal hold outlives everything but its explicit release. If a held job of the file store is
  deleted at the end of any run of runtime operations, then its history contains a revision that
  released the hold and changed nothing else, before the deletion.\<close>

theorem hold_outlives_runs:
  assumes "runtime_run admits (FileStore admits c) s s'" and "file_invar admits c s"
    and "file_view admits c s k = Some v" and "held v" and "\<not> ss_deleted v"
    and "file_view admits c s' k = Some v'" and "ss_deleted v'"
  shows "\<exists>p q. revises admits v p \<and> validateNext admits p q = Inr () \<and> held p \<and> \<not> held q
    \<and> ss_job q = ss_job p \<and> \<not> ss_deleted q \<and> revises admits q v'"
proof -
  have "journal.view_grows admits c s s'" using journal.runtime_run_grows [OF assms(1,2)] by blast
  then have "revises admits v v'" using assms(3,6) unfolding journal.view_grows_def by fastforce
  then show ?thesis using revises_release assms(4,5,7) by blast
qed

section \<open>Concurrent swaps and erasures\<close>

text \<open>C12: Concurrent swaps on the file store lose no update. Processes check their swaps, link new
  revisions, create jobs, mark and erase journals in any interleaving. If a process whose swap
  passed its checks some time ago publishes its revision now, then the snapshot it expected is
  still the current one, the new snapshot takes its place and nothing else changes; in particular
  of two swaps that expect the same snapshot at most one is published.\<close>

theorem no_lost_update:
  assumes "world_run admits c \<lparr>sw_dir = dir, sw_swaps = {}\<rparr> w" and "file_invar admits c dir"
    and "(p, q) \<in> sw_swaps w" and "publish c q (sw_dir w) = Inr (True, dir')"
  shows "file_view admits c (sw_dir w) (snapshot_key p) = Some p
    \<and> file_view admits c dir' = (file_view admits c (sw_dir w))(snapshot_key p \<mapsto> q)
    \<and> file_invar admits c dir'"
proof -
  have ok: "world_ok admits c w" by (rule world_run_ok [OF assms(1)]) (simp add: world_ok_def assms(2))
  have inv: "file_invar admits c (sw_dir w)" and pend: "swap_pending admits c (sw_dir w) (p, q)"
    using ok assms(3) by (simp_all add: world_ok_def)
  have n: "validateNext admits p q = Inr ()" using pend by (simp add: swap_pending_def)
  have k: "snapshot_key q = snapshot_key p" by (rule validateNext_revision(5) [OF n])
  note p = publish_Inr [OF assms(4), unfolded k]
  have "\<not> hasMarker c (sw_dir w) (snapshot_key p)" using p(1) by (simp add: isDeleted_def)
  then have j: "readJournal admits c (sw_dir w) (snapshot_key p) = Inr (Some p)"
    by (rule pending_is_last [OF inv pend _ p(2)])
  have "continues admits (Some p) q" using n k by (simp add: continues_def)
  then show ?thesis using publish_True [OF inv assms(4), unfolded k, OF j] by simp
qed

text \<open>C17: An interrupted erasure never brings a job back. After any positive number of the effects of
  \<open>purgeDeleted\<close>, be it the first erasure of the job or one that is resumed, the directory still
  reads, the erased job reads as absent, its id is refused to new submissions, and every other job
  reads as before; the complete effects leave no revision file of the job, whatever the directory
  held.\<close>

theorem interrupted_purge_safe:
  assumes "file_invar admits c dir" and "0 < m" and "job_key_of j = k"
  shows "file_invar admits c (purged c k m dir)
    \<and> file_view admits c (purged c k m dir) = (file_view admits c dir)(k := None)
    \<and> file_acquire admits c j (purged c k m dir) \<noteq> Inr r
    \<and> (fc_prefix c k, Suc n) \<notin> fst ` set (jd_revisions (fold purge_apply (purge_effects c dir k) dir))"
  using purged_view [OF assms(1,2), of k] marked_acquire [of c "purged c k m dir" j] assms(3)
    purge_leaves_none by metis

section \<open>A job can always be closed\<close>

text \<open>C20: A job can be canceled until it expires, in memory and on files. Let the store hold an undeleted
  snapshot of a job that is validating, queued, running or partially completed and has not expired,
  and let the admission bounds (a parameter, checked by the contract) accept the job and the canceled
  job. Then \<open>cancel\<close> succeeds: the contract accepts its proposal, which becomes the snapshot of that
  job and of no other; the job is canceled or its cancellation requested, no item is queued or
  retryable any more, no attempt has changed and a legal hold stays.\<close>

theorem cancel_succeeds:
  assumes "\<not> ss_deleted v" and "now < jb_expiresAt (ss_job v)"
    and "jb_state (ss_job v) \<in> {JobValidating, JobQueued, JobRunning, JobPartiallyCompleted}"
    and "admits (ss_job v)" and "admits (canceled_job (ss_job v))"
  shows "\<exists>v'. jb_state (ss_job v') \<in> {JobCanceled, JobCancelRequested} \<and> held v' = held v
    \<and> list_all (\<lambda>it. it_state it \<notin> {ItemQueued, ItemRetryableFailed}) (jb_items (ss_job v'))
    \<and> map it_attempts (jb_items (ss_job v')) = map it_attempts (jb_items (ss_job v))
    \<and> (\<forall>s. memory_invar s \<and> map_of s (actor, i) = Some v \<longrightarrow>
          (\<exists>s'. cancel (MemoryJobStore admits) now actor i s = Inr (Some v', s')
             \<and> map_of s' = (map_of s)((actor, i) \<mapsto> v') \<and> memory_invar s'))
    \<and> (\<forall>c dir. file_invar admits c dir \<and> file_view admits c dir (actor, i) = Some v \<longrightarrow>
          (\<exists>dir'. cancel (FileStore admits c) now actor i dir = Inr (Some v', dir')
             \<and> file_view admits c dir' = (file_view admits c dir)((actor, i) \<mapsto> v') \<and> file_invar admits c dir'))"
proof (intro exI [of _ "proposal v (canceled_job (ss_job v))"] conjI allI impI)
  let ?v = "proposal v (canceled_job (ss_job v))"
  show "held ?v = held v" by (auto simp: proposal_def held_def opt_default_def split: option.splits)
  show "list_all (\<lambda>it. it_state it \<notin> {ItemQueued, ItemRetryableFailed}) (jb_items (ss_job ?v))"
    "map it_attempts (jb_items (ss_job ?v)) = map it_attempts (jb_items (ss_job v))"
    "jb_state (ss_job ?v) \<in> {JobCanceled, JobCancelRequested}"
    by (auto simp: proposal_def list_all_iff cancel_item_def)
next
  fix s assume "memory_invar s \<and> map_of s (actor, i) = Some v"
  then have "live_memory.live s actor i v" using assms(1) by (simp add: live_memory.live_def)
  from live_memory.cancel_live [OF this assms(2-5)]
  show "\<exists>s'. cancel (MemoryJobStore admits) now actor i s = Inr (Some (proposal v (canceled_job (ss_job v))), s')
      \<and> map_of s' = (map_of s)((actor, i) \<mapsto> proposal v (canceled_job (ss_job v))) \<and> memory_invar s'" .
next
  fix c dir assume "file_invar admits c dir \<and> file_view admits c dir (actor, i) = Some v"
  then have "journal.live admits c dir actor i v" using assms(1) by (simp add: journal.live_def)
  from journal.cancel_live [OF this assms(2-5)]
  show "\<exists>dir'. cancel (FileStore admits c) now actor i dir = Inr (Some (proposal v (canceled_job (ss_job v))), dir')
      \<and> file_view admits c dir' = (file_view admits c dir)((actor, i) \<mapsto> proposal v (canceled_job (ss_job v))) \<and> file_invar admits c dir'" .
qed


text \<open>An expired job can be closed and keeps its evidence. Once its time has passed, \<open>expire\<close>
  succeeds for every stored job that is not finished, under the same condition on the attempts in
  flight: the job is expired and its items are settled as by a reconciliation. Before that time, or
  for a finished job, \<open>expire\<close> changes nothing.\<close>

theorem expire_settles:
  assumes "memory_invar s" and "map_of s (actor, i) = Some v" and "\<not> ss_deleted v"
    and "list_all dispatch_clean (jb_items (ss_job v))"
    and "admits (ss_job v)" and "admits (expired_job (ss_job v))"
  shows "\<exists>v' s'. expire (MemoryJobStore admits) now actor i s = Inr (Some v', s') \<and> memory_invar s'
    \<and> map_of s' = (map_of s)((actor, i) \<mapsto> v')
    \<and> (if jb_expiresAt (ss_job v) \<le> now \<and> jb_state (ss_job v) \<notin> {JobExpired, JobCanceled, JobCompleted, JobFailed}
       then jb_state (ss_job v') = JobExpired \<and> list_all2 settled_from (jb_items (ss_job v)) (jb_items (ss_job v'))
       else v' = v)"
proof (cases "jb_expiresAt (ss_job v) \<le> now \<and> jb_state (ss_job v) \<notin> {JobExpired, JobCanceled, JobCompleted, JobFailed}")
  case True
  let ?v = "proposal v (expired_job (ss_job v))"
  have "live_memory.live s actor i v" using assms(1-3) by (simp add: live_memory.live_def)
  from live_memory.expire_live [OF this _ _ assms(4-6)] True obtain s' where
    "expire (MemoryJobStore admits) now actor i s = Inr (Some ?v, s')"
    "map_of s' = (map_of s)((actor, i) \<mapsto> ?v)" "memory_invar s'" by blast
  moreover have "list_all2 settled_from (jb_items (ss_job v)) (jb_items (ss_job ?v))"
    using settled_items [of ItemExpired "ss_job v" JobExpired] by (simp add: proposal_def)
  moreover have "jb_state (ss_job ?v) = JobExpired" by (simp add: proposal_def)
  ultimately show ?thesis using True by auto
next
  case False
  then have "expire (MemoryJobStore admits) now actor i s = Inr (Some v, s)"
    unfolding expire_def live_memory.with_job_live [OF assms(1-3)] Let_def by auto
  moreover have "(map_of s)((actor, i) \<mapsto> v) = map_of s" using assms(2) by (simp add: fun_upd_idem)
  ultimately show ?thesis using assms(1) False by auto
qed

section \<open>Witnesses\<close>

abbreviation yes :: "decision_job \<Rightarrow> bool" where
  "yes \<equiv> \<lambda>j. True"

abbreviation first_snapshot :: job_snapshot where
  "first_snapshot \<equiv> initial_snapshot new_job"

lemma first_record:
  "memory_invar (one_record first_snapshot)" "map_of (one_record first_snapshot) (demo_scope, ''j'') = Some first_snapshot"
  using one_record_view [of first_snapshot] by (simp_all add: one_record_invar new_job_valid new_job_key)

lemma first_cancel:
  "\<exists>s'. cancel (MemoryJobStore yes) 5 demo_scope ''j'' (one_record first_snapshot)
     = Inr (Some (proposal first_snapshot (canceled_job new_job)), s')
   \<and> map_of s' (demo_scope, ''j'') = Some (proposal first_snapshot (canceled_job new_job))"
proof -
  have "live_memory.live (one_record first_snapshot) demo_scope ''j'' first_snapshot"
    using first_record by (simp add: live_memory.live_def)
  from live_memory.cancel_live [OF this, of 5 yes] show ?thesis by (auto simp: new_job_times)
qed

lemma runtime_keeps_history_witness:
  "\<exists>s' v'. runtime_run yes (MemoryJobStore yes) (one_record first_snapshot) s' \<and> map_of s' (demo_scope, ''j'') = Some v'
    \<and> snapshot_grows first_snapshot v' \<and> job_tokens (ss_job v') \<le> 10"
proof -
  obtain s' where c: "cancel (MemoryJobStore yes) 5 demo_scope ''j'' (one_record first_snapshot)
     = Inr (Some (proposal first_snapshot (canceled_job new_job)), s')"
    using first_cancel by blast
  have r: "runtime_run yes (MemoryJobStore yes) (one_record first_snapshot) s'"
    by (rule runtime_run.step [OF runtime_run.start runtime_step.cancel [OF c]])
  have "bd_maxTokens (jb_budget (ss_job first_snapshot)) = 10"
    by (simp add: new_job_def demo_budget_def)
  then show ?thesis using r runtime_keeps_history [OF r first_record] by auto
qed

lemma hold_outlives_runs_witness:
  "\<exists>s s' v v'. runtime_run yes (FileStore yes demo_config) s s' \<and> held v \<and> ss_deleted v'
    \<and> file_view yes demo_config s (demo_scope, ''j'') = Some v \<and> file_view yes demo_config s' (demo_scope, ''j'') = Some v'
    \<and> (\<exists>p q. revises yes v p \<and> held p \<and> \<not> held q \<and> revises yes q v')"
proof -
  let ?store = "FileStore yes demo_config" and ?k = "(demo_scope, ''j'')"
  let ?v = "first_snapshot\<lparr>ss_revision := ss_revision first_snapshot + 1, ss_legalHold := Some True\<rparr>"
  let ?w = "?v\<lparr>ss_revision := ss_revision ?v + 1, ss_legalHold := Some False\<rparr>"
  let ?x = "?w\<lparr>ss_revision := ss_revision ?w + 1, ss_deleted := True, ss_legalHold := Some False\<rparr>"
  obtain s where s: "setLegalHold ?store demo_scope ''j'' True submitted = Inr (Some ?v, s)"
    "journal.live yes demo_config s demo_scope ''j'' ?v"
    using journal.hold_live [OF submitted_live, of True] by auto
  have hv: "held ?v" by (simp add: held_def)
  obtain t where t: "setLegalHold ?store demo_scope ''j'' False s = Inr (Some ?w, t)"
    "journal.live yes demo_config t demo_scope ''j'' ?w"
    using journal.hold_live [OF s(2), of False] hv by auto
  have hw: "\<not> held ?w" by (simp add: held_def)
  obtain u where u: "remove_job ?store demo_scope ''j'' t = Inr (True, u)"
    "file_view yes demo_config u = (file_view yes demo_config t)(?k \<mapsto> ?x)"
    using journal.remove_live [OF t(2) hw] by auto
  have run: "runtime_run yes ?store s u"
    by (rule runtime_run.step [OF runtime_run.step [OF runtime_run.start runtime_step.hold [OF t(1)]]
          runtime_step.remove [OF u(1)]])
  have l: "file_invar yes demo_config s" "file_view yes demo_config s ?k = Some ?v" "\<not> ss_deleted ?v"
    using s(2) by (simp_all add: journal.live_def)
  have d: "file_view yes demo_config u ?k = Some ?x" "ss_deleted ?x" using u(2) by simp_all
  have "\<exists>p q. revises yes ?v p \<and> held p \<and> \<not> held q \<and> revises yes q ?x"
    using hold_outlives_runs [OF run l(1,2) hv l(3) d] by blast
  then show ?thesis using run hv d l(2) by blast
qed

lemma no_lost_update_witness:
  "\<exists>w dir' q. world_run yes demo_config \<lparr>sw_dir = submitted, sw_swaps = {}\<rparr> w
    \<and> publish demo_config q (sw_dir w) = Inr (True, dir')
    \<and> file_view yes demo_config dir' (demo_scope, ''j'') = Some q \<and> held q"
proof -
  let ?q = "first_snapshot\<lparr>ss_revision := ss_revision first_snapshot + 1, ss_legalHold := Some True\<rparr>"
  let ?w = "\<lparr>sw_dir = submitted, sw_swaps = {(first_snapshot, ?q)}\<rparr>"
  have n: "validateNext yes first_snapshot ?q = Inr ()" by (simp add: validateNext_def held_def initial_snapshot_def)
  have key: "snapshot_key first_snapshot = (demo_scope, ''j'')" "snapshot_key ?q = (demo_scope, ''j'')"
    using new_job_key by simp_all
  then have id: "jb_id new_job = ''j''" by (simp add: job_key_of_def)
  have v: "file_view yes demo_config submitted (demo_scope, ''j'') = Some first_snapshot"
    by (simp add: submitted_view)
  have r: "file_read yes demo_config submitted demo_scope ''j'' = Inr (Some first_snapshot)"
    by (simp add: file_invar_read [OF submitted_invar] v)
  have "world_step yes demo_config \<lparr>sw_dir = submitted, sw_swaps = {}\<rparr>
      (\<lparr>sw_dir = submitted, sw_swaps = {}\<rparr>\<lparr>sw_swaps := insert (first_snapshot, ?q) (sw_swaps \<lparr>sw_dir = submitted, sw_swaps = {}\<rparr>)\<rparr>)"
    by (rule world_step.check [OF n]) (simp add: r id)
  then have w: "world_run yes demo_config \<lparr>sw_dir = submitted, sw_swaps = {}\<rparr> ?w"
    using world_run.world_next [OF world_run.world_start] by simp
  obtain dir' where c: "file_cas yes demo_config first_snapshot ?q submitted = Inr (True, dir')"
    using file_cas_live [OF submitted_invar _ n] v key by auto
  then have p: "publish demo_config ?q (sw_dir ?w) = Inr (True, dir')"
    using file_cas_Inr(2) [OF submitted_invar c] unfolding key by (simp only: v if_True store_world.select_convs)
  have m: "(first_snapshot, ?q) \<in> sw_swaps ?w" by simp
  have "file_view yes demo_config dir' = (file_view yes demo_config submitted)((demo_scope, ''j'') \<mapsto> ?q)"
    using no_lost_update [OF w submitted_invar m p] unfolding key by simp
  then have "file_view yes demo_config dir' (demo_scope, ''j'') = Some ?q" by simp
  moreover have "held ?q" by (simp add: held_def)
  ultimately show ?thesis using w p by blast
qed

lemma interrupted_purge_safe_witness:
  "file_view yes demo_config submitted (demo_scope, ''j'') = Some first_snapshot
   \<and> file_view yes demo_config (purged demo_config (demo_scope, ''j'') 1 submitted) (demo_scope, ''j'') = None"
proof -
  from interrupted_purge_safe [OF submitted_invar _ new_job_key, of 1] show ?thesis
    by (simp add: submitted_view)
qed

lemma cancel_succeeds_witness:
  "\<exists>v' s'. cancel (MemoryJobStore yes) 5 demo_scope ''j'' (one_record first_snapshot) = Inr (Some v', s')
     \<and> jb_state (ss_job v') \<in> {JobCanceled, JobCancelRequested}"
proof -
  have "\<not> ss_deleted first_snapshot" "jb_state (ss_job first_snapshot) = JobValidating" by (simp_all add: new_job_times)
  from cancel_succeeds [OF this(1), of 5 yes demo_scope "''j''"] this(2) first_record show ?thesis
    by (auto simp: new_job_times)
qed

text \<open>A running job with a dispatched attempt.\<close>

definition running_snapshot :: job_snapshot where
  "running_snapshot = \<lparr>ss_revision = 4, ss_job = demo_job JobRunning [demo_item ItemRunning [in_flight]],
     ss_deleted = False, ss_legalHold = Some False\<rparr>"

lemma running_record:
  "memory_invar (one_record running_snapshot)"
  "map_of (one_record running_snapshot) (demo_scope, ''j'') = Some running_snapshot"
  "\<not> ss_deleted running_snapshot" "jb_expiresAt (ss_job running_snapshot) = 100"
  "jb_state (ss_job running_snapshot) = JobRunning"
  "list_all dispatch_clean (jb_items (ss_job running_snapshot))"
proof -
  have v: "job_valid (ss_job running_snapshot)" by (simp add: running_snapshot_def demo_jobs_valid(2))
  have k: "job_key_of (ss_job running_snapshot) = (demo_scope, ''j'')"
    by (simp add: running_snapshot_def job_key_of_def new_job_def demo_job_def)
  show "memory_invar (one_record running_snapshot)"
    by (rule one_record_invar [OF v]) (simp add: running_snapshot_def)
  show "map_of (one_record running_snapshot) (demo_scope, ''j'') = Some running_snapshot"
    using one_record_view [of running_snapshot] k by simp
  show "\<not> ss_deleted running_snapshot" "jb_expiresAt (ss_job running_snapshot) = 100"
    "jb_state (ss_job running_snapshot) = JobRunning"
    by (simp_all add: running_snapshot_def demo_job_def)
  show "list_all dispatch_clean (jb_items (ss_job running_snapshot))"
    by (simp add: running_snapshot_def dispatch_clean_def demo_item_def demo_attempt_def truthy_def)
qed


lemma expire_settles_witness:
  "\<exists>v' s'. expire (MemoryJobStore yes) 100 demo_scope ''j'' (one_record running_snapshot) = Inr (Some v', s')
     \<and> jb_state (ss_job v') = JobExpired"
  using expire_settles [OF running_record(1-3,6), of yes 100] running_record(4,5) by auto

end
