(* ===== verification/Scheduler.thy ===== *)
theory Scheduler
  imports Prelude JobStore
begin

text \<open>
  The fair scheduler (\<open>src/decision/scheduler.ts\<close>) and the job scheduler on top of it
  (\<open>job-scheduler.ts\<close>). JavaScript runs one callback at a time, so a run is a sequence of events: a
  worker settles, gives its permit back (\<open>slot.suspend\<close>) or wants it again. Each event reads the
  signal and the clock once. A worker does nothing but its suspension while it is suspended, and
  calls no slot before its first \<open>await\<close>.
\<close>

section \<open>Lanes\<close>

type_synonym 'l lane_queues = "('l \<times> nat list) list"

text \<open>\<open>lanes\<close> and \<open>order\<close>: the queues by lane, in the order in which the lanes first occur.\<close>

fun enqueue_lane :: "'l \<Rightarrow> nat \<Rightarrow> 'l lane_queues \<Rightarrow> 'l lane_queues" where
  "enqueue_lane lane i [] = [(lane, [i])]"
| "enqueue_lane lane i ((l, q) # ls) = (if l = lane then (l, q @ [i]) # ls else (l, q) # enqueue_lane lane i ls)"

fun lanes_from :: "nat \<Rightarrow> 'l list \<Rightarrow> 'l lane_queues \<Rightarrow> 'l lane_queues" where
  "lanes_from i [] ls = ls"
| "lanes_from i (lane # work) ls = lanes_from (Suc i) work (enqueue_lane lane i ls)"

definition lanes_of :: "'l list \<Rightarrow> 'l lane_queues" where
  "lanes_of work = lanes_from 0 work []"

text \<open>\<open>take()\<close>: the next index, the queues and the cursor after at most one look at each lane.\<close>

fun take_loop :: "nat \<Rightarrow> 'l lane_queues \<Rightarrow> nat \<Rightarrow> nat option \<times> 'l lane_queues \<times> nat" where
  "take_loop 0 ls cursor = (None, ls, cursor)"
| "take_loop (Suc k) ls cursor =
     (let position = cursor mod length ls; cursor' = (position + 1) mod length ls in
      case snd (ls ! position) of
        [] \<Rightarrow> take_loop k ls cursor'
      | i # q \<Rightarrow> (Some i, ls[position := (fst (ls ! position), q)], cursor'))"

definition take_next :: "'l lane_queues \<Rightarrow> nat \<Rightarrow> nat option \<times> 'l lane_queues \<times> nat" where
  "take_next ls cursor = take_loop (length ls) ls cursor"

definition queued_in :: "'l lane_queues \<Rightarrow> nat list" where
  "queued_in ls = concat (map snd ls)"

lemma take_loop_shrinks:
  "take_loop k ls cursor = (Some i, ls', cursor') \<Longrightarrow> k \<le> length ls \<Longrightarrow> length (queued_in ls) = Suc (length (queued_in ls'))"
proof (induction k arbitrary: cursor)
  case (Suc k)
  let ?p = "cursor mod length ls"
  have p: "?p < length ls" using Suc.prems(2) by (intro mod_less_divisor) linarith
  show ?case
  proof (cases "snd (ls ! ?p)")
    case Nil
    then show ?thesis using Suc by (simp add: Let_def)
  next
    case (Cons j q)
    then have ls': "ls' = ls[?p := (fst (ls ! ?p), q)]" using Suc.prems(1) by (simp add: Let_def)
    have "ls = take ?p ls @ ls ! ?p # drop (Suc ?p) ls" using p by (rule id_take_nth_drop)
    then have "queued_in ls = queued_in (take ?p ls) @ snd (ls ! ?p) @ queued_in (drop (Suc ?p) ls)"
      unfolding queued_in_def by (metis append_Cons concat.simps(2) concat_append list.simps(9) map_append)
    moreover have "queued_in ls' = queued_in (take ?p ls) @ q @ queued_in (drop (Suc ?p) ls)"
      using p unfolding ls' queued_in_def by (simp add: upd_conv_take_nth_drop)
    ultimately show ?thesis using Cons by simp
  qed
qed simp

lemma take_next_shrinks:
  "take_next ls cursor = (Some i, ls', cursor') \<Longrightarrow> length (queued_in ls) = Suc (length (queued_in ls'))"
  unfolding take_next_def by (erule take_loop_shrinks) simp

section \<open>State\<close>

datatype wait_reason = WaitCancelled | WaitDeadlineExceeded

datatype 'r slot_result = SlotValue 'r | SlotWaitError wait_reason

datatype ('r, 'e) run_promise = Unsettled | Resolved "'r slot_result option list" | Rejected 'e

text \<open>The workers that hold a permit, that have given it back, that wait for one and that have settled,
  and the calls of \<open>worker\<close> so far, are the closures of the code.\<close>

record ('l, 'r, 'e) scheduler =
  sc_lanes :: "'l lane_queues"
  sc_cursor :: nat
  sc_active :: nat
  sc_remaining :: nat
  sc_results :: "'r slot_result option list"
  sc_resuming :: "nat list"
  sc_promise :: "('r, 'e) run_promise"
  sc_running :: "nat list"
  sc_suspended :: "nat list"
  sc_finished :: "nat list"
  sc_started :: "nat list"

text \<open>What \<open>interrupted()\<close> reads: the signal, and whether the deadline has passed.\<close>

record scheduler_reading =
  rd_aborted :: bool
  rd_expired :: bool

definition interrupted :: "scheduler_reading \<Rightarrow> bool" where
  "interrupted rd \<longleftrightarrow> rd_aborted rd \<or> rd_expired rd"

definition wait_reason_for :: "scheduler_reading \<Rightarrow> wait_reason" where
  "wait_reason_for rd = (if rd_aborted rd then WaitCancelled else WaitDeadlineExceeded)"

definition settle_promise :: "('r, 'e) run_promise \<Rightarrow> ('l, 'r, 'e) scheduler \<Rightarrow> ('l, 'r, 'e) scheduler" where
  "settle_promise p st = (if sc_promise st = Unsettled then st\<lparr>sc_promise := p\<rparr> else st)"

definition resolve_if_done :: "('l, 'r, 'e) scheduler \<Rightarrow> ('l, 'r, 'e) scheduler" where
  "resolve_if_done st = (if sc_remaining st = 0 then settle_promise (Resolved (sc_results st)) st else st)"

section \<open>The pump\<close>

function finishWaiting :: "wait_reason \<Rightarrow> ('l, 'r, 'e) scheduler \<Rightarrow> ('l, 'r, 'e) scheduler" where
  "finishWaiting reason st =
     (case take_next (sc_lanes st) (sc_cursor st) of
        (None, ls, cursor) \<Rightarrow> st\<lparr>sc_lanes := ls, sc_cursor := cursor\<rparr>
      | (Some i, ls, cursor) \<Rightarrow>
          finishWaiting reason (st\<lparr>sc_lanes := ls, sc_cursor := cursor,
            sc_results := (sc_results st)[i := Some (SlotWaitError reason)], sc_remaining := sc_remaining st - 1,
            sc_finished := sc_finished st @ [i]\<rparr>))"
  by pat_completeness auto
termination
  by (relation "measure (\<lambda>(reason, st). length (queued_in (sc_lanes st)))") (auto dest!: sym [THEN take_next_shrinks])

declare finishWaiting.simps [simp del]

definition resume_first :: "('l, 'r, 'e) scheduler \<Rightarrow> ('l, 'r, 'e) scheduler" where
  "resume_first st =
     st\<lparr>sc_active := sc_active st + 1, sc_running := sc_running st @ [hd (sc_resuming st)], sc_resuming := tl (sc_resuming st)\<rparr>"

function resume_all :: "('l, 'r, 'e) scheduler \<Rightarrow> ('l, 'r, 'e) scheduler" where
  "resume_all st = (if sc_resuming st = [] then st else resume_all (resume_first st))"
  by pat_completeness auto
termination
  by (relation "measure (length \<circ> sc_resuming)") (simp_all add: resume_first_def)

function resume_some :: "nat \<Rightarrow> ('l, 'r, 'e) scheduler \<Rightarrow> ('l, 'r, 'e) scheduler" where
  "resume_some concurrency st =
     (if sc_active st < concurrency \<and> sc_resuming st \<noteq> [] then resume_some concurrency (resume_first st) else st)"
  by pat_completeness auto
termination
  by (relation "measure (length \<circ> sc_resuming \<circ> snd)") (simp_all add: resume_first_def)

function start_workers :: "nat \<Rightarrow> ('l, 'r, 'e) scheduler \<Rightarrow> ('l, 'r, 'e) scheduler" where
  "start_workers concurrency st =
     (if sc_active st < concurrency then
        (case take_next (sc_lanes st) (sc_cursor st) of
           (None, ls, cursor) \<Rightarrow> st\<lparr>sc_lanes := ls, sc_cursor := cursor\<rparr>
         | (Some i, ls, cursor) \<Rightarrow>
             start_workers concurrency (st\<lparr>sc_lanes := ls, sc_cursor := cursor, sc_active := sc_active st + 1,
               sc_running := sc_running st @ [i], sc_started := sc_started st @ [i]\<rparr>))
      else st)"
  by pat_completeness auto
termination
  by (relation "measure (\<lambda>(concurrency, st). length (queued_in (sc_lanes st)))") (auto dest!: sym [THEN take_next_shrinks])

declare resume_all.simps [simp del] resume_some.simps [simp del] start_workers.simps [simp del]

definition pump :: "nat \<Rightarrow> scheduler_reading \<Rightarrow> ('l, 'r, 'e) scheduler \<Rightarrow> ('l, 'r, 'e) scheduler" where
  "pump concurrency rd st =
     (let st1 = (if interrupted rd then resume_all (finishWaiting (wait_reason_for rd) st) else st) in
      resolve_if_done (start_workers concurrency (resume_some concurrency st1)))"

section \<open>Events\<close>

text \<open>A worker returns, throws a \<open>SchedulerWaitError\<close>, throws anything else, suspends, or is done waiting.\<close>

datatype ('r, 'e) scheduler_event =
  WorkerReturned nat 'r scheduler_reading
| WorkerWaited nat wait_reason scheduler_reading
| WorkerThrew nat 'e scheduler_reading
| WorkerSuspended nat scheduler_reading
| WorkerResumes nat scheduler_reading

definition settle_worker ::
    "nat \<Rightarrow> scheduler_reading \<Rightarrow> nat \<Rightarrow> ('l, 'r, 'e) scheduler \<Rightarrow> ('l, 'r, 'e) scheduler" where
  "settle_worker concurrency rd i st =
     (let st' = st\<lparr>sc_active := sc_active st - 1, sc_remaining := sc_remaining st - 1,
                   sc_running := remove1 i (sc_running st), sc_finished := sc_finished st @ [i]\<rparr> in
      if sc_remaining st' = 0 then resolve_if_done st' else pump concurrency rd st')"

fun scheduler_step ::
    "nat \<Rightarrow> ('r, 'e) scheduler_event \<Rightarrow> ('l, 'r, 'e) scheduler \<Rightarrow> ('l, 'r, 'e) scheduler option" where
  "scheduler_step concurrency (WorkerReturned i v rd) st =
     (if i \<in> set (sc_running st)
      then Some (settle_worker concurrency rd i (st\<lparr>sc_results := (sc_results st)[i := Some (SlotValue v)]\<rparr>)) else None)"
| "scheduler_step concurrency (WorkerWaited i reason rd) st =
     (if i \<in> set (sc_running st)
      then Some (settle_worker concurrency rd i (st\<lparr>sc_results := (sc_results st)[i := Some (SlotWaitError reason)]\<rparr>)) else None)"
| "scheduler_step concurrency (WorkerThrew i e rd) st =
     (if i \<in> set (sc_running st) then Some (settle_worker concurrency rd i (settle_promise (Rejected e) st)) else None)"
| "scheduler_step concurrency (WorkerSuspended i rd) st =
     (if i \<in> set (sc_running st)
      then Some (pump concurrency rd (st\<lparr>sc_active := sc_active st - 1, sc_running := remove1 i (sc_running st),
             sc_suspended := sc_suspended st @ [i]\<rparr>)) else None)"
| "scheduler_step concurrency (WorkerResumes i rd) st =
     (if i \<in> set (sc_suspended st)
      then Some (if sc_active st < concurrency \<or> interrupted rd
             then st\<lparr>sc_suspended := remove1 i (sc_suspended st), sc_active := sc_active st + 1, sc_running := sc_running st @ [i]\<rparr>
             else st\<lparr>sc_suspended := remove1 i (sc_suspended st), sc_resuming := sc_resuming st @ [i]\<rparr>) else None)"

fun scheduler_events ::
    "nat \<Rightarrow> ('r, 'e) scheduler_event list \<Rightarrow> ('l, 'r, 'e) scheduler \<Rightarrow> ('l, 'r, 'e) scheduler option" where
  "scheduler_events concurrency [] st = Some st"
| "scheduler_events concurrency (ev # evs) st = Option.bind (scheduler_step concurrency ev st) (scheduler_events concurrency evs)"

datatype scheduler_error = SchedulerTypeError

definition new_scheduler :: "'l list \<Rightarrow> ('l, 'r, 'e) scheduler" where
  "new_scheduler work =
     \<lparr>sc_lanes = lanes_of work, sc_cursor = 0, sc_active = 0, sc_remaining = length work,
      sc_results = replicate (length work) None, sc_resuming = [], sc_promise = Unsettled,
      sc_running = [], sc_suspended = [], sc_finished = [], sc_started = []\<rparr>"

text \<open>The call of \<open>runBoundedFair\<close>, up to its first \<open>await\<close>. No work is an empty result.\<close>

definition runBoundedFair :: "int \<Rightarrow> 'l list \<Rightarrow> scheduler_reading \<Rightarrow> scheduler_error + ('l, 'r, 'e) scheduler" where
  "runBoundedFair concurrency work rd =
     (if concurrency < 1 then Inl SchedulerTypeError
      else if work = [] then Inr (settle_promise (Resolved []) (new_scheduler work))
      else Inr (pump (nat concurrency) rd (new_scheduler work)))"

section \<open>The job scheduler\<close>

record scheduled_job_item =
  sj_actor :: job_scope
  sj_jobId :: string
  sj_itemId :: string

record job_scheduler =
  js_concurrency :: int
  js_maxQueuedItems :: int

definition newOfflineJobScheduler :: "int \<Rightarrow> int \<Rightarrow> job_error + job_scheduler" where
  "newOfflineJobScheduler concurrency maxQueuedItems =
     thenR (checks
       [(\<not> safe_int concurrency \<or> concurrency < 1 \<or> \<not> safe_int maxQueuedItems \<or> maxQueuedItems < concurrency,
         JobConflictError ''Invalid job scheduler limits'')])
     (Inr \<lparr>js_concurrency = concurrency, js_maxQueuedItems = maxQueuedItems\<rparr>)"

definition job_lane :: "scheduled_job_item \<Rightarrow> string \<times> string \<times> string" where
  "job_lane item = (sp_tenantId (sj_actor item), sp_projectId (sj_actor item), sp_principalId (sj_actor item))"

definition run_jobs ::
    "job_scheduler \<Rightarrow> scheduled_job_item list \<Rightarrow> scheduler_reading
     \<Rightarrow> job_error + (string \<times> string \<times> string, 'r, 'e) scheduler" where
  "run_jobs js work rd =
     thenR (checks
       [(js_maxQueuedItems js < int (length work), JobConflictError ''Job queue capacity exceeded''),
        (\<not> distinct work, JobConflictError ''Duplicate scheduled job item'')])
     (mapErr (\<lambda>_. JobConflictError ''scheduler concurrency must be a positive integer'')
       (runBoundedFair (js_concurrency js) (map job_lane work) rd))"

end
