(* ===== verification/SchedulerOrder.thy ===== *)
theory SchedulerOrder
  imports Scheduler
begin

text \<open>
  The order in which the fair scheduler starts its work: lane by lane in rounds. A row of
  \<open>transpose\<close> is a round: the next item of every lane that still has one.
\<close>

section \<open>Rotation of the lanes\<close>

definition heads :: "'a list list \<Rightarrow> 'a list" where
  "heads qs = map hd (filter (\<lambda>q. q \<noteq> []) qs)"

definition tails :: "'a list list \<Rightarrow> 'a list list" where
  "tails qs = map tl (filter (\<lambda>q. q \<noteq> []) qs)"

lemma heads_simps [simp]:
  "heads [] = []" "heads ([] # qs) = heads qs" "heads ((x # xs) # qs) = x # heads qs" "heads (ps @ qs) = heads ps @ heads qs"
  by (simp_all add: heads_def)

lemma tails_simps [simp]:
  "tails [] = []" "tails ([] # qs) = tails qs" "tails ((x # xs) # qs) = xs # tails qs" "tails (ps @ qs) = tails ps @ tails qs"
  by (simp_all add: tails_def)

lemma heads_comprehension: "[h. (h # t) \<leftarrow> qs] = heads qs"
  by (induction qs) (auto split: list.split)

lemma tails_comprehension: "[t. (h # t) \<leftarrow> qs] = tails qs"
  by (induction qs) (auto split: list.split)

definition rounds :: "'a list list \<Rightarrow> 'a list" where
  "rounds qs = concat (transpose qs)"

lemma rounds_simps:
  "rounds [] = []" "rounds ([] # qs) = rounds qs" "rounds ((x # xs) # qs) = x # heads qs @ rounds (xs # tails qs)"
  by (simp_all add: rounds_def heads_comprehension tails_comprehension)

lemma rounds_heads: "rounds qs = heads qs @ rounds (tails qs)"
proof (induction qs)
  case (Cons q qs)
  then show ?case by (cases q) (simp_all add: rounds_simps)
qed (simp add: rounds_simps)

lemma length_tails: "length (concat (tails qs)) \<le> length (concat qs)"
  by (induction qs) (auto simp: tails_def)

text \<open>The lane that has just had its turn goes to the end.\<close>

lemma rounds_rotate: "rounds ((x # xs) # qs) = x # rounds (qs @ [xs])"
proof (induction "length (concat qs) + length xs" arbitrary: x xs qs rule: less_induct)
  case less
  show ?case
  proof (cases xs)
    case Nil
    then show ?thesis using rounds_heads [of qs] rounds_heads [of "qs @ [[]]"] by (simp add: rounds_simps)
  next
    case (Cons y ys)
    have "length (concat (tails qs)) + length ys < length (concat qs) + length xs" using length_tails [of qs] Cons by simp
    from less [OF this, of y] show ?thesis using Cons rounds_heads [of "qs @ [xs]"] by (simp add: rounds_simps)
  qed
qed

lemma rounds_empty_last [simp]: "rounds (qs @ [[]]) = rounds qs"
  using rounds_heads [of qs] rounds_heads [of "qs @ [[]]"] by simp

section \<open>Taking is rotating\<close>

definition coming :: "'l lane_queues \<Rightarrow> nat \<Rightarrow> nat list" where
  "coming ls cursor = rounds (rotate cursor (map snd ls))"

lemma rotate_position:
  assumes "xs \<noteq> []"
  shows "rotate c xs = xs ! (c mod length xs) # tl (rotate c xs)"
proof -
  have "hd (rotate c xs) = xs ! (c mod length xs)" using assms by (rule hd_rotate_conv_nth)
  then show ?thesis using assms by (cases "rotate c xs") (auto simp: rotate_is_Nil_conv)
qed

lemma rotate_Suc_mod: "rotate ((c mod length xs + 1) mod length xs) xs = rotate1 (rotate c xs)"
proof -
  have "rotate ((c mod length xs + 1) mod length xs) xs = rotate (Suc c) xs"
    by (metis Suc_eq_plus1 mod_Suc_eq rotate_conv_mod)
  then show ?thesis by simp
qed

lemma rotate_update:
  assumes "c < length xs"
  shows "rotate c (xs[c := y]) = y # tl (rotate c xs)"
  using assms by (simp add: rotate_drop_take upd_conv_take_nth_drop drop_update_cancel tl_drop drop_Suc)

lemma coming_step:
  assumes "ls \<noteq> []" and "p = cursor mod length ls" and "cursor' = (p + 1) mod length ls"
  shows "snd (ls ! p) = [] \<Longrightarrow> coming ls cursor = coming ls cursor'"
    and "snd (ls ! p) = i # q \<Longrightarrow> coming ls cursor = i # coming (ls[p := (fst (ls ! p), q)]) cursor'"
proof -
  let ?qs = "map snd ls"
  have p: "p < length ls" "?qs ! p = snd (ls ! p)" using assms(1,2) by simp_all
  have r: "rotate cursor ?qs = snd (ls ! p) # tl (rotate cursor ?qs)"
    using rotate_position [of ?qs cursor] assms(1,2) by simp
  have q: "rotate cursor ?qs = rotate p ?qs" using rotate_conv_mod [of cursor ?qs] assms(2) by simp
  have c': "rotate cursor' ys = rotate1 (rotate p ys)" if "length ys = length ls" for ys :: "nat list list"
    using rotate_Suc_mod [of p ys] that p(1) assms(3) by simp
  show "coming ls cursor = coming ls cursor'" if e: "snd (ls ! p) = []"
  proof -
    have "coming ls cursor = rounds (tl (rotate cursor ?qs))"
      unfolding coming_def by (subst r) (simp add: e rounds_simps)
    moreover have "rotate1 (rotate p ?qs) = tl (rotate cursor ?qs) @ [[]]" using r e q by (metis rotate1.simps(2))
    ultimately show ?thesis unfolding coming_def using c' [of ?qs] by simp
  qed
  show "coming ls cursor = i # coming (ls[p := (fst (ls ! p), q)]) cursor'" if e: "snd (ls ! p) = i # q"
  proof -
    have "coming ls cursor = i # rounds (tl (rotate cursor ?qs) @ [q])"
      unfolding coming_def by (subst r) (simp add: e rounds_rotate)
    moreover have "rotate cursor' (?qs[p := q]) = tl (rotate p ?qs) @ [q]"
      using c' [of "?qs[p := q]"] rotate_update [of p ?qs q] p(1) by simp
    ultimately show ?thesis unfolding coming_def by (simp add: map_update q)
  qed
qed

lemma take_loop_coming:
  assumes "take_loop k ls cursor = (found, ls', cursor')" and "k \<le> length ls"
  shows "case found of Some i \<Rightarrow> coming ls cursor = i # coming ls' cursor'
    | None \<Rightarrow> ls' = ls \<and> coming ls cursor = coming ls cursor' \<and> list_all (\<lambda>q. q = []) (take k (rotate cursor (map snd ls)))"
  using assms
proof (induction k arbitrary: cursor)
  case (Suc k)
  let ?p = "cursor mod length ls" and ?c = "(cursor mod length ls + 1) mod length ls"
  have ne: "ls \<noteq> []" using Suc.prems(2) by auto
  show ?case
  proof (cases "snd (ls ! ?p)")
    case Nil
    then have t: "take_loop k ls ?c = (found, ls', cursor')" using Suc.prems(1) by (simp add: Let_def)
    note step = coming_step(1) [OF ne refl refl Nil]
    have ih: "case found of Some i \<Rightarrow> coming ls ?c = i # coming ls' cursor'
      | None \<Rightarrow> ls' = ls \<and> coming ls ?c = coming ls cursor' \<and> list_all (\<lambda>q. q = []) (take k (rotate ?c (map snd ls)))"
      using Suc.IH [OF t] Suc.prems(2) by simp
    have "take (Suc k) (rotate cursor (map snd ls)) = [] # take k (tl (rotate cursor (map snd ls)))"
      using arg_cong [OF rotate_position [of "map snd ls" cursor], of "take (Suc k)"] ne Nil by simp
    moreover have "take k (rotate ?c (map snd ls)) = take k (tl (rotate cursor (map snd ls)))"
    proof -
      have "rotate ?c (map snd ls) = rotate1 (rotate cursor (map snd ls))" using rotate_Suc_mod [of cursor "map snd ls"] by simp
      moreover have "rotate cursor (map snd ls) \<noteq> []" using ne by (simp add: rotate_is_Nil_conv)
      ultimately have "rotate ?c (map snd ls) = tl (rotate cursor (map snd ls)) @ [hd (rotate cursor (map snd ls))]"
        by (metis rotate1_hd_tl)
      moreover have "k \<le> length (tl (rotate cursor (map snd ls)))" using Suc.prems(2) by simp
      ultimately show ?thesis by simp
    qed
    ultimately show ?thesis using ih step by (auto split: option.splits)
  next
    case (Cons i q)
    then show ?thesis using Suc.prems(1) coming_step(2) [OF ne refl refl Cons] by (auto simp: Let_def)
  qed
qed simp

lemma take_next_coming:
  assumes "take_next ls cursor = (found, ls', cursor')"
  shows "case found of Some i \<Rightarrow> coming ls cursor = i # coming ls' cursor' | None \<Rightarrow> ls' = ls \<and> coming ls cursor = [] \<and> coming ls' cursor' = []"
proof -
  have "rounds qs = []" if "list_all (\<lambda>q. q = []) qs" for qs :: "nat list list"
    using that by (induction qs) (simp_all add: rounds_simps)
  then show ?thesis
    using take_loop_coming [OF assms [unfolded take_next_def]] by (auto simp: coming_def split: option.splits)
qed

end
