(* ===== verification/SchedulerInvariant.thy ===== *)
theory SchedulerInvariant
  imports SchedulerOrder "HOL-Library.Multiset" "HOL-Library.Sublist"
begin

text \<open>
  What a run of the fair scheduler guarantees, whatever the order of its events: every item is in
  exactly one place, permits are not exceeded, work starts in rounds over the lanes, every slot of
  the result is that of its item, and nobody waits for a permit that nobody will return.
\<close>

section \<open>Places\<close>

definition upcoming :: "('l, 'r, 'e) scheduler \<Rightarrow> nat list" where
  "upcoming st = coming (sc_lanes st) (sc_cursor st)"

text \<open>Everything is queued, running, suspended, waiting to resume or finished; the counters agree.\<close>

definition places :: "('l, 'r, 'e) scheduler \<Rightarrow> nat list" where
  "places st = upcoming st @ sc_running st @ sc_suspended st @ sc_resuming st @ sc_finished st"

definition rejected :: "('l, 'r, 'e) scheduler \<Rightarrow> bool" where
  "rejected st \<longleftrightarrow> (case sc_promise st of Rejected _ \<Rightarrow> True | _ \<Rightarrow> False)"

definition accounted :: "nat \<Rightarrow> ('l, 'r, 'e) scheduler \<Rightarrow> bool" where
  "accounted n st \<longleftrightarrow>
     mset (places st) = mset [0..<n] \<and> sc_active st = length (sc_running st)
     \<and> sc_remaining st + length (sc_finished st) = n \<and> length (sc_results st) = n
     \<and> (rejected st \<or> (\<forall>i \<in> set (sc_finished st). sc_results st ! i \<noteq> None))"

lemma accounted_facts:
  assumes "accounted n st"
  shows "distinct (places st)" and "set (places st) = {0..<n}" and "length (places st) = n"
proof -
  have m: "mset (places st) = mset [0..<n]" using assms by (simp add: accounted_def)
  show "distinct (places st)" using mset_eq_imp_distinct_iff [OF m] by simp
  show "set (places st) = {0..<n}" using mset_eq_setD [OF m] by simp
  show "length (places st) = n" using mset_eq_length [OF m] by simp
qed

text \<open>How the scheduler looks at its queues: it takes the first of the upcoming items.\<close>

lemma take_upcoming:
  assumes "take_next (sc_lanes st) (sc_cursor st) = (found, ls, cursor)"
  shows "case found of Some i \<Rightarrow> upcoming st = i # upcoming (st\<lparr>sc_lanes := ls, sc_cursor := cursor\<rparr>)
    | None \<Rightarrow> upcoming st = [] \<and> upcoming (st\<lparr>sc_lanes := ls, sc_cursor := cursor\<rparr>) = []"
  using take_next_coming [OF assms] by (auto simp: upcoming_def split: option.splits)

lemma upcoming_simps [simp]:
  "upcoming (st\<lparr>sc_active := a\<rparr>) = upcoming st" "upcoming (st\<lparr>sc_remaining := m\<rparr>) = upcoming st"
  "upcoming (st\<lparr>sc_results := rs\<rparr>) = upcoming st" "upcoming (st\<lparr>sc_resuming := q\<rparr>) = upcoming st"
  "upcoming (st\<lparr>sc_promise := p\<rparr>) = upcoming st" "upcoming (st\<lparr>sc_running := q\<rparr>) = upcoming st"
  "upcoming (st\<lparr>sc_suspended := q\<rparr>) = upcoming st" "upcoming (st\<lparr>sc_finished := q\<rparr>) = upcoming st"
  "upcoming (st\<lparr>sc_started := q\<rparr>) = upcoming st"
  by (simp_all add: upcoming_def)

lemma settle_promise_simps [simp]:
  "sc_lanes (settle_promise p st) = sc_lanes st" "sc_cursor (settle_promise p st) = sc_cursor st"
  "sc_active (settle_promise p st) = sc_active st" "sc_remaining (settle_promise p st) = sc_remaining st"
  "sc_results (settle_promise p st) = sc_results st" "sc_resuming (settle_promise p st) = sc_resuming st"
  "sc_running (settle_promise p st) = sc_running st" "sc_suspended (settle_promise p st) = sc_suspended st"
  "sc_finished (settle_promise p st) = sc_finished st" "sc_started (settle_promise p st) = sc_started st"
  "upcoming (settle_promise p st) = upcoming st" "places (settle_promise p st) = places st"
  by (simp_all add: settle_promise_def places_def)

section \<open>The loops of the pump\<close>

text \<open>What one turn of a loop does to the places, in four cases.\<close>

lemma finishWaiting_step:
  assumes "accounted n st" and "take_next (sc_lanes st) (sc_cursor st) = (Some i, ls, cursor)"
  shows "accounted n (st\<lparr>sc_lanes := ls, sc_cursor := cursor,
    sc_results := (sc_results st)[i := Some (SlotWaitError reason)], sc_remaining := sc_remaining st - 1,
    sc_finished := sc_finished st @ [i]\<rparr>)"
proof -
  have u: "upcoming st = i # upcoming (st\<lparr>sc_lanes := ls, sc_cursor := cursor\<rparr>)" using take_upcoming [OF assms(2)] by simp
  have "length (sc_finished st) < n" using accounted_facts(3) [OF assms(1)] u by (simp add: places_def)
  moreover have "i < n" using accounted_facts(2) [OF assms(1)] u by (auto simp: places_def)
  ultimately show ?thesis
    using assms(1) u by (auto simp: accounted_def places_def rejected_def upcoming_def nth_list_update)
qed

lemma finishWaiting_ok:
  assumes "accounted n st"
  shows "accounted n (finishWaiting reason st) \<and> upcoming (finishWaiting reason st) = []
    \<and> sc_running (finishWaiting reason st) = sc_running st \<and> sc_suspended (finishWaiting reason st) = sc_suspended st
    \<and> sc_resuming (finishWaiting reason st) = sc_resuming st \<and> sc_started (finishWaiting reason st) = sc_started st
    \<and> sc_promise (finishWaiting reason st) = sc_promise st"
  using assms
proof (induction reason st rule: finishWaiting.induct)
  case (1 reason st)
  obtain found ls cursor where t: "take_next (sc_lanes st) (sc_cursor st) = (found, ls, cursor)" using prod_cases3 by blast
  show ?case
  proof (cases found)
    case None
    then have f: "finishWaiting reason st = st\<lparr>sc_lanes := ls, sc_cursor := cursor\<rparr>"
      using t by (simp add: finishWaiting.simps [of reason st])
    have "upcoming st = []" "upcoming (st\<lparr>sc_lanes := ls, sc_cursor := cursor\<rparr>) = []" using take_upcoming [OF t] None by simp_all
    then show ?thesis using 1(2) unfolding f by (simp add: accounted_def places_def rejected_def)
  next
    case (Some i)
    note t = t [unfolded Some]
    let ?st = "st\<lparr>sc_lanes := ls, sc_cursor := cursor,
      sc_results := (sc_results st)[i := Some (SlotWaitError reason)], sc_remaining := sc_remaining st - 1,
      sc_finished := sc_finished st @ [i]\<rparr>"
    have f: "finishWaiting reason st = finishWaiting reason ?st" using t by (simp add: finishWaiting.simps [of reason st])
    show ?thesis using 1(1) [OF t [symmetric] refl refl finishWaiting_step [OF 1(2) t]] unfolding f by simp
  qed
qed

lemma resume_first_ok:
  assumes "accounted n st" and "sc_resuming st \<noteq> []"
  shows "accounted n (resume_first st)"
  using assms by (cases "sc_resuming st") (auto simp: accounted_def places_def rejected_def resume_first_def upcoming_def)

lemma resume_first_simps [simp]:
  "upcoming (resume_first st) = upcoming st" "sc_started (resume_first st) = sc_started st"
  "sc_promise (resume_first st) = sc_promise st" "sc_suspended (resume_first st) = sc_suspended st"
  "sc_active (resume_first st) = Suc (sc_active st)" "sc_finished (resume_first st) = sc_finished st"
  by (simp_all add: resume_first_def)

lemma resume_all_ok:
  assumes "accounted n st"
  shows "accounted n (resume_all st) \<and> upcoming (resume_all st) = upcoming st \<and> sc_resuming (resume_all st) = []
    \<and> sc_started (resume_all st) = sc_started st \<and> sc_promise (resume_all st) = sc_promise st"
  using assms
proof (induction st rule: resume_all.induct)
  case (1 st)
  then show ?case by (cases "sc_resuming st = []") (simp_all add: resume_all.simps [of st] resume_first_ok)
qed

lemma resume_some_ok:
  assumes "accounted n st"
  shows "accounted n (resume_some c st) \<and> upcoming (resume_some c st) = upcoming st
    \<and> sc_started (resume_some c st) = sc_started st \<and> sc_promise (resume_some c st) = sc_promise st
    \<and> (sc_resuming (resume_some c st) \<noteq> [] \<longrightarrow> c \<le> sc_active (resume_some c st))
    \<and> (sc_active st \<le> c \<longrightarrow> sc_active (resume_some c st) \<le> c)"
  using assms
proof (induction c st rule: resume_some.induct)
  case (1 c st)
  then show ?case
    by (cases "sc_active st < c \<and> sc_resuming st \<noteq> []") (auto simp: resume_some.simps [of c st] resume_first_ok)
qed

lemma start_workers_ok:
  assumes "accounted n st"
  shows "accounted n (start_workers c st) \<and> sc_resuming (start_workers c st) = sc_resuming st
    \<and> sc_started (start_workers c st) @ upcoming (start_workers c st) = sc_started st @ upcoming st
    \<and> sc_promise (start_workers c st) = sc_promise st
    \<and> (upcoming (start_workers c st) \<noteq> [] \<longrightarrow> c \<le> sc_active (start_workers c st))
    \<and> sc_active st \<le> sc_active (start_workers c st)
    \<and> (sc_active st \<le> c \<longrightarrow> sc_active (start_workers c st) \<le> c)"
  using assms
proof (induction c st rule: start_workers.induct)
  case (1 c st)
  show ?case
  proof (cases "sc_active st < c")
    case True
    obtain found ls cursor where t: "take_next (sc_lanes st) (sc_cursor st) = (found, ls, cursor)" using prod_cases3 by blast
    show ?thesis
    proof (cases found)
      case None
      then have f: "start_workers c st = st\<lparr>sc_lanes := ls, sc_cursor := cursor\<rparr>"
        using t True by (simp add: start_workers.simps [of c st])
      have "upcoming st = []" "upcoming (st\<lparr>sc_lanes := ls, sc_cursor := cursor\<rparr>) = []" using take_upcoming [OF t] None by simp_all
      then show ?thesis using 1(2) True unfolding f by (simp add: accounted_def places_def rejected_def)
    next
      case (Some i)
      note t = t [unfolded Some]
      let ?st = "st\<lparr>sc_lanes := ls, sc_cursor := cursor, sc_active := sc_active st + 1,
        sc_running := sc_running st @ [i], sc_started := sc_started st @ [i]\<rparr>"
      have f: "start_workers c st = start_workers c ?st" using t True by (simp add: start_workers.simps [of c st])
      have u: "upcoming st = i # upcoming ?st" using take_upcoming [OF t] by (simp add: upcoming_def)
      then have "accounted n ?st" using 1(2) by (simp add: accounted_def places_def rejected_def)
      from 1(1) [OF True t [symmetric] refl refl this] show ?thesis using u True unfolding f by simp
    qed
  next
    case False
    then show ?thesis using 1(2) by (simp add: start_workers.simps [of c st])
  qed
qed

section \<open>The invariant\<close>

text \<open>Whoever waits for a permit waits for one that somebody holds; the promise is settled when nothing is
  left; the work started, followed by the work queued, is a beginning of the order of the rounds.\<close>

definition promise_ok :: "('l, 'r, 'e) scheduler \<Rightarrow> bool" where
  "promise_ok st \<longleftrightarrow>
     (case sc_promise st of
        Unsettled \<Rightarrow> sc_remaining st \<noteq> 0
      | Resolved rs \<Rightarrow> sc_remaining st = 0 \<and> rs = sc_results st
      | Rejected _ \<Rightarrow> True)"

definition fair_ok :: "nat \<Rightarrow> nat list \<Rightarrow> ('l, 'r, 'e) scheduler \<Rightarrow> bool" where
  "fair_ok c order st \<longleftrightarrow>
     accounted (length order) st \<and> (upcoming st \<noteq> [] \<or> sc_resuming st \<noteq> [] \<longrightarrow> c \<le> sc_active st) \<and> promise_ok st
     \<and> prefix (sc_started st @ upcoming st) order"

lemma resolve_if_done_simps [simp]:
  "accounted n (resolve_if_done st) = accounted n st" "upcoming (resolve_if_done st) = upcoming st"
  "sc_resuming (resolve_if_done st) = sc_resuming st" "sc_active (resolve_if_done st) = sc_active st"
  "sc_started (resolve_if_done st) = sc_started st" "sc_running (resolve_if_done st) = sc_running st"
  "sc_suspended (resolve_if_done st) = sc_suspended st" "sc_finished (resolve_if_done st) = sc_finished st"
  "sc_results (resolve_if_done st) = sc_results st" "sc_remaining (resolve_if_done st) = sc_remaining st"
  by (auto simp: resolve_if_done_def settle_promise_def accounted_def places_def rejected_def)

text \<open>Before a pump the promise is settled at most by an error, unless nothing is left.\<close>

definition promise_before :: "('l, 'r, 'e) scheduler \<Rightarrow> bool" where
  "promise_before st \<longleftrightarrow> sc_promise st = Unsettled \<or> rejected st"

lemma resolve_promise: "promise_before st \<Longrightarrow> promise_ok (resolve_if_done st)"
  by (auto simp: promise_before_def promise_ok_def resolve_if_done_def settle_promise_def rejected_def split: run_promise.splits)

lemma pump_ok:
  assumes "accounted (length order) st" and "promise_before st" and "prefix (sc_started st @ upcoming st) order"
  shows "fair_ok c order (pump c rd st)"
    and "\<not> interrupted rd \<Longrightarrow> sc_active st \<le> c \<Longrightarrow> sc_active (pump c rd st) \<le> c"
    and "\<not> interrupted rd \<Longrightarrow> sc_started (pump c rd st) @ upcoming (pump c rd st) = sc_started st @ upcoming st"
proof -
  let ?n = "length order"
  let ?f = "finishWaiting (wait_reason_for rd) st"
  define s1 where "s1 = (if interrupted rd then resume_all ?f else st)"
  define s2 where "s2 = resume_some c s1"
  define s3 where "s3 = start_workers c s2"
  note f = finishWaiting_ok [OF assms(1), of "wait_reason_for rd"]
  have s1: "accounted ?n s1" "sc_promise s1 = sc_promise st" "sc_started s1 = sc_started st"
    "upcoming s1 = (if interrupted rd then [] else upcoming st)" "\<not> interrupted rd \<Longrightarrow> s1 = st"
    using f resume_all_ok [of ?n ?f] assms(1) by (auto simp: s1_def)
  note s2 = resume_some_ok [OF s1(1), of c, folded s2_def]
  then have a2: "accounted ?n s2" by simp
  note s3 = start_workers_ok [OF a2, of c, folded s3_def]
  have p: "pump c rd st = resolve_if_done s3" by (simp add: pump_def s1_def s2_def s3_def Let_def)
  have "promise_before s3" using assms(2) s1(2) s2 s3 by (simp add: promise_before_def rejected_def)
  then have "promise_ok (resolve_if_done s3)" by (rule resolve_promise)
  moreover have "upcoming s3 \<noteq> [] \<or> sc_resuming s3 \<noteq> [] \<longrightarrow> c \<le> sc_active s3" using s2 s3 by auto
  moreover have "prefix (sc_started s3 @ upcoming s3) order"
  proof -
    have "sc_started s3 @ upcoming s3 = sc_started st @ (if interrupted rd then [] else upcoming st)" using s1 s2 s3 by simp
    then show ?thesis using assms(3) append_prefixD by (cases "interrupted rd") auto
  qed
  ultimately show "fair_ok c order (pump c rd st)" using s3 unfolding p by (simp add: fair_ok_def)
  show "sc_active (pump c rd st) \<le> c" if "\<not> interrupted rd" "sc_active st \<le> c" using s1(5) that s2 s3 unfolding p by simp
  show "sc_started (pump c rd st) @ upcoming (pump c rd st) = sc_started st @ upcoming st" if "\<not> interrupted rd"
    using s1(4,3) that s2 s3 unfolding p by simp
qed

lemma pump_accounted:
  assumes "accounted n st"
  shows "accounted n (pump c rd st)"
proof -
  define s where "s = (if interrupted rd then resume_all (finishWaiting (wait_reason_for rd) st) else st)"
  have "accounted n s" using finishWaiting_ok [OF assms, of "wait_reason_for rd"] resume_all_ok assms by (auto simp: s_def)
  then have "accounted n (start_workers c (resume_some c s))" using resume_some_ok start_workers_ok by blast
  then show ?thesis by (simp add: pump_def s_def)
qed

lemma unfinished:
  assumes "accounted n st" and "upcoming st \<noteq> [] \<or> sc_running st \<noteq> [] \<or> sc_suspended st \<noteq> [] \<or> sc_resuming st \<noteq> []"
  shows "length (sc_finished st) < n" and "sc_remaining st \<noteq> 0"
proof -
  have "0 < length (upcoming st) + length (sc_running st) + length (sc_suspended st) + length (sc_resuming st)"
    using assms(2) by auto
  moreover have "length (upcoming st) + length (sc_running st) + length (sc_suspended st) + length (sc_resuming st)
      + length (sc_finished st) = n"
    using accounted_facts(3) [OF assms(1)] by (simp add: places_def)
  ultimately show "length (sc_finished st) < n" by linarith
  then show "sc_remaining st \<noteq> 0" using assms(1) by (simp add: accounted_def)
qed

text \<open>A running worker leaves its place.\<close>

lemma running_leaves:
  assumes "accounted n st" and "i \<in> set (sc_running st)"
  shows "mset (sc_running st) = add_mset i (mset (remove1 i (sc_running st)))" and "sc_active st = Suc (length (remove1 i (sc_running st)))"
    and "i < n" and "i \<notin> set (sc_finished st)" and "sc_remaining st \<noteq> 0" and "length (sc_finished st) < n"
proof -
  show m: "mset (sc_running st) = add_mset i (mset (remove1 i (sc_running st)))" using assms(2) by simp
  then have "length (sc_running st) = Suc (length (remove1 i (sc_running st)))" by (metis size_add_mset size_mset)
  then show "sc_active st = Suc (length (remove1 i (sc_running st)))" using assms(1) by (simp add: accounted_def)
  show "i < n" "i \<notin> set (sc_finished st)" using accounted_facts(1,2) [OF assms(1)] assms(2) by (auto simp: places_def)
  have "sc_running st \<noteq> []" using assms(2) by auto
  then show "sc_remaining st \<noteq> 0" "length (sc_finished st) < n" using unfinished [OF assms(1)] by simp_all
qed

lemma settled_accounted:
  assumes "accounted n st" and "i \<in> set (sc_running st)" and "rejected st \<or> sc_results st ! i \<noteq> None"
  shows "accounted n (st\<lparr>sc_active := sc_active st - 1, sc_remaining := sc_remaining st - 1,
    sc_running := remove1 i (sc_running st), sc_finished := sc_finished st @ [i]\<rparr>)" (is "accounted n ?st")
proof -
  note r = running_leaves [OF assms(1,2)]
  obtain rest where m: "mset (sc_running st) = add_mset i rest" using assms(2) by (meson in_multiset_in_set multi_member_split)
  then have "mset (places ?st) = mset (places st)" by (simp add: places_def upcoming_def)
  then have p: "mset (places ?st) = mset [0..<n]" using assms(1) by (simp only: accounted_def)
  have "rejected ?st \<or> (\<forall>j \<in> set (sc_finished ?st). sc_results ?st ! j \<noteq> None)"
    using assms(1,3) by (auto simp: accounted_def rejected_def)
  moreover have "sc_remaining ?st + length (sc_finished ?st) = n"
  proof -
    have "sc_remaining st + length (sc_finished st) = n" using assms(1) by (simp only: accounted_def)
    then show ?thesis using r(5) by (cases "sc_remaining st") simp_all
  qed
  moreover have "length (sc_results ?st) = n" using assms(1) by (simp add: accounted_def)
  moreover have "sc_active ?st = length (sc_running ?st)" using r(2) by simp
  ultimately show ?thesis using p by (simp only: accounted_def)
qed

lemma settle_worker_ok:
  assumes "accounted (length order) st" and "i \<in> set (sc_running st)" and "promise_before st"
    and "rejected st \<or> sc_results st ! i \<noteq> None" and "prefix (sc_started st @ upcoming st) order"
  shows "fair_ok c order (settle_worker c rd i st)"
    and "\<not> interrupted rd \<Longrightarrow> sc_active st \<le> c \<Longrightarrow> sc_active (settle_worker c rd i st) \<le> c"
    and "\<not> interrupted rd \<Longrightarrow> sc_started (settle_worker c rd i st) @ upcoming (settle_worker c rd i st) = sc_started st @ upcoming st"
proof -
  let ?st = "st\<lparr>sc_active := sc_active st - 1, sc_remaining := sc_remaining st - 1,
    sc_running := remove1 i (sc_running st), sc_finished := sc_finished st @ [i]\<rparr>"
  have a: "accounted (length order) ?st" by (rule settled_accounted [OF assms(1,2,4)])
  have b: "promise_before ?st" "prefix (sc_started ?st @ upcoming ?st) order"
    using assms(3,5) by (simp_all add: promise_before_def rejected_def)
  have e: "upcoming ?st = [] \<and> sc_resuming ?st = []" if "sc_remaining ?st = 0"
    using unfinished(2) [OF a] that by blast
  note p = pump_ok(1) [OF a b, of c rd] pump_ok(2) [OF a b, of rd c] pump_ok(3) [OF a b, of rd c]
  have w: "settle_worker c rd i st = (if sc_remaining ?st = 0 then resolve_if_done ?st else pump c rd ?st)"
    by (simp add: settle_worker_def Let_def)
  show "fair_ok c order (settle_worker c rd i st)"
    using p(1) a b e resolve_promise [OF b(1)] unfolding w by (auto simp: fair_ok_def)
  show "\<not> interrupted rd \<Longrightarrow> sc_active st \<le> c \<Longrightarrow> sc_active (settle_worker c rd i st) \<le> c"
    using p(2) unfolding w by (cases "sc_remaining ?st = 0") simp_all
  show "\<not> interrupted rd \<Longrightarrow> sc_started (settle_worker c rd i st) @ upcoming (settle_worker c rd i st) = sc_started st @ upcoming st"
    using p(3) unfolding w by (cases "sc_remaining ?st = 0") simp_all
qed

lemma fair_before:
  assumes "fair_ok c order st" and "sc_running st \<noteq> [] \<or> sc_suspended st \<noteq> []"
  shows "promise_before st"
proof -
  have "accounted (length order) st" using assms(1) by (simp add: fair_ok_def)
  then have "sc_remaining st \<noteq> 0" using unfinished(2) assms(2) by blast
  then show ?thesis using assms(1) by (auto simp: fair_ok_def promise_ok_def promise_before_def rejected_def split: run_promise.splits)
qed

text \<open>Everything that an event reads.\<close>

fun event_reading :: "('r, 'e) scheduler_event \<Rightarrow> scheduler_reading" where
  "event_reading (WorkerReturned i v rd) = rd"
| "event_reading (WorkerWaited i reason rd) = rd"
| "event_reading (WorkerThrew i e rd) = rd"
| "event_reading (WorkerSuspended i rd) = rd"
| "event_reading (WorkerResumes i rd) = rd"

lemma result_set_ok:
  assumes "accounted n st" and "i \<in> set (sc_running st)"
  shows "accounted n (st\<lparr>sc_results := (sc_results st)[i := Some x]\<rparr>)" and "(sc_results st)[i := Some x] ! i = Some x"
  using assms running_leaves(3) [OF assms] by (auto simp: accounted_def places_def rejected_def nth_list_update)

lemma busy_before: "fair_ok c order st \<Longrightarrow> i \<in> set (sc_running st) \<or> i \<in> set (sc_suspended st) \<Longrightarrow> promise_before st"
  by (rule fair_before) auto

lemma rejected_settle: "promise_before st \<Longrightarrow> rejected (settle_promise (Rejected e) st)"
  by (auto simp: promise_before_def rejected_def settle_promise_def)

lemma suspend_ok:
  assumes "accounted n st" and "i \<in> set (sc_running st)"
  shows "accounted n (st\<lparr>sc_active := sc_active st - 1, sc_running := remove1 i (sc_running st), sc_suspended := sc_suspended st @ [i]\<rparr>)"
    (is "accounted n ?st")
proof -
  obtain rest where m: "mset (sc_running st) = add_mset i rest" using assms(2) by (meson in_multiset_in_set multi_member_split)
  then have "mset (places ?st) = mset (places st)" by (simp add: places_def upcoming_def)
  then have "mset (places ?st) = mset [0..<n]" using assms(1) by (simp only: accounted_def)
  moreover have "sc_active ?st = length (sc_running ?st)" using running_leaves(2) [OF assms] by simp
  ultimately show ?thesis using assms(1) by (simp add: accounted_def rejected_def)
qed

lemma resume_ok:
  assumes "accounted n st" and "i \<in> set (sc_suspended st)"
  shows "accounted n (st\<lparr>sc_suspended := remove1 i (sc_suspended st), sc_active := sc_active st + 1, sc_running := sc_running st @ [i]\<rparr>)"
    and "accounted n (st\<lparr>sc_suspended := remove1 i (sc_suspended st), sc_resuming := sc_resuming st @ [i]\<rparr>)"
proof -
  obtain rest where m: "mset (sc_suspended st) = add_mset i rest" using assms(2) by (meson in_multiset_in_set multi_member_split)
  have a: "mset (places st) = mset [0..<n]" using assms(1) by (simp only: accounted_def)
  have "mset (places (st\<lparr>sc_suspended := remove1 i (sc_suspended st), sc_active := sc_active st + 1, sc_running := sc_running st @ [i]\<rparr>))
      = mset (places st)"
    "mset (places (st\<lparr>sc_suspended := remove1 i (sc_suspended st), sc_resuming := sc_resuming st @ [i]\<rparr>)) = mset (places st)"
    using m by (simp_all add: places_def upcoming_def)
  then show "accounted n (st\<lparr>sc_suspended := remove1 i (sc_suspended st), sc_active := sc_active st + 1, sc_running := sc_running st @ [i]\<rparr>)"
    "accounted n (st\<lparr>sc_suspended := remove1 i (sc_suspended st), sc_resuming := sc_resuming st @ [i]\<rparr>)"
    using a assms(1) by (simp_all add: accounted_def rejected_def)
qed

lemma step_fair:
  assumes f: "fair_ok c order st" and s: "scheduler_step c ev st = Some st'"
  shows "fair_ok c order st'
    \<and> (\<not> interrupted (event_reading ev) \<longrightarrow> sc_active st \<le> c \<longrightarrow> sc_active st' \<le> c)
    \<and> (\<not> interrupted (event_reading ev) \<longrightarrow> sc_started st' @ upcoming st' = sc_started st @ upcoming st)"
proof -
  have a: "accounted (length order) st" and o: "prefix (sc_started st @ upcoming st) order" using f by (simp_all add: fair_ok_def)
  have settles: "fair_ok c order (settle_worker c rd i u)
      \<and> (\<not> interrupted rd \<longrightarrow> sc_active st \<le> c \<longrightarrow> sc_active (settle_worker c rd i u) \<le> c)
      \<and> (\<not> interrupted rd \<longrightarrow> sc_started (settle_worker c rd i u) @ upcoming (settle_worker c rd i u) = sc_started st @ upcoming st)"
    if "accounted (length order) u" "i \<in> set (sc_running u)" "promise_before u" "rejected u \<or> sc_results u ! i \<noteq> None"
      "sc_started u = sc_started st" "upcoming u = upcoming st" "sc_active u = sc_active st" for u i rd
    using settle_worker_ok(1) [OF that(1-4), of c rd] settle_worker_ok(2) [OF that(1-4), of rd c] settle_worker_ok(3) [OF that(1-4), of rd c]
      o that(5-7) by simp
  show ?thesis
  proof (cases ev)
    case (WorkerReturned i v rd)
    then have i: "i \<in> set (sc_running st)" and st': "st' = settle_worker c rd i (st\<lparr>sc_results := (sc_results st)[i := Some (SlotValue v)]\<rparr>)"
      using s by (auto split: if_splits)
    have "promise_before st" using busy_before [OF f] i by blast
    then show ?thesis
      using settles [of "st\<lparr>sc_results := (sc_results st)[i := Some (SlotValue v)]\<rparr>" i rd] result_set_ok [OF a i, of "SlotValue v"] i
      unfolding WorkerReturned st' by (simp add: promise_before_def rejected_def)
  next
    case (WorkerWaited i reason rd)
    then have i: "i \<in> set (sc_running st)" and st': "st' = settle_worker c rd i (st\<lparr>sc_results := (sc_results st)[i := Some (SlotWaitError reason)]\<rparr>)"
      using s by (auto split: if_splits)
    have "promise_before st" using busy_before [OF f] i by blast
    then show ?thesis
      using settles [of "st\<lparr>sc_results := (sc_results st)[i := Some (SlotWaitError reason)]\<rparr>" i rd] result_set_ok [OF a i, of "SlotWaitError reason"] i
      unfolding WorkerWaited st' by (simp add: promise_before_def rejected_def)
  next
    case (WorkerThrew i e rd)
    then have i: "i \<in> set (sc_running st)" and st': "st' = settle_worker c rd i (settle_promise (Rejected e) st)"
      using s by (auto split: if_splits)
    have "promise_before st" using busy_before [OF f] i by blast
    then have r: "rejected (settle_promise (Rejected e) st)" by (rule rejected_settle)
    then have "accounted (length order) (settle_promise (Rejected e) st)" using a by (simp add: accounted_def)
    then show ?thesis
      using settles [of "settle_promise (Rejected e) st" i rd] r i unfolding WorkerThrew st' by (simp add: promise_before_def)
  next
    case (WorkerSuspended i rd)
    let ?u = "st\<lparr>sc_active := sc_active st - 1, sc_running := remove1 i (sc_running st), sc_suspended := sc_suspended st @ [i]\<rparr>"
    have i: "i \<in> set (sc_running st)" and st': "st' = pump c rd ?u" using s WorkerSuspended by (auto split: if_splits)
    have "promise_before st" using busy_before [OF f] i by blast
    then have b: "promise_before ?u" "prefix (sc_started ?u @ upcoming ?u) order" using o by (simp_all add: promise_before_def rejected_def)
    note p = pump_ok(1) [OF suspend_ok [OF a i] b, of c rd] pump_ok(2) [OF suspend_ok [OF a i] b, of rd c] pump_ok(3) [OF suspend_ok [OF a i] b, of rd c]
    show ?thesis using p unfolding WorkerSuspended st' by simp
  next
    case (WorkerResumes i rd)
    then have i: "i \<in> set (sc_suspended st)" using s by (auto split: if_splits)
    let ?runs = "st\<lparr>sc_suspended := remove1 i (sc_suspended st), sc_active := sc_active st + 1, sc_running := sc_running st @ [i]\<rparr>"
    let ?waits = "st\<lparr>sc_suspended := remove1 i (sc_suspended st), sc_resuming := sc_resuming st @ [i]\<rparr>"
    have same: "promise_ok ?runs = promise_ok st" "promise_ok ?waits = promise_ok st"
      "upcoming ?runs = upcoming st" "upcoming ?waits = upcoming st"
      by (simp_all add: promise_ok_def upcoming_def split: run_promise.split)
    show ?thesis
    proof (cases "sc_active st < c \<or> interrupted rd")
      case True
      then have st': "st' = ?runs" using s WorkerResumes i by simp
      have "upcoming st \<noteq> [] \<or> sc_resuming st \<noteq> [] \<longrightarrow> c \<le> sc_active st + 1" using f by (auto simp: fair_ok_def)
      then have "fair_ok c order ?runs" using resume_ok(1) [OF a i] f same unfolding fair_ok_def by simp
      then show ?thesis using True same unfolding st' WorkerResumes by auto
    next
      case False
      then have st': "st' = ?waits" using s WorkerResumes i by simp
      have "fair_ok c order ?waits" using resume_ok(2) [OF a i] f same False unfolding fair_ok_def by simp
      then show ?thesis using same unfolding st' WorkerResumes by simp
    qed
  qed
qed

text \<open>The invariant over a run.\<close>

definition undisturbed :: "('r, 'e) scheduler_event list \<Rightarrow> bool" where
  "undisturbed evs \<longleftrightarrow> list_all (\<lambda>ev. \<not> interrupted (event_reading ev)) evs"

lemma undisturbed_simps [simp]:
  "undisturbed []" "undisturbed (ev # evs) \<longleftrightarrow> \<not> interrupted (event_reading ev) \<and> undisturbed evs"
  by (simp_all add: undisturbed_def)

lemma events_fair:
  assumes "fair_ok c order st" and "scheduler_events c evs st = Some st'"
  shows "fair_ok c order st'
    \<and> (undisturbed evs \<longrightarrow> sc_active st \<le> c \<longrightarrow> sc_active st' \<le> c)
    \<and> (undisturbed evs \<longrightarrow> sc_started st' @ upcoming st' = sc_started st @ upcoming st)"
  using assms
proof (induction evs arbitrary: st)
  case (Cons ev evs)
  then obtain u where u: "scheduler_step c ev st = Some u" "scheduler_events c evs u = Some st'"
    by (auto simp: bind_eq_Some_conv)
  note step = step_fair [OF Cons.prems(1) u(1)]
  then have "fair_ok c order u" by blast
  from Cons.IH [OF this u(2)] step show ?case by simp
qed simp

section \<open>The first state\<close>

lemma mset_rounds: "mset (rounds qs) = mset (concat qs)"
proof (induction "length (concat qs)" arbitrary: qs rule: less_induct)
  case less
  have split: "mset (concat qs) = mset (heads qs) + mset (concat (tails qs))" for qs :: "'a list list"
  proof (induction qs)
    case (Cons q qs)
    then show ?case by (cases q) simp_all
  qed simp
  show ?case
  proof (cases "concat qs = []")
    case True
    then show ?thesis by (induction qs) (simp_all add: rounds_simps)
  next
    case False
    have "heads qs \<noteq> []" using False
    proof (induction qs)
      case (Cons q qs)
      then show ?case by (cases q) simp_all
    qed simp
    then have "length (concat (tails qs)) < length (concat qs)"
      using arg_cong [OF split [of qs], of size] by (cases "heads qs") simp_all
    from less [OF this] show ?thesis using split [of qs] rounds_heads [of qs] by simp
  qed
qed

text \<open>What the lanes are: for each lane, where it first occurs, the places where it occurs.\<close>

definition lane_order :: "'l list \<Rightarrow> 'l list" where
  "lane_order work = rev (remdups (rev work))"

definition lane_items :: "'l list \<Rightarrow> 'l \<Rightarrow> nat list" where
  "lane_items work lane = filter (\<lambda>i. work ! i = lane) [0..<length work]"

lemma lane_order_snoc: "lane_order (work @ [lane]) = (if lane \<in> set work then lane_order work else lane_order work @ [lane])"
  by (simp add: lane_order_def)

lemma lane_items_snoc: "lane_items (work @ [lane]) l = (if l = lane then lane_items work l @ [length work] else lane_items work l)"
proof -
  have "filter (\<lambda>i. (work @ [lane]) ! i = l) [0..<length work] = lane_items work l"
    unfolding lane_items_def by (intro filter_cong) (auto simp: nth_append)
  then show ?thesis by (simp add: lane_items_def)
qed

lemma lanes_from_snoc: "lanes_from i (work @ [lane]) ls = enqueue_lane lane (i + length work) (lanes_from i work ls)"
  by (induction work arbitrary: i ls) simp_all

lemma enqueue_lane_map:
  "distinct order \<Longrightarrow> enqueue_lane lane i (map (\<lambda>l. (l, f l)) order)
     = (if lane \<in> set order then map (\<lambda>l. (l, if l = lane then f l @ [i] else f l)) order
        else map (\<lambda>l. (l, f l)) order @ [(lane, [i])])"
  by (induction order) auto

lemma lanes_of_eq: "lanes_of work = map (\<lambda>l. (l, lane_items work l)) (lane_order work)"
proof (induction work rule: rev_induct)
  case (snoc lane work)
  have d: "distinct (lane_order work)" "set (lane_order work) = set work" by (simp_all add: lane_order_def)
  have "lane \<notin> set work \<Longrightarrow> lane_items work lane = []" by (auto simp: lane_items_def filter_empty_conv)
  then show ?case
    using snoc d enqueue_lane_map [OF d(1), of lane "length work" "lane_items work"]
    by (auto simp: lanes_of_def lanes_from_snoc lane_order_snoc lane_items_snoc intro!: map_cong)
qed (simp add: lanes_of_def lane_order_def)

text \<open>The order in which a run starts its work.\<close>

definition fair_order :: "'l list \<Rightarrow> nat list" where
  "fair_order work = rounds (map (lane_items work) (lane_order work))"

lemma fair_order_lanes: "fair_order work = rounds (map snd (lanes_of work))"
  by (simp add: fair_order_def lanes_of_eq comp_def)

lemma mset_enqueue_lane: "mset (concat (map snd (enqueue_lane lane i ls))) = add_mset i (mset (concat (map snd ls)))"
  by (induction lane i ls rule: enqueue_lane.induct) simp_all

lemma mset_lanes: "mset (concat (map snd (lanes_of work))) = mset [0..<length work]"
proof (induction work rule: rev_induct)
  case (snoc lane work)
  then show ?case using mset_enqueue_lane [of lane "length work" "lanes_of work"] by (simp add: lanes_of_def lanes_from_snoc)
qed (simp add: lanes_of_def)

lemma mset_fair_order: "mset (fair_order work) = mset [0..<length work]"
  by (simp only: fair_order_lanes mset_rounds mset_lanes)

lemma length_fair_order [simp]: "length (fair_order work) = length work"
  using mset_eq_length [OF mset_fair_order [of work]] by simp

lemma upcoming_new [simp]: "upcoming (new_scheduler work) = fair_order work"
  by (simp add: upcoming_def new_scheduler_def coming_def fair_order_lanes)

lemma accounted_new: "accounted (length work) (new_scheduler work)"
  using mset_fair_order [of work] by (simp add: accounted_def places_def) (simp add: new_scheduler_def)

lemma runBoundedFair_fair:
  fixes st :: "('l, 'r, 'e) scheduler"
  assumes "runBoundedFair c work rd = Inr st"
  shows "1 \<le> nat c \<and> fair_ok (nat c) (fair_order work) st
    \<and> (\<not> interrupted rd \<longrightarrow> sc_active st \<le> nat c) \<and> (\<not> interrupted rd \<longrightarrow> sc_started st @ upcoming st = fair_order work)"
proof -
  let ?new = "new_scheduler work :: ('l, 'r, 'e) scheduler"
  have c: "1 \<le> nat c" using assms by (auto simp: runBoundedFair_def split: if_splits)
  have n: "sc_started ?new = []" "sc_active ?new = 0" "sc_promise ?new = Unsettled"
    "sc_resuming ?new = []" "sc_remaining ?new = length work" "sc_results ?new = replicate (length work) None"
    by (simp_all add: new_scheduler_def)
  show ?thesis
  proof (cases "work = []")
    case True
    then have st: "st = settle_promise (Resolved []) ?new" using assms by (simp add: runBoundedFair_def split: if_splits)
    have p: "sc_promise st = Resolved []" using n(3) unfolding st by (simp add: settle_promise_def)
    have e: "fair_order work = []" using True by (simp add: fair_order_def lane_order_def rounds_simps)
    have "accounted (length work) st" using True e unfolding st by (simp add: accounted_def places_def) (simp add: new_scheduler_def)
    then show ?thesis using c n p True e unfolding st by (simp add: fair_ok_def promise_ok_def)
  next
    case False
    then have st: "st = pump (nat c) rd ?new" using assms by (simp add: runBoundedFair_def split: if_splits)
    have b: "promise_before ?new" using n by (simp add: promise_before_def)
    have a: "accounted (length (fair_order work)) ?new" using accounted_new by simp
    have o: "prefix (sc_started ?new @ upcoming ?new) (fair_order work)" using n by simp
    show ?thesis using pump_ok(1) [OF a b o, of "nat c" rd] pump_ok(2) [OF a b o, of rd "nat c"] pump_ok(3) [OF a b o, of rd "nat c"] n c
      unfolding st by simp
  qed
qed

end
