(* ===== verification/SchedulerGuarantees.thy ===== *)
theory SchedulerGuarantees
  imports SchedulerInvariant
begin

text \<open>
  The guarantees of a run of the fair scheduler, from the call of \<open>runBoundedFair\<close> on and for every
  sequence of events: the order of the starts, the permits, the slots of the result, progress and
  the number of events.
\<close>

section \<open>What a pump keeps\<close>

text \<open>A finished slot is final; another slot changes only to an error of an interruption.\<close>

definition keeps :: "bool \<Rightarrow> ('l, 'r, 'e) scheduler \<Rightarrow> ('l, 'r, 'e) scheduler \<Rightarrow> bool" where
  "keeps disturbed st st' \<longleftrightarrow>
     set (sc_finished st) \<subseteq> set (sc_finished st') \<and> length (sc_finished st) \<le> length (sc_finished st')
     \<and> sc_suspended st' = sc_suspended st
     \<and> (\<forall>j \<in> set (sc_finished st). sc_results st' ! j = sc_results st ! j)
     \<and> (\<forall>j. sc_results st' ! j \<noteq> sc_results st ! j \<longrightarrow> disturbed \<and> (\<exists>r. sc_results st' ! j = Some (SlotWaitError r)))"

lemma keepsD:
  assumes "keeps d st st'"
  shows "set (sc_finished st) \<subseteq> set (sc_finished st')" and "length (sc_finished st) \<le> length (sc_finished st')"
    and "sc_suspended st' = sc_suspended st"
    and "j \<in> set (sc_finished st) \<Longrightarrow> sc_results st' ! j = sc_results st ! j"
    and "sc_results st' ! j \<noteq> sc_results st ! j \<Longrightarrow> d" 
    and "sc_results st' ! j \<noteq> sc_results st ! j \<Longrightarrow> \<exists>r. sc_results st' ! j = Some (SlotWaitError r)"
  using assms by (auto simp: keeps_def)

lemma keeps_same:
  "sc_results st' = sc_results st \<Longrightarrow> sc_finished st' = sc_finished st \<Longrightarrow> sc_suspended st' = sc_suspended st \<Longrightarrow> keeps d st st'"
  by (simp add: keeps_def)

lemma keeps_trans: "keeps d st u \<Longrightarrow> keeps d u st' \<Longrightarrow> keeps d st st'"
  unfolding keeps_def by (smt (verit) subset_iff order_trans)

lemma finishWaiting_keeps:
  assumes "accounted n st"
  shows "keeps True st (finishWaiting reason st)"
  using assms
proof (induction reason st rule: finishWaiting.induct)
  case (1 reason st)
  obtain found ls cursor where t: "take_next (sc_lanes st) (sc_cursor st) = (found, ls, cursor)" using prod_cases3 by blast
  show ?case
  proof (cases found)
    case None
    then show ?thesis using t by (simp add: finishWaiting.simps [of reason st] keeps_same)
  next
    case (Some i)
    note t = t [unfolded Some]
    let ?st = "st\<lparr>sc_lanes := ls, sc_cursor := cursor,
      sc_results := (sc_results st)[i := Some (SlotWaitError reason)], sc_remaining := sc_remaining st - 1,
      sc_finished := sc_finished st @ [i]\<rparr>"
    have f: "finishWaiting reason st = finishWaiting reason ?st" using t by (simp add: finishWaiting.simps [of reason st])
    have "i \<in> set (upcoming st)" using take_upcoming [OF t] by simp
    then have "i \<notin> set (sc_finished st)" "i < length (sc_results st)"
      using accounted_facts(1,2) [OF 1(2)] 1(2) by (auto simp: places_def accounted_def)
    then have "keeps True st ?st" by (auto simp: keeps_def nth_list_update)
    then show ?thesis using 1(1) [OF t [symmetric] refl refl finishWaiting_step [OF 1(2) t]] unfolding f by (rule keeps_trans)
  qed
qed

lemma resume_all_same:
  "sc_results (resume_all st) = sc_results st \<and> sc_finished (resume_all st) = sc_finished st
    \<and> sc_suspended (resume_all st) = sc_suspended st"
proof (induction st rule: resume_all.induct)
  case (1 st)
  then show ?case by (simp add: resume_all.simps [of st] resume_first_def)
qed

lemma resume_some_same:
  "sc_results (resume_some c st) = sc_results st \<and> sc_finished (resume_some c st) = sc_finished st
    \<and> sc_suspended (resume_some c st) = sc_suspended st"
proof (induction c st rule: resume_some.induct)
  case (1 c st)
  then show ?case by (simp add: resume_some.simps [of c st] resume_first_def)
qed

lemma start_workers_same:
  "sc_results (start_workers c st) = sc_results st \<and> sc_finished (start_workers c st) = sc_finished st
    \<and> sc_suspended (start_workers c st) = sc_suspended st"
proof (induction c st rule: start_workers.induct)
  case (1 c st)
  then show ?case by (auto simp: start_workers.simps [of c st] split: prod.split option.split)
qed

lemma pump_keeps:
  assumes "accounted n st"
  shows "keeps (interrupted rd) st (pump c rd st)"
proof -
  define s where "s = (if interrupted rd then resume_all (finishWaiting (wait_reason_for rd) st) else st)"
  have "keeps (interrupted rd) st s"
  proof (cases "interrupted rd")
    case True
    have "keeps True (finishWaiting (wait_reason_for rd) st) s" using resume_all_same [of "finishWaiting (wait_reason_for rd) st"] True by (simp add: s_def keeps_same)
    then show ?thesis using keeps_trans [OF finishWaiting_keeps [OF assms]] True by auto
  qed (simp add: s_def keeps_same)
  moreover have "keeps (interrupted rd) s (pump c rd st)"
    using resume_some_same [of c s] start_workers_same [of c "resume_some c s"]
    by (simp add: pump_def s_def [symmetric] keeps_same)
  ultimately show ?thesis by (rule keeps_trans)
qed

section \<open>Reports\<close>

text \<open>The slot that an event fills, and what it fills it with.\<close>

fun event_slot :: "('r, 'e) scheduler_event \<Rightarrow> (nat \<times> 'r slot_result) list" where
  "event_slot (WorkerReturned i v rd) = [(i, SlotValue v)]"
| "event_slot (WorkerWaited i reason rd) = [(i, SlotWaitError reason)]"
| "event_slot ev = []"

definition reports :: "('r, 'e) scheduler_event list \<Rightarrow> (nat \<times> 'r slot_result) list" where
  "reports evs = concat (map event_slot evs)"

fun suspends :: "('r, 'e) scheduler_event \<Rightarrow> bool" where
  "suspends (WorkerSuspended i rd) = True"
| "suspends ev = False"

definition suspensions :: "('r, 'e) scheduler_event list \<Rightarrow> nat" where
  "suspensions evs = length (filter suspends evs)"

text \<open>The reports are in the slots; every other filled slot is an error of an interruption; the number of
  events is bounded by what has happened.\<close>

definition slots_ok :: "bool \<Rightarrow> ('r, 'e) scheduler_event list \<Rightarrow> ('l, 'r, 'e) scheduler \<Rightarrow> bool" where
  "slots_ok disturbed evs st \<longleftrightarrow>
     (\<forall>(i, x) \<in> set (reports evs). i \<in> set (sc_finished st) \<and> sc_results st ! i = Some x)
     \<and> (\<forall>j < length (sc_results st). \<forall>x. sc_results st ! j = Some x \<longrightarrow>
          (j, x) \<in> set (reports evs) \<or> disturbed \<and> (\<exists>r. x = SlotWaitError r))
     \<and> length evs + length (sc_suspended st) \<le> length (sc_finished st) + 2 * suspensions evs"

lemma reports_snoc [simp]: "reports (evs @ [ev]) = reports evs @ event_slot ev"
  by (simp add: reports_def)

lemma suspensions_snoc [simp]: "suspensions (evs @ [ev]) = suspensions evs + (if suspends ev then 1 else 0)"
  by (simp add: suspensions_def)

lemma slots_okD:
  assumes "slots_ok d evs st"
  shows "(i, x) \<in> set (reports evs) \<Longrightarrow> i \<in> set (sc_finished st)"
    and "(i, x) \<in> set (reports evs) \<Longrightarrow> sc_results st ! i = Some x"
    and "j < length (sc_results st) \<Longrightarrow> sc_results st ! j = Some x \<Longrightarrow>
      (j, x) \<in> set (reports evs) \<or> d \<and> (\<exists>r. x = SlotWaitError r)"
    and "length evs + length (sc_suspended st) \<le> length (sc_finished st) + 2 * suspensions evs"
  using assms by (auto simp: slots_ok_def)

lemma slots_okI:
  assumes "\<And>i x. (i, x) \<in> set (reports evs) \<Longrightarrow> i \<in> set (sc_finished st) \<and> sc_results st ! i = Some x"
    and "\<And>j x. j < length (sc_results st) \<Longrightarrow> sc_results st ! j = Some x \<Longrightarrow>
      (j, x) \<in> set (reports evs) \<or> d \<and> (\<exists>r. x = SlotWaitError r)"
    and "length evs + length (sc_suspended st) \<le> length (sc_finished st) + 2 * suspensions evs"
  shows "slots_ok d evs st"
  using assms by (auto simp: slots_ok_def)

lemma slots_keep:
  assumes "slots_ok d evs st" and "keeps b st st'" and "length (sc_results st') = length (sc_results st)"
  shows "slots_ok (d \<or> b) evs st'"
proof (rule slots_okI)
  show "i \<in> set (sc_finished st') \<and> sc_results st' ! i = Some x" if "(i, x) \<in> set (reports evs)" for i x
    using slots_okD(1,2) [OF assms(1) that] keepsD(1,4) [OF assms(2)] by auto
  show "(j, x) \<in> set (reports evs) \<or> (d \<or> b) \<and> (\<exists>r. x = SlotWaitError r)"
    if "j < length (sc_results st')" "sc_results st' ! j = Some x" for j x
  proof (cases "sc_results st' ! j = sc_results st ! j")
    case True
    then show ?thesis using slots_okD(3) [OF assms(1), of j x] assms(3) that by auto
  next
    case False
    then show ?thesis using keepsD(5,6) [OF assms(2) False] that by auto
  qed
  show "length evs + length (sc_suspended st') \<le> length (sc_finished st') + 2 * suspensions evs"
    using slots_okD(4) [OF assms(1)] keepsD(2,3) [OF assms(2)] by simp
qed

text \<open>A worker settles: its slot is filled, or not when it threw, and what then happens keeps it.\<close>

lemma settle_worker_slots:
  assumes "accounted n st" and "rejected st \<or> sc_results st ! i \<noteq> None" and "i \<in> set (sc_running st)"
    and "slots_ok d evs (st\<lparr>sc_finished := sc_finished st @ [i]\<rparr>)"
  shows "slots_ok (d \<or> interrupted rd) evs (settle_worker c rd i st)"
proof -
  let ?st = "st\<lparr>sc_active := sc_active st - 1, sc_remaining := sc_remaining st - 1,
    sc_running := remove1 i (sc_running st), sc_finished := sc_finished st @ [i]\<rparr>"
  have a: "accounted n ?st" by (rule settled_accounted [OF assms(1,3,2)])
  have s: "slots_ok d evs ?st" using assms(4) by (simp add: slots_ok_def)
  have w: "settle_worker c rd i st = (if sc_remaining ?st = 0 then resolve_if_done ?st else pump c rd ?st)"
    by (simp add: settle_worker_def Let_def)
  show ?thesis
  proof (cases "sc_remaining ?st = 0")
    case True
    then show ?thesis using s unfolding w by (auto simp: slots_ok_def)
  next
    case False
    have "length (sc_results (pump c rd ?st)) = length (sc_results ?st)"
      using pump_accounted [OF a] a by (simp add: accounted_def)
    then show ?thesis using slots_keep [OF s pump_keeps [OF a]] False unfolding w by simp
  qed
qed

lemma slot_filled:
  assumes "accounted n st" and "i \<in> set (sc_running st)" and s: "slots_ok d evs st"
    and e: "event_slot ev = [(i, x)]" "\<not> suspends ev"
  shows "slots_ok d (evs @ [ev]) (st\<lparr>sc_results := (sc_results st)[i := Some x], sc_finished := sc_finished st @ [i]\<rparr>)"
proof (rule slots_okI)
  let ?st = "st\<lparr>sc_results := (sc_results st)[i := Some x], sc_finished := sc_finished st @ [i]\<rparr>"
  have i: "i < length (sc_results st)" "i \<notin> set (sc_finished st)"
    using running_leaves(3,4) [OF assms(1,2)] assms(1) by (simp_all add: accounted_def)
  show "k \<in> set (sc_finished ?st) \<and> sc_results ?st ! k = Some y" if "(k, y) \<in> set (reports (evs @ [ev]))" for k y
  proof (cases "(k, y) \<in> set (reports evs)")
    case True
    then show ?thesis using slots_okD(1,2) [OF s True] i by (auto simp: nth_list_update)
  next
    case False
    then show ?thesis using that e i by simp
  qed
  show "(j, y) \<in> set (reports (evs @ [ev])) \<or> d \<and> (\<exists>r. y = SlotWaitError r)"
    if "j < length (sc_results ?st)" "sc_results ?st ! j = Some y" for j y
    using that slots_okD(3) [OF s, of j y] e i by (cases "j = i") auto
  show "length (evs @ [ev]) + length (sc_suspended ?st) \<le> length (sc_finished ?st) + 2 * suspensions (evs @ [ev])"
    using slots_okD(4) [OF s] e by simp
qed

text \<open>One event.\<close>

lemma step_slots:
  assumes f: "fair_ok c order st" and s: "slots_ok d evs st" and step: "scheduler_step c ev st = Some st'"
  shows "slots_ok (d \<or> interrupted (event_reading ev)) (evs @ [ev]) st'"
proof -
  have a: "accounted (length order) st" using f by (simp add: fair_ok_def)
  show ?thesis
  proof (cases ev)
    case (WorkerReturned i v rd)
    let ?u = "st\<lparr>sc_results := (sc_results st)[i := Some (SlotValue v)]\<rparr>"
    have i: "i \<in> set (sc_running st)" and st': "st' = settle_worker c rd i ?u"
      using step WorkerReturned by (auto split: if_splits)
    have "slots_ok d (evs @ [ev]) (?u\<lparr>sc_finished := sc_finished ?u @ [i]\<rparr>)"
      using slot_filled [OF a i s, of ev "SlotValue v"] WorkerReturned by simp
    then show ?thesis
      using settle_worker_slots [of "length order" ?u i d "evs @ [ev]" rd c] result_set_ok [OF a i, of "SlotValue v"] i
      unfolding st' by (simp add: WorkerReturned)
  next
    case (WorkerWaited i reason rd)
    let ?u = "st\<lparr>sc_results := (sc_results st)[i := Some (SlotWaitError reason)]\<rparr>"
    have i: "i \<in> set (sc_running st)" and st': "st' = settle_worker c rd i ?u"
      using step WorkerWaited by (auto split: if_splits)
    have "slots_ok d (evs @ [ev]) (?u\<lparr>sc_finished := sc_finished ?u @ [i]\<rparr>)"
      using slot_filled [OF a i s, of ev "SlotWaitError reason"] WorkerWaited by simp
    then show ?thesis
      using settle_worker_slots [of "length order" ?u i d "evs @ [ev]" rd c] result_set_ok [OF a i, of "SlotWaitError reason"] i
      unfolding st' by (simp add: WorkerWaited)
  next
    case (WorkerThrew i e rd)
    let ?u = "settle_promise (Rejected e) st"
    have i: "i \<in> set (sc_running st)" and st': "st' = settle_worker c rd i ?u" using step WorkerThrew by (auto split: if_splits)
    have "promise_before st" using busy_before [OF f] i by blast
    then have r: "rejected ?u" by (rule rejected_settle)
    then have u: "accounted (length order) ?u" using a by (simp add: accounted_def)
    have "slots_ok d (evs @ [ev]) (?u\<lparr>sc_finished := sc_finished ?u @ [i]\<rparr>)"
      using s by (auto simp: slots_ok_def WorkerThrew)
    then show ?thesis using settle_worker_slots [OF u, of i d "evs @ [ev]" rd c] r i unfolding st' by (simp add: WorkerThrew)
  next
    case (WorkerSuspended i rd)
    let ?u = "st\<lparr>sc_active := sc_active st - 1, sc_running := remove1 i (sc_running st), sc_suspended := sc_suspended st @ [i]\<rparr>"
    have i: "i \<in> set (sc_running st)" and st': "st' = pump c rd ?u" using step WorkerSuspended by (auto split: if_splits)
    have u: "accounted (length order) ?u" by (rule suspend_ok [OF a i])
    have "slots_ok d (evs @ [ev]) ?u" using s by (auto simp: slots_ok_def WorkerSuspended)
    moreover have "length (sc_results (pump c rd ?u)) = length (sc_results ?u)"
      using pump_accounted [OF u, of c rd] u by (simp add: accounted_def)
    ultimately show ?thesis using slots_keep [OF _ pump_keeps [OF u, of rd c]] unfolding st' by (simp add: WorkerSuspended)
  next
    case (WorkerResumes i rd)
    then have i: "i \<in> set (sc_suspended st)" using step by (auto split: if_splits)
    then have "Suc (length (remove1 i (sc_suspended st))) = length (sc_suspended st)" using length_pos_if_in_set [OF i] by (simp add: length_remove1)
    moreover have "sc_suspended st' = remove1 i (sc_suspended st)" "sc_results st' = sc_results st" "sc_finished st' = sc_finished st"
      using step WorkerResumes by (auto split: if_splits)
    ultimately show ?thesis using s by (auto simp: slots_ok_def WorkerResumes)
  qed
qed

lemma events_slots:
  assumes "fair_ok c order st" and "slots_ok d evs st" and "scheduler_events c later st = Some st'"
  shows "slots_ok (d \<or> \<not> undisturbed later) (evs @ later) st'"
  using assms
proof (induction later arbitrary: st d evs)
  case (Cons ev later)
  then obtain u where u: "scheduler_step c ev st = Some u" "scheduler_events c later u = Some st'"
    by (auto simp: bind_eq_Some_conv)
  have "fair_ok c order u" using step_fair [OF Cons.prems(1) u(1)] by blast
  from Cons.IH [OF this step_slots [OF Cons.prems(1,2) u(1)] u(2)] show ?case by simp
qed simp

lemma runBoundedFair_slots:
  fixes st :: "('l, 'r, 'e) scheduler"
  assumes "runBoundedFair c work rd = Inr st"
  shows "slots_ok (interrupted rd) [] st"
proof -
  let ?new = "new_scheduler work :: ('l, 'r, 'e) scheduler"
  have new: "slots_ok False [] ?new" by (simp add: slots_ok_def new_scheduler_def reports_def suspensions_def)
  show ?thesis
  proof (cases "work = []")
    case True
    then have "st = settle_promise (Resolved []) ?new" using assms by (simp add: runBoundedFair_def split: if_splits)
    then show ?thesis using new by (auto simp: slots_ok_def)
  next
    case False
    then have st: "st = pump (nat c) rd ?new" using assms by (simp add: runBoundedFair_def split: if_splits)
    have a: "accounted (length work) ?new" by (rule accounted_new)
    have "length (sc_results (pump (nat c) rd ?new)) = length (sc_results ?new)"
      using pump_accounted [OF a, of "nat c" rd] a by (simp add: accounted_def)
    from slots_keep [OF new pump_keeps [OF a, of rd "nat c"] this] show ?thesis unfolding st by simp
  qed
qed

section \<open>Guarantees of a run\<close>

lemma run_facts:
  assumes "runBoundedFair c work rd = Inr st" and "scheduler_events (nat c) evs st = Some st'"
  shows "fair_ok (nat c) (fair_order work) st'" and "1 \<le> nat c"
    and "slots_ok (interrupted rd \<or> \<not> undisturbed evs) evs st'"
    and "\<not> interrupted rd \<Longrightarrow> undisturbed evs \<Longrightarrow> sc_active st' \<le> nat c"
    and "\<not> interrupted rd \<Longrightarrow> undisturbed evs \<Longrightarrow> sc_started st' @ upcoming st' = fair_order work"
proof -
  have i: "1 \<le> nat c" "fair_ok (nat c) (fair_order work) st" "\<not> interrupted rd \<Longrightarrow> sc_active st \<le> nat c"
    "\<not> interrupted rd \<Longrightarrow> sc_started st @ upcoming st = fair_order work"
    using runBoundedFair_fair [OF assms(1)] by simp_all
  note e = events_fair [OF i(2) assms(2)]
  show "1 \<le> nat c" "fair_ok (nat c) (fair_order work) st'" using i(1) e by simp_all
  show "slots_ok (interrupted rd \<or> \<not> undisturbed evs) evs st'"
    using events_slots [OF i(2) runBoundedFair_slots [OF assms(1)] assms(2)] by simp
  show "sc_active st' \<le> nat c" "sc_started st' @ upcoming st' = fair_order work" if "\<not> interrupted rd" "undisturbed evs"
    using e i(3,4) that by simp_all
qed

lemma run_accounted:
  assumes "runBoundedFair c work rd = Inr st" and "scheduler_events (nat c) evs st = Some st'"
  shows "accounted (length work) st'" and "promise_ok st'"
  using run_facts(1) [OF assms] by (simp_all add: fair_ok_def)

lemma resolved_all:
  assumes "accounted n st" and "promise_ok st" and "sc_promise st = Resolved rs"
  shows "rs = sc_results st" and "length rs = n" and "None \<notin> set rs" and "upcoming st = []"
proof -
  have p: "sc_remaining st = 0" "rs = sc_results st" "length (sc_results st) = n" "length (sc_finished st) = n"
    using assms by (auto simp: promise_ok_def accounted_def)
  show "rs = sc_results st" "length rs = n" using p by simp_all
  have "length (upcoming st) + length (sc_running st) + length (sc_suspended st) + length (sc_resuming st) = 0"
    using accounted_facts(3) [OF assms(1)] p(4) by (simp add: places_def)
  then have e: "upcoming st = []" "sc_running st = []" "sc_suspended st = []" "sc_resuming st = []" by simp_all
  then have "set (sc_finished st) = {0..<n}" using accounted_facts(2) [OF assms(1)] by (simp add: places_def)
  then have "sc_results st ! i \<noteq> None" if "i < n" for i
    using assms(1,3) that by (auto simp: accounted_def rejected_def)
  then show "None \<notin> set rs" using p by (auto simp: in_set_conv_nth)
  show "upcoming st = []" by (rule e)
qed

text \<open>C21: Work is started in rounds. The starts of \<open>worker\<close>, in their order, are a beginning of the
  order of the rounds over the lanes (each round takes the next item of every lane that still has one,
  the lanes in the order of their first item), whatever the order of the events, suspensions, errors and
  interruptions included; a run that resolves without an interruption has started exactly that order.\<close>

theorem work_starts_in_rounds:
  assumes "runBoundedFair c work rd = Inr st" and "scheduler_events (nat c) evs st = Some st'"
  shows "prefix (sc_started st') (fair_order work)
    \<and> (\<not> interrupted rd \<longrightarrow> undisturbed evs \<longrightarrow> sc_promise st' = Resolved rs \<longrightarrow> sc_started st' = fair_order work)"
  using run_facts(1) [OF assms] run_facts(5) [OF assms] resolved_all(4) [OF run_accounted [OF assms]]
  by (auto simp: fair_ok_def dest: append_prefixD)

text \<open>C23: The concurrency bound. As long as no event has read an aborted signal or a passed deadline, at most
  \<open>concurrency\<close> workers hold a permit, however workers suspend and resume.\<close>

theorem permits_bounded:
  assumes "runBoundedFair c work rd = Inr st" and "scheduler_events (nat c) evs st = Some st'"
    and "\<not> interrupted rd" and "undisturbed evs"
  shows "length (sc_running st') \<le> nat c"
  using run_facts(4) [OF assms] run_accounted(1) [OF assms(1,2)] by (simp add: accounted_def)

text \<open>C22: A resolved run has one filled slot for each item, in the order of the input: the slot of an item
  holds what its worker returned, or the \<open>SchedulerWaitError\<close> that it threw; a slot that no worker
  filled holds a \<open>SchedulerWaitError\<close>, and only a run that was interrupted has one.\<close>

theorem slots_hold_results:
  assumes "runBoundedFair c work rd = Inr st" and "scheduler_events (nat c) evs st = Some st'"
    and "sc_promise st' = Resolved rs"
  shows "length rs = length work \<and> None \<notin> set rs
    \<and> ((i, x) \<in> set (reports evs) \<longrightarrow> rs ! i = Some x)
    \<and> (i < length work \<longrightarrow> rs ! i = Some x \<longrightarrow> (i, x) \<in> set (reports evs)
         \<or> (interrupted rd \<or> \<not> undisturbed evs) \<and> (\<exists>reason. x = SlotWaitError reason))"
proof -
  note r = resolved_all [OF run_accounted [OF assms(1,2)] assms(3)]
  note s = run_facts(3) [OF assms(1,2)]
  show ?thesis using r(1-3) slots_okD(2) [OF s, of i x] slots_okD(3) [OF s, of i x] by auto
qed

text \<open>C24: A run ends. While its promise is not settled, some worker holds a permit or is suspended, and
  nothing is queued or waits to resume unless a permit is held; a worker settles once and suspends and
  resumes in pairs, so a run has at most one event for each item and two for each suspension.\<close>

theorem run_ends:
  assumes "runBoundedFair c work rd = Inr st" and "scheduler_events (nat c) evs st = Some st'"
  shows "length evs \<le> length work + 2 * suspensions evs
    \<and> (sc_promise st' = Unsettled \<longrightarrow>
         (sc_running st' \<noteq> [] \<or> sc_suspended st' \<noteq> []) \<and> (sc_running st' = [] \<longrightarrow> sc_resuming st' = [] \<and> upcoming st' = []))"
proof (intro conjI impI)
  note a = run_accounted [OF assms]
  have w: "upcoming st' \<noteq> [] \<or> sc_resuming st' \<noteq> [] \<longrightarrow> sc_running st' \<noteq> []"
    using run_facts(1,2) [OF assms] by (auto simp: fair_ok_def accounted_def)
  have "length (sc_finished st') \<le> length work" using a(1) by (simp add: accounted_def)
  then show "length evs \<le> length work + 2 * suspensions evs" using slots_okD(4) [OF run_facts(3) [OF assms]] by linarith
  show "sc_running st' \<noteq> [] \<or> sc_suspended st' \<noteq> []" if "sc_promise st' = Unsettled"
  proof -
    have "sc_remaining st' \<noteq> 0" using a(2) that by (simp add: promise_ok_def)
    then have "length (sc_finished st') \<noteq> length work" using a(1) by (auto simp: accounted_def)
    then have "places st' \<noteq> sc_finished st'" using accounted_facts(3) [OF a(1)] by auto
    then show ?thesis using w by (auto simp: places_def)
  qed
  show "sc_resuming st' = []" "upcoming st' = []" if "sc_running st' = []" using w that by blast+
qed

text \<open>The job scheduler runs what fits its queue and has no duplicate, on the lanes of its principals; the
  guarantees above are those of its runs.\<close>

lemma run_jobs_fair:
  assumes "newOfflineJobScheduler c m = Inr js"
  shows "run_jobs js work rd =
    (if m < int (length work) then Inl (JobConflictError ''Job queue capacity exceeded'')
     else if \<not> distinct work then Inl (JobConflictError ''Duplicate scheduled job item'')
     else Inr (projr (runBoundedFair c (map job_lane work) rd)))"
    and "\<exists>st. runBoundedFair c (map job_lane work) rd = Inr st"
proof -
  have c: "1 \<le> c" "js = \<lparr>js_concurrency = c, js_maxQueuedItems = m\<rparr>"
    using assms by (auto simp: newOfflineJobScheduler_def thenR_def split: if_splits sum.splits)
  then show "run_jobs js work rd =
    (if m < int (length work) then Inl (JobConflictError ''Job queue capacity exceeded'')
     else if \<not> distinct work then Inl (JobConflictError ''Duplicate scheduled job item'')
     else Inr (projr (runBoundedFair c (map job_lane work) rd)))"
    "\<exists>st. runBoundedFair c (map job_lane work) rd = Inr st"
    by (simp_all add: run_jobs_def runBoundedFair_def)
qed

section \<open>A run\<close>

text \<open>Four items in two lanes with two permits: the second item started suspends once, and the permit it gave
  back goes to the first lane.\<close>

definition calm :: scheduler_reading where
  "calm = \<lparr>rd_aborted = False, rd_expired = False\<rparr>"

definition demo_lanes :: "string list" where
  "demo_lanes = [''a'', ''a'', ''b'', ''a'']"

definition demo_events :: "(nat, string) scheduler_event list" where
  "demo_events = [WorkerReturned 0 7 calm, WorkerSuspended 2 calm, WorkerReturned 1 8 calm, WorkerResumes 2 calm,
     WorkerWaited 3 WaitCancelled calm, WorkerReturned 2 9 calm]"

definition demo_start :: "(string, nat, string) scheduler" where
  "demo_start = projr (runBoundedFair 2 demo_lanes calm)"

definition demo_end :: "(string, nat, string) scheduler" where
  "demo_end = the (scheduler_events 2 demo_events demo_start)"

lemma demo_run:
  "runBoundedFair 2 demo_lanes calm = Inr demo_start" "scheduler_events (nat 2) demo_events demo_start = Some demo_end"
proof -
  show "runBoundedFair 2 demo_lanes calm = Inr demo_start" by (simp add: demo_start_def runBoundedFair_def)
  have "scheduler_events (nat 2) demo_events demo_start \<noteq> None" by code_simp
  then show "scheduler_events (nat 2) demo_events demo_start = Some demo_end" by (auto simp: demo_end_def)
qed

lemma demo_end_facts:
  "sc_promise demo_end = Resolved [Some (SlotValue 7), Some (SlotValue 8), Some (SlotValue 9), Some (SlotWaitError WaitCancelled)]"
  "\<not> interrupted calm" "undisturbed demo_events" "fair_order demo_lanes = [0, 2, 1, 3]" "suspensions demo_events = 1"
  by code_simp+

theorem work_starts_in_rounds_witness: "sc_started demo_end = [0, 2, 1, 3]"
  using work_starts_in_rounds [OF demo_run, of "[Some (SlotValue 7), Some (SlotValue 8), Some (SlotValue 9), Some (SlotWaitError WaitCancelled)]"]
    demo_end_facts by simp

theorem permits_bounded_witness: "length (sc_running demo_end) \<le> 2"
  using permits_bounded [OF demo_run demo_end_facts(2,3)] by simp

theorem slots_hold_results_witness:
  "[Some (SlotValue 7), Some (SlotValue 8), Some (SlotValue 9), Some (SlotWaitError WaitCancelled)] ! 2 = Some (SlotValue (9 :: nat))"
proof -
  have "(2, SlotValue 9) \<in> set (reports demo_events)" by code_simp
  then show ?thesis using slots_hold_results [OF demo_run demo_end_facts(1), of 2 "SlotValue 9"] by blast
qed

theorem run_ends_witness: "length demo_events \<le> 6"
  using run_ends [OF demo_run] demo_end_facts(5) by (simp add: demo_lanes_def)

end
