(* ===== verification/Admission.thy ===== *)
theory Admission
  imports Prelude
begin

text \<open>
  Admission control (\<open>src/decision/admission.ts\<close>, \<open>DecisionAdmissionController\<close>): the limits, estimates and
  evidence of \<open>src/decision/types.ts\<close>, the state of the controller and the two checks of a request,
  \<open>preflight\<close> and \<open>tryAdmit\<close>. An event reads the clock once. The environment of an event holds what the
  controller is given: the clock, the signals, the current limits, the registered principals and the
  rounding of a floating-point result. Keys that the code joins with NUL are pairs; the keys joined
  with a colon are the strings of the code.
\<close>

section \<open>Limits and requests\<close>

record breaker_config =
  bc_failureThreshold :: int
  bc_openMs :: rat
  bc_halfOpenMaxCalls :: int

record admission_limits =
  lm_concurrency :: int
  lm_requestsPerMinute :: "rat option"
  lm_tokensPerSecond :: "rat option"
  lm_maxAttempts :: "rat option"
  lm_maxBatchSize :: "rat option"
  lm_maxCostUsd :: "rat option"
  lm_allowUnknownCost :: bool
  lm_maxTokens :: "rat option"
  lm_maxQueueLength :: "rat option"
  lm_maxQueueWaitMs :: "rat option"
  lm_maxRequestBytes :: "rat option"
  lm_maxItems :: "rat option"
  lm_maxRetainedWork :: "rat option"
  lm_circuitBreaker :: "breaker_config option"
  lm_reservedConcurrency :: "int option"
  lm_maxPrincipalShare :: "rat option"

record scope_limits =
  sl_principal :: admission_limits
  sl_workspace :: admission_limits
  sl_provider :: admission_limits

text \<open>An estimate is not trusted: any number may be in it. \<open>costUsd\<close> is \<open>None\<close> for \<open>undefined\<close> and \<open>null\<close>.\<close>

record call_estimate =
  ce_tokens :: "jsnum option"
  ce_costUsd :: "jsnum option"
  ce_requestBytes :: "jsnum option"
  ce_items :: "jsnum option"
  ce_attempts :: "jsnum option"
  ce_batchSize :: "jsnum option"
  ce_retainedWork :: "jsnum option"

text \<open>A request is compared by identity (\<open>aq_id\<close>); its signal may be shared with other requests.\<close>

record admission_request =
  aq_id :: nat
  aq_budgetId :: string
  aq_principalId :: string
  aq_workspaceId :: string
  aq_providerId :: string
  aq_estimate :: call_estimate
  aq_deadline :: rat
  aq_signal :: nat

datatype breaker_state = BreakerClosed | BreakerOpen | BreakerHalfOpen

datatype admission_decision = AdmissionAdmit | AdmissionDefer | AdmissionReject

datatype admission_reason =
  RAdmitted | RDisabled | RCancelled | RUnconfiguredProvider | RDeadlineExceeded | RInvalidEstimate | RBatchSize | RRequestTooLarge
| RTooManyItems | RUnknownRetainedWork | RRetainedWork | RUnknownCost | RUnknownTokens | RQueueFull | RQueueTimeout
| RConcurrency | RRetryAfter | RCircuitOpen | RAttempts | RCost | RTokens | RRequestsPerMinute | RTokensPerSecond

type_synonym breaker_change = "breaker_state \<times> breaker_state"

record admission_evidence =
  an_decision :: admission_decision
  an_reason :: admission_reason
  an_queueDelayMs :: rat
  an_active :: nat
  an_queued :: nat
  an_estimatedTokens :: "rat option"
  an_estimatedCostUsd :: "rat option"
  an_retryPressure :: nat
  an_breakerState :: breaker_state
  an_retryAfterMs :: "rat option"
  an_breakerTransitions :: "breaker_change list"

record admission_error =
  ar_evidence :: admission_evidence
  ar_retryable :: bool

section \<open>State\<close>

record token_bucket =
  bu_value :: rat
  bu_updatedAt :: rat

record breaker =
  bk_state :: breaker_state
  bk_failures :: int
  bk_openedAt :: rat
  bk_halfOpenActive :: int

record admission_waiter =
  wt_request :: admission_request
  wt_enqueuedAt :: rat

record transition_record =
  tr_providerId :: string
  tr_change :: breaker_change
  tr_at :: rat
  tr_failures :: int

record admission_lease =
  le_request :: admission_request
  le_config :: "breaker_config option"
  le_evidence :: admission_evidence
  le_released :: bool

type_synonym lane = "string \<times> string \<times> string"

text \<open>A map that is read with a default is a function. The leases handed out and the requests refused are
  what the callers hold.\<close>

record admission_state =
  ad_active :: nat
  ad_activePrincipal :: "string \<Rightarrow> nat"
  ad_activeWorkspace :: "string \<Rightarrow> nat"
  ad_activeProvider :: "string \<Rightarrow> nat"
  ad_activePrincipalProvider :: "string \<times> string \<Rightarrow> nat"
  ad_seenReservations :: "(string \<times> admission_limits) list"
  ad_tokenReservations :: "string \<Rightarrow> admission_request option"
  ad_breakerHistory :: "transition_record list"
  ad_requestBuckets :: "string \<Rightarrow> token_bucket option"
  ad_tokenBuckets :: "string \<Rightarrow> token_bucket option"
  ad_costSpent :: "string \<Rightarrow> rat"
  ad_tokensReserved :: "string \<Rightarrow> int"
  ad_attempts :: "string \<Rightarrow> int"
  ad_breakers :: "string \<Rightarrow> breaker"
  ad_pausedUntil :: "string \<Rightarrow> rat"
  ad_queues :: "(lane \<times> admission_waiter list) list"
  ad_laneCursor :: nat
  ad_retryPressure :: nat
  ad_timer :: "rat option"
  ad_leases :: "admission_lease list"
  ad_refused :: "(admission_request \<times> admission_error) list"

definition closed_breaker :: breaker where
  "closed_breaker = \<lparr>bk_state = BreakerClosed, bk_failures = 0, bk_openedAt = 0, bk_halfOpenActive = 0\<rparr>"

definition new_controller :: admission_state where
  "new_controller =
     \<lparr>ad_active = 0, ad_activePrincipal = (\<lambda>_. 0), ad_activeWorkspace = (\<lambda>_. 0), ad_activeProvider = (\<lambda>_. 0),
      ad_activePrincipalProvider = (\<lambda>_. 0), ad_seenReservations = [], ad_tokenReservations = (\<lambda>_. None),
      ad_breakerHistory = [], ad_requestBuckets = (\<lambda>_. None), ad_tokenBuckets = (\<lambda>_. None), ad_costSpent = (\<lambda>_. 0),
      ad_tokensReserved = (\<lambda>_. 0), ad_attempts = (\<lambda>_. 0), ad_breakers = (\<lambda>_. closed_breaker), ad_pausedUntil = (\<lambda>_. 0),
      ad_queues = [], ad_laneCursor = 0, ad_retryPressure = 0, ad_timer = None, ad_leases = [], ad_refused = []\<rparr>"

record admission_env =
  ae_now :: rat
  ae_aborted :: "nat \<Rightarrow> bool"
  ae_limits :: "admission_request \<Rightarrow> scope_limits option"
  ae_principals :: "(string \<times> admission_limits) list option"
  ae_round :: "rat \<Rightarrow> rat"

definition request_aborted :: "admission_env \<Rightarrow> admission_request \<Rightarrow> bool" where
  "request_aborted env req = ae_aborted env (aq_signal req)"

section \<open>Helpers\<close>

definition fadd :: "admission_env \<Rightarrow> rat \<Rightarrow> rat \<Rightarrow> rat" where
  "fadd env a b = ae_round env (a + b)"

definition fsub :: "admission_env \<Rightarrow> rat \<Rightarrow> rat \<Rightarrow> rat" where
  "fsub env a b = ae_round env (a - b)"

definition fmul :: "admission_env \<Rightarrow> rat \<Rightarrow> rat \<Rightarrow> rat" where
  "fmul env a b = ae_round env (a * b)"

definition fdiv :: "admission_env \<Rightarrow> rat \<Rightarrow> rat \<Rightarrow> rat" where
  "fdiv env a b = ae_round env (a / b)"

fun to_rat :: "jsnum \<Rightarrow> rat" where
  "to_rat (Fin q) = q"
| "to_rat _ = 0"

text \<open>A count that passed the checks of \<open>preflight\<close>, with its default.\<close>

definition count_of :: "jsnum option \<Rightarrow> int \<Rightarrow> int" where
  "count_of x d = (case x of None \<Rightarrow> d | Some n \<Rightarrow> to_int n)"

definition nonneg_num :: "jsnum \<Rightarrow> bool" where
  "nonneg_num n \<longleftrightarrow> \<not> num_lt n (Fin 0)"

definition shareCap :: "admission_env \<Rightarrow> rat \<Rightarrow> rat \<Rightarrow> int" where
  "shareCap env share capacity = max 1 \<lfloor>fmul env share capacity\<rfloor>"

definition jitterHint :: "admission_env \<Rightarrow> rat \<Rightarrow> rat" where
  "jitterHint env value = max 1 (min 30000 (of_int \<lfloor>fmul env value (7 / 8) + 1 / 2\<rfloor>))"

definition all_waiters :: "admission_state \<Rightarrow> admission_waiter list" where
  "all_waiters st = concat (map snd (ad_queues st))"

definition queuedCount :: "(admission_request \<Rightarrow> bool) \<Rightarrow> admission_state \<Rightarrow> nat" where
  "queuedCount P st = length (filter (\<lambda>w. P (wt_request w)) (all_waiters st))"

definition evidence_of ::
    "admission_env \<Rightarrow> admission_reason \<Rightarrow> admission_decision \<Rightarrow> admission_request \<Rightarrow> rat \<Rightarrow> rat option \<Rightarrow> admission_state
     \<Rightarrow> admission_evidence" where
  "evidence_of env reason decision req queueDelay retryAfter st =
     \<lparr>an_decision = decision, an_reason = reason, an_queueDelayMs = max 0 queueDelay,
      an_active = ad_activePrincipal st (aq_principalId req),
      an_queued = queuedCount (\<lambda>r. aq_principalId r = aq_principalId req) st
        - (if list_ex (\<lambda>w. aq_id (wt_request w) = aq_id req) (all_waiters st) then 1 else 0),
      an_estimatedTokens = (case ce_tokens (aq_estimate req) of None \<Rightarrow> None
        | Some n \<Rightarrow> if is_safe_integer n \<and> nonneg_num n then Some (to_rat n) else None),
      an_estimatedCostUsd = (case ce_costUsd (aq_estimate req) of None \<Rightarrow> None
        | Some n \<Rightarrow> if is_finite n \<and> nonneg_num n then Some (to_rat n) else None),
      an_retryPressure = ad_retryPressure st, an_breakerState = bk_state (ad_breakers st (aq_providerId req)),
      an_retryAfterMs = map_option (jitterHint env) retryAfter, an_breakerTransitions = []\<rparr>"

definition admission_fails ::
    "admission_env \<Rightarrow> admission_reason \<Rightarrow> admission_decision \<Rightarrow> admission_request \<Rightarrow> bool \<Rightarrow> rat option \<Rightarrow> admission_state
     \<Rightarrow> admission_error" where
  "admission_fails env reason decision req retryable retryAfter st =
     \<lparr>ar_evidence = evidence_of env reason decision req 0 retryAfter st, ar_retryable = retryable\<rparr>"

section \<open>Preflight\<close>

definition scopes_of :: "scope_limits \<Rightarrow> admission_limits list" where
  "scopes_of s = [sl_principal s, sl_workspace s, sl_provider s]"

definition exceeds :: "jsnum option \<Rightarrow> rat option \<Rightarrow> bool" where
  "exceeds amount limit = (case (amount, limit) of (Some n, Some m) \<Rightarrow> num_lt (Fin m) n | _ \<Rightarrow> False)"

definition bad_count :: "jsnum option \<Rightarrow> bool" where
  "bad_count x = opt_holds (\<lambda>n. \<not> is_safe_integer n \<or> \<not> nonneg_num n) x"

definition scope_checks :: "call_estimate \<Rightarrow> admission_limits \<Rightarrow> (bool \<times> admission_reason) list" where
  "scope_checks e l =
     [(exceeds (ce_batchSize e) (lm_maxBatchSize l), RBatchSize),
      (exceeds (ce_requestBytes e) (lm_maxRequestBytes l), RRequestTooLarge),
      (exceeds (ce_items e) (lm_maxItems l), RTooManyItems),
      (lm_maxRetainedWork l \<noteq> None \<and> ce_retainedWork e = None, RUnknownRetainedWork),
      (exceeds (ce_retainedWork e) (lm_maxRetainedWork l), RRetainedWork),
      (ce_costUsd e = None \<and> lm_maxCostUsd l \<noteq> None \<and> \<not> lm_allowUnknownCost l, RUnknownCost),
      (ce_tokens e = None \<and> lm_maxTokens l \<noteq> None, RUnknownTokens)]"

definition preflight_reason :: "admission_env \<Rightarrow> admission_request \<Rightarrow> admission_reason option" where
  "preflight_reason env req =
     (let e = aq_estimate req in
      if request_aborted env req then Some RCancelled
      else case ae_limits env req of
        None \<Rightarrow> Some RUnconfiguredProvider
      | Some scoped \<Rightarrow>
          (case checks ((ae_now env \<ge> aq_deadline req, RDeadlineExceeded)
             # map (\<lambda>c. (bad_count c, RInvalidEstimate))
                 [ce_tokens e, ce_requestBytes e, ce_items e, ce_attempts e, ce_batchSize e, ce_retainedWork e]
             @ (opt_holds (\<lambda>c. \<not> is_finite c \<or> \<not> nonneg_num c) (ce_costUsd e), RInvalidEstimate)
             # concat (map (scope_checks e) (scopes_of scoped)))
           of Inl reason \<Rightarrow> Some reason | Inr _ \<Rightarrow> None))"

definition preflight :: "admission_env \<Rightarrow> admission_request \<Rightarrow> admission_state \<Rightarrow> admission_error option" where
  "preflight env req st =
     map_option (\<lambda>reason. admission_fails env reason AdmissionReject req False None st) (preflight_reason env req)"

section \<open>Buckets, reservations and the breaker\<close>

definition refill_bucket :: "admission_env \<Rightarrow> rat \<Rightarrow> rat \<Rightarrow> token_bucket option \<Rightarrow> token_bucket" where
  "refill_bucket env capacity rate b =
     (case b of
        None \<Rightarrow> \<lparr>bu_value = capacity, bu_updatedAt = ae_now env\<rparr>
      | Some b \<Rightarrow>
          \<lparr>bu_value = min capacity (fadd env (bu_value b) (fmul env (max 0 (fsub env (ae_now env) (bu_updatedAt b))) rate)),
           bu_updatedAt = ae_now env\<rparr>)"

text \<open>\<open>canConsume\<close>, with the buckets after it, and \<open>consume\<close>.\<close>

definition canConsume ::
    "admission_env \<Rightarrow> (string \<Rightarrow> token_bucket option) \<Rightarrow> string \<Rightarrow> rat \<Rightarrow> rat \<Rightarrow> rat \<Rightarrow> bool \<times> (string \<Rightarrow> token_bucket option)" where
  "canConsume env m key capacity rate amount =
     (let b = refill_bucket env capacity rate (m key) in (bu_value b \<ge> amount, m(key := Some b)))"

definition consume ::
    "admission_env \<Rightarrow> (string \<Rightarrow> token_bucket option) \<Rightarrow> string \<Rightarrow> rat option \<Rightarrow> rat \<Rightarrow> rat \<Rightarrow> string \<Rightarrow> token_bucket option" where
  "consume env m key capacity per amount =
     (case capacity of
        None \<Rightarrow> m
      | Some c \<Rightarrow>
          let b = refill_bucket env c (fdiv env c per) (m key) in
          m(key := Some (b\<lparr>bu_value := fsub env (bu_value b) amount\<rparr>)))"

definition principals_of :: "admission_env \<Rightarrow> admission_state \<Rightarrow> (string \<times> admission_limits) list" where
  "principals_of env st = (case ae_principals env of Some ps \<Rightarrow> ps | None \<Rightarrow> ad_seenReservations st)"

definition reserved_of :: "admission_limits \<Rightarrow> int" where
  "reserved_of l = opt_default (lm_reservedConcurrency l) 0"

text \<open>What the reservation of a principal still holds back from a pool.\<close>

definition held_back :: "int \<Rightarrow> (string \<Rightarrow> nat) \<Rightarrow> string \<times> admission_limits \<Rightarrow> int" where
  "held_back capacity activeOf p = max 0 (min (reserved_of (snd p)) capacity - int (activeOf (fst p)))"

definition withinReservations ::
    "(string \<times> admission_limits) list \<Rightarrow> admission_request \<Rightarrow> admission_limits \<Rightarrow> int \<Rightarrow> nat \<Rightarrow> nat \<Rightarrow> (string \<Rightarrow> nat) \<Rightarrow> bool" where
  "withinReservations principals req own capacity active ownActive activeOf =
     (let free = capacity - int active in
      if int ownActive < min (reserved_of own) capacity then free \<ge> 1
      else free - sum_list (map (held_back capacity activeOf)
             (filter (\<lambda>p. fst p \<noteq> aq_principalId req \<and> reserved_of (snd p) \<noteq> 0) principals)) \<ge> 1)"

text \<open>\<open>transition\<close>: the new state of the breaker is recorded; the history keeps the last 64 records.\<close>

definition push_history :: "transition_record \<Rightarrow> transition_record list \<Rightarrow> transition_record list" where
  "push_history r h = (let h' = h @ [r] in if length h' > 64 then tl h' else h')"

definition breaker_transition :: "admission_env \<Rightarrow> string \<Rightarrow> breaker_state \<Rightarrow> admission_state \<Rightarrow> admission_state" where
  "breaker_transition env provider target st =
     (let b = ad_breakers st provider in
      st\<lparr>ad_breakers := (ad_breakers st)(provider := b\<lparr>bk_state := target\<rparr>),
         ad_breakerHistory := push_history \<lparr>tr_providerId = provider, tr_change = (bk_state b, target),
           tr_at = ae_now env, tr_failures = bk_failures b\<rparr> (ad_breakerHistory st)\<rparr>)"

section \<open>Admission\<close>

text \<open>The checks of the pools: the three ceilings, the shares and the reservations.\<close>

definition pools_full :: "admission_env \<Rightarrow> scope_limits \<Rightarrow> admission_request \<Rightarrow> admission_state \<Rightarrow> bool" where
  "pools_full env s req st =
     (let ownPrincipal = ad_activePrincipal st (aq_principalId req);
          inWorkspace = ad_activeWorkspace st (aq_workspaceId req);
          inProvider = ad_activeProvider st (aq_providerId req);
          ownProvider = ad_activePrincipalProvider st (aq_providerId req, aq_principalId req);
          principals = principals_of env st in
      int ownPrincipal \<ge> lm_concurrency (sl_principal s) \<or> int inWorkspace \<ge> lm_concurrency (sl_workspace s)
      \<or> int inProvider \<ge> lm_concurrency (sl_provider s)
      \<or> opt_holds (\<lambda>share. int ownPrincipal \<ge> shareCap env share (of_int (lm_concurrency (sl_workspace s))))
          (lm_maxPrincipalShare (sl_workspace s))
      \<or> opt_holds (\<lambda>share. int ownProvider \<ge> shareCap env share (of_int (lm_concurrency (sl_provider s))))
          (lm_maxPrincipalShare (sl_provider s))
      \<or> \<not> withinReservations principals req (sl_principal s) (lm_concurrency (sl_workspace s)) inWorkspace ownPrincipal
          (ad_activePrincipal st)
      \<or> \<not> withinReservations principals req (sl_principal s) (lm_concurrency (sl_provider s)) inProvider ownProvider
          (\<lambda>p. ad_activePrincipalProvider st (aq_providerId req, p)))"

text \<open>The breaker: what it refuses, with the delay, or the state after it and the changes made.\<close>

definition half_open :: "admission_env \<Rightarrow> string \<Rightarrow> admission_state \<Rightarrow> admission_state" where
  "half_open env provider st =
     breaker_transition env provider BreakerHalfOpen
       (st\<lparr>ad_breakers := (ad_breakers st)(provider := (ad_breakers st provider)\<lparr>bk_halfOpenActive := 0\<rparr>)\<rparr>)"

definition half_open_check ::
    "breaker_config option \<Rightarrow> string \<Rightarrow> breaker_change list \<Rightarrow> admission_state
     \<Rightarrow> (admission_reason \<times> rat) option \<times> breaker_change list \<times> admission_state" where
  "half_open_check config provider changes st =
     (if bk_state (ad_breakers st provider) = BreakerHalfOpen
         \<and> bk_halfOpenActive (ad_breakers st provider) \<ge> (case config of Some c \<Rightarrow> bc_halfOpenMaxCalls c | None \<Rightarrow> 1)
      then (Some (RCircuitOpen, 25), changes, st) else (None, changes, st))"

definition breaker_check ::
    "admission_env \<Rightarrow> scope_limits \<Rightarrow> admission_request \<Rightarrow> admission_state
     \<Rightarrow> (admission_reason \<times> rat) option \<times> breaker_change list \<times> admission_state" where
  "breaker_check env s req st =
     (let provider = aq_providerId req; config = lm_circuitBreaker (sl_provider s);
          pausedUntil = ad_pausedUntil st provider; b = ad_breakers st provider;
          readyAt = fadd env (bk_openedAt b) (case config of Some c \<Rightarrow> bc_openMs c | None \<Rightarrow> 30000) in
      if ae_now env < pausedUntil then (Some (RRetryAfter, fsub env pausedUntil (ae_now env)), [], st)
      else if bk_state b = BreakerOpen then
        if ae_now env < readyAt then (Some (RCircuitOpen, fsub env readyAt (ae_now env)), [], st)
        else half_open_check config provider [(BreakerOpen, BreakerHalfOpen)] (half_open env provider st)
      else half_open_check config provider [] st)"

definition scope_keys :: "scope_limits \<Rightarrow> admission_request \<Rightarrow> (string \<times> admission_limits) list" where
  "scope_keys s req =
     [(''p:'' @ aq_principalId req, sl_principal s), (''w:'' @ aq_workspaceId req, sl_workspace s),
      (''v:'' @ aq_providerId req, sl_provider s)]"

definition budget_key :: "admission_request \<Rightarrow> string \<Rightarrow> string" where
  "budget_key req key = aq_budgetId req @ '':'' @ key"

definition call_attempts :: "admission_request \<Rightarrow> int" where
  "call_attempts req = count_of (ce_attempts (aq_estimate req)) 1"

definition call_tokens :: "admission_request \<Rightarrow> int" where
  "call_tokens req = count_of (ce_tokens (aq_estimate req)) 0"

text \<open>The checks of one key that leave the state alone; the reason says whether it is a rejection.\<close>

definition budget_checks :: "admission_env \<Rightarrow> admission_request \<Rightarrow> string \<Rightarrow> admission_limits \<Rightarrow> admission_state \<Rightarrow> admission_reason + unit" where
  "budget_checks env req key l st =
     checks
       [(opt_holds (\<lambda>m. of_int (ad_attempts st (budget_key req key) + call_attempts req) > m) (lm_maxAttempts l), RAttempts),
        (opt_holds (\<lambda>m. opt_holds (\<lambda>c. fadd env (ad_costSpent st (budget_key req key)) (to_rat c) > m)
          (ce_costUsd (aq_estimate req))) (lm_maxCostUsd l), RCost),
        (opt_holds (\<lambda>m. of_int (ad_tokensReserved st (budget_key req key) + call_tokens req) > m) (lm_maxTokens l), RTokens),
        (lm_requestsPerMinute l = Some 0, RRequestsPerMinute),
        (opt_holds (\<lambda>m. of_int (call_tokens req) > m) (lm_tokensPerSecond l), RTokensPerSecond)]"

definition request_bucket_check :: "admission_env \<Rightarrow> string \<Rightarrow> admission_limits \<Rightarrow> admission_state \<Rightarrow> bool \<times> admission_state" where
  "request_bucket_check env key l st =
     (case lm_requestsPerMinute l of
        None \<Rightarrow> (True, st)
      | Some c \<Rightarrow>
          let (ok, m) = canConsume env (ad_requestBuckets st) key c (fdiv env c 60000) 1 in
          (ok, st\<lparr>ad_requestBuckets := m\<rparr>))"

definition token_bucket_check ::
    "admission_env \<Rightarrow> admission_request \<Rightarrow> string \<Rightarrow> admission_limits \<Rightarrow> admission_state \<Rightarrow> bool \<times> admission_state" where
  "token_bucket_check env req key l st =
     (case lm_tokensPerSecond l of
        None \<Rightarrow> (True, st)
      | Some c \<Rightarrow>
          let holder = ad_tokenReservations st key;
              reserved = (case holder of Some h \<Rightarrow> if aq_id h = aq_id req then 0 else call_tokens h | None \<Rightarrow> 0);
              (ok, m) = canConsume env (ad_tokenBuckets st) key c (fdiv env c 1000) (of_int (call_tokens req + reserved));
              st1 = st\<lparr>ad_tokenBuckets := m\<rparr> in
          if ok then (True, st1)
          else (False, if holder = None then st1\<lparr>ad_tokenReservations := (ad_tokenReservations st1)(key := Some req)\<rparr> else st1))"

text \<open>The loop over the keys. \<open>Inl\<close> of a reason is a rejection, \<open>Inr (Some _)\<close> a deferral.\<close>

fun key_checks ::
    "admission_env \<Rightarrow> admission_request \<Rightarrow> (string \<times> admission_limits) list \<Rightarrow> admission_state
     \<Rightarrow> (admission_reason + admission_reason option) \<times> admission_state" where
  "key_checks env req [] st = (Inr None, st)"
| "key_checks env req ((key, l) # keys) st =
     (case budget_checks env req key l st of
        Inl reason \<Rightarrow> (Inl reason, st)
      | Inr _ \<Rightarrow>
          (case request_bucket_check env key l st of
             (False, st1) \<Rightarrow> (Inr (Some RRequestsPerMinute), st1)
           | (True, st1) \<Rightarrow>
               (case token_bucket_check env req key l st1 of
                  (False, st2) \<Rightarrow> (Inr (Some RTokensPerSecond), st2)
                | (True, st2) \<Rightarrow> key_checks env req keys st2)))"

definition charge_key :: "admission_env \<Rightarrow> admission_request \<Rightarrow> string \<times> admission_limits \<Rightarrow> admission_state \<Rightarrow> admission_state" where
  "charge_key env req kl st =
     (let key = fst kl; l = snd kl; bkey = budget_key req key in
      st\<lparr>ad_requestBuckets := consume env (ad_requestBuckets st) key (lm_requestsPerMinute l) 60000 1,
         ad_tokenBuckets := consume env (ad_tokenBuckets st) key (lm_tokensPerSecond l) 1000 (of_int (call_tokens req)),
         ad_attempts := (ad_attempts st)(bkey := ad_attempts st bkey + call_attempts req),
         ad_costSpent := (case ce_costUsd (aq_estimate req) of None \<Rightarrow> ad_costSpent st
           | Some c \<Rightarrow> (ad_costSpent st)(bkey := fadd env (ad_costSpent st bkey) (to_rat c))),
         ad_tokensReserved := (case ce_tokens (aq_estimate req) of None \<Rightarrow> ad_tokensReserved st
           | Some n \<Rightarrow> (ad_tokensReserved st)(bkey := ad_tokensReserved st bkey + to_int n))\<rparr>)"

definition drop_holder :: "admission_request \<Rightarrow> admission_state \<Rightarrow> admission_state" where
  "drop_holder req st =
     st\<lparr>ad_tokenReservations := (\<lambda>key. case ad_tokenReservations st key of
          Some h \<Rightarrow> if aq_id h = aq_id req then None else Some h | None \<Rightarrow> None)\<rparr>"

definition count_in :: "admission_request \<Rightarrow> admission_state \<Rightarrow> admission_state" where
  "count_in req st =
     (let p = aq_principalId req; w = aq_workspaceId req; v = aq_providerId req in
      st\<lparr>ad_active := ad_active st + 1,
         ad_activePrincipal := (ad_activePrincipal st)(p := ad_activePrincipal st p + 1),
         ad_activeWorkspace := (ad_activeWorkspace st)(w := ad_activeWorkspace st w + 1),
         ad_activeProvider := (ad_activeProvider st)(v := ad_activeProvider st v + 1),
         ad_activePrincipalProvider := (ad_activePrincipalProvider st)((v, p) := ad_activePrincipalProvider st (v, p) + 1)\<rparr>)"

definition count_half_open :: "int \<Rightarrow> string \<Rightarrow> admission_state \<Rightarrow> admission_state" where
  "count_half_open d provider st =
     (let b = ad_breakers st provider in
      if bk_state b = BreakerHalfOpen
      then st\<lparr>ad_breakers := (ad_breakers st)(provider := b\<lparr>bk_halfOpenActive := max 0 (bk_halfOpenActive b + d)\<rparr>)\<rparr> else st)"

text \<open>The effects of an admission: the charges, the permit, and the lease that is handed out.\<close>

definition take_permit :: "admission_env \<Rightarrow> scope_limits \<Rightarrow> admission_request \<Rightarrow> admission_state \<Rightarrow> admission_state" where
  "take_permit env s req st =
     count_half_open 1 (aq_providerId req) (drop_holder req (count_in req (fold (charge_key env req) (scope_keys s req) st)))"

definition hand_out :: "admission_env \<Rightarrow> scope_limits \<Rightarrow> admission_waiter \<Rightarrow> breaker_change list \<Rightarrow> admission_state \<Rightarrow> admission_state" where
  "hand_out env s w changes st =
     st\<lparr>ad_leases := ad_leases st @ [\<lparr>le_request = wt_request w, le_config = lm_circuitBreaker (sl_provider s),
        le_evidence = (evidence_of env RAdmitted AdmissionAdmit (wt_request w) (fsub env (ae_now env) (wt_enqueuedAt w)) None st)
          \<lparr>an_breakerTransitions := changes\<rparr>, le_released = False\<rparr>]\<rparr>"

text \<open>\<open>tryAdmit\<close>: an error, or a lease that is added to those handed out. \<open>limits\<close> has been seen by \<open>preflight\<close>.\<close>

fun grant_checked ::
    "admission_env \<Rightarrow> scope_limits \<Rightarrow> admission_waiter \<Rightarrow> breaker_change list \<Rightarrow> (admission_reason + admission_reason option) \<times> admission_state
     \<Rightarrow> admission_error option \<times> admission_state" where
  "grant_checked env s w changes (Inl reason, st) =
     (Some (admission_fails env reason AdmissionReject (wt_request w) False None st), st)"
| "grant_checked env s w changes (Inr (Some reason), st) =
     (Some (admission_fails env reason AdmissionDefer (wt_request w) True (Some 100) st), st)"
| "grant_checked env s w changes (Inr None, st) = (None, hand_out env s w changes (take_permit env s (wt_request w) st))"

fun check_keys ::
    "admission_env \<Rightarrow> scope_limits \<Rightarrow> admission_waiter \<Rightarrow> (admission_reason \<times> rat) option \<times> breaker_change list \<times> admission_state
     \<Rightarrow> admission_error option \<times> admission_state" where
  "check_keys env s w (Some (reason, delay), changes, st) =
     (Some (admission_fails env reason AdmissionDefer (wt_request w) True (Some delay) st), st)"
| "check_keys env s w (None, changes, st) =
     grant_checked env s w changes (key_checks env (wt_request w) (scope_keys s (wt_request w)) st)"

definition tryAdmit ::
    "admission_env \<Rightarrow> scope_limits \<Rightarrow> admission_waiter \<Rightarrow> admission_state \<Rightarrow> admission_error option \<times> admission_state" where
  "tryAdmit env s w st =
     (if pools_full env s (wt_request w) st
      then (Some (admission_fails env RConcurrency AdmissionDefer (wt_request w) True (Some 10) st), st)
      else check_keys env s w (breaker_check env s (wt_request w) st))"

end
