(* ===== verification/AdmissionQueue.thy ===== *)
theory AdmissionQueue
  imports Admission "HOL-Library.Sublist"
begin

text \<open>
  The queues of the admission controller (\<open>src/decision/admission.ts\<close>): the pump over the lanes and the
  operations that end in it. Timers, signals and promises are events: \<open>ad_timer\<close> is the delay of the
  pending timeout, and a promise that is settled is a lease in \<open>ad_leases\<close> or an entry of \<open>ad_refused\<close>.
\<close>

section \<open>Lanes\<close>

definition lane_of :: "admission_request \<Rightarrow> lane" where
  "lane_of req = (aq_providerId req, aq_workspaceId req, aq_principalId req)"

definition lane_queue :: "lane \<Rightarrow> admission_state \<Rightarrow> admission_waiter list" where
  "lane_queue lane st = opt_default (map_of (ad_queues st) lane) []"

definition set_lane :: "lane \<Rightarrow> admission_waiter list \<Rightarrow> admission_state \<Rightarrow> admission_state" where
  "set_lane lane q st = st\<lparr>ad_queues := AList.update lane q (ad_queues st)\<rparr>"

definition refuse :: "admission_request \<Rightarrow> admission_error \<Rightarrow> admission_state \<Rightarrow> admission_state" where
  "refuse req e st = st\<lparr>ad_refused := ad_refused st @ [(req, e)]\<rparr>"

definition schedulePump :: "rat \<Rightarrow> admission_state \<Rightarrow> admission_state" where
  "schedulePump delay st = (if ad_timer st \<noteq> None then st else st\<lparr>ad_timer := Some (max 1 (min delay 30000))\<rparr>)"

section \<open>The pump\<close>

text \<open>\<open>None\<close> is positive infinity.\<close>

definition min_opt :: "rat option \<Rightarrow> rat option \<Rightarrow> rat option" where
  "min_opt a b = (case (a, b) of (None, y) \<Rightarrow> y | (x, None) \<Rightarrow> x | (Some x, Some y) \<Rightarrow> Some (min x y))"

definition wait_limit :: "admission_env \<Rightarrow> admission_request \<Rightarrow> rat option" where
  "wait_limit env req =
     (case ae_limits env req of
        None \<Rightarrow> None
      | Some s \<Rightarrow> foldr min_opt (map lm_maxQueueWaitMs (scopes_of s)) None)"

definition waited_too_long :: "admission_env \<Rightarrow> admission_waiter \<Rightarrow> bool" where
  "waited_too_long env w = opt_holds (\<lambda>m. fsub env (ae_now env) (wt_enqueuedAt w) \<ge> m) (wait_limit env (wt_request w))"

definition waiter_expired :: "admission_env \<Rightarrow> admission_waiter \<Rightarrow> bool" where
  "waiter_expired env w \<longleftrightarrow>
     request_aborted env (wt_request w) \<or> ae_now env \<ge> aq_deadline (wt_request w) \<or> waited_too_long env w"

definition expiry_reason :: "admission_env \<Rightarrow> admission_waiter \<Rightarrow> admission_reason" where
  "expiry_reason env w =
     (if request_aborted env (wt_request w) then RCancelled
      else if ae_now env \<ge> aq_deadline (wt_request w) then RDeadlineExceeded else RQueueTimeout)"

definition retry_delay :: "admission_env \<Rightarrow> admission_waiter \<Rightarrow> admission_error \<Rightarrow> rat option" where
  "retry_delay env w e =
     min_opt (Some (opt_default (an_retryAfterMs (ar_evidence e)) 25))
       (min_opt (Some (max 1 (fsub env (aq_deadline (wt_request w)) (ae_now env))))
         (map_option (\<lambda>m. max 1 (fsub env m (fsub env (ae_now env) (wt_enqueuedAt w)))) (wait_limit env (wt_request w))))"

text \<open>\<open>this.preflight(request) ?? this.tryAdmit(waiter)\<close>.\<close>

fun admit_checked :: "admission_env \<Rightarrow> admission_waiter \<Rightarrow> admission_state \<Rightarrow> admission_error option \<Rightarrow> admission_error option \<times> admission_state" where
  "admit_checked env w st (Some e) = (Some e, st)"
| "admit_checked env w st None = tryAdmit env (the (ae_limits env (wt_request w))) w st"

definition admit_waiter :: "admission_env \<Rightarrow> admission_waiter \<Rightarrow> admission_state \<Rightarrow> admission_error option \<times> admission_state" where
  "admit_waiter env w st = admit_checked env w st (preflight env (wt_request w) st)"

text \<open>One turn of the inner loop: the lane at an offset from the cursor, whether anything left a queue, and
  the shortest delay so far.\<close>

definition drop_head :: "lane \<Rightarrow> admission_waiter \<Rightarrow> admission_waiter list \<Rightarrow> admission_state \<Rightarrow> admission_state" where
  "drop_head lane w rest st = drop_holder (wt_request w) (set_lane lane rest st)"

definition expire_head :: "admission_env \<Rightarrow> admission_waiter \<Rightarrow> admission_state \<Rightarrow> admission_state" where
  "expire_head env w st =
     refuse (wt_request w) (admission_fails env (expiry_reason env w) AdmissionReject (wt_request w) False None st) st"

fun after_admit ::
    "admission_env \<Rightarrow> lane \<Rightarrow> admission_waiter \<Rightarrow> admission_waiter list \<Rightarrow> nat \<Rightarrow> bool \<Rightarrow> rat option \<Rightarrow> admission_error option \<times> admission_state
     \<Rightarrow> admission_state \<times> bool \<times> rat option" where
  "after_admit env lane w rest cursor progressed nearest (Some e, st) =
     (if ar_retryable e then (st, progressed, min_opt nearest (retry_delay env w e))
      else (refuse (wt_request w) e (drop_head lane w rest st), True, nearest))"
| "after_admit env lane w rest cursor progressed nearest (None, st) = ((drop_head lane w rest st)\<lparr>ad_laneCursor := cursor\<rparr>, True, nearest)"

fun pump_head ::
    "admission_env \<Rightarrow> lane \<Rightarrow> nat \<Rightarrow> admission_waiter list \<Rightarrow> admission_state \<Rightarrow> bool \<Rightarrow> rat option \<Rightarrow> admission_state \<times> bool \<times> rat option" where
  "pump_head env lane cursor [] st progressed nearest = (st, progressed, nearest)"
| "pump_head env lane cursor (w # rest) st progressed nearest =
     (if waiter_expired env w then (expire_head env w (drop_head lane w rest st), True, nearest)
      else after_admit env lane w rest cursor progressed nearest (admit_waiter env w st))"

definition lane_at :: "lane list \<Rightarrow> nat \<Rightarrow> admission_state \<Rightarrow> nat" where
  "lane_at lanes offset st = (ad_laneCursor st + offset) mod length lanes"

fun pump_lane ::
    "admission_env \<Rightarrow> lane list \<Rightarrow> nat \<Rightarrow> admission_state \<times> bool \<times> rat option \<Rightarrow> admission_state \<times> bool \<times> rat option" where
  "pump_lane env lanes offset (st, progressed, nearest) =
     pump_head env (lanes ! lane_at lanes offset st) ((lane_at lanes offset st + 1) mod length lanes)
       (lane_queue (lanes ! lane_at lanes offset st) st) st progressed nearest"

declare pump_lane.simps [simp del]

definition pump_pass :: "admission_env \<Rightarrow> lane list \<Rightarrow> admission_state \<Rightarrow> rat option \<Rightarrow> admission_state \<times> bool \<times> rat option" where
  "pump_pass env lanes st nearest = fold (pump_lane env lanes) [0..<length lanes] (st, False, nearest)"

text \<open>The checks of a waiter leave the queues to the pump.\<close>

definition same_queues :: "admission_state \<Rightarrow> admission_state \<Rightarrow> bool" where
  "same_queues st st' \<longleftrightarrow>
     ad_queues st' = ad_queues st \<and> ad_refused st' = ad_refused st \<and> ad_laneCursor st' = ad_laneCursor st \<and> ad_timer st' = ad_timer st"

lemma same_queues_trans: "same_queues st u \<Longrightarrow> same_queues u st' \<Longrightarrow> same_queues st st'"
  by (simp add: same_queues_def)

lemma breaker_check_queues: "breaker_check env s req st = (r, cs, st') \<Longrightarrow> same_queues st st'"
  by (auto simp: breaker_check_def half_open_check_def half_open_def same_queues_def breaker_transition_def Let_def split: if_splits)

lemma key_checks_queues: "same_queues st (snd (key_checks env req keys st))"
  by (induction env req keys st rule: key_checks.induct)
    (auto simp: same_queues_def request_bucket_check_def token_bucket_check_def Let_def split: sum.split prod.splits bool.splits option.split)

lemma charge_keys_queues: "same_queues st (fold (charge_key env req) keys st)"
  by (induction keys arbitrary: st) (simp_all add: charge_key_def Let_def same_queues_def)

lemma tryAdmit_queues: "same_queues st (snd (tryAdmit env s w st))"
proof (cases "pools_full env s (wt_request w) st")
  case False
  obtain r cs st1 where b: "breaker_check env s (wt_request w) st = (r, cs, st1)" using prod_cases3 by blast
  obtain k st2 where k: "key_checks env (wt_request w) (scope_keys s (wt_request w)) st1 = (k, st2)" by fastforce
  have q: "same_queues st st1" "same_queues st st2"
    using breaker_check_queues [OF b] key_checks_queues [of st1 env "wt_request w" "scope_keys s (wt_request w)"] k same_queues_trans by force+
  then have "same_queues st (fold (charge_key env (wt_request w)) (scope_keys s (wt_request w)) st2)"
    using charge_keys_queues same_queues_trans by blast
  then have h: "same_queues st (hand_out env s w cs (take_permit env s (wt_request w) st2))"
    by (simp add: take_permit_def hand_out_def Let_def count_half_open_def drop_holder_def count_in_def same_queues_def)
  have g: "same_queues st (snd (grant_checked env s w cs (k, st2)))"
    using h q(2) by (cases "(env, s, w, cs, k, st2)" rule: grant_checked.cases) auto
  show ?thesis
  proof (cases r)
    case None
    then show ?thesis using False b k g by (simp add: tryAdmit_def)
  next
    case (Some x)
    then show ?thesis using False b q(1) by (cases x) (simp add: tryAdmit_def)
  qed
qed (simp add: tryAdmit_def same_queues_def)

lemma admit_waiter_queues: "admit_waiter env w st = (r, st') \<Longrightarrow> same_queues st st'"
  using tryAdmit_queues [of st env "the (ae_limits env (wt_request w))" w]
  by (cases "preflight env (wt_request w) st") (auto simp: admit_waiter_def same_queues_def)

lemma set_lane_shrinks:
  "map_of qs lane = Some (w # rest) \<Longrightarrow> length (concat (map snd qs)) = Suc (length (concat (map snd (AList.update lane rest qs))))"
  by (induction qs) auto

lemma lane_queue_map: "lane_queue lane st = w # rest \<Longrightarrow> map_of (ad_queues st) lane = Some (w # rest)"
  by (cases "map_of (ad_queues st) lane") (simp_all add: lane_queue_def)

text \<open>What a turn does, by cases.\<close>

lemma pump_lane_cases:
  assumes "pump_lane env lanes offset (st, progressed, nearest) = (st', progressed', nearest')"
  obtains (empty) "lane_queue (lanes ! lane_at lanes offset st) st = []" "st' = st" "progressed' = progressed" "nearest' = nearest"
  | (expired) w rest where "lane_queue (lanes ! lane_at lanes offset st) st = w # rest" "waiter_expired env w"
      "st' = expire_head env w (drop_head (lanes ! lane_at lanes offset st) w rest st)" "progressed'"
  | (deferred) w rest e where "lane_queue (lanes ! lane_at lanes offset st) st = w # rest" "\<not> waiter_expired env w"
      "admit_waiter env w st = (Some e, st')" "ar_retryable e" "progressed' = progressed" "nearest' = min_opt nearest (retry_delay env w e)"
  | (rejected) w rest e u where "lane_queue (lanes ! lane_at lanes offset st) st = w # rest" "\<not> waiter_expired env w"
      "admit_waiter env w st = (Some e, u)" "st' = refuse (wt_request w) e (drop_head (lanes ! lane_at lanes offset st) w rest u)" "progressed'"
  | (admitted) w rest u c where "lane_queue (lanes ! lane_at lanes offset st) st = w # rest" "\<not> waiter_expired env w"
      "admit_waiter env w st = (None, u)" "st' = (drop_head (lanes ! lane_at lanes offset st) w rest u)\<lparr>ad_laneCursor := c\<rparr>" "progressed'"
proof (cases "lane_queue (lanes ! lane_at lanes offset st) st")
  case Nil
  from assms have "(st, progressed, nearest) = (st', progressed', nearest')" unfolding pump_lane.simps Nil pump_head.simps .
  then show thesis using Nil by (intro empty) simp_all
next
  case (Cons w rest)
  obtain r u where a: "admit_waiter env w st = (r, u)" by fastforce
  note p = assms [unfolded pump_lane.simps Cons pump_head.simps a]
  show thesis
  proof (cases "waiter_expired env w")
    case True
    show thesis using p unfolding if_P [OF True] by (intro expired [OF Cons True]) simp_all
  next
    case False
    note p = p [unfolded if_not_P [OF False]]
    show thesis
    proof (cases r)
      case None
      show thesis using p a unfolding None after_admit.simps
        by (intro admitted [OF Cons False, of u "(lane_at lanes offset st + 1) mod length lanes"]) simp_all
    next
      case (Some e)
      note p = p [unfolded Some after_admit.simps] and a = a [unfolded Some]
      show thesis
      proof (cases "ar_retryable e")
        case True
        show thesis using p a unfolding if_P [OF True] by (intro deferred [OF Cons False _ True]) simp_all
      next
        case r: False
        show thesis using p a unfolding if_not_P [OF r] by (intro rejected [OF Cons False a]) simp_all
      qed
    qed
  qed
qed

lemma drop_head_queues [simp]: "ad_queues (drop_head lane w rest st) = AList.update lane rest (ad_queues st)"
  by (simp add: drop_head_def drop_holder_def set_lane_def)

lemma expire_refuse_queues [simp]:
  "ad_queues (expire_head env w st) = ad_queues st" "ad_queues (refuse req e st) = ad_queues st"
  by (simp_all add: expire_head_def refuse_def)

lemma pump_lane_shrinks:
  assumes "pump_lane env lanes offset (st, progressed, nearest) = (st', progressed', nearest')"
  shows "length (all_waiters st') < length (all_waiters st) \<or> ad_queues st' = ad_queues st \<and> progressed' = progressed"
proof -
  have s: "length (all_waiters u) < length (all_waiters st)"
    if "lane_queue lane st = w # rest" "ad_queues u = AList.update lane rest (ad_queues st)" for lane w rest u
    using set_lane_shrinks [OF lane_queue_map [OF that(1)]] that(2) by (simp add: all_waiters_def)
  show ?thesis
    using assms
  proof (cases rule: pump_lane_cases)
    case (deferred w rest e)
    then show ?thesis using admit_waiter_queues by (simp add: same_queues_def)
  next
    case (rejected w rest e u)
    then have "ad_queues u = ad_queues st" using admit_waiter_queues by (simp add: same_queues_def)
    then show ?thesis using s rejected(1,4) by simp
  next
    case (admitted w rest u c)
    then have "ad_queues u = ad_queues st" using admit_waiter_queues by (simp add: same_queues_def)
    then show ?thesis using s admitted(1,4) by simp
  qed (use s in simp_all)
qed

lemma pump_fold_shrinks:
  assumes "fold (pump_lane env lanes) offsets (st, progressed, nearest) = (st', progressed', nearest')"
  shows "length (all_waiters st') < length (all_waiters st) \<or> length (all_waiters st') = length (all_waiters st) \<and> progressed' = progressed"
  using assms
proof (induction offsets arbitrary: st progressed nearest)
  case (Cons offset offsets)
  obtain u p n where u: "pump_lane env lanes offset (st, progressed, nearest) = (u, p, n)" using prod_cases3 by blast
  have "length (all_waiters u) < length (all_waiters st) \<or> length (all_waiters u) = length (all_waiters st) \<and> p = progressed"
    using pump_lane_shrinks [OF u] by (auto simp: all_waiters_def)
  moreover have "fold (pump_lane env lanes) offsets (u, p, n) = (st', progressed', nearest')" using Cons.prems u by simp
  ultimately show ?case using Cons.IH by fastforce
qed simp

text \<open>\<open>while (progressed)\<close>.\<close>

function pump_while :: "admission_env \<Rightarrow> lane list \<Rightarrow> admission_state \<times> bool \<times> rat option \<Rightarrow> admission_state \<times> rat option" where
  "pump_while env lanes (st, True, nearest) = pump_while env lanes (pump_pass env lanes st nearest)"
| "pump_while env lanes (st, False, nearest) = (st, nearest)"
  by pat_completeness auto
termination
proof (relation "measure (\<lambda>(env, lanes, st, progressed, nearest). if progressed then Suc (length (all_waiters st)) else 0)")
  fix env lanes st nearest
  obtain st' p n where "pump_pass env lanes st nearest = (st', p, n)" using prod_cases3 by blast
  then show "((env, lanes, pump_pass env lanes st nearest), env, lanes, st, True, nearest)
      \<in> measure (\<lambda>(env, lanes, st, progressed, nearest). if progressed then Suc (length (all_waiters st)) else 0)"
    using pump_fold_shrinks [of env lanes "[0..<length lanes]" st False nearest st' p n] by (auto simp: pump_pass_def)
qed simp

definition pump_loop :: "admission_env \<Rightarrow> lane list \<Rightarrow> admission_state \<Rightarrow> rat option \<Rightarrow> admission_state \<times> rat option" where
  "pump_loop env lanes st nearest = pump_while env lanes (st, True, nearest)"

lemma pump_loop_pass:
  "pump_loop env lanes st nearest =
     (case pump_pass env lanes st nearest of
        (st', progressed, nearest') \<Rightarrow> if progressed then pump_loop env lanes st' nearest' else (st', nearest'))"
  by (auto simp: pump_loop_def split: prod.split)

definition open_lanes :: "admission_state \<Rightarrow> lane list" where
  "open_lanes st = map fst (filter (\<lambda>lq. snd lq \<noteq> []) (ad_queues st))"

fun close_pump :: "admission_state \<times> rat option \<Rightarrow> admission_state" where
  "close_pump (st, nearest) =
     (if all_waiters st \<noteq> [] then schedulePump (opt_default nearest 25) (st\<lparr>ad_queues := filter (\<lambda>lq. snd lq \<noteq> []) (ad_queues st)\<rparr>)
      else st\<lparr>ad_queues := filter (\<lambda>lq. snd lq \<noteq> []) (ad_queues st)\<rparr>)"

declare close_pump.simps [simp del]

definition pump_queues :: "admission_env \<Rightarrow> admission_state \<Rightarrow> admission_state" where
  "pump_queues env st =
     (if open_lanes st = [] then st\<lparr>ad_timer := None\<rparr>
      else close_pump (pump_loop env (open_lanes st) (st\<lparr>ad_timer := None\<rparr>) None))"

section \<open>Operations\<close>

definition queue_full :: "admission_env \<Rightarrow> scope_limits \<Rightarrow> admission_request \<Rightarrow> admission_state \<Rightarrow> bool" where
  "queue_full env s req st =
     (let own = (\<lambda>r. aq_principalId r = aq_principalId req);
          ws = (\<lambda>r. aq_workspaceId r = aq_workspaceId req);
          pv = (\<lambda>r. aq_providerId r = aq_providerId req);
          full = (\<lambda>P l. opt_holds (\<lambda>m. of_nat (queuedCount P st) \<ge> m) (lm_maxQueueLength l));
          share_full = (\<lambda>P l. opt_holds (\<lambda>share. opt_holds (\<lambda>m. int (queuedCount P st) \<ge> shareCap env share m)
            (lm_maxQueueLength l)) (lm_maxPrincipalShare l)) in
      full own (sl_principal s) \<or> full ws (sl_workspace s) \<or> full pv (sl_provider s)
      \<or> share_full (\<lambda>r. own r \<and> ws r) (sl_workspace s) \<or> share_full (\<lambda>r. own r \<and> pv r) (sl_provider s))"

definition enqueue_waiter :: "admission_env \<Rightarrow> admission_request \<Rightarrow> admission_state \<Rightarrow> admission_state" where
  "enqueue_waiter env req st =
     set_lane (lane_of req) (lane_queue (lane_of req) st @ [\<lparr>wt_request = req, wt_enqueuedAt = ae_now env\<rparr>]) st"

fun acquire_checked :: "admission_env \<Rightarrow> admission_request \<Rightarrow> scope_limits \<Rightarrow> admission_state \<Rightarrow> admission_error option \<Rightarrow> admission_state" where
  "acquire_checked env req s st (Some e) = refuse req e st"
| "acquire_checked env req s st None =
     (if queue_full env s req st
      then refuse req (admission_fails env RQueueFull AdmissionReject req True (Some (jitterHint env 250)) st) st
      else if ae_principals env = None \<and> reserved_of (sl_principal s) \<noteq> 0
      then pump_queues env (enqueue_waiter env req
        (st\<lparr>ad_seenReservations := AList.update (aq_principalId req) (sl_principal s) (ad_seenReservations st)\<rparr>))
      else pump_queues env (enqueue_waiter env req st))"

definition acquire_lease :: "admission_env \<Rightarrow> admission_request \<Rightarrow> admission_state \<Rightarrow> admission_state" where
  "acquire_lease env req st = acquire_checked env req (the (ae_limits env req)) st (preflight env req st)"

definition coordinateRetryAfter :: "admission_env \<Rightarrow> string \<Rightarrow> rat \<Rightarrow> admission_state \<Rightarrow> admission_state" where
  "coordinateRetryAfter env provider retryAfter st =
     schedulePump (max 1 retryAfter)
       (st\<lparr>ad_pausedUntil := (ad_pausedUntil st)(provider := max (ad_pausedUntil st provider) (fadd env (ae_now env) (max 0 retryAfter))),
           ad_retryPressure := ad_retryPressure st + 1\<rparr>)"

definition releaseBudget :: "string \<Rightarrow> admission_state \<Rightarrow> admission_state" where
  "releaseBudget budgetId st =
     (let gone = (\<lambda>key. prefix (budgetId @ '':'') key) in
      st\<lparr>ad_attempts := (\<lambda>k. if gone k then 0 else ad_attempts st k),
         ad_costSpent := (\<lambda>k. if gone k then 0 else ad_costSpent st k),
         ad_tokensReserved := (\<lambda>k. if gone k then 0 else ad_tokensReserved st k)\<rparr>)"

text \<open>\<open>remove\<close>: the first queue that holds the request loses it.\<close>

fun remove_waiter :: "nat \<Rightarrow> (lane \<times> admission_waiter list) list \<Rightarrow> (admission_waiter \<times> (lane \<times> admission_waiter list) list) option" where
  "remove_waiter i [] = None"
| "remove_waiter i ((lane, q) # qs) =
     (case find (\<lambda>w. aq_id (wt_request w) = i) q of
        Some w \<Rightarrow> Some (w, (lane, remove1 w q) # qs)
      | None \<Rightarrow> map_option (\<lambda>(w, qs'). (w, (lane, q) # qs')) (remove_waiter i qs))"

definition cancel_waiter :: "admission_env \<Rightarrow> admission_waiter \<Rightarrow> admission_state \<Rightarrow> admission_state" where
  "cancel_waiter env w st = refuse (wt_request w) (admission_fails env RCancelled AdmissionReject (wt_request w) False None st) st"

definition remove_request :: "admission_env \<Rightarrow> nat \<Rightarrow> admission_state \<Rightarrow> admission_state" where
  "remove_request env i st =
     pump_queues env
       (case remove_waiter i (ad_queues st) of
          None \<Rightarrow> st
        | Some (w, qs) \<Rightarrow> cancel_waiter env w (drop_holder (wt_request w) (st\<lparr>ad_queues := qs\<rparr>)))"

record lease_outcome =
  lo_success :: bool
  lo_retryAfterMs :: "rat option"

definition count_out :: "admission_request \<Rightarrow> admission_state \<Rightarrow> admission_state" where
  "count_out req st =
     (let p = aq_principalId req; w = aq_workspaceId req; v = aq_providerId req in
      st\<lparr>ad_active := ad_active st - 1,
         ad_activePrincipal := (ad_activePrincipal st)(p := ad_activePrincipal st p - 1),
         ad_activeWorkspace := (ad_activeWorkspace st)(w := ad_activeWorkspace st w - 1),
         ad_activeProvider := (ad_activeProvider st)(v := ad_activeProvider st v - 1),
         ad_activePrincipalProvider := (ad_activePrincipalProvider st)((v, p) := ad_activePrincipalProvider st (v, p) - 1)\<rparr>)"

text \<open>What an outcome does to the breaker of its provider, and the changes it made.\<close>

definition settle_breaker ::
    "admission_env \<Rightarrow> admission_lease \<Rightarrow> lease_outcome option \<Rightarrow> admission_state \<Rightarrow> breaker_change list \<times> admission_state" where
  "settle_breaker env l result st =
     (let v = aq_providerId (le_request l); b = ad_breakers st v;
          put = (\<lambda>b'. st\<lparr>ad_breakers := (ad_breakers st)(v := b')\<rparr>) in
      case result of
        None \<Rightarrow> ([], st)
      | Some r \<Rightarrow>
          (case lo_retryAfterMs r of
             Some ms \<Rightarrow> ([], coordinateRetryAfter env v ms st)
           | None \<Rightarrow>
               if lo_success r then
                 let st1 = put (b\<lparr>bk_failures := 0\<rparr>) in
                 if bk_state b \<noteq> BreakerClosed then ([(bk_state b, BreakerClosed)], breaker_transition env v BreakerClosed st1) else ([], st1)
               else
                 (case le_config l of
                    None \<Rightarrow> ([], st)
                  | Some c \<Rightarrow>
                      if bk_failures b + 1 \<ge> bc_failureThreshold c \<and> bk_state b \<noteq> BreakerOpen
                      then ([(bk_state b, BreakerOpen)],
                        breaker_transition env v BreakerOpen (put (b\<lparr>bk_failures := bk_failures b + 1, bk_openedAt := ae_now env\<rparr>)))
                      else ([], put (b\<lparr>bk_failures := bk_failures b + 1\<rparr>)))))"

definition update_lease :: "nat \<Rightarrow> (admission_lease \<Rightarrow> admission_lease) \<Rightarrow> admission_state \<Rightarrow> admission_state" where
  "update_lease i f st = st\<lparr>ad_leases := map (\<lambda>l. if aq_id (le_request l) = i then f l else l) (ad_leases st)\<rparr>"

fun finish_release :: "admission_env \<Rightarrow> nat \<Rightarrow> breaker_change list \<times> admission_state \<Rightarrow> admission_state" where
  "finish_release env i (changes, st) =
     pump_queues env (update_lease i (\<lambda>l. l\<lparr>le_released := True, le_evidence := (le_evidence l)
       \<lparr>an_breakerTransitions := an_breakerTransitions (le_evidence l) @ changes\<rparr>\<rparr>) st)"

definition release_lease :: "admission_env \<Rightarrow> nat \<Rightarrow> lease_outcome option \<Rightarrow> admission_state \<Rightarrow> admission_state option" where
  "release_lease env i result st =
     (case find (\<lambda>l. aq_id (le_request l) = i) (ad_leases st) of
        None \<Rightarrow> None
      | Some l \<Rightarrow>
          if le_released l then Some st
          else Some (finish_release env i (settle_breaker env l result
                 (count_half_open (- 1) (aq_providerId (le_request l)) (count_out (le_request l) st)))))"

text \<open>\<open>snapshot\<close> and \<open>idle\<close>; an empty id is as good as none.\<close>

definition given :: "string option \<Rightarrow> string option" where
  "given x = (case x of Some s \<Rightarrow> if s = [] then None else Some s | None \<Rightarrow> None)"

definition admission_snapshot :: "string option \<Rightarrow> string option \<Rightarrow> admission_state \<Rightarrow> nat \<times> nat" where
  "admission_snapshot p v st =
     ((case (given p, given v) of
         (Some p, Some v) \<Rightarrow> ad_activePrincipalProvider st (v, p)
       | (Some p, None) \<Rightarrow> ad_activePrincipal st p
       | (None, Some v) \<Rightarrow> ad_activeProvider st v
       | (None, None) \<Rightarrow> ad_active st),
      queuedCount (\<lambda>r. (given p = None \<or> p = Some (aq_principalId r)) \<and> (given v = None \<or> v = Some (aq_providerId r))) st)"

definition idle_controller :: "string option \<Rightarrow> admission_state \<Rightarrow> bool" where
  "idle_controller p st =
     (case p of
        None \<Rightarrow> ad_active st = 0 \<and> queuedCount (\<lambda>_. True) st = 0
      | Some p \<Rightarrow> ad_activePrincipal st p = 0 \<and> queuedCount (\<lambda>r. aq_principalId r = p) st = 0)"

section \<open>Events\<close>

text \<open>A signal that aborts calls the listener of each request that waits with it. A new call of \<open>acquire\<close> has a
  request of its own.\<close>

datatype admission_event =
  AcquireLease admission_request
| ReleaseLease nat "lease_outcome option"
| AbortRequest nat
| TimerFires
| RetryAfterSeen string rat
| BudgetReleased string

definition known_requests :: "admission_state \<Rightarrow> nat list" where
  "known_requests st =
     map (\<lambda>w. aq_id (wt_request w)) (all_waiters st) @ map (\<lambda>l. aq_id (le_request l)) (ad_leases st)
     @ map (\<lambda>re. aq_id (fst re)) (ad_refused st)"

fun admission_step :: "admission_env \<Rightarrow> admission_event \<Rightarrow> admission_state \<Rightarrow> admission_state option" where
  "admission_step env (AcquireLease req) st =
     (if aq_id req \<in> set (known_requests st) then None else Some (acquire_lease env req st))"
| "admission_step env (ReleaseLease i result) st = release_lease env i result st"
| "admission_step env (AbortRequest i) st =
     (if list_ex (\<lambda>w. aq_id (wt_request w) = i \<and> request_aborted env (wt_request w)) (all_waiters st)
      then Some (remove_request env i st) else None)"
| "admission_step env TimerFires st =
     (if ad_timer st = None then None else Some (pump_queues env (st\<lparr>ad_timer := None\<rparr>)))"
| "admission_step env (RetryAfterSeen provider ms) st = Some (coordinateRetryAfter env provider ms st)"
| "admission_step env (BudgetReleased budgetId) st = Some (releaseBudget budgetId st)"

fun admission_run :: "(admission_env \<times> admission_event) list \<Rightarrow> admission_state \<Rightarrow> admission_state option" where
  "admission_run [] st = Some st"
| "admission_run ((env, ev) # evs) st = Option.bind (admission_step env ev st) (admission_run evs)"

end
