(* ===== verification/AdmissionInvariant.thy ===== *)
theory AdmissionInvariant
  imports AdmissionQueue "HOL-Library.Multiset"
begin

text \<open>
  What the operations of the admission controller keep. Only two things change the permits, the leases
  and the budgets: a waiter that passes every check, and a release; every other change is
  \<open>permits_kept\<close>. An invariant of these two is an invariant of the pump (\<open>admission_invariant\<close>) and of
  a run (\<open>run_invariant\<close>).
\<close>

section \<open>Changes that keep the permits\<close>

text \<open>The permits, the leases and the budgets stay.\<close>

definition permits_kept :: "admission_state \<Rightarrow> admission_state \<Rightarrow> bool" where
  "permits_kept st st' \<longleftrightarrow>
     ad_active st' = ad_active st \<and> ad_activePrincipal st' = ad_activePrincipal st \<and> ad_activeWorkspace st' = ad_activeWorkspace st
     \<and> ad_activeProvider st' = ad_activeProvider st \<and> ad_activePrincipalProvider st' = ad_activePrincipalProvider st
     \<and> ad_leases st' = ad_leases st \<and> ad_attempts st' = ad_attempts st \<and> ad_costSpent st' = ad_costSpent st
     \<and> ad_tokensReserved st' = ad_tokensReserved st"

lemma quiet_self [simp]: "permits_kept st st"
  by (simp add: permits_kept_def)

lemma quiet_trans: "permits_kept st u \<Longrightarrow> permits_kept u st' \<Longrightarrow> permits_kept st st'"
  by (simp add: permits_kept_def)

lemma quiet_changes:
  "permits_kept st (st\<lparr>ad_queues := q\<rparr>)" "permits_kept st (st\<lparr>ad_timer := t\<rparr>)" "permits_kept st (st\<lparr>ad_laneCursor := c\<rparr>)"
  "permits_kept st (st\<lparr>ad_seenReservations := r\<rparr>)" "permits_kept st (st\<lparr>ad_breakers := b\<rparr>)"
  "permits_kept st (set_lane lane w st)" "permits_kept st (refuse req e st)" "permits_kept st (drop_holder req st)" "permits_kept st (schedulePump d st)"
  "permits_kept st (breaker_transition env v b' st)" "permits_kept st (coordinateRetryAfter env v ms st)" "permits_kept st (count_half_open k v st)"
  by (simp_all add: permits_kept_def set_lane_def refuse_def drop_holder_def schedulePump_def breaker_transition_def
      coordinateRetryAfter_def count_half_open_def Let_def)

lemma breaker_check_quiet: "breaker_check env s req st = (r, cs, st') \<Longrightarrow> permits_kept st st'"
  by (auto simp: breaker_check_def half_open_check_def half_open_def Let_def permits_kept_def breaker_transition_def split: if_splits)

lemma bucket_checks_quiet:
  "request_bucket_check env key l st = (b, st') \<Longrightarrow> permits_kept st st'"
  "token_bucket_check env req key l st = (b, st') \<Longrightarrow> permits_kept st st'"
  by (auto simp: request_bucket_check_def token_bucket_check_def Let_def permits_kept_def split: option.splits prod.splits if_splits)

lemma key_checks_quiet: "key_checks env req keys st = (r, st') \<Longrightarrow> permits_kept st st'"
proof (induction env req keys st arbitrary: r st' rule: key_checks.induct)
  case (2 env req key l keys st)
  obtain b1 st1 where b1: "request_bucket_check env key l st = (b1, st1)" by fastforce
  obtain b2 st2 where b2: "token_bucket_check env req key l st1 = (b2, st2)" by fastforce
  have q: "permits_kept st st1" "permits_kept st1 st2" using bucket_checks_quiet b1 b2 by blast+
  show ?case
  proof (cases "budget_checks env req key l st")
    case (Inr u)
    show ?thesis
    proof (cases "b1 \<and> b2")
      case True
      then have "key_checks env req keys st2 = (r, st')" using 2(2) Inr b1 b2 by simp
      moreover have "permits_kept st2 st'" using 2(1) [OF Inr b1 [symmetric] _ b2 [symmetric]] calculation True by simp
      ultimately show ?thesis using q quiet_trans by blast
    next
      case False
      then show ?thesis using 2(2) Inr b1 b2 q quiet_trans by (auto split: bool.splits)
    qed
  qed (use 2(2) in simp)
qed simp

text \<open>An admission as a whole: which checks it has passed, and what it adds.\<close>

lemma tryAdmit_cases:
  assumes "tryAdmit env s w st = (r, st')"
  obtains (error) e where "r = Some e" "permits_kept st st'"
  | (admitted) st1 st2 cs where "r = None" "\<not> pools_full env s (wt_request w) st"
      "breaker_check env s (wt_request w) st = (None, cs, st1)"
      "key_checks env (wt_request w) (scope_keys s (wt_request w)) st1 = (Inr None, st2)" "permits_kept st st2"
      "st' = hand_out env s w cs (take_permit env s (wt_request w) st2)"
proof (cases "pools_full env s (wt_request w) st")
  case True
  then show thesis using assms error by (auto simp: tryAdmit_def)
next
  case False
  obtain b cs st1 where b: "breaker_check env s (wt_request w) st = (b, cs, st1)" using prod_cases3 by blast
  obtain k st2 where k: "key_checks env (wt_request w) (scope_keys s (wt_request w)) st1 = (k, st2)" by fastforce
  have q: "permits_kept st st1" "permits_kept st st2" using breaker_check_quiet [OF b] key_checks_quiet [OF k] quiet_trans by blast+
  note t = assms [unfolded tryAdmit_def if_not_P [OF False] b]
  show thesis
  proof (cases b)
    case None
    note t = t [unfolded None check_keys.simps k]
    show thesis
    proof (cases k)
      case (Inl reason)
      then show thesis using t q(2) error by auto
    next
      case (Inr d)
      show thesis
      proof (cases d)
        case None
        then show thesis using t False b k \<open>b = None\<close> Inr q(2) by (intro admitted [of cs st1 st2]) simp_all
      next
        case (Some reason)
        then show thesis using t Inr q(2) error by auto
      qed
    qed
  next
    case (Some x)
    then show thesis using t q(1) error by (cases x) auto
  qed
qed

text \<open>Nobody enters a queue during a pump.\<close>

lemma concat_filter_Nil: "concat (map snd (filter (\<lambda>lq. snd lq \<noteq> []) qs)) = concat (map snd qs)"
  by (induction qs) auto

lemma schedulePump_fields [simp]:
  "ad_queues (schedulePump d st) = ad_queues st" "ad_leases (schedulePump d st) = ad_leases st"
  "ad_refused (schedulePump d st) = ad_refused st"
  by (simp_all add: schedulePump_def)

lemma set_lane_waiters:
  "map_of qs lane = Some (w # rest) \<Longrightarrow> w \<in> set (concat (map snd qs))
     \<and> set (concat (map snd (AList.update lane rest qs))) \<subseteq> set (concat (map snd qs))"
  by (induction qs) (auto split: if_splits)

lemma admit_waiter_lanes: "admit_waiter env w st = (r, st') \<Longrightarrow> ad_queues st' = ad_queues st"
  using admit_waiter_queues by (simp add: same_queues_def)

lemma pump_lane_waiters: "set (all_waiters (fst (pump_lane env lanes offset acc))) \<subseteq> set (all_waiters (fst acc))"
proof -
  obtain st progressed nearest where acc: "acc = (st, progressed, nearest)" using prod_cases3 by blast
  obtain st' p n where l: "pump_lane env lanes offset (st, progressed, nearest) = (st', p, n)" using prod_cases3 by blast
  have s: "set (all_waiters u) \<subseteq> set (all_waiters st)"
    if "lane_queue lane st = w # rest" "ad_queues u = AList.update lane rest (ad_queues st)" for lane w rest u
    using set_lane_waiters [OF lane_queue_map [OF that(1)], THEN conjunct2] that(2) unfolding all_waiters_def by simp
  have "set (all_waiters st') \<subseteq> set (all_waiters st)"
    using l
  proof (cases rule: pump_lane_cases)
    case (deferred w rest e)
    then show ?thesis using admit_waiter_lanes [OF deferred(3)] by (simp add: all_waiters_def)
  next
    case (rejected w rest e u)
    then show ?thesis using admit_waiter_lanes [OF rejected(3)] by (intro s [OF rejected(1)]) simp
  next
    case (admitted w rest u c)
    then show ?thesis using admit_waiter_lanes [OF admitted(3)] by (intro s [OF admitted(1)]) simp
  next
    case (expired w rest)
    then show ?thesis by (intro s [OF expired(1)]) simp
  qed simp
  then show ?thesis using l acc by simp
qed

text \<open>An invariant of the changes that keep the permits and of the admissions of the requests that may wait is an invariant of the pump.\<close>

locale admission_invariant =
  fixes env :: admission_env and R :: "admission_request \<Rightarrow> bool" and P :: "admission_state \<Rightarrow> bool"
  assumes quiet_keeps: "P st \<Longrightarrow> permits_kept st st' \<Longrightarrow> P st'"
    and admit_keeps: "P st \<Longrightarrow> R (wt_request w) \<Longrightarrow> preflight env (wt_request w) st = None \<Longrightarrow>
      tryAdmit env (the (ae_limits env (wt_request w))) w st = (None, st') \<Longrightarrow> P st'"
begin

definition waits_ok :: "admission_state \<Rightarrow> bool" where
  "waits_ok st \<longleftrightarrow> P st \<and> (\<forall>w \<in> set (all_waiters st). R (wt_request w))"

lemma admit_waiter_keeps:
  assumes "P st" and "R (wt_request w)" and "admit_waiter env w st = (r, st')"
  shows "P st'"
proof (cases "preflight env (wt_request w) st")
  case None
  then have t: "tryAdmit env (the (ae_limits env (wt_request w))) w st = (r, st')" using assms(3) by (simp add: admit_waiter_def)
  then show ?thesis
  proof (cases r)
    case None
    with t \<open>preflight env (wt_request w) st = None\<close> show ?thesis using admit_keeps assms(1,2) by blast
  next
    case (Some e)
    from t show ?thesis by (cases rule: tryAdmit_cases) (use Some assms(1) quiet_keeps in auto)
  qed
qed (use assms in \<open>simp add: admit_waiter_def\<close>)

lemma drop_head_quiet:
  "permits_kept u (drop_head lane w rest u)" "permits_kept u ((drop_head lane w rest u)\<lparr>ad_laneCursor := c\<rparr>)"
  "permits_kept u (refuse req e (drop_head lane w rest u))" "permits_kept u (expire_head env' w (drop_head lane w rest u))"
  unfolding drop_head_def expire_head_def using quiet_changes quiet_trans by meson+

lemma pump_lane_keeps:
  assumes "waits_ok (fst acc)"
  shows "waits_ok (fst (pump_lane env lanes offset acc))"
proof -
  obtain st progressed nearest where acc: "acc = (st, progressed, nearest)" using prod_cases3 by blast
  obtain st' p n where l: "pump_lane env lanes offset (st, progressed, nearest) = (st', p, n)" using prod_cases3 by blast
  have P: "P st" and R: "R (wt_request w)" if "lane_queue lane st = w # rest" for lane w rest
    using assms set_lane_waiters [OF lane_queue_map [OF that]] unfolding waits_ok_def acc all_waiters_def by auto
  have "P st'"
    using l
  proof (cases rule: pump_lane_cases)
    case empty
    then show ?thesis using assms by (simp add: waits_ok_def acc)
  next
    case (expired w rest)
    then show ?thesis using P [OF expired(1)] quiet_keeps drop_head_quiet(4) by metis
  next
    case (deferred w rest e)
    then show ?thesis using admit_waiter_keeps [OF P R deferred(3)] by blast
  next
    case (rejected w rest e u)
    then show ?thesis using admit_waiter_keeps [OF P R rejected(3)] quiet_keeps drop_head_quiet(3) by metis
  next
    case (admitted w rest u c)
    then show ?thesis using admit_waiter_keeps [OF P R admitted(3)] quiet_keeps drop_head_quiet(2) by metis
  qed
  then have "P (fst (pump_lane env lanes offset acc))" using l acc by simp
  then show ?thesis using pump_lane_waiters [of env lanes offset acc] assms by (auto simp: waits_ok_def)
qed

lemma pump_fold_keeps: "waits_ok (fst acc) \<Longrightarrow> waits_ok (fst (fold (pump_lane env lanes) offsets acc))"
  by (induction offsets arbitrary: acc) (simp_all add: pump_lane_keeps)

lemma pump_loop_keeps: "waits_ok st \<Longrightarrow> waits_ok (fst (pump_loop env lanes st nearest))"
proof (induction "length (all_waiters st)" arbitrary: st nearest rule: less_induct)
  case less
  obtain u p n where u: "pump_pass env lanes st nearest = (u, p, n)" using prod_cases3 by blast
  have "waits_ok u" using pump_fold_keeps [of "(st, False, nearest)" lanes "[0..<length lanes]"] less.prems u by (simp add: pump_pass_def)
  moreover have "p \<Longrightarrow> length (all_waiters u) < length (all_waiters st)"
    using pump_fold_shrinks u unfolding pump_pass_def by blast
  ultimately show ?case using less.hyps u by (simp add: pump_loop_pass [of env lanes st nearest])
qed

lemma waits_quiet: "waits_ok st \<Longrightarrow> permits_kept st st' \<Longrightarrow> set (all_waiters st') \<subseteq> set (all_waiters st) \<Longrightarrow> waits_ok st'"
  using quiet_keeps by (auto simp: waits_ok_def)

lemma pump_all_keeps:
  assumes "waits_ok st"
  shows "waits_ok (pump_queues env st)"
proof -
  let ?st0 = "st\<lparr>ad_timer := None\<rparr>"
  have w0: "waits_ok ?st0" using waits_quiet [OF assms quiet_changes(2)] by (simp add: all_waiters_def)
  obtain u n where u: "pump_loop env (open_lanes st) ?st0 None = (u, n)" by fastforce
  have w: "waits_ok u" using pump_loop_keeps [OF w0] u by (metis fst_conv)
  let ?q = "filter (\<lambda>lq. snd lq \<noteq> []) (ad_queues u)"
  have "all_waiters (u\<lparr>ad_queues := ?q\<rparr>) = all_waiters u" by (simp add: all_waiters_def concat_filter_Nil)
  then have "waits_ok (u\<lparr>ad_queues := ?q\<rparr>)" using waits_quiet [OF w quiet_changes(1), of ?q] by simp
  moreover have "waits_ok (schedulePump d v)" if "waits_ok v" for d v
    using waits_quiet [OF that quiet_changes(9)] by (simp add: all_waiters_def)
  ultimately show ?thesis using w0 u by (simp add: pump_queues_def close_pump.simps)
qed

end

section \<open>Every request is in one place\<close>

lemma mset_set_lane:
  "map_of qs lane = Some (w # rest) \<Longrightarrow> mset (concat (map snd qs)) = add_mset w (mset (concat (map snd (AList.update lane rest qs))))"
  by (induction qs) auto

lemma known_requests_mset:
  "mset (known_requests st) = image_mset (\<lambda>w. aq_id (wt_request w)) (mset (all_waiters st))
     + image_mset (\<lambda>l. aq_id (le_request l)) (mset (ad_leases st)) + image_mset (\<lambda>re. aq_id (fst re)) (mset (ad_refused st))"
  by (simp add: known_requests_def)

lemma quiet_leases: "permits_kept st st' \<Longrightarrow> ad_leases st' = ad_leases st"
  by (simp add: permits_kept_def)

lemma admit_waiter_leases:
  assumes "admit_waiter env w st = (r, st')"
  shows "case r of Some e \<Rightarrow> ad_leases st' = ad_leases st
    | None \<Rightarrow> \<exists>l. ad_leases st' = ad_leases st @ [l] \<and> le_request l = wt_request w"
proof (cases "preflight env (wt_request w) st")
  case None
  then have "tryAdmit env (the (ae_limits env (wt_request w))) w st = (r, st')" using assms by (simp add: admit_waiter_def)
  then show ?thesis
  proof (cases rule: tryAdmit_cases)
    case (error e)
    then show ?thesis by (simp add: permits_kept_def)
  next
    case (admitted st1 st2 cs)
    have "ad_leases (fold (charge_key env req) keys st2) = ad_leases st2" for req keys
      by (induction keys arbitrary: st2) (simp_all add: charge_key_def Let_def)
    then have "ad_leases (take_permit env (the (ae_limits env (wt_request w))) (wt_request w) st2) = ad_leases st"
      using admitted(5) by (simp add: take_permit_def permits_kept_def count_half_open_def drop_holder_def count_in_def Let_def)
    then show ?thesis using admitted(1,6) by (simp add: hand_out_def)
  qed
next
  case (Some e)
  then have "r = Some e" "st' = st" using assms by (simp_all add: admit_waiter_def)
  then show ?thesis by simp
qed

lemma pump_lane_known:
  "mset (known_requests (fst (pump_lane env lanes offset acc))) = mset (known_requests (fst acc))"
proof -
  obtain st progressed nearest where acc: "acc = (st, progressed, nearest)" using prod_cases3 by blast
  obtain st' p n where l: "pump_lane env lanes offset (st, progressed, nearest) = (st', p, n)" using prod_cases3 by blast
  note m = mset_set_lane [OF lane_queue_map]
  have "mset (known_requests st') = mset (known_requests st)"
    using l
  proof (cases rule: pump_lane_cases)
    case (expired w rest)
    then show ?thesis using m [OF expired(1)]
      by (simp add: known_requests_mset all_waiters_def expire_head_def refuse_def drop_head_def drop_holder_def set_lane_def)
  next
    case (deferred w rest e)
    then show ?thesis using admit_waiter_queues [OF deferred(3)] admit_waiter_leases [OF deferred(3)]
      by (simp add: known_requests_mset all_waiters_def same_queues_def)
  next
    case (rejected w rest e u)
    then show ?thesis using m [OF rejected(1)] admit_waiter_queues [OF rejected(3)] admit_waiter_leases [OF rejected(3)]
      by (simp add: known_requests_mset all_waiters_def same_queues_def refuse_def drop_head_def drop_holder_def set_lane_def)
  next
    case (admitted w rest u c)
    then show ?thesis using m [OF admitted(1)] admit_waiter_queues [OF admitted(3)] admit_waiter_leases [OF admitted(3)]
      by (auto simp: known_requests_mset all_waiters_def same_queues_def drop_head_def drop_holder_def set_lane_def)
  qed simp
  then show ?thesis using l acc by simp
qed

lemma pump_loop_known: "mset (known_requests (fst (pump_loop env lanes st nearest))) = mset (known_requests st)"
proof (induction "length (all_waiters st)" arbitrary: st nearest rule: less_induct)
  case less
  obtain u p n where u: "pump_pass env lanes st nearest = (u, p, n)" using prod_cases3 by blast
  have "mset (known_requests (fst (fold (pump_lane env lanes) offsets acc))) = mset (known_requests (fst acc))" for offsets acc
    by (induction offsets arbitrary: acc) (simp_all add: pump_lane_known)
  from this [of "[0..<length lanes]" "(st, False, nearest)"] have "mset (known_requests u) = mset (known_requests st)"
    using u by (simp add: pump_pass_def)
  moreover have "p \<Longrightarrow> length (all_waiters u) < length (all_waiters st)"
    using pump_fold_shrinks u unfolding pump_pass_def by blast
  ultimately show ?case using less.hyps u by (simp add: pump_loop_pass [of env lanes st nearest])
qed

lemma pump_known: "mset (known_requests (pump_queues env st)) = mset (known_requests st)"
proof -
  obtain u n where u: "pump_loop env (open_lanes st) (st\<lparr>ad_timer := None\<rparr>) None = (u, n)" by fastforce
  have "mset (known_requests u) = mset (known_requests st)"
    using pump_loop_known [of env "open_lanes st" "st\<lparr>ad_timer := None\<rparr>" None] u
    by (simp add: known_requests_mset all_waiters_def)
  moreover have "all_waiters (u\<lparr>ad_queues := filter (\<lambda>lq. snd lq \<noteq> []) (ad_queues u)\<rparr>) = all_waiters u"
    "all_waiters (schedulePump d v) = all_waiters v" for d v
    by (simp_all add: all_waiters_def concat_filter_Nil)
  then have "known_requests (close_pump (u, n)) = known_requests u" by (simp add: close_pump.simps known_requests_def)
  moreover have "known_requests (st\<lparr>ad_timer := None\<rparr>) = known_requests st" by (simp add: known_requests_def all_waiters_def)
  ultimately show ?thesis using u by (simp add: pump_queues_def)
qed

lemma coordinateRetryAfter_fields [simp]:
  "ad_queues (coordinateRetryAfter env v ms st) = ad_queues st" "ad_leases (coordinateRetryAfter env v ms st) = ad_leases st"
  "ad_refused (coordinateRetryAfter env v ms st) = ad_refused st"
  by (simp_all add: coordinateRetryAfter_def)

lemma known_acquire:
  "mset (known_requests (acquire_lease env req st)) = add_mset (aq_id req) (mset (known_requests st))"
proof -
  have m: "mset (concat (map snd (AList.update k (opt_default (map_of qs k) [] @ [w]) qs))) = add_mset w (mset (concat (map snd qs)))"
    for k w and qs :: "(lane \<times> admission_waiter list) list"
    by (induction qs) auto
  have q: "mset (known_requests (enqueue_waiter env req u)) = add_mset (aq_id req) (mset (known_requests u))" for u
    using m [of "lane_of req" "ad_queues u"] by (simp add: enqueue_waiter_def known_requests_mset all_waiters_def set_lane_def lane_queue_def)
  have r: "mset (known_requests (refuse req e st)) = add_mset (aq_id req) (mset (known_requests st))" for e
    by (simp add: known_requests_mset all_waiters_def refuse_def)
  have n: "known_requests (st\<lparr>ad_seenReservations := x\<rparr>) = known_requests st" for x
    by (simp add: known_requests_def all_waiters_def)
  show ?thesis by (cases "preflight env req st") (simp_all add: acquire_lease_def pump_known q r n)
qed

lemma remove_waiter_mset:
  "remove_waiter i qs = Some (w, qs') \<Longrightarrow>
     aq_id (wt_request w) = i \<and> mset (concat (map snd qs)) = add_mset w (mset (concat (map snd qs')))"
proof (induction qs arbitrary: qs')
  case (Cons lq qs)
  obtain lane q where lq: "lq = (lane, q)" by fastforce
  show ?case
  proof (cases "find (\<lambda>w. aq_id (wt_request w) = i) q")
    case None
    then show ?thesis using Cons lq by auto
  next
    case (Some v)
    then have "aq_id (wt_request v) = i" "v \<in> set q" by (auto simp: find_Some_iff)
    then show ?thesis using Cons.prems Some lq by auto
  qed
qed simp

lemma known_remove: "mset (known_requests (remove_request env i st)) = mset (known_requests st)"
proof (cases "remove_waiter i (ad_queues st)")
  case (Some wq)
  then obtain w qs where w: "remove_waiter i (ad_queues st) = Some (w, qs)" by (cases wq) auto
  let ?u = "drop_holder (wt_request w) (st\<lparr>ad_queues := qs\<rparr>)"
  have "mset (known_requests (cancel_waiter env w ?u)) = mset (known_requests st)"
    using remove_waiter_mset [OF w] by (simp add: cancel_waiter_def known_requests_mset all_waiters_def refuse_def drop_holder_def)
  then show ?thesis by (simp add: remove_request_def w pump_known)
qed (simp add: remove_request_def pump_known)

text \<open>A release in one piece.\<close>

definition close_lease :: "breaker_change list \<Rightarrow> admission_lease \<Rightarrow> admission_lease" where
  "close_lease changes l = l\<lparr>le_released := True, le_evidence := (le_evidence l)
     \<lparr>an_breakerTransitions := an_breakerTransitions (le_evidence l) @ changes\<rparr>\<rparr>"

lemma close_lease_simps [simp]: "le_request (close_lease cs l) = le_request l" "le_released (close_lease cs l)"
  by (simp_all add: close_lease_def)

lemma settle_breaker_quiet: "settle_breaker env l result st = (cs, st') \<Longrightarrow> permits_kept st st' \<and> same_queues st (st'\<lparr>ad_timer := ad_timer st\<rparr>)"
  by (auto simp: settle_breaker_def Let_def permits_kept_def same_queues_def breaker_transition_def coordinateRetryAfter_def schedulePump_def
      split: option.splits if_splits)

lemma release_cases:
  assumes "release_lease env i result st = Some st'"
  obtains (again) "st' = st"
  | (first) l cs u where "find (\<lambda>l. aq_id (le_request l) = i) (ad_leases st) = Some l" "\<not> le_released l"
      "permits_kept (update_lease i (close_lease cs) (count_out (le_request l) st)) u" "ad_queues u = ad_queues st"
      "ad_refused u = ad_refused st" "st' = pump_queues env u"
proof -
  obtain l where l: "find (\<lambda>l. aq_id (le_request l) = i) (ad_leases st) = Some l"
    using assms by (cases "find (\<lambda>l. aq_id (le_request l) = i) (ad_leases st)") (simp_all add: release_lease_def)
  show thesis
  proof (cases "le_released l")
    case True
    then show thesis using assms l again by (simp add: release_lease_def)
  next
    case False
    define st1 where "st1 = count_half_open (- 1) (aq_providerId (le_request l)) (count_out (le_request l) st)"
    obtain cs st2 where b: "settle_breaker env l result st1 = (cs, st2)" by fastforce
    have st': "st' = pump_queues env (update_lease i (close_lease cs) st2)"
      using assms l False b by (simp add: release_lease_def st1_def [symmetric] close_lease_def [abs_def])
    have "permits_kept (count_out (le_request l) st) st1" unfolding st1_def by (rule quiet_changes)
    then have q: "permits_kept (count_out (le_request l) st) st2" using settle_breaker_quiet [OF b] quiet_trans by blast
    have "ad_queues st1 = ad_queues st" "ad_refused st1 = ad_refused st"
      by (simp_all add: st1_def count_half_open_def count_out_def Let_def)
    then have s: "ad_queues st2 = ad_queues st" "ad_refused st2 = ad_refused st"
      using settle_breaker_quiet [OF b] by (simp_all add: same_queues_def)
    show thesis by (rule first [where cs = cs, OF l False _ _ _ st']) (use q s in \<open>simp_all add: permits_kept_def update_lease_def\<close>)
  qed
qed

lemma known_release:
  assumes "release_lease env i result st = Some st'"
  shows "mset (known_requests st') = mset (known_requests st)"
  using assms
proof (cases rule: release_cases)
  case (first l cs u)
  have "map (\<lambda>l. aq_id (le_request l)) (ad_leases u) = map (\<lambda>l. aq_id (le_request l)) (ad_leases st)"
    using first(3) by (simp add: permits_kept_def update_lease_def count_out_def Let_def)
  then have "known_requests u = known_requests st" using first(4,5) by (simp add: known_requests_def all_waiters_def)
  then show ?thesis using first(6) pump_known by simp
qed simp

text \<open>The requests of a run, in the order of their calls.\<close>

definition requested :: "(admission_env \<times> admission_event) list \<Rightarrow> nat list" where
  "requested evs = concat (map (\<lambda>(env, ev). case ev of AcquireLease req \<Rightarrow> [aq_id req] | _ \<Rightarrow> []) evs)"

lemma known_step:
  assumes "admission_step env ev st = Some st'" and "distinct (known_requests st)"
  shows "mset (known_requests st') = mset (known_requests st) + mset (requested [(env, ev)]) \<and> distinct (known_requests st')"
proof (cases ev)
  case (AcquireLease req)
  then have st': "st' = acquire_lease env req st" "aq_id req \<notin> set (known_requests st)" using assms(1) by (auto split: if_splits)
  have m: "mset (known_requests st') = mset (aq_id req # known_requests st)" using known_acquire st'(1) by simp
  have "distinct (aq_id req # known_requests st)" using st'(2) assms(2) by simp
  then have "distinct (known_requests st')" using mset_eq_imp_distinct_iff [OF m] by blast
  then show ?thesis using m AcquireLease by (simp add: requested_def)
next
  case (ReleaseLease i result)
  then have m: "mset (known_requests st') = mset (known_requests st)" using assms(1) known_release by simp
  then show ?thesis using mset_eq_imp_distinct_iff [OF m] assms(2) ReleaseLease by (simp add: requested_def)
next
  case (AbortRequest i)
  then have m: "mset (known_requests st') = mset (known_requests st)" using assms(1) known_remove by (auto split: if_splits)
  then show ?thesis using mset_eq_imp_distinct_iff [OF m] assms(2) AbortRequest by (simp add: requested_def)
next
  case TimerFires
  moreover have "known_requests (st\<lparr>ad_timer := None\<rparr>) = known_requests st" by (simp add: known_requests_def all_waiters_def)
  ultimately have m: "mset (known_requests st') = mset (known_requests st)"
    using assms(1) pump_known [of env "st\<lparr>ad_timer := None\<rparr>"] by (auto split: if_splits)
  then show ?thesis using mset_eq_imp_distinct_iff [OF m] assms(2) TimerFires by (simp add: requested_def)
next
  case (RetryAfterSeen v ms)
  then have m: "known_requests st' = known_requests st" using assms(1) by (auto simp: known_requests_def all_waiters_def)
  then show ?thesis using assms(2) RetryAfterSeen by (simp add: requested_def)
next
  case (BudgetReleased b)
  then have m: "known_requests st' = known_requests st" using assms(1)
    by (auto simp: releaseBudget_def Let_def known_requests_def all_waiters_def)
  then show ?thesis using assms(2) BudgetReleased by (simp add: requested_def)
qed

lemma known_run:
  assumes "admission_run evs st = Some st'" and "distinct (known_requests st)"
  shows "mset (known_requests st') = mset (known_requests st) + mset (requested evs) \<and> distinct (known_requests st')"
  using assms
proof (induction evs arbitrary: st)
  case (Cons envev evs)
  obtain env ev where e: "envev = (env, ev)" by fastforce
  then obtain u where u: "admission_step env ev st = Some u" "admission_run evs u = Some st'"
    using Cons.prems(1) by (auto simp: bind_eq_Some_conv)
  note k = known_step [OF u(1) Cons.prems(2)]
  then have "mset (known_requests st') = mset (known_requests u) + mset (requested evs) \<and> distinct (known_requests st')"
    using Cons.IH [OF u(2)] by blast
  then show ?case using k e by (simp add: requested_def ac_simps)
qed (simp add: requested_def)

section \<open>Invariants of runs\<close>

text \<open>What is asked of a run: of its environments, of the requests that are made and of the budgets released.\<close>

definition run_of :: "(admission_env \<Rightarrow> bool) \<Rightarrow> (admission_request \<Rightarrow> bool) \<Rightarrow> (string \<Rightarrow> bool) \<Rightarrow> (admission_env \<times> admission_event) list \<Rightarrow> bool" where
  "run_of E R B evs =
     list_all (\<lambda>(env, ev). E env \<and> (case ev of AcquireLease req \<Rightarrow> R req | BudgetReleased b \<Rightarrow> B b | _ \<Rightarrow> True)) evs"

locale run_invariant =
  fixes E :: "admission_env \<Rightarrow> bool" and R :: "admission_request \<Rightarrow> bool" and B :: "string \<Rightarrow> bool" and P :: "admission_state \<Rightarrow> bool"
  assumes initial: "P new_controller"
    and pumps: "E env \<Longrightarrow> admission_invariant env R P"
    and release_keeps: "P st \<Longrightarrow> distinct (map (\<lambda>l. aq_id (le_request l)) (ad_leases st)) \<Longrightarrow> l \<in> set (ad_leases st) \<Longrightarrow> \<not> le_released l \<Longrightarrow>
      P (update_lease (aq_id (le_request l)) (close_lease cs) (count_out (le_request l) st))"
    and budget_keeps: "B b \<Longrightarrow> P st \<Longrightarrow> P (releaseBudget b st)"
begin

definition run_ok :: "admission_state \<Rightarrow> bool" where
  "run_ok st \<longleftrightarrow> P st \<and> (\<forall>w \<in> set (all_waiters st). R (wt_request w)) \<and> distinct (known_requests st)"

lemma pump_run_ok:
  assumes "E env" and "P st" and "\<forall>w \<in> set (all_waiters st). R (wt_request w)"
  shows "P (pump_queues env st) \<and> (\<forall>w \<in> set (all_waiters (pump_queues env st)). R (wt_request w))"
  using admission_invariant.pump_all_keeps [OF pumps [OF assms(1)], of st] assms(2,3)
  by (simp add: admission_invariant.waits_ok_def [OF pumps [OF assms(1)]])

lemma quiet_ok: "E env \<Longrightarrow> P st \<Longrightarrow> permits_kept st st' \<Longrightarrow> P st'"
  using admission_invariant.quiet_keeps [OF pumps] by blast

lemma release_ok:
  assumes "E env" and "run_ok st" and "release_lease env i result st = Some st'"
  shows "P st' \<and> (\<forall>w \<in> set (all_waiters st'). R (wt_request w))"
  using assms(3)
proof (cases rule: release_cases)
  case again
  then show ?thesis using assms(2) by (simp add: run_ok_def)
next
  case (first l cs u)
  then have l: "l \<in> set (ad_leases st)" "aq_id (le_request l) = i" by (auto simp: find_Some_iff)
  have "distinct (map (\<lambda>l. aq_id (le_request l)) (ad_leases st))" using assms(2) by (simp add: run_ok_def known_requests_def)
  then have "P u" using release_keeps [of st l cs] quiet_ok [OF assms(1) _ first(3)] assms(2) first(2) l by (simp add: run_ok_def)
  then show ?thesis using pump_run_ok [OF assms(1)] assms(2) first(4,6) by (simp add: run_ok_def all_waiters_def)
qed

lemma acquire_ok:
  assumes "E env" and "run_ok st" and "R req"
  shows "P (acquire_lease env req st) \<and> (\<forall>w \<in> set (all_waiters (acquire_lease env req st)). R (wt_request w))"
proof -
  have p: "P st" "\<forall>w \<in> set (all_waiters st). R (wt_request w)" using assms(2) by (simp_all add: run_ok_def)
  have r: "P (refuse req e st) \<and> (\<forall>w \<in> set (all_waiters (refuse req e st)). R (wt_request w))" for e
    using quiet_ok [OF assms(1) p(1) quiet_changes(7)] p(2) by (simp add: all_waiters_def refuse_def)
  have m: "set (concat (map snd (AList.update k (opt_default (map_of qs k) [] @ [w]) qs))) = insert w (set (concat (map snd qs)))"
    for k w and qs :: "(lane \<times> admission_waiter list) list"
    by (induction qs) auto
  have q: "P (pump_queues env (enqueue_waiter env req u))
      \<and> (\<forall>v \<in> set (all_waiters (pump_queues env (enqueue_waiter env req u))). R (wt_request v))"
    if "permits_kept st u" "ad_queues u = ad_queues st" for u
  proof -
    have "P (enqueue_waiter env req u)"
      unfolding enqueue_waiter_def using quiet_ok [OF assms(1) p(1)] that(1) quiet_changes(6) quiet_trans by blast
    moreover have "set (all_waiters (enqueue_waiter env req u)) = insert \<lparr>wt_request = req, wt_enqueuedAt = ae_now env\<rparr> (set (all_waiters st))"
      using m [of "lane_of req" "ad_queues st"] that(2) by (simp only: all_waiters_def enqueue_waiter_def set_lane_def lane_queue_def) simp
    ultimately show ?thesis using p(2) assms(3) by (intro pump_run_ok [OF assms(1)]) simp_all
  qed
  show ?thesis
  proof (cases "preflight env req st")
    case None
    show ?thesis using None r q [OF quiet_self] q [OF quiet_changes(4)] by (auto simp: acquire_lease_def)
  qed (use r in \<open>simp add: acquire_lease_def\<close>)
qed

lemma remove_ok:
  assumes "E env" and "run_ok st"
  shows "P (remove_request env i st) \<and> (\<forall>w \<in> set (all_waiters (remove_request env i st)). R (wt_request w))"
proof -
  have p: "P st" "\<forall>w \<in> set (all_waiters st). R (wt_request w)" using assms(2) by (simp_all add: run_ok_def)
  show ?thesis
  proof (cases "remove_waiter i (ad_queues st)")
    case None
    then show ?thesis using pump_run_ok [OF assms(1)] p by (simp add: remove_request_def)
  next
    case (Some wq)
    then obtain w qs where w: "remove_waiter i (ad_queues st) = Some (w, qs)" by (cases wq) auto
    let ?u = "drop_holder (wt_request w) (st\<lparr>ad_queues := qs\<rparr>)"
    have "set_mset (mset (concat (map snd qs))) \<subseteq> set_mset (mset (all_waiters st))"
      using remove_waiter_mset [OF w] by (auto simp: all_waiters_def)
    then have "\<forall>v \<in> set (all_waiters (cancel_waiter env w ?u)). R (wt_request v)"
      using p(2) by (auto simp: cancel_waiter_def all_waiters_def refuse_def drop_holder_def)
    moreover have "P (cancel_waiter env w ?u)"
      unfolding cancel_waiter_def using quiet_ok [OF assms(1) p(1)] quiet_changes(1,7,8) quiet_trans by meson
    ultimately show ?thesis unfolding remove_request_def w option.case prod.case by (intro pump_run_ok [OF assms(1)])
  qed
qed

lemma step_keeps:
  assumes "run_ok st" and "run_of E R B [(env, ev)]" and "admission_step env ev st = Some st'"
  shows "run_ok st'"
proof -
  have d: "distinct (known_requests st')" using known_step [OF assms(3)] assms(1) by (simp add: run_ok_def)
  have e: "E env" using assms(2) by (simp add: run_of_def)
  have "P st' \<and> (\<forall>w \<in> set (all_waiters st'). R (wt_request w))"
  proof (cases ev)
    case (AcquireLease req)
    then show ?thesis using acquire_ok [OF e assms(1)] assms(2,3) by (auto simp: run_of_def split: if_splits)
  next
    case (ReleaseLease i result)
    then show ?thesis using release_ok [OF e assms(1)] assms(3) by simp
  next
    case (AbortRequest i)
    then show ?thesis using remove_ok [OF e assms(1)] assms(3) by (auto split: if_splits)
  next
    case TimerFires
    have "P (st\<lparr>ad_timer := None\<rparr>)" using quiet_ok [OF e _ quiet_changes(2)] assms(1) by (simp add: run_ok_def)
    then show ?thesis using pump_run_ok [OF e, of "st\<lparr>ad_timer := None\<rparr>"] assms(1,3) TimerFires
      by (auto simp: run_ok_def all_waiters_def split: if_splits)
  next
    case (RetryAfterSeen v ms)
    then show ?thesis using quiet_ok [OF e _ quiet_changes(11)] assms(1,3) by (auto simp: run_ok_def all_waiters_def)
  next
    case (BudgetReleased b)
    then have "B b" "st' = releaseBudget b st" using assms(2,3) by (simp_all add: run_of_def)
    then show ?thesis using budget_keeps assms(1) by (auto simp: run_ok_def all_waiters_def releaseBudget_def Let_def)
  qed
  then show ?thesis using d by (simp add: run_ok_def)
qed

lemma run_keeps:
  assumes "run_ok st" and "run_of E R B evs" and "admission_run evs st = Some st'"
  shows "run_ok st'"
  using assms
proof (induction evs arbitrary: st)
  case (Cons envev evs)
  obtain env ev where e: "envev = (env, ev)" by fastforce
  then obtain u where u: "admission_step env ev st = Some u" "admission_run evs u = Some st'"
    using Cons.prems(3) by (auto simp: bind_eq_Some_conv)
  have "run_of E R B [(env, ev)]" "run_of E R B evs" using Cons.prems(2) e by (simp_all add: run_of_def)
  then show ?case using Cons.IH [OF step_keeps [OF Cons.prems(1) _ u(1)] _ u(2)] by blast
qed simp

lemma run_from_new:
  assumes "run_of E R B evs" and "admission_run evs new_controller = Some st"
  shows "P st" and "distinct (map (\<lambda>l. aq_id (le_request l)) (ad_leases st))"
proof -
  have "run_ok new_controller" using initial by (simp add: run_ok_def new_controller_def all_waiters_def known_requests_def)
  then have "run_ok st" using run_keeps assms by blast
  then show "P st" "distinct (map (\<lambda>l. aq_id (le_request l)) (ad_leases st))" by (simp_all add: run_ok_def known_requests_def)
qed

end

end
