(* ===== verification/AdmissionPermits.thy ===== *)
theory AdmissionPermits
  imports AdmissionInvariant
begin

text \<open>
  The permits of the admission controller: its counters count the leases that are not released, and
  with the limits of a registered profile nobody holds more than a ceiling, and no principal takes
  what the reservation of another holds back.
\<close>

section \<open>Counting leases\<close>

definition holding :: "(admission_request \<Rightarrow> bool) \<Rightarrow> admission_lease list \<Rightarrow> nat" where
  "holding Q ls = length (filter (\<lambda>l. \<not> le_released l \<and> Q (le_request l)) ls)"

text \<open>The leases of a state that are not released and whose request is one of \<open>Q\<close>.\<close>

definition holders :: "(admission_request \<Rightarrow> bool) \<Rightarrow> admission_state \<Rightarrow> nat" where
  "holders Q st = holding Q (ad_leases st)"

lemma holding_snoc [simp]: "holding Q (ls @ [l]) = holding Q ls + (if \<not> le_released l \<and> Q (le_request l) then 1 else 0)"
  by (simp add: holding_def)

lemma holding_Cons [simp]: "holding Q (l # ls) = (if \<not> le_released l \<and> Q (le_request l) then 1 else 0) + holding Q ls"
  by (simp add: holding_def)

lemma holding_close:
  assumes "distinct (map (\<lambda>l. aq_id (le_request l)) ls)" and "l \<in> set ls" and "\<not> le_released l"
  shows "holding Q ls = holding Q (map (\<lambda>x. if aq_id (le_request x) = aq_id (le_request l) then close_lease cs x else x) ls)
    + (if Q (le_request l) then 1 else 0)"
  using assms
proof (induction ls)
  case (Cons x ls)
  show ?case
  proof (cases "x = l")
    case True
    then have "\<forall>y \<in> set ls. aq_id (le_request y) \<noteq> aq_id (le_request l)" using Cons.prems(1) by (simp add: image_iff) metis
    then have "map (\<lambda>x. if aq_id (le_request x) = aq_id (le_request l) then close_lease cs x else x) ls = ls"
      by (intro map_idI) auto
    then show ?thesis using True Cons.prems(3) by simp
  next
    case False
    then have "l \<in> set ls" using Cons.prems(2) by simp
    moreover from this have "aq_id (le_request x) \<noteq> aq_id (le_request l)" using Cons.prems(1) by auto
    ultimately show ?thesis using Cons by simp
  qed
qed simp

definition leases_accounted :: "admission_state \<Rightarrow> bool" where
  "leases_accounted st \<longleftrightarrow>
     ad_active st = holders (\<lambda>_. True) st
     \<and> (\<forall>p. ad_activePrincipal st p = holders (\<lambda>r. aq_principalId r = p) st)
     \<and> (\<forall>w. ad_activeWorkspace st w = holders (\<lambda>r. aq_workspaceId r = w) st)
     \<and> (\<forall>v. ad_activeProvider st v = holders (\<lambda>r. aq_providerId r = v) st)
     \<and> (\<forall>v p. ad_activePrincipalProvider st (v, p) = holders (\<lambda>r. aq_providerId r = v \<and> aq_principalId r = p) st)"

text \<open>The permits after an admission and after a release.\<close>

lemma charge_keys_permits:
  "ad_active (fold (charge_key env req) keys st) = ad_active st
   \<and> ad_activePrincipal (fold (charge_key env req) keys st) = ad_activePrincipal st
   \<and> ad_activeWorkspace (fold (charge_key env req) keys st) = ad_activeWorkspace st
   \<and> ad_activeProvider (fold (charge_key env req) keys st) = ad_activeProvider st
   \<and> ad_activePrincipalProvider (fold (charge_key env req) keys st) = ad_activePrincipalProvider st
   \<and> ad_leases (fold (charge_key env req) keys st) = ad_leases st"
  by (induction keys arbitrary: st) (simp_all add: charge_key_def Let_def)

definition takes_permit :: "admission_request \<Rightarrow> admission_state \<Rightarrow> admission_state \<Rightarrow> bool" where
  "takes_permit req st st' \<longleftrightarrow>
     ad_active st' = ad_active (count_in req st) \<and> ad_activePrincipal st' = ad_activePrincipal (count_in req st)
     \<and> ad_activeWorkspace st' = ad_activeWorkspace (count_in req st) \<and> ad_activeProvider st' = ad_activeProvider (count_in req st)
     \<and> ad_activePrincipalProvider st' = ad_activePrincipalProvider (count_in req st)
     \<and> (\<exists>l. ad_leases st' = ad_leases st @ [l] \<and> le_request l = req \<and> \<not> le_released l)"

lemma tryAdmit_permits:
  assumes "tryAdmit env s w st = (None, st')"
  shows "\<not> pools_full env s (wt_request w) st \<and> takes_permit (wt_request w) st st'"
  using assms
proof (cases rule: tryAdmit_cases)
  case (admitted st1 st2 cs)
  let ?c = "fold (charge_key env (wt_request w)) (scope_keys s (wt_request w)) st2"
  have c: "permits_kept st st2" "ad_active ?c = ad_active st2" "ad_activePrincipal ?c = ad_activePrincipal st2"
    "ad_activeWorkspace ?c = ad_activeWorkspace st2" "ad_activeProvider ?c = ad_activeProvider st2"
    "ad_activePrincipalProvider ?c = ad_activePrincipalProvider st2" "ad_leases ?c = ad_leases st2"
    using admitted(5) charge_keys_permits by simp_all
  then show ?thesis using admitted(2,6)
    by (simp add: takes_permit_def hand_out_def take_permit_def permits_kept_def count_half_open_def drop_holder_def count_in_def Let_def)
qed simp

lemma accounted_takes:
  assumes "leases_accounted st" and "takes_permit req st st'"
  shows "leases_accounted st'"
  using assms by (auto simp: leases_accounted_def takes_permit_def count_in_def Let_def holders_def)

lemma holders_takes:
  "takes_permit req st st' \<Longrightarrow> holders Q st' = holders Q st + (if Q req then 1 else 0)"
  by (auto simp: takes_permit_def holders_def)

lemma holders_quiet: "permits_kept st st' \<Longrightarrow> holders Q st' = holders Q st"
  by (simp add: permits_kept_def holders_def)

lemma holders_close:
  assumes "distinct (map (\<lambda>l. aq_id (le_request l)) (ad_leases st))" and "l \<in> set (ad_leases st)" and "\<not> le_released l"
  shows "holders Q st = holders Q (update_lease (aq_id (le_request l)) (close_lease cs) (count_out (le_request l) st))
    + (if Q (le_request l) then 1 else 0)"
  using holding_close [OF assms, of Q cs] by (simp add: holders_def update_lease_def count_out_def Let_def)

lemma accounted_close:
  assumes "leases_accounted st" and "distinct (map (\<lambda>l. aq_id (le_request l)) (ad_leases st))"
    and "l \<in> set (ad_leases st)" and "\<not> le_released l"
  shows "leases_accounted (update_lease (aq_id (le_request l)) (close_lease cs) (count_out (le_request l) st))"
proof -
  let ?u = "update_lease (aq_id (le_request l)) (close_lease cs) (count_out (le_request l) st)"
  note h = holders_close [OF assms(2-4), of _ cs]
  have u: "ad_active ?u = ad_active st - 1"
    "\<And>p. ad_activePrincipal ?u p = ad_activePrincipal st p - (if aq_principalId (le_request l) = p then 1 else 0)"
    "\<And>w. ad_activeWorkspace ?u w = ad_activeWorkspace st w - (if aq_workspaceId (le_request l) = w then 1 else 0)"
    "\<And>v. ad_activeProvider ?u v = ad_activeProvider st v - (if aq_providerId (le_request l) = v then 1 else 0)"
    "\<And>v p. ad_activePrincipalProvider ?u (v, p) = ad_activePrincipalProvider st (v, p)
       - (if aq_providerId (le_request l) = v \<and> aq_principalId (le_request l) = p then 1 else 0)"
    by (auto simp: update_lease_def count_out_def Let_def)
  show ?thesis
    unfolding leases_accounted_def u
    using assms(1) h by (auto simp: leases_accounted_def)
qed

interpretation accounts: run_invariant "\<lambda>_. True" "\<lambda>_. True" "\<lambda>_. True" leases_accounted
proof
  show "leases_accounted new_controller" by (simp add: leases_accounted_def new_controller_def holders_def holding_def)
  show "leases_accounted st'" if "leases_accounted st" "permits_kept st st'" for st st'
    using that by (simp add: leases_accounted_def permits_kept_def holders_def)
  show "leases_accounted st'"
    if "leases_accounted st" "tryAdmit env (the (ae_limits env (wt_request w))) w st = (None, st')" for env w st st'
    using accounted_takes [OF that(1)] tryAdmit_permits [OF that(2)] by blast
  show "leases_accounted (releaseBudget b st)" if "leases_accounted st" for b st
    using that by (simp add: leases_accounted_def releaseBudget_def holders_def Let_def)
qed (rule accounted_close)

end
