(* ===== verification/AdmissionGuarantees.thy ===== *)
theory AdmissionGuarantees
  imports AdmissionPermits
begin

text \<open>
  The guarantees of the admission controller over whole runs, with the limits that a registered
  profile supplies: ceilings, reservations and budgets.
\<close>

section \<open>The limits of a profile\<close>

text \<open>\<open>controllerOf\<close>: the limits that the registry hands to the controller of a workspace.\<close>

definition registry_limits ::
    "(string \<times> admission_limits) list \<Rightarrow> admission_limits \<Rightarrow> (string \<times> admission_limits) list \<Rightarrow> admission_request \<Rightarrow> scope_limits option" where
  "registry_limits principals workspace providers req =
     (case (map_of principals (aq_principalId req), map_of providers (aq_providerId req)) of
        (Some p, Some v) \<Rightarrow> Some \<lparr>sl_principal = p, sl_workspace = workspace, sl_provider = v\<rparr>
      | _ \<Rightarrow> None)"

definition profile_env ::
    "(string \<times> admission_limits) list \<Rightarrow> admission_limits \<Rightarrow> (string \<times> admission_limits) list \<Rightarrow> admission_env \<Rightarrow> bool" where
  "profile_env principals workspace providers env \<longleftrightarrow>
     ae_limits env = registry_limits principals workspace providers \<and> ae_principals env = Some principals"

text \<open>The limits that a waiter is admitted under.\<close>

lemma preflight_limits: "preflight env req st = None \<Longrightarrow> \<exists>s. ae_limits env req = Some s"
  by (auto simp: preflight_def preflight_reason_def Let_def split: if_splits option.splits)

lemma admitted_limits:
  assumes "profile_env ps ws vs env" and "preflight env req st = None"
  shows "ae_limits env req = Some (the (ae_limits env req))" and "map_of ps (aq_principalId req) = Some (sl_principal (the (ae_limits env req)))"
    and "sl_workspace (the (ae_limits env req)) = ws" and "map_of vs (aq_providerId req) = Some (sl_provider (the (ae_limits env req)))"
  using preflight_limits [OF assms(2)] assms(1) by (auto simp: profile_env_def registry_limits_def split: option.splits)

section \<open>Ceilings\<close>

definition within_ceilings ::
    "(string \<times> admission_limits) list \<Rightarrow> admission_limits \<Rightarrow> (string \<times> admission_limits) list \<Rightarrow> admission_state \<Rightarrow> bool" where
  "within_ceilings ps ws vs st \<longleftrightarrow>
     (\<forall>p a. map_of ps p = Some a \<longrightarrow> int (holders (\<lambda>r. aq_principalId r = p) st) \<le> max 0 (lm_concurrency a))
     \<and> (\<forall>w. int (holders (\<lambda>r. aq_workspaceId r = w) st) \<le> max 0 (lm_concurrency ws))
     \<and> (\<forall>v b. map_of vs v = Some b \<longrightarrow> int (holders (\<lambda>r. aq_providerId r = v) st) \<le> max 0 (lm_concurrency b))"

lemma ceilings_fewer:
  assumes "within_ceilings ps ws vs st" and "\<And>Q. holders Q st' \<le> holders Q st"
  shows "within_ceilings ps ws vs st'"
proof -
  have "int (holders Q st') \<le> x" if "int (holders Q st) \<le> x" for Q x using assms(2) [of Q] that by linarith
  then show ?thesis using assms(1) unfolding within_ceilings_def by blast
qed

lemma ceilings_takes:
  assumes "within_ceilings ps ws vs st" and "leases_accounted st" and "profile_env ps ws vs env"
    and "preflight env (wt_request w) u = None" and "\<not> pools_full env (the (ae_limits env (wt_request w))) (wt_request w) st"
    and "takes_permit (wt_request w) st st'"
  shows "within_ceilings ps ws vs st'"
proof -
  let ?r = "wt_request w"
  note s = admitted_limits [OF assms(3,4)]
  have free: "int (holders (\<lambda>r. aq_principalId r = aq_principalId ?r) st) < lm_concurrency (sl_principal (the (ae_limits env ?r)))"
    "int (holders (\<lambda>r. aq_workspaceId r = aq_workspaceId ?r) st) < lm_concurrency ws"
    "int (holders (\<lambda>r. aq_providerId r = aq_providerId ?r) st) < lm_concurrency (sl_provider (the (ae_limits env ?r)))"
    using assms(2,5) s(3) by (auto simp: pools_full_def leases_accounted_def Let_def)
  note t = holders_takes [OF assms(6)]
  show ?thesis
    unfolding within_ceilings_def t using free s(2,4) assms(1) by (auto simp: within_ceilings_def)
qed

interpretation ceilings: run_invariant "profile_env ps ws vs" "\<lambda>_. True" "\<lambda>_. True"
  "\<lambda>st. leases_accounted st \<and> within_ceilings ps ws vs st" for ps ws vs
proof
  show "leases_accounted new_controller \<and> within_ceilings ps ws vs new_controller"
    using accounts.initial by (simp add: within_ceilings_def new_controller_def holders_def holding_def)
  show "leases_accounted st' \<and> within_ceilings ps ws vs st'"
    if "leases_accounted st \<and> within_ceilings ps ws vs st" "permits_kept st st'" for st st'
    using that(1) accounts.quiet_ok [OF TrueI _ that(2)] ceilings_fewer [of ps ws vs st st'] holders_quiet [OF that(2)] by simp
  show "leases_accounted st' \<and> within_ceilings ps ws vs st'"
    if "profile_env ps ws vs env" "leases_accounted st \<and> within_ceilings ps ws vs st" "preflight env (wt_request w) st = None"
      "tryAdmit env (the (ae_limits env (wt_request w))) w st = (None, st')" for env w st st'
    using tryAdmit_permits [OF that(4)] accounted_takes ceilings_takes that by blast
  show "leases_accounted (update_lease (aq_id (le_request l)) (close_lease cs) (count_out (le_request l) st))
      \<and> within_ceilings ps ws vs (update_lease (aq_id (le_request l)) (close_lease cs) (count_out (le_request l) st))"
    if "leases_accounted st \<and> within_ceilings ps ws vs st" "distinct (map (\<lambda>l. aq_id (le_request l)) (ad_leases st))"
      "l \<in> set (ad_leases st)" "\<not> le_released l" for st l cs
    using accounted_close [OF _ that(2-4)] ceilings_fewer [of ps ws vs st] holders_close [OF that(2-4)] that(1) by (metis le_add1)
  show "leases_accounted (releaseBudget b st) \<and> within_ceilings ps ws vs (releaseBudget b st)"
    if "leases_accounted st \<and> within_ceilings ps ws vs st" for b st
    using that accounts.budget_keeps by (simp add: within_ceilings_def holders_def releaseBudget_def Let_def)
qed

text \<open>C25: The concurrency ceilings hold. In every run with the limits of one profile the leases that are not
  released, counted as what the callers hold, stay within the ceiling of each principal, of each
  workspace and of each provider, however requests queue, are aborted, released or refused.\<close>

theorem leases_within_ceilings:
  assumes "run_of (profile_env ps ws vs) (\<lambda>_. True) (\<lambda>_. True) evs" and "admission_run evs new_controller = Some st"
    and "map_of ps p = Some a" and "map_of vs v = Some b"
  shows "int (holders (\<lambda>r. aq_principalId r = p) st) \<le> max 0 (lm_concurrency a)
    \<and> int (holders (\<lambda>r. aq_workspaceId r = w) st) \<le> max 0 (lm_concurrency ws)
    \<and> int (holders (\<lambda>r. aq_providerId r = v) st) \<le> max 0 (lm_concurrency b)"
  using ceilings.run_from_new(1) [OF assms(1,2)] assms(3,4) by (simp add: within_ceilings_def)

section \<open>Reservations\<close>

text \<open>What is held back of a pool, all principals together.\<close>

definition all_held_back :: "int \<Rightarrow> (string \<Rightarrow> nat) \<Rightarrow> (string \<times> admission_limits) list \<Rightarrow> int" where
  "all_held_back capacity act ps = sum_list (map (held_back capacity act) ps)"

lemma held_back_nonneg [simp]: "0 \<le> held_back c act p"
  by (simp add: held_back_def)

lemma all_held_back_other:
  "q \<notin> fst ` set ps \<Longrightarrow> all_held_back c (act(q := n)) ps = all_held_back c act ps"
  by (induction ps) (auto simp: all_held_back_def held_back_def)

lemma all_held_back_split:
  assumes "distinct (map fst ps)" and "map_of ps q = Some own"
  shows "all_held_back c act ps = held_back c act (q, own) + all_held_back c act (filter (\<lambda>p. fst p \<noteq> q) ps)"
  using assms
proof (induction ps)
  case (Cons p ps)
  show ?case
  proof (cases "fst p = q")
    case True
    then have "filter (\<lambda>p. fst p \<noteq> q) ps = ps" using Cons.prems(1) by (intro filter_True) (auto simp: image_iff)
    then show ?thesis using True Cons.prems(2) by (cases p) (simp add: all_held_back_def)
  next
    case False
    then show ?thesis using Cons by (cases p) (simp add: all_held_back_def)
  qed
qed simp

lemma all_held_back_update:
  assumes "distinct (map fst ps)" and "map_of ps q = Some own"
  shows "all_held_back c (act(q := n)) ps = all_held_back c act ps - held_back c act (q, own) + held_back c (act(q := n)) (q, own)"
proof -
  have "all_held_back c (act(q := n)) (filter (\<lambda>p. fst p \<noteq> q) ps) = all_held_back c act (filter (\<lambda>p. fst p \<noteq> q) ps)"
    by (rule all_held_back_other) auto
  then show ?thesis using all_held_back_split [OF assms, of c act] all_held_back_split [OF assms, of c "act(q := n)"] by simp
qed

lemma zero_reserved_dropped:
  "sum_list (map (held_back c act) (filter (\<lambda>p. fst p \<noteq> q \<and> reserved_of (snd p) \<noteq> 0) ps))
     = all_held_back c act (filter (\<lambda>p. fst p \<noteq> q) ps)"
  by (induction ps) (auto simp: all_held_back_def held_back_def)

lemma pool_admit:
  assumes "distinct (map fst ps)" and "map_of ps (aq_principalId req) = Some own"
    and "withinReservations ps req own c active (act (aq_principalId req)) act" and "all_held_back c act ps \<le> c - int active"
  shows "all_held_back c (act(aq_principalId req := act (aq_principalId req) + 1)) ps \<le> c - int (active + 1)"
proof -
  let ?q = "aq_principalId req"
  note u = all_held_back_update [OF assms(1,2), of c act "act ?q + 1"]
  show ?thesis
  proof (cases "int (act ?q) < min (reserved_of own) c")
    case True
    then show ?thesis using u assms(4) by (simp add: held_back_def)
  next
    case False
    then have "c - int active - all_held_back c act (filter (\<lambda>p. fst p \<noteq> ?q) ps) \<ge> 1"
      using assms(3) unfolding withinReservations_def Let_def if_not_P [OF False] zero_reserved_dropped by simp
    moreover have "held_back c act (?q, own) = 0" "held_back c (act(?q := act ?q + 1)) (?q, own) = 0"
      using False by (auto simp: held_back_def min_def)
    ultimately show ?thesis using u all_held_back_split [OF assms(1,2), of c act] by simp
  qed
qed

lemma pool_release:
  assumes "distinct (map fst ps)" and "all_held_back c act ps \<le> c - int active" and "0 < active"
  shows "all_held_back c (act(q := act q - 1)) ps \<le> c - int (active - 1)"
proof (cases "map_of ps q")
  case None
  then have "q \<notin> fst ` set ps" by (simp add: map_of_eq_None_iff)
  then show ?thesis using all_held_back_other [of q ps c act "act q - 1"] assms(2,3) by simp
next
  case (Some own)
  have "held_back c (act(q := act q - 1)) (q, own) \<le> held_back c act (q, own) + 1" by (auto simp: held_back_def)
  then show ?thesis using all_held_back_update [OF assms(1) Some, of c act "act q - 1"] assms(2,3) by (simp add: of_nat_diff)
qed

lemma pool_free:
  assumes "distinct (map fst ps)" and "map_of ps q = Some own" and "all_held_back c act ps \<le> c - int active"
    and "int (act q) < min (reserved_of own) c"
  shows "int active < c"
proof -
  have "0 \<le> all_held_back c act (filter (\<lambda>p. fst p \<noteq> q) ps)"
    unfolding all_held_back_def by (rule sum_list_nonneg) auto
  moreover have "1 \<le> held_back c act (q, own)" using assms(4) by (auto simp: held_back_def min_def)
  ultimately show ?thesis using all_held_back_split [OF assms(1,2), of c act] assms(3) by linarith
qed

text \<open>What a registered profile guarantees of its reservations.\<close>

definition reservations_fit ::
    "(string \<times> admission_limits) list \<Rightarrow> admission_limits \<Rightarrow> (string \<times> admission_limits) list \<Rightarrow> bool" where
  "reservations_fit ps ws vs \<longleftrightarrow>
     distinct (map fst ps) \<and> list_all (\<lambda>p. 0 \<le> reserved_of (snd p)) ps
     \<and> list_all (\<lambda>l. sum_list (map (reserved_of \<circ> snd) ps) \<le> lm_concurrency l) (ws # map snd vs)"

lemma all_held_back_new:
  "list_all (\<lambda>p. 0 \<le> reserved_of (snd p)) ps \<Longrightarrow> all_held_back c (\<lambda>_. 0) ps \<le> sum_list (map (reserved_of \<circ> snd) ps)"
  by (induction ps) (auto simp: all_held_back_def held_back_def)

lemma reserved_le_total:
  "list_all (\<lambda>p. 0 \<le> reserved_of (snd p)) ps \<Longrightarrow> map_of ps p = Some own \<Longrightarrow> reserved_of own \<le> sum_list (map (reserved_of \<circ> snd) ps)"
proof (induction ps)
  case (Cons x ps)
  have "0 \<le> sum_list (map (reserved_of \<circ> snd) ps)" using Cons.prems(1) by (intro sum_list_nonneg) (auto simp: list_all_iff)
  then show ?case using Cons by (cases x) (auto simp: comp_def split: if_splits)
qed simp

definition reservations_hold ::
    "(string \<times> admission_limits) list \<Rightarrow> admission_limits \<Rightarrow> (string \<times> admission_limits) list \<Rightarrow> string \<Rightarrow> admission_state \<Rightarrow> bool" where
  "reservations_hold ps ws vs wid st \<longleftrightarrow>
     leases_accounted st \<and> (\<forall>l \<in> set (ad_leases st). aq_workspaceId (le_request l) = wid)
     \<and> all_held_back (lm_concurrency ws) (ad_activePrincipal st) ps \<le> lm_concurrency ws - int (ad_activeWorkspace st wid)
     \<and> (\<forall>v b. map_of vs v = Some b \<longrightarrow>
          all_held_back (lm_concurrency b) (\<lambda>p. ad_activePrincipalProvider st (v, p)) ps \<le> lm_concurrency b - int (ad_activeProvider st v))"

lemma reservations_takes:
  assumes "reservations_hold ps ws vs wid st" and "distinct (map fst ps)" and "profile_env ps ws vs env"
    and "preflight env (wt_request w) u = None" and "\<not> pools_full env (the (ae_limits env (wt_request w))) (wt_request w) st"
    and "takes_permit (wt_request w) st st'" and "aq_workspaceId (wt_request w) = wid"
  shows "reservations_hold ps ws vs wid st'"
proof -
  let ?r = "wt_request w"
  note s = admitted_limits [OF assms(3,4)]
  have h: "leases_accounted st" "\<forall>l \<in> set (ad_leases st). aq_workspaceId (le_request l) = wid"
    "all_held_back (lm_concurrency ws) (ad_activePrincipal st) ps \<le> lm_concurrency ws - int (ad_activeWorkspace st wid)"
    "\<And>v b. map_of vs v = Some b \<Longrightarrow>
       all_held_back (lm_concurrency b) (\<lambda>p. ad_activePrincipalProvider st (v, p)) ps \<le> lm_concurrency b - int (ad_activeProvider st v)"
    using assms(1) by (simp_all add: reservations_hold_def)
  have ps: "principals_of env st = ps" using assms(3) by (simp add: profile_env_def principals_of_def)
  have r: "withinReservations ps ?r (sl_principal (the (ae_limits env ?r))) (lm_concurrency ws) (ad_activeWorkspace st wid)
      (ad_activePrincipal st (aq_principalId ?r)) (ad_activePrincipal st)"
    "withinReservations ps ?r (sl_principal (the (ae_limits env ?r))) (lm_concurrency (sl_provider (the (ae_limits env ?r))))
      (ad_activeProvider st (aq_providerId ?r)) (ad_activePrincipalProvider st (aq_providerId ?r, aq_principalId ?r))
      (\<lambda>p. ad_activePrincipalProvider st (aq_providerId ?r, p))"
    using assms(5,7) s(3) ps by (simp_all add: pools_full_def Let_def)
  have t: "ad_activePrincipal st' = (ad_activePrincipal st)(aq_principalId ?r := ad_activePrincipal st (aq_principalId ?r) + 1)"
    "ad_activeWorkspace st' wid = ad_activeWorkspace st wid + 1"
    "\<And>v. ad_activeProvider st' v = ad_activeProvider st v + (if v = aq_providerId ?r then 1 else 0)"
    "\<And>v p. ad_activePrincipalProvider st' (v, p) = ad_activePrincipalProvider st (v, p)
       + (if v = aq_providerId ?r \<and> p = aq_principalId ?r then 1 else 0)"
    using assms(6,7) by (auto simp: takes_permit_def count_in_def Let_def)
  have "all_held_back (lm_concurrency ws) (ad_activePrincipal st') ps \<le> lm_concurrency ws - int (ad_activeWorkspace st' wid)"
    using pool_admit [OF assms(2) s(2) r(1) h(3)] by (simp only: t)
  moreover have "all_held_back (lm_concurrency b) (\<lambda>p. ad_activePrincipalProvider st' (v, p)) ps
      \<le> lm_concurrency b - int (ad_activeProvider st' v)" if "map_of vs v = Some b" for v b
  proof (cases "v = aq_providerId ?r")
    case True
    then have b: "sl_provider (the (ae_limits env ?r)) = b" using s(4) that by simp
    have f: "(\<lambda>p. ad_activePrincipalProvider st' (v, p)) = (\<lambda>p. ad_activePrincipalProvider st (v, p))
        (aq_principalId ?r := ad_activePrincipalProvider st (v, aq_principalId ?r) + 1)"
      using True t(4) by (intro ext) simp
    show ?thesis
      using pool_admit [OF assms(2) s(2), of "lm_concurrency b" "ad_activeProvider st v" "\<lambda>p. ad_activePrincipalProvider st (v, p)"]
        r(2) h(4) [OF that] True unfolding f b by (simp add: t(3))
  next
    case False
    then show ?thesis using h(4) [OF that] t(3,4) by simp
  qed
  moreover have "\<forall>l \<in> set (ad_leases st'). aq_workspaceId (le_request l) = wid"
    using h(2) assms(6,7) by (auto simp: takes_permit_def)
  ultimately show ?thesis using accounted_takes [OF h(1) assms(6)] by (simp add: reservations_hold_def)
qed

lemma reservations_close:
  assumes "reservations_hold ps ws vs wid st" and "distinct (map fst ps)"
    and "distinct (map (\<lambda>l. aq_id (le_request l)) (ad_leases st))" and "l \<in> set (ad_leases st)" and "\<not> le_released l"
  shows "reservations_hold ps ws vs wid (update_lease (aq_id (le_request l)) (close_lease cs) (count_out (le_request l) st))"
    (is "reservations_hold ps ws vs wid ?u")
proof -
  let ?r = "le_request l"
  have h: "leases_accounted st" "\<forall>l \<in> set (ad_leases st). aq_workspaceId (le_request l) = wid"
    "all_held_back (lm_concurrency ws) (ad_activePrincipal st) ps \<le> lm_concurrency ws - int (ad_activeWorkspace st wid)"
    "\<And>v b. map_of vs v = Some b \<Longrightarrow>
       all_held_back (lm_concurrency b) (\<lambda>p. ad_activePrincipalProvider st (v, p)) ps \<le> lm_concurrency b - int (ad_activeProvider st v)"
    using assms(1) by (simp_all add: reservations_hold_def)
  have wid: "aq_workspaceId ?r = wid" using h(2) assms(4) by blast
  note c = holders_close [OF assms(3-5), of _ cs]
  have pos: "0 < ad_activeWorkspace st wid" "0 < ad_activeProvider st (aq_providerId ?r)"
    using h(1) c [of "\<lambda>r. aq_workspaceId r = wid"] c [of "\<lambda>r. aq_providerId r = aq_providerId ?r"] wid by (simp_all add: leases_accounted_def)
  have t: "ad_activePrincipal ?u = (ad_activePrincipal st)(aq_principalId ?r := ad_activePrincipal st (aq_principalId ?r) - 1)"
    "ad_activeWorkspace ?u wid = ad_activeWorkspace st wid - 1"
    "\<And>v. ad_activeProvider ?u v = ad_activeProvider st v - (if v = aq_providerId ?r then 1 else 0)"
    "\<And>v p. ad_activePrincipalProvider ?u (v, p) = ad_activePrincipalProvider st (v, p)
       - (if v = aq_providerId ?r \<and> p = aq_principalId ?r then 1 else 0)"
    using wid by (auto simp: update_lease_def count_out_def Let_def)
  have "all_held_back (lm_concurrency ws) (ad_activePrincipal ?u) ps \<le> lm_concurrency ws - int (ad_activeWorkspace ?u wid)"
    using pool_release [OF assms(2) h(3) pos(1)] by (simp only: t)
  moreover have "all_held_back (lm_concurrency b) (\<lambda>p. ad_activePrincipalProvider ?u (v, p)) ps
      \<le> lm_concurrency b - int (ad_activeProvider ?u v)" if "map_of vs v = Some b" for v b
  proof (cases "v = aq_providerId ?r")
    case True
    have f: "(\<lambda>p. ad_activePrincipalProvider ?u (v, p)) = (\<lambda>p. ad_activePrincipalProvider st (v, p))
        (aq_principalId ?r := ad_activePrincipalProvider st (v, aq_principalId ?r) - 1)"
      using True t(4) by (intro ext) simp
    show ?thesis
      using pool_release [OF assms(2) h(4) [OF that], of "aq_principalId ?r"] pos(2) True unfolding f by (simp add: t(3))
  next
    case False
    then show ?thesis using h(4) [OF that] t(3,4) by simp
  qed
  moreover have "\<forall>l \<in> set (ad_leases ?u). aq_workspaceId (le_request l) = wid"
    using h(2) by (auto simp: update_lease_def count_out_def Let_def)
  ultimately show ?thesis using accounted_close [OF h(1) assms(3-5)] by (simp add: reservations_hold_def)
qed

lemma reservations_new: "reservations_fit ps ws vs \<Longrightarrow> reservations_hold ps ws vs wid new_controller"
proof -
  assume f: "reservations_fit ps ws vs"
  have z: "all_held_back c (\<lambda>_. 0) ps \<le> sum_list (map (reserved_of \<circ> snd) ps)" for c
    using f all_held_back_new by (simp add: reservations_fit_def)
  have "sum_list (map (reserved_of \<circ> snd) ps) \<le> lm_concurrency b" if "map_of vs v = Some b" for v b
    using f map_of_SomeD [OF that] by (force simp: reservations_fit_def list_all_iff)
  moreover have "sum_list (map (reserved_of \<circ> snd) ps) \<le> lm_concurrency ws" using f by (simp add: reservations_fit_def)
  ultimately have "all_held_back (lm_concurrency ws) (\<lambda>_. 0) ps \<le> lm_concurrency ws"
    "map_of vs v = Some b \<Longrightarrow> all_held_back (lm_concurrency b) (\<lambda>_. 0) ps \<le> lm_concurrency b" for v b
    using z order_trans by blast+
  then show ?thesis using accounts.initial by (simp add: reservations_hold_def) (simp add: new_controller_def)
qed

interpretation reservations: run_invariant "profile_env ps ws vs" "\<lambda>r. aq_workspaceId r = wid" "\<lambda>_. True"
  "\<lambda>st. reservations_fit ps ws vs \<longrightarrow> reservations_hold ps ws vs wid st" for ps ws vs wid
proof
  show "reservations_fit ps ws vs \<longrightarrow> reservations_hold ps ws vs wid new_controller" using reservations_new by blast
  show "reservations_fit ps ws vs \<longrightarrow> reservations_hold ps ws vs wid st'"
    if "reservations_fit ps ws vs \<longrightarrow> reservations_hold ps ws vs wid st" "permits_kept st st'" for st st'
    using that(1) accounts.quiet_ok [OF TrueI _ that(2)] that(2) by (simp add: reservations_hold_def permits_kept_def)
  show "reservations_fit ps ws vs \<longrightarrow> reservations_hold ps ws vs wid st'"
    if "profile_env ps ws vs env" "reservations_fit ps ws vs \<longrightarrow> reservations_hold ps ws vs wid st" "aq_workspaceId (wt_request w) = wid"
      "preflight env (wt_request w) st = None" "tryAdmit env (the (ae_limits env (wt_request w))) w st = (None, st')" for env w st st'
    using tryAdmit_permits [OF that(5)] reservations_takes that by (metis reservations_fit_def)
  show "reservations_fit ps ws vs \<longrightarrow>
      reservations_hold ps ws vs wid (update_lease (aq_id (le_request l)) (close_lease cs) (count_out (le_request l) st))"
    if "reservations_fit ps ws vs \<longrightarrow> reservations_hold ps ws vs wid st" "distinct (map (\<lambda>l. aq_id (le_request l)) (ad_leases st))"
      "l \<in> set (ad_leases st)" "\<not> le_released l" for st l cs
    using reservations_close [OF _ _ that(2-4)] that(1) by (metis reservations_fit_def)
  show "reservations_fit ps ws vs \<longrightarrow> reservations_hold ps ws vs wid (releaseBudget b st)"
    if "reservations_fit ps ws vs \<longrightarrow> reservations_hold ps ws vs wid st" for b st
    using that accounts.budget_keeps [OF TrueI, of st b] by (simp add: reservations_hold_def) (simp add: releaseBudget_def Let_def)
qed

text \<open>C26: Reserved permits stay free. In every run of the controller of one workspace, with a profile that the
  registry accepts (its reservations fit every pool), a principal that holds fewer permits than its
  reservation finds a free permit in the workspace, and so it does at each provider with its permits
  there: whatever the others have been granted, they never take what is held back for it.\<close>

theorem reserved_permits_free:
  assumes "run_of (profile_env ps ws vs) (\<lambda>r. aq_workspaceId r = wid) (\<lambda>_. True) evs" and "admission_run evs new_controller = Some st"
    and "reservations_fit ps ws vs" and "map_of ps p = Some own" and "map_of vs v = Some b"
  shows "(int (holders (\<lambda>r. aq_principalId r = p) st) < reserved_of own
        \<longrightarrow> int (holders (\<lambda>r. aq_workspaceId r = wid) st) < lm_concurrency ws)
    \<and> (int (holders (\<lambda>r. aq_providerId r = v \<and> aq_principalId r = p) st) < reserved_of own
        \<longrightarrow> int (holders (\<lambda>r. aq_providerId r = v) st) < lm_concurrency b)"
proof -
  have h: "reservations_hold ps ws vs wid st" using reservations.run_from_new(1) [OF assms(1,2)] assms(3) by blast
  have d: "distinct (map fst ps)" using assms(3) by (simp add: reservations_fit_def)
  have f: "sum_list (map (reserved_of \<circ> snd) ps) \<le> lm_concurrency ws" "sum_list (map (reserved_of \<circ> snd) ps) \<le> lm_concurrency b"
    "list_all (\<lambda>p. 0 \<le> reserved_of (snd p)) ps"
    using assms(3) map_of_SomeD [OF assms(5)] by (force simp: reservations_fit_def list_all_iff)+
  have c: "reserved_of own \<le> lm_concurrency ws" "reserved_of own \<le> lm_concurrency b"
    using reserved_le_total [OF f(3) assms(4)] f(1,2) by linarith+
  have a: "ad_activePrincipal st p = holders (\<lambda>r. aq_principalId r = p) st"
    "ad_activeWorkspace st wid = holders (\<lambda>r. aq_workspaceId r = wid) st" "ad_activeProvider st v = holders (\<lambda>r. aq_providerId r = v) st"
    "ad_activePrincipalProvider st (v, p) = holders (\<lambda>r. aq_providerId r = v \<and> aq_principalId r = p) st"
    using h by (simp_all add: reservations_hold_def leases_accounted_def)
  have w: "all_held_back (lm_concurrency ws) (ad_activePrincipal st) ps \<le> lm_concurrency ws - int (ad_activeWorkspace st wid)"
    "all_held_back (lm_concurrency b) (\<lambda>p. ad_activePrincipalProvider st (v, p)) ps \<le> lm_concurrency b - int (ad_activeProvider st v)"
    using h assms(5) unfolding reservations_hold_def by blast+
  show ?thesis using pool_free [OF d assms(4) w(1)] pool_free [OF d assms(4) w(2)] c unfolding a by simp
qed

end
