(* ===== verification/AdmissionBudgets.thy ===== *)
theory AdmissionBudgets
  imports AdmissionGuarantees
begin

text \<open>
  The budgets of the admission controller: what an invocation has been charged for a scope is what its
  admitted requests have asked for, and stays within the limits of the scope.
\<close>

section \<open>Charges\<close>

text \<open>The limits of a scope key.\<close>

definition key_limits ::
    "(string \<times> admission_limits) list \<Rightarrow> admission_limits \<Rightarrow> (string \<times> admission_limits) list \<Rightarrow> string \<Rightarrow> admission_limits option" where
  "key_limits ps ws vs key =
     (if take 2 key = ''p:'' then map_of ps (drop 2 key) else if take 2 key = ''w:'' then Some ws
      else if take 2 key = ''v:'' then map_of vs (drop 2 key) else None)"

definition charged_to :: "string \<Rightarrow> string \<Rightarrow> admission_request \<Rightarrow> bool" where
  "charged_to budgetId key req \<longleftrightarrow> aq_budgetId req = budgetId
     \<and> key \<in> {''p:'' @ aq_principalId req, ''w:'' @ aq_workspaceId req, ''v:'' @ aq_providerId req}"

definition total_charged :: "(admission_request \<Rightarrow> int) \<Rightarrow> string \<Rightarrow> string \<Rightarrow> admission_lease list \<Rightarrow> int" where
  "total_charged f budgetId key ls = sum_list (map (\<lambda>l. if charged_to budgetId key (le_request l) then f (le_request l) else 0) ls)"

definition no_colon :: "string \<Rightarrow> bool" where
  "no_colon s \<longleftrightarrow> CHR '':'' \<notin> set s"

lemma budget_key_inj:
  assumes "no_colon (aq_budgetId req)" and "no_colon b"
  shows "budget_key req key = b @ '':'' @ key' \<longleftrightarrow> aq_budgetId req = b \<and> key = key'"
proof -
  have "takeWhile (\<lambda>c. c \<noteq> CHR '':'') (s @ '':'' @ k) = s" if "no_colon s" for s k
    using that by (induction s) (auto simp: no_colon_def)
  then show ?thesis using assms unfolding budget_key_def by (metis append_same_eq same_append_eq)
qed

lemma scope_keys_distinct: "distinct (map fst (scope_keys s req))"
  by (simp add: scope_keys_def)

lemma scope_keys_charged: "aq_budgetId req = b \<Longrightarrow> charged_to b key req \<longleftrightarrow> key \<in> fst ` set (scope_keys s req)"
  by (auto simp: charged_to_def scope_keys_def)

text \<open>The cost is a floating-point sum: each addition is rounded.\<close>

definition next_cost :: "(rat \<Rightarrow> rat) \<Rightarrow> admission_request \<Rightarrow> rat \<Rightarrow> rat" where
  "next_cost rnd req spent = (case ce_costUsd (aq_estimate req) of None \<Rightarrow> spent | Some c \<Rightarrow> rnd (spent + to_rat c))"

definition total_cost :: "(rat \<Rightarrow> rat) \<Rightarrow> string \<Rightarrow> string \<Rightarrow> admission_lease list \<Rightarrow> rat" where
  "total_cost rnd budgetId key ls =
     foldl (\<lambda>spent l. if charged_to budgetId key (le_request l) then next_cost rnd (le_request l) spent else spent) 0 ls"

lemma charge_key_fields:
  "ad_attempts (charge_key env req kl st) k
     = ad_attempts st k + (if k = budget_key req (fst kl) then call_attempts req else 0)"
  "ad_tokensReserved (charge_key env req kl st) k
     = ad_tokensReserved st k + (if k = budget_key req (fst kl) then call_tokens req else 0)"
  "ad_costSpent (charge_key env req kl st) k
     = (if k = budget_key req (fst kl) then next_cost (ae_round env) req (ad_costSpent st k) else ad_costSpent st k)"
  by (simp_all add: charge_key_def next_cost_def fadd_def call_tokens_def count_of_def Let_def split: option.split)

lemma charge_keys_other:
  "k \<notin> budget_key req ` fst ` set keys \<Longrightarrow>
     ad_attempts (fold (charge_key env req) keys st) k = ad_attempts st k
     \<and> ad_tokensReserved (fold (charge_key env req) keys st) k = ad_tokensReserved st k
     \<and> ad_costSpent (fold (charge_key env req) keys st) k = ad_costSpent st k"
  by (induction keys arbitrary: st) (simp_all add: charge_key_fields)

lemma charge_keys_of:
  assumes "distinct (map fst keys)" and "key \<in> fst ` set keys"
  shows "ad_attempts (fold (charge_key env req) keys st) (budget_key req key) = ad_attempts st (budget_key req key) + call_attempts req
    \<and> ad_tokensReserved (fold (charge_key env req) keys st) (budget_key req key) = ad_tokensReserved st (budget_key req key) + call_tokens req
    \<and> ad_costSpent (fold (charge_key env req) keys st) (budget_key req key) = next_cost (ae_round env) req (ad_costSpent st (budget_key req key))"
  using assms
proof (induction keys arbitrary: st)
  case (Cons kl keys)
  have inj: "budget_key req a = budget_key req b \<longleftrightarrow> a = b" for a b by (simp add: budget_key_def)
  show ?case
  proof (cases "fst kl = key")
    case True
    then have "budget_key req key \<notin> budget_key req ` fst ` set keys" using Cons.prems(1) inj by auto
    from charge_keys_other [OF this, of env "charge_key env req kl st"] show ?thesis using True by (simp add: charge_key_fields)
  next
    case False
    then have "key \<in> fst ` set keys" using Cons.prems(2) by auto
    from Cons.IH [OF _ this, of "charge_key env req kl st"] show ?thesis using False Cons.prems(1) inj by (simp add: charge_key_fields)
  qed
qed simp

lemma key_checks_budgets:
  assumes "key_checks env req keys st = (Inr None, st')" and "(key, l) \<in> set keys"
  shows "budget_checks env req key l st = Inr ()"
  using assms
proof (induction env req keys st arbitrary: st' rule: key_checks.induct)
  case (2 env req k m keys st)
  obtain b1 st1 where b1: "request_bucket_check env k m st = (b1, st1)" by fastforce
  obtain b2 st2 where b2: "token_bucket_check env req k m st1 = (b2, st2)" by fastforce
  have t: "budget_checks env req k m st = Inr ()" "b1" "b2" "key_checks env req keys st2 = (Inr None, st')"
    using 2(2) b1 b2 by (auto split: sum.splits bool.splits)
  have "permits_kept st st2" using bucket_checks_quiet b1 b2 quiet_trans by blast
  then have "budget_checks env req key l st2 = budget_checks env req key l st" by (simp add: budget_checks_def permits_kept_def)
  then show ?case using 2 t b1 b2 by (cases "(key, l) = (k, m)") auto
qed simp

section \<open>Invariant\<close>

text \<open>For one budget: its counters are the totals of its admitted requests, and within the limits.\<close>

definition within_budgets ::
    "(string \<times> admission_limits) list \<Rightarrow> admission_limits \<Rightarrow> (string \<times> admission_limits) list \<Rightarrow> (rat \<Rightarrow> rat) \<Rightarrow> string \<Rightarrow> admission_state \<Rightarrow> bool" where
  "within_budgets ps ws vs rnd b st \<longleftrightarrow>
     (\<forall>key.
        ad_attempts st (b @ '':'' @ key) = total_charged call_attempts b key (ad_leases st)
        \<and> ad_tokensReserved st (b @ '':'' @ key) = total_charged call_tokens b key (ad_leases st)
        \<and> ad_costSpent st (b @ '':'' @ key) = total_cost rnd b key (ad_leases st)
        \<and> (\<forall>l. key_limits ps ws vs key = Some l \<longrightarrow>
             (\<forall>m. lm_maxAttempts l = Some m \<longrightarrow> of_int (ad_attempts st (b @ '':'' @ key)) \<le> max 0 m)
             \<and> (\<forall>m. lm_maxTokens l = Some m \<longrightarrow> of_int (ad_tokensReserved st (b @ '':'' @ key)) \<le> max 0 m)
             \<and> (\<forall>m. lm_maxCostUsd l = Some m \<longrightarrow> ad_costSpent st (b @ '':'' @ key) \<le> max 0 m)))"

text \<open>Releasing another budget leaves the counters of this one.\<close>

lemma other_budget_key:
  assumes "no_colon b" and "no_colon b'" and "b' \<noteq> b"
  shows "\<not> prefix (b' @ '':'') (b @ '':'' @ key)"
proof
  assume "prefix (b' @ '':'') (b @ '':'' @ key)"
  then obtain rest where r: "b @ '':'' @ key = b' @ '':'' @ rest" by (auto simp: prefix_def)
  have "takeWhile (\<lambda>c. c \<noteq> CHR '':'') (s @ '':'' @ k) = s" if "no_colon s" for s k
    using that by (induction s) (auto simp: no_colon_def)
  then show False using r assms by metis
qed

lemma releaseBudget_counters:
  "\<not> prefix (b' @ '':'') k \<Longrightarrow> ad_attempts (releaseBudget b' st) k = ad_attempts st k"
  "\<not> prefix (b' @ '':'') k \<Longrightarrow> ad_tokensReserved (releaseBudget b' st) k = ad_tokensReserved st k"
  "\<not> prefix (b' @ '':'') k \<Longrightarrow> ad_costSpent (releaseBudget b' st) k = ad_costSpent st k"
  "ad_leases (releaseBudget b' st) = ad_leases st"
  by (simp_all add: releaseBudget_def Let_def)

lemma scope_key_limits:
  assumes "profile_env ps ws vs env" and "preflight env req st = None" and "(key, l) \<in> set (scope_keys (the (ae_limits env req)) req)"
  shows "key_limits ps ws vs key = Some l"
  using assms(3) admitted_limits [OF assms(1,2)] by (auto simp: scope_keys_def key_limits_def)

lemma total_cost_snoc:
  "total_cost rnd b key (ls @ [l]) =
     (if charged_to b key (le_request l) then next_cost rnd (le_request l) (total_cost rnd b key ls) else total_cost rnd b key ls)"
  by (simp add: total_cost_def)

lemma total_charged_snoc:
  "total_charged f b key (ls @ [l]) = total_charged f b key ls + (if charged_to b key (le_request l) then f (le_request l) else 0)"
  by (simp add: total_charged_def)

lemma tryAdmit_budgets:
  assumes "tryAdmit env s w st = (None, st')"
  obtains l where "ad_leases st' = ad_leases st @ [l]" "le_request l = wt_request w"
    "\<And>k. k \<notin> budget_key (wt_request w) ` fst ` set (scope_keys s (wt_request w)) \<Longrightarrow>
      ad_attempts st' k = ad_attempts st k \<and> ad_tokensReserved st' k = ad_tokensReserved st k \<and> ad_costSpent st' k = ad_costSpent st k"
    "\<And>key lim. (key, lim) \<in> set (scope_keys s (wt_request w)) \<Longrightarrow>
      budget_checks env (wt_request w) key lim st = Inr ()
      \<and> ad_attempts st' (budget_key (wt_request w) key) = ad_attempts st (budget_key (wt_request w) key) + call_attempts (wt_request w)
      \<and> ad_tokensReserved st' (budget_key (wt_request w) key) = ad_tokensReserved st (budget_key (wt_request w) key) + call_tokens (wt_request w)
      \<and> ad_costSpent st' (budget_key (wt_request w) key) = next_cost (ae_round env) (wt_request w) (ad_costSpent st (budget_key (wt_request w) key))"
  using assms
proof (cases rule: tryAdmit_cases)
  case (admitted st1 st2 cs)
  let ?r = "wt_request w" and ?k = "scope_keys s (wt_request w)"
  obtain l where l: "ad_leases st' = ad_leases st @ [l]" "le_request l = ?r"
    using tryAdmit_permits [OF assms] by (auto simp: takes_permit_def)
  have q: "ad_attempts st2 = ad_attempts st" "ad_tokensReserved st2 = ad_tokensReserved st" "ad_costSpent st2 = ad_costSpent st"
    using admitted(5) by (simp_all add: permits_kept_def)
  have f: "ad_attempts st' = ad_attempts (fold (charge_key env ?r) ?k st2)"
    "ad_tokensReserved st' = ad_tokensReserved (fold (charge_key env ?r) ?k st2)"
    "ad_costSpent st' = ad_costSpent (fold (charge_key env ?r) ?k st2)"
    by (simp_all add: admitted(6) hand_out_def take_permit_def count_half_open_def drop_holder_def count_in_def Let_def)
  have c: "budget_checks env ?r key lim st = Inr ()" if "(key, lim) \<in> set ?k" for key lim
  proof -
    have "permits_kept st st1" using breaker_check_quiet [OF admitted(3)] .
    then have "budget_checks env ?r key lim st1 = budget_checks env ?r key lim st" by (simp add: budget_checks_def permits_kept_def)
    then show ?thesis using key_checks_budgets [OF admitted(4) that] by simp
  qed
  show thesis
  proof (rule that [OF l])
    show "ad_attempts st' k = ad_attempts st k \<and> ad_tokensReserved st' k = ad_tokensReserved st k \<and> ad_costSpent st' k = ad_costSpent st k"
      if "k \<notin> budget_key ?r ` fst ` set ?k" for k
      using charge_keys_other [OF that, of env st2] by (simp only: f q)
    show "budget_checks env ?r key lim st = Inr ()
      \<and> ad_attempts st' (budget_key ?r key) = ad_attempts st (budget_key ?r key) + call_attempts ?r
      \<and> ad_tokensReserved st' (budget_key ?r key) = ad_tokensReserved st (budget_key ?r key) + call_tokens ?r
      \<and> ad_costSpent st' (budget_key ?r key) = next_cost (ae_round env) ?r (ad_costSpent st (budget_key ?r key))"
      if "(key, lim) \<in> set ?k" for key lim
    proof -
      have "key \<in> fst ` set ?k" using that by force
      from charge_keys_of [OF scope_keys_distinct this, of env ?r st2] show ?thesis using c [OF that] by (simp only: f q simp_thms)
    qed
  qed
qed simp

lemma next_cost_within:
  "lm_maxCostUsd l = Some m \<Longrightarrow> budget_checks env req key l st = Inr () \<Longrightarrow> ad_costSpent st (budget_key req key) \<le> max 0 m \<Longrightarrow>
     next_cost (ae_round env) req (ad_costSpent st (budget_key req key)) \<le> max 0 m"
  by (auto simp: next_cost_def fadd_def budget_checks_def split: option.split if_splits)

lemma budgets_takes:
  assumes b: "within_budgets ps ws vs (ae_round env) b st" and nc: "no_colon b"
    and e: "profile_env ps ws vs env" and c: "no_colon (aq_budgetId (wt_request w))"
    and p: "preflight env (wt_request w) u = None"
    and t: "tryAdmit env (the (ae_limits env (wt_request w))) w st = (None, st')"
  shows "within_budgets ps ws vs (ae_round env) b st'"
proof -
  let ?r = "wt_request w" and ?keys = "scope_keys (the (ae_limits env (wt_request w))) (wt_request w)"
  obtain l where l: "ad_leases st' = ad_leases st @ [l]" "le_request l = ?r"
    and other: "\<And>k. k \<notin> budget_key ?r ` fst ` set ?keys \<Longrightarrow>
      ad_attempts st' k = ad_attempts st k \<and> ad_tokensReserved st' k = ad_tokensReserved st k \<and> ad_costSpent st' k = ad_costSpent st k"
    and own: "\<And>key lim. (key, lim) \<in> set ?keys \<Longrightarrow> budget_checks env ?r key lim st = Inr ()
      \<and> ad_attempts st' (budget_key ?r key) = ad_attempts st (budget_key ?r key) + call_attempts ?r
      \<and> ad_tokensReserved st' (budget_key ?r key) = ad_tokensReserved st (budget_key ?r key) + call_tokens ?r
      \<and> ad_costSpent st' (budget_key ?r key) = next_cost (ae_round env) ?r (ad_costSpent st (budget_key ?r key))"
    using tryAdmit_budgets [OF t] by metis
  have old: "ad_attempts st (b @ '':'' @ key) = total_charged call_attempts b key (ad_leases st)"
    "ad_tokensReserved st (b @ '':'' @ key) = total_charged call_tokens b key (ad_leases st)"
    "ad_costSpent st (b @ '':'' @ key) = total_cost (ae_round env) b key (ad_leases st)"
    "key_limits ps ws vs key = Some lim \<Longrightarrow> lm_maxAttempts lim = Some m \<Longrightarrow> of_int (ad_attempts st (b @ '':'' @ key)) \<le> max 0 m"
    "key_limits ps ws vs key = Some lim \<Longrightarrow> lm_maxTokens lim = Some m \<Longrightarrow> of_int (ad_tokensReserved st (b @ '':'' @ key)) \<le> max 0 m"
    "key_limits ps ws vs key = Some lim \<Longrightarrow> lm_maxCostUsd lim = Some m \<Longrightarrow> ad_costSpent st (b @ '':'' @ key) \<le> max 0 m"
    for key lim m
    using assms(1) unfolding within_budgets_def by blast+
  have new: "ad_attempts st' (b @ '':'' @ key) = total_charged call_attempts b key (ad_leases st')
      \<and> ad_tokensReserved st' (b @ '':'' @ key) = total_charged call_tokens b key (ad_leases st')
      \<and> ad_costSpent st' (b @ '':'' @ key) = total_cost (ae_round env) b key (ad_leases st')
      \<and> (\<forall>lim. key_limits ps ws vs key = Some lim \<longrightarrow>
           (\<forall>m. lm_maxAttempts lim = Some m \<longrightarrow> of_int (ad_attempts st' (b @ '':'' @ key)) \<le> max 0 m)
           \<and> (\<forall>m. lm_maxTokens lim = Some m \<longrightarrow> of_int (ad_tokensReserved st' (b @ '':'' @ key)) \<le> max 0 m)
           \<and> (\<forall>m. lm_maxCostUsd lim = Some m \<longrightarrow> ad_costSpent st' (b @ '':'' @ key) \<le> max 0 m))"
    for key
  proof (cases "charged_to b key ?r")
    case True
    then have bid: "aq_budgetId ?r = b" by (simp add: charged_to_def)
    then have "key \<in> fst ` set ?keys" using True scope_keys_charged by blast
    then obtain lim where lim: "(key, lim) \<in> set ?keys" by auto
    have bk: "budget_key ?r key = b @ '':'' @ key" using bid by (simp add: budget_key_def)
    note o = own [OF lim, unfolded bk]
    have kl: "key_limits ps ws vs key = Some lim" by (rule scope_key_limits [OF e p lim])
    have "of_int (ad_attempts st (b @ '':'' @ key) + call_attempts ?r) \<le> m" if "lm_maxAttempts lim = Some m" for m
      using o that bk by (simp add: budget_checks_def split: if_splits)
    moreover have "of_int (ad_tokensReserved st (b @ '':'' @ key) + call_tokens ?r) \<le> m" if "lm_maxTokens lim = Some m" for m
      using o that bk by (simp add: budget_checks_def split: if_splits)
    moreover have "next_cost (ae_round env) ?r (ad_costSpent st (b @ '':'' @ key)) \<le> max 0 m" if "lm_maxCostUsd lim = Some m" for m
      using next_cost_within [OF that, of env ?r key st] o old(6) [OF kl that] by (simp only: bk simp_thms)
    ultimately show ?thesis using o old(1-3) [of key] True kl l
      by (auto simp: total_charged_snoc total_cost_snoc max.coboundedI2)
  next
    case False
    have "b @ '':'' @ key \<notin> budget_key ?r ` fst ` set ?keys"
    proof
      assume "b @ '':'' @ key \<in> budget_key ?r ` fst ` set ?keys"
      then obtain key' where k: "key' \<in> fst ` set ?keys" "budget_key ?r key' = b @ '':'' @ key" by (metis imageE)
      then have "aq_budgetId ?r = b" "key' = key" using budget_key_inj [OF c nc] by blast+
      then show False using False k(1) scope_keys_charged by blast
    qed
    then show ?thesis using other old [of key] False l by (simp add: total_charged_snoc total_cost_snoc)
  qed
  then show ?thesis unfolding within_budgets_def by blast
qed

interpretation budgets: run_invariant "\<lambda>env. profile_env ps ws vs env \<and> ae_round env = rnd"
    "\<lambda>r. no_colon (aq_budgetId r)" "\<lambda>b'. no_colon b' \<and> b' \<noteq> b" "\<lambda>st. no_colon b \<longrightarrow> within_budgets ps ws vs rnd b st"
  for ps ws vs rnd b
proof
  show "no_colon b \<longrightarrow> within_budgets ps ws vs rnd b new_controller"
    by (simp add: within_budgets_def new_controller_def total_charged_def total_cost_def)
  show "no_colon b \<longrightarrow> within_budgets ps ws vs rnd b st'"
    if "no_colon b \<longrightarrow> within_budgets ps ws vs rnd b st" "permits_kept st st'" for st st'
  proof -
    have "ad_attempts st' = ad_attempts st" "ad_tokensReserved st' = ad_tokensReserved st" "ad_costSpent st' = ad_costSpent st"
      "ad_leases st' = ad_leases st"
      using that(2) by (simp_all add: permits_kept_def)
    then show ?thesis using that(1) by (simp only: within_budgets_def)
  qed
  show "no_colon b \<longrightarrow> within_budgets ps ws vs rnd b st'"
    if "profile_env ps ws vs env \<and> ae_round env = rnd" "no_colon b \<longrightarrow> within_budgets ps ws vs rnd b st"
      "no_colon (aq_budgetId (wt_request w))" "preflight env (wt_request w) st = None"
      "tryAdmit env (the (ae_limits env (wt_request w))) w st = (None, st')" for env w st st'
    using budgets_takes that by blast
  show "no_colon b \<longrightarrow> within_budgets ps ws vs rnd b (update_lease (aq_id (le_request l)) (close_lease cs) (count_out (le_request l) st))"
    if "no_colon b \<longrightarrow> within_budgets ps ws vs rnd b st" for st l cs
  proof -
    have "total_charged f b key (map (\<lambda>x. if aq_id (le_request x) = i then close_lease cs x else x) ls) = total_charged f b key ls"
      for f key i ls
      by (induction ls) (simp_all add: total_charged_def)
    moreover have "total_cost rnd b key (map (\<lambda>x. if aq_id (le_request x) = i then close_lease cs x else x) ls) = total_cost rnd b key ls"
      for key i ls
      by (induction ls rule: rev_induct) (simp_all add: total_cost_def)
    ultimately have "total_charged f b key (ad_leases (update_lease i (close_lease cs) (count_out r st))) = total_charged f b key (ad_leases st)"
      "total_cost rnd b key (ad_leases (update_lease i (close_lease cs) (count_out r st))) = total_cost rnd b key (ad_leases st)"
      for f key i r
      by (simp_all add: update_lease_def count_out_def Let_def)
    moreover have "ad_attempts (update_lease i g (count_out r st)) = ad_attempts st"
      "ad_tokensReserved (update_lease i g (count_out r st)) = ad_tokensReserved st"
      "ad_costSpent (update_lease i g (count_out r st)) = ad_costSpent st" for i g r
      by (simp_all add: update_lease_def count_out_def Let_def)
    ultimately show ?thesis using that by (simp only: within_budgets_def)
  qed
  show "no_colon b \<longrightarrow> within_budgets ps ws vs rnd b (releaseBudget b' st)"
    if "no_colon b' \<and> b' \<noteq> b" "no_colon b \<longrightarrow> within_budgets ps ws vs rnd b st" for b' st
  proof
    assume nc: "no_colon b"
    have "\<not> prefix (b' @ '':'') (b @ '':'' @ key)" for key using other_budget_key [OF nc] that(1) by blast
    then have eq: "ad_attempts (releaseBudget b' st) (b @ '':'' @ key) = ad_attempts st (b @ '':'' @ key)"
      "ad_tokensReserved (releaseBudget b' st) (b @ '':'' @ key) = ad_tokensReserved st (b @ '':'' @ key)"
      "ad_costSpent (releaseBudget b' st) (b @ '':'' @ key) = ad_costSpent st (b @ '':'' @ key)"
      "ad_leases (releaseBudget b' st) = ad_leases st" for key
      using releaseBudget_counters by blast+
    from that(2) nc have "within_budgets ps ws vs rnd b st" by blast
    then show "within_budgets ps ws vs rnd b (releaseBudget b' st)" unfolding within_budgets_def eq .
  qed
qed

text \<open>C29: Budgets are kept. In every run with the limits of one profile and one rounding of floating-point
  results, let the budget of an invocation not be released, while other budgets may be (budget ids
  contain no colon). Then what its admitted requests, released or not, add up to for a principal, a
  workspace or a provider stays within the maximum of that scope: the attempts and the tokens, and
  the cost, added in the order of the admissions with every addition rounded; and these totals are
  what the counters of the controller hold.\<close>

theorem budgets_kept:
  assumes "run_of (\<lambda>env. profile_env ps ws vs env \<and> ae_round env = rnd) (\<lambda>r. no_colon (aq_budgetId r)) (\<lambda>b'. no_colon b' \<and> b' \<noteq> b) evs"
    and "admission_run evs new_controller = Some st" and "no_colon b" and "key_limits ps ws vs key = Some l"
  shows "(lm_maxAttempts l = Some m \<longrightarrow> of_int (total_charged call_attempts b key (ad_leases st)) \<le> max 0 m)
    \<and> (lm_maxTokens l = Some m \<longrightarrow> of_int (total_charged call_tokens b key (ad_leases st)) \<le> max 0 m)
    \<and> (lm_maxCostUsd l = Some m \<longrightarrow> total_cost rnd b key (ad_leases st) \<le> max 0 m)
    \<and> ad_attempts st (b @ '':'' @ key) = total_charged call_attempts b key (ad_leases st)
    \<and> ad_tokensReserved st (b @ '':'' @ key) = total_charged call_tokens b key (ad_leases st)
    \<and> ad_costSpent st (b @ '':'' @ key) = total_cost rnd b key (ad_leases st)"
proof -
  have "within_budgets ps ws vs rnd b st" using budgets.run_from_new(1) [OF assms(1,2)] assms(3) by blast
  then show ?thesis using assms(4) unfolding within_budgets_def by metis
qed

end
