(* ===== verification/AdmissionProgress.thy ===== *)
theory AdmissionProgress
  imports AdmissionInvariant
begin

text \<open>
  Progress of the admission queues: no request is lost or settled twice, a timer runs while somebody
  waits, and whoever is at the head of a lane after a pump may still wait and is looked at again
  before its deadline has passed by more than the smallest delay.
\<close>

section \<open>Lanes stay distinct\<close>

text \<open>What no turn adds: a lane with somebody in it.\<close>

lemma open_lanes_update:
  "map_of qs lane = Some (w # rest) \<Longrightarrow> set (map fst (filter (\<lambda>lq. snd lq \<noteq> []) (AList.update lane rest qs)))
     \<subseteq> set (map fst (filter (\<lambda>lq. snd lq \<noteq> []) qs))"
  by (induction qs) (auto split: if_splits)

definition pumping :: "admission_state \<Rightarrow> admission_state \<Rightarrow> bool" where
  "pumping st st' \<longleftrightarrow> (distinct (map fst (ad_queues st)) \<longrightarrow> distinct (map fst (ad_queues st')))
     \<and> ad_timer st' = ad_timer st \<and> set (open_lanes st') \<subseteq> set (open_lanes st)"

lemma pumping_trans: "pumping st u \<Longrightarrow> pumping u st' \<Longrightarrow> pumping st st'"
  by (auto simp: pumping_def)

lemma pump_lane_pumping: "pumping (fst acc) (fst (pump_lane env lanes offset acc))"
proof -
  obtain st progressed nearest where acc: "acc = (st, progressed, nearest)" using prod_cases3 by blast
  obtain st' p n where l: "pump_lane env lanes offset (st, progressed, nearest) = (st', p, n)" using prod_cases3 by blast
  have s: "pumping st u" if "lane_queue lane st = w # rest" "ad_queues u = AList.update lane rest (ad_queues st)" "ad_timer u = ad_timer st"
    for lane w rest u
    using open_lanes_update [OF lane_queue_map [OF that(1)]] that(2,3) by (simp add: pumping_def open_lanes_def distinct_update)
  have t: "ad_timer (drop_head lane w rest u) = ad_timer u" "ad_timer (expire_head env w u) = ad_timer u" "ad_timer (refuse req e u) = ad_timer u"
    for lane w rest u req e
    by (simp_all add: drop_head_def drop_holder_def set_lane_def expire_head_def refuse_def)
  have "pumping st st'"
    using l
  proof (cases rule: pump_lane_cases)
    case (expired w rest)
    then show ?thesis by (intro s [OF expired(1)]) (simp_all add: t)
  next
    case (deferred w rest e)
    then show ?thesis using admit_waiter_queues [OF deferred(3)] by (simp add: same_queues_def pumping_def open_lanes_def)
  next
    case (rejected w rest e u)
    then show ?thesis using admit_waiter_queues [OF rejected(3)] by (intro s [OF rejected(1)]) (simp_all add: t same_queues_def)
  next
    case (admitted w rest u c)
    then show ?thesis using admit_waiter_queues [OF admitted(3)] by (intro s [OF admitted(1)]) (simp_all add: t same_queues_def)
  qed (simp add: pumping_def)
  then show ?thesis using l acc by simp
qed

lemma pump_fold_pumping: "pumping (fst acc) (fst (fold (pump_lane env lanes) offsets acc))"
proof (induction offsets arbitrary: acc)
  case (Cons offset offsets)
  show ?case using pump_lane_pumping [of acc env lanes offset] Cons.IH [of "pump_lane env lanes offset acc"] pumping_trans by simp
qed (simp add: pumping_def)

section \<open>The last pass\<close>

definition opt_le :: "rat option \<Rightarrow> rat \<Rightarrow> bool" where
  "opt_le n x \<longleftrightarrow> (case n of None \<Rightarrow> False | Some y \<Rightarrow> y \<le> x)"

lemma opt_le_min: "opt_le a x \<or> opt_le b x \<Longrightarrow> opt_le (min_opt a b) x"
  by (auto simp: opt_le_def min_opt_def min_le_iff_disj split: option.splits)

text \<open>A head that may go on waiting, and the delay after which it is looked at again.\<close>

definition head_waits :: "admission_env \<Rightarrow> rat option \<Rightarrow> admission_waiter \<Rightarrow> bool" where
  "head_waits env nearest w \<longleftrightarrow>
     \<not> waiter_expired env w \<and> opt_le nearest (max 1 (fsub env (aq_deadline (wt_request w)) (ae_now env)))"

lemma head_waits_sooner: "head_waits env n w \<Longrightarrow> head_waits env (min_opt n m) w"
  by (simp add: head_waits_def opt_le_min)

lemma min_opt_None [simp]: "min_opt m None = m"
  by (cases m) (simp_all add: min_opt_def)

lemma pump_lane_idle:
  assumes "pump_lane env lanes offset (st, p, m) = (st', False, n)"
  shows "p = False \<and> ad_queues st' = ad_queues st \<and> ad_laneCursor st' = ad_laneCursor st \<and> (\<exists>x. n = min_opt m x)
    \<and> (\<forall>w rest. lane_queue (lanes ! lane_at lanes offset st) st = w # rest \<longrightarrow> head_waits env n w)"
  using assms
proof (cases rule: pump_lane_cases)
  case empty
  then show ?thesis by (auto intro: exI [of _ None])
next
  case (deferred w rest e)
  have "opt_le (retry_delay env w e) (max 1 (fsub env (aq_deadline (wt_request w)) (ae_now env)))"
    unfolding retry_delay_def by (intro opt_le_min disjI2 disjI1) (simp add: opt_le_def)
  then have "head_waits env n w" using deferred(2) by (simp add: head_waits_def deferred(6) opt_le_min)
  then show ?thesis using deferred(1,5,6) admit_waiter_queues [OF deferred(3)] by (auto simp: same_queues_def)
qed simp_all

lemma min_opt_assoc: "min_opt (min_opt a b) c = min_opt a (min_opt b c)"
  by (auto simp: min_opt_def min.assoc split: option.split)

lemma pump_fold_idle:
  assumes "fold (pump_lane env lanes) offsets (st, p, m) = (st', False, n)"
  shows "p = False \<and> ad_queues st' = ad_queues st \<and> ad_laneCursor st' = ad_laneCursor st \<and> (\<exists>x. n = min_opt m x)
    \<and> (\<forall>offset \<in> set offsets. \<forall>w rest.
        lane_queue (lanes ! lane_at lanes offset st) st = w # rest \<longrightarrow> head_waits env n w)"
  using assms
proof (induction offsets arbitrary: st p m)
  case Nil
  then show ?case by (auto intro: exI [of _ None])
next
  case (Cons offset offsets)
  obtain u q k where u: "pump_lane env lanes offset (st, p, m) = (u, q, k)" using prod_cases3 by blast
  then have ih: "q = False" "ad_queues st' = ad_queues u" "ad_laneCursor st' = ad_laneCursor u" "\<exists>x. n = min_opt k x"
    "\<And>i w rest. i \<in> set offsets \<Longrightarrow> lane_queue (lanes ! lane_at lanes i u) u = w # rest \<Longrightarrow> head_waits env n w"
    using Cons.IH [of u q k] Cons.prems by auto
  have l: "p = False" "ad_queues u = ad_queues st" "ad_laneCursor u = ad_laneCursor st" "\<exists>x. k = min_opt m x"
    "\<And>w rest. lane_queue (lanes ! lane_at lanes offset st) st = w # rest \<Longrightarrow> head_waits env k w"
    using pump_lane_idle [OF u [unfolded ih(1)]] by auto
  have "lane_queue lane u = lane_queue lane st" "lane_at lanes i u = lane_at lanes i st" for lane i
    using l(2,3) by (simp_all add: lane_queue_def lane_at_def)
  moreover have "\<exists>x. n = min_opt m x" using ih(4) l(4) min_opt_assoc by metis
  ultimately show ?case using ih l head_waits_sooner by auto
qed

lemma offsets_cover:
  assumes "k < n"
  shows "\<exists>offset < n. (c + offset) mod n = (k :: nat)"
proof -
  have "(c + (k + (n - c mod n))) mod n = k"
  proof -
    have "(c + (k + (n - c mod n))) mod n = (c mod n + (k + (n - c mod n))) mod n" by (simp add: mod_add_left_eq)
    also have "c mod n + (k + (n - c mod n)) = k + n" using assms mod_less_divisor [of n c] by linarith
    finally show ?thesis using assms by simp
  qed
  then have "(c + (k + (n - c mod n)) mod n) mod n = k" by (simp add: mod_add_right_eq)
  then show ?thesis using assms by (intro exI [of _ "(k + (n - c mod n)) mod n"]) simp
qed

lemma pump_loop_idle:
  assumes "pump_loop env lanes st nearest = (st', n)"
  shows "pumping st st' \<and> (\<forall>lane \<in> set lanes. \<forall>w rest. lane_queue lane st' = w # rest \<longrightarrow> head_waits env n w)"
  using assms
proof (induction "length (all_waiters st)" arbitrary: st nearest rule: less_induct)
  case less
  obtain u p k where u: "pump_pass env lanes st nearest = (u, p, k)" using prod_cases3 by blast
  then have f: "fold (pump_lane env lanes) [0..<length lanes] (st, False, nearest) = (u, p, k)" by (simp add: pump_pass_def)
  have pu: "pumping st u" using pump_fold_pumping [of "(st, False, nearest)" env lanes "[0..<length lanes]"] f by simp
  show ?case
  proof (cases p)
    case True
    then have "length (all_waiters u) < length (all_waiters st)" using pump_fold_shrinks [OF f] by auto
    moreover have "pump_loop env lanes u k = (st', n)" using less.prems u True by (simp add: pump_loop_pass [of env lanes st nearest])
    ultimately show ?thesis using less.hyps pu pumping_trans by blast
  next
    case False
    then have st': "st' = u" "n = k" using less.prems u by (simp_all add: pump_loop_pass [of env lanes st nearest])
    have "fold (pump_lane env lanes) [0..<length lanes] (st, False, nearest) = (u, False, k)" using f False by simp
    note i = pump_fold_idle [OF this]
    have "head_waits env n w" if l: "lane \<in> set lanes" and q: "lane_queue lane st' = w # rest" for lane w rest
    proof -
      from l obtain j where j: "j < length lanes" "lanes ! j = lane" unfolding in_set_conv_nth by (elim exE conjE)
      then obtain offset where "offset < length lanes" "lane_at lanes offset st = j" unfolding lane_at_def using offsets_cover by blast
      moreover have "lane_queue lane st = w # rest" using q i st'(1) by (simp add: lane_queue_def)
      ultimately show ?thesis using i st'(2) j(2) by fastforce
    qed
    then show ?thesis using pu st' by blast
  qed
qed

section \<open>After a pump\<close>

definition timer_set :: "admission_state \<Rightarrow> bool" where
  "timer_set st \<longleftrightarrow> all_waiters st = [] \<or> opt_holds (\<lambda>d. 1 \<le> d \<and> d \<le> 30000) (ad_timer st)"

definition lanes_ok :: "admission_state \<Rightarrow> bool" where
  "lanes_ok st \<longleftrightarrow> distinct (map fst (ad_queues st)) \<and> timer_set st"

lemma lane_queue_in_waiters: "lane_queue lane st = w # rest \<Longrightarrow> w \<in> set (all_waiters st)"
  using set_lane_waiters [OF lane_queue_map] unfolding all_waiters_def by blast

lemma lane_queue_open: "lane_queue lane st = w # rest \<Longrightarrow> lane \<in> set (open_lanes st)"
  using map_of_SomeD [OF lane_queue_map [of lane st w rest]] by (force simp: open_lanes_def)

lemma lane_queue_filter:
  assumes "distinct (map fst (ad_queues u))"
    and "lane_queue lane (u\<lparr>ad_queues := filter (\<lambda>lq. snd lq \<noteq> []) (ad_queues u)\<rparr>) = w # rest"
  shows "lane_queue lane u = w # rest"
proof -
  have "(lane, w # rest) \<in> set (ad_queues u)"
    using map_of_SomeD [OF lane_queue_map [OF assms(2)]] by simp
  then show ?thesis using assms(1) by (simp add: lane_queue_def)
qed

lemma pump_lanes:
  assumes "distinct (map fst (ad_queues st))"
  shows "lanes_ok (pump_queues env st)"
    and "lane_queue lane (pump_queues env st) = w # rest \<Longrightarrow> \<not> waiter_expired env w
      \<and> opt_le (ad_timer (pump_queues env st)) (max 1 (fsub env (aq_deadline (wt_request w)) (ae_now env)))"
proof -
  define st0 where "st0 = st\<lparr>ad_timer := None\<rparr>"
  have o0: "open_lanes st0 = open_lanes st" by (simp add: st0_def open_lanes_def)
  obtain u n where u: "pump_loop env (open_lanes st0) st0 None = (u, n)" by fastforce
  note i = pump_loop_idle [OF u]
  let ?u = "u\<lparr>ad_queues := filter (\<lambda>lq. snd lq \<noteq> []) (ad_queues u)\<rparr>"
  have d: "distinct (map fst (ad_queues u))" and t: "ad_timer u = None" and o: "set (open_lanes u) \<subseteq> set (open_lanes st0)"
    using i assms by (auto simp: pumping_def st0_def)
  have e: "open_lanes st0 = [] \<Longrightarrow> all_waiters st0 = []" by (auto simp: open_lanes_def all_waiters_def filter_empty_conv)
  have w: "all_waiters ?u = all_waiters u" by (simp add: all_waiters_def concat_filter_Nil)
  have p: "pump_queues env st = (if open_lanes st0 = [] then st0 else if all_waiters ?u \<noteq> [] then schedulePump (opt_default n 25) ?u else ?u)"
    using u [unfolded o0] unfolding pump_queues_def o0 st0_def [symmetric] by (simp add: close_pump.simps w)
  have "distinct (map fst (ad_queues ?u))" using d by (simp add: distinct_map_filter)
  then show "lanes_ok (pump_queues env st)"
    using assms e t unfolding p by (auto simp: lanes_ok_def timer_set_def st0_def schedulePump_def)
  show "\<not> waiter_expired env w \<and> opt_le (ad_timer (pump_queues env st)) (max 1 (fsub env (aq_deadline (wt_request w)) (ae_now env)))"
    if "lane_queue lane (pump_queues env st) = w # rest"
  proof (cases "open_lanes st0 = []")
    case True
    then show ?thesis using that lane_queue_in_waiters [OF that] e unfolding p by simp
  next
    case False
    have lq: "lane_queue lane ?u = w # rest" using that False unfolding p by (simp add: lane_queue_def split: if_splits)
    then have w: "lane_queue lane u = w # rest" by (rule lane_queue_filter [OF d])
    then have h: "head_waits env n w" using i o lane_queue_open [OF w] by blast
    then obtain x where x: "n = Some x" "x \<le> max 1 (fsub env (aq_deadline (wt_request w)) (ae_now env))"
      by (auto simp: head_waits_def opt_le_def split: option.splits)
    have "all_waiters ?u \<noteq> []" using lane_queue_in_waiters [OF lq] by auto
    then have "ad_timer (pump_queues env st) = Some (max 1 (min x 30000))" using False t x(1) unfolding p by (simp add: schedulePump_def)
    then show ?thesis using h x(2) by (auto simp: head_waits_def opt_le_def)
  qed
qed

section \<open>Runs\<close>

lemma remove_waiter_lanes: "remove_waiter i qs = Some (w, qs') \<Longrightarrow> map fst qs' = map fst qs"
  by (induction i qs arbitrary: qs' rule: remove_waiter.induct) (auto split: option.splits)

lemma step_lanes:
  assumes "lanes_ok st" and "admission_step env ev st = Some st'"
  shows "lanes_ok st'"
proof -
  have d: "distinct (map fst (ad_queues st))" using assms(1) by (simp add: lanes_ok_def)
  have r: "lanes_ok (refuse req e st)" for req e using assms(1) by (simp add: lanes_ok_def timer_set_def refuse_def all_waiters_def)
  show ?thesis
  proof (cases ev)
    case (AcquireLease req)
    have q: "lanes_ok (pump_queues env (enqueue_waiter env req u))" if "ad_queues u = ad_queues st" for u
      using d that by (intro pump_lanes) (simp add: enqueue_waiter_def set_lane_def distinct_update)
    show ?thesis using assms(2) r q AcquireLease by (cases "preflight env req st") (auto simp: acquire_lease_def split: if_splits)
  next
    case (ReleaseLease i result)
    then have "release_lease env i result st = Some st'" using assms(2) by simp
    then show ?thesis by (cases rule: release_cases) (use assms(1) d pump_lanes(1) in auto)
  next
    case (AbortRequest i)
    then have st': "st' = remove_request env i st" using assms(2) by (auto split: if_splits)
    show ?thesis
    proof (cases "remove_waiter i (ad_queues st)")
      case None
      then show ?thesis using d pump_lanes(1) unfolding st' by (simp add: remove_request_def)
    next
      case (Some wq)
      then obtain w qs where w: "remove_waiter i (ad_queues st) = Some (w, qs)" by (cases wq) auto
      show ?thesis unfolding st' remove_request_def
        by (rule pump_lanes) (use d remove_waiter_lanes [OF w] in \<open>simp add: w cancel_waiter_def refuse_def drop_holder_def\<close>)
    qed
  next
    case TimerFires
    then have st': "st' = pump_queues env (st\<lparr>ad_timer := None\<rparr>)" using assms(2) by (auto split: if_splits)
    show ?thesis unfolding st' by (rule pump_lanes) (use d in simp)
  next
    case (RetryAfterSeen v ms)
    then have "st' = coordinateRetryAfter env v ms st" using assms(2) by simp
    then show ?thesis using assms(1)
      by (cases "ad_timer st") (simp_all add: lanes_ok_def timer_set_def coordinateRetryAfter_def schedulePump_def all_waiters_def)
  next
    case (BudgetReleased b)
    then show ?thesis using assms by (auto simp: lanes_ok_def timer_set_def releaseBudget_def Let_def all_waiters_def)
  qed
qed

lemma run_lanes:
  assumes "lanes_ok st" and "admission_run evs st = Some st'"
  shows "lanes_ok st'"
  using assms
proof (induction evs arbitrary: st)
  case (Cons envev evs)
  obtain env ev where e: "envev = (env, ev)" by fastforce
  then obtain u where "admission_step env ev st = Some u" "admission_run evs u = Some st'"
    using Cons.prems(2) by (auto simp: bind_eq_Some_conv)
  then show ?case using Cons.IH step_lanes [OF Cons.prems(1)] by blast
qed simp

lemma new_controller_lanes: "lanes_ok new_controller"
  by (simp add: lanes_ok_def timer_set_def new_controller_def all_waiters_def)

text \<open>C27: No request is lost. After any run every request that was made is in exactly one place: it waits in a
  queue, or its lease was granted, or it was refused, once; and while anybody waits a timer is
  pending, of at least a millisecond and at most thirty seconds, so the queues are looked at again.\<close>

theorem requests_never_lost:
  assumes "admission_run evs new_controller = Some st"
  shows "mset (known_requests st) = mset (requested evs) \<and> distinct (known_requests st)
    \<and> (all_waiters st = [] \<or> opt_holds (\<lambda>d. 1 \<le> d \<and> d \<le> 30000) (ad_timer st))"
proof -
  have "known_requests new_controller = []" by (simp add: known_requests_def new_controller_def all_waiters_def)
  then show ?thesis
    using known_run [OF assms] run_lanes [OF new_controller_lanes assms] by (simp add: lanes_ok_def timer_set_def)
qed

text \<open>C28: Waiting ends. When the timer fires, nobody stays at the head of a lane whose signal is aborted, whose
  deadline has come or whose wait is over, and the next timer is due, up to the smallest delay of one
  millisecond, before the deadline of every head that stays.\<close>

theorem heads_may_wait:
  assumes "admission_run evs new_controller = Some st" and "admission_step env TimerFires st = Some st'"
    and "lane_queue lane st' = w # rest"
  shows "\<not> waiter_expired env w \<and> opt_holds (\<lambda>d. d \<le> max 1 (fsub env (aq_deadline (wt_request w)) (ae_now env))) (ad_timer st')"
proof -
  have st': "st' = pump_queues env (st\<lparr>ad_timer := None\<rparr>)" using assms(2) by (auto split: if_splits)
  have "distinct (map fst (ad_queues (st\<lparr>ad_timer := None\<rparr>)))"
    using run_lanes [OF new_controller_lanes assms(1)] by (simp add: lanes_ok_def)
  from pump_lanes(2) [OF this assms(3) [unfolded st']] show ?thesis
    unfolding st' by (auto simp: opt_le_def split: option.splits)
qed

end
