(* ===== verification/AdmissionDemo.thy ===== *)
theory AdmissionDemo
  imports AdmissionBudgets AdmissionProgress
begin

text \<open>
  Runs of the admission controller: one that meets the hypotheses of every guarantee, and two in which a
  lease from before the breaker opened lets requests past it.
\<close>

section \<open>A profile\<close>

definition plain_limits :: "int \<Rightarrow> admission_limits" where
  "plain_limits n =
     \<lparr>lm_concurrency = n, lm_requestsPerMinute = None, lm_tokensPerSecond = None, lm_maxAttempts = Some 5, lm_maxBatchSize = None,
      lm_maxCostUsd = Some 2, lm_allowUnknownCost = True, lm_maxTokens = None, lm_maxQueueLength = Some 10, lm_maxQueueWaitMs = Some 5000,
      lm_maxRequestBytes = None, lm_maxItems = None, lm_maxRetainedWork = None, lm_circuitBreaker = None,
      lm_reservedConcurrency = None, lm_maxPrincipalShare = None\<rparr>"

definition plain_estimate :: call_estimate where
  "plain_estimate = \<lparr>ce_tokens = Some (Fin 8), ce_costUsd = Some (Fin (1 / 2)), ce_requestBytes = None, ce_items = None,
     ce_attempts = None, ce_batchSize = None, ce_retainedWork = None\<rparr>"

definition demo_call :: "nat \<Rightarrow> string \<Rightarrow> admission_request" where
  "demo_call i p = \<lparr>aq_id = i, aq_budgetId = ''run'', aq_principalId = p, aq_workspaceId = ''w'', aq_providerId = ''v'',
     aq_estimate = plain_estimate, aq_deadline = 1000, aq_signal = i\<rparr>"

definition demo_principals :: "(string \<times> admission_limits) list" where
  "demo_principals = [(''alice'', (plain_limits 2)\<lparr>lm_reservedConcurrency := Some 1\<rparr>), (''bob'', plain_limits 2)]"

definition guarded_provider :: admission_limits where
  "guarded_provider = (plain_limits 4)\<lparr>lm_circuitBreaker := Some \<lparr>bc_failureThreshold = 1, bc_openMs = 100, bc_halfOpenMaxCalls = 1\<rparr>\<rparr>"

definition admission_demo_env :: "admission_limits \<Rightarrow> rat \<Rightarrow> admission_env" where
  "admission_demo_env workspace t = \<lparr>ae_now = t, ae_aborted = (\<lambda>_. False),
     ae_limits = registry_limits demo_principals workspace [(''v'', guarded_provider)],
     ae_principals = Some demo_principals, ae_round = (\<lambda>x. x)\<rparr>"

lemma demo_profile: "profile_env demo_principals ws [(''v'', guarded_provider)] (admission_demo_env ws t)"
  by (simp add: profile_env_def admission_demo_env_def)

section \<open>Reservations at work\<close>

text \<open>Of two permits one is reserved for \<open>alice\<close>: the second request of \<open>bob\<close> waits, that of \<open>alice\<close> does not.\<close>

definition shared_run :: "(admission_env \<times> admission_event) list" where
  "shared_run =
     [(admission_demo_env (plain_limits 2) 0, AcquireLease (demo_call 0 ''bob'')),
      (admission_demo_env (plain_limits 2) 0, BudgetReleased ''other''),
      (admission_demo_env (plain_limits 2) 1, AcquireLease (demo_call 1 ''bob''))]"

definition shared_state :: admission_state where
  "shared_state = the (admission_run shared_run new_controller)"

lemma shared_run_ok: "admission_run shared_run new_controller = Some shared_state"
proof -
  have "\<not> Option.is_none (admission_run shared_run new_controller)" by code_simp
  then show ?thesis by (auto simp: shared_state_def Option.is_none_def)
qed

lemma shared_run_profile:
  "run_of (profile_env demo_principals (plain_limits 2) [(''v'', guarded_provider)]) (\<lambda>_. True) (\<lambda>_. True) shared_run"
  "run_of (profile_env demo_principals (plain_limits 2) [(''v'', guarded_provider)]) (\<lambda>r. aq_workspaceId r = ''w'') (\<lambda>_. True) shared_run"
  "run_of (\<lambda>env. profile_env demo_principals (plain_limits 2) [(''v'', guarded_provider)] env \<and> ae_round env = (\<lambda>x. x))
     (\<lambda>r. no_colon (aq_budgetId r)) (\<lambda>b'. no_colon b' \<and> b' \<noteq> ''run'') shared_run"
  by (simp_all add: run_of_def shared_run_def demo_profile demo_call_def no_colon_def) (simp_all add: admission_demo_env_def)

lemma demo_limits:
  "map_of demo_principals ''bob'' = Some (plain_limits 2)"
  "map_of demo_principals ''alice'' = Some ((plain_limits 2)\<lparr>lm_reservedConcurrency := Some 1\<rparr>)"
  "map_of [(''v'', guarded_provider)] ''v'' = Some guarded_provider"
  by (simp_all add: demo_principals_def)

theorem leases_within_ceilings_witness: "int (holders (\<lambda>r. aq_principalId r = ''bob'') shared_state) \<le> 2"
  using leases_within_ceilings [OF shared_run_profile(1) shared_run_ok demo_limits(1,3)] by (simp add: plain_limits_def)

theorem reserved_permits_free_witness: "int (holders (\<lambda>r. aq_workspaceId r = ''w'') shared_state) < 2"
proof -
  have "reservations_fit demo_principals (plain_limits 2) [(''v'', guarded_provider)]"
    "holders (\<lambda>r. aq_principalId r = ''alice'') shared_state = 0" by code_simp+
  then show ?thesis
    using reserved_permits_free [OF shared_run_profile(2) shared_run_ok _ demo_limits(2,3)] by (simp add: reserved_of_def) (simp add: plain_limits_def)
qed

theorem budgets_kept_witness:
  "of_int (total_charged call_attempts ''run'' ''p:bob'' (ad_leases shared_state)) \<le> (5 :: rat)
   \<and> total_cost (\<lambda>x. x) ''run'' ''p:bob'' (ad_leases shared_state) \<le> 2"
proof -
  have "key_limits demo_principals (plain_limits 2) [(''v'', guarded_provider)] ''p:bob'' = Some (plain_limits 2)"
    by (simp add: key_limits_def demo_limits)
  from budgets_kept [OF shared_run_profile(3) shared_run_ok _ this, of 5] budgets_kept [OF shared_run_profile(3) shared_run_ok _ this, of 2]
  show ?thesis by (simp add: no_colon_def plain_limits_def)
qed

theorem requests_never_lost_witness: "mset (known_requests shared_state) = {#0, 1#}"
proof -
  have "requested shared_run = [0, 1]" by (simp add: requested_def shared_run_def demo_call_def)
  then show ?thesis using requests_never_lost [OF shared_run_ok] by simp
qed

text \<open>The timer fires while the request waits.\<close>

definition timed_state :: admission_state where
  "timed_state = the (admission_step (admission_demo_env (plain_limits 2) 9) TimerFires shared_state)"

theorem heads_may_wait_witness: "opt_holds (\<lambda>d. d \<le> 991) (ad_timer timed_state)"
proof -
  have "\<not> Option.is_none (admission_step (admission_demo_env (plain_limits 2) 9) TimerFires shared_state)" by code_simp
  then have s: "admission_step (admission_demo_env (plain_limits 2) 9) TimerFires shared_state = Some timed_state"
    by (auto simp: timed_state_def Option.is_none_def)
  have "map (\<lambda>w. aq_deadline (wt_request w)) (lane_queue (''v'', ''w'', ''bob'') timed_state) = [1000]" by code_simp
  then obtain w where w: "lane_queue (''v'', ''w'', ''bob'') timed_state = [w]" "aq_deadline (wt_request w) = 1000" by auto
  from heads_may_wait [OF shared_run_ok s w(1)] show ?thesis
    by (simp add: w(2) fsub_def admission_demo_env_def)
qed

section \<open>Leases that outlive the breaker's state\<close>

definition guarded_run :: "(rat \<times> admission_event) list \<Rightarrow> admission_state option" where
  "guarded_run evs = admission_run (map (\<lambda>(t, ev). (admission_demo_env (plain_limits 4) t, ev)) evs) new_controller"

definition failed_call :: "lease_outcome option" where
  "failed_call = Some \<lparr>lo_success = False, lo_retryAfterMs = None\<rparr>"

text \<open>What is looked at: the breaker's history, and the leases that are not released, with the state of the
  breaker when they were granted.\<close>

definition breaker_view :: "admission_state option \<Rightarrow> (breaker_change list \<times> (nat \<times> breaker_state) list) option" where
  "breaker_view = map_option (\<lambda>st. (map tr_change (ad_breakerHistory st),
     map (\<lambda>l. (aq_id (le_request l), an_breakerState (le_evidence l))) (filter (\<lambda>l. \<not> le_released l) (ad_leases st))))"

text \<open>A lease granted before the breaker opened undoes what the breaker protects. With a failure threshold of
  1, an open time of 100 ms and one half-open call, (1) the late success of such a lease closes an open
  breaker at once, without the half-open probe, and a request is admitted 3 ms after the failure;
  (2) its late release, here with a \<open>Retry-After\<close>, gives back the place of a half-open call that it
  never took, and a second half-open call runs beside the first.\<close>

lemma stale_leases_bypass_breaker:
  "breaker_view (guarded_run
      [(0, AcquireLease (demo_call 0 ''alice'')), (0, AcquireLease (demo_call 1 ''bob'')),
       (1, ReleaseLease 0 failed_call), (2, ReleaseLease 1 (Some \<lparr>lo_success = True, lo_retryAfterMs = None\<rparr>)),
       (4, AcquireLease (demo_call 2 ''bob''))])
     = Some ([(BreakerClosed, BreakerOpen), (BreakerOpen, BreakerClosed)], [(2, BreakerClosed)])
   \<and> breaker_view (guarded_run
      [(0, AcquireLease (demo_call 0 ''alice'')), (0, AcquireLease (demo_call 1 ''bob'')),
       (1, ReleaseLease 0 failed_call), (101, AcquireLease (demo_call 2 ''alice'')),
       (102, ReleaseLease 1 (Some \<lparr>lo_success = False, lo_retryAfterMs = Some 10\<rparr>)),
       (120, AcquireLease (demo_call 3 ''bob''))])
     = Some ([(BreakerClosed, BreakerOpen), (BreakerOpen, BreakerHalfOpen)], [(2, BreakerHalfOpen), (3, BreakerHalfOpen)])"
  by code_simp

end
