(* ===== verification/Graph.thy ===== *)
theory Graph
  imports JsonText JobContract
begin

text \<open>
  Decision graphs (\<open>src/decision/graph.ts\<close> and \<open>schemas/decision/DecisionGraph.v1.schema.json\<close>): the
  document and its schema, and \<open>planDecisionGraph\<close>, which checks a graph and groups its nodes into
  stages and batches. Admission, the digests of the canonical graph and of the plan, and
  \<open>localeCompare\<close> are parameters.
\<close>

section \<open>Documents\<close>

record graph_when =
  gw_source :: string
  gw_equals :: bool

record graph_edge =
  ge_from :: string
  ge_to :: string
  ge_source :: string
  ge_destination :: string
  ge_when :: "graph_when option"

record graph_node =
  gn_id :: string
  gn_stage :: int
  gn_subject :: string
  gn_target :: string
  gn_model :: string
  gn_egress :: string
  gn_stateDigest :: string
  gn_definition :: artifact_pin
  gn_binding :: artifact_pin
  gn_input :: "string list"
  gn_output :: "string list"

record graph_budget =
  gb_attempts :: int
  gb_deadlineMs :: int
  gb_tokens :: int
  gb_costMicros :: int
  gb_fanOut :: int
  gb_beamWidth :: int
  gb_depth :: int
  gb_concurrency :: int

record decision_graph =
  dg_id :: string
  dg_entry :: string
  dg_terminals :: "string list"
  dg_pattern :: "string option"
  dg_nodes :: "graph_node list"
  dg_edges :: "graph_edge list"
  dg_budget :: graph_budget
  dg_stageBudgets :: "(int \<times> graph_budget) list option"

record graph_stage =
  gs_stage :: int
  gs_nodes :: "string list"
  gs_batches :: "string list list"
  gs_fanOut :: "string list"

record graph_plan =
  gp_graphDigest :: string
  gp_stages :: "graph_stage list"
  gp_edges :: "graph_edge list"
  gp_planDigest :: string

datatype graph_error = DecisionGraphError string

section \<open>The schema\<close>

text \<open>The patterns \<open>^[a-zA-Z][a-zA-Z0-9_-]{0,63}$\<close> and \<open>^[a-zA-Z0-9][a-zA-Z0-9._-]{0,63}$\<close>.\<close>

definition is_alpha :: "char \<Rightarrow> bool" where
  "is_alpha c \<longleftrightarrow> (CHR ''a'' \<le> c \<and> c \<le> CHR ''z'') \<or> (CHR ''A'' \<le> c \<and> c \<le> CHR ''Z'')"

definition schema_name :: "string \<Rightarrow> bool" where
  "schema_name s \<longleftrightarrow>
     (case s of [] \<Rightarrow> False
      | c # cs \<Rightarrow> is_alpha c \<and> length cs \<le> 63
                  \<and> list_all (\<lambda>d. is_alnum d \<or> d = CHR ''_'' \<or> d = CHR ''-'') cs)"

definition schema_version :: "string \<Rightarrow> bool" where
  "schema_version s \<longleftrightarrow>
     (case s of [] \<Rightarrow> False
      | c # cs \<Rightarrow> is_alnum c \<and> length cs \<le> 63
                  \<and> list_all (\<lambda>d. is_alnum d \<or> d = CHR ''.'' \<or> d = CHR ''_'' \<or> d = CHR ''-'') cs)"

definition schema_pin :: "artifact_pin \<Rightarrow> bool" where
  "schema_pin p \<longleftrightarrow> schema_name (pin_id p) \<and> schema_version (pin_version p) \<and> schema_digest (pin_digest p)"

definition schema_names :: "string list \<Rightarrow> bool" where
  "schema_names xs \<longleftrightarrow> distinct xs \<and> list_all schema_name xs"

definition schema_node :: "graph_node \<Rightarrow> bool" where
  "schema_node n \<longleftrightarrow>
     list_all schema_name [gn_id n, gn_subject n, gn_target n, gn_model n, gn_egress n]
     \<and> schema_range 0 127 (gn_stage n) \<and> schema_digest (gn_stateDigest n)
     \<and> schema_pin (gn_definition n) \<and> schema_pin (gn_binding n)
     \<and> schema_names (gn_input n) \<and> schema_names (gn_output n)"

definition schema_edge :: "graph_edge \<Rightarrow> bool" where
  "schema_edge e \<longleftrightarrow>
     list_all schema_name [ge_from e, ge_to e, ge_source e, ge_destination e]
     \<and> opt_all (\<lambda>w. schema_name (gw_source w)) (ge_when e)"

definition schema_graph_budget :: "graph_budget \<Rightarrow> bool" where
  "schema_graph_budget b \<longleftrightarrow>
     schema_range 1 1000 (gb_attempts b) \<and> schema_range 1 86400000 (gb_deadlineMs b)
     \<and> schema_range 1 10000000 (gb_tokens b) \<and> schema_range 1 1000000000 (gb_costMicros b)
     \<and> schema_range 1 128 (gb_fanOut b) \<and> schema_range 1 128 (gb_beamWidth b)
     \<and> schema_range 1 128 (gb_depth b) \<and> schema_range 1 128 (gb_concurrency b)"

definition graph_patterns :: "string list" where
  "graph_patterns = [''custom'', ''shortlist-rerank'', ''taxonomy-beam'', ''extractor-verifier-fallback'']"

definition schema_graph :: "decision_graph \<Rightarrow> bool" where
  "schema_graph g \<longleftrightarrow>
     schema_name (dg_id g) \<and> schema_name (dg_entry g) \<and> dg_terminals g \<noteq> [] \<and> schema_names (dg_terminals g)
     \<and> opt_all (\<lambda>p. p \<in> set graph_patterns) (dg_pattern g)
     \<and> dg_nodes g \<noteq> [] \<and> length (dg_nodes g) \<le> 128 \<and> list_all schema_node (dg_nodes g)
     \<and> length (dg_edges g) \<le> 512 \<and> list_all schema_edge (dg_edges g)
     \<and> schema_graph_budget (dg_budget g)
     \<and> opt_all (\<lambda>bs. length bs \<le> 128
          \<and> list_all (\<lambda>(s, b). schema_range 0 127 s \<and> schema_graph_budget b) bs) (dg_stageBudgets g)"

section \<open>Checking a graph\<close>

abbreviation gfail :: "string \<Rightarrow> graph_error" where
  "gfail \<equiv> DecisionGraphError"

text \<open>The loop over the nodes: the ids seen so far.\<close>

definition checkNode :: "(string \<Rightarrow> bool) \<Rightarrow> string list \<Rightarrow> graph_node \<Rightarrow> graph_error + string list" where
  "checkNode resolved ids n =
     thenR (checks
       [(gn_id n \<in> set ids, gfail ''duplicate graph node''),
        (\<not> resolved (pin_digest (gn_definition n)) \<or> \<not> resolved (pin_digest (gn_binding n)), gfail ''unresolved graph pin'')])
     (Inr (ids @ [gn_id n]))"

definition node_of :: "decision_graph \<Rightarrow> string \<Rightarrow> graph_node option" where
  "node_of g i = find (\<lambda>n. gn_id n = i) (dg_nodes g)"

text \<open>\<open>inputs.get(id)\<close> and \<open>outgoing.get(id)\<close> after the given edges.\<close>

definition inputs_of :: "graph_edge list \<Rightarrow> string \<Rightarrow> string list" where
  "inputs_of es i = map ge_destination (filter (\<lambda>e. ge_to e = i) es)"

definition outgoing :: "graph_edge list \<Rightarrow> string \<Rightarrow> string list" where
  "outgoing es i = map ge_to (filter (\<lambda>e. ge_from e = i) es)"

text \<open>The loop over the edges: the edges seen so far.\<close>

definition checkEdge :: "decision_graph \<Rightarrow> graph_edge list \<Rightarrow> graph_edge \<Rightarrow> graph_error + graph_edge list" where
  "checkEdge g seen e =
     (case (node_of g (ge_from e), node_of g (ge_to e)) of
        (Some source, Some target) \<Rightarrow>
          thenR (checks
            [(gn_id source = gn_id target \<or> gn_stage source \<ge> gn_stage target, gfail ''invalid graph dependency or cycle''),
             (ge_source e \<notin> set (gn_output source) \<or> ge_destination e \<notin> set (gn_input target)
               \<or> opt_holds (\<lambda>w. gw_source w \<notin> set (gn_output source)) (ge_when e), gfail ''illegal evidence projection''),
             (e \<in> set seen \<or> ge_destination e \<in> set (inputs_of seen (gn_id target)), gfail ''ambiguous evidence projection'')])
          (Inr (seen @ [e]))
      | _ \<Rightarrow> Inl (gfail ''invalid graph dependency or cycle''))"

text \<open>The breadth-first loop: \<open>queue\<close> is the list of the reached ids, \<open>i\<close> the next one to expand.\<close>

definition enqueue :: "string list \<Rightarrow> string list \<Rightarrow> string list" where
  "enqueue queue ids = foldl (\<lambda>q i. if i \<in> set q then q else q @ [i]) queue ids"

lemma set_enqueue [simp]: "set (enqueue queue ids) = set queue \<union> set ids"
  unfolding enqueue_def by (induction ids arbitrary: queue) auto

lemma enqueue_extends: "\<exists>new. enqueue queue ids = queue @ new"
  unfolding enqueue_def
proof (induction ids arbitrary: queue)
  case Nil
  then show ?case by simp
next
  case (Cons i ids)
  then obtain new where "foldl (\<lambda>q i. if i \<in> set q then q else q @ [i]) (if i \<in> set queue then queue else queue @ [i]) ids
      = (if i \<in> set queue then queue else queue @ [i]) @ new" by blast
  then show ?case by (cases "i \<in> set queue") auto
qed

lemma set_outgoing: "set (outgoing es i) \<subseteq> set (map ge_to es)"
  by (auto simp: outgoing_def)

lemma enqueue_same: "set ids \<subseteq> set queue \<Longrightarrow> enqueue queue ids = queue"
  unfolding enqueue_def by (induction ids) auto

function reached :: "graph_edge list \<Rightarrow> nat \<Rightarrow> string list \<Rightarrow> string list" where
  "reached es i queue =
     (if i < length queue then reached es (Suc i) (enqueue queue (outgoing es (queue ! i))) else queue)"
  by pat_completeness auto

termination
proof (relation "measures [\<lambda>(es, i, q). card (set (map ge_to es) - set q), \<lambda>(es, i, q). length q - i]", goal_cases)
  case 1
  show ?case by simp
next
  case (2 es i queue)
  let ?T = "set (map ge_to es)" and ?new = "outgoing es (queue ! i)"
  show ?case
  proof (cases "set ?new \<subseteq> set queue")
    case True
    then show ?thesis using 2 by (simp add: enqueue_same)
  next
    case False
    then have "?T - set (enqueue queue ?new) \<subset> ?T - set queue" using set_outgoing [of es "queue ! i"] by auto
    then show ?thesis using psubset_card_mono [of "?T - set queue"] by simp
  qed
qed

declare reached.simps [simp del]

text \<open>The role of a node: reached, fed on every input, and a terminal if nothing leaves it for sure.\<close>

definition misplaced :: "decision_graph \<Rightarrow> string list \<Rightarrow> graph_node \<Rightarrow> bool" where
  "misplaced g reach n \<longleftrightarrow>
     gn_id n \<notin> set reach
     \<or> (gn_id n \<noteq> dg_entry g
        \<and> (gn_input n = [] \<or> list_ex (\<lambda>name. name \<notin> set (inputs_of (dg_edges g) (gn_id n))) (gn_input n)))
     \<or> (if outgoing (dg_edges g) (gn_id n) = [] then gn_id n \<notin> set (dg_terminals g)
        else gn_id n \<in> set (dg_terminals g)
          \<and> list_ex (\<lambda>e. ge_from e = gn_id n \<and> ge_when e = None) (dg_edges g))"

definition checkGraph :: "(decision_graph \<Rightarrow> bool) \<Rightarrow> (string \<Rightarrow> bool) \<Rightarrow> decision_graph \<Rightarrow> graph_error + unit" where
  "checkGraph admits resolved g =
     thenR (checks
       [(\<not> admits g, gfail ''graph admission denied''), (\<not> schema_graph g, gfail ''invalid decision graph schema'')])
     (bindR (foldR (checkNode resolved) [] (dg_nodes g)) (\<lambda>ids.
      thenR (checks
        [(\<not> opt_holds (\<lambda>n. gn_stage n = 0 \<and> gn_input n = []) (node_of g (dg_entry g)), gfail ''invalid graph entry''),
         (\<not> distinct (dg_terminals g) \<or> list_ex (\<lambda>i. i \<notin> set ids) (dg_terminals g), gfail ''invalid graph terminal'')])
      (thenR (foldR (checkEdge g) [] (dg_edges g))
      (checks
        [(list_ex (misplaced g (reached (dg_edges g) 0 [dg_entry g])) (dg_nodes g),
          gfail ''ambiguous root, input, or terminal'')]))))"

section \<open>Planning\<close>

text \<open>\<open>[...new Set(xs)]\<close> and grouping by a key, in the order of first occurrence.\<close>

definition js_unique :: "'a list \<Rightarrow> 'a list" where
  "js_unique xs = foldl (\<lambda>acc x. if x \<in> set acc then acc else acc @ [x]) [] xs"

definition group_step :: "('a \<Rightarrow> 'k) \<Rightarrow> ('k \<times> 'a list) list \<Rightarrow> 'a \<Rightarrow> ('k \<times> 'a list) list" where
  "group_step key groups x =
     (case map_of groups (key x) of
        None \<Rightarrow> groups @ [(key x, [x])]
      | Some members \<Rightarrow> AList.update (key x) (members @ [x]) groups)"

definition group_by :: "('a \<Rightarrow> 'k) \<Rightarrow> 'a list \<Rightarrow> 'a list list" where
  "group_by key xs = map snd (foldl (group_step key) [] xs)"

definition edge_json :: "graph_edge \<Rightarrow> json" where
  "edge_json e = JObj
     ([(''from'', JStr (ge_from e)), (''to'', JStr (ge_to e)), (''source'', JStr (ge_source e)),
       (''destination'', JStr (ge_destination e))]
      @ (case ge_when e of None \<Rightarrow> []
         | Some w \<Rightarrow> [(''when'', JObj [(''source'', JStr (gw_source w)), (''equals'', JBool (gw_equals w))])]))"

text \<open>The canonical text of an edge, in which no number occurs.\<close>

definition edge_text :: "graph_edge \<Rightarrow> string" where
  "edge_text e = (case canonicalJson unary_text (edge_json e) of Inl err \<Rightarrow> [] | Inr t \<Rightarrow> t)"

definition node_order :: "(string \<Rightarrow> string \<Rightarrow> int) \<Rightarrow> graph_node \<Rightarrow> graph_node \<Rightarrow> int" where
  "node_order lc a b =
     (if gn_stage a \<noteq> gn_stage b then gn_stage a - gn_stage b else lc (gn_id a) (gn_id b))"

definition sorted_nodes :: "(string \<Rightarrow> string \<Rightarrow> int) \<Rightarrow> decision_graph \<Rightarrow> graph_node list" where
  "sorted_nodes lc g = js_sort (node_order lc) (dg_nodes g)"

definition sorted_edges :: "(string \<Rightarrow> string \<Rightarrow> int) \<Rightarrow> decision_graph \<Rightarrow> graph_edge list" where
  "sorted_edges lc g = js_sort (\<lambda>a b. lc (edge_text a) (edge_text b)) (dg_edges g)"

text \<open>What the members of a batch have in common.\<close>

definition batch_key :: "graph_edge list \<Rightarrow> graph_node \<Rightarrow> string list \<times> string list list" where
  "batch_key es n =
     ([gn_subject n, gn_target n, gn_model n, gn_egress n, gn_stateDigest n,
       pin_digest (gn_definition n), pin_digest (gn_binding n)],
      map (\<lambda>e. [ge_from e, ge_source e, ge_destination e]) (filter (\<lambda>e. ge_to e = gn_id n) es))"

definition plan_stage :: "graph_edge list \<Rightarrow> graph_node list \<Rightarrow> int \<Rightarrow> graph_stage" where
  "plan_stage es nodes stage =
     (let stageNodes = filter (\<lambda>n. gn_stage n = stage) nodes;
          groups = map (map gn_id) (group_by (batch_key es) stageNodes)
      in \<lparr>gs_stage = stage, gs_nodes = map gn_id stageNodes,
          gs_batches = filter (\<lambda>ids. length ids > 1) groups,
          gs_fanOut = concat (filter (\<lambda>ids. length ids = 1) groups)\<rparr>)"

definition plan_stages :: "(string \<Rightarrow> string \<Rightarrow> int) \<Rightarrow> decision_graph \<Rightarrow> graph_stage list" where
  "plan_stages lc g =
     map (plan_stage (sorted_edges lc g) (sorted_nodes lc g)) (js_unique (map gn_stage (sorted_nodes lc g)))"

definition exceeds_budget :: "graph_budget \<Rightarrow> graph_stage list \<Rightarrow> bool" where
  "exceeds_budget b stages \<longleftrightarrow>
     list_ex (\<lambda>(s, i). gs_stage s \<noteq> int i) (zip stages [0..<length stages])
     \<or> int (length stages) > gb_depth b
     \<or> list_ex (\<lambda>s. int (length (gs_nodes s)) > gb_fanOut b) stages
     \<or> list_ex (\<lambda>s. list_ex (\<lambda>ids. int (length ids) > gb_beamWidth b) (gs_batches s)) stages"

definition invalid_stage_budget :: "graph_stage list \<Rightarrow> int \<times> graph_budget \<Rightarrow> bool" where
  "invalid_stage_budget stages item =
     (case find (\<lambda>s. gs_stage s = fst item) stages of
        None \<Rightarrow> True
      | Some stage \<Rightarrow>
          int (length (gs_nodes stage)) > gb_fanOut (snd item)
          \<or> list_ex (\<lambda>ids. int (length ids) > gb_beamWidth (snd item)) (gs_batches stage)
          \<or> gs_stage stage \<ge> gb_depth (snd item))"

text \<open>The graph with its nodes, edges, terminals, inputs, outputs and stage budgets in order.\<close>

definition canonical_graph :: "(string \<Rightarrow> string \<Rightarrow> int) \<Rightarrow> decision_graph \<Rightarrow> decision_graph" where
  "canonical_graph lc g = g
     \<lparr>dg_stageBudgets := map_option (js_sort (\<lambda>a b. fst a - fst b)) (dg_stageBudgets g),
      dg_terminals := js_sort code_unit_compare (dg_terminals g),
      dg_nodes := map (\<lambda>n. n\<lparr>gn_input := js_sort code_unit_compare (gn_input n),
                             gn_output := js_sort code_unit_compare (gn_output n)\<rparr>) (sorted_nodes lc g),
      dg_edges := sorted_edges lc g\<rparr>"

record graph_env =
  gv_admits :: "decision_graph \<Rightarrow> bool"
  gv_lc :: "string \<Rightarrow> string \<Rightarrow> int"
  gv_graphDigest :: "decision_graph \<Rightarrow> string"
  gv_planDigest :: "string \<times> graph_stage list \<times> graph_edge list \<Rightarrow> string"

definition planDecisionGraph :: "graph_env \<Rightarrow> (string \<Rightarrow> bool) \<Rightarrow> decision_graph \<Rightarrow> graph_error + graph_plan" where
  "planDecisionGraph env resolved g =
     thenR (checkGraph (gv_admits env) resolved g)
     (let stages = plan_stages (gv_lc env) g;
          edges = sorted_edges (gv_lc env) g;
          graphDigest = gv_graphDigest env (canonical_graph (gv_lc env) g)
      in thenR (checks
           [(exceeds_budget (dg_budget g) stages, gfail ''graph budget exceeded''),
            (opt_holds (\<lambda>bs. \<not> distinct (map fst bs) \<or> list_ex (invalid_stage_budget stages) bs) (dg_stageBudgets g),
             gfail ''invalid stage budget'')])
         (Inr \<lparr>gp_graphDigest = graphDigest, gp_stages = stages, gp_edges = edges,
               gp_planDigest = gv_planDigest env (graphDigest, stages, edges)\<rparr>))"

end
