(* ===== verification/GraphBudget.thy ===== *)
theory GraphBudget
  imports Graph
begin

text \<open>
  The budget of a running graph (\<open>src/decision/graph-budget.ts\<close>, and \<open>effectiveGraphCeilings\<close> of
  \<open>src/decision/graph-evidence.ts\<close>). A reservation is a closure in the code; here the ledger keeps
  the list of its reservations, with the values each closure has captured, and the closure is the
  index. A reading of the clock that is not a finite number is \<open>None\<close>. Amounts are integers: any
  other number is refused by \<open>safe\<close> like a negative one.
\<close>

section \<open>Amounts\<close>

record graph_usage =
  us_attempts :: int
  us_tokens :: int
  us_costMicros :: int

datatype usage_field = Attempts | Tokens | CostMicros

definition usage_fields :: "usage_field list" where
  "usage_fields = [Attempts, Tokens, CostMicros]"

fun usage_at :: "graph_usage \<Rightarrow> usage_field \<Rightarrow> int" where
  "usage_at u Attempts = us_attempts u"
| "usage_at u Tokens = us_tokens u"
| "usage_at u CostMicros = us_costMicros u"

fun budget_at :: "graph_budget \<Rightarrow> usage_field \<Rightarrow> int" where
  "budget_at b Attempts = gb_attempts b"
| "budget_at b Tokens = gb_tokens b"
| "budget_at b CostMicros = gb_costMicros b"

definition no_usage :: graph_usage where
  "no_usage = \<lparr>us_attempts = 0, us_tokens = 0, us_costMicros = 0\<rparr>"

definition safe_amount :: "int \<Rightarrow> bool" where
  "safe_amount n \<longleftrightarrow> safe_int n \<and> 0 \<le> n"

definition usage_add :: "graph_usage \<Rightarrow> graph_usage \<Rightarrow> graph_usage" where
  "usage_add u v = \<lparr>us_attempts = us_attempts u + us_attempts v, us_tokens = us_tokens u + us_tokens v,
     us_costMicros = us_costMicros u + us_costMicros v\<rparr>"

text \<open>A settlement gives back tokens and cost, never an attempt.\<close>

definition usage_refund :: "graph_usage \<Rightarrow> graph_usage \<Rightarrow> graph_usage \<Rightarrow> graph_usage" where
  "usage_refund u estimate actual = u
     \<lparr>us_tokens := us_tokens u - (us_tokens estimate - us_tokens actual),
      us_costMicros := us_costMicros u - (us_costMicros estimate - us_costMicros actual)\<rparr>"

section \<open>Ceilings\<close>

record graph_ceilings =
  gc_attempts :: "int option"
  gc_deadlineMs :: "int option"
  gc_tokens :: "int option"
  gc_costMicros :: "int option"
  gc_fanOut :: "int option"
  gc_beamWidth :: "int option"
  gc_depth :: "int option"
  gc_concurrency :: "int option"

definition narrow :: "int option \<Rightarrow> int \<Rightarrow> graph_error + int" where
  "narrow limit value =
     (case limit of
        None \<Rightarrow> Inr value
      | Some l \<Rightarrow> if \<not> safe_int l \<or> l < 1 then Inl (gfail ''invalid graph ceiling'') else Inr (min value l))"

definition applyCeilings :: "graph_budget \<Rightarrow> graph_ceilings \<Rightarrow> graph_error + graph_budget" where
  "applyCeilings b layer =
     bindR (narrow (gc_attempts layer) (gb_attempts b)) (\<lambda>attempts.
     bindR (narrow (gc_deadlineMs layer) (gb_deadlineMs b)) (\<lambda>deadlineMs.
     bindR (narrow (gc_tokens layer) (gb_tokens b)) (\<lambda>tokens.
     bindR (narrow (gc_costMicros layer) (gb_costMicros b)) (\<lambda>costMicros.
     bindR (narrow (gc_fanOut layer) (gb_fanOut b)) (\<lambda>fanOut.
     bindR (narrow (gc_beamWidth layer) (gb_beamWidth b)) (\<lambda>beamWidth.
     bindR (narrow (gc_depth layer) (gb_depth b)) (\<lambda>depth.
     bindR (narrow (gc_concurrency layer) (gb_concurrency b)) (\<lambda>concurrency.
       Inr \<lparr>gb_attempts = attempts, gb_deadlineMs = deadlineMs, gb_tokens = tokens, gb_costMicros = costMicros,
            gb_fanOut = fanOut, gb_beamWidth = beamWidth, gb_depth = depth, gb_concurrency = concurrency\<rparr>))))))))"

definition effectiveGraphCeilings :: "decision_graph \<Rightarrow> graph_ceilings list \<Rightarrow> graph_error + graph_budget" where
  "effectiveGraphCeilings g ceilings = foldR applyCeilings (dg_budget g) ceilings"

section \<open>The ledger\<close>

record reservation =
  rs_stage :: int
  rs_estimate :: graph_usage
  rs_now :: int
  rs_stageStart :: int
  rs_settled :: bool

record budget_ledger =
  lg_graph :: decision_graph
  lg_plan :: graph_plan
  lg_limits :: graph_budget
  lg_started :: int
  lg_total :: graph_usage
  lg_stages :: "(int \<times> graph_usage) list"
  lg_active :: "(int \<times> int) list"
  lg_stageStarted :: "(int \<times> int) list"
  lg_cancelled :: bool
  lg_reservations :: "reservation list"

type_synonym clock_reading = "int option"

definition new_ledger ::
    "graph_env \<Rightarrow> decision_graph \<Rightarrow> graph_plan \<Rightarrow> graph_ceilings list \<Rightarrow> clock_reading \<Rightarrow> graph_error + budget_ledger" where
  "new_ledger env g plan ceilings clock =
     (let pins = concat (map (\<lambda>n. [pin_digest (gn_definition n), pin_digest (gn_binding n)]) (dg_nodes g)) in
      bindR (planDecisionGraph env (\<lambda>d. d \<in> set pins) g) (\<lambda>expected.
      thenR (checks [(plan \<noteq> expected, gfail ''graph/plan mismatch'')])
      (bindR (effectiveGraphCeilings g ceilings) (\<lambda>limits.
       case clock of
         None \<Rightarrow> Inl (gfail ''invalid clock'')
       | Some started \<Rightarrow>
           Inr \<lparr>lg_graph = g, lg_plan = plan, lg_limits = limits, lg_started = started, lg_total = no_usage,
                lg_stages = [], lg_active = [], lg_stageStarted = [], lg_cancelled = False, lg_reservations = []\<rparr>))))"

definition cancel_ledger :: "budget_ledger \<Rightarrow> budget_ledger" where
  "cancel_ledger l = l\<lparr>lg_cancelled := True\<rparr>"

definition stage_limit :: "budget_ledger \<Rightarrow> int \<Rightarrow> graph_budget" where
  "stage_limit l stage =
     (case dg_stageBudgets (lg_graph l) of
        None \<Rightarrow> lg_limits l
      | Some bs \<Rightarrow> (case find (\<lambda>b. fst b = stage) bs of None \<Rightarrow> lg_limits l | Some b \<Rightarrow> snd b))"

definition stage_used :: "budget_ledger \<Rightarrow> int \<Rightarrow> graph_usage" where
  "stage_used l stage = opt_default (map_of (lg_stages l) stage) no_usage"

definition stage_active :: "budget_ledger \<Rightarrow> int \<Rightarrow> int" where
  "stage_active l stage = opt_default (map_of (lg_active l) stage) 0"

definition known_stage :: "budget_ledger \<Rightarrow> int \<Rightarrow> bool" where
  "known_stage l stage \<longleftrightarrow> list_ex (\<lambda>s. gs_stage s = stage) (gp_stages (lg_plan l))"

text \<open>\<open>!Number.isFinite(now) || now < started || now - started >= deadlineMs\<close>\<close>

definition out_of_time :: "budget_ledger \<Rightarrow> clock_reading \<Rightarrow> bool" where
  "out_of_time l clock =
     (case clock of
        None \<Rightarrow> True
      | Some now \<Rightarrow> now < lg_started l \<or> now - lg_started l \<ge> gb_deadlineMs (lg_limits l))"

definition reserveAt ::
    "int \<Rightarrow> clock_reading \<Rightarrow> budget_ledger \<Rightarrow> graph_usage \<Rightarrow> graph_error + nat \<times> budget_ledger" where
  "reserveAt stage clock l estimate =
     (let now = opt_default clock 0;
          limit = stage_limit l stage;
          stageStart = opt_default (map_of (lg_stageStarted l) stage) now;
          used = stage_used l stage;
          count = stage_active l stage
      in thenR (checks
        [(lg_cancelled l, gfail ''graph cancelled''),
         (out_of_time l clock, gfail ''graph deadline exhausted''),
         (\<not> known_stage l stage, gfail ''unknown graph stage''),
         (\<not> list_all (\<lambda>f. safe_amount (usage_at estimate f)) usage_fields \<or> us_attempts estimate < 1,
          gfail ''invalid graph estimate''),
         (now - stageStart \<ge> gb_deadlineMs limit, gfail ''stage deadline exhausted''),
         (list_ex (\<lambda>(spent, lim). list_ex (\<lambda>f. usage_at spent f + usage_at estimate f > budget_at lim f) usage_fields)
            [(lg_total l, lg_limits l), (used, limit)], gfail ''graph budget exhausted''),
         (count \<ge> min (gb_concurrency (lg_limits l)) (gb_concurrency limit), gfail ''graph concurrency exhausted'')])
       (Inr (length (lg_reservations l), l
         \<lparr>lg_total := usage_add (lg_total l) estimate,
          lg_stages := AList.update stage (usage_add used estimate) (lg_stages l),
          lg_active := AList.update stage (count + 1) (lg_active l),
          lg_stageStarted := AList.update stage stageStart (lg_stageStarted l),
          lg_reservations := lg_reservations l
            @ [\<lparr>rs_stage = stage, rs_estimate = estimate, rs_now = now, rs_stageStart = stageStart, rs_settled = False\<rparr>]\<rparr>)))"

definition reserve_budget ::
    "int \<Rightarrow> clock_reading \<Rightarrow> graph_usage \<Rightarrow> budget_ledger \<Rightarrow> graph_error + nat \<times> budget_ledger" where
  "reserve_budget stage clock estimate l = reserveAt stage clock l estimate"

text \<open>\<open>estimates.map(estimate => this.reserveAt(...))\<close>: an exception leaves the ledger as it is then.\<close>

fun reserve_each ::
    "int \<Rightarrow> clock_reading \<Rightarrow> budget_ledger \<Rightarrow> graph_usage list \<Rightarrow> (graph_error + nat list) \<times> budget_ledger" where
  "reserve_each stage clock l [] = (Inr [], l)"
| "reserve_each stage clock l (estimate # estimates) =
     (case reserveAt stage clock l estimate of
        Inl e \<Rightarrow> (Inl e, l)
      | Inr (i, l') \<Rightarrow>
          (case reserve_each stage clock l' estimates of
             (Inl e, l'') \<Rightarrow> (Inl e, l'')
           | (Inr is, l'') \<Rightarrow> (Inr (i # is), l'')))"

definition batch_total :: "graph_usage list \<Rightarrow> usage_field \<Rightarrow> int" where
  "batch_total estimates f = foldl (\<lambda>sum e. sum + usage_at e f) 0 estimates"

definition batch_checks :: "int \<Rightarrow> clock_reading \<Rightarrow> graph_usage list \<Rightarrow> budget_ledger \<Rightarrow> graph_error + unit" where
  "batch_checks stage clock estimates l =
     (let now = opt_default clock 0;
          limit = stage_limit l stage
      in checks
        [(estimates = []
            \<or> \<not> list_all (\<lambda>e. list_all (\<lambda>f. safe_amount (usage_at e f)) usage_fields \<and> us_attempts e \<ge> 1) estimates,
          gfail ''invalid graph batch estimate''),
         (lg_cancelled l, gfail ''graph cancelled''),
         (out_of_time l clock \<or> \<not> known_stage l stage, gfail ''graph batch deadline or stage invalid''),
         (now - opt_default (map_of (lg_stageStarted l) stage) now \<ge> gb_deadlineMs limit, gfail ''stage deadline exhausted''),
         (int (length estimates) + stage_active l stage > min (gb_concurrency limit) (gb_concurrency (lg_limits l))
            \<or> list_ex (\<lambda>f. \<not> safe_amount (batch_total estimates f)
                 \<or> usage_at (lg_total l) f + batch_total estimates f > budget_at (lg_limits l) f
                 \<or> usage_at (stage_used l stage) f + batch_total estimates f > budget_at limit f) usage_fields,
          gfail ''graph batch budget exhausted'')])"

definition reserveBatch ::
    "int \<Rightarrow> clock_reading \<Rightarrow> graph_usage list \<Rightarrow> budget_ledger \<Rightarrow> (graph_error + nat list) \<times> budget_ledger" where
  "reserveBatch stage clock estimates l =
     (case batch_checks stage clock estimates l of
        Inl e \<Rightarrow> (Inl e, l)
      | Inr _ \<Rightarrow> reserve_each stage clock l estimates)"

text \<open>The closure of a reservation: it settles once, and an overrun cancels the ledger.\<close>

definition settle_budget ::
    "nat \<Rightarrow> clock_reading \<Rightarrow> graph_usage \<Rightarrow> budget_ledger \<Rightarrow> graph_error option \<times> budget_ledger" where
  "settle_budget i clock actual l =
     (let r = lg_reservations l ! i;
          stage = rs_stage r;
          limit = stage_limit l stage;
          l1 = l\<lparr>lg_reservations := (lg_reservations l)[i := r\<lparr>rs_settled := True\<rparr>],
                 lg_active := AList.update stage (stage_active l stage - 1) (lg_active l)\<rparr>;
          finished = opt_default clock 0
      in if i \<ge> length (lg_reservations l) then (Some (gfail ''no such reservation''), l)
         else if rs_settled r then (Some (gfail ''graph reservation already settled''), l)
         else if \<not> list_all (\<lambda>f. safe_amount (usage_at actual f)) usage_fields
           \<or> list_ex (\<lambda>f. usage_at actual f > usage_at (rs_estimate r) f) usage_fields
           \<or> clock = None \<or> finished < rs_now r
           \<or> finished - lg_started l > gb_deadlineMs (lg_limits l)
           \<or> finished - rs_stageStart r > gb_deadlineMs limit
         then (Some (gfail ''graph usage exceeded reservation''), l1\<lparr>lg_cancelled := True\<rparr>)
         else (None, l1
           \<lparr>lg_total := usage_refund (lg_total l) (rs_estimate r) actual,
            lg_stages := AList.update stage (usage_refund (stage_used l stage) (rs_estimate r) actual) (lg_stages l)\<rparr>))"

section \<open>Runs\<close>

inductive ledger_step :: "budget_ledger \<Rightarrow> budget_ledger \<Rightarrow> bool" where
  reserve: "reserve_budget stage clock estimate l = Inr (i, l') \<Longrightarrow> ledger_step l l'"
| batch: "reserveBatch stage clock estimates l = (result, l') \<Longrightarrow> ledger_step l l'"
| settle: "settle_budget i clock actual l = (result, l') \<Longrightarrow> ledger_step l l'"
| cancel_step: "ledger_step l (cancel_ledger l)"

inductive ledger_run :: "budget_ledger \<Rightarrow> budget_ledger \<Rightarrow> bool" where
  ledger_start: "ledger_run l l"
| ledger_next: "ledger_run l m \<Longrightarrow> ledger_step m n \<Longrightarrow> ledger_run l n"

end
