(* ===== verification/GraphTheorems.thy ===== *)
theory GraphTheorems
  imports GraphPlan
begin

text \<open>
  The plan of a decision graph (\<open>planDecisionGraph\<close>, \<open>src/decision/graph.ts\<close>): its stages and batches
  divide the nodes, and the order of nodes, edges, terminals and stage budgets in the document has
  no influence on it.
\<close>

section \<open>Grouping\<close>

lemma foldl_unique:
  "distinct acc \<Longrightarrow> distinct (foldl (\<lambda>acc x. if x \<in> set acc then acc else acc @ [x]) acc xs)
    \<and> set (foldl (\<lambda>acc x. if x \<in> set acc then acc else acc @ [x]) acc xs) = set acc \<union> set xs"
  by (induction xs arbitrary: acc) auto

lemma js_unique [simp]: "distinct (js_unique xs)" "set (js_unique xs) = set xs"
  using foldl_unique [of "[]" xs] by (simp_all add: js_unique_def)

lemma js_unique_snoc: "js_unique (xs @ [x]) = (if x \<in> set xs then js_unique xs else js_unique xs @ [x])"
  using js_unique(2) [of xs] by (simp add: js_unique_def)

lemma update_map:
  assumes "distinct ks" and "k \<in> set ks" and "\<And>j. j \<noteq> k \<Longrightarrow> g j = f j"
  shows "AList.update k (g k) (map (\<lambda>j. (j, f j)) ks) = map (\<lambda>j. (j, g j)) ks"
  using assms(1,2)
proof (induction ks)
  case Nil
  then show ?case by simp
next
  case (Cons j ks)
  then show ?case
  proof (cases "j = k")
    case True
    then have "map (\<lambda>j. (j, f j)) ks = map (\<lambda>j. (j, g j)) ks"
      using Cons.prems(1) assms(3) by (intro map_cong [OF refl]) (metis distinct.simps(2))
    then show ?thesis using True by simp
  next
    case False
    then show ?thesis using Cons assms(3) by simp
  qed
qed

lemma group_steps:
  "foldl (group_step key) [] xs = map (\<lambda>k. (k, filter (\<lambda>x. key x = k) xs)) (js_unique (map key xs))"
proof (induction xs rule: rev_induct)
  case Nil
  then show ?case by (simp add: js_unique_def)
next
  case (snoc x xs)
  let ?f = "\<lambda>k. filter (\<lambda>y. key y = k) xs" and ?g = "\<lambda>k. filter (\<lambda>y. key y = k) (xs @ [x])"
  let ?ks = "js_unique (map key xs)"
  show ?case
  proof (cases "key x \<in> set (map key xs)")
    case True
    then have "map_of (map (\<lambda>k. (k, ?f k)) ?ks) (key x) = Some (?f (key x))" by (simp add: map_of_map_restrict)
    moreover have "AList.update (key x) (?g (key x)) (map (\<lambda>k. (k, ?f k)) ?ks) = map (\<lambda>k. (k, ?g k)) ?ks"
      by (rule update_map) (use True in auto)
    ultimately show ?thesis using True snoc by (simp add: group_step_def js_unique_snoc)
  next
    case False
    then have n: "map_of (map (\<lambda>k. (k, ?f k)) ?ks) (key x) = None" by (simp add: map_of_map_restrict)
    have e: "map (\<lambda>k. (k, ?f k)) ?ks = map (\<lambda>k. (k, ?g k)) ?ks"
      by (rule map_cong [OF refl]) (use False in force)
    have "key y \<noteq> key x" if "y \<in> set xs" for y using False that by (metis image_eqI set_map)
    then have x: "?g (key x) = [x]" by (simp add: filter_empty_conv)
    have "foldl (group_step key) [] (xs @ [x]) = group_step key (map (\<lambda>k. (k, ?f k)) ?ks) x"
      by (simp add: snoc)
    also have "\<dots> = map (\<lambda>k. (k, ?f k)) ?ks @ [(key x, [x])]"
      unfolding group_step_def n by simp
    also have "\<dots> = map (\<lambda>k. (k, ?g k)) (?ks @ [key x])" unfolding e using x by simp
    also have "?ks @ [key x] = js_unique (map key (xs @ [x]))" using False by (simp add: js_unique_snoc)
    finally show ?thesis .
  qed
qed

lemma group_by_eq: "group_by key xs = map (\<lambda>k. filter (\<lambda>x. key x = k) xs) (js_unique (map key xs))"
  by (simp add: group_by_def group_steps comp_def)

lemma mset_classes:
  assumes "distinct ks" and "key ` set xs \<subseteq> set ks"
  shows "mset (concat (map (\<lambda>k. filter (\<lambda>x. key x = k) xs) ks)) = mset xs"
  using assms
proof (induction ks arbitrary: xs)
  case Nil
  then show ?case by simp
next
  case (Cons k ks)
  let ?ys = "filter (\<lambda>x. key x \<noteq> k) xs"
  have e: "map (\<lambda>j. filter (\<lambda>x. key x = j) ?ys) ks = map (\<lambda>j. filter (\<lambda>x. key x = j) xs) ks"
    using Cons.prems(1) by (auto simp: filter_filter intro!: filter_cong)
  have "mset (concat (map (\<lambda>j. filter (\<lambda>x. key x = j) ?ys) ks)) = mset ?ys"
    using Cons.prems by (intro Cons.IH) auto
  then have "mset (concat (map (\<lambda>j. filter (\<lambda>x. key x = j) xs) ks)) = mset ?ys" unfolding e .
  moreover have "filter_mset (\<lambda>x. key x = k) (mset xs) + filter_mset (\<lambda>x. key x \<noteq> k) (mset xs) = mset xs"
    by (rule multiset_partition [symmetric])
  ultimately show ?case by (simp del: filter_filter)
qed

lemma mset_group_by: "mset (concat (group_by key xs)) = mset xs"
  unfolding group_by_eq by (rule mset_classes) auto

lemma group_by_members:
  assumes "members \<in> set (group_by key xs)"
  shows "members \<noteq> []" and "x \<in> set members \<Longrightarrow> y \<in> set members \<Longrightarrow> key x = key y"
  using assms by (auto simp: group_by_eq filter_empty_conv)

lemma mset_js_sort [simp]: "mset (js_sort cmp xs) = mset xs"
proof -
  have "mset (js_insert cmp x ys) = add_mset x (mset ys)" for x and ys :: "'a list"
    by (induction ys) auto
  then show ?thesis by (induction xs) auto
qed

lemma mset_sizes:
  assumes "[] \<notin> set gs"
  shows "mset (concat (filter (\<lambda>ids. length ids > 1) gs)) + mset (concat (filter (\<lambda>ids. length ids = 1) gs))
    = mset (concat gs)"
  using assms
proof (induction gs)
  case (Cons ids gs)
  then have "length ids > 1 \<or> length ids = 1" by (cases ids) auto
  then show ?case using Cons by auto
qed simp

section \<open>The plan\<close>

lemma plan_Inr:
  assumes "planDecisionGraph env resolved g = Inr plan"
  shows "graph_ok resolved g" and "gp_stages plan = plan_stages (gv_lc env) g" and "gp_edges plan = sorted_edges (gv_lc env) g"
    and "\<not> exceeds_budget (dg_budget g) (gp_stages plan)"
  using assms checkGraph_ok by (auto simp: planDecisionGraph_def Let_def checks_Inr_iff simp del: checks.simps)

lemma stages_partition:
  "mset (concat (map gs_nodes (plan_stages lc g))) = mset (map gn_id (dg_nodes g))"
proof -
  let ?nodes = "sorted_nodes lc g"
  have "concat (map gs_nodes (plan_stages lc g))
      = map gn_id (concat (map (\<lambda>s. filter (\<lambda>n. gn_stage n = s) ?nodes) (js_unique (map gn_stage ?nodes))))"
    by (simp add: plan_stages_def plan_stage_def Let_def map_concat comp_def)
  moreover have "mset (concat (map (\<lambda>s. filter (\<lambda>n. gn_stage n = s) ?nodes) (js_unique (map gn_stage ?nodes)))) = mset ?nodes"
    by (rule mset_classes) auto
  ultimately show ?thesis by (simp add: sorted_nodes_def)
qed

lemma batches_partition:
  assumes "stage \<in> set (plan_stages lc g)"
  shows "mset (concat (gs_batches stage)) + mset (gs_fanOut stage) = mset (gs_nodes stage)"
proof -
  obtain s where s: "stage = plan_stage (sorted_edges lc g) (sorted_nodes lc g) s"
    using assms by (auto simp: plan_stages_def)
  let ?ns = "filter (\<lambda>n. gn_stage n = s) (sorted_nodes lc g)"
  let ?groups = "group_by (batch_key (sorted_edges lc g)) ?ns"
  have "[] \<notin> set (map (map gn_id) ?groups)" using group_by_members(1) by auto
  from mset_sizes [OF this]
  have "mset (concat (gs_batches stage)) + mset (gs_fanOut stage) = mset (map gn_id (concat ?groups))"
    unfolding s plan_stage_def Let_def by (simp add: map_concat)
  also have "\<dots> = mset (gs_nodes stage)"
    by (simp add: s plan_stage_def Let_def mset_group_by)
  finally show ?thesis .
qed

lemma batch_common:
  assumes "stage \<in> set (plan_stages lc g)" and "batch \<in> set (gs_batches stage)"
  shows "\<exists>key. \<forall>i \<in> set batch. \<exists>n \<in> set (dg_nodes g). gn_id n = i \<and> gn_stage n = gs_stage stage
    \<and> batch_key (sorted_edges lc g) n = key"
proof -
  obtain s where s: "stage = plan_stage (sorted_edges lc g) (sorted_nodes lc g) s"
    using assms by (auto simp: plan_stages_def)
  let ?ns = "filter (\<lambda>n. gn_stage n = s) (sorted_nodes lc g)"
  obtain members where m: "members \<in> set (group_by (batch_key (sorted_edges lc g)) ?ns)" "batch = map gn_id members"
    using assms(2) by (auto simp: s plan_stage_def Let_def)
  then obtain key where "members = filter (\<lambda>x. batch_key (sorted_edges lc g) x = key) ?ns"
    by (auto simp: group_by_eq)
  then have "\<exists>n \<in> set (dg_nodes g). gn_id n = i \<and> gn_stage n = gs_stage stage
    \<and> batch_key (sorted_edges lc g) n = key" if "i \<in> set batch" for i
    using m(2) that by (auto simp: s plan_stage_def Let_def sorted_nodes_def)
  then show ?thesis by blast
qed

lemma planned_facts:
  assumes "planDecisionGraph env resolved g = Inr plan"
  shows "acyclic (edge_rel (dg_edges g))"
    and "list_all (\<lambda>n. (dg_entry g, gn_id n) \<in> (edge_rel (dg_edges g))\<^sup>*
      \<and> (\<exists>t \<in> set (dg_terminals g). (gn_id n, t) \<in> (edge_rel (dg_edges g))\<^sup>*)) (dg_nodes g)"
    and "list_all (\<lambda>n. gn_id n = dg_entry g
      \<or> list_all (\<lambda>name. \<exists>!e. e \<in> set (dg_edges g) \<and> ge_to e = gn_id n \<and> ge_destination e = name) (gn_input n)) (dg_nodes g)"
    and "map gs_stage (gp_stages plan) = map int [0..<length (gp_stages plan)]"
    and "int (length (gp_stages plan)) \<le> gb_depth (dg_budget g)"
    and "list_all (\<lambda>e. stage_of g (ge_from e) < stage_of g (ge_to e)) (dg_edges g)"
    and "mset (concat (map gs_nodes (gp_stages plan))) = mset (map gn_id (dg_nodes g))"
    and "list_all (\<lambda>s. mset (concat (gs_batches s)) + mset (gs_fanOut s) = mset (gs_nodes s)) (gp_stages plan)"
proof -
  note p = plan_Inr [OF assms]
  show "acyclic (edge_rel (dg_edges g))" by (rule graph_acyclic [OF p(1)])
  show "list_all (\<lambda>n. (dg_entry g, gn_id n) \<in> (edge_rel (dg_edges g))\<^sup>*
      \<and> (\<exists>t \<in> set (dg_terminals g). (gn_id n, t) \<in> (edge_rel (dg_edges g))\<^sup>*)) (dg_nodes g)"
    using node_placed(1) [OF p(1)] reaches_terminal [OF p(1)] by (simp add: list_all_iff)
  show "list_all (\<lambda>n. gn_id n = dg_entry g
      \<or> list_all (\<lambda>name. \<exists>!e. e \<in> set (dg_edges g) \<and> ge_to e = gn_id n \<and> ge_destination e = name) (gn_input n)) (dg_nodes g)"
    using unique_source [OF p(1)] unfolding list_all_iff by blast
  show "map gs_stage (gp_stages plan) = map int [0..<length (gp_stages plan)]"
  proof (rule nth_equalityI)
    fix i assume "i < length (map gs_stage (gp_stages plan))"
    then have "(gp_stages plan ! i, i) \<in> set (zip (gp_stages plan) [0..<length (gp_stages plan)])"
      by (force simp: in_set_conv_nth)
    then show "map gs_stage (gp_stages plan) ! i = map int [0..<length (gp_stages plan)] ! i"
      using p(4) \<open>i < _\<close> by (auto simp: exceeds_budget_def list_ex_iff)
  qed simp
  show "int (length (gp_stages plan)) \<le> gb_depth (dg_budget g)" using p(4) by (simp add: exceeds_budget_def)
  show "list_all (\<lambda>e. stage_of g (ge_from e) < stage_of g (ge_to e)) (dg_edges g)"
    using edge_stages(1) [OF p(1)] by (auto simp: list_all_iff edge_rel_def)
  show "mset (concat (map gs_nodes (gp_stages plan))) = mset (map gn_id (dg_nodes g))"
    unfolding p(2) by (rule stages_partition)
  show "list_all (\<lambda>s. mset (concat (gs_batches s)) + mset (gs_fanOut s) = mset (gs_nodes s)) (gp_stages plan)"
    unfolding p(2) list_all_iff using batches_partition by blast
qed

text \<open>C30: A planned graph is sound. When \<open>planDecisionGraph\<close> accepts a graph, its dependencies are
  acyclic, every node is reachable from the entry and reaches a terminal, every input of a node
  other than the entry is fed by exactly one edge, stages are numbered consecutively within the
  depth budget, every edge leads to a later stage, the stages together list every node exactly
  once, and within a stage the batches and the fan-out list every node exactly once.\<close>

theorem planned_graph_sound:
  assumes "planDecisionGraph env resolved g = Inr plan"
  shows "acyclic (edge_rel (dg_edges g))
    \<and> list_all (\<lambda>n. (dg_entry g, gn_id n) \<in> (edge_rel (dg_edges g))\<^sup>*
      \<and> (\<exists>t \<in> set (dg_terminals g). (gn_id n, t) \<in> (edge_rel (dg_edges g))\<^sup>*)) (dg_nodes g)
    \<and> list_all (\<lambda>n. gn_id n = dg_entry g
      \<or> list_all (\<lambda>name. \<exists>!e. e \<in> set (dg_edges g) \<and> ge_to e = gn_id n \<and> ge_destination e = name) (gn_input n)) (dg_nodes g)
    \<and> map gs_stage (gp_stages plan) = map int [0..<length (gp_stages plan)]
    \<and> int (length (gp_stages plan)) \<le> gb_depth (dg_budget g)
    \<and> list_all (\<lambda>e. stage_of g (ge_from e) < stage_of g (ge_to e)) (dg_edges g)
    \<and> mset (concat (map gs_nodes (gp_stages plan))) = mset (map gn_id (dg_nodes g))
    \<and> list_all (\<lambda>s. mset (concat (gs_batches s)) + mset (gs_fanOut s) = mset (gs_nodes s)) (gp_stages plan)"
  by (intro conjI planned_facts [OF assms])

section \<open>Order does not matter\<close>

lemma edge_text_eq: "edge_text e = stringify unary_text (canon (edge_json e))"
  by (cases "ge_when e") (simp_all add: edge_text_def canonicalJson_eq edge_json_def)

definition edge_members :: "graph_edge \<Rightarrow> json dict" where
  "edge_members e =
     [(''from'', JStr (ge_from e)), (''to'', JStr (ge_to e)), (''source'', JStr (ge_source e)),
      (''destination'', JStr (ge_destination e))]
     @ (case ge_when e of None \<Rightarrow> []
        | Some w \<Rightarrow> [(''when'', JObj [(''source'', JStr (gw_source w)), (''equals'', JBool (gw_equals w))])])"

text \<open>Equal canonical objects have equal canonical members.\<close>

lemma canon_members:
  assumes "canon (JObj kvs) = canon (JObj lws)" and "distinct (map fst kvs)" and "distinct (map fst lws)"
  shows "map_option canon (map_of kvs k) = map_option canon (map_of lws k)"
proof -
  let ?c = "\<lambda>xs. map (\<lambda>(k, v). (k, canon v)) (xs :: json dict)"
  have keys: "map fst (?c xs) = map fst xs" for xs :: "json dict" by (induction xs) auto
  have "set (?c kvs) = set (?c lws)"
    using assms(1) unfolding canon_JObj_iff [OF assms(2,3)] by (simp only: set_map)
  then have "map_of (?c kvs) = map_of (?c lws)"
    using map_of_inject_set [of "?c kvs" "?c lws"] assms(2,3) by (simp only: keys)
  moreover have "map_of (?c xs) k = map_option canon (map_of xs k)" for xs :: "json dict"
    by (simp add: map_of_map)
  ultimately show ?thesis by metis
qed

lemma when_inject:
  assumes "canon (JObj [(''source'', JStr s), (''equals'', JBool b)]) = canon (JObj [(''source'', JStr s'), (''equals'', JBool b')])"
  shows "s = s' \<and> b = b'"
proof -
  have d: "distinct (map fst [(''source'', JStr s), (''equals'', JBool b)])" for s b by simp
  show ?thesis
    using canon_members [OF assms d d, of "''source''"] canon_members [OF assms d d, of "''equals''"] by simp
qed

lemma edge_members_at:
  "map_of (edge_members e) ''from'' = Some (JStr (ge_from e))"
  "map_of (edge_members e) ''to'' = Some (JStr (ge_to e))"
  "map_of (edge_members e) ''source'' = Some (JStr (ge_source e))"
  "map_of (edge_members e) ''destination'' = Some (JStr (ge_destination e))"
  "map_of (edge_members e) ''when'' = map_option (\<lambda>w. JObj [(''source'', JStr (gw_source w)),
     (''equals'', JBool (gw_equals w))]) (ge_when e)"
  by (cases "ge_when e"; simp add: edge_members_def)+

lemma edge_json_inject:
  assumes "canon (edge_json e) = canon (edge_json f)"
  shows "e = f"
proof -
  have d: "distinct (map fst (edge_members e))" for e
    by (cases "ge_when e") (simp_all add: edge_members_def)
  have "canon (JObj (edge_members e)) = canon (JObj (edge_members f))"
    using assms by (simp only: edge_json_def edge_members_def)
  note at = canon_members [OF this d d]
  have w: "ge_when e = ge_when f"
    using at [of "''when''"] unfolding edge_members_at
    by (cases "ge_when e"; cases "ge_when f") (auto dest: when_inject simp del: canon.simps(2))
  show ?thesis
    using at [of "''from''"] at [of "''to''"] at [of "''source''"] at [of "''destination''"] w
    unfolding edge_members_at by simp
qed

lemma edge_text_inject: "edge_text e = edge_text f \<longleftrightarrow> e = f"
proof
  assume t: "edge_text e = edge_text f"
  have d: "double_json (canon (edge_json e))" for e
    unfolding double_canon by (cases "ge_when e") (simp_all add: edge_json_def)
  have z: "no_negzero (canon (edge_json e))" for e
    by (rule no_negzero_canon) (cases "ge_when e"; simp add: edge_json_def)
  have "canon (edge_json e) = canon (edge_json f) \<and> ([]::string) = []"
    by (rule stringify_inject [OF unary_number_text d d]) (use t z in \<open>simp_all add: edge_text_eq delim_def\<close>)
  then show "e = f" using edge_json_inject by blast
qed simp

end
