(* ===== verification/GraphOrder.thy ===== *)
theory GraphOrder
  imports GraphTheorems
begin

text \<open>
  \<open>planDecisionGraph\<close> (\<open>src/decision/graph.ts\<close>) depends on the content of a graph, not on the order
  in which its document lists nodes, edges, terminals and stage budgets: the checks of the loops as
  a predicate, its invariance, and the sorted lists. \<open>localeCompare\<close> has to order the node ids and
  the texts of the edges totally.
\<close>

section \<open>The checks are a predicate\<close>

lemma checkNodes_intro:
  assumes "distinct (ids @ map gn_id nodes)"
    and "list_all (\<lambda>n. resolved (pin_digest (gn_definition n)) \<and> resolved (pin_digest (gn_binding n))) nodes"
  shows "foldR (checkNode resolved) ids nodes = Inr (ids @ map gn_id nodes)"
  using assms
proof (induction nodes arbitrary: ids)
  case (Cons n nodes)
  then have "foldR (checkNode resolved) (ids @ [gn_id n]) nodes = Inr ((ids @ [gn_id n]) @ map gn_id nodes)"
    by (intro Cons.IH) auto
  moreover have "checkNode resolved ids n = Inr (ids @ [gn_id n])" using Cons.prems by (simp add: checkNode_def)
  ultimately show ?case by simp
qed simp

lemma checkEdges_intro:
  assumes "distinct (map (\<lambda>e. (ge_to e, ge_destination e)) (seen @ es))" and "list_all (edge_ok g) es"
  shows "foldR (checkEdge g) seen es = Inr (seen @ es)"
  using assms
proof (induction es arbitrary: seen)
  case (Cons e es)
  obtain s t where n: "node_of g (ge_from e) = Some s" "node_of g (ge_to e) = Some t" "gn_stage s < gn_stage t"
    "ge_source e \<in> set (gn_output s)" "ge_destination e \<in> set (gn_input t)"
    "\<not> opt_holds (\<lambda>w. gw_source w \<notin> set (gn_output s)) (ge_when e)"
    using Cons.prems(2) by (auto simp: edge_ok_def)
  have i: "gn_id s = ge_from e" "gn_id t = ge_to e" using n(1,2) node_of_id by blast+
  have d: "(ge_to e, ge_destination e) \<notin> (\<lambda>e. (ge_to e, ge_destination e)) ` set seen" using Cons.prems(1) by auto
  then have "ge_from e \<noteq> ge_to e" "e \<notin> set seen" "ge_destination e \<notin> set (inputs_of seen (ge_to e))"
    using n(1-3) by (auto simp: inputs_of_def image_iff)
  then have "checkEdge g seen e = Inr (seen @ [e])" using n i by (simp add: checkEdge_def)
  moreover have "foldR (checkEdge g) (seen @ [e]) es = Inr ((seen @ [e]) @ es)"
    using Cons.prems by (intro Cons.IH) auto
  ultimately show ?case by simp
qed simp

lemma checkGraph_iff: "checkGraph admits resolved g = Inr () \<longleftrightarrow> admits g \<and> graph_ok resolved g"
proof
  assume c: "checkGraph admits resolved g = Inr ()"
  moreover from this have "admits g" by (auto simp: checkGraph_def split: if_splits)
  ultimately show "admits g \<and> graph_ok resolved g" using checkGraph_ok by blast
next
  assume a: "admits g \<and> graph_ok resolved g"
  then have n: "foldR (checkNode resolved) [] (dg_nodes g) = Inr (map gn_id (dg_nodes g))"
    using checkNodes_intro [of "[]" "dg_nodes g"] by (simp add: graph_ok_def)
  from a have e: "foldR (checkEdge g) [] (dg_edges g) = Inr (dg_edges g)"
    using checkEdges_intro [of "[]" "dg_edges g"] by (simp add: graph_ok_def)
  from a show "checkGraph admits resolved g = Inr ()"
    by (auto simp: checkGraph_def n e checks_Inr_iff graph_ok_def list_ex_iff simp del: checks.simps)
qed

section \<open>Reordered documents\<close>

definition reordered :: "decision_graph \<Rightarrow> decision_graph \<Rightarrow> bool" where
  "reordered g h \<longleftrightarrow>
     dg_id h = dg_id g \<and> dg_entry h = dg_entry g \<and> dg_pattern h = dg_pattern g \<and> dg_budget h = dg_budget g
     \<and> mset (dg_terminals h) = mset (dg_terminals g) \<and> mset (dg_nodes h) = mset (dg_nodes g)
     \<and> mset (dg_edges h) = mset (dg_edges g)
     \<and> map_option mset (dg_stageBudgets h) = map_option mset (dg_stageBudgets g)"

lemma list_all_mset: "mset xs = mset ys \<Longrightarrow> list_all P xs \<longleftrightarrow> list_all P ys"
  using mset_eq_setD [of xs ys] by (simp add: list_all_iff)

lemma list_ex_mset: "mset xs = mset ys \<Longrightarrow> list_ex P xs \<longleftrightarrow> list_ex P ys"
  using mset_eq_setD [of xs ys] by (simp add: list_ex_iff)

lemma distinct_map_mset: "mset xs = mset ys \<Longrightarrow> distinct (map f xs) \<longleftrightarrow> distinct (map f ys)"
  by (metis mset_eq_imp_distinct_iff mset_map)

lemma reorderedD:
  assumes "reordered g h"
  shows "dg_id h = dg_id g" "dg_entry h = dg_entry g" "dg_pattern h = dg_pattern g" "dg_budget h = dg_budget g"
    "mset (dg_terminals h) = mset (dg_terminals g)" "mset (dg_nodes h) = mset (dg_nodes g)"
    "mset (dg_edges h) = mset (dg_edges g)" "map_option mset (dg_stageBudgets h) = map_option mset (dg_stageBudgets g)"
  using assms by (simp_all add: reordered_def)

lemma schema_reordered:
  assumes "reordered g h"
  shows "schema_graph h \<longleftrightarrow> schema_graph g"
proof -
  note r = reorderedD [OF assms]
  have "schema_names (dg_terminals h) \<longleftrightarrow> schema_names (dg_terminals g)"
    using list_all_mset [OF r(5), of schema_name] mset_eq_imp_distinct_iff [OF r(5)] by (simp add: schema_names_def)
  moreover have "dg_terminals h = [] \<longleftrightarrow> dg_terminals g = []" "dg_nodes h = [] \<longleftrightarrow> dg_nodes g = []"
    using r(5,6) by (metis mset_zero_iff)+
  moreover have "length (dg_nodes h) = length (dg_nodes g)" "length (dg_edges h) = length (dg_edges g)"
    using r(6,7) by (metis mset_eq_length)+
  moreover have "opt_all (\<lambda>bs. length bs \<le> 128 \<and> list_all P bs) (dg_stageBudgets h)
      \<longleftrightarrow> opt_all (\<lambda>bs. length bs \<le> 128 \<and> list_all P bs) (dg_stageBudgets g)" for P
  proof (cases "dg_stageBudgets g")
    case (Some bs)
    then obtain cs where cs: "dg_stageBudgets h = Some cs" "mset cs = mset bs" using r(8) by auto
    then have "length cs = length bs" by (metis mset_eq_length)
    then show ?thesis using Some cs by (simp add: opt_all_def list_all_mset [OF cs(2)])
  qed (use r(8) in simp)
  ultimately show ?thesis
    using r(1-4) list_all_mset [OF r(6)] list_all_mset [OF r(7)] by (simp add: schema_graph_def)
qed

lemma node_of_reordered:
  assumes "reordered g h" and "distinct (map gn_id (dg_nodes g))"
  shows "node_of h i = node_of g i"
proof -
  note r = reorderedD [OF assms(1)]
  have dh: "distinct (map gn_id (dg_nodes h))" using assms(2) distinct_map_mset [OF r(6), of gn_id] by simp
  have s: "set (dg_nodes h) = set (dg_nodes g)" using r(6) by (rule mset_eq_setD)
  show ?thesis
  proof (cases "node_of g i")
    case None
    then have "\<not> (\<exists>n \<in> set (dg_nodes h). gn_id n = i)" using s by (auto simp: node_of_def find_None_iff)
    then have "node_of h i = None" unfolding node_of_def find_None_iff by blast
    then show ?thesis using None by simp
  next
    case (Some n)
    then have "gn_id n = i" "n \<in> set (dg_nodes h)" using node_of_id s by auto
    then show ?thesis using node_of_member [OF dh] Some by auto
  qed
qed

lemma graph_ok_reordered:
  assumes "reordered g h" and "graph_ok resolved g"
  shows "graph_ok resolved h"
proof -
  note r = reorderedD [OF assms(1)]
  have d: "distinct (map gn_id (dg_nodes g))" using assms(2) by (simp add: graph_ok_def)
  note n = node_of_reordered [OF assms(1) d]
  have e: "edge_ok h = edge_ok g" by (rule ext) (simp add: edge_ok_def n)
  have es: "set (dg_edges h) = set (dg_edges g)" using r(7) by (rule mset_eq_setD)
  then have rel: "edge_rel (dg_edges h) = edge_rel (dg_edges g)" by (simp add: edge_rel_def)
  have "outgoing (dg_edges h) i = [] \<longleftrightarrow> outgoing (dg_edges g) i = []" for i
    using es by (simp add: outgoing_def filter_empty_conv)
  moreover have "set (inputs_of (dg_edges h) i) = set (inputs_of (dg_edges g) i)" for i
    using es by (simp add: inputs_of_def)
  moreover have ts: "set (dg_terminals h) = set (dg_terminals g)" using r(5) by (rule mset_eq_setD)
  ultimately have m: "misplaced h (reached (dg_edges h) 0 [dg_entry h]) = misplaced g (reached (dg_edges g) 0 [dg_entry g])"
    by (intro ext) (simp add: misplaced_def reached_set rel r(2) list_ex_iff es)
  have t: "distinct (dg_terminals h) = distinct (dg_terminals g)" using r(5) by (rule mset_eq_imp_distinct_iff)
  have s: "set (map gn_id (dg_nodes h)) = set (map gn_id (dg_nodes g))" using mset_eq_setD [OF r(6)] by simp
  have "graph_ok resolved h = graph_ok resolved g"
    unfolding graph_ok_def schema_reordered [OF assms(1)] ts n e m [unfolded r(2)] t s r(2) list_all_mset [OF r(6)]
      list_all_mset [OF r(7)] distinct_map_mset [OF r(6)] distinct_map_mset [OF r(7)] list_ex_mset [OF r(6)]
    by (rule refl)
  then show ?thesis using assms(2) by simp
qed

section \<open>The sorted lists\<close>

definition total_text_order :: "(string \<Rightarrow> string \<Rightarrow> int) \<Rightarrow> decision_graph \<Rightarrow> bool" where
  "total_text_order lc g \<longleftrightarrow>
     separating_on (gn_id ` set (dg_nodes g)) lc \<and> separating_on (edge_text ` set (dg_edges g)) lc"

lemma separating_image:
  assumes "separating_on (f ` S) cmp" and "inj_on f S"
  shows "separating_on S (\<lambda>a b. cmp (f a) (f b))"
  using assms unfolding separating_on_def inj_on_def by blast

lemma separating_nodes:
  assumes "separating_on (gn_id ` S) lc" and "inj_on gn_id S"
  shows "separating_on S (node_order lc)"
proof -
  note s = separating_onD [OF separating_image [OF assms]]
  show ?thesis
    unfolding separating_on_def
  proof (intro conjI ballI impI)
    fix x y z assume m: "x \<in> S" "y \<in> S" "z \<in> S" and "node_order lc x y \<le> 0" "node_order lc y z \<le> 0"
    then show "node_order lc x z \<le> 0" using s(2) [OF m] by (auto simp: node_order_def split: if_splits)
  next
    fix x y assume m: "x \<in> S" "y \<in> S"
    show "node_order lc x y \<le> 0 \<or> node_order lc y x \<le> 0" using s(1) [OF m] by (auto simp: node_order_def)
    assume "node_order lc x y \<le> 0" "node_order lc y x \<le> 0"
    then show "x = y" using s(3) [OF m] by (auto simp: node_order_def split: if_splits)
  qed
qed

lemma graph_ok_distinct:
  assumes "graph_ok resolved g"
  shows "distinct (dg_nodes g)" "inj_on gn_id (set (dg_nodes g))" "distinct (dg_edges g)" "distinct (dg_terminals g)"
  using assms by (simp_all add: graph_ok_def distinct_map)

lemma sorted_reordered:
  assumes "reordered g h" and "graph_ok resolved g" and "total_text_order lc g"
  shows "sorted_nodes lc h = sorted_nodes lc g" and "sorted_edges lc h = sorted_edges lc g"
proof -
  note r = reorderedD [OF assms(1)] and d = graph_ok_distinct [OF assms(2)]
  note dh = graph_ok_distinct [OF graph_ok_reordered [OF assms(1,2)]]
  have "separating_on (set (dg_nodes g)) (node_order lc)"
    by (rule separating_nodes) (use assms(3) d(2) in \<open>simp_all add: total_text_order_def\<close>)
  then show "sorted_nodes lc h = sorted_nodes lc g"
    unfolding sorted_nodes_def using r(6) d(1) dh(1)
    by (intro js_sort_set_eq [symmetric] mset_eq_setD [symmetric])
  have "inj_on edge_text (set (dg_edges g))" by (simp add: inj_on_def edge_text_inject)
  then have "separating_on (set (dg_edges g)) (\<lambda>a b. lc (edge_text a) (edge_text b))"
    using assms(3) separating_image [of edge_text] by (simp add: total_text_order_def)
  then show "sorted_edges lc h = sorted_edges lc g"
    unfolding sorted_edges_def using r(7) d(3) dh(3)
    by (intro js_sort_set_eq [symmetric] mset_eq_setD [symmetric])
qed

lemma stage_budgets_sorted:
  assumes "mset cs = mset bs" and "distinct (map fst bs)"
  shows "js_sort (\<lambda>a b. fst a - fst b) cs = js_sort (\<lambda>a b. fst a - fst (b :: int \<times> graph_budget)) bs"
proof (rule js_sort_set_eq)
  have i: "inj_on fst (set bs)" using assms(2) by (simp add: distinct_map)
  show s: "set cs = set bs" using assms(1) by (rule mset_eq_setD)
  show "separating_on (set cs) (\<lambda>a b. fst a - fst b)"
    unfolding s separating_on_def using i by (auto dest: inj_onD)
  show "distinct bs" using assms(2) by (simp add: distinct_map)
  then show "distinct cs" using assms(1) by (metis mset_eq_imp_distinct_iff)
qed

text \<open>C31: The order of a document is irrelevant to its plan. If two graphs differ only in the order of
  their nodes, edges, terminals and stage budgets, and \<open>localeCompare\<close> orders the ids and edge texts
  in use totally, then a plan of the one is the plan of the other, digests included: the plan
  identifies the graph and not its presentation.\<close>

theorem plan_order_irrelevant:
  assumes "reordered g h" and "total_text_order (gv_lc env) g" and "gv_admits env h"
    and "planDecisionGraph env resolved g = Inr plan"
  shows "planDecisionGraph env resolved h = Inr plan"
proof -
  let ?lc = "gv_lc env"
  have ok: "graph_ok resolved g" by (rule plan_Inr(1) [OF assms(4)])
  note r = reorderedD [OF assms(1)] and s = sorted_reordered [OF assms(1) ok assms(2)]
  have c: "checkGraph (gv_admits env) resolved h = Inr ()"
    using graph_ok_reordered [OF assms(1) ok] assms(3) by (simp add: checkGraph_iff)
  have st: "plan_stages ?lc h = plan_stages ?lc g" by (simp add: plan_stages_def s)
  let ?bad = "\<lambda>bs. \<not> distinct (map fst bs) \<or> list_ex (invalid_stage_budget (plan_stages ?lc g)) bs"
  have g: "\<not> exceeds_budget (dg_budget g) (plan_stages ?lc g)" "\<not> opt_holds ?bad (dg_stageBudgets g)"
    using assms(4) by (auto simp: planDecisionGraph_def Let_def checks_Inr_iff simp del: checks.simps)
  have "\<not> opt_holds ?bad (dg_stageBudgets h)
    \<and> map_option (js_sort (\<lambda>a b. fst a - fst b)) (dg_stageBudgets h)
      = map_option (js_sort (\<lambda>a b. fst a - fst b)) (dg_stageBudgets g)"
  proof (cases "dg_stageBudgets g")
    case (Some bs)
    then obtain cs where cs: "dg_stageBudgets h = Some cs" "mset cs = mset bs" using r(8) by auto
    then show ?thesis
      using g(2) Some stage_budgets_sorted [OF cs(2)] distinct_map_mset [OF cs(2), of fst]
        list_ex_mset [OF cs(2), of "invalid_stage_budget (plan_stages ?lc g)"] by simp
  qed (use r(8) in simp)
  moreover have "js_sort code_unit_compare (dg_terminals h) = js_sort code_unit_compare (dg_terminals g)"
    using r(5) graph_ok_distinct(4) [OF ok] graph_ok_distinct(4) [OF graph_ok_reordered [OF assms(1) ok]]
    by (intro js_sort_set_eq [OF separating_code_unit] mset_eq_setD)
  ultimately have k: "canonical_graph ?lc h = canonical_graph ?lc g" and b: "\<not> opt_holds ?bad (dg_stageBudgets h)"
    using r(1-4) by (simp_all add: canonical_graph_def s)
  show ?thesis
    using assms(4) c g b unfolding planDecisionGraph_def Let_def k st s(2) r(4) by auto
qed

section \<open>A planned graph\<close>

text \<open>Two nodes, the second fed by the first.\<close>

definition demo_pin :: artifact_pin where
  "demo_pin = \<lparr>pin_id = ''d'', pin_version = ''1'', pin_digest = ''sha256:'' @ replicate 64 (CHR ''0'')\<rparr>"

definition demo_node :: "string \<Rightarrow> int \<Rightarrow> string list \<Rightarrow> string list \<Rightarrow> graph_node" where
  "demo_node i stage input output =
     \<lparr>gn_id = i, gn_stage = stage, gn_subject = ''s'', gn_target = ''t'', gn_model = ''m'', gn_egress = ''e'',
      gn_stateDigest = pin_digest demo_pin, gn_definition = demo_pin, gn_binding = demo_pin,
      gn_input = input, gn_output = output\<rparr>"

definition demo_graph_budget :: graph_budget where
  "demo_graph_budget = \<lparr>gb_attempts = 4, gb_deadlineMs = 100, gb_tokens = 50, gb_costMicros = 60, gb_fanOut = 2,
     gb_beamWidth = 2, gb_depth = 2, gb_concurrency = 2\<rparr>"

definition demo_edge :: graph_edge where
  "demo_edge = \<lparr>ge_from = ''a'', ge_to = ''b'', ge_source = ''x'', ge_destination = ''y'', ge_when = None\<rparr>"

abbreviation node_a :: graph_node where "node_a \<equiv> demo_node ''a'' 0 [] [''x'']"
abbreviation node_b :: graph_node where "node_b \<equiv> demo_node ''b'' 1 [''y''] []"

definition demo_graph :: "graph_node list \<Rightarrow> decision_graph" where
  "demo_graph nodes =
     \<lparr>dg_id = ''g'', dg_entry = ''a'', dg_terminals = [''b''], dg_pattern = None, dg_nodes = nodes,
      dg_edges = [demo_edge], dg_budget = demo_graph_budget, dg_stageBudgets = Some [(1, demo_graph_budget)]\<rparr>"

definition demo_env :: graph_env where
  "demo_env = \<lparr>gv_admits = (\<lambda>g. True), gv_lc = code_unit_compare, gv_graphDigest = dg_id, gv_planDigest = fst\<rparr>"

lemma alpha_letters: "is_alpha c \<Longrightarrow> schema_name [c]"
  by (simp add: schema_name_def)

lemma letters [simp]:
  "schema_name ''a''" "schema_name ''b''" "schema_name ''d''" "schema_name ''e''" "schema_name ''g''"
  "schema_name ''m''" "schema_name ''s''" "schema_name ''t''" "schema_name ''x''" "schema_name ''y''"
  "schema_version ''1''"
  by (simp_all add: schema_name_def schema_version_def is_alpha_def is_alnum_def less_eq_char_def)

lemma demo_pin_schema [simp]: "schema_pin demo_pin" "schema_digest (pin_digest demo_pin)"
  by (simp_all add: schema_pin_def demo_pin_def schema_digest_def list_all_iff)

lemma demo_schema: "schema_graph (demo_graph [node_a, node_b])"
  by (simp add: schema_graph_def demo_graph_def schema_names_def schema_node_def demo_node_def schema_range_def
      schema_edge_def demo_edge_def opt_all_def schema_graph_budget_def demo_graph_budget_def)

lemma demo_lookup:
  "node_of (demo_graph [node_a, node_b]) ''a'' = Some node_a" "node_of (demo_graph [node_a, node_b]) ''b'' = Some node_b"
  by (simp_all add: node_of_def demo_graph_def demo_node_def)

lemma demo_reached: "reached [demo_edge] 0 [''a''] = [''a'', ''b'']"
  by (simp add: reached.simps outgoing_def demo_edge_def enqueue_def)

lemma demo_fields [simp]:
  "dg_nodes (demo_graph nodes) = nodes" "dg_edges (demo_graph nodes) = [demo_edge]"
  "dg_entry (demo_graph nodes) = ''a''" "dg_terminals (demo_graph nodes) = [''b'']"
  "gn_id (demo_node i st xs ys) = i" "gn_stage (demo_node i st xs ys) = st" "gn_input (demo_node i st xs ys) = xs"
  by (simp_all add: demo_graph_def demo_node_def)

lemma demo_ok: "resolved (pin_digest demo_pin) \<Longrightarrow> graph_ok resolved (demo_graph [node_a, node_b])"
proof -
  assume "resolved (pin_digest demo_pin)"
  then have "resolved (pin_digest (gn_definition (demo_node i st xs ys)))" "resolved (pin_digest (gn_binding (demo_node i st xs ys)))" for i st xs ys
    by (simp_all add: demo_node_def)
  moreover have "edge_ok (demo_graph [node_a, node_b]) demo_edge"
    unfolding edge_ok_def by (simp add: demo_edge_def demo_lookup) (simp add: demo_node_def)
  moreover have "\<not> misplaced (demo_graph [node_a, node_b]) [''a'', ''b''] node_a"
    "\<not> misplaced (demo_graph [node_a, node_b]) [''a'', ''b''] node_b"
    by (simp_all add: misplaced_def demo_node_def demo_graph_def outgoing_def inputs_of_def demo_edge_def)
  ultimately show ?thesis
    using demo_schema demo_lookup by (simp add: graph_ok_def demo_reached)
qed

lemma demo_stages:
  "plan_stages lc (demo_graph [node_a, node_b]) =
     [\<lparr>gs_stage = 0, gs_nodes = [''a''], gs_batches = [], gs_fanOut = [''a'']\<rparr>,
      \<lparr>gs_stage = 1, gs_nodes = [''b''], gs_batches = [], gs_fanOut = [''b'']\<rparr>]"
proof -
  have "sorted_nodes lc (demo_graph [node_a, node_b]) = [node_a, node_b]"
    by (simp add: sorted_nodes_def demo_graph_def node_order_def demo_node_def)
  then show ?thesis
    by (simp add: plan_stages_def js_unique_def plan_stage_def group_by_def group_step_def demo_node_def Let_def)
qed

lemma demo_planned:
  assumes "resolved (pin_digest demo_pin)"
  shows "\<exists>plan. planDecisionGraph demo_env resolved (demo_graph [node_a, node_b]) = Inr plan
    \<and> gp_stages plan = plan_stages code_unit_compare (demo_graph [node_a, node_b])"
proof -
  have "checkGraph (gv_admits demo_env) resolved (demo_graph [node_a, node_b]) = Inr ()"
    by (simp add: checkGraph_iff demo_ok [where resolved = resolved, OF assms] demo_env_def)
  moreover have b: "dg_budget (demo_graph [node_a, node_b]) = demo_graph_budget"
    "dg_stageBudgets (demo_graph [node_a, node_b]) = Some [(1, demo_graph_budget)]"
    by (simp_all add: demo_graph_def)
  ultimately show ?thesis
    by (simp add: planDecisionGraph_def demo_stages exceeds_budget_def invalid_stage_budget_def demo_graph_budget_def Let_def)
qed

lemma planned_graph_sound_witness:
  "\<exists>plan. planDecisionGraph demo_env (\<lambda>d. True) (demo_graph [node_a, node_b]) = Inr plan
    \<and> acyclic (edge_rel (dg_edges (demo_graph [node_a, node_b])))
    \<and> mset (concat (map gs_nodes (gp_stages plan))) = {#''a'', ''b''#}"
proof -
  obtain plan where p: "planDecisionGraph demo_env (\<lambda>d. True) (demo_graph [node_a, node_b]) = Inr plan"
    using demo_planned [of "\<lambda>d. True"] by blast
  have "mset (map gn_id (dg_nodes (demo_graph [node_a, node_b]))) = {#''a'', ''b''#}"
    by (simp add: demo_graph_def demo_node_def)
  with planned_graph_sound [OF p] p show ?thesis by auto
qed

lemma plan_order_irrelevant_witness:
  "\<exists>plan. planDecisionGraph demo_env (\<lambda>d. True) (demo_graph [node_a, node_b]) = Inr plan
    \<and> planDecisionGraph demo_env (\<lambda>d. True) (demo_graph [node_b, node_a]) = Inr plan"
proof -
  obtain plan where p: "planDecisionGraph demo_env (\<lambda>d. True) (demo_graph [node_a, node_b]) = Inr plan"
    using demo_planned [of "\<lambda>d. True"] by blast
  have "reordered (demo_graph [node_a, node_b]) (demo_graph [node_b, node_a])"
    by (simp add: reordered_def demo_graph_def)
  moreover have "total_text_order (gv_lc demo_env) (demo_graph [node_a, node_b])"
    by (simp add: total_text_order_def demo_env_def separating_code_unit)
  ultimately show ?thesis
    using plan_order_irrelevant [OF _ _ _ p, of "demo_graph [node_b, node_a]"] p by (simp add: demo_env_def)
qed

end
