(* ===== verification/GraphBudgetSafety.thy ===== *)
theory GraphBudgetSafety
  imports GraphBudget GraphOrder
begin

text \<open>
  What the budget ledger of a graph guarantees (\<open>src/decision/graph-budget.ts\<close>): every operation
  keeps the invariant \<open>ledger_ok\<close>, a batch is reserved completely or not at all, and ceilings only
  narrow a budget.
\<close>

section \<open>Sums\<close>

lemma sum_list_upd:
  assumes "distinct xs" and "x \<in> set xs"
  shows "sum_list (map (\<lambda>y. if y = x then v else f y) xs) = sum_list (map f xs) - f x + (v :: int)"
  using assms
proof (induction xs)
  case (Cons y ys)
  show ?case
  proof (cases "y = x")
    case True
    then have "map (\<lambda>y. if y = x then v else f y) ys = map f ys" using Cons.prems(1) by auto
    then have "sum_list (map (\<lambda>y. if y = x then v else f y) ys) = sum_list (map f ys)" by (rule arg_cong)
    then show ?thesis using True by simp
  next
    case False
    then show ?thesis using Cons by simp
  qed
qed simp

lemma sum_list_nth_upd:
  "i < length xs \<Longrightarrow> sum_list (map f (xs[i := y])) = sum_list (map f xs) - f (xs ! i) + (f y :: int)"
proof (induction xs arbitrary: i)
  case (Cons x xs)
  then show ?case by (cases i) simp_all
qed simp

section \<open>The invariant\<close>

definition stage_ids :: "budget_ledger \<Rightarrow> int list" where
  "stage_ids l = map gs_stage (gp_stages (lg_plan l))"

text \<open>A sum over the unsettled reservations of a stage.\<close>

definition open_sum :: "(reservation \<Rightarrow> int) \<Rightarrow> int \<Rightarrow> reservation list \<Rightarrow> int" where
  "open_sum f s rs = sum_list (map (\<lambda>r. if rs_stage r = s \<and> \<not> rs_settled r then f r else 0) rs)"

definition within_limits :: "budget_ledger \<Rightarrow> bool" where
  "within_limits l \<longleftrightarrow>
     (\<forall>f. usage_at (lg_total l) f \<le> budget_at (lg_limits l) f)
     \<and> (\<forall>s f. usage_at (stage_used l s) f \<le> budget_at (stage_limit l s) f)
     \<and> (\<forall>s. stage_active l s \<le> min (gb_concurrency (lg_limits l)) (gb_concurrency (stage_limit l s)))"

definition accounts_balance :: "budget_ledger \<Rightarrow> bool" where
  "accounts_balance l \<longleftrightarrow>
     (\<forall>f. usage_at (lg_total l) f = sum_list (map (\<lambda>s. usage_at (stage_used l s) f) (stage_ids l)))
     \<and> (\<forall>s f. open_sum (\<lambda>r. usage_at (rs_estimate r) f) s (lg_reservations l) \<le> usage_at (stage_used l s) f)
     \<and> (\<forall>s. stage_active l s = open_sum (\<lambda>r. 1) s (lg_reservations l))
     \<and> us_attempts (lg_total l) = sum_list (map (\<lambda>r. us_attempts (rs_estimate r)) (lg_reservations l))"

definition ledger_ok :: "budget_ledger \<Rightarrow> bool" where
  "ledger_ok l \<longleftrightarrow>
     distinct (stage_ids l)
     \<and> (\<forall>r \<in> set (lg_reservations l). rs_stage r \<in> set (stage_ids l) \<and> (\<forall>f. 0 \<le> usage_at (rs_estimate r) f))
     \<and> within_limits l \<and> accounts_balance l"

lemma usage_at_add [simp]: "usage_at (usage_add u v) f = usage_at u f + usage_at v f"
  by (cases f) (simp_all add: usage_add_def)

lemma usage_at_refund [simp]:
  "usage_at (usage_refund u e a) f
     = usage_at u f - (if f = Attempts then 0 else usage_at e f - usage_at a f)"
  by (cases f) (simp_all add: usage_refund_def)

lemma refund_attempts [simp]: "us_attempts (usage_refund u e a) = us_attempts u"
  by (simp add: usage_refund_def)

lemma all_fields: "list_all P usage_fields \<longleftrightarrow> (\<forall>f. P f)"
proof -
  have "(\<forall>f. P f) \<longleftrightarrow> P Attempts \<and> P Tokens \<and> P CostMicros" by (metis usage_field.exhaust)
  then show ?thesis by (simp add: usage_fields_def)
qed

lemma ex_fields: "list_ex P usage_fields \<longleftrightarrow> (\<exists>f. P f)"
  using all_fields [of "\<lambda>f. \<not> P f"] unfolding list_all_iff list_ex_iff by blast

text \<open>What the ledger shows after a reservation.\<close>

lemma reserveAt_Inr:
  assumes "reserveAt stage clock l estimate = Inr (i, l')"
  shows "\<not> lg_cancelled l" and "known_stage l stage" and "safe_amount (usage_at estimate f)" and "1 \<le> us_attempts estimate"
    and "usage_at (lg_total l) f + usage_at estimate f \<le> budget_at (lg_limits l) f"
    and "usage_at (stage_used l stage) f + usage_at estimate f \<le> budget_at (stage_limit l stage) f"
    and "stage_active l stage < min (gb_concurrency (lg_limits l)) (gb_concurrency (stage_limit l stage))"
    and "stage_used l' s = (if s = stage then usage_add (stage_used l stage) estimate else stage_used l s)"
    and "stage_active l' s = (if s = stage then stage_active l stage + 1 else stage_active l s)"
    and "lg_total l' = usage_add (lg_total l) estimate"
    and "\<exists>r. lg_reservations l' = lg_reservations l @ [r] \<and> rs_stage r = stage \<and> rs_estimate r = estimate \<and> \<not> rs_settled r"
    and "lg_graph l' = lg_graph l" and "lg_plan l' = lg_plan l" and "lg_limits l' = lg_limits l"
    and "i = length (lg_reservations l)" and "lg_started l' = lg_started l" and "lg_cancelled l' = lg_cancelled l"
    and "map_of (lg_stageStarted l') stage = Some (opt_default (map_of (lg_stageStarted l) stage) (opt_default clock 0))"
    and "opt_default clock 0 - opt_default (map_of (lg_stageStarted l) stage) (opt_default clock 0)
      < gb_deadlineMs (stage_limit l stage)" and "\<not> out_of_time l clock"
proof -
  let ?c = "thenR"
  from assms have c: "\<not> lg_cancelled l \<and> \<not> out_of_time l clock \<and> known_stage l stage
    \<and> list_all (\<lambda>f. safe_amount (usage_at estimate f)) usage_fields \<and> \<not> us_attempts estimate < 1
    \<and> \<not> opt_default clock 0 - opt_default (map_of (lg_stageStarted l) stage) (opt_default clock 0) \<ge> gb_deadlineMs (stage_limit l stage)
    \<and> \<not> list_ex (\<lambda>(spent, lim). list_ex (\<lambda>f. usage_at spent f + usage_at estimate f > budget_at lim f) usage_fields)
          [(lg_total l, lg_limits l), (stage_used l stage, stage_limit l stage)]
    \<and> \<not> stage_active l stage \<ge> min (gb_concurrency (lg_limits l)) (gb_concurrency (stage_limit l stage))"
    unfolding reserveAt_def Let_def thenR_Inr_iff by (simp add: checks_Inr_iff del: checks.simps)
  from assms have l': "i = length (lg_reservations l) \<and> l' = l
         \<lparr>lg_total := usage_add (lg_total l) estimate,
          lg_stages := AList.update stage (usage_add (stage_used l stage) estimate) (lg_stages l),
          lg_active := AList.update stage (stage_active l stage + 1) (lg_active l),
          lg_stageStarted := AList.update stage (opt_default (map_of (lg_stageStarted l) stage) (opt_default clock 0)) (lg_stageStarted l),
          lg_reservations := lg_reservations l
            @ [\<lparr>rs_stage = stage, rs_estimate = estimate, rs_now = opt_default clock 0,
                rs_stageStart = opt_default (map_of (lg_stageStarted l) stage) (opt_default clock 0), rs_settled = False\<rparr>]\<rparr>"
    unfolding reserveAt_def Let_def thenR_Inr_iff by simp
  show "\<not> lg_cancelled l" "known_stage l stage" "safe_amount (usage_at estimate f)" "1 \<le> us_attempts estimate"
    "usage_at (lg_total l) f + usage_at estimate f \<le> budget_at (lg_limits l) f"
    "usage_at (stage_used l stage) f + usage_at estimate f \<le> budget_at (stage_limit l stage) f"
    "stage_active l stage < min (gb_concurrency (lg_limits l)) (gb_concurrency (stage_limit l stage))"
    "opt_default clock 0 - opt_default (map_of (lg_stageStarted l) stage) (opt_default clock 0)
      < gb_deadlineMs (stage_limit l stage)" "\<not> out_of_time l clock"
    using c by (auto simp: all_fields ex_fields not_le not_less)
  show "stage_used l' s = (if s = stage then usage_add (stage_used l stage) estimate else stage_used l s)"
    "stage_active l' s = (if s = stage then stage_active l stage + 1 else stage_active l s)"
    "lg_total l' = usage_add (lg_total l) estimate"
    "\<exists>r. lg_reservations l' = lg_reservations l @ [r] \<and> rs_stage r = stage \<and> rs_estimate r = estimate \<and> \<not> rs_settled r"
    "lg_graph l' = lg_graph l" "lg_plan l' = lg_plan l" "lg_limits l' = lg_limits l"
    "i = length (lg_reservations l)" "lg_started l' = lg_started l" "lg_cancelled l' = lg_cancelled l"
    "map_of (lg_stageStarted l') stage = Some (opt_default (map_of (lg_stageStarted l) stage) (opt_default clock 0))"
    using l' by (simp_all add: stage_used_def stage_active_def update_conv')
qed

lemma stage_limit_frame:
  "lg_graph l' = lg_graph l \<Longrightarrow> lg_limits l' = lg_limits l \<Longrightarrow> stage_limit l' s = stage_limit l s"
  by (simp add: stage_limit_def split: option.splits)

lemma known_stage_iff: "known_stage l s \<longleftrightarrow> s \<in> set (stage_ids l)"
  by (auto simp: known_stage_def stage_ids_def list_ex_iff)

lemma open_sum_snoc:
  "open_sum f s (rs @ [r]) = open_sum f s rs + (if rs_stage r = s \<and> \<not> rs_settled r then f r else 0)"
  by (simp add: open_sum_def)

lemma open_sum_settle:
  assumes "i < length rs" and "\<not> rs_settled (rs ! i)"
  shows "open_sum f s (rs[i := (rs ! i)\<lparr>rs_settled := True\<rparr>])
    = open_sum f s rs - (if rs_stage (rs ! i) = s then f (rs ! i) else 0)"
  using assms by (simp add: open_sum_def sum_list_nth_upd)

lemma reserveAt_ok:
  assumes "reserveAt stage clock l estimate = Inr (i, l')" and "ledger_ok l"
  shows "ledger_ok l'"
proof -
  note e = reserveAt_Inr [OF assms(1)]
  obtain r where r: "lg_reservations l' = lg_reservations l @ [r]" "rs_stage r = stage" "rs_estimate r = estimate" "\<not> rs_settled r"
    using e(11) by blast
  have ids: "stage_ids l' = stage_ids l" using e(13) by (simp add: stage_ids_def)
  have d: "distinct (stage_ids l)" "stage \<in> set (stage_ids l)"
    using assms(2) e(2) by (simp_all add: ledger_ok_def known_stage_iff)
  have lim: "stage_limit l' s = stage_limit l s" for s by (rule stage_limit_frame [OF e(12,14)])
  have W: "within_limits l" and A: "accounts_balance l" using assms(2) by (simp_all add: ledger_ok_def)
  have "within_limits l'"
    unfolding within_limits_def lim e(8,9,10,14) using W e(5-7) unfolding within_limits_def by auto
  moreover have "accounts_balance l'"
    unfolding accounts_balance_def
  proof (intro conjI allI)
    fix f s
    have m: "map (\<lambda>s. usage_at (stage_used l' s) f) (stage_ids l)
        = map (\<lambda>s. if s = stage then usage_at (stage_used l stage) f + usage_at estimate f else usage_at (stage_used l s) f) (stage_ids l)"
      by (simp add: e(8))
    have "sum_list (map (\<lambda>s. usage_at (stage_used l' s) f) (stage_ids l))
        = sum_list (map (\<lambda>s. usage_at (stage_used l s) f) (stage_ids l)) + usage_at estimate f"
      unfolding m using sum_list_upd [OF d, of "usage_at (stage_used l stage) f + usage_at estimate f" "\<lambda>s. usage_at (stage_used l s) f"]
      by linarith
    then show "usage_at (lg_total l') f = sum_list (map (\<lambda>s. usage_at (stage_used l' s) f) (stage_ids l'))"
      using A by (simp add: ids e(10) accounts_balance_def)
    show "open_sum (\<lambda>r. usage_at (rs_estimate r) f) s (lg_reservations l') \<le> usage_at (stage_used l' s) f"
      using A by (simp add: r open_sum_snoc e(8) accounts_balance_def)
    show "stage_active l' s = open_sum (\<lambda>r. 1) s (lg_reservations l')"
      using A by (simp add: r open_sum_snoc e(9) accounts_balance_def)
  next
    show "us_attempts (lg_total l') = sum_list (map (\<lambda>r. us_attempts (rs_estimate r)) (lg_reservations l'))"
      using A by (simp add: r e(10) accounts_balance_def usage_add_def)
  qed
  moreover have "0 \<le> usage_at estimate f" for f using e(3) [of f] by (simp add: safe_amount_def)
  ultimately show ?thesis
    using assms(2) d by (auto simp: ledger_ok_def ids r)
qed

lemma reserve_each_ok: "reserve_each stage clock l estimates = (result, l') \<Longrightarrow> ledger_ok l \<Longrightarrow> ledger_ok l'"
proof (induction estimates arbitrary: l result)
  case (Cons estimate estimates)
  show ?case
  proof (cases "reserveAt stage clock l estimate")
    case (Inl e)
    then show ?thesis using Cons.prems by simp
  next
    case (Inr p)
    obtain i m where p: "p = (i, m)" by (cases p)
    have "ledger_ok m" by (rule reserveAt_ok [OF _ Cons.prems(2)]) (use Inr p in simp)
    then show ?thesis
      using Cons.IH [of m] Cons.prems(1) Inr p
      by (cases "reserve_each stage clock m estimates") (auto split: sum.splits)
  qed
qed simp

lemma settle_ok:
  assumes "settle_budget i clock actual l = (result, l')" and "ledger_ok l"
  shows "ledger_ok l'"
proof (cases "i < length (lg_reservations l) \<and> \<not> rs_settled (lg_reservations l ! i)")
  case False
  then have "l' = l" using assms(1) by (auto simp: settle_budget_def Let_def split: if_splits)
  then show ?thesis using assms(2) by simp
next
  case True
  let ?r = "lg_reservations l ! i"
  let ?s = "rs_stage ?r" and ?e = "rs_estimate ?r"
  define refund :: "usage_field \<Rightarrow> int" where
    "refund f = (if result = None \<and> f \<noteq> Attempts then usage_at ?e f - usage_at actual f else 0)" for f
  have in_range: "i < length (lg_reservations l)" and uns: "\<not> rs_settled ?r" using True by simp_all
  have rm: "?r \<in> set (lg_reservations l)" using in_range by simp
  have W: "within_limits l" and A: "accounts_balance l" and d: "distinct (stage_ids l)" "?s \<in> set (stage_ids l)"
    and pos: "\<And>f. 0 \<le> usage_at ?e f"
    using assms(2) rm by (auto simp: ledger_ok_def)
  have eff: "lg_reservations l' = (lg_reservations l)[i := ?r\<lparr>rs_settled := True\<rparr>]"
    "lg_graph l' = lg_graph l" "lg_plan l' = lg_plan l" "lg_limits l' = lg_limits l"
    "\<And>s. stage_active l' s = (if s = ?s then stage_active l ?s - 1 else stage_active l s)"
    "\<And>f. usage_at (lg_total l') f = usage_at (lg_total l) f - refund f"
    "\<And>s f. usage_at (stage_used l' s) f = usage_at (stage_used l s) f - (if s = ?s then refund f else 0)"
    and give: "\<And>f. 0 \<le> refund f \<and> refund f \<le> usage_at ?e f"
    using assms(1) True pos
    by (auto simp: settle_budget_def Let_def refund_def stage_active_def stage_used_def update_conv' all_fields
        ex_fields safe_amount_def not_less split: if_splits)
  have ids: "stage_ids l' = stage_ids l" using eff(3) by (simp add: stage_ids_def)
  have lim: "stage_limit l' s = stage_limit l s" for s by (rule stage_limit_frame [OF eff(2,4)])
  have "within_limits l'"
    unfolding within_limits_def lim eff(4-7)
  proof (intro conjI allI)
    fix f s
    show "usage_at (lg_total l) f - refund f \<le> budget_at (lg_limits l) f"
      using W give [of f] unfolding within_limits_def by (smt (verit))
    show "usage_at (stage_used l s) f - (if s = ?s then refund f else 0) \<le> budget_at (stage_limit l s) f"
      using W give [of f] unfolding within_limits_def by (smt (verit))
    show "(if s = ?s then stage_active l ?s - 1 else stage_active l s)
      \<le> min (gb_concurrency (lg_limits l)) (gb_concurrency (stage_limit l s))"
      using W unfolding within_limits_def by (smt (verit))
  qed
  moreover have "accounts_balance l'"
    unfolding accounts_balance_def ids
  proof (intro conjI allI)
    fix f s
    have m: "map (\<lambda>s. usage_at (stage_used l' s) f) (stage_ids l)
        = map (\<lambda>s. if s = ?s then usage_at (stage_used l ?s) f - refund f else usage_at (stage_used l s) f) (stage_ids l)"
      by (simp add: eff(7))
    have "sum_list (map (\<lambda>s. usage_at (stage_used l' s) f) (stage_ids l))
        = sum_list (map (\<lambda>s. usage_at (stage_used l s) f) (stage_ids l)) - refund f"
      unfolding m using sum_list_upd [OF d, of "usage_at (stage_used l ?s) f - refund f" "\<lambda>s. usage_at (stage_used l s) f"]
      by linarith
    then show "usage_at (lg_total l') f = sum_list (map (\<lambda>s. usage_at (stage_used l' s) f) (stage_ids l))"
      using A by (simp add: eff(6) accounts_balance_def)
    have "open_sum (\<lambda>r. usage_at (rs_estimate r) f) s (lg_reservations l) \<le> usage_at (stage_used l s) f"
      using A by (simp add: accounts_balance_def)
    then show "open_sum (\<lambda>r. usage_at (rs_estimate r) f) s (lg_reservations l') \<le> usage_at (stage_used l' s) f"
      unfolding eff(1,7) open_sum_settle [OF in_range uns] using give [of f] by auto
    show "stage_active l' s = open_sum (\<lambda>r. 1) s (lg_reservations l')"
      unfolding eff(1,5) open_sum_settle [OF in_range uns] using A by (simp add: accounts_balance_def)
  next
    have "us_attempts (lg_total l') = us_attempts (lg_total l)" using eff(6) [of Attempts] by (simp add: refund_def)
    then show "us_attempts (lg_total l') = sum_list (map (\<lambda>r. us_attempts (rs_estimate r)) (lg_reservations l'))"
      using A by (simp add: eff(1) sum_list_nth_upd [OF in_range] accounts_balance_def)
  qed
  moreover have "rs_stage r \<in> set (stage_ids l) \<and> (\<forall>f. 0 \<le> usage_at (rs_estimate r) f)"
    if "r \<in> set (lg_reservations l')" for r
  proof -
    have "r = ?r\<lparr>rs_settled := True\<rparr> \<or> r \<in> set (lg_reservations l)"
      using that set_update_subset_insert [of "lg_reservations l" i] unfolding eff(1) by blast
    then show ?thesis using assms(2) d(2) pos by (auto simp: ledger_ok_def)
  qed
  ultimately show ?thesis using d(1) by (simp add: ledger_ok_def ids)
qed

lemma reserveBatch_ok: "reserveBatch stage clock estimates l = (result, l') \<Longrightarrow> ledger_ok l \<Longrightarrow> ledger_ok l'"
  using reserve_each_ok by (auto simp: reserveBatch_def split: sum.splits)

lemma cancel_fields:
  "stage_limit (cancel_ledger l) s = stage_limit l s" "stage_used (cancel_ledger l) s = stage_used l s"
  "stage_active (cancel_ledger l) s = stage_active l s" "stage_ids (cancel_ledger l) = stage_ids l"
  "lg_total (cancel_ledger l) = lg_total l" "lg_limits (cancel_ledger l) = lg_limits l"
  "lg_reservations (cancel_ledger l) = lg_reservations l"
proof -
  show "stage_limit (cancel_ledger l) s = stage_limit l s"
    by (rule stage_limit_frame) (simp_all add: cancel_ledger_def)
qed (simp_all add: cancel_ledger_def stage_used_def stage_active_def stage_ids_def)

lemma cancel_ok: "ledger_ok l \<Longrightarrow> ledger_ok (cancel_ledger l)"
  unfolding ledger_ok_def within_limits_def accounts_balance_def cancel_fields by blast

lemma ledger_step_ok: "ledger_step l l' \<Longrightarrow> ledger_ok l \<Longrightarrow> ledger_ok l'"
  by (cases rule: ledger_step.cases)
    (auto simp: reserve_budget_def intro: reserveAt_ok reserveBatch_ok settle_ok cancel_ok)

section \<open>What never changes\<close>

definition same_frame :: "budget_ledger \<Rightarrow> budget_ledger \<Rightarrow> bool" where
  "same_frame l l' \<longleftrightarrow>
     lg_graph l' = lg_graph l \<and> lg_plan l' = lg_plan l \<and> lg_limits l' = lg_limits l
     \<and> (lg_cancelled l \<longrightarrow> lg_cancelled l' \<and> length (lg_reservations l') = length (lg_reservations l))"

lemma same_frame_trans: "same_frame l m \<Longrightarrow> same_frame m n \<Longrightarrow> same_frame l n"
  by (simp add: same_frame_def)

lemma reserveAt_frame: "reserveAt stage clock l estimate = Inr (i, l') \<Longrightarrow> same_frame l l'"
  using reserveAt_Inr(1,12-14) by (simp add: same_frame_def)

lemma reserve_each_frame: "reserve_each stage clock l estimates = (result, l') \<Longrightarrow> same_frame l l'"
proof (induction estimates arbitrary: l result)
  case Nil
  then show ?case by (simp add: same_frame_def)
next
  case (Cons estimate estimates)
  show ?case
  proof (cases "reserveAt stage clock l estimate")
    case (Inl e)
    then show ?thesis using Cons.prems by (simp add: same_frame_def)
  next
    case (Inr p)
    obtain i m where p: "p = (i, m)" by (cases p)
    have "same_frame l m" by (rule reserveAt_frame) (use Inr p in simp)
    moreover have "same_frame m l'"
      using Cons.IH [of m] Cons.prems Inr p
      by (cases "reserve_each stage clock m estimates") (auto split: sum.splits)
    ultimately show ?thesis by (rule same_frame_trans)
  qed
qed

lemma settle_frame: "settle_budget i clock actual l = (result, l') \<Longrightarrow> same_frame l l'"
  by (auto simp: settle_budget_def Let_def same_frame_def split: if_splits)

lemma reserveBatch_frame:
  assumes "reserveBatch stage clock estimates l = (result, l')"
  shows "same_frame l l'"
proof (cases "batch_checks stage clock estimates l")
  case (Inl e)
  then show ?thesis using assms by (simp add: reserveBatch_def same_frame_def)
next
  case (Inr u)
  then show ?thesis using assms by (intro reserve_each_frame) (simp add: reserveBatch_def)
qed

lemma cancel_frame: "same_frame l (cancel_ledger l)"
  by (simp add: same_frame_def cancel_ledger_def)

lemma ledger_step_frame: "ledger_step l l' \<Longrightarrow> same_frame l l'"
  by (erule ledger_step.cases)
    (auto simp: reserve_budget_def intro: reserveAt_frame reserveBatch_frame settle_frame cancel_frame)

lemma ledger_run_frame: "ledger_run l l' \<Longrightarrow> same_frame l l'"
proof (induction rule: ledger_run.induct)
  case (ledger_start l)
  then show ?case by (simp add: same_frame_def)
next
  case (ledger_next l m n)
  then show ?case using ledger_step_frame same_frame_trans by blast
qed

lemma ledger_run_ok: "ledger_run l l' \<Longrightarrow> ledger_ok l \<Longrightarrow> ledger_ok l'"
  by (induction rule: ledger_run.induct) (auto intro: ledger_step_ok)

section \<open>The start\<close>

text \<open>Ceilings only narrow, and keep a positive budget positive.\<close>

definition narrower :: "graph_budget \<Rightarrow> graph_budget \<Rightarrow> bool" where
  "narrower b c \<longleftrightarrow>
     gb_attempts c \<le> gb_attempts b \<and> gb_deadlineMs c \<le> gb_deadlineMs b \<and> gb_tokens c \<le> gb_tokens b
     \<and> gb_costMicros c \<le> gb_costMicros b \<and> gb_fanOut c \<le> gb_fanOut b \<and> gb_beamWidth c \<le> gb_beamWidth b
     \<and> gb_depth c \<le> gb_depth b \<and> gb_concurrency c \<le> gb_concurrency b"

definition positive_budget :: "graph_budget \<Rightarrow> bool" where
  "positive_budget b \<longleftrightarrow>
     1 \<le> gb_attempts b \<and> 1 \<le> gb_deadlineMs b \<and> 1 \<le> gb_tokens b \<and> 1 \<le> gb_costMicros b \<and> 1 \<le> gb_concurrency b"

lemma narrow_Inr: "narrow limit v = Inr w \<Longrightarrow> w \<le> v \<and> (1 \<le> v \<longrightarrow> 1 \<le> w)"
  by (auto simp: narrow_def split: option.splits if_splits)

lemma applyCeilings_Inr:
  assumes "applyCeilings b layer = Inr c"
  shows "narrower b c" and "positive_budget b \<Longrightarrow> positive_budget c"
proof -
  have "narrow (gc_attempts layer) (gb_attempts b) = Inr (gb_attempts c)"
    "narrow (gc_deadlineMs layer) (gb_deadlineMs b) = Inr (gb_deadlineMs c)"
    "narrow (gc_tokens layer) (gb_tokens b) = Inr (gb_tokens c)"
    "narrow (gc_costMicros layer) (gb_costMicros b) = Inr (gb_costMicros c)"
    "narrow (gc_fanOut layer) (gb_fanOut b) = Inr (gb_fanOut c)"
    "narrow (gc_beamWidth layer) (gb_beamWidth b) = Inr (gb_beamWidth c)"
    "narrow (gc_depth layer) (gb_depth b) = Inr (gb_depth c)"
    "narrow (gc_concurrency layer) (gb_concurrency b) = Inr (gb_concurrency c)"
    using assms unfolding applyCeilings_def bindR_Inr_iff by (elim exE conjE, clarsimp)+
  note n = this [THEN narrow_Inr]
  show "narrower b c" unfolding narrower_def using n by blast
  show "positive_budget c" if "positive_budget b" using that n unfolding positive_budget_def by blast
qed

lemma narrower_trans: "narrower a b \<Longrightarrow> narrower b c \<Longrightarrow> narrower a c"
  by (simp add: narrower_def)

lemma ceilings_narrow:
  assumes "effectiveGraphCeilings g ceilings = Inr b"
  shows "narrower (dg_budget g) b" and "positive_budget (dg_budget g) \<Longrightarrow> positive_budget b"
proof -
  have "narrower (dg_budget g) b \<and> (positive_budget (dg_budget g) \<longrightarrow> positive_budget b)"
    using assms unfolding effectiveGraphCeilings_def
  proof (rule foldR_invariant)
    show "narrower (dg_budget g) (dg_budget g) \<and> (positive_budget (dg_budget g) \<longrightarrow> positive_budget (dg_budget g))"
      by (simp add: narrower_def)
  next
    fix s x s'
    assume "narrower (dg_budget g) s \<and> (positive_budget (dg_budget g) \<longrightarrow> positive_budget s)"
      and "applyCeilings s x = Inr s'"
    then show "narrower (dg_budget g) s' \<and> (positive_budget (dg_budget g) \<longrightarrow> positive_budget s')"
      using applyCeilings_Inr narrower_trans by blast
  qed
  then show "narrower (dg_budget g) b" "positive_budget (dg_budget g) \<Longrightarrow> positive_budget b" by simp_all
qed

lemma schema_positive: "schema_graph_budget b \<Longrightarrow> positive_budget b"
  by (simp add: schema_graph_budget_def positive_budget_def schema_range_def)

lemma positive_at: "positive_budget b \<Longrightarrow> 0 \<le> budget_at b f"
  by (cases f) (simp_all add: positive_budget_def)

lemma narrower_at: "narrower b c \<Longrightarrow> budget_at c f \<le> budget_at b f"
  by (cases f) (simp_all add: narrower_def)

lemma new_ledger_ok:
  assumes "new_ledger env g plan ceilings clock = Inr l"
  shows "ledger_ok l" and "lg_graph l = g" and "narrower (dg_budget g) (lg_limits l)" and "lg_plan l = plan"
proof -
  let ?pins = "concat (map (\<lambda>n. [pin_digest (gn_definition n), pin_digest (gn_binding n)]) (dg_nodes g))"
  from assms obtain limits started where p: "planDecisionGraph env (\<lambda>d. d \<in> set ?pins) g = Inr plan"
    and c: "effectiveGraphCeilings g ceilings = Inr limits"
    and l: "l = \<lparr>lg_graph = g, lg_plan = plan, lg_limits = limits, lg_started = started, lg_total = no_usage,
                lg_stages = [], lg_active = [], lg_stageStarted = [], lg_cancelled = False, lg_reservations = []\<rparr>"
    by (auto simp: new_ledger_def Let_def split: option.splits if_splits)
  show "lg_graph l = g" "lg_plan l = plan" by (simp_all add: l)
  show "narrower (dg_budget g) (lg_limits l)" using ceilings_narrow(1) [OF c] by (simp add: l)
  have s: "schema_graph g" using plan_Inr(1) [OF p] by (simp add: graph_ok_def)
  then have pos: "positive_budget limits"
    by (intro ceilings_narrow(2) [OF c] schema_positive) (simp add: schema_graph_def)
  have "positive_budget (stage_limit l st)" for st
  proof (cases "dg_stageBudgets g")
    case (Some bs)
    then have "schema_graph_budget b" if "(i, b) \<in> set bs" for i b
      using s that by (auto simp: schema_graph_def opt_all_def list_all_iff)
    then show ?thesis
      using Some pos by (auto simp: stage_limit_def l find_Some_iff schema_positive nth_mem split: option.splits)
        (metis nth_mem prod.collapse schema_positive)
  qed (simp add: stage_limit_def l pos)
  note pos' = this
  have limits: "lg_limits l = limits" by (simp add: l)
  have none: "stage_used l st = no_usage" "stage_active l st = 0" "lg_total l = no_usage" "lg_reservations l = []" for st
    by (simp_all add: stage_used_def stage_active_def l)
  have zero: "usage_at no_usage f = 0" for f by (cases f) (simp_all add: no_usage_def)
  have "distinct (stage_ids l)"
    using planned_facts(4) [OF p] by (simp add: stage_ids_def l distinct_map)
  moreover have "within_limits l"
    unfolding within_limits_def none zero limits min.bounded_iff
    using positive_at [OF pos] positive_at [OF pos'] pos pos' unfolding positive_budget_def
    by (auto intro: order_trans [of 0 1])
  moreover have "accounts_balance l"
    by (simp add: accounts_balance_def none zero open_sum_def) (simp add: no_usage_def)
  ultimately show "ledger_ok l" by (simp add: ledger_ok_def none)
qed

end
