(* ===== verification/GraphBudgetGuarantees.thy ===== *)
theory GraphBudgetGuarantees
  imports GraphBudgetSafety
begin

text \<open>
  The promises of the budget ledger (\<open>src/decision/graph-budget.ts\<close>), stated over runs from a new
  ledger: spending stays within every ceiling, a batch is claimed completely or not at all, and a
  cancelled ledger grants nothing more.
\<close>

section \<open>Batches\<close>

text \<open>Room for the estimates still to be reserved.\<close>

definition batch_fits :: "int \<Rightarrow> clock_reading \<Rightarrow> graph_usage list \<Rightarrow> budget_ledger \<Rightarrow> bool" where
  "batch_fits stage clock es l \<longleftrightarrow>
     \<not> lg_cancelled l \<and> \<not> out_of_time l clock \<and> known_stage l stage
     \<and> (\<forall>e \<in> set es. (\<forall>f. safe_amount (usage_at e f)) \<and> 1 \<le> us_attempts e)
     \<and> opt_default clock 0 - opt_default (map_of (lg_stageStarted l) stage) (opt_default clock 0)
         < gb_deadlineMs (stage_limit l stage)
     \<and> (\<forall>f. usage_at (lg_total l) f + sum_list (map (\<lambda>e. usage_at e f) es) \<le> budget_at (lg_limits l) f)
     \<and> (\<forall>f. usage_at (stage_used l stage) f + sum_list (map (\<lambda>e. usage_at e f) es) \<le> budget_at (stage_limit l stage) f)
     \<and> int (length es) + stage_active l stage \<le> min (gb_concurrency (lg_limits l)) (gb_concurrency (stage_limit l stage))"

lemma batch_total_sum: "batch_total es f = sum_list (map (\<lambda>e. usage_at e f) es)"
proof -
  have "foldl (\<lambda>sum e. sum + usage_at e f) x es = x + sum_list (map (\<lambda>e. usage_at e f) es)" for x
    by (induction es arbitrary: x) simp_all
  then show ?thesis by (simp add: batch_total_def)
qed

lemma batch_checks_fit:
  assumes "batch_checks stage clock es l = Inr u"
  shows "batch_fits stage clock es l" and "es \<noteq> []"
proof -
  from assms have c: "es \<noteq> [] \<and> list_all (\<lambda>e. list_all (\<lambda>f. safe_amount (usage_at e f)) usage_fields \<and> us_attempts e \<ge> 1) es
    \<and> \<not> lg_cancelled l \<and> \<not> out_of_time l clock \<and> known_stage l stage
    \<and> \<not> opt_default clock 0 - opt_default (map_of (lg_stageStarted l) stage) (opt_default clock 0) \<ge> gb_deadlineMs (stage_limit l stage)
    \<and> \<not> int (length es) + stage_active l stage > min (gb_concurrency (stage_limit l stage)) (gb_concurrency (lg_limits l))
    \<and> \<not> list_ex (\<lambda>f. \<not> safe_amount (batch_total es f)
                 \<or> usage_at (lg_total l) f + batch_total es f > budget_at (lg_limits l) f
                 \<or> usage_at (stage_used l stage) f + batch_total es f > budget_at (stage_limit l stage) f) usage_fields"
    unfolding batch_checks_def Let_def by (simp add: checks_Inr_iff del: checks.simps)
  then show "batch_fits stage clock es l"
    unfolding batch_fits_def batch_total_sum all_fields ex_fields not_le not_less list_all_iff [of _ es]
    by (simp add: not_less)
  show "es \<noteq> []" using c by blast
qed

lemma reserveAt_intro:
  assumes "batch_fits stage clock (e # es) l"
  shows "\<exists>l'. reserveAt stage clock l e = Inr (length (lg_reservations l), l')"
proof -
  have pos: "0 \<le> sum_list (map (\<lambda>e. usage_at e f) es)" for f
    using assms by (intro sum_list_nonneg) (auto simp: batch_fits_def safe_amount_def)
  have "usage_at (lg_total l) f + usage_at e f \<le> budget_at (lg_limits l) f"
    "usage_at (stage_used l stage) f + usage_at e f \<le> budget_at (stage_limit l stage) f" for f
    using assms pos [of f] unfolding batch_fits_def by (auto simp: algebra_simps elim: order_trans [rotated] dest: spec [of _ f])
  then show ?thesis
    using assms unfolding reserveAt_def Let_def thenR_Inr_iff batch_fits_def
    by (simp add: checks_Inr_iff all_fields ex_fields not_le not_less del: checks.simps)
qed

lemma reserveAt_leaves_room:
  assumes "batch_fits stage clock (e # es) l" and "reserveAt stage clock l e = Inr (i, l')"
  shows "batch_fits stage clock es l'"
proof -
  note r = reserveAt_Inr [OF assms(2)]
  have lim: "stage_limit l' stage = stage_limit l stage" by (rule stage_limit_frame [OF r(12,14)])
  have "known_stage l' stage" using r(2,13) by (simp add: known_stage_iff stage_ids_def)
  moreover have "\<not> out_of_time l' clock" using r(20,14,16) by (simp add: out_of_time_def split: option.splits)
  ultimately show ?thesis
    using assms(1) r(19) unfolding batch_fits_def lim
    by (simp add: r(8,9,10,14,17,18) algebra_simps)
qed

lemma reserve_each_all:
  "batch_fits stage clock es l \<Longrightarrow>
   \<exists>l' rs. reserve_each stage clock l es = (Inr [length (lg_reservations l) ..< length (lg_reservations l) + length es], l')
     \<and> lg_reservations l' = lg_reservations l @ rs \<and> map rs_estimate rs = es
     \<and> list_all (\<lambda>r. rs_stage r = stage \<and> \<not> rs_settled r) rs"
proof (induction es arbitrary: l)
  case (Cons e es)
  obtain m where m: "reserveAt stage clock l e = Inr (length (lg_reservations l), m)"
    using reserveAt_intro [OF Cons.prems] by blast
  obtain r where r: "lg_reservations m = lg_reservations l @ [r]" "rs_stage r = stage" "rs_estimate r = e" "\<not> rs_settled r"
    using reserveAt_Inr(11) [OF m] by blast
  obtain l' rs where l': "reserve_each stage clock m es = (Inr [length (lg_reservations m) ..< length (lg_reservations m) + length es], l')"
    "lg_reservations l' = lg_reservations m @ rs" "map rs_estimate rs = es" "list_all (\<lambda>r. rs_stage r = stage \<and> \<not> rs_settled r) rs"
    using Cons.IH [OF reserveAt_leaves_room [OF Cons.prems m]] by blast
  let ?n = "length (lg_reservations l)"
  have "?n # [length (lg_reservations m) ..< length (lg_reservations m) + length es] = [?n ..< ?n + length (e # es)]"
    by (subst (2) upt_conv_Cons) (simp_all add: r(1))
  then show ?case
    using m r l' by (intro exI [of _ l'] exI [of _ "r # rs"]) simp
qed simp

text \<open>C33: A batch is claimed completely or not at all: when \<open>reserveBatch\<close> refuses, the ledger is as it
  was; when it accepts, it hands out one consecutive reservation per estimate, in the order of the
  estimates, all of the asked stage and open. No refusal can come after the first claim.\<close>

theorem batch_all_or_nothing:
  "case reserveBatch stage clock estimates l of
     (Inl e, l') \<Rightarrow> l' = l
   | (Inr is, l') \<Rightarrow>
       estimates \<noteq> [] \<and> is = [length (lg_reservations l) ..< length (lg_reservations l) + length estimates]
       \<and> (\<exists>rs. lg_reservations l' = lg_reservations l @ rs \<and> map rs_estimate rs = estimates
            \<and> list_all (\<lambda>r. rs_stage r = stage \<and> \<not> rs_settled r) rs)"
proof (cases "batch_checks stage clock estimates l")
  case (Inl e)
  then show ?thesis by (simp add: reserveBatch_def)
next
  case (Inr u)
  then show ?thesis
    using reserve_each_all [OF batch_checks_fit(1) [OF Inr]] batch_checks_fit(2) [OF Inr]
    by (auto simp: reserveBatch_def)
qed

section \<open>Bounds\<close>

lemma open_sum_nonneg: "(\<And>r. r \<in> set rs \<Longrightarrow> 0 \<le> f r) \<Longrightarrow> 0 \<le> open_sum f s rs"
  unfolding open_sum_def by (intro sum_list_nonneg) auto

lemma ledger_ok_bounds:
  assumes "ledger_ok l"
  shows "0 \<le> usage_at (stage_used l s) f" and "0 \<le> usage_at (lg_total l) f" and "0 \<le> stage_active l s"
proof -
  have nn: "0 \<le> open_sum (\<lambda>r. usage_at (rs_estimate r) f) s (lg_reservations l)" for s
    using assms by (intro open_sum_nonneg) (simp add: ledger_ok_def)
  then show used: "0 \<le> usage_at (stage_used l s) f" for s
    using assms order_trans unfolding ledger_ok_def accounts_balance_def by blast
  have "0 \<le> sum_list (map (\<lambda>s. usage_at (stage_used l s) f) (stage_ids l))"
    using used by (intro sum_list_nonneg) auto
  then show "0 \<le> usage_at (lg_total l) f"
    using assms unfolding ledger_ok_def accounts_balance_def by simp
  have "0 \<le> open_sum (\<lambda>r. 1) s (lg_reservations l)" by (rule open_sum_nonneg) simp
  then show "0 \<le> stage_active l s" using assms unfolding ledger_ok_def accounts_balance_def by simp
qed

lemma ledger_run_bounds:
  assumes "new_ledger env g plan ceilings clock = Inr l0" and "ledger_run l0 l"
  shows "ledger_ok l" and "usage_at (lg_total l) f \<le> budget_at (dg_budget g) f"
proof -
  note n = new_ledger_ok [OF assms(1)]
  show ok: "ledger_ok l" by (rule ledger_run_ok [OF assms(2) n(1)])
  have "lg_limits l = lg_limits l0" using ledger_run_frame [OF assms(2)] by (simp add: same_frame_def)
  then have "budget_at (lg_limits l) f \<le> budget_at (dg_budget g) f" using narrower_at [OF n(3)] by simp
  moreover have "usage_at (lg_total l) f \<le> budget_at (lg_limits l) f"
    using ok unfolding ledger_ok_def within_limits_def by blast
  ultimately show "usage_at (lg_total l) f \<le> budget_at (dg_budget g) f" by (rule order_trans [rotated])
qed

text \<open>C32: From a new ledger on, whatever the sequence of reservations, batches, settlements and
  cancellations and whatever the clock shows, the usage of every field is between 0 and the budget
  of the graph, that of a stage between 0 and the limit of the stage, the open reservations of a
  stage are as many as the ledger counts and never more than the concurrency of the graph, the total
  is the sum over the stages, and the attempts spent are those of all reservations ever made: none
  is refunded.\<close>

theorem ledger_within_budget:
  assumes "new_ledger env g plan ceilings clock = Inr l0" and "ledger_run l0 l"
  shows "0 \<le> usage_at (lg_total l) f \<and> usage_at (lg_total l) f \<le> budget_at (dg_budget g) f
    \<and> 0 \<le> usage_at (stage_used l s) f \<and> usage_at (stage_used l s) f \<le> budget_at (stage_limit l s) f
    \<and> stage_active l s = int (length (filter (\<lambda>r. rs_stage r = s \<and> \<not> rs_settled r) (lg_reservations l)))
    \<and> stage_active l s \<le> gb_concurrency (dg_budget g)
    \<and> usage_at (lg_total l) f = sum_list (map (\<lambda>s. usage_at (stage_used l s) f) (map gs_stage (gp_stages plan)))
    \<and> us_attempts (lg_total l) = sum_list (map (\<lambda>r. us_attempts (rs_estimate r)) (lg_reservations l))"
proof (intro conjI)
  note ok = ledger_run_bounds(1) [OF assms] and n = new_ledger_ok [OF assms(1)]
  have W: "within_limits l" and A: "accounts_balance l" using ok by (simp_all add: ledger_ok_def)
  have fr: "lg_limits l = lg_limits l0" "lg_plan l = plan"
    using ledger_run_frame [OF assms(2)] n(4) by (simp_all add: same_frame_def)
  show "0 \<le> usage_at (lg_total l) f" "0 \<le> usage_at (stage_used l s) f" using ledger_ok_bounds [OF ok] by blast+
  show "usage_at (lg_total l) f \<le> budget_at (dg_budget g) f" by (rule ledger_run_bounds(2) [OF assms])
  show "usage_at (stage_used l s) f \<le> budget_at (stage_limit l s) f" using W unfolding within_limits_def by blast
  have count: "open_sum (\<lambda>r. 1) s rs = int (length (filter (\<lambda>r. rs_stage r = s \<and> \<not> rs_settled r) rs))" for rs
    by (induction rs) (simp_all add: open_sum_def)
  then show "stage_active l s = int (length (filter (\<lambda>r. rs_stage r = s \<and> \<not> rs_settled r) (lg_reservations l)))"
    using A unfolding accounts_balance_def by simp
  have "stage_active l s \<le> gb_concurrency (lg_limits l)" using W by (simp add: within_limits_def)
  then show "stage_active l s \<le> gb_concurrency (dg_budget g)" using n(3) by (simp add: fr narrower_def)
  show "usage_at (lg_total l) f = sum_list (map (\<lambda>s. usage_at (stage_used l s) f) (map gs_stage (gp_stages plan)))"
    using A unfolding accounts_balance_def stage_ids_def fr by blast
  show "us_attempts (lg_total l) = sum_list (map (\<lambda>r. us_attempts (rs_estimate r)) (lg_reservations l))"
    using A unfolding accounts_balance_def by blast
qed

section \<open>Cancellation\<close>

lemma cancelled_refuses:
  assumes "lg_cancelled l"
  shows "\<exists>e. reserve_budget stage clock estimate l = Inl e" and "\<exists>e. reserveBatch stage clock es l = (Inl e, l)"
proof -
  have "\<nexists>p. reserveAt stage clock l estimate = Inr p" using reserveAt_Inr(1) assms by fast
  then show "\<exists>e. reserve_budget stage clock estimate l = Inl e"
    unfolding reserve_budget_def by (cases "reserveAt stage clock l estimate") auto
  have "\<nexists>u. batch_checks stage clock es l = Inr u" using batch_checks_fit(1) assms unfolding batch_fits_def by blast
  then show "\<exists>e. reserveBatch stage clock es l = (Inl e, l)"
    unfolding reserveBatch_def by (cases "batch_checks stage clock es l") auto
qed

text \<open>A settlement that claims more than was reserved in any field cancels the ledger for good: in
  every later state it is cancelled, holds the same reservations and refuses every reservation and
  every batch, whatever the clock shows.\<close>

theorem overrun_closes_ledger:
  assumes "i < length (lg_reservations l)" and "\<not> rs_settled (lg_reservations l ! i)"
    and "usage_at (rs_estimate (lg_reservations l ! i)) f < usage_at actual f"
    and "ledger_run (snd (settle_budget i clock actual l)) l'"
  shows "lg_cancelled l' \<and> length (lg_reservations l') = length (lg_reservations l)
    \<and> (\<exists>e. reserve_budget stage later estimate l' = Inl e) \<and> (\<exists>e. reserveBatch stage later estimates l' = (Inl e, l'))"
proof -
  let ?m = "snd (settle_budget i clock actual l)"
  have m: "lg_cancelled ?m \<and> length (lg_reservations ?m) = length (lg_reservations l)"
    using assms(1-3) by (auto simp: settle_budget_def Let_def ex_fields)
  then have "lg_cancelled l' \<and> length (lg_reservations l') = length (lg_reservations l)"
    using ledger_run_frame [OF assms(4)] by (simp add: same_frame_def)
  then show ?thesis using cancelled_refuses by blast
qed

section \<open>A ledger at work\<close>

definition demo_usage :: "int \<Rightarrow> int \<Rightarrow> int \<Rightarrow> graph_usage" where
  "demo_usage a t c = \<lparr>us_attempts = a, us_tokens = t, us_costMicros = c\<rparr>"

abbreviation ceilings_of_tokens :: "int \<Rightarrow> graph_ceilings" where
  "ceilings_of_tokens n \<equiv> \<lparr>gc_attempts = None, gc_deadlineMs = None, gc_tokens = Some n, gc_costMicros = None,
     gc_fanOut = None, gc_beamWidth = None, gc_depth = None, gc_concurrency = None\<rparr>"

definition demo_ledger :: "graph_plan \<Rightarrow> budget_ledger" where
  "demo_ledger plan = \<lparr>lg_graph = demo_graph [node_a, node_b], lg_plan = plan,
     lg_limits = demo_graph_budget\<lparr>gb_tokens := 40\<rparr>, lg_started = 10, lg_total = no_usage,
     lg_stages = [], lg_active = [], lg_stageStarted = [], lg_cancelled = False, lg_reservations = []\<rparr>"

lemma demo_new_ledger:
  "\<exists>plan. new_ledger demo_env (demo_graph [node_a, node_b]) plan [ceilings_of_tokens 40] (Some 10) = Inr (demo_ledger plan)
    \<and> map gs_stage (gp_stages plan) = [0, 1]"
proof -
  let ?pins = "concat (map (\<lambda>n. [pin_digest (gn_definition n), pin_digest (gn_binding n)]) [node_a, node_b])"
  have mem: "pin_digest demo_pin \<in> set ?pins" by (simp add: demo_node_def)
  obtain plan where p: "planDecisionGraph demo_env (\<lambda>d. d \<in> set ?pins) (demo_graph [node_a, node_b]) = Inr plan"
    "gp_stages plan = plan_stages code_unit_compare (demo_graph [node_a, node_b])"
    using demo_planned [where resolved = "\<lambda>d. d \<in> set ?pins", OF mem] by (elim exE conjE) (rule that)
  have "effectiveGraphCeilings (demo_graph [node_a, node_b]) [ceilings_of_tokens 40] = Inr (demo_graph_budget\<lparr>gb_tokens := 40\<rparr>)"
    by (simp add: effectiveGraphCeilings_def applyCeilings_def narrow_def demo_graph_def demo_graph_budget_def safe_int_def
        max_safe_integer_def)
  then have "new_ledger demo_env (demo_graph [node_a, node_b]) plan [ceilings_of_tokens 40] (Some 10) = Inr (demo_ledger plan)"
    unfolding new_ledger_def Let_def demo_fields p(1) bindR_simps by (simp add: demo_ledger_def)
  then show ?thesis using p(2) by (auto simp: demo_stages)
qed

text \<open>Two tokens of the forty are reserved in the first stage and one of them is used.\<close>

definition demo_reserved :: "graph_plan \<Rightarrow> budget_ledger" where
  "demo_reserved plan = (demo_ledger plan)
     \<lparr>lg_total := demo_usage 1 2 3, lg_stages := [(0, demo_usage 1 2 3)], lg_active := [(0, 1)], lg_stageStarted := [(0, 11)],
      lg_reservations := [\<lparr>rs_stage = 0, rs_estimate = demo_usage 1 2 3, rs_now = 11, rs_stageStart = 11, rs_settled = False\<rparr>]\<rparr>"

lemma demo_stage_limit: "stage_limit (demo_ledger plan) 0 = demo_graph_budget\<lparr>gb_tokens := 40\<rparr>"
  by (simp add: stage_limit_def demo_ledger_def demo_graph_def)

lemma demo_reserve:
  assumes "map gs_stage (gp_stages plan) = [0, 1]"
  shows "reserve_budget 0 (Some 11) (demo_usage 1 2 3) (demo_ledger plan) = Inr (0, demo_reserved plan)"
proof -
  have "known_stage (demo_ledger plan) 0" using assms by (simp add: known_stage_iff stage_ids_def demo_ledger_def)
  then show ?thesis
    unfolding reserve_budget_def reserveAt_def Let_def demo_stage_limit
    by (simp add: usage_fields_def demo_usage_def safe_amount_def safe_int_def max_safe_integer_def out_of_time_def
        demo_ledger_def demo_graph_budget_def no_usage_def stage_used_def stage_active_def usage_add_def demo_reserved_def)
qed

lemma ledger_within_budget_witness:
  "\<exists>plan l. new_ledger demo_env (demo_graph [node_a, node_b]) plan [ceilings_of_tokens 40] (Some 10) = Inr (demo_ledger plan)
    \<and> ledger_run (demo_ledger plan) l \<and> usage_at (lg_total l) Tokens = 2
    \<and> usage_at (lg_total l) Tokens \<le> budget_at (dg_budget (demo_graph [node_a, node_b])) Tokens"
proof -
  obtain plan where p: "new_ledger demo_env (demo_graph [node_a, node_b]) plan [ceilings_of_tokens 40] (Some 10) = Inr (demo_ledger plan)"
    "map gs_stage (gp_stages plan) = [0, 1]"
    using demo_new_ledger by (elim exE conjE) (rule that)
  have r: "ledger_run (demo_ledger plan) (demo_reserved plan)"
    by (rule ledger_next [OF ledger_start ledger_step.reserve [OF demo_reserve [OF p(2)]]])
  have "usage_at (lg_total (demo_reserved plan)) Tokens = 2" by (simp add: demo_reserved_def demo_usage_def)
  then show ?thesis using p(1) r ledger_within_budget [OF p(1) r, of Tokens 0] by blast
qed

lemma overrun_closes_ledger_witness:
  "\<exists>plan e. lg_cancelled (snd (settle_budget 0 (Some 12) (demo_usage 1 5 3) (demo_reserved plan)))
    \<and> reserve_budget 0 (Some 13) (demo_usage 1 0 0) (snd (settle_budget 0 (Some 12) (demo_usage 1 5 3) (demo_reserved plan))) = Inl e"
proof -
  fix plan
  have "0 < length (lg_reservations (demo_reserved plan))" "\<not> rs_settled (lg_reservations (demo_reserved plan) ! 0)"
    "usage_at (rs_estimate (lg_reservations (demo_reserved plan) ! 0)) Tokens < usage_at (demo_usage 1 5 3) Tokens"
    by (simp_all add: demo_reserved_def demo_usage_def)
  from overrun_closes_ledger [OF this ledger_start] show ?thesis by blast
qed

end
