(* ===== verification/Lifecycle.thy ===== *)
theory Lifecycle
  imports JobContract
begin

text \<open>
  The lifecycle of stored decision data (\<open>src/decision/lifecycle.ts\<close>): policies, legal holds, the
  erasure of a subject and the restore of a backup, over the operations of a host's store. A store
  is a record of functions on its state; an operation that throws returns \<open>Inl\<close> and the state it
  leaves. Times and durations are integers: a number that is not is refused by
  \<open>Number.isSafeInteger\<close>, as an integer out of the safe range is. Values have their declared
  types, so that the \<open>typeof\<close> and \<open>Array.isArray\<close> tests on them are left out; copies are the values.
\<close>

section \<open>Policies\<close>

definition DECISION_LIFECYCLE_VERSION :: string where
  "DECISION_LIFECYCLE_VERSION = ''decision-lifecycle/v1''"

definition DECISION_LIFECYCLE_SURFACES :: "string list" where
  "DECISION_LIFECYCLE_SURFACES =
     [''state'', ''receipt'', ''trace'', ''debug-sidecar'', ''cache'', ''job'', ''review'',
      ''calibration'', ''evaluation'', ''export'', ''preprocessing-lineage'']"

record lifecycle_rule =
  lr_classification :: string
  lr_accessScopes :: "string list"
  lr_retentionMs :: int
  lr_export :: string
  lr_deletion :: string
  lr_backup :: string

record lifecycle_policy =
  lp_version :: string
  lp_surfaces :: "lifecycle_rule dict"

record lifecycle_reference =
  rf_surface :: string
  rf_opaqueId :: string

record lifecycle_hold =
  lh_subject :: string
  lh_reason :: string
  lh_scope :: "string list"
  lh_expiresAt :: int
  lh_authorizedBy :: string

record lifecycle_tombstone =
  tb_subject :: string
  tb_reference :: lifecycle_reference
  tb_deletedAt :: int

datatype lifecycle_error = LifecycleError string

definition known_surface :: "string \<Rightarrow> bool" where
  "known_surface s \<longleftrightarrow> s \<in> set DECISION_LIFECYCLE_SURFACES"

definition incomplete_rule :: "lifecycle_rule \<Rightarrow> bool" where
  "incomplete_rule rule \<longleftrightarrow>
     lr_classification rule \<notin> {''public'', ''internal'', ''confidential'', ''restricted''}
     \<or> lr_accessScopes rule = [] \<or> list_ex (\<lambda>scope. scope = []) (lr_accessScopes rule)
     \<or> \<not> safe_int (lr_retentionMs rule) \<or> lr_retentionMs rule \<le> 0
     \<or> lr_export rule \<notin> {''denied'', ''sanitized''} \<or> lr_deletion rule \<notin> {''erase'', ''tombstone''}
     \<or> lr_backup rule \<notin> {''not-persisted'', ''expire-with-primary''}"

definition validateDecisionLifecyclePolicy :: "lifecycle_policy \<Rightarrow> lifecycle_error + unit" where
  "validateDecisionLifecyclePolicy policy =
     thenR (checks
       [(lp_version policy \<noteq> DECISION_LIFECYCLE_VERSION
           \<or> length (lp_surfaces policy) \<noteq> length DECISION_LIFECYCLE_SURFACES
           \<or> list_ex (\<lambda>(surface, rule). \<not> known_surface surface) (lp_surfaces policy),
         LifecycleError ''Decision lifecycle policy is incomplete'')])
     (forEach (\<lambda>surface. checks
         [(case map_of (lp_surfaces policy) surface of None \<Rightarrow> True | Some rule \<Rightarrow> incomplete_rule rule,
           LifecycleError ''Decision lifecycle rule is incomplete'')]) DECISION_LIFECYCLE_SURFACES)"

section \<open>Stores\<close>

type_synonym ('s, 'a) lifecycle_action = "'s \<Rightarrow> (lifecycle_error + 'a) \<times> 's"

record 's lifecycle_store =
  lf_erase :: "lifecycle_reference \<Rightarrow> ('s, unit) lifecycle_action"
  lf_tombstone :: "lifecycle_tombstone \<Rightarrow> ('s, unit) lifecycle_action"
  lf_links :: "string \<Rightarrow> 's \<Rightarrow> lifecycle_error + lifecycle_reference list"
  lf_holds :: "string \<Rightarrow> 's \<Rightarrow> lifecycle_error + lifecycle_hold list"
  lf_recordHold :: "lifecycle_hold \<Rightarrow> ('s, unit) lifecycle_action"
  lf_releaseHold :: "lifecycle_hold \<Rightarrow> string \<Rightarrow> string \<Rightarrow> int \<Rightarrow> ('s, unit) lifecycle_action"

text \<open>\<open>try { approved = await authorize(...) } catch {}\<close>: an authorizer that throws is \<open>None\<close>.\<close>

definition approved :: "bool option \<Rightarrow> bool" where
  "approved decision \<longleftrightarrow> decision = Some True"

definition placeDecisionLifecycleHold ::
    "lifecycle_hold \<Rightarrow> (lifecycle_hold \<Rightarrow> bool option) \<Rightarrow> 's lifecycle_store \<Rightarrow> int
     \<Rightarrow> ('s, lifecycle_hold) lifecycle_action" where
  "placeDecisionLifecycleHold hold authorize store now s =
     (if lh_subject hold = [] \<or> lh_reason hold = [] \<or> lh_authorizedBy hold = [] \<or> lh_scope hold = []
        \<or> list_ex (\<lambda>surface. \<not> known_surface surface) (lh_scope hold)
        \<or> \<not> safe_int (lh_expiresAt hold) \<or> lh_expiresAt hold \<le> now
      then (Inl (LifecycleError ''Decision lifecycle hold denied''), s)
      else if \<not> approved (authorize hold) then (Inl (LifecycleError ''Decision lifecycle hold denied''), s)
      else (case lf_recordHold store hold s of
              (Inl e, s') \<Rightarrow> (Inl (LifecycleError ''Decision lifecycle hold recording failed''), s')
            | (Inr _, s') \<Rightarrow> (Inr hold, s')))"

definition releaseDecisionLifecycleHold ::
    "lifecycle_hold \<Rightarrow> string \<Rightarrow> string \<Rightarrow> (lifecycle_hold \<Rightarrow> string \<Rightarrow> bool option) \<Rightarrow> 's lifecycle_store \<Rightarrow> int
     \<Rightarrow> ('s, unit) lifecycle_action" where
  "releaseDecisionLifecycleHold hold actor reason authorize store now s =
     (if actor = [] \<or> reason = [] \<or> \<not> safe_int now \<or> now < 0
      then (Inl (LifecycleError ''Decision lifecycle hold release denied''), s)
      else if \<not> approved (authorize hold actor) then (Inl (LifecycleError ''Decision lifecycle hold release denied''), s)
      else (case lf_releaseHold store hold actor reason now s of
              (Inl e, s') \<Rightarrow> (Inl (LifecycleError ''Decision lifecycle hold release failed''), s')
            | (Inr _, s') \<Rightarrow> (Inr (), s')))"

section \<open>Erasure\<close>

definition tombstone_of :: "string \<Rightarrow> int \<Rightarrow> lifecycle_reference \<Rightarrow> lifecycle_tombstone" where
  "tombstone_of subject now reference = \<lparr>tb_subject = subject, tb_reference = reference, tb_deletedAt = now\<rparr>"

definition invalid_reference :: "lifecycle_reference \<Rightarrow> bool" where
  "invalid_reference reference \<longleftrightarrow> \<not> known_surface (rf_surface reference) \<or> rf_opaqueId reference = []"

text \<open>The tombstone is published before the erasure.\<close>

fun erase_references ::
    "'s lifecycle_store \<Rightarrow> string \<Rightarrow> int \<Rightarrow> lifecycle_reference list \<Rightarrow> ('s, lifecycle_tombstone list) lifecycle_action" where
  "erase_references store subject now [] s = (Inr [], s)"
| "erase_references store subject now (reference # references) s =
     (if invalid_reference reference then (Inl (LifecycleError ''Decision lifecycle reference invalid''), s)
      else case lf_tombstone store (tombstone_of subject now reference) s of
        (Inl e, s1) \<Rightarrow> (Inl (LifecycleError ''Decision lifecycle erasure failed''), s1)
      | (Inr _, s1) \<Rightarrow>
          (case lf_erase store reference s1 of
             (Inl e, s2) \<Rightarrow> (Inl (LifecycleError ''Decision lifecycle erasure failed''), s2)
           | (Inr _, s2) \<Rightarrow>
               (case erase_references store subject now references s2 of
                  (Inl e, s3) \<Rightarrow> (Inl e, s3)
                | (Inr ts, s3) \<Rightarrow> (Inr (tombstone_of subject now reference # ts), s3))))"

definition blocking_hold :: "string \<Rightarrow> int \<Rightarrow> lifecycle_reference list \<Rightarrow> lifecycle_hold \<Rightarrow> bool" where
  "blocking_hold subject now links hold \<longleftrightarrow>
     lh_subject hold = subject \<and> lh_expiresAt hold > now \<and> list_ex (\<lambda>link. rf_surface link \<in> set (lh_scope hold)) links"

definition eraseDecisionSubject ::
    "string \<Rightarrow> lifecycle_policy \<Rightarrow> 's lifecycle_store \<Rightarrow> int \<Rightarrow> ('s, lifecycle_tombstone list) lifecycle_action" where
  "eraseDecisionSubject subject policy store now s =
     (case validateDecisionLifecyclePolicy policy of
        Inl e \<Rightarrow> (Inl e, s)
      | Inr _ \<Rightarrow>
        if subject = [] \<or> \<not> safe_int now \<or> now < 0 then (Inl (LifecycleError ''Decision lifecycle deletion denied''), s)
        else case lf_links store subject s of
          Inl e \<Rightarrow> (Inl (LifecycleError ''Decision lifecycle lookup failed''), s)
        | Inr links \<Rightarrow>
            (case lf_holds store subject s of
               Inl e \<Rightarrow> (Inl (LifecycleError ''Decision lifecycle lookup failed''), s)
             | Inr holds \<Rightarrow>
                 if list_ex (blocking_hold subject now links) holds
                 then (Inl (LifecycleError ''Decision lifecycle deletion denied by hold''), s)
                 else erase_references store subject now links s))"

section \<open>Restoring\<close>

definition same_reference :: "lifecycle_reference \<Rightarrow> lifecycle_reference \<Rightarrow> bool" where
  "same_reference a b \<longleftrightarrow> rf_surface a = rf_surface b \<and> rf_opaqueId a = rf_opaqueId b"

definition tombstoned :: "lifecycle_tombstone list \<Rightarrow> lifecycle_reference \<Rightarrow> bool" where
  "tombstoned tombstones reference \<longleftrightarrow> list_ex (\<lambda>value. same_reference (tb_reference value) reference) tombstones"

definition retention_of :: "lifecycle_policy \<Rightarrow> string \<Rightarrow> int" where
  "retention_of policy surface = (case map_of (lp_surfaces policy) surface of None \<Rightarrow> 0 | Some rule \<Rightarrow> lr_retentionMs rule)"

definition mayRestoreDecisionReference ::
    "lifecycle_reference \<Rightarrow> int \<Rightarrow> int \<Rightarrow> lifecycle_policy \<Rightarrow> lifecycle_tombstone list \<Rightarrow> lifecycle_error + bool" where
  "mayRestoreDecisionReference reference createdAt now policy tombstones =
     thenR (validateDecisionLifecyclePolicy policy)
     (Inr (if \<not> known_surface (rf_surface reference) \<or> \<not> safe_int createdAt \<or> \<not> safe_int now \<or> now < createdAt then False
           else \<not> tombstoned tombstones reference \<and> now - createdAt < retention_of policy (rf_surface reference)))"

record lifecycle_backup_entry =
  be_subject :: string
  be_reference :: lifecycle_reference
  be_createdAt :: int

datatype restore_refusal = RefusedInvalid | RefusedTombstoned | RefusedExpired | RefusedNotPersisted | RefusedUnavailable

record restore_report =
  rp_restored :: "lifecycle_backup_entry list"
  rp_refused :: "(lifecycle_backup_entry \<times> restore_refusal) list"

text \<open>A restore handler of a surface: it may throw (\<open>False\<close>) and changes the state of the host.\<close>

type_synonym 's restore_handlers = "string \<Rightarrow> (string \<Rightarrow> 's \<Rightarrow> bool \<times> 's) option"

definition restore_refusal_of ::
    "lifecycle_policy \<Rightarrow> lifecycle_tombstone list \<Rightarrow> 's restore_handlers \<Rightarrow> int \<Rightarrow> lifecycle_backup_entry
     \<Rightarrow> restore_refusal option" where
  "restore_refusal_of policy tombstones restore now entry =
     (let reference = be_reference entry in
      if be_subject entry = [] \<or> rf_opaqueId reference = [] \<or> \<not> known_surface (rf_surface reference)
        \<or> \<not> safe_int (be_createdAt entry) \<or> be_createdAt entry > now then Some RefusedInvalid
      else if tombstoned tombstones reference then Some RefusedTombstoned
      else if map_option lr_backup (map_of (lp_surfaces policy) (rf_surface reference)) = Some ''not-persisted''
        then Some RefusedNotPersisted
      else if mayRestoreDecisionReference reference (be_createdAt entry) now policy tombstones \<noteq> Inr True
        then Some RefusedExpired
      else if restore (rf_surface reference) = None then Some RefusedUnavailable
      else None)"

fun restore_entries ::
    "lifecycle_policy \<Rightarrow> lifecycle_tombstone list \<Rightarrow> 's restore_handlers \<Rightarrow> int \<Rightarrow> lifecycle_backup_entry list
     \<Rightarrow> restore_report \<Rightarrow> ('s, restore_report) lifecycle_action" where
  "restore_entries policy tombstones restore now [] report s = (Inr report, s)"
| "restore_entries policy tombstones restore now (entry # entries) report s =
     (case restore_refusal_of policy tombstones restore now entry of
        Some reason \<Rightarrow>
          restore_entries policy tombstones restore now entries (report\<lparr>rp_refused := rp_refused report @ [(entry, reason)]\<rparr>) s
      | None \<Rightarrow>
          (case restore (rf_surface (be_reference entry)) of
             None \<Rightarrow> (Inl (LifecycleError ''Decision lifecycle restore failed''), s)
           | Some handler \<Rightarrow>
               (case handler (rf_opaqueId (be_reference entry)) s of
                  (False, s') \<Rightarrow> (Inl (LifecycleError ''Decision lifecycle restore failed''), s')
                | (True, s') \<Rightarrow> restore_entries policy tombstones restore now entries
                    (report\<lparr>rp_restored := rp_restored report @ [entry]\<rparr>) s')))"

definition restoreDecisionSubjectBackup ::
    "lifecycle_backup_entry list \<Rightarrow> lifecycle_policy \<Rightarrow> lifecycle_tombstone list \<Rightarrow> 's restore_handlers \<Rightarrow> int
     \<Rightarrow> ('s, restore_report) lifecycle_action" where
  "restoreDecisionSubjectBackup backup policy tombstones restore now s =
     (case validateDecisionLifecyclePolicy policy of
        Inl e \<Rightarrow> (Inl e, s)
      | Inr _ \<Rightarrow>
        if \<not> safe_int now \<or> now < 0 then (Inl (LifecycleError ''Decision lifecycle restore denied''), s)
        else restore_entries policy tombstones restore now backup \<lparr>rp_restored = [], rp_refused = []\<rparr> s)"

end
