(* ===== verification/LifecycleJournal.thy ===== *)
theory LifecycleJournal
  imports Lifecycle
begin

text \<open>
  The local lifecycle journal (\<open>FileDecisionLifecycleStore\<close>, \<open>src/decision/file-lifecycle-store.ts\<close>): an
  append-only list of entries, from which links, tombstones and holds are read. The content itself
  is outside the journal: its state is the set of references that can still be queried, which
  erasers shrink and restore handlers grow. An append may fail or be cut off in the middle of its
  line; how the next appends end is part of the host. A line that is no entry is \<open>TornEntry\<close>. Whether
  two holds have the same text is whether they are equal. A directory that is not private fails the
  append before it writes.
\<close>

section \<open>The journal\<close>

datatype lifecycle_entry =
  LinkEntry string lifecycle_reference
| TombstoneEntry lifecycle_tombstone
| HoldEntry lifecycle_hold
| ReleaseEntry string lifecycle_hold string string int
| TornEntry

text \<open>
  How \<open>writeFile\<close> and \<open>sync\<close> of a line end: with the line written and synced; with an error, and the
  whole line, nothing of it, a part of it, or all but its newline in the file. A process that stops
  during the append leaves what one of the last three leaves.
\<close>

datatype append_outcome = Written | SyncFailed | NothingWritten | PartWritten | NewlineMissing

text \<open>The lines of the journal, whether the last one lacks its newline, how the next appends end
  (those beyond the list succeed), and the content.\<close>

record lifecycle_host =
  hs_entries :: "lifecycle_entry list"
  hs_open :: bool
  hs_writes :: "append_outcome list"
  hs_content :: "lifecycle_reference set"

text \<open>The eraser of a surface, if there is one, and whether it succeeds on an id.\<close>

type_synonym lifecycle_erasers = "string \<Rightarrow> (string \<Rightarrow> bool) option"

definition opaque_char :: "char \<Rightarrow> bool" where
  "opaque_char c \<longleftrightarrow> is_alnum c \<or> c = CHR ''_'' \<or> c = CHR ''.'' \<or> c = CHR ''-''"

definition OPAQUE :: "string \<Rightarrow> bool" where
  "OPAQUE s \<longleftrightarrow> (case s of [] \<Rightarrow> False | c # cs \<Rightarrow> is_alnum c \<and> list_all opaque_char cs)"

definition opaque_reference :: "lifecycle_reference \<Rightarrow> bool" where
  "opaque_reference r \<longleftrightarrow> known_surface (rf_surface r) \<and> OPAQUE (rf_opaqueId r)"

definition valid_hold :: "lifecycle_hold \<Rightarrow> bool" where
  "valid_hold h \<longleftrightarrow>
     OPAQUE (lh_subject h) \<and> lh_reason h \<noteq> [] \<and> lh_authorizedBy h \<noteq> [] \<and> safe_int (lh_expiresAt h)
     \<and> lh_scope h \<noteq> [] \<and> list_all known_surface (lh_scope h)"

fun validEntry :: "lifecycle_entry \<Rightarrow> bool" where
  "validEntry (LinkEntry subject reference) \<longleftrightarrow> OPAQUE subject \<and> opaque_reference reference"
| "validEntry (TombstoneEntry t) \<longleftrightarrow>
     OPAQUE (tb_subject t) \<and> opaque_reference (tb_reference t) \<and> safe_int (tb_deletedAt t) \<and> 0 \<le> tb_deletedAt t"
| "validEntry (HoldEntry h) \<longleftrightarrow> valid_hold h"
| "validEntry (ReleaseEntry subject h actor reason time) \<longleftrightarrow>
     valid_hold h \<and> subject = lh_subject h \<and> actor \<noteq> [] \<and> reason \<noteq> [] \<and> safe_int time \<and> 0 \<le> time"
| "validEntry TornEntry \<longleftrightarrow> False"

text \<open>\<open>O_APPEND\<close>: what is written joins a last line that lacks its newline. No proper beginning of the text of
  an object, and no such text or beginning of one followed by the beginning of another, is a JSON
  text. The error of the file system is whatever it is.\<close>

definition append_outcome_of :: "lifecycle_host \<Rightarrow> append_outcome" where
  "append_outcome_of s = (case hs_writes s of [] \<Rightarrow> Written | w # ws \<Rightarrow> w)"

definition append_entry :: "lifecycle_entry \<Rightarrow> lifecycle_host \<Rightarrow> (lifecycle_error + unit) \<times> lifecycle_host" where
  "append_entry e s =
     (let outcome = append_outcome_of s in
      (if outcome = Written then Inr () else Inl (LifecycleError ''I/O error''),
       s\<lparr>hs_entries :=
           (if outcome = NothingWritten then hs_entries s
            else if hs_open s then butlast (hs_entries s) @ [TornEntry]
            else hs_entries s @ [if outcome = PartWritten then TornEntry else e]),
         hs_open := (if outcome = NothingWritten then hs_open s else outcome = PartWritten \<or> outcome = NewlineMissing),
         hs_writes := tl (hs_writes s)\<rparr>))"

definition journal_entries :: "lifecycle_host \<Rightarrow> lifecycle_error + lifecycle_entry list" where
  "journal_entries s =
     (if list_ex (\<lambda>e. \<not> validEntry e) (hs_entries s) then Inl (LifecycleError ''Lifecycle journal invalid'')
      else Inr (hs_entries s))"

definition not_opaque :: lifecycle_error where
  "not_opaque = LifecycleError ''Lifecycle reference must be opaque''"

definition register_link :: "string \<Rightarrow> lifecycle_reference \<Rightarrow> (lifecycle_host, unit) lifecycle_action" where
  "register_link subject reference s =
     (if \<not> OPAQUE subject \<or> \<not> opaque_reference reference then (Inl not_opaque, s)
      else append_entry (LinkEntry subject reference) s)"

text \<open>\<open>[...new Map(...).values()]\<close>, keyed by surface and id.\<close>

definition reference_key :: "lifecycle_reference \<Rightarrow> string" where
  "reference_key r = rf_surface r @ '':'' @ rf_opaqueId r"

definition unique_references :: "lifecycle_reference list \<Rightarrow> lifecycle_reference list" where
  "unique_references refs = map snd (foldl (\<lambda>m r. AList.update (reference_key r) r m) [] refs)"

fun linked_to :: "string \<Rightarrow> lifecycle_entry \<Rightarrow> lifecycle_reference list" where
  "linked_to subject (LinkEntry s r) = (if s = subject then [r] else [])"
| "linked_to subject _ = []"

definition journal_links :: "string \<Rightarrow> lifecycle_host \<Rightarrow> lifecycle_error + lifecycle_reference list" where
  "journal_links subject s =
     thenR (checks [(\<not> OPAQUE subject, not_opaque)])
     (bindR (journal_entries s) (\<lambda>es. Inr (unique_references (concat (map (linked_to subject) es)))))"

definition journal_tombstone :: "lifecycle_tombstone \<Rightarrow> (lifecycle_host, unit) lifecycle_action" where
  "journal_tombstone value s =
     (if \<not> OPAQUE (tb_subject value) \<or> \<not> opaque_reference (tb_reference value) then (Inl not_opaque, s)
      else append_entry (TombstoneEntry value) s)"

fun tombstone_in :: "lifecycle_entry \<Rightarrow> lifecycle_tombstone list" where
  "tombstone_in (TombstoneEntry t) = [t]"
| "tombstone_in _ = []"

definition tombstones_in :: "lifecycle_host \<Rightarrow> lifecycle_tombstone list" where
  "tombstones_in s = concat (map tombstone_in (hs_entries s))"

definition journal_tombstones :: "string \<Rightarrow> lifecycle_host \<Rightarrow> lifecycle_error + lifecycle_tombstone list" where
  "journal_tombstones subject s =
     thenR (checks [(\<not> OPAQUE subject, not_opaque)])
     (bindR (journal_entries s) (\<lambda>es. Inr (filter (\<lambda>t. tb_subject t = subject) (concat (map tombstone_in es)))))"

datatype reference_state = Linked | Tombstoned int | Unknown

definition resolveReference :: "lifecycle_reference \<Rightarrow> lifecycle_host \<Rightarrow> lifecycle_error + reference_state" where
  "resolveReference reference s =
     thenR (checks [(\<not> opaque_reference reference, not_opaque)])
     (bindR (journal_entries s) (\<lambda>es. Inr
        (case find (\<lambda>t. same_reference (tb_reference t) reference) (concat (map tombstone_in es)) of
           Some t \<Rightarrow> Tombstoned (tb_deletedAt t)
         | None \<Rightarrow> if list_ex (\<lambda>e. case e of LinkEntry _ r \<Rightarrow> same_reference r reference | _ \<Rightarrow> False) es
                   then Linked else Unknown)))"

definition journal_erase :: "lifecycle_erasers \<Rightarrow> lifecycle_reference \<Rightarrow> (lifecycle_host, unit) lifecycle_action" where
  "journal_erase erasers reference s =
     (if \<not> opaque_reference reference then (Inl not_opaque, s)
      else case erasers (rf_surface reference) of
        None \<Rightarrow> (Inl (LifecycleError ''Lifecycle eraser unavailable''), s)
      | Some eraser \<Rightarrow>
          if eraser (rf_opaqueId reference) then (Inr (), s\<lparr>hs_content := hs_content s - {reference}\<rparr>)
          else (Inl (LifecycleError ''Lifecycle erasure failed''), s))"

text \<open>The holds that are recorded and not released; a release ends the first equal hold.\<close>

fun replay_hold :: "string \<Rightarrow> lifecycle_hold list \<Rightarrow> lifecycle_entry \<Rightarrow> lifecycle_hold list" where
  "replay_hold subject active (HoldEntry h) = (if lh_subject h = subject then active @ [h] else active)"
| "replay_hold subject active (ReleaseEntry s h actor reason time) = (if s = subject then remove1 h active else active)"
| "replay_hold subject active _ = active"

definition journal_holds :: "string \<Rightarrow> lifecycle_host \<Rightarrow> lifecycle_error + lifecycle_hold list" where
  "journal_holds subject s =
     thenR (checks [(\<not> OPAQUE subject, not_opaque)])
     (bindR (journal_entries s) (\<lambda>es. Inr (foldl (replay_hold subject) [] es)))"

definition journal_recordHold :: "lifecycle_hold \<Rightarrow> (lifecycle_host, unit) lifecycle_action" where
  "journal_recordHold hold s =
     (if \<not> validEntry (HoldEntry hold) then (Inl (LifecycleError ''Lifecycle hold invalid''), s)
      else append_entry (HoldEntry hold) s)"

definition journal_releaseHold ::
    "lifecycle_hold \<Rightarrow> string \<Rightarrow> string \<Rightarrow> int \<Rightarrow> (lifecycle_host, unit) lifecycle_action" where
  "journal_releaseHold hold actor reason time s =
     (let release = ReleaseEntry (lh_subject hold) hold actor reason time in
      if \<not> OPAQUE (lh_subject hold) then (Inl not_opaque, s)
      else if \<not> validEntry release then (Inl (LifecycleError ''Lifecycle release invalid''), s)
      else case journal_holds (lh_subject hold) s of
        Inl e \<Rightarrow> (Inl e, s)
      | Inr active \<Rightarrow>
          if hold \<notin> set active then (Inl (LifecycleError ''Lifecycle release invalid''), s)
          else append_entry release s)"

definition FileDecisionLifecycleStore :: "lifecycle_erasers \<Rightarrow> lifecycle_host lifecycle_store" where
  "FileDecisionLifecycleStore erasers =
     \<lparr>lf_erase = journal_erase erasers, lf_tombstone = journal_tombstone, lf_links = journal_links,
      lf_holds = journal_holds, lf_recordHold = journal_recordHold, lf_releaseHold = journal_releaseHold\<rparr>"

section \<open>Runs\<close>

text \<open>The effects of an erasure, in order. The first that fails is the last; a process may stop between any
  two of them, and within an append as \<open>append_outcome\<close> says.\<close>

datatype lifecycle_effect = PublishTombstone lifecycle_tombstone | EraseContent lifecycle_reference

fun apply_lifecycle_effect :: "lifecycle_erasers \<Rightarrow> lifecycle_effect \<Rightarrow> (lifecycle_host, unit) lifecycle_action" where
  "apply_lifecycle_effect erasers (PublishTombstone t) s = journal_tombstone t s"
| "apply_lifecycle_effect erasers (EraseContent r) s = journal_erase erasers r s"

fun run_lifecycle_effects :: "lifecycle_erasers \<Rightarrow> lifecycle_effect list \<Rightarrow> (lifecycle_host, unit) lifecycle_action" where
  "run_lifecycle_effects erasers [] s = (Inr (), s)"
| "run_lifecycle_effects erasers (e # es) s =
     (case apply_lifecycle_effect erasers e s of
        (Inl x, s') \<Rightarrow> (Inl x, s')
      | (Inr _, s') \<Rightarrow> run_lifecycle_effects erasers es s')"

definition erasure_effects :: "string \<Rightarrow> int \<Rightarrow> lifecycle_reference list \<Rightarrow> lifecycle_effect list" where
  "erasure_effects subject now refs = concat (map (\<lambda>r. [PublishTombstone (tombstone_of subject now r), EraseContent r]) refs)"

text \<open>The handlers of a restore, for the surfaces that have one; one that throws restores nothing.\<close>

definition restore_content :: "(string \<Rightarrow> (string \<Rightarrow> bool) option) \<Rightarrow> lifecycle_host restore_handlers" where
  "restore_content available surface =
     map_option (\<lambda>works i s. if works i
       then (True, s\<lparr>hs_content := insert \<lparr>rf_surface = surface, rf_opaqueId = i\<rparr> (hs_content s)\<rparr>)
       else (False, s)) (available surface)"

text \<open>
  Everything a host does: links, holds, releases, erasures (complete, failing or stopped), content that
  a surface writes under any reference, and restores that are shown any list of tombstones. Nothing
  in the code ties the last two to the journal, so the steps do not either; a step is labelled with
  what it did.
\<close>

datatype lifecycle_act = JournalUsed | ContentWritten lifecycle_reference | BackupRestored "lifecycle_tombstone list"

inductive lifecycle_step :: "lifecycle_policy \<Rightarrow> lifecycle_host \<Rightarrow> lifecycle_act \<Rightarrow> lifecycle_host \<Rightarrow> bool" for policy where
  link_step: "lifecycle_step policy s JournalUsed (snd (register_link subject reference s))"
| hold_step:
    "lifecycle_step policy s JournalUsed (snd (placeDecisionLifecycleHold hold authorize (FileDecisionLifecycleStore erasers) now s))"
| release_step:
    "lifecycle_step policy s JournalUsed
       (snd (releaseDecisionLifecycleHold hold actor reason authorize2 (FileDecisionLifecycleStore erasers) now s))"
| erase_step:
    "lifecycle_step policy s JournalUsed (snd (eraseDecisionSubject subject policy (FileDecisionLifecycleStore erasers) now s))"
| crash_step:
    "validateDecisionLifecyclePolicy policy = Inr () \<Longrightarrow> subject \<noteq> [] \<Longrightarrow> safe_int now \<Longrightarrow> 0 \<le> now \<Longrightarrow>
     journal_links subject s = Inr links \<Longrightarrow> journal_holds subject s = Inr holds \<Longrightarrow>
     \<not> list_ex (blocking_hold subject now links) holds \<Longrightarrow>
     lifecycle_step policy s JournalUsed (snd (run_lifecycle_effects erasers (take n (erasure_effects subject now links)) s))"
| write_step: "lifecycle_step policy s (ContentWritten reference) (s\<lparr>hs_content := insert reference (hs_content s)\<rparr>)"
| restore_step:
    "lifecycle_step policy s (BackupRestored tombstones)
       (snd (restoreDecisionSubjectBackup backup policy tombstones (restore_content available) now s))"

text \<open>A run and what its steps did, each with the state it started from.\<close>

inductive lifecycle_run ::
    "lifecycle_policy \<Rightarrow> lifecycle_host \<Rightarrow> (lifecycle_host \<times> lifecycle_act) list \<Rightarrow> lifecycle_host \<Rightarrow> bool" for policy where
  lifecycle_start: "lifecycle_run policy s [] s"
| lifecycle_next: "lifecycle_run policy s acts m \<Longrightarrow> lifecycle_step policy m act n \<Longrightarrow> lifecycle_run policy s (acts @ [(m, act)]) n"

end
