(* ===== verification/LifecycleSafety.thy ===== *)
theory LifecycleSafety
  imports LifecycleJournal
begin

text \<open>
  What the lifecycle of a subject's data guarantees (\<open>src/decision/lifecycle.ts\<close> over the journal of
  \<open>src/decision/file-lifecycle-store.ts\<close>). The locale states what an erasure needs from a store; the
  journal provides it. The theorems follow erased content and legal holds along every run of a host.
\<close>

section \<open>What an erasure needs\<close>

text \<open>
  Facts about the state that survive every store operation (\<open>kept\<close>), a tombstone that a
  successful publication leaves, and an erasure that removes content.
\<close>

locale tombstone_store =
  fixes store :: "'s lifecycle_store"
    and marked :: "'s \<Rightarrow> lifecycle_tombstone \<Rightarrow> bool"
    and content :: "'s \<Rightarrow> lifecycle_reference set"
  assumes tombstone_marks: "lf_tombstone store t s = (Inr (), s') \<Longrightarrow> marked s' t"
    and tombstone_keeps: "lf_tombstone store t s = (result, s') \<Longrightarrow> marked s m \<Longrightarrow> marked s' m"
    and tombstone_content: "lf_tombstone store t s = (result, s') \<Longrightarrow> content s' = content s"
    and erase_keeps: "lf_erase store reference s = (result, s') \<Longrightarrow> marked s m \<Longrightarrow> marked s' m"
    and erase_removes: "lf_erase store reference s = (Inr (), s') \<Longrightarrow> reference \<notin> content s'"
    and erase_shrinks: "lf_erase store reference s = (result, s') \<Longrightarrow> content s' \<subseteq> content s"
begin

lemma erase_references_keeps:
  "erase_references store subject now refs s = (result, s') \<Longrightarrow> marked s m \<Longrightarrow> marked s' m"
proof (induction refs arbitrary: s result)
  case (Cons ref refs)
  then show ?case
    using tombstone_keeps erase_keeps by (auto split: if_splits prod.splits sum.splits)
qed simp

lemma erase_references_shrinks:
  "erase_references store subject now refs s = (result, s') \<Longrightarrow> content s' \<subseteq> content s"
proof (induction refs arbitrary: s result)
  case (Cons ref refs)
  obtain r1 s1 where t: "lf_tombstone store (tombstone_of subject now ref) s = (r1, s1)" by fastforce
  obtain r2 s2 where e: "lf_erase store ref s1 = (r2, s2)" by fastforce
  have c: "content s1 = content s" "content s2 \<subseteq> content s1"
    using tombstone_content [OF t] erase_shrinks [OF e] by auto
  show ?case
    using Cons.prems Cons.IH [of s2] c
    by (auto simp: t e split: if_splits prod.splits sum.splits)
qed simp

text \<open>A complete erasure: every reference is marked and its content is gone.\<close>

lemma erase_references_complete:
  "erase_references store subject now refs s = (Inr ts, s') \<Longrightarrow>
   ts = map (tombstone_of subject now) refs \<and> (\<forall>r \<in> set refs. marked s' (tombstone_of subject now r) \<and> r \<notin> content s')"
proof (induction refs arbitrary: s ts)
  case (Cons ref refs)
  from Cons.prems obtain s1 s2 ts' where t: "lf_tombstone store (tombstone_of subject now ref) s = (Inr (), s1)"
    and e: "lf_erase store ref s1 = (Inr (), s2)" and rest: "erase_references store subject now refs s2 = (Inr ts', s')"
    and ts: "ts = tombstone_of subject now ref # ts'"
    by (auto split: if_splits prod.splits sum.splits)
  have "marked s2 (tombstone_of subject now ref)" by (rule erase_keeps [OF e tombstone_marks [OF t]])
  moreover have "ref \<notin> content s2" by (rule erase_removes [OF e])
  ultimately have "marked s' (tombstone_of subject now ref)" "ref \<notin> content s'"
    using erase_references_keeps [OF rest] erase_references_shrinks [OF rest] by auto
  then show ?case using Cons.IH [OF rest] ts by simp
qed simp

text \<open>However an erasure ends, what it erased was marked before.\<close>

lemma erase_references_marks:
  "erase_references store subject now refs s = (result, s') \<Longrightarrow> r \<in> content s \<Longrightarrow> r \<notin> content s' \<Longrightarrow>
   (\<And>t u q v. lf_erase store t u = (q, v) \<Longrightarrow> content u - {t} \<subseteq> content v) \<Longrightarrow>
   marked s' (tombstone_of subject now r)"
proof (induction refs arbitrary: s result)
  case (Cons ref refs)
  obtain r1 s1 where t: "lf_tombstone store (tombstone_of subject now ref) s = (r1, s1)" by fastforce
  obtain r2 s2 where e: "lf_erase store ref s1 = (r2, s2)" by fastforce
  note c = tombstone_content [OF t]
  show ?case
  proof (cases "invalid_reference ref \<or> r1 \<noteq> Inr ()")
    case True
    then show ?thesis using Cons.prems c t by (auto split: if_splits sum.splits)
  next
    case False
    then have m1: "marked s1 (tombstone_of subject now ref)" using tombstone_marks t by fastforce
    show ?thesis
    proof (cases "r \<in> content s2")
      case True
      then show ?thesis
        using Cons.prems(1,3,4) False Cons.IH [OF _ True] by (auto simp: t e split: if_splits prod.splits sum.splits)
    next
      case gone: False
      then have "r = ref" using Cons.prems(2,4) e c by blast
      then have m2: "marked s2 (tombstone_of subject now r)" using erase_keeps [OF e m1] by simp
      show ?thesis
        using Cons.prems(1) False m2 erase_references_keeps
        by (auto simp: t e split: if_splits prod.splits sum.splits)
    qed
  qed
qed simp

end

section \<open>The journal as a store\<close>

lemma same_reference_iff: "same_reference a b \<longleftrightarrow> a = (b :: lifecycle_reference)"
  by (auto simp: same_reference_def)

lemma tombstoned_iff: "tombstoned ts r \<longleftrightarrow> r \<in> tb_reference ` set ts"
  by (auto simp: tombstoned_def list_ex_iff same_reference_iff)

text \<open>A journal with a line of which only a part was written cannot be read again.\<close>

definition cut_line :: "lifecycle_host \<Rightarrow> bool" where
  "cut_line s \<longleftrightarrow> TornEntry \<in> set (hs_entries s)"

definition marked_in :: "lifecycle_host \<Rightarrow> lifecycle_tombstone \<Rightarrow> bool" where
  "marked_in s t \<longleftrightarrow> cut_line s \<or> t \<in> set (tombstones_in s)"

lemma file_store_fields [simp]:
  "lf_erase (FileDecisionLifecycleStore erasers) = journal_erase erasers"
  "lf_tombstone (FileDecisionLifecycleStore erasers) = journal_tombstone"
  "lf_links (FileDecisionLifecycleStore erasers) = journal_links"
  "lf_holds (FileDecisionLifecycleStore erasers) = journal_holds"
  "lf_recordHold (FileDecisionLifecycleStore erasers) = journal_recordHold"
  "lf_releaseHold (FileDecisionLifecycleStore erasers) = journal_releaseHold"
  by (simp_all add: FileDecisionLifecycleStore_def)

lemma append_content [simp]: "hs_content (snd (append_entry e s)) = hs_content s"
  by (simp add: append_entry_def Let_def)

lemma append_kept:
  shows "cut_line s \<Longrightarrow> cut_line (snd (append_entry e s))"
    and "cut_line (snd (append_entry e s)) \<or> hs_entries (snd (append_entry e s)) = hs_entries s
      \<or> hs_entries (snd (append_entry e s)) = hs_entries s @ [e]"
    and "append_entry e s = (Inr (), s') \<Longrightarrow> cut_line s' \<or> hs_entries s' = hs_entries s @ [e]"
  by (auto simp: append_entry_def cut_line_def Let_def split: if_splits)

lemma tombstones_grow: "hs_entries s' = hs_entries s @ es \<Longrightarrow> tombstones_in s' = tombstones_in s @ concat (map tombstone_in es)"
  by (simp add: tombstones_in_def)

lemma append_marked: "marked_in s t \<Longrightarrow> marked_in (snd (append_entry e s)) t"
  using append_kept(1) [of s e] append_kept(2) [of e s] tombstones_grow [of "snd (append_entry e s)" s "[]"]
    tombstones_grow [of "snd (append_entry e s)" s "[e]"]
  unfolding marked_in_def by auto

lemma append_marks: "append_entry (TombstoneEntry t) s = (Inr (), s') \<Longrightarrow> marked_in s' t"
  using append_kept(3) [of "TombstoneEntry t" s s'] tombstones_grow [of s' s "[TombstoneEntry t]"]
  unfolding marked_in_def by auto

lemma journal_tombstone_cases:
  assumes "journal_tombstone t s = (result, s')"
  shows "s' = s \<and> result \<noteq> Inr () \<or> append_entry (TombstoneEntry t) s = (result, s')"
  using assms by (auto simp: journal_tombstone_def split: if_splits)

lemma journal_erase_cases:
  assumes "journal_erase erasers r s = (result, s')"
  shows "s' = s \<and> result \<noteq> Inr () \<or> s' = s\<lparr>hs_content := hs_content s - {r}\<rparr> \<and> result = Inr ()"
  using assms by (auto simp: journal_erase_def split: if_splits option.splits)

lemma content_update [simp]:
  "tombstones_in (s\<lparr>hs_content := C\<rparr>) = tombstones_in s" "cut_line (s\<lparr>hs_content := C\<rparr>) = cut_line s"
  "marked_in (s\<lparr>hs_content := C\<rparr>) t = marked_in s t"
  by (simp_all add: tombstones_in_def cut_line_def marked_in_def)

interpretation lifecycle_journal: tombstone_store "FileDecisionLifecycleStore erasers" marked_in hs_content for erasers
proof unfold_locales
  fix t s s'
  assume "lf_tombstone (FileDecisionLifecycleStore erasers) t s = (Inr (), s')"
  then show "marked_in s' t" using journal_tombstone_cases append_marks by fastforce
next
  fix t s result s' m
  assume "lf_tombstone (FileDecisionLifecycleStore erasers) t s = (result, s')" and "marked_in s m"
  then show "marked_in s' m" using journal_tombstone_cases append_marked by (metis file_store_fields(2) snd_conv)
next
  fix t s result s'
  assume "lf_tombstone (FileDecisionLifecycleStore erasers) t s = (result, s')"
  then show "hs_content s' = hs_content s" using journal_tombstone_cases append_content by (metis file_store_fields(2) snd_conv)
next
  fix ref s result s' m
  assume "lf_erase (FileDecisionLifecycleStore erasers) ref s = (result, s')" and "marked_in s m"
  then show "marked_in s' m" using journal_erase_cases by fastforce
next
  fix ref s s'
  assume "lf_erase (FileDecisionLifecycleStore erasers) ref s = (Inr (), s')"
  then show "ref \<notin> hs_content s'" using journal_erase_cases by fastforce
next
  fix ref s result s'
  assume "lf_erase (FileDecisionLifecycleStore erasers) ref s = (result, s')"
  then show "hs_content s' \<subseteq> hs_content s" using journal_erase_cases by fastforce
qed

text \<open>An erasure that runs to its end has run all its effects, up to the first that fails.\<close>

lemma erase_references_effects:
  "list_all (\<lambda>r. \<not> invalid_reference r) refs \<Longrightarrow>
   snd (erase_references (FileDecisionLifecycleStore erasers) subject now refs s)
     = snd (run_lifecycle_effects erasers (erasure_effects subject now refs) s)"
proof (induction refs arbitrary: s)
  case (Cons r refs)
  have e: "erasure_effects subject now (r # refs)
      = PublishTombstone (tombstone_of subject now r) # EraseContent r # erasure_effects subject now refs"
    by (simp add: erasure_effects_def)
  obtain q1 s1 where t: "journal_tombstone (tombstone_of subject now r) s = (q1, s1)" by fastforce
  obtain q2 s2 where u: "journal_erase erasers r s1 = (q2, s2)" by fastforce
  obtain q3 s3 where v: "erase_references (FileDecisionLifecycleStore erasers) subject now refs s2 = (q3, s3)" by fastforce
  have "s3 = snd (run_lifecycle_effects erasers (erasure_effects subject now refs) s2)" using Cons.IH [of s2] Cons.prems v by simp
  then show ?case using Cons.prems t u v unfolding e by (cases q1; cases q2; cases q3) simp_all
qed (simp add: erasure_effects_def)

section \<open>Steps\<close>

text \<open>Appends that write their line as a whole or not at all.\<close>

definition whole_append :: "append_outcome \<Rightarrow> bool" where
  "whole_append w \<longleftrightarrow> w \<in> {Written, SyncFailed, NothingWritten}"

definition undisturbed :: "lifecycle_host \<Rightarrow> bool" where
  "undisturbed s \<longleftrightarrow> \<not> hs_open s \<and> list_all whole_append (hs_writes s)"

definition extends :: "lifecycle_host \<Rightarrow> lifecycle_host \<Rightarrow> bool" where
  "extends s s' \<longleftrightarrow> (\<exists>es. hs_entries s' = hs_entries s @ es \<and> list_all validEntry es)"

text \<open>
  A step adds valid entries unless an append is cut off, which is for good and which does not happen
  while appends write whole lines.
\<close>

definition evolves :: "lifecycle_host \<Rightarrow> lifecycle_host \<Rightarrow> bool" where
  "evolves s s' \<longleftrightarrow>
     (cut_line s \<longrightarrow> cut_line s') \<and> (cut_line s' \<or> extends s s') \<and> (undisturbed s \<longrightarrow> undisturbed s' \<and> extends s s')"

lemma extends_refl [simp]: "extends s s"
  by (simp add: extends_def)

lemma extends_trans: "extends s m \<Longrightarrow> extends m n \<Longrightarrow> extends s n"
  unfolding extends_def by (metis append_assoc list_all_append)

lemma evolves_refl [simp]: "evolves s s"
  by (simp add: evolves_def)

lemma evolves_trans: "evolves s m \<Longrightarrow> evolves m n \<Longrightarrow> evolves s n"
  using extends_trans [of s m n] unfolding evolves_def by blast

lemma marked_evolves:
  assumes "evolves s s'" and "marked_in s t"
  shows "marked_in s' t"
proof (cases "cut_line s'")
  case False
  then obtain es where "hs_entries s' = hs_entries s @ es" using assms(1) unfolding evolves_def extends_def by blast
  then have "set (tombstones_in s) \<subseteq> set (tombstones_in s')" by (simp add: tombstones_in_def)
  then show ?thesis using assms False unfolding marked_in_def evolves_def by blast
qed (simp add: marked_in_def)

lemma evolves_append:
  assumes "validEntry e"
  shows "evolves s (snd (append_entry e s))"
proof -
  have "extends s (snd (append_entry e s))" if "\<not> cut_line (snd (append_entry e s))"
    using append_kept(2) [of e s] that assms unfolding extends_def by auto
  moreover have "undisturbed (snd (append_entry e s)) \<and> extends s (snd (append_entry e s))" if "undisturbed s"
  proof -
    have "whole_append (append_outcome_of s)" "list_all whole_append (tl (hs_writes s))"
      using that by (cases "hs_writes s"; simp add: undisturbed_def append_outcome_of_def whole_append_def)+
    then show ?thesis using that assms
      by (auto simp: undisturbed_def append_entry_def extends_def whole_append_def Let_def)
  qed
  ultimately show ?thesis using append_kept(1) [of s e] unfolding evolves_def by blast
qed

lemma evolves_content [simp]: "evolves s (s\<lparr>hs_content := C\<rparr>)"
  by (simp add: evolves_def extends_def undisturbed_def)

lemma journal_tombstone_evolves:
  "safe_int now \<Longrightarrow> 0 \<le> now \<Longrightarrow> evolves s (snd (journal_tombstone (tombstone_of subject now r) s))"
  by (auto simp: journal_tombstone_def tombstone_of_def intro: evolves_append)

lemma journal_erase_evolves: "evolves s (snd (journal_erase erasers r s))"
  by (auto simp: journal_erase_def split: option.splits)

lemma erase_references_evolves:
  "safe_int now \<Longrightarrow> 0 \<le> now \<Longrightarrow>
   evolves s (snd (erase_references (FileDecisionLifecycleStore erasers) subject now refs s))"
proof (induction refs arbitrary: s)
  case (Cons r refs)
  obtain q1 s1 where t: "journal_tombstone (tombstone_of subject now r) s = (q1, s1)" by fastforce
  obtain q2 s2 where e: "journal_erase erasers r s1 = (q2, s2)" by fastforce
  have 1: "evolves s s1" using journal_tombstone_evolves [OF Cons.prems, of s subject r] t by simp
  have 2: "evolves s s2" using evolves_trans [OF 1] journal_erase_evolves [of s1 erasers r] e by simp
  have "evolves s (snd (erase_references (FileDecisionLifecycleStore erasers) subject now refs s2))"
    by (rule evolves_trans [OF 2 Cons.IH [OF Cons.prems]])
  then show ?case using 1 2 t e by (auto split: prod.splits sum.splits)
qed simp

lemma erase_evolves: "evolves s (snd (eraseDecisionSubject subject policy (FileDecisionLifecycleStore erasers) now s))"
  by (auto simp: eraseDecisionSubject_def intro: erase_references_evolves split: sum.splits)

lemma effects_evolve:
  assumes "safe_int now" and "0 \<le> now"
    and "set effects \<subseteq> set (erasure_effects subject now refs)"
  shows "evolves s (snd (run_lifecycle_effects erasers effects s))"
  using assms(3)
proof (induction effects arbitrary: s)
  case (Cons e effects)
  obtain q s1 where a: "apply_lifecycle_effect erasers e s = (q, s1)" by fastforce
  have "e \<in> set (erasure_effects subject now refs)" using Cons.prems by simp
  then have "evolves s (snd (apply_lifecycle_effect erasers e s))"
    using journal_tombstone_evolves [OF assms(1,2)] journal_erase_evolves by (auto simp: erasure_effects_def)
  then have 1: "evolves s s1" using a by simp
  have "evolves s1 (snd (run_lifecycle_effects erasers effects s1))" by (rule Cons.IH) (use Cons.prems in simp)
  then show ?case using 1 evolves_trans [OF 1] a by (cases q) simp_all
qed simp

lemma place_evolves: "evolves s (snd (placeDecisionLifecycleHold hold authorize (FileDecisionLifecycleStore erasers) now s))"
proof (cases "journal_recordHold hold s")
  case (Pair q s')
  have "evolves s (snd (journal_recordHold hold s))" by (auto simp: journal_recordHold_def intro: evolves_append)
  then show ?thesis using Pair by (auto simp: placeDecisionLifecycleHold_def split: sum.splits)
qed

lemma journal_release_evolves: "evolves s (snd (journal_releaseHold hold actor reason time s))"
  by (auto simp: journal_releaseHold_def Let_def intro: evolves_append split: sum.splits)

lemma release_evolves:
  "evolves s (snd (releaseDecisionLifecycleHold hold actor reason authorize (FileDecisionLifecycleStore erasers) now s))"
proof (cases "journal_releaseHold hold actor reason now s")
  case (Pair q s')
  then show ?thesis
    using journal_release_evolves [of s hold actor reason now]
    by (auto simp: releaseDecisionLifecycleHold_def split: sum.splits)
qed

lemma register_evolves: "evolves s (snd (register_link subject reference s))"
  by (auto simp: register_link_def intro: evolves_append)

lemma refused_unless_unmarked:
  "restore_refusal_of policy tombstones restore now entry = None \<Longrightarrow> \<not> tombstoned tombstones (be_reference entry)"
  by (auto simp: restore_refusal_of_def Let_def split: if_splits)

lemma restore_content_cases:
  assumes "restore_content available surface = Some handler"
  shows "handler i s = (False, s)
    \<or> handler i s = (True, s\<lparr>hs_content := insert \<lparr>rf_surface = surface, rf_opaqueId = i\<rparr> (hs_content s)\<rparr>)"
  using assms by (auto simp: restore_content_def)

lemma subset_insert_not: "r \<notin> B \<Longrightarrow> C \<inter> B \<subseteq> insert r H \<Longrightarrow> C \<inter> B \<subseteq> H"
  by auto

text \<open>A restore changes content only, and brings back no reference that its tombstones list.\<close>

lemma restore_entries_content:
  "\<exists>C. snd (restore_entries policy tombstones (restore_content available) now entries report s) = s\<lparr>hs_content := C\<rparr>
     \<and> C \<inter> tb_reference ` set tombstones \<subseteq> hs_content s"
proof (induction entries arbitrary: report s)
  case Nil
  have "s = s\<lparr>hs_content := hs_content s\<rparr>" by simp
  then show ?case by (metis Int_lower1 restore_entries.simps(1) snd_conv)
next
  case (Cons entry entries)
  let ?r = "be_reference entry"
  have keep: "\<exists>C. s = s\<lparr>hs_content := C\<rparr> \<and> C \<inter> tb_reference ` set tombstones \<subseteq> hs_content s"
    by (rule exI [of _ "hs_content s"]) simp
  show ?case
  proof (cases "restore_refusal_of policy tombstones (restore_content available) now entry")
    case (Some reason)
    then show ?thesis using Cons.IH by simp
  next
    case None
    have "?r \<notin> tb_reference ` set tombstones" using refused_unless_unmarked [OF None] by (simp add: tombstoned_iff)
    moreover obtain C where C: "snd (restore_entries policy tombstones (restore_content available) now entries
        (report\<lparr>rp_restored := rp_restored report @ [entry]\<rparr>) (s\<lparr>hs_content := insert ?r (hs_content s)\<rparr>)) = s\<lparr>hs_content := C\<rparr>"
      "C \<inter> tb_reference ` set tombstones \<subseteq> insert ?r (hs_content s)"
      using Cons.IH [of "report\<lparr>rp_restored := rp_restored report @ [entry]\<rparr>" "s\<lparr>hs_content := insert ?r (hs_content s)\<rparr>"] by auto
    ultimately have "C \<inter> tb_reference ` set tombstones \<subseteq> hs_content s" by (simp add: subset_insert_not)
    with C(1) have e: "\<exists>C. snd (restore_entries policy tombstones (restore_content available) now entries
        (report\<lparr>rp_restored := rp_restored report @ [entry]\<rparr>) (s\<lparr>hs_content := insert ?r (hs_content s)\<rparr>)) = s\<lparr>hs_content := C\<rparr>
        \<and> C \<inter> tb_reference ` set tombstones \<subseteq> hs_content s" by (intro exI [of _ C]) simp
    show ?thesis
    proof (cases "restore_content available (rf_surface ?r)")
      case (Some handler)
      have "\<lparr>rf_surface = rf_surface ?r, rf_opaqueId = rf_opaqueId ?r\<rparr> = ?r" by simp
      with restore_content_cases [OF Some, of "rf_opaqueId ?r" s] e keep show ?thesis by (auto simp: None Some)
    qed (use keep in \<open>simp add: None\<close>)
  qed
qed

lemma restore_changes_content:
  "\<exists>C. snd (restoreDecisionSubjectBackup backup policy tombstones (restore_content available) now s) = s\<lparr>hs_content := C\<rparr>
     \<and> C \<inter> tb_reference ` set tombstones \<subseteq> hs_content s"
proof -
  have keep: "\<exists>C. s = s\<lparr>hs_content := C\<rparr> \<and> C \<inter> tb_reference ` set tombstones \<subseteq> hs_content s"
    by (rule exI [of _ "hs_content s"]) simp
  show ?thesis
    unfolding restoreDecisionSubjectBackup_def using restore_entries_content keep by (simp split: sum.split)
qed

lemma lifecycle_step_evolves: "lifecycle_step policy s act s' \<Longrightarrow> evolves s s'"
proof (induction rule: lifecycle_step.induct)
  case (crash_step subject now s links holds erasers n)
  show ?case by (rule effects_evolve [OF crash_step.hyps(3,4)]) (rule set_take_subset)
next
  case (restore_step s tombstones backup available now)
  obtain C where "snd (restoreDecisionSubjectBackup backup policy tombstones (restore_content available) now s) = s\<lparr>hs_content := C\<rparr>"
    using restore_changes_content by blast
  then show ?case by simp
qed (auto intro: register_evolves place_evolves release_evolves erase_evolves)

lemma lifecycle_run_evolves: "lifecycle_run policy s acts s' \<Longrightarrow> evolves s s'"
proof (induction rule: lifecycle_run.induct)
  case (lifecycle_next s acts m act n)
  then show ?case using lifecycle_step_evolves evolves_trans by blast
qed simp

text \<open>Only a write and a restore add content.\<close>

lemma journal_steps_content:
  "hs_content (snd (register_link subject reference s)) = hs_content s"
  "hs_content (snd (journal_recordHold hold s)) = hs_content s"
  "hs_content (snd (journal_releaseHold hold actor reason time s)) = hs_content s"
  by (auto simp: register_link_def journal_recordHold_def journal_releaseHold_def Let_def split: sum.split)

lemma holds_content:
  "hs_content (snd (placeDecisionLifecycleHold hold authorize (FileDecisionLifecycleStore erasers) now s)) = hs_content s"
  "hs_content (snd (releaseDecisionLifecycleHold hold actor reason authorize2 (FileDecisionLifecycleStore erasers) now s)) = hs_content s"
  using journal_steps_content(2) [of hold s] journal_steps_content(3) [of hold actor reason now s]
  by (auto simp: placeDecisionLifecycleHold_def releaseDecisionLifecycleHold_def split: prod.splits sum.splits)

lemma effects_shrink: "hs_content (snd (run_lifecycle_effects erasers effects s)) \<subseteq> hs_content s"
proof (induction effects arbitrary: s)
  case (Cons e effects)
  obtain q s1 where a: "apply_lifecycle_effect erasers e s = (q, s1)" by fastforce
  have "hs_content (snd (apply_lifecycle_effect erasers e s)) \<subseteq> hs_content s"
    by (cases e) (auto simp: journal_tombstone_def journal_erase_def split: option.split)
  then show ?case using Cons.IH [of s1] a by (cases q) auto
qed simp

lemma erase_shrinks: "hs_content (snd (eraseDecisionSubject subject policy (FileDecisionLifecycleStore erasers) now s)) \<subseteq> hs_content s"
proof -
  have "hs_content (snd (erase_references (FileDecisionLifecycleStore erasers) subject now refs s)) \<subseteq> hs_content s" for refs
    by (rule lifecycle_journal.erase_references_shrinks [OF surjective_pairing])
  then show ?thesis by (auto simp: eraseDecisionSubject_def split: sum.split)
qed

lemma step_content:
  assumes "lifecycle_step policy s act s'" and "r \<notin> hs_content s" and "act \<noteq> ContentWritten r"
    and "\<And>tombstones. act = BackupRestored tombstones \<Longrightarrow> r \<in> tb_reference ` set tombstones"
  shows "r \<notin> hs_content s'"
  using assms
proof (induction rule: lifecycle_step.induct)
  case (restore_step s tombstones backup available now)
  then show ?case using restore_changes_content [of backup policy tombstones available now s] by auto
next
  case (crash_step subject now s links holds erasers n)
  show ?case using crash_step.prems(1) effects_shrink by (rule contra_subsetD [rotated])
next
  case (erase_step s subject erasers now)
  show ?case using erase_step.prems(1) erase_shrinks by (rule contra_subsetD [rotated])
qed (simp_all add: journal_steps_content holds_content)

section \<open>Guarantees\<close>

lemma journal_entries_Inr: "journal_entries s = Inr es \<longleftrightarrow> es = hs_entries s \<and> list_all validEntry (hs_entries s)"
  by (auto simp: journal_entries_def list_ex_iff list_all_iff)

lemma cut_unreadable:
  "cut_line s \<Longrightarrow> journal_entries s = Inl (LifecycleError ''Lifecycle journal invalid'')"
  using bexI [of "\<lambda>e. \<not> validEntry e" TornEntry] by (simp add: journal_entries_def cut_line_def list_ex_iff)

lemma extends_readable:
  "journal_entries s = Inr es \<Longrightarrow> extends s s' \<Longrightarrow> \<exists>later. journal_entries s' = Inr (es @ later)"
  unfolding journal_entries_Inr extends_def by (metis list_all_append)

lemma unreadable_erase:
  assumes "journal_entries s = Inl x"
  shows "\<exists>e. eraseDecisionSubject subject policy (FileDecisionLifecycleStore erasers) now s = (Inl e, s)"
proof -
  have "\<exists>e. journal_links subject s = Inl e" using assms by (simp add: journal_links_def)
  then show ?thesis by (auto simp: eraseDecisionSubject_def split: sum.split)
qed

text \<open>C35: A journal that can be read only gains entries, whatever a host does and wherever its process stops,
  and stays readable as long as every append leaves its whole line or nothing. The one way to lose it
  is an append that leaves a part of its line, or a line without its newline that the next append
  joins: then every later read is refused, and so is every erasure.\<close>

theorem journal_stays_readable:
  assumes "journal_entries s = Inr es" and "lifecycle_run policy s acts s'"
  shows "(\<exists>later. journal_entries s' = Inr (es @ later))
    \<or> \<not> undisturbed s
      \<and> (\<forall>acts2 s2. lifecycle_run policy s' acts2 s2 \<longrightarrow>
           journal_entries s2 = Inl (LifecycleError ''Lifecycle journal invalid'')
           \<and> (\<forall>subject erasers now. \<exists>e. eraseDecisionSubject subject policy (FileDecisionLifecycleStore erasers) now s2 = (Inl e, s2)))"
proof -
  have ev: "evolves s s'" by (rule lifecycle_run_evolves [OF assms(2)])
  show ?thesis
  proof (cases "extends s s'")
    case True
    then show ?thesis using extends_readable [OF assms(1)] by blast
  next
    case False
    then have c: "cut_line s'" "\<not> undisturbed s" using ev unfolding evolves_def by blast+
    have "journal_entries s2 = Inl (LifecycleError ''Lifecycle journal invalid'')" if "lifecycle_run policy s' acts2 s2" for acts2 s2
      using cut_unreadable lifecycle_run_evolves [OF that] c(1) unfolding evolves_def by blast
    then show ?thesis using c(2) unreadable_erase by blast
  qed
qed

lemma marked_resolves:
  assumes "journal_entries s = Inr es" and "t \<in> set (tombstones_in s)"
  shows "\<exists>time. resolveReference (tb_reference t) s = Inr (Tombstoned time)"
proof -
  let ?r = "tb_reference t"
  have es: "es = hs_entries s" "list_all validEntry (hs_entries s)" using assms(1) by (auto simp: journal_entries_Inr)
  obtain e where e: "e \<in> set (hs_entries s)" "t \<in> set (tombstone_in e)" using assms(2) by (auto simp: tombstones_in_def)
  from e(2) have "e = TombstoneEntry t" by (cases e) auto
  then have o: "opaque_reference ?r" using e(1) es(2) by (auto simp: list_all_iff)
  have "find (\<lambda>t. same_reference (tb_reference t) ?r) (tombstones_in s) \<noteq> None"
    using assms(2) by (auto simp: find_None_iff same_reference_iff)
  then show ?thesis
    using o assms(1) es(1) by (auto simp: resolveReference_def tombstones_in_def split: option.splits)
qed

lemma marked_listed:
  assumes "journal_tombstones (tb_subject t) s = Inr own" and "marked_in s t"
  shows "t \<in> set own"
proof -
  have r: "journal_entries s = Inr (hs_entries s)"
    using assms(1) by (auto simp: journal_tombstones_def journal_entries_Inr split: if_splits)
  then have "\<not> cut_line s" using cut_unreadable by fastforce
  then have "t \<in> set (tombstones_in s)" using assms(2) by (simp add: marked_in_def)
  then show ?thesis using assms(1) r by (auto simp: journal_tombstones_def tombstones_in_def split: if_splits)
qed

text \<open>C34: Erased content does not return: after a successful erasure of a subject, whatever a host does
  then and wherever its process stops, the content of each erased reference stays gone, provided that
  no surface writes it again and that every restore, of whatever backup, is shown at least what
  \<open>tombstones\<close> returns for the erased subject at that time. As long as the journal can be read, that
  call lists the tombstone, every backup entry of the reference is refused under any list that holds
  what it returns, and the reference resolves to a tombstone.\<close>

theorem erased_never_returns:
  assumes "eraseDecisionSubject subject policy (FileDecisionLifecycleStore erasers) now s = (Inr ts, s1)" and "t \<in> set ts"
    and "lifecycle_run policy s1 acts s2"
    and "\<forall>m. (m, ContentWritten (tb_reference t)) \<notin> set acts"
    and "\<forall>m tombstones. (m, BackupRestored tombstones) \<in> set acts \<longrightarrow>
      (\<exists>own. journal_tombstones subject m = Inr own \<and> set own \<subseteq> set tombstones)"
  shows "tb_reference t \<notin> hs_content s2
    \<and> (\<forall>es. journal_entries s2 = Inr es \<longrightarrow>
        (\<exists>own. journal_tombstones subject s2 = Inr own \<and> t \<in> set own
          \<and> (\<forall>tombstones entry restore later. set own \<subseteq> set tombstones \<longrightarrow> be_reference entry = tb_reference t \<longrightarrow>
               restore_refusal_of policy tombstones restore later entry \<noteq> None))
        \<and> (\<exists>time. resolveReference (tb_reference t) s2 = Inr (Tombstoned time)))"
proof -
  let ?r = "tb_reference t"
  obtain refs where e: "erase_references (FileDecisionLifecycleStore erasers) subject now refs s = (Inr ts, s1)"
    and o: "OPAQUE subject"
    using assms(1) by (auto simp: eraseDecisionSubject_def journal_links_def split: sum.splits if_splits)
  note c = lifecycle_journal.erase_references_complete [OF e]
  have "ts = map (tombstone_of subject now) refs" using c by blast
  then obtain r where r: "t = tombstone_of subject now r" "r \<in> set refs" using assms(2) by auto
  have t: "tb_subject t = subject" using r(1) by (simp add: tombstone_of_def)
  have "tb_reference t = r" using r(1) by (simp add: tombstone_of_def)
  then have m: "marked_in s1 t" "?r \<notin> hs_content s1" using c r by auto
  have gone: "?r \<notin> hs_content s2"
    using assms(3,4,5) m
  proof (induction rule: lifecycle_run.induct)
    case (lifecycle_next s1 acts m act n)
    have "marked_in m t" using marked_evolves lifecycle_run_evolves [OF lifecycle_next.hyps(1)] lifecycle_next.prems(3) by blast
    then have listed: "?r \<in> tb_reference ` set tombstones" if "act = BackupRestored tombstones" for tombstones
    proof -
      have "(m, BackupRestored tombstones) \<in> set (acts @ [(m, act)])" using that by simp
      then obtain own where "journal_tombstones subject m = Inr own" "set own \<subseteq> set tombstones"
        using lifecycle_next.prems(2) by blast
      then show ?thesis using marked_listed [of t m own] t \<open>marked_in m t\<close> by auto
    qed
    have "?r \<notin> hs_content m" by (rule lifecycle_next.IH) (use lifecycle_next.prems in auto)
    moreover have "act \<noteq> ContentWritten ?r" using lifecycle_next.prems(1) by auto
    ultimately show ?case using step_content [OF lifecycle_next.hyps(2)] listed by blast
  qed simp
  have m2: "marked_in s2 t" using marked_evolves lifecycle_run_evolves [OF assms(3)] m(1) by blast
  have "(\<exists>own. journal_tombstones subject s2 = Inr own \<and> t \<in> set own
      \<and> (\<forall>tombstones entry restore later. set own \<subseteq> set tombstones \<longrightarrow> be_reference entry = ?r \<longrightarrow>
           restore_refusal_of policy tombstones restore later entry \<noteq> None))
    \<and> (\<exists>time. resolveReference ?r s2 = Inr (Tombstoned time))" if es: "journal_entries s2 = Inr es" for es
  proof -
    obtain own where own: "journal_tombstones subject s2 = Inr own" using es o by (simp add: journal_tombstones_def)
    have "\<not> cut_line s2" using es cut_unreadable by fastforce
    then have "t \<in> set (tombstones_in s2)" using m2 by (simp add: marked_in_def)
    moreover have "t \<in> set own" using marked_listed [of t s2 own] own m2 t by simp
    moreover have "restore_refusal_of policy tombstones restore later entry \<noteq> None"
      if "set own \<subseteq> set tombstones" "be_reference entry = ?r" for tombstones restore later entry
      using refused_unless_unmarked [of policy tombstones restore later entry] that \<open>t \<in> set own\<close> by (auto simp: tombstoned_iff)
    ultimately show ?thesis using own marked_resolves [OF es] by blast
  qed
  then show ?thesis using gone by blast
qed

section \<open>Holds\<close>

fun releases :: "lifecycle_hold \<Rightarrow> lifecycle_entry \<Rightarrow> bool" where
  "releases h (ReleaseEntry subject h' actor reason time) \<longleftrightarrow> h' = h"
| "releases h _ \<longleftrightarrow> False"

lemma replay_keeps:
  "h \<in> set active \<Longrightarrow> \<not> list_ex (releases h) es \<Longrightarrow> h \<in> set (foldl (replay_hold subject) active es)"
proof (induction es arbitrary: active)
  case (Cons e es)
  then have "h \<in> set (replay_hold subject active e)"
    by (cases e) (auto simp: in_set_remove1)
  then show ?case using Cons by simp
qed simp

lemma hold_placed:
  assumes "placeDecisionLifecycleHold hold authorize (FileDecisionLifecycleStore erasers) now s = (Inr h, s1)"
  shows "h = hold" and "cut_line s1 \<or> hs_entries s1 = hs_entries s @ [HoldEntry hold]"
  using assms append_kept(3) [of "HoldEntry hold" s s1]
  by (auto simp: placeDecisionLifecycleHold_def journal_recordHold_def split: if_splits sum.splits prod.splits)

text \<open>A legal hold stops the erasure of its subject: after a hold was placed and as long as the
  journal has no release of it, an erasure of the subject at a time before the hold expires, with a
  link on a surface the hold covers, is refused and leaves the host as it was, whatever happened in
  between.\<close>

theorem hold_stops_erasure:
  assumes "placeDecisionLifecycleHold hold authorize (FileDecisionLifecycleStore erasers) placed s = (Inr hold, s1)"
    and "lifecycle_run policy s1 acts s2"
    and "\<not> list_ex (releases hold) (drop (length (hs_entries s1)) (hs_entries s2))"
    and "journal_links (lh_subject hold) s2 = Inr links"
    and "list_ex (\<lambda>link. rf_surface link \<in> set (lh_scope hold)) links" and "now < lh_expiresAt hold"
  shows "\<exists>e. eraseDecisionSubject (lh_subject hold) policy (FileDecisionLifecycleStore erasers2) now s2 = (Inl e, s2)"
proof -
  have r: "OPAQUE (lh_subject hold) \<and> journal_entries s2 = Inr (hs_entries s2)"
    using assms(4) by (auto simp: journal_links_def journal_entries_Inr split: if_splits)
  note ev = lifecycle_run_evolves [OF assms(2)]
  have "\<not> cut_line s2" using r by (auto simp: journal_entries_Inr list_all_iff cut_line_def)
  then have whole: "\<not> cut_line s1" "extends s1 s2" using ev unfolding evolves_def by blast+
  then obtain es where es: "hs_entries s2 = hs_entries s1 @ es" unfolding extends_def by blast
  let ?active = "foldl (replay_hold (lh_subject hold)) []"
  have "?active (hs_entries s2) = foldl (replay_hold (lh_subject hold)) (?active (hs_entries s @ [HoldEntry hold])) es"
    using es hold_placed(2) [OF assms(1)] whole(1) by simp
  moreover have "hold \<in> set (?active (hs_entries s @ [HoldEntry hold]))" by simp
  moreover have "\<not> list_ex (releases hold) es" using assms(3) es by simp
  ultimately have m: "hold \<in> set (?active (hs_entries s2))" using replay_keeps by metis
  have holds: "journal_holds (lh_subject hold) s2 = Inr (?active (hs_entries s2))"
    using r by (simp add: journal_holds_def)
  have "blocking_hold (lh_subject hold) now links hold" using assms(5,6) by (simp add: blocking_hold_def)
  then have "list_ex (blocking_hold (lh_subject hold) now links) (?active (hs_entries s2))"
    using m by (auto simp: list_ex_iff)
  then show ?thesis
    using assms(4) holds by (auto simp: eraseDecisionSubject_def split: sum.splits)
qed

section \<open>A host\<close>

definition demo_rule :: lifecycle_rule where
  "demo_rule = \<lparr>lr_classification = ''internal'', lr_accessScopes = [''team''], lr_retentionMs = 1000,
     lr_export = ''denied'', lr_deletion = ''erase'', lr_backup = ''expire-with-primary''\<rparr>"

definition demo_policy :: lifecycle_policy where
  "demo_policy = \<lparr>lp_version = DECISION_LIFECYCLE_VERSION,
     lp_surfaces = map (\<lambda>s. (s, demo_rule)) DECISION_LIFECYCLE_SURFACES\<rparr>"

definition demo_reference :: lifecycle_reference where
  "demo_reference = \<lparr>rf_surface = ''job'', rf_opaqueId = ''j''\<rparr>"

abbreviation all_erasers :: lifecycle_erasers where
  "all_erasers \<equiv> \<lambda>surface. Some (\<lambda>i. True)"

definition demo_host :: "lifecycle_entry list \<Rightarrow> lifecycle_host" where
  "demo_host es = \<lparr>hs_entries = LinkEntry ''a'' demo_reference # es, hs_open = False, hs_writes = [], hs_content = {demo_reference}\<rparr>"

definition demo_hold :: lifecycle_hold where
  "demo_hold = \<lparr>lh_subject = ''a'', lh_reason = ''case'', lh_scope = [''job''], lh_expiresAt = 500, lh_authorizedBy = ''x''\<rparr>"

lemma demo_opaque [simp]: "OPAQUE ''a''" "OPAQUE ''b''" "opaque_reference demo_reference" "known_surface ''job''"
  by (simp_all add: OPAQUE_def opaque_reference_def demo_reference_def is_alnum_def known_surface_def
      DECISION_LIFECYCLE_SURFACES_def less_eq_char_def)

lemma demo_policy_valid [simp]: "validateDecisionLifecyclePolicy demo_policy = Inr ()"
  by (simp add: validateDecisionLifecyclePolicy_def demo_policy_def DECISION_LIFECYCLE_SURFACES_def known_surface_def
      incomplete_rule_def demo_rule_def safe_int_def max_safe_integer_def)

lemma demo_times [simp]: "safe_int 100" "safe_int 500" "safe_int 0"
  by (simp_all add: safe_int_def max_safe_integer_def)

lemma demo_hold_valid [simp]: "valid_hold demo_hold"
  by (simp add: valid_hold_def demo_hold_def)

lemma demo_reference_valid [simp]: "\<not> invalid_reference demo_reference"
  by (simp add: invalid_reference_def demo_reference_def)

definition demo_tombstone :: "string \<Rightarrow> lifecycle_tombstone" where
  "demo_tombstone subject = tombstone_of subject 100 demo_reference"

lemma demo_append:
  "append_entry e (demo_host es) = (Inr (), demo_host (es @ [e]))"
  by (simp add: append_entry_def append_outcome_of_def demo_host_def Let_def)

lemma demo_erase_reference:
  "OPAQUE subject \<Longrightarrow> erase_references (FileDecisionLifecycleStore all_erasers) subject 100 [demo_reference] (demo_host es)
     = (Inr [demo_tombstone subject], (demo_host (es @ [TombstoneEntry (demo_tombstone subject)]))\<lparr>hs_content := {}\<rparr>)"
  by (simp add: journal_tombstone_def journal_erase_def tombstone_of_def demo_tombstone_def demo_append) (simp add: demo_host_def)

lemma demo_links:
  "journal_links ''a'' (demo_host [HoldEntry demo_hold]) = Inr [demo_reference]"
  "journal_links ''a'' (demo_host []) = Inr [demo_reference]"
  "journal_links ''b'' (demo_host [LinkEntry ''b'' demo_reference, HoldEntry demo_hold]) = Inr [demo_reference]"
  "journal_links ''a'' (demo_host [LinkEntry ''b'' demo_reference, HoldEntry demo_hold]) = Inr [demo_reference]"
  by (simp_all add: journal_links_def journal_entries_def demo_host_def unique_references_def)

lemma demo_holds:
  "journal_holds ''a'' (demo_host []) = Inr []"
  "journal_holds ''b'' (demo_host [LinkEntry ''b'' demo_reference, HoldEntry demo_hold]) = Inr []"
  by (simp_all add: journal_holds_def journal_entries_def demo_host_def demo_hold_def)
    (simp add: valid_hold_def)

definition demo_erased_host :: lifecycle_host where
  "demo_erased_host = (demo_host [TombstoneEntry (demo_tombstone ''a'')])\<lparr>hs_content := {}\<rparr>"

lemma demo_erased:
  "eraseDecisionSubject ''a'' demo_policy (FileDecisionLifecycleStore all_erasers) 100 (demo_host [])
     = (Inr [demo_tombstone ''a''], demo_erased_host)"
  by (simp add: eraseDecisionSubject_def demo_links demo_holds demo_erase_reference demo_erased_host_def del: erase_references.simps)

lemma demo_readable: "journal_entries (demo_host []) = Inr [LinkEntry ''a'' demo_reference]"
  by (simp add: journal_entries_def demo_host_def)

text \<open>A link whose append is cut off.\<close>

lemma journal_stays_readable_witness:
  "\<exists>s'. journal_entries (demo_host []) = Inr [LinkEntry ''a'' demo_reference]
     \<and> s' = snd (register_link ''b'' demo_reference ((demo_host [])\<lparr>hs_writes := [PartWritten]\<rparr>))
     \<and> journal_entries s' = Inl (LifecycleError ''Lifecycle journal invalid'')
     \<and> journal_entries (snd (eraseDecisionSubject ''a'' demo_policy (FileDecisionLifecycleStore all_erasers) 100 s'))
         = Inl (LifecycleError ''Lifecycle journal invalid'')"
proof -
  let ?s = "(demo_host [])\<lparr>hs_writes := [PartWritten]\<rparr>"
  let ?cut = "snd (register_link ''b'' demo_reference ?s)"
  have r: "journal_entries ?s = Inr [LinkEntry ''a'' demo_reference]" by (simp add: journal_entries_def demo_host_def)
  have c: "journal_entries ?cut = Inl (LifecycleError ''Lifecycle journal invalid'')"
    by (simp add: register_link_def append_entry_def append_outcome_of_def journal_entries_def demo_host_def)
  have run: "lifecycle_run demo_policy ?s ([] @ [(?s, JournalUsed)]) ?cut"
    by (rule lifecycle_next [OF lifecycle_start link_step])
  have "lifecycle_run demo_policy ?cut ([] @ [(?cut, JournalUsed)])
      (snd (eraseDecisionSubject ''a'' demo_policy (FileDecisionLifecycleStore all_erasers) 100 ?cut))"
    by (rule lifecycle_next [OF lifecycle_start erase_step])
  then show ?thesis using journal_stays_readable [OF r run] c demo_readable by auto
qed

text \<open>The backup of the erased reference, restored under the tombstones of its subject.\<close>

lemma erased_never_returns_witness:
  "\<exists>s. eraseDecisionSubject ''a'' demo_policy (FileDecisionLifecycleStore all_erasers) 100 (demo_host []) = (Inr [demo_tombstone ''a''], s)
     \<and> demo_reference \<in> hs_content (demo_host [])
     \<and> demo_reference \<notin> hs_content (snd (restoreDecisionSubjectBackup
          [\<lparr>be_subject = ''a'', be_reference = demo_reference, be_createdAt = 0\<rparr>] demo_policy [demo_tombstone ''a'']
          (restore_content all_erasers) 100 s))"
proof -
  let ?after = "snd (restoreDecisionSubjectBackup [\<lparr>be_subject = ''a'', be_reference = demo_reference, be_createdAt = 0\<rparr>]
    demo_policy [demo_tombstone ''a''] (restore_content all_erasers) 100 demo_erased_host)"
  have run: "lifecycle_run demo_policy demo_erased_host ([] @ [(demo_erased_host, BackupRestored [demo_tombstone ''a''])]) ?after"
    by (rule lifecycle_next [OF lifecycle_start restore_step])
  have "journal_tombstones ''a'' demo_erased_host = Inr [demo_tombstone ''a'']"
    by (simp add: journal_tombstones_def journal_entries_def demo_erased_host_def demo_host_def demo_tombstone_def tombstone_of_def)
  moreover have "tb_reference (demo_tombstone ''a'') = demo_reference" by (simp add: demo_tombstone_def tombstone_of_def)
  ultimately have "demo_reference \<notin> hs_content ?after"
    using erased_never_returns [OF demo_erased _ run, of "demo_tombstone ''a''"] by auto
  then show ?thesis using demo_erased by (auto simp: demo_host_def)
qed

lemma demo_placed:
  "placeDecisionLifecycleHold demo_hold (\<lambda>h. Some True) (FileDecisionLifecycleStore all_erasers) 10 (demo_host es)
     = (Inr demo_hold, demo_host (es @ [HoldEntry demo_hold]))"
  by (simp add: placeDecisionLifecycleHold_def journal_recordHold_def approved_def demo_append)
    (simp add: demo_hold_def)

lemma hold_stops_erasure_witness:
  "\<exists>e. eraseDecisionSubject ''a'' demo_policy (FileDecisionLifecycleStore all_erasers) 100 (demo_host [HoldEntry demo_hold])
     = (Inl e, demo_host [HoldEntry demo_hold])"
proof -
  have "placeDecisionLifecycleHold demo_hold (\<lambda>h. Some True) (FileDecisionLifecycleStore all_erasers) 10 (demo_host [])
      = (Inr demo_hold, demo_host [HoldEntry demo_hold])"
    using demo_placed [of "[]"] by simp
  moreover have "journal_links (lh_subject demo_hold) (demo_host [HoldEntry demo_hold]) = Inr [demo_reference]"
    using demo_links by (simp add: demo_hold_def)
  moreover have "list_ex (\<lambda>link. rf_surface link \<in> set (lh_scope demo_hold)) [demo_reference]" "100 < lh_expiresAt demo_hold"
    by (simp_all add: demo_hold_def demo_reference_def)
  ultimately show ?thesis
    using hold_stops_erasure [OF _ lifecycle_start, of demo_hold "\<lambda>h. Some True" all_erasers 10 "demo_host []"
        "demo_host [HoldEntry demo_hold]" "[demo_reference]" 100 demo_policy all_erasers]
    by (simp add: demo_hold_def)
qed

text \<open>
  Holds and tombstones are looked up by subject, and a reference may be linked to two subjects: the
  hold on the first does not stop the erasure through the second, and the tombstones of the first
  do not show it.
\<close>

lemma shared_reference_escapes_hold:
  "\<exists>s s1 s2. placeDecisionLifecycleHold demo_hold (\<lambda>h. Some True) (FileDecisionLifecycleStore all_erasers) 10 s = (Inr demo_hold, s1)
     \<and> journal_links ''a'' s1 = Inr [demo_reference] \<and> lh_subject demo_hold = ''a'' \<and> 100 < lh_expiresAt demo_hold
     \<and> demo_reference \<in> hs_content s1
     \<and> eraseDecisionSubject ''b'' demo_policy (FileDecisionLifecycleStore all_erasers) 100 s1 = (Inr [demo_tombstone ''b''], s2)
     \<and> demo_reference \<notin> hs_content s2 \<and> journal_tombstones ''a'' s2 = Inr []"
proof -
  let ?s = "demo_host [LinkEntry ''b'' demo_reference]"
  let ?s1 = "demo_host [LinkEntry ''b'' demo_reference, HoldEntry demo_hold]"
  let ?s2 = "(demo_host [LinkEntry ''b'' demo_reference, HoldEntry demo_hold, TombstoneEntry (demo_tombstone ''b'')])\<lparr>hs_content := {}\<rparr>"
  have p: "placeDecisionLifecycleHold demo_hold (\<lambda>h. Some True) (FileDecisionLifecycleStore all_erasers) 10 ?s = (Inr demo_hold, ?s1)"
    using demo_placed by simp
  have e: "eraseDecisionSubject ''b'' demo_policy (FileDecisionLifecycleStore all_erasers) 100 ?s1 = (Inr [demo_tombstone ''b''], ?s2)"
    by (simp add: eraseDecisionSubject_def demo_links demo_holds demo_erase_reference del: erase_references.simps)
  have h: "lh_subject demo_hold = ''a''" "100 < lh_expiresAt demo_hold" by (simp_all add: demo_hold_def)
  have c: "demo_reference \<in> hs_content ?s1" "demo_reference \<notin> hs_content ?s2" by (simp_all add: demo_host_def)
  have t: "journal_tombstones ''a'' ?s2 = Inr []"
    by (simp add: journal_tombstones_def journal_entries_def demo_host_def demo_tombstone_def tombstone_of_def)
  from p demo_links(4) h c(1) e c(2) t show ?thesis by blast
qed

end
