(* ===== verification/EffectIdentity.thy ===== *)
theory EffectIdentity
  imports JsonText JobContract "HOL-Library.Word"
begin

unbundle bit_operations_syntax

text \<open>
  The identity of an effect (\<open>src/effects/identity.ts\<close>): the grammar of scopes, kinds, targets and
  contexts, the two derivations of effect ids and the base32 encoding they use. SHA-256 is a
  parameter; strings of 8-bit characters are their own UTF-8 where they are ASCII, which every
  pattern but that of context values requires. The errors keep the code and the reason
  (\<open>src/effects/errors.ts\<close>); messages are left out.
\<close>

section \<open>Errors\<close>

datatype effect_code =
  CodeInternal | CodeUsage | CodeConflict | CodeIntegrity | CodeArtifactRoot | CodeKeyUnavailable | CodeLockTimeout
| CodePurgeRefused

datatype effect_error = EffectLedgerError effect_code string

fun exit_by_code :: "effect_code \<Rightarrow> int" where
  "exit_by_code CodeInternal = 1"
| "exit_by_code CodeUsage = 2"
| "exit_by_code CodeConflict = 5"
| "exit_by_code CodeIntegrity = 6"
| "exit_by_code CodeArtifactRoot = 7"
| "exit_by_code CodeKeyUnavailable = 1"
| "exit_by_code CodeLockTimeout = 1"
| "exit_by_code CodePurgeRefused = 2"

definition usageError :: "string \<Rightarrow> effect_error" where
  "usageError reason = EffectLedgerError CodeUsage reason"

definition integrityError :: "string \<Rightarrow> effect_error" where
  "integrityError reason = EffectLedgerError CodeIntegrity reason"

definition conflictError :: effect_error where
  "conflictError = EffectLedgerError CodeConflict ''payload-digest-conflict''"

section \<open>Base32\<close>

definition BASE32_ALPHABET :: string where
  "BASE32_ALPHABET = ''abcdefghijklmnopqrstuvwxyz234567''"

definition base32_char :: "32 word \<Rightarrow> char" where
  "base32_char v = BASE32_ALPHABET ! unat (v AND 31)"

text \<open>\<open>while (bits >= 5) { out += ...; bits -= 5; }\<close>: the characters and the bits that remain.\<close>

fun base32_drain :: "32 word \<Rightarrow> nat \<Rightarrow> string \<times> nat" where
  "base32_drain v bits =
     (if 5 \<le> bits
      then (case base32_drain v (bits - 5) of (out, rest) \<Rightarrow> (base32_char (drop_bit (bits - 5) v) # out, rest))
      else ([], bits))"

declare base32_drain.simps [simp del]

definition base32_shift :: "32 word \<Rightarrow> 8 word \<Rightarrow> 32 word" where
  "base32_shift v byte = (push_bit 8 v OR ucast byte) AND 0xffff"

fun base32_loop :: "8 word list \<Rightarrow> 32 word \<Rightarrow> nat \<Rightarrow> string" where
  "base32_loop [] v bits = (if bits > 0 then [base32_char (push_bit (5 - bits) v)] else [])"
| "base32_loop (byte # bytes) v bits =
     (let v' = base32_shift v byte in
      case base32_drain v' (bits + 8) of (out, rest) \<Rightarrow> out @ base32_loop bytes v' rest)"

definition base32Lower :: "8 word list \<Rightarrow> string" where
  "base32Lower bytes = base32_loop bytes 0 0"

section \<open>Digests\<close>

record effect_hash =
  eh_sha256 :: "string \<Rightarrow> 8 word list"
  eh_number :: "rat \<Rightarrow> string"

definition hex_byte :: "8 word \<Rightarrow> string" where
  "hex_byte b = [hexdigit (unat (drop_bit 4 b)), hexdigit (unat (b AND 15))]"

definition sha256Hex :: "effect_hash \<Rightarrow> string \<Rightarrow> string" where
  "sha256Hex h s = concat (map hex_byte (eh_sha256 h s))"

definition sha256Digest :: "effect_hash \<Rightarrow> string \<Rightarrow> string" where
  "sha256Digest h s = ''sha256:'' @ sha256Hex h s"

section \<open>Grammar\<close>

record effect_scope =
  es_tenant :: string
  es_project :: string
  es_subsystem :: string

datatype context_value = CtxStr string | CtxInt int | CtxBool bool

type_synonym effect_context = "context_value dict"

record effect_identity =
  ei_scope :: effect_scope
  ei_kind :: string
  ei_target :: string
  ei_context :: effect_context

definition EFFECT_SUBSYSTEMS :: "string list" where
  "EFFECT_SUBSYSTEMS = [''review'', ''job'', ''delivery'', ''custom'']"

definition CORE_EFFECT_KINDS :: "string list" where
  "CORE_EFFECT_KINDS =
     [''git.commit'', ''git.tag'', ''file.digest'', ''decision.receipt'', ''decision.review.continuation'',
      ''tracker.comment'', ''tracker.issue.closed'', ''tracker.pr.merged'']"

definition is_lower_alnum :: "char \<Rightarrow> bool" where
  "is_lower_alnum c \<longleftrightarrow> (CHR ''a'' \<le> c \<and> c \<le> CHR ''z'') \<or> (CHR ''0'' \<le> c \<and> c \<le> CHR ''9'')"

definition lower_dash :: "char \<Rightarrow> bool" where
  "lower_dash c \<longleftrightarrow> is_lower_alnum c \<or> c = CHR ''-''"

text \<open>A first character and at most \<open>n\<close> further ones: the shape of most patterns.\<close>

definition headed :: "(char \<Rightarrow> bool) \<Rightarrow> (char \<Rightarrow> bool) \<Rightarrow> nat \<Rightarrow> string \<Rightarrow> bool" where
  "headed first other n s \<longleftrightarrow>
     (case s of [] \<Rightarrow> False | c # cs \<Rightarrow> first c \<and> list_all other cs \<and> length cs \<le> n)"

definition IDENTIFIER_PATTERN :: "string \<Rightarrow> bool" where
  "IDENTIFIER_PATTERN = headed is_alnum (\<lambda>c. is_alnum c \<or> c \<in> set ''._:/@-'') 255"

definition WRITER_ID_PATTERN :: "string \<Rightarrow> bool" where
  "WRITER_ID_PATTERN = headed is_lower_alnum lower_dash 63"

definition CONTEXT_KEY_PATTERN :: "string \<Rightarrow> bool" where
  "CONTEXT_KEY_PATTERN = headed (\<lambda>c. is_alnum c \<and> \<not> (CHR ''0'' \<le> c \<and> c \<le> CHR ''9''))
     (\<lambda>c. is_alnum c \<or> c = CHR ''_'') 63"

text \<open>The parts of a string between the dots.\<close>

fun split_dots :: "string \<Rightarrow> string list" where
  "split_dots [] = [[]]"
| "split_dots (c # cs) =
     (if c = CHR ''.'' then [] # split_dots cs
      else case split_dots cs of [] \<Rightarrow> [[c]] | part # parts \<Rightarrow> (c # part) # parts)"

definition EXTENSION_KIND_PATTERN :: "string \<Rightarrow> bool" where
  "EXTENSION_KIND_PATTERN s \<longleftrightarrow>
     (case split_dots s of
        x # parts \<Rightarrow> x = ''x'' \<and> 2 \<le> length parts
          \<and> list_all (\<lambda>p. case p of [] \<Rightarrow> False | c # cs \<Rightarrow> is_lower_alnum c \<and> list_all lower_dash cs) parts
      | [] \<Rightarrow> False)"

definition TARGET_SCHEMES :: "string list" where
  "TARGET_SCHEMES = [''gitea'', ''github'', ''git'', ''git-tag'', ''file'', ''release'', ''decision'', ''review'']"

definition is_space :: "char \<Rightarrow> bool" where
  "is_space c \<longleftrightarrow> (of_char c :: nat) \<in> {9, 10, 11, 12, 13, 32, 160}"

definition TARGET_PATTERN :: "string \<Rightarrow> bool" where
  "TARGET_PATTERN s \<longleftrightarrow>
     (let scheme = takeWhile (\<lambda>c. c \<noteq> CHR '':'') s; rest = dropWhile (\<lambda>c. c \<noteq> CHR '':'') s in
      (scheme \<in> set TARGET_SCHEMES \<or> (take 2 scheme = ''x-'' \<and> 2 < length scheme \<and> list_all lower_dash (drop 2 scheme)))
      \<and> 2 \<le> length rest \<and> list_all (\<lambda>c. \<not> is_space c) (tl rest))"

definition EFFECT_ID_V1_PATTERN :: "string \<Rightarrow> bool" where
  "EFFECT_ID_V1_PATTERN s \<longleftrightarrow>
     take 5 s = ''eff1_'' \<and> length s = 57 \<and> list_all (\<lambda>c. c \<in> set BASE32_ALPHABET) (drop 5 s) \<and> last s \<in> set ''aq''"

text \<open>\<open>D13_REVIEW_ID_PATTERN\<close> and \<open>SHA256_DIGEST_PATTERN\<close> are the same pattern, \<open>schema_digest\<close>.\<close>

definition isEffectKind :: "string \<Rightarrow> bool" where
  "isEffectKind kind \<longleftrightarrow> kind \<in> set CORE_EFFECT_KINDS \<or> (length kind \<le> 128 \<and> EXTENSION_KIND_PATTERN kind)"

definition assertEffectScope :: "effect_scope \<Rightarrow> effect_error + unit" where
  "assertEffectScope scope =
     checks [(\<not> IDENTIFIER_PATTERN (es_tenant scope) \<or> \<not> IDENTIFIER_PATTERN (es_project scope)
                \<or> es_subsystem scope \<notin> set EFFECT_SUBSYSTEMS, usageError ''invalid-scope'')]"

definition assertWriterId :: "string \<Rightarrow> effect_error + unit" where
  "assertWriterId writer = checks [(\<not> WRITER_ID_PATTERN writer, usageError ''invalid-writer'')]"

definition assertEffectKind :: "string \<Rightarrow> effect_error + unit" where
  "assertEffectKind kind = checks [(\<not> isEffectKind kind, usageError ''unknown-kind'')]"

definition assertEffectTarget :: "string \<Rightarrow> effect_error + unit" where
  "assertEffectTarget target = checks [(1024 < length target \<or> \<not> TARGET_PATTERN target, usageError ''invalid-target'')]"

fun context_scalar :: "context_value \<Rightarrow> bool" where
  "context_scalar (CtxStr s) \<longleftrightarrow> length s \<le> 256"
| "context_scalar (CtxInt n) \<longleftrightarrow> safe_int n"
| "context_scalar (CtxBool b) \<longleftrightarrow> True"

definition assertEffectContext :: "effect_context \<Rightarrow> effect_error + unit" where
  "assertEffectContext context =
     checks [(16 < length context, usageError ''invalid-context''),
             (list_ex (\<lambda>(key, v). \<not> CONTEXT_KEY_PATTERN key \<or> \<not> context_scalar v) context, usageError ''invalid-context'')]"

definition assertPayloadDigest :: "string \<Rightarrow> effect_error + unit" where
  "assertPayloadDigest v = checks [(\<not> schema_digest v, usageError ''invalid-payload-digest'')]"

section \<open>Derivations\<close>

datatype effect_derivation = AiwgEffectV1 | D13ReviewV1

definition assertIdentityInput :: "effect_identity \<Rightarrow> effect_error + unit" where
  "assertIdentityInput input =
     thenR (assertEffectScope (ei_scope input))
     (thenR (assertEffectKind (ei_kind input))
     (thenR (assertEffectTarget (ei_target input))
     (assertEffectContext (ei_context input))))"

fun context_json :: "context_value \<Rightarrow> json" where
  "context_json (CtxStr s) = JStr s"
| "context_json (CtxInt n) = JNum (num_of_int n)"
| "context_json (CtxBool b) = JBool b"

definition scope_json :: "effect_scope \<Rightarrow> json" where
  "scope_json scope = JObj [(''tenant'', JStr (es_tenant scope)), (''project'', JStr (es_project scope)),
     (''subsystem'', JStr (es_subsystem scope))]"

definition identity_json :: "effect_identity \<Rightarrow> json" where
  "identity_json input =
     JObj [(''v'', JNum (num_of_int 1)), (''scope'', scope_json (ei_scope input)), (''kind'', JStr (ei_kind input)),
           (''target'', JStr (ei_target input)),
           (''context'', JObj (map (\<lambda>(k, v). (k, context_json v)) (ei_context input)))]"

definition canonical_text :: "effect_hash \<Rightarrow> json \<Rightarrow> effect_error + string" where
  "canonical_text h v = mapErr (\<lambda>_. EffectLedgerError CodeInternal []) (canonicalJson (eh_number h) v)"

definition derive_v1 :: "effect_hash \<Rightarrow> effect_identity \<Rightarrow> effect_error + string" where
  "derive_v1 h input =
     thenR (assertIdentityInput input)
     (thenR (checks [(ei_kind input = ''decision.review.continuation'', usageError ''derivation-kind-mismatch'')])
     (bindR (canonical_text h (identity_json input)) (\<lambda>text.
        Inr (''eff1_'' @ base32Lower (eh_sha256 h text)))))"

definition review_json :: "string \<Rightarrow> string \<Rightarrow> int \<Rightarrow> json" where
  "review_json reviewId continuationId proposalVersion =
     JObj [(''reviewId'', JStr reviewId), (''continuationId'', JStr continuationId),
           (''proposalVersion'', JNum (num_of_int proposalVersion))]"

definition derive_review :: "effect_hash \<Rightarrow> effect_identity \<Rightarrow> effect_error + string" where
  "derive_review h input =
     thenR (assertIdentityInput input)
     (let context = ei_context input; failure = Inl (usageError ''derivation-input-invalid'') in
      if ei_kind input \<noteq> ''decision.review.continuation'' \<or> es_subsystem (ei_scope input) \<noteq> ''review''
        \<or> sort (map fst context) \<noteq> [''continuationId'', ''proposalVersion'', ''reviewId''] then failure
      else case (map_of context ''reviewId'', map_of context ''continuationId'', map_of context ''proposalVersion'') of
        (Some (CtxStr reviewId), Some (CtxStr continuationId), Some (CtxInt proposalVersion)) \<Rightarrow>
          if reviewId = [] \<or> continuationId = [] \<or> \<not> safe_int proposalVersion \<or> proposalVersion < 1 then failure
          else bindR (canonical_text h (review_json reviewId continuationId proposalVersion)) (\<lambda>text.
                 Inr (sha256Digest h text))
      | _ \<Rightarrow> failure)"

fun effectIdDerivation :: "effect_derivation \<Rightarrow> effect_hash \<Rightarrow> effect_identity \<Rightarrow> effect_error + string" where
  "effectIdDerivation AiwgEffectV1 = derive_v1"
| "effectIdDerivation D13ReviewV1 = derive_review"

definition defaultDerivationFor :: "string \<Rightarrow> effect_derivation" where
  "defaultDerivationFor kind = (if kind = ''decision.review.continuation'' then D13ReviewV1 else AiwgEffectV1)"

definition isValidEffectId :: "string \<Rightarrow> bool" where
  "isValidEffectId i \<longleftrightarrow> EFFECT_ID_V1_PATTERN i \<or> schema_digest i"

definition assertEffectId :: "string \<Rightarrow> effect_error + unit" where
  "assertEffectId i = checks [(\<not> isValidEffectId i, usageError ''malformed-effect-id'')]"

end
