(* ===== verification/EffectIdSafety.thy ===== *)
theory EffectIdSafety
  imports EffectIdentity
begin

unbundle bit_operations_syntax

text \<open>
  What the identity of an effect promises (\<open>src/effects/identity.ts\<close>): the base32 text carries exactly
  the bits of the digest, a derived id has the format readers check, and two effects share an id
  exactly when they have the same scope, kind, target and context.
\<close>

section \<open>Reading base32\<close>

definition byte_bits :: "8 word \<Rightarrow> bool list" where
  "byte_bits b = map (bit b) (rev [0..<8])"

definition char_value :: "char \<Rightarrow> nat" where
  "char_value c = length (takeWhile (\<lambda>d. d \<noteq> c) BASE32_ALPHABET)"

definition char_bits :: "char \<Rightarrow> bool list" where
  "char_bits c = map (bit (char_value c)) (rev [0..<5])"

definition text_bits :: "string \<Rightarrow> bool list" where
  "text_bits s = concat (map char_bits s)"

definition word_of_bits :: "bool list \<Rightarrow> 8 word" where
  "word_of_bits bs = foldl (\<lambda>w b. push_bit 1 w OR (if b then 1 else 0)) 0 bs"

fun octets :: "bool list \<Rightarrow> 8 word list" where
  "octets bs = (if length bs < 8 then [] else word_of_bits (take 8 bs) # octets (drop 8 bs))"

declare octets.simps [simp del]

text \<open>A reader of RFC 4648 text without padding: whole octets, trailing bits dropped.\<close>

definition base32_read :: "string \<Rightarrow> 8 word list" where
  "base32_read s = octets (text_bits s)"

lemma word_of_byte_bits: "word_of_bits (byte_bits b) = b"
proof -
  have "byte_bits b = [bit b 7, bit b 6, bit b 5, bit b 4, bit b 3, bit b 2, bit b 1, bit b 0]"
    by (simp add: byte_bits_def upt_rec numeral_eq_Suc)
  then have "bit (word_of_bits (byte_bits b)) n = bit b n" if "n < 8" for n
  proof -
    from that have "n = 0 \<or> n = 1 \<or> n = 2 \<or> n = 3 \<or> n = 4 \<or> n = 5 \<or> n = 6 \<or> n = 7" by auto
    then show ?thesis
      by (elim disjE) (simp_all add: word_of_bits_def \<open>byte_bits b = _\<close> bit_simps)
  qed
  then show ?thesis by (intro bit_word_eqI) simp
qed

lemma length_byte_bits [simp]: "length (byte_bits b) = 8"
  by (simp add: byte_bits_def)

lemma octets_bytes: "length rest < 8 \<Longrightarrow> octets (concat (map byte_bits bytes) @ rest) = bytes"
proof (induction bytes)
  case Nil
  then show ?case by (simp add: octets.simps)
next
  case (Cons b bytes)
  then show ?case by (subst octets.simps) (simp add: word_of_byte_bits)
qed

section \<open>Writing base32\<close>

lemma char_value_nth: "i < 32 \<Longrightarrow> char_value (BASE32_ALPHABET ! i) = i"
proof -
  have "\<forall>i \<in> set [0..<32]. char_value (BASE32_ALPHABET ! i) = i" by code_simp
  then show "i < 32 \<Longrightarrow> char_value (BASE32_ALPHABET ! i) = i" by simp
qed

lemma low_bits_bound: "unat (v AND 31 :: 32 word) < 32"
proof -
  have "v AND 31 = take_bit 5 v" by (simp add: take_bit_eq_mask mask_eq_exp_minus_1)
  then show ?thesis using take_bit_nat_less_exp [of 5 "unat v"] by (simp add: unsigned_take_bit_eq)
qed

lemma char_bits_base32: "char_bits (base32_char v) = map (bit v) (rev [0..<5])"
proof -
  have m: "(31 :: 32 word) = mask 5" by (simp add: mask_eq_exp_minus_1)
  have "bit (unat (v AND 31)) n = bit v n" if "n < 5" for n
    using that unfolding m by (simp add: bit_simps)
  then show ?thesis
    by (simp add: char_bits_def base32_char_def char_value_nth [OF low_bits_bound])
qed

definition pending :: "32 word \<Rightarrow> nat \<Rightarrow> bool list" where
  "pending v bits = map (bit v) (rev [0..<bits])"

lemma upt_split: "k \<le> n \<Longrightarrow> [0..<n] = [0..<k] @ map (\<lambda>i. i + k) [0..<n - k]"
  using upt_add_eq_append [of 0 k "n - k"] map_add_upt [of k "n - k"] by simp

lemma pending_split: "pending v (bits + 5) = map (bit (drop_bit bits v)) (rev [0..<5]) @ pending v bits"
proof -
  have s: "[0..<bits + 5] = [0..<bits] @ map (\<lambda>i. i + bits) [0..<5]" using upt_split [of bits "bits + 5"] by simp
  have "map (bit v) (map (\<lambda>i. i + bits) (rev [0..<5])) = map (bit (drop_bit bits v)) (rev [0..<5])"
    unfolding map_map by (rule map_cong) (simp_all add: bit_simps add.commute)
  then show ?thesis unfolding pending_def s rev_append rev_map map_append by simp
qed

lemma drain_bits:
  "base32_drain v bits = (out, rest) \<Longrightarrow>
   text_bits out @ pending v rest = pending v bits \<and> rest = bits mod 5 \<and> length out = bits div 5"
proof (induction v bits arbitrary: out rest rule: base32_drain.induct)
  case (1 v bits)
  show ?case
  proof (cases "5 \<le> bits")
    case True
    obtain out' rest' where d: "base32_drain v (bits - 5) = (out', rest')" by fastforce
    have o: "out = base32_char (drop_bit (bits - 5) v) # out'" "rest = rest'"
      using "1.prems" True d by (simp_all add: base32_drain.simps [of v bits])
    have "pending v bits = map (bit (drop_bit (bits - 5) v)) (rev [0..<5]) @ pending v (bits - 5)"
      using pending_split [of v "bits - 5"] True by simp
    moreover have "text_bits out' @ pending v rest' = pending v (bits - 5)" "rest' = (bits - 5) mod 5"
      "length out' = (bits - 5) div 5"
      using "1.IH" [OF True d] by blast+
    ultimately show ?thesis
      using True unfolding o text_bits_def list.map concat.simps char_bits_base32 append_assoc
      by (metis (no_types) le_mod_geq le_div_geq length_Cons zero_less_numeral)
  next
    case False
    then show ?thesis using "1.prems" by (simp add: base32_drain.simps [of v bits] text_bits_def)
  qed
qed

lemma pending_shift:
  assumes "bits \<le> 4"
  shows "pending (base32_shift v b) (bits + 8) = pending v bits @ byte_bits b"
proof -
  have m: "(0xffff :: 32 word) = mask 16" by (simp add: mask_eq_exp_minus_1)
  have bit: "bit (base32_shift v b) i = (if i < 8 then bit b i else bit v (i - 8))" if "i < 12" for i
    using that unfolding base32_shift_def m by (auto simp: bit_simps dest: bit_imp_le_length)
  have s: "[0..<bits + 8] = [0..<8] @ map (\<lambda>i. i + 8) [0..<bits]" using upt_split [of 8 "bits + 8"] by simp
  have "map (bit (base32_shift v b)) (map (\<lambda>i. i + 8) (rev [0..<bits])) = map (bit v) (rev [0..<bits])"
    unfolding map_map using assms by (intro map_cong) (simp_all add: bit)
  moreover have "map (bit (base32_shift v b)) (rev [0..<8]) = map (bit b) (rev [0..<8])"
    by (intro map_cong) (simp_all add: bit)
  ultimately show ?thesis
    unfolding pending_def byte_bits_def s rev_append rev_map map_append by simp
qed

definition pad_bits :: "nat \<Rightarrow> nat" where
  "pad_bits n = (5 - n mod 5) mod 5"

lemma final_bits:
  assumes "0 < bits" and "bits < 5"
  shows "map (bit (push_bit (5 - bits) v :: 32 word)) (rev [0..<5]) = pending v bits @ replicate (5 - bits) False"
proof -
  let ?w = "push_bit (5 - bits) v :: 32 word"
  have s: "[0..<5] = [0..<5 - bits] @ map (\<lambda>i. i + (5 - bits)) [0..<bits]" using upt_split [of "5 - bits" 5] assms by simp
  have "map (bit ?w) (rev [0..<5 - bits]) = replicate (5 - bits) False"
    by (rule nth_equalityI) (auto simp: bit_simps rev_nth)
  moreover have "map (bit ?w) (map (\<lambda>i. i + (5 - bits)) (rev [0..<bits])) = map (bit v) (rev [0..<bits])"
  proof -
    have "bit ?w (x + (5 - bits)) = bit v x" if "x < bits" for x
      using that assms by (auto simp: bit_push_bit_iff)
    then show ?thesis unfolding map_map by (intro map_cong) simp_all
  qed
  ultimately show ?thesis unfolding pending_def s rev_append rev_map map_append by simp
qed

lemma loop_bits:
  "bits < 5 \<Longrightarrow>
   text_bits (base32_loop bytes v bits)
     = pending v bits @ concat (map byte_bits bytes) @ replicate (pad_bits (bits + 8 * length bytes)) False
   \<and> length (base32_loop bytes v bits) = (bits + 8 * length bytes + 4) div 5"
proof (induction bytes arbitrary: v bits)
  case Nil
  then show ?case
    using final_bits [of bits v]
    by (auto simp: text_bits_def char_bits_base32 pad_bits_def pending_def)
next
  case (Cons b bytes)
  obtain out rest where d: "base32_drain (base32_shift v b) (bits + 8) = (out, rest)" by fastforce
  note e = drain_bits [OF d]
  then have r: "rest < 5" by simp
  have p: "text_bits out @ pending (base32_shift v b) rest = pending v bits @ byte_bits b"
    using conjunct1 [OF e] pending_shift [of bits v b] Cons.prems by simp
  have n: "bits + 8 = 5 * length out + rest" using e by (metis mult_div_mod_eq)
  have "pad_bits (rest + 8 * length bytes) = pad_bits (bits + 8 * length (b # bytes))"
  proof -
    have eq: "bits + 8 * length (b # bytes) = 5 * length out + (rest + 8 * length bytes)" using n by simp
    have "(bits + 8 * length (b # bytes)) mod 5 = (rest + 8 * length bytes) mod 5"
      unfolding eq by (rule mod_mult_self4)
    then show ?thesis unfolding pad_bits_def by simp
  qed
  moreover have "length out + (rest + 8 * length bytes + 4) div 5 = (bits + 8 * length (b # bytes) + 4) div 5"
    using n by simp
  ultimately show ?case
    using Cons.IH [OF r, of "base32_shift v b"] p
    by (simp add: d Let_def) (simp add: text_bits_def flip: append_assoc)
qed

lemma base32_bits:
  "text_bits (base32Lower bytes) = concat (map byte_bits bytes) @ replicate (pad_bits (8 * length bytes)) False"
  "length (base32Lower bytes) = (8 * length bytes + 4) div 5"
  using loop_bits [of 0 bytes 0] by (simp_all add: base32Lower_def pending_def)

lemma base32_decoded: "base32_read (base32Lower bytes) = bytes"
proof -
  have "length (replicate (pad_bits (8 * length bytes)) False) < 8"
    using mod_less_divisor [of 5 "5 - 8 * length bytes mod 5"] by (simp add: pad_bits_def)
  then show ?thesis unfolding base32_read_def base32_bits by (rule octets_bytes)
qed

text \<open>C37: The text of \<open>base32Lower\<close> loses nothing: reading it as RFC 4648 base32, most significant bit
  first and without padding, gives back the bytes, for every list of bytes; its length is the number
  of bits over five, rounded up.\<close>

theorem base32_roundtrip:
  "base32_read (base32Lower bytes) = bytes \<and> length (base32Lower bytes) = (8 * length bytes + 4) div 5"
  using base32_decoded base32_bits(2) by simp

section \<open>Effect ids\<close>

lemma alphabet_size: "length BASE32_ALPHABET = 32"
  by (simp add: BASE32_ALPHABET_def)

lemma base32_loop_alphabet: "set (base32_loop bytes v bits) \<subseteq> set BASE32_ALPHABET"
proof -
  have c: "base32_char v \<in> set BASE32_ALPHABET" for v
    unfolding base32_char_def by (rule nth_mem) (simp only: alphabet_size low_bits_bound)
  have d: "set (fst (base32_drain v bits)) \<subseteq> set BASE32_ALPHABET" for v bits
  proof (induction v bits rule: base32_drain.induct)
    case (1 v bits)
    then show ?case using c by (subst base32_drain.simps) (auto split: prod.splits)
  qed
  show ?thesis
  proof (induction bytes arbitrary: v bits)
    case (Cons b bytes)
    obtain out rest where "base32_drain (base32_shift v b) (bits + 8) = (out, rest)" by fastforce
    then show ?case using Cons d [of "base32_shift v b" "bits + 8"] by (auto simp: Let_def)
  qed (use c in auto)
qed

lemma all_digits:
  assumes "c \<in> set BASE32_ALPHABET"
  shows "\<exists>i < 32. c = BASE32_ALPHABET ! i"
  using assms unfolding in_set_conv_nth alphabet_size by blast

text \<open>Of a digest of 32 bytes the last character carries one bit.\<close>

lemma digest_last:
  assumes "length bytes = 32"
  shows "length (base32Lower bytes) = 52" and "last (base32Lower bytes) \<in> set ''aq''"
proof -
  show l: "length (base32Lower bytes) = 52" using base32_bits(2) [of bytes] assms by simp
  let ?s = "base32Lower bytes"
  have ne: "?s \<noteq> []" using l by auto
  have len: "length (char_bits c) = 5" for c by (simp add: char_bits_def)
  have snoc: "?s = butlast ?s @ [last ?s]" using ne by simp
  have "text_bits ?s = text_bits (butlast ?s) @ char_bits (last ?s)" by (subst snoc) (simp add: text_bits_def)
  moreover have "text_bits ?s = concat (map byte_bits bytes) @ replicate 4 False"
    using base32_bits(1) [of bytes] assms by (simp add: pad_bits_def)
  ultimately have "take 4 (rev (text_bits (butlast ?s) @ char_bits (last ?s)))
      = take 4 (rev (concat (map byte_bits bytes) @ replicate 4 False))" by (simp only:)
  then have "take 4 (rev (char_bits (last ?s))) = replicate 4 False" by (simp add: len)
  moreover obtain i where i: "i < 32" "last ?s = BASE32_ALPHABET ! i"
    using all_digits [of "last ?s"] base32_loop_alphabet [of bytes 0 0] last_in_set [OF ne] unfolding base32Lower_def by blast
  moreover have "list_all (\<lambda>i. take 4 (rev (char_bits (BASE32_ALPHABET ! i))) = replicate 4 False
      \<longrightarrow> BASE32_ALPHABET ! i \<in> set ''aq'') [0..<32]"
    by code_simp
  ultimately show "last ?s \<in> set ''aq''" unfolding list_all_iff by auto
qed

lemma derive_v1_Inr:
  assumes "derive_v1 h a = Inr i"
  shows "assertIdentityInput a = Inr ()"
    and "\<exists>t. canonical_text h (identity_json a) = Inr t \<and> i = ''eff1_'' @ base32Lower (eh_sha256 h t)"
  using assms unfolding derive_v1_def thenR_Inr_iff bindR_Inr_iff by (simp, blast)

lemma id_pattern:
  assumes "length bytes = 32"
  shows "EFFECT_ID_V1_PATTERN (''eff1_'' @ base32Lower bytes)"
proof -
  note d = digest_last [OF assms]
  then have "base32Lower bytes \<noteq> []" by auto
  moreover have "list_all (\<lambda>c. c \<in> set BASE32_ALPHABET) (base32Lower bytes)"
    using base32_loop_alphabet [of bytes 0 0] unfolding base32Lower_def list_all_iff by blast
  ultimately show ?thesis using d by (simp add: EFFECT_ID_V1_PATTERN_def)
qed

lemma base32_inject: "base32Lower a = base32Lower b \<Longrightarrow> a = b"
  by (metis base32_decoded)

section \<open>Identity\<close>

text \<open>A context is an object: its keys are distinct.\<close>

definition same_identity :: "effect_identity \<Rightarrow> effect_identity \<Rightarrow> bool" where
  "same_identity a b \<longleftrightarrow>
     ei_scope a = ei_scope b \<and> ei_kind a = ei_kind b \<and> ei_target a = ei_target b
     \<and> map_of (ei_context a) = map_of (ei_context b)"

lemma context_json_inject: "context_json x = context_json y \<longleftrightarrow> x = y"
  by (cases x; cases y) auto

lemma canon_context_value [simp]: "canon (context_json x) = context_json x"
  by (cases x) simp_all

lemma canon_context_eq:
  assumes "distinct (map fst a)" and "distinct (map fst b)"
  shows "canon (JObj (map (\<lambda>(k, v). (k, context_json v)) a)) = canon (JObj (map (\<lambda>(k, v). (k, context_json v)) b))
    \<longleftrightarrow> map_of a = map_of b"
proof -
  let ?f = "\<lambda>(k, v). (k, context_json v)"
  have c: "canon (JObj (map ?f xs)) = JObj (sort_key fst (map ?f xs))" for xs
    by (simp add: split_def comp_def)
  have keys: "map fst (map ?f xs) = map fst xs" for xs :: "effect_context" by (simp add: case_prod_beta comp_def)
  have "inj ?f" by (auto intro!: injI simp: context_json_inject)
  then have "?f ` set a = ?f ` set b \<longleftrightarrow> set a = set b" by (rule inj_image_eq_iff)
  then show ?thesis
    using sort_key_fst_eq_iff [of "map ?f a" "map ?f b"] assms map_of_inject_set [OF assms]
    unfolding c keys json.inject set_map by blast
qed

lemma same_keys_set_eq:
  assumes "map fst xs = map fst ys" and "distinct (map fst xs)"
  shows "set xs = set ys \<longleftrightarrow> xs = ys"
proof
  assume eq: "set xs = set ys"
  have d: "distinct (map fst ys)" using assms by simp
  show "xs = ys"
  proof (rule nth_equalityI)
    show len: "length xs = length ys" using arg_cong [OF assms(1), of length] by simp
    fix i
    assume i: "i < length xs"
    have "map_of xs = map_of ys" using map_of_inject_set [OF assms(2) d] eq by simp
    then have "map_of ys (fst (xs ! i)) = Some (snd (xs ! i))"
      using map_of_is_SomeI [OF assms(2), of "fst (xs ! i)" "snd (xs ! i)"] i by simp
    moreover have "fst (xs ! i) = fst (ys ! i)" using arg_cong [OF assms(1), of "\<lambda>l. l ! i"] i len by simp
    moreover have "map_of ys (fst (ys ! i)) = Some (snd (ys ! i))"
      using map_of_is_SomeI [OF d, of "fst (ys ! i)" "snd (ys ! i)"] i len by simp
    ultimately show "xs ! i = ys ! i" by (simp add: prod_eq_iff)
  qed
qed simp

lemma canon_identity_eq:
  assumes "distinct (map fst (ei_context a))" and "distinct (map fst (ei_context b))"
  shows "canon (identity_json a) = canon (identity_json b) \<longleftrightarrow> same_identity a b"
proof -
  let ?ctx = "\<lambda>x. canon (JObj (map (\<lambda>(k, v). (k, context_json v)) (ei_context x)))"
  let ?top = "\<lambda>x. [(''v'', JNum (num_of_int 1)), (''scope'', canon (scope_json (ei_scope x))), (''kind'', JStr (ei_kind x)),
      (''target'', JStr (ei_target x)), (''context'', ?ctx x)]"
  have t: "canon (identity_json x) = JObj (sort_key fst (?top x))" for x
    unfolding identity_json_def by (simp only: canon.simps list.map prod.case)
  have d: "distinct (map fst (?top x))" for x by (simp del: canon.simps)
  have "canon (identity_json a) = canon (identity_json b) \<longleftrightarrow> set (?top a) = set (?top b)"
    unfolding t json.inject by (rule sort_key_fst_eq_iff [OF d d])
  also have "\<dots> \<longleftrightarrow> canon (scope_json (ei_scope a)) = canon (scope_json (ei_scope b)) \<and> ei_kind a = ei_kind b
      \<and> ei_target a = ei_target b \<and> ?ctx a = ?ctx b"
    by (subst same_keys_set_eq) (simp_all del: canon.simps)
  also have "canon (scope_json (ei_scope a)) = canon (scope_json (ei_scope b)) \<longleftrightarrow> ei_scope a = ei_scope b"
  proof -
    let ?s = "\<lambda>x. [(''tenant'', JStr (es_tenant x)), (''project'', JStr (es_project x)), (''subsystem'', JStr (es_subsystem x))]"
    have t: "canon (scope_json x) = JObj (sort_key fst (?s x))" for x :: effect_scope by (simp add: scope_json_def)
    have d: "distinct (map fst (?s x))" for x :: effect_scope by simp
    have "canon (scope_json (ei_scope a)) = canon (scope_json (ei_scope b))
        \<longleftrightarrow> set (?s (ei_scope a)) = set (?s (ei_scope b))"
      unfolding t json.inject by (rule sort_key_fst_eq_iff [OF d d])
    also have "\<dots> \<longleftrightarrow> ei_scope a = ei_scope b" by (subst same_keys_set_eq) (auto intro!: effect_scope.equality)
    finally show ?thesis .
  qed
  finally show ?thesis using canon_context_eq [OF assms] by (simp add: same_identity_def del: canon.simps)
qed

lemma identity_no_negzero: "no_negzero (identity_json a)"
proof -
  have "no_negzero (context_json v)" for v by (cases v) simp_all
  then show ?thesis by (auto simp: identity_json_def scope_json_def)
qed

lemma identity_double:
  assumes "assertIdentityInput a = Inr ()"
  shows "double_json (identity_json a)"
proof -
  have "\<not> list_ex (\<lambda>(key, v). \<not> CONTEXT_KEY_PATTERN key \<or> \<not> context_scalar v) (ei_context a)"
    using assms by (simp add: assertIdentityInput_def assertEffectContext_def split: if_splits)
  then have c: "context_scalar v" if "(k, v) \<in> set (ei_context a)" for k v
    using that by (auto simp: list_ex_iff)
  have "double_json (context_json v)" if "context_scalar v" for v
    using that by (cases v) (simp_all add: is_double_int)
  then have "double_json (JObj (map (\<lambda>(k, v). (k, context_json v)) (ei_context a)))" using c by auto
  moreover have "is_double (of_int 1)" by (rule is_double_int) (simp add: safe_int_def max_safe_integer_def)
  ultimately show ?thesis by (simp add: identity_json_def scope_json_def)
qed

lemma canonical_text_eq:
  "double_json v \<Longrightarrow> canonical_text h v = Inr (stringify (eh_number h) (canon v))"
  by (simp add: canonical_text_def canonicalJson_eq double_finite)

text \<open>C36: An effect id of the derivation aiwg.effect/v1, the default of every kind but the continuations of
  reviews, identifies its effect: over a digest of 32 bytes without a collision between the two
  texts, a derived id has the format that readers check, and two derived ids are equal exactly when
  scope, kind, target and context (as an object, whatever the order of its members) are. The other
  registered derivation, d13.review/v1, hashes three fields of the context only.\<close>

theorem effect_id_identifies:
  assumes "derive_v1 h a = Inr i" and "derive_v1 h b = Inr j" and "number_text (eh_number h)"
    and "distinct (map fst (ei_context a))" and "distinct (map fst (ei_context b))"
    and "\<And>s. length (eh_sha256 h s) = 32"
    and "\<And>s t. canonical_text h (identity_json a) = Inr s \<Longrightarrow> canonical_text h (identity_json b) = Inr t \<Longrightarrow>
      eh_sha256 h s = eh_sha256 h t \<Longrightarrow> s = t"
  shows "EFFECT_ID_V1_PATTERN i \<and> (i = j \<longleftrightarrow> same_identity a b)"
proof -
  note dbl = identity_double [OF derive_v1_Inr(1) [OF assms(1)]] identity_double [OF derive_v1_Inr(1) [OF assms(2)]]
  let ?s = "stringify (eh_number h) (canon (identity_json a))" and ?t = "stringify (eh_number h) (canon (identity_json b))"
  note texts = canonical_text_eq [OF dbl(1), of h] canonical_text_eq [OF dbl(2), of h]
  have ids: "i = ''eff1_'' @ base32Lower (eh_sha256 h ?s)" "j = ''eff1_'' @ base32Lower (eh_sha256 h ?t)"
    using derive_v1_Inr(2) [OF assms(1)] derive_v1_Inr(2) [OF assms(2)] texts by simp_all
  have "i = j \<longleftrightarrow> eh_sha256 h ?s = eh_sha256 h ?t" unfolding ids by (auto dest: base32_inject)
  also have "\<dots> \<longleftrightarrow> ?s = ?t" using assms(7) [OF texts] by auto
  also have "\<dots> \<longleftrightarrow> canon (identity_json a) = canon (identity_json b)"
    using stringify_inject [OF assms(3), of "canon (identity_json a)" "canon (identity_json b)" "[]" "[]"] dbl
      no_negzero_canon [OF identity_no_negzero [of a]] no_negzero_canon [OF identity_no_negzero [of b]]
    by (auto simp: double_canon delim_def)
  also have "\<dots> \<longleftrightarrow> same_identity a b" by (rule canon_identity_eq [OF assms(4,5)])
  finally show ?thesis using id_pattern [OF assms(6), of ?s] ids(1) by simp
qed

definition demo_identity :: "string \<Rightarrow> effect_identity" where
  "demo_identity target = \<lparr>ei_scope = \<lparr>es_tenant = ''t'', es_project = ''p'', es_subsystem = ''job''\<rparr>,
     ei_kind = ''git.commit'', ei_target = target, ei_context = [(''cycle'', CtxInt 2)]\<rparr>"

text \<open>A digest that separates one text from all others.\<close>

definition demo_hash :: effect_hash where
  "demo_hash = \<lparr>eh_sha256 = (\<lambda>s. if s = stringify unary_text (canon (identity_json (demo_identity ''git:a'')))
     then replicate 32 0 else replicate 32 1), eh_number = unary_text\<rparr>"

lemma demo_identity_input:
  "assertIdentityInput (demo_identity ''git:a'') = Inr ()" "assertIdentityInput (demo_identity ''git:b'') = Inr ()"
  by (simp_all add: assertIdentityInput_def demo_identity_def assertEffectScope_def assertEffectKind_def isEffectKind_def
      CORE_EFFECT_KINDS_def assertEffectTarget_def TARGET_PATTERN_def TARGET_SCHEMES_def is_space_def assertEffectContext_def
      IDENTIFIER_PATTERN_def CONTEXT_KEY_PATTERN_def headed_def is_alnum_def less_eq_char_def EFFECT_SUBSYSTEMS_def
      safe_int_def max_safe_integer_def)

lemma demo_derive:
  "target \<in> {''git:a'', ''git:b''} \<Longrightarrow>
   derive_v1 demo_hash (demo_identity target)
     = Inr (''eff1_'' @ base32Lower (eh_sha256 demo_hash (stringify unary_text (canon (identity_json (demo_identity target))))))"
  using demo_identity_input canonical_text_eq [OF identity_double [OF demo_identity_input(1)], of demo_hash]
    canonical_text_eq [OF identity_double [OF demo_identity_input(2)], of demo_hash]
  by (auto simp: derive_v1_def demo_identity_def demo_hash_def)

lemma effect_id_identifies_witness:
  "\<exists>i j. derive_v1 demo_hash (demo_identity ''git:a'') = Inr i \<and> derive_v1 demo_hash (demo_identity ''git:b'') = Inr j
     \<and> EFFECT_ID_V1_PATTERN i \<and> i \<noteq> j"
proof -
  obtain i j where d: "derive_v1 demo_hash (demo_identity ''git:a'') = Inr i" "derive_v1 demo_hash (demo_identity ''git:b'') = Inr j"
    using demo_derive by blast
  have "distinct (map fst (ei_context (demo_identity target)))" for target by (simp add: demo_identity_def)
  moreover have "length (eh_sha256 demo_hash s) = 32" for s by (simp add: demo_hash_def)
  moreover have "s = t" if s: "canonical_text demo_hash (identity_json (demo_identity ''git:a'')) = Inr s"
    and "eh_sha256 demo_hash s = eh_sha256 demo_hash t" for s t
  proof -
    have "s = stringify unary_text (canon (identity_json (demo_identity ''git:a'')))"
      using s canonical_text_eq [OF identity_double [OF demo_identity_input(1)], of demo_hash] by (simp add: demo_hash_def)
    then show ?thesis using that(2) by (auto simp: demo_hash_def split: if_splits)
  qed
  moreover have "number_text (eh_number demo_hash)" using unary_number_text by (simp add: demo_hash_def)
  ultimately have "EFFECT_ID_V1_PATTERN i \<and> (i = j \<longleftrightarrow> same_identity (demo_identity ''git:a'') (demo_identity ''git:b''))"
    by (intro effect_id_identifies [OF d])
  moreover have "\<not> same_identity (demo_identity ''git:a'') (demo_identity ''git:b'')"
    by (simp add: same_identity_def demo_identity_def)
  ultimately show ?thesis using d by blast
qed

end
