(* ===== verification/EffectTypes.thy ===== *)
theory EffectTypes
  imports EffectIdentity
begin

text \<open>
  The documents of the effect ledger (\<open>src/effects/types.ts\<close> and the schemas \<open>EffectRecord\<close>,
  \<open>EffectKeyring\<close> and \<open>EffectCheckpoint\<close> under \<open>schemas/effects\<close>). A payload is signed as its canonical
  text, which is as good as the value; constant members (schema versions, payload types, the
  algorithm) are left out, and the three payload types are the constructors of \<open>signed_payload\<close>.
  The formats of keys and signatures are parameters.
\<close>

section \<open>Records\<close>

datatype effect_phase = PhaseIntent | PhaseCompleted | PhaseFailed | PhaseReconciled | PhaseTombstone

datatype verification_result = ResultPresent | ResultAbsent | ResultUnknown

record verifier_ref =
  vr_kind :: string
  vr_version :: string
  vr_canReportAbsent :: bool

record effect_verification =
  ev_verifier :: verifier_ref
  ev_result :: verification_result
  ev_reason :: string
  ev_complete :: bool
  ev_checkedAt :: string
  ev_evidenceDigest :: "string option"

record effect_failure =
  ef_reason :: string
  ef_evidenceDigest :: "string option"

record effect_tombstone =
  et_originalRecordHash :: string
  et_originalKeyid :: string
  et_originalPhase :: effect_phase
  et_purgedAt :: string
  et_retentionPolicy :: string

record effect_links =
  el_operatorDecisionEventId :: "string option"
  el_operatorDecisionRecordHash :: "string option"
  el_traceId :: "string option"
  el_spanId :: "string option"
  el_toolCallId :: "string option"

record effect_predicate =
  ep_effectId :: string
  ep_idDerivation :: effect_derivation
  ep_scope :: effect_scope
  ep_kind :: string
  ep_target :: "string option"
  ep_context :: "effect_context option"
  ep_phase :: effect_phase
  ep_payloadDigest :: string
  ep_writer :: string
  ep_seq :: nat
  ep_prev :: "string option"
  ep_recordedAt :: string
  ep_verification :: "effect_verification option"
  ep_failure :: "effect_failure option"
  ep_tombstone :: "effect_tombstone option"
  ep_links :: effect_links

record effect_statement =
  st_name :: string
  st_sha256 :: string
  st_predicate :: effect_predicate

record effect_signature =
  sg_keyid :: string
  sg_sig :: string

text \<open>A segment line: the payload of its envelope is the statement.\<close>

record segment_line =
  sl_writer :: string
  sl_seq :: nat
  sl_recordHash :: string
  sl_statement :: effect_statement
  sl_signatures :: "effect_signature list"

section \<open>Keyrings\<close>

datatype key_status = KeyActive | KeyRetired | KeyRevoked

record keyring_key =
  kk_keyid :: string
  kk_publicKey :: string
  kk_validFrom :: string
  kk_validUntil :: "string option"
  kk_status :: key_status
  kk_revokedAt :: "string option"

datatype rotation_reason = RotationScheduled | RotationCustodyChange | RotationCompromise

record rotation_body =
  rb_sequence :: int
  rb_from :: string
  rb_to :: string
  rb_effectiveAt :: string
  rb_reason :: rotation_reason

datatype rotation_role = RolePrior | RoleSuccessor

record key_rotation =
  kr_body :: rotation_body
  kr_signatures :: "(rotation_role \<times> string \<times> string) list"

record effect_keyring =
  ky_scope :: effect_scope
  ky_keys :: "keyring_key list"
  ky_rotations :: "key_rotation list"

section \<open>Checkpoints\<close>

record checkpoint_writer =
  cw_writer :: string
  cw_segment :: string
  cw_count :: nat
  cw_headHash :: string

record checkpoint_body =
  cb_scope :: effect_scope
  cb_sequence :: nat
  cb_createdAt :: string
  cb_writers :: "checkpoint_writer list"
  cb_root :: string
  cb_keyringDigest :: string
  cb_previousCheckpoint :: "string option"

record effect_checkpoint =
  cp_body :: checkpoint_body
  cp_signatures :: "effect_signature list"

section \<open>Cryptography\<close>

datatype signed_payload =
  StatementPayload effect_statement | RotationPayload rotation_body | CheckpointPayload checkpoint_body

text \<open>
  What the ledger takes from its platform: the digests of canonical texts, \<open>Date.parse\<close> (\<open>None\<close> is NaN),
  key fingerprints (\<open>None\<close> where \<open>publicKeyFingerprint\<close> throws), signature verification (false where
  \<open>verifyBytes\<close> or the base64 decoder throws), the formats, and the guard of \<open>redaction.ts\<close>.
\<close>

record effect_env =
  en_hash :: effect_hash
  en_recordHash :: "effect_statement \<Rightarrow> string"
  en_keyringDigest :: "effect_keyring \<Rightarrow> string"
  en_writersDigest :: "checkpoint_writer list \<Rightarrow> string"
  en_checkpointDigest :: "effect_checkpoint \<Rightarrow> string"
  en_time :: "string \<Rightarrow> int option"
  en_fingerprint :: "string \<Rightarrow> string option"
  en_verify :: "string \<Rightarrow> signed_payload \<Rightarrow> string \<Rightarrow> bool"
  en_dateTime :: "string \<Rightarrow> bool"
  en_publicKeyFormat :: "string \<Rightarrow> bool"
  en_signatureFormat :: "string \<Rightarrow> bool"
  en_digestOnly :: "effect_statement \<Rightarrow> bool"

record signing_key =
  sk_keyid :: string
  sk_publicKey :: string
  sk_signPae :: "signed_payload \<Rightarrow> string"

section \<open>Schemas\<close>

definition digits :: "nat \<Rightarrow> string \<Rightarrow> bool" where
  "digits n s \<longleftrightarrow> length s = n \<and> list_all (\<lambda>c. CHR ''0'' \<le> c \<and> c \<le> CHR ''9'') s"

text \<open>The format \<open>date-time\<close> of the schema library, and
  \<open>^[0-9]{4}-[0-9]{2}-[0-9]{2}T[0-9]{2}:[0-9]{2}:[0-9]{2}(?:\.[0-9]{1,9})?Z$\<close>\<close>

definition schema_timestamp :: "effect_env \<Rightarrow> string \<Rightarrow> bool" where
  "schema_timestamp env s \<longleftrightarrow>
     en_dateTime env s \<and> 20 \<le> length s
     \<and> digits 4 (take 4 s) \<and> s ! 4 = CHR ''-'' \<and> digits 2 (take 2 (drop 5 s)) \<and> s ! 7 = CHR ''-''
     \<and> digits 2 (take 2 (drop 8 s)) \<and> s ! 10 = CHR ''T'' \<and> digits 2 (take 2 (drop 11 s)) \<and> s ! 13 = CHR '':''
     \<and> digits 2 (take 2 (drop 14 s)) \<and> s ! 16 = CHR '':'' \<and> digits 2 (take 2 (drop 17 s))
     \<and> (let rest = drop 19 s in
        rest = ''Z''
        \<or> (hd rest = CHR ''.'' \<and> last rest = CHR ''Z'' \<and> 3 \<le> length rest \<and> length rest \<le> 11
           \<and> digits (length rest - 2) (butlast (tl rest))))"

definition schema_hex :: "nat \<Rightarrow> string \<Rightarrow> bool" where
  "schema_hex n s \<longleftrightarrow> length s = n \<and> list_all (\<lambda>c. c \<in> set ''0123456789abcdef'') s"

definition schema_semver :: "string \<Rightarrow> bool" where
  "schema_semver s \<longleftrightarrow> (case split_dots s of
     [a, b, c] \<Rightarrow> list_all (\<lambda>p. p \<noteq> [] \<and> digits (length p) p) [a, b, c] | _ \<Rightarrow> False)"

definition schema_effect_scope :: "effect_scope \<Rightarrow> bool" where
  "schema_effect_scope scope \<longleftrightarrow>
     IDENTIFIER_PATTERN (es_tenant scope) \<and> IDENTIFIER_PATTERN (es_project scope) \<and> es_subsystem scope \<in> set EFFECT_SUBSYSTEMS"

definition PRESENT_REASONS :: "string list" where
  "PRESENT_REASONS = [''marker-match'', ''state-match'', ''digest-match'', ''heuristic-match'']"

definition ABSENT_REASONS :: "string list" where
  "ABSENT_REASONS = [''complete-query-no-match'']"

definition UNKNOWN_REASONS :: "string list" where
  "UNKNOWN_REASONS =
     [''verifier-missing'', ''verifier-version-mismatch'', ''verifier-cannot-report-absent'', ''network-error'', ''timeout'',
      ''auth-denied'', ''rate-limited'', ''server-error'', ''container-unreadable'', ''paging-incomplete'', ''consistency-lag'',
      ''tracker-blocked'', ''tracker-provider-unresolved'', ''tracker-repository-mismatch'', ''tracker-credential-missing'',
      ''tracker-no-access-route'', ''malformed-response'', ''evidence-conflict'']"

definition FAILURE_REASONS :: "string list" where
  "FAILURE_REASONS = [''target-rejected'', ''precondition-failed'', ''cancelled-before-dispatch'']"

definition schema_verification :: "effect_env \<Rightarrow> effect_verification \<Rightarrow> bool" where
  "schema_verification env v \<longleftrightarrow>
     isEffectKind (vr_kind (ev_verifier v)) \<and> schema_semver (vr_version (ev_verifier v)) \<and> schema_timestamp env (ev_checkedAt v)
     \<and> opt_all schema_digest (ev_evidenceDigest v)
     \<and> (case ev_result v of
          ResultPresent \<Rightarrow> ev_reason v \<in> set PRESENT_REASONS
        | ResultAbsent \<Rightarrow> ev_reason v \<in> set ABSENT_REASONS \<and> ev_complete v \<and> vr_canReportAbsent (ev_verifier v)
        | ResultUnknown \<Rightarrow> ev_reason v \<in> set UNKNOWN_REASONS)"

definition schema_failure :: "effect_failure \<Rightarrow> bool" where
  "schema_failure f \<longleftrightarrow> ef_reason f \<in> set FAILURE_REASONS \<and> opt_all schema_digest (ef_evidenceDigest f)"

definition schema_tombstone :: "effect_env \<Rightarrow> effect_tombstone \<Rightarrow> bool" where
  "schema_tombstone env t \<longleftrightarrow>
     schema_digest (et_originalRecordHash t) \<and> schema_digest (et_originalKeyid t) \<and> et_originalPhase t \<noteq> PhaseTombstone
     \<and> schema_timestamp env (et_purgedAt t)
     \<and> (let rest = drop 22 (et_retentionPolicy t) in
        take 22 (et_retentionPolicy t) = ''decision-lifecycle/v1#'' \<and> rest \<noteq> []
        \<and> list_all (\<lambda>c. (CHR ''a'' \<le> c \<and> c \<le> CHR ''z'') \<or> c = CHR ''-'') rest)"

definition schema_links :: "effect_links \<Rightarrow> bool" where
  "schema_links l \<longleftrightarrow>
     opt_all schema_digest (el_operatorDecisionEventId l) \<and> opt_all schema_digest (el_operatorDecisionRecordHash l)
     \<and> opt_all (schema_hex 32) (el_traceId l) \<and> opt_all (schema_hex 16) (el_spanId l)
     \<and> opt_all IDENTIFIER_PATTERN (el_toolCallId l)"

fun context_integer :: "context_value \<Rightarrow> bool" where
  "context_integer (CtxStr s) \<longleftrightarrow> length s \<le> 256"
| "context_integer _ \<longleftrightarrow> True"

definition schema_context :: "effect_context \<Rightarrow> bool" where
  "schema_context c \<longleftrightarrow>
     length c \<le> 16 \<and> list_all (\<lambda>(k, v). CONTEXT_KEY_PATTERN k \<and> context_integer v) c"

definition schema_review_context :: "effect_context \<Rightarrow> bool" where
  "schema_review_context c \<longleftrightarrow>
     length c \<le> 3
     \<and> (case map_of c ''reviewId'' of Some (CtxStr s) \<Rightarrow> s \<noteq> [] | _ \<Rightarrow> False)
     \<and> (case map_of c ''continuationId'' of Some (CtxStr s) \<Rightarrow> s \<noteq> [] | _ \<Rightarrow> False)
     \<and> (case map_of c ''proposalVersion'' of Some (CtxInt n) \<Rightarrow> 1 \<le> n | _ \<Rightarrow> False)"

definition schema_derivation :: "effect_predicate \<Rightarrow> bool" where
  "schema_derivation p \<longleftrightarrow>
     (case ep_idDerivation p of
        D13ReviewV1 \<Rightarrow> schema_digest (ep_effectId p) \<and> ep_kind p = ''decision.review.continuation''
          \<and> es_subsystem (ep_scope p) = ''review'' \<and> opt_all schema_review_context (ep_context p)
      | AiwgEffectV1 \<Rightarrow> EFFECT_ID_V1_PATTERN (ep_effectId p))"

text \<open>The members that each phase requires and forbids.\<close>

definition schema_phase :: "effect_predicate \<Rightarrow> bool" where
  "schema_phase p \<longleftrightarrow>
     (if ep_phase p = PhaseTombstone
      then ep_tombstone p \<noteq> None \<and> ep_target p = None \<and> ep_context p = None
      else ep_tombstone p = None \<and> ep_target p \<noteq> None \<and> ep_context p \<noteq> None)
     \<and> (case ep_phase p of
          PhaseCompleted \<Rightarrow> ep_failure p = None \<and> opt_holds (\<lambda>v. ev_result v = ResultPresent) (ep_verification p)
        | PhaseReconciled \<Rightarrow> ep_failure p = None \<and> ep_verification p \<noteq> None
        | PhaseFailed \<Rightarrow> ep_failure p \<noteq> None \<and> ep_verification p = None
        | _ \<Rightarrow> ep_failure p = None \<and> ep_verification p = None)"

definition schema_predicate :: "effect_env \<Rightarrow> effect_predicate \<Rightarrow> bool" where
  "schema_predicate env p \<longleftrightarrow>
     isValidEffectId (ep_effectId p) \<and> schema_effect_scope (ep_scope p) \<and> isEffectKind (ep_kind p)
     \<and> opt_all (\<lambda>t. length t \<le> 1024 \<and> TARGET_PATTERN t) (ep_target p) \<and> opt_all schema_context (ep_context p)
     \<and> schema_digest (ep_payloadDigest p) \<and> WRITER_ID_PATTERN (ep_writer p) \<and> schema_timestamp env (ep_recordedAt p)
     \<and> opt_all (schema_verification env) (ep_verification p) \<and> opt_all schema_failure (ep_failure p)
     \<and> opt_all (schema_tombstone env) (ep_tombstone p) \<and> schema_links (ep_links p)
     \<and> schema_derivation p \<and> schema_phase p
     \<and> (if ep_seq p = 0 then ep_prev p = None else opt_holds schema_digest (ep_prev p))"

definition schema_statement :: "effect_env \<Rightarrow> effect_statement \<Rightarrow> bool" where
  "schema_statement env s \<longleftrightarrow>
     1 \<le> length (st_name s) \<and> length (st_name s) \<le> 1024 \<and> schema_hex 64 (st_sha256 s) \<and> schema_predicate env (st_predicate s)"

definition schema_signature :: "effect_env \<Rightarrow> effect_signature \<Rightarrow> bool" where
  "schema_signature env s \<longleftrightarrow> schema_digest (sg_keyid s) \<and> en_signatureFormat env (sg_sig s)"

definition schema_line :: "effect_env \<Rightarrow> segment_line \<Rightarrow> bool" where
  "schema_line env l \<longleftrightarrow>
     WRITER_ID_PATTERN (sl_writer l) \<and> schema_digest (sl_recordHash l)
     \<and> sl_signatures l \<noteq> [] \<and> list_all (schema_signature env) (sl_signatures l)"

definition schema_key :: "effect_env \<Rightarrow> keyring_key \<Rightarrow> bool" where
  "schema_key env k \<longleftrightarrow>
     schema_digest (kk_keyid k) \<and> en_publicKeyFormat env (kk_publicKey k) \<and> schema_timestamp env (kk_validFrom k)
     \<and> opt_all (schema_timestamp env) (kk_validUntil k) \<and> opt_all (schema_timestamp env) (kk_revokedAt k)
     \<and> (kk_status k = KeyRevoked \<longleftrightarrow> kk_revokedAt k \<noteq> None)
     \<and> (kk_status k = KeyRetired \<longrightarrow> kk_validUntil k \<noteq> None)"

definition schema_rotation :: "effect_env \<Rightarrow> key_rotation \<Rightarrow> bool" where
  "schema_rotation env r \<longleftrightarrow>
     1 \<le> rb_sequence (kr_body r) \<and> schema_digest (rb_from (kr_body r)) \<and> schema_digest (rb_to (kr_body r))
     \<and> schema_timestamp env (rb_effectiveAt (kr_body r))
     \<and> length (kr_signatures r) = 2
     \<and> list_all (\<lambda>(role, keyid, sig). schema_digest keyid \<and> en_signatureFormat env sig) (kr_signatures r)
     \<and> length (filter (\<lambda>(role, _). role = RolePrior) (kr_signatures r)) = 1
     \<and> length (filter (\<lambda>(role, _). role = RoleSuccessor) (kr_signatures r)) = 1"

definition schema_keyring :: "effect_env \<Rightarrow> effect_keyring \<Rightarrow> bool" where
  "schema_keyring env ring \<longleftrightarrow>
     schema_effect_scope (ky_scope ring) \<and> ky_keys ring \<noteq> [] \<and> list_all (schema_key env) (ky_keys ring)
     \<and> list_all (schema_rotation env) (ky_rotations ring)"

definition segment_path :: "string \<Rightarrow> string" where
  "segment_path writer = ''segments/'' @ writer @ ''.jsonl''"

definition schema_checkpoint_writer :: "checkpoint_writer \<Rightarrow> bool" where
  "schema_checkpoint_writer w \<longleftrightarrow>
     WRITER_ID_PATTERN (cw_writer w)
     \<and> (let n = length (cw_segment w); writer = take (n - 15) (drop 9 (cw_segment w)) in
        15 \<le> n \<and> cw_segment w = segment_path writer \<and> WRITER_ID_PATTERN writer)
     \<and> 1 \<le> cw_count w \<and> schema_digest (cw_headHash w)"

definition schema_checkpoint :: "effect_env \<Rightarrow> effect_checkpoint \<Rightarrow> bool" where
  "schema_checkpoint env c \<longleftrightarrow>
     (let b = cp_body c in
      schema_effect_scope (cb_scope b) \<and> schema_timestamp env (cb_createdAt b)
      \<and> cb_writers b \<noteq> [] \<and> list_all schema_checkpoint_writer (cb_writers b)
      \<and> schema_digest (cb_root b) \<and> schema_digest (cb_keyringDigest b)
      \<and> (if cb_sequence b = 0 then cb_previousCheckpoint b = None else opt_holds schema_digest (cb_previousCheckpoint b))
      \<and> cp_signatures c \<noteq> [] \<and> list_all (schema_signature env) (cp_signatures c))"

end
