(* ===== verification/EffectKeyring.thy ===== *)
theory EffectKeyring
  imports EffectTypes
begin

text \<open>
  The keyring of the effect ledger (\<open>src/effects/keyring.ts\<close>): public keys with validity windows,
  extended only by rotations that the prior and the successor key sign. The check returns its
  failure, \<open>None\<close> for a good keyring.
\<close>

section \<open>Signatures\<close>

datatype signature_check = SignatureOk | UnknownKeyid | KeyWindow | SignatureInvalid

definition keyValidAt :: "effect_env \<Rightarrow> keyring_key \<Rightarrow> string \<Rightarrow> bool" where
  "keyValidAt env key at_time =
     (case en_time env at_time of
        None \<Rightarrow> False
      | Some t \<Rightarrow>
          if opt_holds (\<lambda>from. t < from) (en_time env (kk_validFrom key)) then False
          else if opt_holds (\<lambda>until. opt_holds (\<lambda>u. t \<ge> u) (en_time env until)) (kk_validUntil key) then False
          else if kk_status key = KeyRevoked
            \<and> (case kk_revokedAt key of None \<Rightarrow> True | Some r \<Rightarrow> opt_holds (\<lambda>u. t \<ge> u) (en_time env r)) then False
          else True)"

definition find_key :: "effect_keyring \<Rightarrow> string \<Rightarrow> keyring_key option" where
  "find_key ring keyid = find (\<lambda>k. kk_keyid k = keyid) (ky_keys ring)"

definition checkSignature :: "effect_env \<Rightarrow> effect_keyring \<Rightarrow> effect_signature \<Rightarrow> signed_payload \<Rightarrow> string \<Rightarrow> signature_check" where
  "checkSignature env ring sig payload at_time =
     (case find_key ring (sg_keyid sig) of
        None \<Rightarrow> UnknownKeyid
      | Some key \<Rightarrow>
          if \<not> en_verify env (kk_publicKey key) payload (sg_sig sig) then SignatureInvalid
          else if \<not> keyValidAt env key at_time then KeyWindow
          else SignatureOk)"

section \<open>The check\<close>

text \<open>The keys that no rotation introduced.\<close>

definition genesis_keys :: "effect_keyring \<Rightarrow> keyring_key list" where
  "genesis_keys ring = filter (\<lambda>k. kk_keyid k \<notin> (rb_to \<circ> kr_body) ` set (ky_rotations ring)) (ky_keys ring)"

definition role_signature :: "rotation_role \<Rightarrow> key_rotation \<Rightarrow> (string \<times> string) option" where
  "role_signature role r = map_option snd (find (\<lambda>(q, _). q = role) (kr_signatures r))"

definition signed_by :: "effect_env \<Rightarrow> rotation_role \<Rightarrow> keyring_key \<Rightarrow> key_rotation \<Rightarrow> bool" where
  "signed_by env role key r =
     (case role_signature role r of
        None \<Rightarrow> False
      | Some (keyid, sig) \<Rightarrow> keyid = kk_keyid key \<and> en_verify env (kk_publicKey key) (RotationPayload (kr_body r)) sig)"

text \<open>\<open>effective > lastEffective\<close>, from \<open>-Infinity\<close> on; a comparison with NaN is false.\<close>

definition later_than :: "int option \<Rightarrow> int option \<Rightarrow> bool" where
  "later_than bound t = (case t of None \<Rightarrow> False | Some v \<Rightarrow> (case bound of None \<Rightarrow> True | Some b \<Rightarrow> v > b))"

definition same_time :: "int option \<Rightarrow> int option \<Rightarrow> bool" where
  "same_time a b \<longleftrightarrow> a \<noteq> None \<and> a = b"

fun rotation_failure ::
    "effect_env \<Rightarrow> effect_keyring \<Rightarrow> nat \<Rightarrow> keyring_key \<Rightarrow> int option \<Rightarrow> key_rotation list \<Rightarrow> string option" where
  "rotation_failure env ring index current lastEffective [] = None"
| "rotation_failure env ring index current lastEffective (r # rs) =
     (let b = kr_body r; effective = en_time env (rb_effectiveAt b) in
      if rb_sequence b \<noteq> int index + 1 then Some ''keyring-rotation-sequence''
      else if rb_from b \<noteq> kk_keyid current then Some ''keyring-rotation-chain''
      else case find_key ring (rb_to b) of
        None \<Rightarrow> Some ''keyring-rotation-chain''
      | Some successor \<Rightarrow>
          if kk_keyid successor = kk_keyid current then Some ''keyring-rotation-chain''
          else if \<not> later_than lastEffective effective
            \<or> \<not> opt_holds (\<lambda>u. same_time (en_time env u) effective) (kk_validUntil current)
            \<or> \<not> same_time (en_time env (kk_validFrom successor)) effective then Some ''keyring-rotation-window''
          else if \<not> signed_by env RolePrior current r then Some ''keyring-rotation-prior-signature''
          else if \<not> signed_by env RoleSuccessor successor r then Some ''keyring-rotation-successor-signature''
          else rotation_failure env ring (Suc index) successor effective rs)"

fun key_failure :: "effect_env \<Rightarrow> string list \<Rightarrow> keyring_key list \<Rightarrow> string option" where
  "key_failure env seen [] = None"
| "key_failure env seen (k # ks) =
     (if kk_keyid k \<in> set seen then Some ''keyring-duplicate-keyid''
      else if map_option (\<lambda>f. ''sha256:'' @ f) (en_fingerprint env (kk_publicKey k)) \<noteq> Some (kk_keyid k)
      then Some ''keyring-keyid-mismatch''
      else key_failure env (kk_keyid k # seen) ks)"

definition keyringFailure :: "effect_env \<Rightarrow> effect_keyring \<Rightarrow> effect_scope option \<Rightarrow> string option" where
  "keyringFailure env ring scope =
     (if \<not> schema_keyring env ring then Some ''keyring-schema-invalid''
      else if opt_holds (\<lambda>s. ky_scope ring \<noteq> s) scope then Some ''keyring-scope-mismatch''
      else case key_failure env [] (ky_keys ring) of
        Some failure \<Rightarrow> Some failure
      | None \<Rightarrow>
          if length (genesis_keys ring) \<noteq> 1 \<or> length (ky_keys ring) \<noteq> length (ky_rotations ring) + 1
          then Some ''keyring-unrotated-key''
          else rotation_failure env ring 0 (hd (genesis_keys ring)) None (ky_rotations ring))"

definition assertKeyring :: "effect_env \<Rightarrow> effect_keyring \<Rightarrow> effect_scope option \<Rightarrow> effect_error + unit" where
  "assertKeyring env ring scope =
     (case keyringFailure env ring scope of Some failure \<Rightarrow> Inl (integrityError failure) | None \<Rightarrow> Inr ())"

section \<open>Rotation\<close>

text \<open>\<open>!\<close> on the result of \<open>find\<close>: a good keyring holds its active key.\<close>

definition activeKey :: "effect_keyring \<Rightarrow> keyring_key option" where
  "activeKey ring =
     (let keyid = (if ky_rotations ring = [] then kk_keyid (hd (ky_keys ring)) else rb_to (kr_body (last (ky_rotations ring))))
      in find_key ring keyid)"

definition new_key :: "string \<Rightarrow> string \<Rightarrow> string \<Rightarrow> keyring_key" where
  "new_key keyid publicKey validFrom = \<lparr>kk_keyid = keyid, kk_publicKey = publicKey, kk_validFrom = validFrom,
     kk_validUntil = None, kk_status = KeyActive, kk_revokedAt = None\<rparr>"

definition createGenesisKeyring :: "effect_scope \<Rightarrow> signing_key \<Rightarrow> string \<Rightarrow> effect_keyring" where
  "createGenesisKeyring scope key validFrom =
     \<lparr>ky_scope = scope, ky_keys = [new_key (sk_keyid key) (sk_publicKey key) validFrom], ky_rotations = []\<rparr>"

definition retire_key :: "string \<Rightarrow> string \<Rightarrow> keyring_key \<Rightarrow> keyring_key" where
  "retire_key keyid effectiveAt k =
     (if kk_keyid k = keyid
      then k\<lparr>kk_validUntil := Some effectiveAt, kk_status := (if kk_status k = KeyActive then KeyRetired else kk_status k)\<rparr>
      else k)"

definition rotation_to :: "effect_keyring \<Rightarrow> signing_key \<Rightarrow> signing_key \<Rightarrow> string \<Rightarrow> rotation_reason \<Rightarrow> key_rotation" where
  "rotation_to ring prior successor effectiveAt reason =
     (let body = \<lparr>rb_sequence = int (length (ky_rotations ring)) + 1, rb_from = sk_keyid prior, rb_to = sk_keyid successor,
                  rb_effectiveAt = effectiveAt, rb_reason = reason\<rparr>
      in \<lparr>kr_body = body, kr_signatures =
           [(RolePrior, sk_keyid prior, sk_signPae prior (RotationPayload body)),
            (RoleSuccessor, sk_keyid successor, sk_signPae successor (RotationPayload body))]\<rparr>)"

definition rotated :: "effect_keyring \<Rightarrow> signing_key \<Rightarrow> signing_key \<Rightarrow> string \<Rightarrow> rotation_reason \<Rightarrow> effect_keyring" where
  "rotated ring prior successor effectiveAt reason = ring
     \<lparr>ky_keys := map (retire_key (sk_keyid prior) effectiveAt) (ky_keys ring)
        @ [new_key (sk_keyid successor) (sk_publicKey successor) effectiveAt],
      ky_rotations := ky_rotations ring @ [rotation_to ring prior successor effectiveAt reason]\<rparr>"

definition rotateKeyring ::
    "effect_env \<Rightarrow> effect_keyring \<Rightarrow> signing_key \<Rightarrow> signing_key \<Rightarrow> string \<Rightarrow> rotation_reason \<Rightarrow> effect_error + effect_keyring" where
  "rotateKeyring env ring prior successor effectiveAt reason =
     thenR (assertKeyring env ring None)
     (case activeKey ring of
        None \<Rightarrow> Inl (integrityError ''keyring-unrotated-key'')
      | Some current \<Rightarrow>
          thenR (checks
            [(kk_keyid current \<noteq> sk_keyid prior, usageError ''rotation-prior-not-active''),
             (list_ex (\<lambda>k. kk_keyid k = sk_keyid successor) (ky_keys ring), usageError ''rotation-key-reused''),
             (\<not> (en_time env (kk_validFrom current) \<noteq> None
                \<and> later_than (en_time env (kk_validFrom current)) (en_time env effectiveAt)), usageError ''rotation-effective-at'')])
          (let ring' = rotated ring prior successor effectiveAt reason in
           thenR (assertKeyring env ring' None) (Inr ring')))"

end
