(* ===== verification/EffectStore.thy ===== *)
theory EffectStore
  imports EffectKeyring
begin

text \<open>
  The files of the effect ledger (\<open>src/effects/store.ts\<close>), the records in them
  (\<open>src/effects/records.ts\<close>) and the checks of a reader (\<open>src/effects/reader.ts\<close>). A directory is an
  association list from names to contents. The contents are the documents that parse, or the reason
  why they do not: \<open>BrokenLine\<close> is a line that \<open>decodeSegmentLine\<close> refuses before the schemas, and a
  pending file that does not parse is as good as none. Permissions and the artifact root are those
  the code requires.
\<close>

section \<open>Index entries\<close>

datatype index_role = RoleIntent | RoleOutcome

record index_entry =
  ie_role :: index_role
  ie_effectId :: string
  ie_payloadDigest :: string
  ie_phase :: effect_phase
  ie_writer :: string
  ie_seq :: nat
  ie_recordHash :: string

datatype index_file = IndexFile index_entry | BrokenIndex

definition isIndexEntry :: "index_entry \<Rightarrow> bool" where
  "isIndexEntry e \<longleftrightarrow>
     schema_digest (ie_payloadDigest e) \<and> ie_phase e \<noteq> PhaseTombstone \<and> WRITER_ID_PATTERN (ie_writer e)
     \<and> safe_int (int (ie_seq e)) \<and> schema_digest (ie_recordHash e)"

section \<open>Files\<close>

datatype line_text = LineText segment_line | BrokenLine string

text \<open>\<open>readSegment\<close>: the lines, the last of which lacks its newline in a torn file.\<close>

record segment_file =
  sf_lines :: "line_text list"
  sf_torn :: bool

record pending_append =
  pa_indexName :: string
  pa_line :: line_text

datatype keyring_file = KeyringFile effect_keyring | BrokenKeyring

record effect_store =
  fs_segments :: "segment_file dict"
  fs_pending :: "pending_append dict"
  fs_index :: "index_file dict"
  fs_keyring :: "keyring_file option"
  fs_indexKey :: "string option"
  fs_checkpoints :: "(nat \<times> effect_checkpoint option) list"

definition put_file :: "string \<Rightarrow> 'a \<Rightarrow> 'a dict \<Rightarrow> 'a dict" where
  "put_file name v d = AList.update name v d"

definition remove_file :: "string \<Rightarrow> 'a dict \<Rightarrow> 'a dict" where
  "remove_file name d = AList.delete name d"

text \<open>\<open>publishExclusive\<close>: the destination is linked unless it exists.\<close>

definition publishExclusive :: "string \<Rightarrow> 'a \<Rightarrow> 'a dict \<Rightarrow> bool \<times> 'a dict" where
  "publishExclusive name v d = (if has_key d name then (False, d) else (True, put_file name v d))"

definition listWriters :: "effect_store \<Rightarrow> string list" where
  "listWriters st = sort (remdups (filter WRITER_ID_PATTERN (map fst (fs_segments st))))"

definition readSegment :: "effect_store \<Rightarrow> string \<Rightarrow> segment_file option" where
  "readSegment st writer = map_of (fs_segments st) writer"

text \<open>Text appended to a torn line joins it, and no JSON text followed by an object is a JSON text.\<close>

definition appended :: "line_text \<Rightarrow> segment_file option \<Rightarrow> segment_file" where
  "appended l f = (case f of
     None \<Rightarrow> \<lparr>sf_lines = [l], sf_torn = False\<rparr>
   | Some s \<Rightarrow>
       if sf_torn s then \<lparr>sf_lines = butlast (sf_lines s) @ [BrokenLine ''segment-line-malformed''], sf_torn = False\<rparr>
       else \<lparr>sf_lines = sf_lines s @ [l], sf_torn = False\<rparr>)"

definition appendSegmentLine :: "string \<Rightarrow> line_text \<Rightarrow> effect_store \<Rightarrow> effect_store" where
  "appendSegmentLine writer l st =
     st\<lparr>fs_segments := put_file writer (appended l (readSegment st writer)) (fs_segments st)\<rparr>"

definition replaceSegment :: "string \<Rightarrow> line_text list \<Rightarrow> effect_store \<Rightarrow> effect_store" where
  "replaceSegment writer ls st =
     st\<lparr>fs_segments := put_file writer \<lparr>sf_lines = ls, sf_torn = False\<rparr> (fs_segments st)\<rparr>"

text \<open>\<open>loadIndexKey\<close>: the first call publishes the key, here \<open>fresh\<close>, that all later calls read.\<close>

definition index_key_text :: "string \<Rightarrow> bool" where
  "index_key_text s = schema_hex 64 s"

definition loadIndexKey :: "string \<Rightarrow> effect_store \<Rightarrow> (effect_error + string) \<times> effect_store" where
  "loadIndexKey fresh st =
     (let st' = (if fs_indexKey st = None then st\<lparr>fs_indexKey := Some fresh\<rparr> else st); v = the (fs_indexKey st') in
      (if index_key_text v then Inr v else Inl (integrityError ''index-key-malformed''), st'))"

fun role_text :: "index_role \<Rightarrow> string" where
  "role_text RoleIntent = ''intent''"
| "role_text RoleOutcome = ''outcome''"

text \<open>\<open>keyedName\<close> with the HMAC as a parameter of the key, the domain, the canonical scope and the id.\<close>

type_synonym keyed_name = "string \<Rightarrow> string \<Rightarrow> effect_scope \<Rightarrow> string \<Rightarrow> string"

definition indexName :: "keyed_name \<Rightarrow> string \<Rightarrow> effect_scope \<Rightarrow> string \<Rightarrow> index_role \<Rightarrow> string" where
  "indexName hmac key scope effectId role =
     hmac key (''aiwg.effect.index/v1/'' @ role_text role) scope effectId @ ''.json''"

definition readIndexEntry :: "effect_store \<Rightarrow> string \<Rightarrow> effect_error + index_entry option" where
  "readIndexEntry st name =
     (case map_of (fs_index st) name of
        None \<Rightarrow> Inr None
      | Some BrokenIndex \<Rightarrow> Inl (integrityError ''index-entry-malformed'')
      | Some (IndexFile e) \<Rightarrow> if isIndexEntry e then Inr (Some e) else Inl (integrityError ''index-entry-malformed''))"

definition listIndexEntries :: "effect_store \<Rightarrow> effect_error + (string \<times> index_entry) list" where
  "listIndexEntries st =
     mapR (\<lambda>name. bindR (readIndexEntry st name) (\<lambda>e. Inr (name, the e)))
       (sort (remdups (filter (\<lambda>n. schema_hex 64 (take 64 n) \<and> drop 64 n = ''.json'') (map fst (fs_index st)))))"

definition claimIndex :: "string \<Rightarrow> index_entry \<Rightarrow> effect_store \<Rightarrow> bool \<times> effect_store" where
  "claimIndex name e st =
     (case publishExclusive name (IndexFile e) (fs_index st) of (won, d) \<Rightarrow> (won, st\<lparr>fs_index := d\<rparr>))"

definition writePending :: "string \<Rightarrow> pending_append \<Rightarrow> effect_store \<Rightarrow> effect_store" where
  "writePending writer p st = st\<lparr>fs_pending := put_file writer p (fs_pending st)\<rparr>"

definition readPending :: "effect_store \<Rightarrow> string \<Rightarrow> pending_append option" where
  "readPending st writer = map_of (fs_pending st) writer"

definition clearPending :: "string \<Rightarrow> effect_store \<Rightarrow> effect_store" where
  "clearPending writer st = st\<lparr>fs_pending := remove_file writer (fs_pending st)\<rparr>"

section \<open>Records\<close>

definition statementFor :: "effect_env \<Rightarrow> effect_predicate \<Rightarrow> effect_error + effect_statement" where
  "statementFor env p =
     (case ep_target p of
        None \<Rightarrow> Inl (integrityError ''statement-target-missing'')
      | Some target \<Rightarrow> Inr \<lparr>st_name = target, st_sha256 = sha256Hex (en_hash env) target, st_predicate = p\<rparr>)"

definition line_for :: "effect_env \<Rightarrow> effect_statement \<Rightarrow> signing_key \<Rightarrow> string option \<Rightarrow> segment_line" where
  "line_for env st key recordHash =
     \<lparr>sl_writer = ep_writer (st_predicate st), sl_seq = ep_seq (st_predicate st),
      sl_recordHash = opt_default recordHash (en_recordHash env st), sl_statement = st,
      sl_signatures = [\<lparr>sg_keyid = sk_keyid key, sg_sig = sk_signPae key (StatementPayload st)\<rparr>]\<rparr>"

definition signSegmentLine ::
    "effect_env \<Rightarrow> effect_statement \<Rightarrow> signing_key \<Rightarrow> string option \<Rightarrow> effect_error + segment_line" where
  "signSegmentLine env st key recordHash =
     thenR (checks
       [(\<not> en_digestOnly env st, usageError ''restricted-material''),
        (\<not> schema_statement env st, integrityError ''schema-invalid:record''),
        (\<not> schema_line env (line_for env st key recordHash), integrityError ''schema-invalid:record'')])
     (Inr (line_for env st key recordHash))"

definition decodeSegmentLine :: "effect_env \<Rightarrow> line_text \<Rightarrow> string + segment_line" where
  "decodeSegmentLine env t =
     (case t of
        BrokenLine failure \<Rightarrow> Inl failure
      | LineText l \<Rightarrow>
          if \<not> schema_line env l then Inl ''segment-line-schema-invalid''
          else if \<not> schema_statement env (sl_statement l) then Inl ''statement-schema-invalid''
          else Inr l)"

definition effectIdBindingHolds :: "effect_env \<Rightarrow> effect_predicate \<Rightarrow> bool" where
  "effectIdBindingHolds env p \<longleftrightarrow>
     ep_phase p = PhaseTombstone
     \<or> effectIdDerivation (ep_idDerivation p) (en_hash env)
          \<lparr>ei_scope = ep_scope p, ei_kind = ep_kind p, ei_target = the (ep_target p), ei_context = the (ep_context p)\<rparr>
        = Inr (ep_effectId p)"

definition subjectBindingHolds :: "effect_env \<Rightarrow> effect_statement \<Rightarrow> bool" where
  "subjectBindingHolds env st \<longleftrightarrow>
     (if ep_phase (st_predicate st) = PhaseTombstone
      then st_name st = ''aiwg-effect:'' @ ep_effectId (st_predicate st)
      else Some (st_name st) = ep_target (st_predicate st) \<and> st_sha256 st = sha256Hex (en_hash env) (st_name st))"

definition signedAt :: "effect_predicate \<Rightarrow> string" where
  "signedAt p = (if ep_phase p = PhaseTombstone then et_purgedAt (the (ep_tombstone p)) else ep_recordedAt p)"

section \<open>Readers\<close>

definition readKeyring :: "effect_store \<Rightarrow> effect_error + effect_keyring option" where
  "readKeyring st =
     (case fs_keyring st of
        None \<Rightarrow> Inr None
      | Some BrokenKeyring \<Rightarrow> Inl (integrityError ''keyring-malformed'')
      | Some (KeyringFile ring) \<Rightarrow> Inr (Some ring))"

text \<open>A segment with its lines decoded.\<close>

record read_segment =
  rs_writer :: string
  rs_torn :: bool
  rs_lines :: "(string + segment_line) list"

definition readWriterSegment :: "effect_env \<Rightarrow> effect_store \<Rightarrow> string \<Rightarrow> read_segment option" where
  "readWriterSegment env st writer =
     map_option (\<lambda>f. \<lparr>rs_writer = writer, rs_torn = sf_torn f, rs_lines = map (decodeSegmentLine env) (sf_lines f)\<rparr>)
       (readSegment st writer)"

definition readAllSegments :: "effect_env \<Rightarrow> effect_store \<Rightarrow> read_segment list" where
  "readAllSegments env st = List.map_filter (readWriterSegment env st) (listWriters st)"

fun signature_failure :: "effect_env \<Rightarrow> effect_keyring \<Rightarrow> signed_payload \<Rightarrow> string \<Rightarrow> effect_signature list \<Rightarrow> string list" where
  "signature_failure env ring payload at_time [] = []"
| "signature_failure env ring payload at_time (s # ss) =
     (case checkSignature env ring s payload at_time of
        SignatureOk \<Rightarrow> signature_failure env ring payload at_time ss
      | UnknownKeyid \<Rightarrow> [''unknown-keyid'']
      | SignatureInvalid \<Rightarrow> [''signature-invalid'']
      | KeyWindow \<Rightarrow> [''key-window''])"

text \<open>The failures in the order of the checks; \<open>new Set\<close> drops repetitions.\<close>

definition lineFailures ::
    "effect_env \<Rightarrow> effect_keyring \<Rightarrow> effect_scope \<Rightarrow> string \<Rightarrow> nat \<Rightarrow> segment_line \<Rightarrow> string option \<Rightarrow> string list" where
  "lineFailures env ring scope writer index l previousHash =
     (let st = sl_statement l; p = st_predicate st; t = the (ep_tombstone p) in
      rev (remdups (rev (
        push_if (sl_writer l \<noteq> writer \<or> ep_writer p \<noteq> writer) ''writer-mismatch''
        @ push_if (sl_seq l \<noteq> index \<or> ep_seq p \<noteq> index) ''seq-mismatch''
        @ push_if (ep_prev p \<noteq> previousHash) ''chain-broken''
        @ push_if (ep_scope p \<noteq> scope) ''scope-mismatch''
        @ push_if (\<not> subjectBindingHolds env st) ''subject-mismatch''
        @ push_if (\<not> effectIdBindingHolds env p) ''effect-id-mismatch''
        @ (if ep_phase p = PhaseTombstone
           then push_if (et_originalRecordHash t \<noteq> sl_recordHash l) ''record-hash-mismatch''
             @ push_if (find_key ring (et_originalKeyid t) = None) ''unknown-keyid''
           else push_if (en_recordHash env st \<noteq> sl_recordHash l) ''record-hash-mismatch'')
        @ signature_failure env ring (StatementPayload st) (signedAt p) (sl_signatures l)))))"

text \<open>\<open>mergeOrder\<close>; a difference of times that is NaN leaves the order of two records open.\<close>

definition mergeOrder :: "effect_env \<Rightarrow> segment_line \<Rightarrow> segment_line \<Rightarrow> int" where
  "mergeOrder env a b =
     (let left = st_predicate (sl_statement a); right = st_predicate (sl_statement b) in
      case (en_time env (ep_recordedAt left), en_time env (ep_recordedAt right)) of
        (Some s, Some t) \<Rightarrow>
          if s \<noteq> t then s - t
          else if ep_writer left \<noteq> ep_writer right then (if ep_writer left < ep_writer right then - 1 else 1)
          else int (ep_seq left) - int (ep_seq right)
      | _ \<Rightarrow> 0)"

end
