(* ===== verification/EffectLedger.thy ===== *)
theory EffectLedger
  imports EffectStore
begin

text \<open>
  The operations of the effect ledger (\<open>src/effects/ledger.ts\<close>). An append runs under the lock of
  its writer as a machine whose steps are the writes of the code, one at most in each step, so that
  the same definition serves a run without interruption (\<open>run_append\<close>), the interleaving of
  writers and a crash between two writes. Every reading of the clock is an argument; the platform,
  the HMAC of index names, the fresh index key and the loaded signing key belong to the handle.
\<close>

section \<open>The handle\<close>

record effect_ledger =
  lg_env :: effect_env
  lg_hmac :: keyed_name
  lg_freshKey :: string
  lg_scope :: effect_scope
  lg_writer :: string
  lg_signingKey :: "effect_error + signing_key"

type_synonym 'a ledger_op = "effect_store \<Rightarrow> (effect_error + 'a) \<times> effect_store"

definition returnL :: "effect_error + 'a \<Rightarrow> 'a ledger_op" where
  "returnL r st = (r, st)"

definition bindL :: "'a ledger_op \<Rightarrow> ('a \<Rightarrow> 'b ledger_op) \<Rightarrow> 'b ledger_op" where
  "bindL m f st = (case m st of (Inl e, st') \<Rightarrow> (Inl e, st') | (Inr x, st') \<Rightarrow> f x st')"

definition openEffectLedger :: "effect_ledger \<Rightarrow> effect_error + effect_ledger" where
  "openEffectLedger lg = thenR (assertEffectScope (lg_scope lg)) (thenR (assertWriterId (lg_writer lg)) (Inr lg))"

section \<open>Keys\<close>

definition prepareWrite :: "effect_ledger \<Rightarrow> string ledger_op" where
  "prepareWrite lg = loadIndexKey (lg_freshKey lg)"

definition assertEffectKeyring :: "effect_env \<Rightarrow> effect_keyring \<Rightarrow> effect_error + unit" where
  "assertEffectKeyring env ring = checks [(\<not> schema_keyring env ring, integrityError ''schema-invalid:keyring'')]"

text \<open>The stored keyring, verified; a missing one fails the schema.\<close>

definition storedKeyring :: "effect_ledger \<Rightarrow> effect_store \<Rightarrow> effect_error + effect_keyring" where
  "storedKeyring lg st =
     bindR (readKeyring st) (\<lambda>stored. case stored of
       None \<Rightarrow> Inl (integrityError ''keyring-schema-invalid'')
     | Some ring \<Rightarrow> thenR (assertKeyring (lg_env lg) ring (Some (lg_scope lg))) (Inr ring))"

definition ensureKeyring :: "effect_ledger \<Rightarrow> signing_key \<Rightarrow> string \<Rightarrow> effect_keyring ledger_op" where
  "ensureKeyring lg key at_time st =
     (let genesis = createGenesisKeyring (lg_scope lg) key at_time in
      case readKeyring st of
        Inl e \<Rightarrow> (Inl e, st)
      | Inr None \<Rightarrow>
          (case assertEffectKeyring (lg_env lg) genesis of
             Inl e \<Rightarrow> (Inl e, st)
           | Inr _ \<Rightarrow> (let st' = st\<lparr>fs_keyring := Some (KeyringFile genesis)\<rparr> in (storedKeyring lg st', st')))
      | Inr (Some ring) \<Rightarrow> (storedKeyring lg st, st))"

definition assertSigningKeyActive :: "effect_ledger \<Rightarrow> effect_keyring \<Rightarrow> signing_key \<Rightarrow> string \<Rightarrow> effect_error + unit" where
  "assertSigningKeyActive lg ring key at_time =
     checks [(\<not> opt_holds (\<lambda>active. kk_keyid active = sk_keyid key \<and> keyValidAt (lg_env lg) active at_time) (activeKey ring),
              EffectLedgerError CodeKeyUnavailable ''key-not-active'')]"

section \<open>Appends\<close>

definition segmentHead :: "effect_env \<Rightarrow> effect_store \<Rightarrow> string \<Rightarrow> effect_error + nat \<times> string option" where
  "segmentHead env st writer =
     (case readSegment st writer of
        None \<Rightarrow> Inr (0, None)
      | Some f \<Rightarrow>
          if sf_torn f then Inl (integrityError ''segment-torn'')
          else if sf_lines f = [] then Inr (0, None)
          else case decodeSegmentLine env (last (sf_lines f)) of
            Inl failure \<Rightarrow> Inl (integrityError failure)
          | Inr l \<Rightarrow> Inr (length (sf_lines f), Some (sl_recordHash l)))"

record append_job =
  aj_role :: "index_role option"
  aj_effectId :: string
  aj_build :: "nat \<Rightarrow> string option \<Rightarrow> string \<Rightarrow> effect_predicate"
  aj_key :: signing_key
  aj_indexKey :: string
  aj_genesisAt :: string
  aj_recordedAt :: string

text \<open>Where an append stands: before each of its steps, or done.\<close>

datatype append_pc =
  AppendStart
| AppendRepair
| AppendRepaired
| AppendBuild
| AppendClaim segment_line string index_entry
| AppendLost segment_line string
| AppendWinner segment_line string
| AppendWrite segment_line bool
| AppendClear segment_line
| AppendDone "effect_error + segment_line \<times> index_entry option"

fun repairs :: "effect_env \<Rightarrow> effect_store \<Rightarrow> string \<Rightarrow> pending_append \<Rightarrow> nat \<times> string option \<Rightarrow> bool" where
  "repairs env st writer p (count, hash) \<longleftrightarrow>
     (case (decodeSegmentLine env (pa_line p), readIndexEntry st (pa_indexName p)) of
        (Inr l, Inr (Some entry)) \<Rightarrow>
          ie_recordHash entry = sl_recordHash l \<and> ie_writer entry = writer \<and> sl_seq l = count
          \<and> ep_prev (st_predicate (sl_statement l)) = hash
      | _ \<Rightarrow> False)"

definition index_entry_for :: "effect_ledger \<Rightarrow> index_role \<Rightarrow> string \<Rightarrow> segment_line \<Rightarrow> index_entry" where
  "index_entry_for lg role i l =
     (let p = st_predicate (sl_statement l) in
      \<lparr>ie_role = role, ie_effectId = i, ie_payloadDigest = ep_payloadDigest p, ie_phase = ep_phase p,
       ie_writer = lg_writer lg, ie_seq = ep_seq p, ie_recordHash = sl_recordHash l\<rparr>)"

definition build_line :: "effect_ledger \<Rightarrow> append_job \<Rightarrow> nat \<Rightarrow> string option \<Rightarrow> effect_error + segment_line" where
  "build_line lg job count hash =
     bindR (statementFor (lg_env lg) (aj_build job count hash (aj_recordedAt job)))
       (\<lambda>s. signSegmentLine (lg_env lg) s (aj_key job) None)"

fun append_step :: "effect_ledger \<Rightarrow> append_job \<Rightarrow> append_pc \<Rightarrow> effect_store \<Rightarrow> append_pc \<times> effect_store" where
  "append_step lg job AppendStart st =
     (case ensureKeyring lg (aj_key job) (aj_genesisAt job) st of
        (Inl e, st') \<Rightarrow> (AppendDone (Inl e), st')
      | (Inr ring, st') \<Rightarrow>
          (case assertSigningKeyActive lg ring (aj_key job) (aj_recordedAt job) of
             Inl e \<Rightarrow> (AppendDone (Inl e), st')
           | Inr _ \<Rightarrow> (AppendRepair, st')))"
| "append_step lg job AppendRepair st =
     (case readPending st (lg_writer lg) of
        None \<Rightarrow> (AppendBuild, st)
      | Some p \<Rightarrow>
          (case segmentHead (lg_env lg) st (lg_writer lg) of
             Inl e \<Rightarrow> (AppendDone (Inl e), st)
           | Inr head \<Rightarrow>
               (AppendRepaired,
                if repairs (lg_env lg) st (lg_writer lg) p head then appendSegmentLine (lg_writer lg) (pa_line p) st else st)))"
| "append_step lg job AppendRepaired st = (AppendBuild, clearPending (lg_writer lg) st)"
| "append_step lg job AppendBuild st =
     (case segmentHead (lg_env lg) st (lg_writer lg) of
        Inl e \<Rightarrow> (AppendDone (Inl e), st)
      | Inr (count, hash) \<Rightarrow>
          (case build_line lg job count hash of
             Inl e \<Rightarrow> (AppendDone (Inl e), st)
           | Inr l \<Rightarrow>
               (case aj_role job of
                  None \<Rightarrow> (AppendWrite l False, st)
                | Some role \<Rightarrow>
                    (let name = indexName (lg_hmac lg) (aj_indexKey job) (lg_scope lg) (aj_effectId job) role in
                     (AppendClaim l name (index_entry_for lg role (aj_effectId job) l),
                      writePending (lg_writer lg) \<lparr>pa_indexName = name, pa_line = LineText l\<rparr> st)))))"
| "append_step lg job (AppendClaim l name entry) st =
     (case claimIndex name entry st of (won, st') \<Rightarrow> (if won then AppendWrite l True else AppendLost l name, st'))"
| "append_step lg job (AppendLost l name) st = (AppendWinner l name, clearPending (lg_writer lg) st)"
| "append_step lg job (AppendWinner l name) st =
     (AppendDone
       (case readIndexEntry st name of
          Inl e \<Rightarrow> Inl e
        | Inr None \<Rightarrow> Inl (EffectLedgerError CodeInternal ''internal'')
        | Inr (Some winner) \<Rightarrow> Inr (l, Some winner)), st)"
| "append_step lg job (AppendWrite l pending) st =
     (if pending then AppendClear l else AppendDone (Inr (l, None)), appendSegmentLine (lg_writer lg) (LineText l) st)"
| "append_step lg job (AppendClear l) st = (AppendDone (Inr (l, None)), clearPending (lg_writer lg) st)"
| "append_step lg job (AppendDone r) st = (AppendDone r, st)"

fun append_rank :: "append_pc \<Rightarrow> nat" where
  "append_rank AppendStart = 8"
| "append_rank AppendRepair = 7"
| "append_rank AppendRepaired = 6"
| "append_rank AppendBuild = 5"
| "append_rank (AppendClaim _ _ _) = 4"
| "append_rank (AppendLost _ _) = 3"
| "append_rank (AppendWinner _ _) = 2"
| "append_rank (AppendWrite _ _) = 2"
| "append_rank (AppendClear _) = 1"
| "append_rank (AppendDone _) = 0"

definition append_result :: "append_pc \<Rightarrow> (effect_error + segment_line \<times> index_entry option) option" where
  "append_result pc = (case pc of AppendDone r \<Rightarrow> Some r | _ \<Rightarrow> None)"

lemma append_step_rank: "append_result pc = None \<Longrightarrow> append_rank (fst (append_step lg job pc st)) < append_rank pc"
  by (cases pc) (auto simp: append_result_def Let_def split: sum.splits option.splits prod.splits if_splits)

function run_append :: "effect_ledger \<Rightarrow> append_job \<Rightarrow> append_pc \<Rightarrow> effect_store \<Rightarrow>
    (effect_error + segment_line \<times> index_entry option) \<times> effect_store" where
  "run_append lg job pc st =
     (case append_result pc of
        Some r \<Rightarrow> (r, st)
      | None \<Rightarrow> run_append lg job (fst (append_step lg job pc st)) (snd (append_step lg job pc st)))"
  by pat_completeness auto
termination
  by (relation "measure (\<lambda>(lg, job, pc, st). append_rank pc)") (simp_all add: append_step_rank case_prod_beta)

declare run_append.simps [simp del]

text \<open>\<open>appendRecord\<close> under the lock of the writer, without interruption.\<close>

record append_plan =
  ap_role :: "index_role option"
  ap_build :: "nat \<Rightarrow> string option \<Rightarrow> string \<Rightarrow> effect_predicate"

definition append_job_for :: "append_plan \<Rightarrow> string \<Rightarrow> signing_key \<Rightarrow> string \<Rightarrow> string \<Rightarrow> string \<Rightarrow> append_job" where
  "append_job_for plan i key indexKey genesisAt recordedAt =
     \<lparr>aj_role = ap_role plan, aj_effectId = i, aj_build = ap_build plan, aj_key = key, aj_indexKey = indexKey,
      aj_genesisAt = genesisAt, aj_recordedAt = recordedAt\<rparr>"

definition appendRecord ::
    "effect_ledger \<Rightarrow> append_plan \<Rightarrow> string \<Rightarrow> string \<Rightarrow> string \<Rightarrow> (segment_line \<times> index_entry option) ledger_op" where
  "appendRecord lg plan i genesisAt recordedAt =
     bindL (prepareWrite lg) (\<lambda>indexKey.
     bindL (returnL (lg_signingKey lg)) (\<lambda>key.
     run_append lg (append_job_for plan i key indexKey genesisAt recordedAt) AppendStart))"

section \<open>Receipts\<close>

record effect_receipt =
  er_effectId :: string
  er_idDerivation :: effect_derivation
  er_phase :: effect_phase
  er_payloadDigest :: string
  er_writer :: string
  er_seq :: nat
  er_recordHash :: string
  er_idempotent :: bool
  er_exitCode :: int

definition receiptFromEntry :: "index_entry \<Rightarrow> effect_derivation \<Rightarrow> bool \<Rightarrow> effect_receipt" where
  "receiptFromEntry e derivation idempotent =
     \<lparr>er_effectId = ie_effectId e, er_idDerivation = derivation, er_phase = ie_phase e, er_payloadDigest = ie_payloadDigest e,
      er_writer = ie_writer e, er_seq = ie_seq e, er_recordHash = ie_recordHash e, er_idempotent = idempotent, er_exitCode = 0\<rparr>"

definition receiptFromLine :: "segment_line \<Rightarrow> effect_predicate \<Rightarrow> effect_receipt" where
  "receiptFromLine l p =
     \<lparr>er_effectId = ep_effectId p, er_idDerivation = ep_idDerivation p, er_phase = ep_phase p, er_payloadDigest = ep_payloadDigest p,
      er_writer = sl_writer l, er_seq = sl_seq l, er_recordHash = sl_recordHash l, er_idempotent = False, er_exitCode = 0\<rparr>"

section \<open>Reading an intent\<close>

text \<open>The hash of the line before: an absent or broken line is \<open>null\<close>.\<close>

definition previous_hash :: "read_segment \<Rightarrow> nat \<Rightarrow> string option" where
  "previous_hash s seq =
     (if seq = 0 \<or> length (rs_lines s) \<le> seq - 1 then None
      else case rs_lines s ! (seq - 1) of Inl _ \<Rightarrow> None | Inr l \<Rightarrow> Some (sl_recordHash l))"

definition line_at :: "read_segment option \<Rightarrow> nat \<Rightarrow> segment_line option" where
  "line_at s seq =
     (case s of
        None \<Rightarrow> None
      | Some r \<Rightarrow>
          if length (rs_lines r) \<le> seq then None
          else case rs_lines r ! seq of Inl _ \<Rightarrow> None | Inr l \<Rightarrow> Some l)"

definition intentRecord :: "effect_ledger \<Rightarrow> effect_store \<Rightarrow> index_entry \<Rightarrow> effect_error + segment_line" where
  "intentRecord lg st entry =
     (let segment = readWriterSegment (lg_env lg) st (ie_writer entry) in
      case line_at segment (ie_seq entry) of
        None \<Rightarrow> Inl (integrityError ''index-dangling'')
      | Some l \<Rightarrow>
          bindR (storedKeyring lg st) (\<lambda>ring.
            let failures = lineFailures (lg_env lg) ring (lg_scope lg) (ie_writer entry) (ie_seq entry) l
                  (previous_hash (the segment) (ie_seq entry)) in
            if failures \<noteq> [] then Inl (integrityError (hd failures))
            else if sl_recordHash l \<noteq> ie_recordHash entry \<or> ep_effectId (st_predicate (sl_statement l)) \<noteq> ie_effectId entry
            then Inl (integrityError ''index-segment-mismatch'')
            else Inr l))"

definition requireIntent :: "effect_ledger \<Rightarrow> string \<Rightarrow> (string \<times> index_entry \<times> effect_predicate) ledger_op" where
  "requireIntent lg i =
     bindL (returnL (assertEffectId i)) (\<lambda>_.
     bindL (prepareWrite lg) (\<lambda>indexKey st.
       (bindR (readIndexEntry st (indexName (lg_hmac lg) indexKey (lg_scope lg) i RoleIntent)) (\<lambda>found.
          case found of
            None \<Rightarrow> Inl (usageError ''intent-missing'')
          | Some entry \<Rightarrow>
              bindR (intentRecord lg st entry) (\<lambda>l.
                let intent = st_predicate (sl_statement l) in
                if ep_phase intent = PhaseTombstone then Inl (usageError ''intent-purged'')
                else Inr (indexKey, entry, intent))), st)))"

definition no_links :: effect_links where
  "no_links = \<lparr>el_operatorDecisionEventId = None, el_operatorDecisionRecordHash = None, el_traceId = None, el_spanId = None,
     el_toolCallId = None\<rparr>"

definition basePredicate ::
    "effect_predicate \<Rightarrow> effect_phase \<Rightarrow> string \<Rightarrow> effect_links option \<Rightarrow> string \<Rightarrow> nat \<Rightarrow> string option \<Rightarrow> string \<Rightarrow> effect_predicate" where
  "basePredicate intent phase payloadDigest links writer seq prev recordedAt =
     \<lparr>ep_effectId = ep_effectId intent, ep_idDerivation = ep_idDerivation intent, ep_scope = ep_scope intent, ep_kind = ep_kind intent,
      ep_target = ep_target intent, ep_context = ep_context intent, ep_phase = phase, ep_payloadDigest = payloadDigest,
      ep_writer = writer, ep_seq = seq, ep_prev = prev, ep_recordedAt = recordedAt, ep_verification = None, ep_failure = None,
      ep_tombstone = None, ep_links = opt_default links no_links\<rparr>"

end
