(* ===== verification/EffectKeyringSafety.thy ===== *)
theory EffectKeyringSafety
  imports EffectKeyring
begin

text \<open>
  What the keyring of the effect ledger guarantees (\<open>src/effects/keyring.ts\<close>): in a good keyring the
  windows of the keys follow each other, so at most one key signs at any time, and a rotation
  changes the verdict on no signature but those of the retired key from its end on.
\<close>

section \<open>The chain of keys\<close>

definition successor_of :: "effect_keyring \<Rightarrow> key_rotation \<Rightarrow> keyring_key" where
  "successor_of ring r = the (find_key ring (rb_to (kr_body r)))"

text \<open>The window of the first key ends before that of the second begins.\<close>

definition hands_over :: "effect_env \<Rightarrow> keyring_key \<Rightarrow> keyring_key \<Rightarrow> bool" where
  "hands_over env a b \<longleftrightarrow>
     (\<exists>u e f. kk_validUntil a = Some u \<and> en_time env u = Some e \<and> en_time env (kk_validFrom b) = Some f \<and> e \<le> f)"

lemma rotation_step:
  assumes "rotation_failure env ring index current L (r # rs) = None"
  shows "rotation_failure env ring (Suc index) (successor_of ring r) (en_time env (rb_effectiveAt (kr_body r))) rs = None"
    and "find_key ring (rb_to (kr_body r)) = Some (successor_of ring r)"
    and "\<exists>u e. kk_validUntil current = Some u \<and> en_time env u = Some e \<and> en_time env (kk_validFrom (successor_of ring r)) = Some e
      \<and> en_time env (rb_effectiveAt (kr_body r)) = Some e \<and> later_than L (Some e)"
proof -
  obtain s where s: "find_key ring (rb_to (kr_body r)) = Some s"
    using assms by (cases "find_key ring (rb_to (kr_body r))") (auto simp: Let_def split: if_splits)
  then have so: "successor_of ring r = s" by (simp add: successor_of_def)
  show "find_key ring (rb_to (kr_body r)) = Some (successor_of ring r)" using s so by simp
  show "rotation_failure env ring (Suc index) (successor_of ring r) (en_time env (rb_effectiveAt (kr_body r))) rs = None"
    using assms s so by (simp add: Let_def split: if_splits)
  have "later_than L (en_time env (rb_effectiveAt (kr_body r)))"
    "opt_holds (\<lambda>u. same_time (en_time env u) (en_time env (rb_effectiveAt (kr_body r)))) (kk_validUntil current)"
    "same_time (en_time env (kk_validFrom s)) (en_time env (rb_effectiveAt (kr_body r)))"
    using assms s by (simp_all add: Let_def split: if_splits)
  then show "\<exists>u e. kk_validUntil current = Some u \<and> en_time env u = Some e \<and> en_time env (kk_validFrom (successor_of ring r)) = Some e
      \<and> en_time env (rb_effectiveAt (kr_body r)) = Some e \<and> later_than L (Some e)"
    unfolding so same_time_def opt_holds_iff by (metis not_None_eq)
qed

lemma chain_windows:
  "rotation_failure env ring index current L rs = None \<Longrightarrow>
   sorted_wrt (hands_over env) (current # map (successor_of ring) rs)
   \<and> (\<forall>k \<in> successor_of ring ` set rs. \<exists>f. en_time env (kk_validFrom k) = Some f \<and> later_than L (Some f))"
proof (induction rs arbitrary: index current L)
  case (Cons r rs)
  note s = rotation_step [OF Cons.prems]
  obtain u e where e: "kk_validUntil current = Some u" "en_time env u = Some e"
    "en_time env (kk_validFrom (successor_of ring r)) = Some e" "en_time env (rb_effectiveAt (kr_body r)) = Some e" "later_than L (Some e)"
    using s(3) by blast
  note ih = Cons.IH [OF s(1)]
  have late: "\<exists>f. en_time env (kk_validFrom k) = Some f \<and> e < f" if "k \<in> successor_of ring ` set rs" for k
    using ih that e(4) by (fastforce simp: later_than_def)
  have "hands_over env current (successor_of ring r)" using e unfolding hands_over_def by auto
  moreover have "hands_over env current k" if "k \<in> successor_of ring ` set rs" for k
    using late [OF that] e unfolding hands_over_def by fastforce
  ultimately have "sorted_wrt (hands_over env) (current # map (successor_of ring) (r # rs))" using ih by auto
  moreover have "later_than L (Some f)" if "e < f" for f
    using e(5) that by (auto simp: later_than_def split: option.splits)
  ultimately show ?case using e(3,5) late by fastforce
qed simp

section \<open>A good keyring\<close>

lemma key_failure_None:
  "key_failure env seen ks = None \<Longrightarrow> distinct (map kk_keyid ks) \<and> set (map kk_keyid ks) \<inter> set seen = {}"
proof (induction ks arbitrary: seen)
  case (Cons k ks)
  then have "kk_keyid k \<notin> set seen" "key_failure env (kk_keyid k # seen) ks = None" by (auto split: if_splits)
  then show ?case using Cons.IH [of "kk_keyid k # seen"] by auto
qed simp

lemma good_keyring:
  assumes "keyringFailure env ring scope = None"
  shows "distinct (map kk_keyid (ky_keys ring))" and "length (genesis_keys ring) = 1"
    and "rotation_failure env ring 0 (hd (genesis_keys ring)) None (ky_rotations ring) = None"
    and "schema_keyring env ring" and "length (ky_keys ring) = length (ky_rotations ring) + 1"
    and "key_failure env [] (ky_keys ring) = None"
proof -
  show f: "key_failure env [] (ky_keys ring) = None"
    using assms by (auto simp: keyringFailure_def split: if_splits option.splits)
  show "distinct (map kk_keyid (ky_keys ring))" using key_failure_None [OF f] by blast
  show "length (genesis_keys ring) = 1" "length (ky_keys ring) = length (ky_rotations ring) + 1" "schema_keyring env ring"
    "rotation_failure env ring 0 (hd (genesis_keys ring)) None (ky_rotations ring) = None"
    using assms f by (auto simp: keyringFailure_def split: if_splits)
qed

lemma find_key_unique:
  assumes "distinct (map kk_keyid (ky_keys ring))" and "k \<in> set (ky_keys ring)"
  shows "find_key ring (kk_keyid k) = Some k"
proof -
  obtain k' where f: "find_key ring (kk_keyid k) = Some k'"
    using assms(2) by (cases "find_key ring (kk_keyid k)") (auto simp: find_key_def find_None_iff)
  then have "kk_keyid k' = kk_keyid k" "k' \<in> set (ky_keys ring)"
    by (auto simp: find_key_def find_Some_iff)
  then have "k' = k" using assms by (auto simp: distinct_map dest: inj_onD)
  then show ?thesis using f by simp
qed

lemma good_chain:
  assumes "keyringFailure env ring scope = None" and "k \<in> set (ky_keys ring)"
  shows "k \<in> set (hd (genesis_keys ring) # map (successor_of ring) (ky_rotations ring))"
proof (cases "k \<in> set (genesis_keys ring)")
  case True
  then show ?thesis using good_keyring(2) [OF assms(1)] by (cases "genesis_keys ring") auto
next
  case False
  then obtain r where r: "r \<in> set (ky_rotations ring)" "kk_keyid k = rb_to (kr_body r)"
    using assms(2) by (auto simp: genesis_keys_def)
  then have "successor_of ring r = k"
    using find_key_unique [OF good_keyring(1) [OF assms(1)] assms(2)] by (simp add: successor_of_def)
  then show ?thesis using r(1) by force
qed

lemma keyValidAt_bounds:
  assumes "keyValidAt env k t"
  shows "\<exists>x. en_time env t = Some x
    \<and> (\<forall>f. en_time env (kk_validFrom k) = Some f \<longrightarrow> f \<le> x)
    \<and> (\<forall>u e. kk_validUntil k = Some u \<longrightarrow> en_time env u = Some e \<longrightarrow> x < e)"
  using assms by (auto simp: keyValidAt_def not_less split: option.splits if_splits)

lemma hands_over_exclusive: "hands_over env a b \<Longrightarrow> keyValidAt env a t \<Longrightarrow> keyValidAt env b t \<Longrightarrow> False"
  unfolding hands_over_def using keyValidAt_bounds [of env a t] keyValidAt_bounds [of env b t] by fastforce

lemma sorted_wrt_pairs:
  "sorted_wrt P xs \<Longrightarrow> x \<in> set xs \<Longrightarrow> y \<in> set xs \<Longrightarrow> x = y \<or> P x y \<or> P y x"
  by (induction xs) auto

text \<open>C38: At any time at most one key of a keyring that passes the check may sign: the windows of the
  keys, in the order of the rotations, do not overlap.\<close>

theorem one_key_signs_at_a_time:
  assumes "keyringFailure env ring scope = None" and "a \<in> set (ky_keys ring)" and "b \<in> set (ky_keys ring)"
    and "keyValidAt env a t" and "keyValidAt env b t"
  shows "a = b"
proof -
  let ?chain = "hd (genesis_keys ring) # map (successor_of ring) (ky_rotations ring)"
  have "sorted_wrt (hands_over env) ?chain"
    using chain_windows [OF good_keyring(3) [OF assms(1)]] by blast
  from sorted_wrt_pairs [OF this good_chain [OF assms(1,2)] good_chain [OF assms(1,3)]]
  show ?thesis using hands_over_exclusive assms(4,5) by blast
qed

section \<open>Rotation\<close>

lemma assertKeyring_Inr: "assertKeyring env ring scope = Inr u \<longleftrightarrow> keyringFailure env ring scope = None"
  by (simp add: assertKeyring_def split: option.splits)

lemma rotateKeyring_Inr:
  assumes "rotateKeyring env ring prior successor effectiveAt reason = Inr ring'"
  shows "ring' = rotated ring prior successor effectiveAt reason" and "keyringFailure env ring' None = None"
    and "keyringFailure env ring None = None" and "\<exists>current. activeKey ring = Some current \<and> kk_keyid current = sk_keyid prior"
    and "sk_keyid successor \<notin> kk_keyid ` set (ky_keys ring)"
  using assms
  by (auto simp: rotateKeyring_def Let_def assertKeyring_Inr list_ex_iff checks_Inr_iff simp del: checks.simps split: option.splits)

lemma find_map_append: "find (\<lambda>x. P (f x)) xs = Some x \<Longrightarrow> find P (map f xs @ ys) = Some (f x)"
  by (induction xs) (auto split: if_splits)

lemma find_key_rotated:
  assumes "find_key ring keyid = Some k"
  shows "find_key (rotated ring prior successor effectiveAt reason) keyid = Some (retire_key (sk_keyid prior) effectiveAt k)"
proof -
  have same: "kk_keyid (retire_key i e k) = kk_keyid k" for i e k by (simp add: retire_key_def)
  have "find (\<lambda>k. kk_keyid (retire_key (sk_keyid prior) effectiveAt k) = keyid) (ky_keys ring) = Some k"
    using assms by (simp add: find_key_def same)
  from find_map_append [where P = "\<lambda>k. kk_keyid k = keyid", OF this] show ?thesis by (simp add: find_key_def rotated_def)
qed

lemma retired_valid:
  assumes "en_time env t = Some x" and "en_time env effectiveAt = Some e" and "keyValidAt env k t"
  shows "keyValidAt env (retire_key i effectiveAt k) t \<longleftrightarrow> \<not> (kk_keyid k = i \<and> e \<le> x)"
  using assms by (auto simp: keyValidAt_def retire_key_def split: option.splits if_splits)

text \<open>C39: A rotation keeps the verdict on every signature the keyring accepted, except on those of the
  prior key dated at the rotation or later, which fall out of its window: also on records that were
  appended before the rotation was written.\<close>

theorem rotation_verdicts:
  assumes "rotateKeyring env ring prior successor effectiveAt reason = Inr ring'"
    and "checkSignature env ring sig payload t = SignatureOk"
    and "en_time env t = Some x" and "en_time env effectiveAt = Some e"
  shows "checkSignature env ring' sig payload t = (if sg_keyid sig = sk_keyid prior \<and> e \<le> x then KeyWindow else SignatureOk)"
proof -
  obtain k where k: "find_key ring (sg_keyid sig) = Some k" "en_verify env (kk_publicKey k) payload (sg_sig sig)" "keyValidAt env k t"
    using assms(2) by (auto simp: checkSignature_def split: option.splits if_splits)
  then have i: "kk_keyid k = sg_keyid sig" by (auto simp: find_key_def find_Some_iff)
  have "kk_publicKey (retire_key (sk_keyid prior) effectiveAt k) = kk_publicKey k" by (simp add: retire_key_def)
  then show ?thesis
    using find_key_rotated [OF k(1)] retired_valid [OF assms(3,4) k(3), of "sk_keyid prior"] k(2) i
    unfolding rotateKeyring_Inr(1) [OF assms(1)] by (auto simp: checkSignature_def)
qed

section \<open>A rotated keyring\<close>

text \<open>Keys are their own fingerprints, a signature is the public key that made it, and times are the
  last digit of the second.\<close>

definition demo_digit :: "char \<Rightarrow> string" where
  "demo_digit c = replicate 64 c"

definition demo_key :: "char \<Rightarrow> signing_key" where
  "demo_key c = \<lparr>sk_keyid = ''sha256:'' @ demo_digit c, sk_publicKey = demo_digit c, sk_signPae = (\<lambda>_. demo_digit c)\<rparr>"

definition demo_second :: "char \<Rightarrow> string" where
  "demo_second c = ''2026-01-01T00:00:0'' @ [c] @ ''Z''"

definition demo_effect_env :: effect_env where
  "demo_effect_env = \<lparr>en_hash = \<lparr>eh_sha256 = (\<lambda>_. replicate 32 0), eh_number = (\<lambda>_. [])\<rparr>,
     en_recordHash = st_name, en_keyringDigest = (\<lambda>_. []), en_writersDigest = (\<lambda>_. []), en_checkpointDigest = (\<lambda>_. []),
     en_time = (\<lambda>s. if length s = 20 then Some (int (of_char (s ! 18))) else None), en_fingerprint = Some,
     en_verify = (\<lambda>key payload sig. sig = key), en_dateTime = (\<lambda>_. True), en_publicKeyFormat = (\<lambda>_. True), en_signatureFormat = (\<lambda>_. True),
     en_digestOnly = (\<lambda>_. True)\<rparr>"

definition demo_effect_scope :: effect_scope where
  "demo_effect_scope = \<lparr>es_tenant = ''t'', es_project = ''p'', es_subsystem = ''job''\<rparr>"

definition demo_genesis :: effect_keyring where
  "demo_genesis = createGenesisKeyring demo_effect_scope (demo_key CHR ''a'') (demo_second CHR ''1'')"

definition demo_rotated :: effect_keyring where
  "demo_rotated = rotated demo_genesis (demo_key CHR ''a'') (demo_key CHR ''b'') (demo_second CHR ''5'') RotationScheduled"

lemma demo_rotation:
  "rotateKeyring demo_effect_env demo_genesis (demo_key CHR ''a'') (demo_key CHR ''b'') (demo_second CHR ''5'') RotationScheduled
     = Inr demo_rotated"
  by code_simp

lemma demo_rotated_good: "keyringFailure demo_effect_env demo_rotated (Some demo_effect_scope) = None"
  by code_simp

lemma one_key_signs_at_a_time_witness:
  "\<exists>!k. k \<in> set (ky_keys demo_rotated) \<and> keyValidAt demo_effect_env k (demo_second CHR ''3'')"
proof -
  have k: "hd (ky_keys demo_rotated) \<in> set (ky_keys demo_rotated)"
    "keyValidAt demo_effect_env (hd (ky_keys demo_rotated)) (demo_second CHR ''3'')" by code_simp+
  show ?thesis
  proof (rule ex1I)
    show "hd (ky_keys demo_rotated) \<in> set (ky_keys demo_rotated)
      \<and> keyValidAt demo_effect_env (hd (ky_keys demo_rotated)) (demo_second CHR ''3'')" using k by (rule conjI)
    fix j assume "j \<in> set (ky_keys demo_rotated) \<and> keyValidAt demo_effect_env j (demo_second CHR ''3'')"
    then show "j = hd (ky_keys demo_rotated)"
      using one_key_signs_at_a_time [OF demo_rotated_good _ k(1) _ k(2), of j] by blast
  qed
qed

lemma rotation_verdicts_witness:
  "\<forall>payload. let sig = \<lparr>sg_keyid = sk_keyid (demo_key CHR ''a''), sg_sig = demo_digit CHR ''a''\<rparr> in
   checkSignature demo_effect_env demo_rotated sig payload (demo_second CHR ''4'') = SignatureOk
   \<and> checkSignature demo_effect_env demo_rotated sig payload (demo_second CHR ''7'') = KeyWindow"
proof (rule allI)
  fix payload
  let ?sig = "\<lparr>sg_keyid = sk_keyid (demo_key CHR ''a''), sg_sig = demo_digit CHR ''a''\<rparr>"
  have ok: "checkSignature demo_effect_env demo_genesis ?sig payload (demo_second CHR ''4'') = SignatureOk"
    "checkSignature demo_effect_env demo_genesis ?sig payload (demo_second CHR ''7'') = SignatureOk"
    by code_simp+
  have t: "en_time demo_effect_env (demo_second CHR ''4'') = Some 52" "en_time demo_effect_env (demo_second CHR ''7'') = Some 55"
    "en_time demo_effect_env (demo_second CHR ''5'') = Some 53" by code_simp+
  show "let sig = ?sig in
     checkSignature demo_effect_env demo_rotated sig payload (demo_second CHR ''4'') = SignatureOk
     \<and> checkSignature demo_effect_env demo_rotated sig payload (demo_second CHR ''7'') = KeyWindow"
    using rotation_verdicts [OF demo_rotation ok(1) t(1,3)] rotation_verdicts [OF demo_rotation ok(2) t(2,3)] by simp
qed

end
