(* ===== verification/EffectVerifiers.thy ===== *)
theory EffectVerifiers
  imports EffectKeyringSafety
begin

text \<open>
  Verifiers of effects (\<open>src/effects/verifiers/registry.ts\<close>, \<open>types.ts\<close>): the registry, one verifier
  for a kind, and the rules that turn any answer into one of the three results. A verifier is a
  parameter: a function from the request to what the caller sees of it. The timer is the answer
  \<open>AnswerTimeout\<close>.
\<close>

section \<open>Verifiers and answers\<close>

record verifier_request =
  vq_effectId :: string
  vq_scope :: effect_scope
  vq_kind :: string
  vq_target :: string
  vq_context :: effect_context
  vq_payloadDigest :: string
  vq_intentRecordedAt :: string
  vq_expected :: json

record verifier_observation =
  vo_result :: string
  vo_reason :: string
  vo_complete :: bool
  vo_evidenceDigest :: "string option"
  vo_evidence :: "json option"

text \<open>\<open>AnswerMalformed\<close>: no object, or no boolean \<open>complete\<close>. \<open>AnswerThrown\<close> has the reason of an
  \<open>EffectVerifierError\<close>.\<close>

datatype verifier_answer =
  AnswerMalformed | AnswerThrown "string option" | AnswerTimeout | Answered verifier_observation

record effect_verifier =
  vf_kind :: string
  vf_version :: string
  vf_canReportAbsent :: bool
  vf_verify :: "verifier_request \<Rightarrow> verifier_answer"

section \<open>The registry\<close>

definition register_verifier :: "effect_verifier dict \<Rightarrow> effect_verifier \<Rightarrow> effect_error + effect_verifier dict" where
  "register_verifier byKind v =
     thenR (checks
       [(\<not> isEffectKind (vf_kind v), usageError ''invalid-verifier''),
        (has_key byKind (vf_kind v), usageError ''duplicate-verifier''),
        (\<not> schema_semver (vf_version v), usageError ''invalid-verifier'')])
     (Inr (AList.update (vf_kind v) v byKind))"

definition createVerifierRegistry :: "effect_verifier list \<Rightarrow> effect_error + effect_verifier dict" where
  "createVerifierRegistry vs = foldR register_verifier [] vs"

definition refFor :: "effect_verifier \<Rightarrow> verifier_ref" where
  "refFor v = \<lparr>vr_kind = vf_kind v, vr_version = vf_version v, vr_canReportAbsent = vf_canReportAbsent v\<rparr>"

definition listKinds :: "effect_verifier dict \<Rightarrow> verifier_ref list" where
  "listKinds byKind = map (\<lambda>k. refFor (the (map_of byKind k))) (sort (map fst byKind))"

section \<open>The rules\<close>

record verifier_outcome =
  vc_result :: verification_result
  vc_reason :: string
  vc_complete :: bool
  vc_evidenceDigest :: "string option"

definition unknown_outcome :: "string \<Rightarrow> verifier_outcome" where
  "unknown_outcome reason =
     \<lparr>vc_result = ResultUnknown, vc_reason = reason, vc_complete = False, vc_evidenceDigest = None\<rparr>"

fun json_scalar :: "json \<Rightarrow> bool" where
  "json_scalar (JArr _) = False"
| "json_scalar (JObj _) = False"
| "json_scalar _ = True"

fun flat_evidence :: "json \<Rightarrow> bool" where
  "flat_evidence (JObj members) = list_all (json_scalar \<circ> snd) members"
| "flat_evidence _ = False"

text \<open>The digest of the evidence: refused, or none. A text that \<open>canonicalJson\<close> cannot give throws, and the
  throw is a server error. The guard of \<open>redaction.ts\<close> on evidence is \<open>clean\<close>.\<close>

definition evidence_digest ::
    "effect_hash \<Rightarrow> (json \<Rightarrow> bool) \<Rightarrow> verifier_observation \<Rightarrow> string + string option" where
  "evidence_digest h clean v =
     (case vo_evidence v of
        None \<Rightarrow> Inr (vo_evidenceDigest v)
      | Some e \<Rightarrow>
          if \<not> flat_evidence e \<or> \<not> clean e then Inl ''malformed-response''
          else case canonical_text h e of
            Inl _ \<Rightarrow> Inl ''server-error''
          | Inr s \<Rightarrow>
              if opt_holds (\<lambda>d. d \<noteq> sha256Digest h s) (vo_evidenceDigest v) then Inl ''malformed-response''
              else Inr (Some (sha256Digest h s)))"

definition normalize ::
    "effect_hash \<Rightarrow> (json \<Rightarrow> bool) \<Rightarrow> effect_verifier \<Rightarrow> verifier_observation \<Rightarrow> verifier_outcome" where
  "normalize h clean verifier v =
     (if opt_holds (\<lambda>d. \<not> schema_digest d) (vo_evidenceDigest v) then unknown_outcome ''malformed-response''
      else case evidence_digest h clean v of
        Inl reason \<Rightarrow> unknown_outcome reason
      | Inr digest \<Rightarrow>
          (let kept = (\<lambda>result complete. \<lparr>vc_result = result, vc_reason = vo_reason v, vc_complete = complete,
                         vc_evidenceDigest = digest\<rparr>) in
           if vo_result v = ''present'' then
             (if vo_reason v \<in> set PRESENT_REASONS then kept ResultPresent (vo_complete v)
              else unknown_outcome ''malformed-response'')
           else if vo_result v = ''absent'' then
             (if \<not> vf_canReportAbsent verifier then unknown_outcome ''verifier-cannot-report-absent''
              else if \<not> vo_complete v then unknown_outcome ''paging-incomplete''
              else if vo_reason v \<notin> set ABSENT_REASONS then unknown_outcome ''malformed-response''
              else kept ResultAbsent True)
           else if vo_result v = ''unknown'' then
             (if vo_reason v \<in> set UNKNOWN_REASONS then kept ResultUnknown (vo_complete v)
              else unknown_outcome ''malformed-response'')
           else unknown_outcome ''malformed-response''))"

definition thrownReason :: "string option \<Rightarrow> string" where
  "thrownReason reason =
     (case reason of Some r \<Rightarrow> if r \<in> set UNKNOWN_REASONS then r else ''server-error'' | None \<Rightarrow> ''server-error'')"

definition runVerifier ::
    "effect_hash \<Rightarrow> (json \<Rightarrow> bool) \<Rightarrow> effect_verifier option \<Rightarrow> string option \<Rightarrow> verifier_request \<Rightarrow> verifier_ref \<times> verifier_outcome" where
  "runVerifier h clean verifier pinned request =
     (case verifier of
        None \<Rightarrow> (\<lparr>vr_kind = vq_kind request, vr_version = ''0.0.0'', vr_canReportAbsent = False\<rparr>, unknown_outcome ''verifier-missing'')
      | Some v \<Rightarrow>
          (let ref = \<lparr>vr_kind = vq_kind request, vr_version = (if schema_semver (vf_version v) then vf_version v else ''0.0.0''),
                      vr_canReportAbsent = vf_canReportAbsent v\<rparr> in
           if vf_kind v \<noteq> vq_kind request \<or> opt_holds (\<lambda>p. p \<noteq> vf_version v) pinned
           then (ref, unknown_outcome ''verifier-version-mismatch'')
           else (ref,
             case vf_verify v request of
               AnswerMalformed \<Rightarrow> unknown_outcome ''malformed-response''
             | AnswerThrown reason \<Rightarrow> unknown_outcome (thrownReason reason)
             | AnswerTimeout \<Rightarrow> unknown_outcome ''timeout''
             | Answered observation \<Rightarrow> normalize h clean v observation)))"

text \<open>What \<open>reconcileEffect\<close> records of a run.\<close>

definition run_verification :: "verifier_ref \<times> verifier_outcome \<Rightarrow> string \<Rightarrow> effect_verification" where
  "run_verification run checkedAt =
     \<lparr>ev_verifier = fst run, ev_result = vc_result (snd run), ev_reason = vc_reason (snd run), ev_complete = vc_complete (snd run),
      ev_checkedAt = checkedAt, ev_evidenceDigest = vc_evidenceDigest (snd run)\<rparr>"

section \<open>Any answer gives a record that conforms\<close>

lemma hexdigit_lower: "n < 16 \<Longrightarrow> hexdigit n \<in> set ''0123456789abcdef''"
proof -
  assume "n < 16"
  then have "n \<in> set [0..<16]" by simp
  moreover have "list_all (\<lambda>n. hexdigit n \<in> set ''0123456789abcdef'') [0..<16]" by code_simp
  ultimately show ?thesis by (simp only: list_all_iff)
qed

lemma hex_byte_lower: "length (hex_byte b) = 2" "c \<in> set (hex_byte b) \<Longrightarrow> c \<in> set ''0123456789abcdef''"
proof -
  show "length (hex_byte b) = 2" by (simp add: hex_byte_def)
  have "unat b < 2 ^ LENGTH(8)" by (rule unsigned_less)
  then have "unat b < 256" by simp
  then have "unat (drop_bit 4 b) < 16" unfolding unat_drop_bit_eq by (simp add: drop_bit_eq_div)
  moreover have "b AND 15 = take_bit 4 b" by (simp add: take_bit_eq_mask mask_eq_exp_minus_1)
  then have "unat (b AND 15) < 16" using take_bit_nat_less_exp [of 4 "unat b"] by (simp add: unsigned_take_bit_eq)
  ultimately
  show "c \<in> set (hex_byte b) \<Longrightarrow> c \<in> set ''0123456789abcdef''"
    using hexdigit_lower by (auto simp: hex_byte_def)
qed

lemma sha256Digest_schema:
  assumes "length (eh_sha256 h s) = 32"
  shows "schema_digest (sha256Digest h s)"
proof -
  have len: "length (concat (map hex_byte bs)) = 2 * length bs" for bs by (induction bs) (simp_all add: hex_byte_lower(1))
  have low: "list_all (\<lambda>c. c \<in> set ''0123456789abcdef'') (sha256Hex h s)"
    unfolding list_all_iff sha256Hex_def set_concat set_map by (blast intro: hex_byte_lower(2))
  have "take 7 (sha256Digest h s) = ''sha256:''" "length (sha256Digest h s) = 71" "drop 7 (sha256Digest h s) = sha256Hex h s"
    using assms len by (simp_all add: sha256Digest_def sha256Hex_def)
  then show ?thesis using low unfolding schema_digest_def by metis
qed

lemma evidence_digest_schema:
  assumes "evidence_digest h clean v = Inr digest" and "\<not> opt_holds (\<lambda>d. \<not> schema_digest d) (vo_evidenceDigest v)"
    and "\<And>s. length (eh_sha256 h s) = 32"
  shows "opt_all schema_digest digest"
  using assms sha256Digest_schema [of h]
  by (auto simp: evidence_digest_def opt_all_def opt_holds_def split: option.splits sum.splits if_splits)

text \<open>What \<open>schema_verification\<close> asks of the result, beyond the verifier and the time.\<close>

definition outcome_conforms :: "bool \<Rightarrow> verifier_outcome \<Rightarrow> bool" where
  "outcome_conforms capable c \<longleftrightarrow>
     opt_all schema_digest (vc_evidenceDigest c)
     \<and> (case vc_result c of
          ResultPresent \<Rightarrow> vc_reason c \<in> set PRESENT_REASONS
        | ResultAbsent \<Rightarrow> vc_reason c \<in> set ABSENT_REASONS \<and> vc_complete c \<and> capable
        | ResultUnknown \<Rightarrow> vc_reason c \<in> set UNKNOWN_REASONS)"

lemma unknown_conforms: "reason \<in> set UNKNOWN_REASONS \<Longrightarrow> outcome_conforms capable (unknown_outcome reason)"
  by (simp add: outcome_conforms_def unknown_outcome_def opt_all_def)

lemma framework_reasons:
  "''verifier-missing'' \<in> set UNKNOWN_REASONS" "''verifier-version-mismatch'' \<in> set UNKNOWN_REASONS"
  "''malformed-response'' \<in> set UNKNOWN_REASONS" "''server-error'' \<in> set UNKNOWN_REASONS" "''timeout'' \<in> set UNKNOWN_REASONS"
  "''paging-incomplete'' \<in> set UNKNOWN_REASONS" "''verifier-cannot-report-absent'' \<in> set UNKNOWN_REASONS"
  "thrownReason reason \<in> set UNKNOWN_REASONS"
  by (simp_all add: UNKNOWN_REASONS_def thrownReason_def split: option.split)

lemma evidence_digest_Inl: "evidence_digest h clean v = Inl reason \<Longrightarrow> reason \<in> set UNKNOWN_REASONS"
  by (auto simp: evidence_digest_def framework_reasons split: option.splits sum.splits if_splits)

lemma normalize_conforms:
  assumes "\<And>s. length (eh_sha256 h s) = 32"
  shows "outcome_conforms (vf_canReportAbsent f) (normalize h clean f v)"
proof (cases "opt_holds (\<lambda>d. \<not> schema_digest d) (vo_evidenceDigest v)")
  case True
  then show ?thesis by (simp add: normalize_def unknown_conforms framework_reasons)
next
  case False
  show ?thesis
  proof (cases "evidence_digest h clean v")
    case (Inl reason)
    then show ?thesis using False evidence_digest_Inl [OF Inl] by (simp add: normalize_def unknown_conforms)
  next
    case (Inr digest)
    have "opt_all schema_digest digest" by (rule evidence_digest_schema [OF Inr False assms])
    then have "outcome_conforms capable \<lparr>vc_result = result, vc_reason = reason, vc_complete = complete, vc_evidenceDigest = digest\<rparr>"
      if "case result of ResultPresent \<Rightarrow> reason \<in> set PRESENT_REASONS
          | ResultAbsent \<Rightarrow> reason \<in> set ABSENT_REASONS \<and> complete \<and> capable
          | ResultUnknown \<Rightarrow> reason \<in> set UNKNOWN_REASONS" for capable result reason complete
      using that by (simp add: outcome_conforms_def split: verification_result.splits)
    then show ?thesis using False Inr by (simp add: normalize_def Let_def unknown_conforms framework_reasons)
  qed
qed

lemma runVerifier_conforms:
  assumes "\<And>s. length (eh_sha256 h s) = 32"
  shows "outcome_conforms (vr_canReportAbsent (fst (runVerifier h clean f pinned request))) (snd (runVerifier h clean f pinned request))"
  using normalize_conforms [OF assms]
  by (auto simp: runVerifier_def Let_def unknown_conforms framework_reasons split: option.split verifier_answer.split)

lemma runVerifier_ref:
  "vr_kind (fst (runVerifier h clean f pinned request)) = vq_kind request"
  "schema_semver (vr_version (fst (runVerifier h clean f pinned request)))"
proof -
  have "schema_semver ''0.0.0''" by code_simp
  then show "vr_kind (fst (runVerifier h clean f pinned request)) = vq_kind request"
    "schema_semver (vr_version (fst (runVerifier h clean f pinned request)))"
    by (auto simp: runVerifier_def Let_def split: option.split)
qed

text \<open>Whatever a verifier answers, throws or withholds, the verification that a reconcile records
  conforms to the schema; absence is recorded only from a verifier that can report it and that
  answered completely.\<close>

theorem any_answer_conforms:
  assumes "\<And>s. length (eh_sha256 (en_hash env) s) = 32" and "isEffectKind (vq_kind request)" and "schema_timestamp env checkedAt"
  shows "schema_verification env (run_verification (runVerifier (en_hash env) clean verifier pinned request) checkedAt)"
  using runVerifier_conforms [OF assms(1), of clean verifier pinned request] runVerifier_ref assms(2,3)
  unfolding schema_verification_def run_verification_def outcome_conforms_def by (simp split: verification_result.splits)

text \<open>A verifier that sees no match on all pages, with evidence that the run digests.\<close>

definition demo_verifier :: effect_verifier where
  "demo_verifier = \<lparr>vf_kind = ''git.commit'', vf_version = ''1.0.0'', vf_canReportAbsent = True,
     vf_verify = (\<lambda>_. Answered \<lparr>vo_result = ''absent'', vo_reason = ''complete-query-no-match'', vo_complete = True,
       vo_evidenceDigest = None, vo_evidence = Some (JObj [(''pages'', JStr ''all'')])\<rparr>)\<rparr>"

definition demo_request :: verifier_request where
  "demo_request = \<lparr>vq_effectId = [], vq_scope = demo_effect_scope, vq_kind = ''git.commit'', vq_target = ''git:a'', vq_context = [],
     vq_payloadDigest = [], vq_intentRecordedAt = demo_second CHR ''1'', vq_expected = JObj []\<rparr>"

lemma any_answer_conforms_witness:
  "schema_verification demo_effect_env
     (run_verification (runVerifier (en_hash demo_effect_env) (\<lambda>_. True) (Some demo_verifier) None demo_request) (demo_second CHR ''2''))
   \<and> vc_result (snd (runVerifier (en_hash demo_effect_env) (\<lambda>_. True) (Some demo_verifier) None demo_request)) = ResultAbsent"
proof (intro conjI any_answer_conforms)
  show "length (eh_sha256 (en_hash demo_effect_env) s) = 32" for s by (simp add: demo_effect_env_def)
  show "isEffectKind (vq_kind demo_request)" by (simp add: demo_request_def isEffectKind_def CORE_EFFECT_KINDS_def)
qed code_simp+

end
