(* ===== verification/EffectOperations.thy ===== *)
theory EffectOperations
  imports EffectLedger EffectVerifiers
begin

text \<open>
  The public operations of the effect ledger (\<open>src/effects/ledger.ts\<close>): intents, outcomes,
  reconciliation, lookup, and the keyring. The readings of the clock that an append takes are its
  two last arguments.
\<close>

section \<open>Recording\<close>

record intent_input =
  ri_kind :: string
  ri_target :: string
  ri_context :: effect_context
  ri_payloadDigest :: string
  ri_derivation :: "effect_derivation option"
  ri_links :: "effect_links option"

definition intent_plan :: "effect_ledger \<Rightarrow> intent_input \<Rightarrow> effect_derivation \<Rightarrow> string \<Rightarrow> append_plan" where
  "intent_plan lg input derivation i =
     \<lparr>ap_role = Some RoleIntent, ap_build = (\<lambda>seq prev recordedAt.
       \<lparr>ep_effectId = i, ep_idDerivation = derivation, ep_scope = lg_scope lg, ep_kind = ri_kind input,
        ep_target = Some (ri_target input), ep_context = Some (ri_context input), ep_phase = PhaseIntent,
        ep_payloadDigest = ri_payloadDigest input, ep_writer = lg_writer lg, ep_seq = seq, ep_prev = prev,
        ep_recordedAt = recordedAt, ep_verification = None, ep_failure = None, ep_tombstone = None,
        ep_links = opt_default (ri_links input) no_links\<rparr>)\<rparr>"

definition settle_intent :: "intent_input \<Rightarrow> effect_derivation \<Rightarrow> index_entry \<Rightarrow> effect_error + effect_receipt" where
  "settle_intent input derivation entry =
     (if ie_payloadDigest entry \<noteq> ri_payloadDigest input then Inl conflictError
      else Inr (receiptFromEntry entry derivation True))"

definition intent_id :: "effect_ledger \<Rightarrow> intent_input \<Rightarrow> effect_error + string" where
  "intent_id lg input =
     effectIdDerivation (opt_default (ri_derivation input) (defaultDerivationFor (ri_kind input))) (en_hash (lg_env lg))
       \<lparr>ei_scope = lg_scope lg, ei_kind = ri_kind input, ei_target = ri_target input, ei_context = ri_context input\<rparr>"

definition recordIntent :: "effect_ledger \<Rightarrow> intent_input \<Rightarrow> string \<Rightarrow> string \<Rightarrow> effect_receipt ledger_op" where
  "recordIntent lg input genesisAt recordedAt =
     (let derivation = opt_default (ri_derivation input) (defaultDerivationFor (ri_kind input)) in
      bindL (returnL (intent_id lg input)) (\<lambda>i.
      bindL (returnL (assertPayloadDigest (ri_payloadDigest input))) (\<lambda>_.
      bindL (prepareWrite lg) (\<lambda>indexKey.
      bindL (\<lambda>st. (readIndexEntry st (indexName (lg_hmac lg) indexKey (lg_scope lg) i RoleIntent), st)) (\<lambda>existing.
        case existing of
          Some entry \<Rightarrow> returnL (settle_intent input derivation entry)
        | None \<Rightarrow>
            bindL (appendRecord lg (intent_plan lg input derivation i) i genesisAt recordedAt) (\<lambda>(l, lost).
              returnL (case lost of
                Some winner \<Rightarrow> settle_intent input derivation winner
              | None \<Rightarrow> Inr (receiptFromLine l (st_predicate (sl_statement l))))))))))"

record outcome_input =
  ro_phase :: effect_phase
  ro_payloadDigest :: string
  ro_verification :: "effect_verification option"
  ro_failure :: "effect_failure option"
  ro_links :: "effect_links option"

definition outcome_checks :: "outcome_input \<Rightarrow> effect_error + unit" where
  "outcome_checks input =
     thenR (checks [(ro_phase input \<noteq> PhaseCompleted \<and> ro_phase input \<noteq> PhaseFailed, usageError ''invalid-phase'')])
     (thenR (assertPayloadDigest (ro_payloadDigest input))
     (checks
       [(ro_phase input = PhaseCompleted \<and> \<not> opt_holds (\<lambda>v. ev_result v = ResultPresent) (ro_verification input),
         usageError ''completed-without-present''),
        (ro_phase input = PhaseFailed \<and> ro_failure input = None, usageError ''failed-without-reason'')]))"

definition outcome_plan :: "effect_ledger \<Rightarrow> outcome_input \<Rightarrow> effect_predicate \<Rightarrow> append_plan" where
  "outcome_plan lg input intent =
     \<lparr>ap_role = Some RoleOutcome, ap_build = (\<lambda>seq prev recordedAt.
       (basePredicate intent (ro_phase input) (ro_payloadDigest input) (ro_links input) (lg_writer lg) seq prev recordedAt)
         \<lparr>ep_verification := (if ro_phase input = PhaseCompleted then ro_verification input else None),
          ep_failure := (if ro_phase input = PhaseCompleted then None else ro_failure input)\<rparr>)\<rparr>"

definition settle_outcome :: "outcome_input \<Rightarrow> effect_predicate \<Rightarrow> index_entry \<Rightarrow> effect_error + effect_receipt" where
  "settle_outcome input intent winner =
     (if ie_phase winner \<noteq> ro_phase input \<or> ie_payloadDigest winner \<noteq> ro_payloadDigest input
      then Inl (EffectLedgerError CodeConflict ''outcome-conflict'')
      else Inr (receiptFromEntry winner (ep_idDerivation intent) True))"

definition recordOutcome :: "effect_ledger \<Rightarrow> string \<Rightarrow> outcome_input \<Rightarrow> string \<Rightarrow> string \<Rightarrow> effect_receipt ledger_op" where
  "recordOutcome lg i input genesisAt recordedAt =
     bindL (returnL (outcome_checks input)) (\<lambda>_.
     bindL (requireIntent lg i) (\<lambda>(indexKey, entry, intent).
     bindL (returnL (checks [(ie_payloadDigest entry \<noteq> ro_payloadDigest input, conflictError)])) (\<lambda>_.
     bindL (\<lambda>st. (readIndexEntry st (indexName (lg_hmac lg) indexKey (lg_scope lg) i RoleOutcome), st)) (\<lambda>existing.
       case existing of
         Some winner \<Rightarrow> returnL (settle_outcome input intent winner)
       | None \<Rightarrow>
           bindL (appendRecord lg (outcome_plan lg input intent) i genesisAt recordedAt) (\<lambda>(l, lost).
             returnL (case lost of
               Some winner \<Rightarrow> settle_outcome input intent winner
             | None \<Rightarrow> Inr (receiptFromLine l (intent\<lparr>ep_phase := ro_phase input\<rparr>))))))))"

definition reconciled_plan ::
    "effect_ledger \<Rightarrow> effect_predicate \<Rightarrow> string \<Rightarrow> effect_verification \<Rightarrow> effect_links option \<Rightarrow> append_plan" where
  "reconciled_plan lg intent payloadDigest verification links =
     \<lparr>ap_role = None, ap_build = (\<lambda>seq prev recordedAt.
       (basePredicate intent PhaseReconciled payloadDigest links (lg_writer lg) seq prev recordedAt)
         \<lparr>ep_verification := Some verification\<rparr>)\<rparr>"

definition recordReconciled ::
    "effect_ledger \<Rightarrow> string \<Rightarrow> effect_verification \<Rightarrow> effect_links option \<Rightarrow> string \<Rightarrow> string \<Rightarrow> effect_receipt ledger_op" where
  "recordReconciled lg i verification links genesisAt recordedAt =
     bindL (requireIntent lg i) (\<lambda>(indexKey, entry, intent).
     bindL (appendRecord lg (reconciled_plan lg intent (ie_payloadDigest entry) verification links) i genesisAt recordedAt) (\<lambda>(l, lost).
       returnL (Inr (receiptFromLine l (intent\<lparr>ep_phase := PhaseReconciled\<rparr>)))))"

section \<open>Reconciliation\<close>

fun EXIT_FOR_RESULT :: "verification_result \<Rightarrow> int" where
  "EXIT_FOR_RESULT ResultPresent = 0"
| "EXIT_FOR_RESULT ResultAbsent = 3"
| "EXIT_FOR_RESULT ResultUnknown = 4"

record reconcile_options =
  rc_verifiers :: "effect_verifier dict"
  rc_verifierVersion :: "string option"
  rc_links :: "effect_links option"
  rc_expected :: json
  rc_cleanEvidence :: "json \<Rightarrow> bool"

definition verifier_request_for :: "effect_predicate \<Rightarrow> index_entry \<Rightarrow> json \<Rightarrow> verifier_request" where
  "verifier_request_for intent entry expected =
     \<lparr>vq_effectId = ep_effectId intent, vq_scope = ep_scope intent, vq_kind = ep_kind intent,
      vq_target = the (ep_target intent), vq_context = the (ep_context intent), vq_payloadDigest = ie_payloadDigest entry,
      vq_intentRecordedAt = ep_recordedAt intent, vq_expected = expected\<rparr>"

text \<open>A result document: \<open>schemas/effects/EffectVerifierResult.v1.schema.json\<close> ties the exit code to the result.\<close>

definition schema_verifierResult :: "effect_env \<Rightarrow> string \<Rightarrow> string \<Rightarrow> effect_verification \<Rightarrow> bool" where
  "schema_verifierResult env i kind v \<longleftrightarrow> isValidEffectId i \<and> isEffectKind kind \<and> schema_verification env v"

record reconcile_outcome =
  rx_verification :: effect_verification
  rx_exitCode :: int
  rx_receipt :: effect_receipt
  rx_completed :: "effect_receipt option"

definition complete_if_present ::
    "effect_ledger \<Rightarrow> string \<Rightarrow> index_entry \<Rightarrow> effect_verification \<Rightarrow> effect_links option \<Rightarrow> string \<Rightarrow> string \<Rightarrow>
     effect_receipt option ledger_op" where
  "complete_if_present lg i entry v links genesisAt recordedAt st =
     (if ev_result v = ResultPresent then
        (case recordOutcome lg i \<lparr>ro_phase = PhaseCompleted, ro_payloadDigest = ie_payloadDigest entry, ro_verification = Some v,
                ro_failure = None, ro_links = links\<rparr> genesisAt recordedAt st of
           (Inr receipt, st') \<Rightarrow> (Inr (Some receipt), st')
         | (Inl (EffectLedgerError code reason), st') \<Rightarrow>
             (if reason \<noteq> ''outcome-conflict'' then Inl (EffectLedgerError code reason) else Inr None, st'))
      else (Inr None, st))"

definition reconcileEffect ::
    "effect_ledger \<Rightarrow> string \<Rightarrow> reconcile_options \<Rightarrow> string \<Rightarrow> string \<times> string \<Rightarrow> string \<times> string \<Rightarrow> reconcile_outcome ledger_op" where
  "reconcileEffect lg i options checkedAt times1 times2 =
     bindL (requireIntent lg i) (\<lambda>(indexKey, entry, intent).
     let run = runVerifier (en_hash (lg_env lg)) (rc_cleanEvidence options)
                 (map_of (rc_verifiers options) (ep_kind intent)) (rc_verifierVersion options)
                 (verifier_request_for intent entry (rc_expected options));
         v = run_verification run checkedAt in
     bindL (recordReconciled lg i v (rc_links options) (fst times1) (snd times1)) (\<lambda>receipt.
     bindL (returnL (checks [(\<not> schema_verifierResult (lg_env lg) (ep_effectId intent) (ep_kind intent) v,
                              integrityError ''schema-invalid:verifierResult'')])) (\<lambda>_.
     bindL (complete_if_present lg i entry v (rc_links options) (fst times2) (snd times2)) (\<lambda>completed.
       returnL (Inr \<lparr>rx_verification = v, rx_exitCode = EXIT_FOR_RESULT (ev_result v),
                     rx_receipt = receipt\<lparr>er_exitCode := EXIT_FOR_RESULT (ev_result v)\<rparr>, rx_completed = completed\<rparr>)))))"

section \<open>Lookup\<close>

record effect_summary =
  sm_phase :: effect_phase
  sm_writer :: string
  sm_seq :: nat
  sm_recordHash :: string
  sm_recordedAt :: string
  sm_payloadDigest :: string
  sm_keyid :: string
  sm_verification :: "effect_verification option"
  sm_failure :: "effect_failure option"
  sm_tombstone :: "effect_tombstone option"

datatype lookup_status = LookupNone | LookupIntent | LookupCompleted | LookupFailed | LookupReconciled | LookupTombstoned

record effect_lookup =
  lk_effectId :: string
  lk_found :: bool
  lk_status :: lookup_status
  lk_result :: "verification_result option"
  lk_kind :: "string option"
  lk_target :: "string option"
  lk_tombstoned :: bool
  lk_records :: "effect_summary list"
  lk_exitCode :: int

definition summarize :: "segment_line \<Rightarrow> effect_summary" where
  "summarize l =
     (let p = st_predicate (sl_statement l) in
      \<lparr>sm_phase = ep_phase p, sm_writer = sl_writer l, sm_seq = sl_seq l, sm_recordHash = sl_recordHash l,
       sm_recordedAt = ep_recordedAt p, sm_payloadDigest = ep_payloadDigest p, sm_keyid = sg_keyid (hd (sl_signatures l)),
       sm_verification = ep_verification p, sm_failure = ep_failure p, sm_tombstone = ep_tombstone p\<rparr>)"

text \<open>The verified lines of one segment that belong to the effect.\<close>

fun matching_lines ::
    "effect_ledger \<Rightarrow> effect_keyring \<Rightarrow> string \<Rightarrow> string \<Rightarrow> nat \<Rightarrow> string option \<Rightarrow> (string + segment_line) list \<Rightarrow>
     effect_error + segment_line list" where
  "matching_lines lg ring i writer index previous [] = Inr []"
| "matching_lines lg ring i writer index previous (Inl failure # ls) = Inl (integrityError failure)"
| "matching_lines lg ring i writer index previous (Inr l # ls) =
     (let failures = lineFailures (lg_env lg) ring (lg_scope lg) writer index l previous;
          mine = ep_effectId (st_predicate (sl_statement l)) = i in
      if mine \<and> failures \<noteq> [] then Inl (integrityError (hd failures))
      else bindR (matching_lines lg ring i writer (Suc index) (Some (sl_recordHash l)) ls)
             (\<lambda>rest. Inr (if mine then l # rest else rest)))"

definition lookup_none :: "string \<Rightarrow> effect_lookup" where
  "lookup_none i = \<lparr>lk_effectId = i, lk_found = False, lk_status = LookupNone, lk_result = None, lk_kind = None, lk_target = None,
     lk_tombstoned = False, lk_records = [], lk_exitCode = 3\<rparr>"

definition lookup_found ::
    "string \<Rightarrow> segment_line list \<Rightarrow> lookup_status \<Rightarrow> verification_result option \<Rightarrow> int \<Rightarrow> effect_lookup" where
  "lookup_found i ls status result exitCode =
     (let live = filter (\<lambda>p. ep_phase p \<noteq> PhaseTombstone) (map (st_predicate \<circ> sl_statement) ls) in
      \<lparr>lk_effectId = i, lk_found = True, lk_status = status, lk_result = result,
       lk_kind = Some (ep_kind (st_predicate (sl_statement (hd ls)))),
       lk_target = (case live of [] \<Rightarrow> None | p # _ \<Rightarrow> ep_target p),
       lk_tombstoned = list_ex (\<lambda>l. ep_phase (st_predicate (sl_statement l)) = PhaseTombstone) ls,
       lk_records = map summarize ls, lk_exitCode = exitCode\<rparr>)"

text \<open>The verdict over the records in merge order.\<close>

definition lookup_verdict :: "string \<Rightarrow> segment_line list \<Rightarrow> effect_lookup" where
  "lookup_verdict i ls =
     (let records = map summarize ls;
          outcomes = filter (\<lambda>r. sm_phase r \<in> {PhaseCompleted, PhaseFailed, PhaseReconciled}) records in
      if outcomes = [] then
        (if list_all (\<lambda>r. sm_phase r = PhaseTombstone) records then
           (let phases = map (\<lambda>r. et_originalPhase (the (sm_tombstone r))) records in
            lookup_found i ls LookupTombstoned None
              (if PhaseCompleted \<in> set phases then 0 else if PhaseFailed \<in> set phases then 3 else 4))
         else lookup_found i ls LookupIntent None 4)
      else
        (let latest = last outcomes in
         if sm_phase latest = PhaseCompleted then lookup_found i ls LookupCompleted (Some ResultPresent) 0
         else if sm_phase latest = PhaseFailed then lookup_found i ls LookupFailed None 3
         else (let result = ev_result (the (sm_verification latest)) in
               lookup_found i ls LookupReconciled (Some result) (EXIT_FOR_RESULT result))))"

definition lookupEffect :: "effect_ledger \<Rightarrow> string \<Rightarrow> effect_store \<Rightarrow> effect_error + effect_lookup" where
  "lookupEffect lg i st =
     thenR (assertEffectId i)
     (bindR (readKeyring st) (\<lambda>stored. case stored of
        None \<Rightarrow> Inr (lookup_none i)
      | Some ring \<Rightarrow>
          thenR (assertKeyring (lg_env lg) ring (Some (lg_scope lg)))
          (bindR (mapR (\<lambda>s. matching_lines lg ring i (rs_writer s) 0 None (rs_lines s)) (readAllSegments (lg_env lg) st))
            (\<lambda>found. let ls = js_sort (mergeOrder (lg_env lg)) (concat found) in
               Inr (if ls = [] then lookup_none i else lookup_verdict i ls)))))"

section \<open>Keyring operations\<close>

definition initLedgerKeyring :: "effect_ledger \<Rightarrow> string \<Rightarrow> string \<Rightarrow> effect_keyring ledger_op" where
  "initLedgerKeyring lg at_time now =
     bindL (prepareWrite lg) (\<lambda>_.
     bindL (returnL (lg_signingKey lg)) (\<lambda>key.
     bindL (ensureKeyring lg key at_time) (\<lambda>ring.
       returnL (thenR (assertSigningKeyActive lg ring key now) (Inr ring)))))"

definition readLedgerKeyring :: "effect_ledger \<Rightarrow> effect_store \<Rightarrow> effect_error + effect_keyring option" where
  "readLedgerKeyring lg st =
     bindR (readKeyring st) (\<lambda>stored. case stored of
       None \<Rightarrow> Inr None
     | Some ring \<Rightarrow> thenR (assertKeyring (lg_env lg) ring (Some (lg_scope lg))) (Inr (Some ring)))"

definition useKeyProvider :: "effect_error + signing_key \<Rightarrow> effect_ledger \<Rightarrow> effect_ledger" where
  "useKeyProvider provider lg = lg\<lparr>lg_signingKey := provider\<rparr>"

text \<open>The time at which the rotation takes effect is read before the lock of the keyring is taken.\<close>

definition rotateKey ::
    "effect_ledger \<Rightarrow> effect_error + signing_key \<Rightarrow> string \<Rightarrow> rotation_reason \<Rightarrow> (effect_keyring \<times> effect_ledger) ledger_op" where
  "rotateKey lg successorProvider effectiveAt reason =
     bindL (prepareWrite lg) (\<lambda>_.
     bindL (returnL (lg_signingKey lg)) (\<lambda>prior.
     bindL (returnL successorProvider) (\<lambda>successor.
     bindL (ensureKeyring lg prior effectiveAt) (\<lambda>current.
     bindL (returnL (rotateKeyring (lg_env lg) current prior successor effectiveAt reason)) (\<lambda>ring.
     bindL (returnL (assertEffectKeyring (lg_env lg) ring)) (\<lambda>_ st.
       (Inr (ring, useKeyProvider successorProvider lg), st\<lparr>fs_keyring := Some (KeyringFile ring)\<rparr>)))))))"

end
