(* ===== verification/EffectPurge.thy ===== *)
theory EffectPurge
  imports EffectOperations Lifecycle
begin

text \<open>
  Retention of effect records (\<open>src/effects/lifecycle.ts\<close>): a purge replaces the envelopes of an
  effect by signed tombstones, one segment after the other, each under the lock of its writer. The
  record hash of a tombstone is that of the record it replaces.
\<close>

definition EFFECT_RETENTION_POLICY :: string where
  "EFFECT_RETENTION_POLICY = ''decision-lifecycle/v1#receipt''"

record purge_result =
  pr_tombstoned :: nat
  pr_alreadyTombstoned :: nat

definition refused :: "string \<Rightarrow> effect_error" where
  "refused reason = EffectLedgerError CodePurgeRefused reason"

definition definitive :: "effect_summary \<Rightarrow> bool" where
  "definitive r \<longleftrightarrow>
     sm_phase r = PhaseCompleted \<or> sm_phase r = PhaseFailed
     \<or> (sm_phase r = PhaseReconciled \<and> \<not> opt_holds (\<lambda>v. ev_result v = ResultUnknown) (sm_verification r))
     \<or> (sm_phase r = PhaseTombstone
        \<and> opt_holds (\<lambda>t. et_originalPhase t = PhaseCompleted \<or> et_originalPhase t = PhaseFailed) (sm_tombstone r))"

definition live_records :: "effect_lookup \<Rightarrow> effect_summary list" where
  "live_records found = filter (\<lambda>r. sm_phase r \<noteq> PhaseTombstone) (lk_records found)"

text \<open>\<open>purgedAt - newest < retentionMs\<close>, false for a time that is NaN.\<close>

definition retention_open :: "effect_env \<Rightarrow> string \<Rightarrow> effect_summary list \<Rightarrow> int \<Rightarrow> bool" where
  "retention_open env purgedAt live retentionMs \<longleftrightarrow>
     (let times = map (\<lambda>r. en_time env (sm_recordedAt r)) live in
      None \<notin> set times
      \<and> opt_holds (\<lambda>t. t - foldr max (map the (tl times)) (the (hd times)) < retentionMs) (en_time env purgedAt))"

definition tombstone_statement :: "effect_statement \<Rightarrow> segment_line \<Rightarrow> string \<Rightarrow> effect_statement" where
  "tombstone_statement original l purgedAt =
     (let p = st_predicate original in
      \<lparr>st_name = ''aiwg-effect:'' @ ep_effectId p, st_sha256 = st_sha256 original,
       st_predicate = p
         \<lparr>ep_target := None, ep_context := None, ep_verification := None, ep_failure := None, ep_phase := PhaseTombstone,
          ep_tombstone := Some \<lparr>et_originalRecordHash = sl_recordHash l, et_originalKeyid = sg_keyid (hd (sl_signatures l)),
            et_originalPhase = ep_phase p, et_purgedAt = purgedAt, et_retentionPolicy = EFFECT_RETENTION_POLICY\<rparr>\<rparr>\<rparr>)"

text \<open>The lines after the purge and how many of them are new tombstones.\<close>

fun purge_lines ::
    "effect_ledger \<Rightarrow> effect_keyring \<Rightarrow> signing_key \<Rightarrow> string \<Rightarrow> string \<Rightarrow> string \<Rightarrow> nat \<Rightarrow> string option \<Rightarrow> line_text list \<Rightarrow>
     effect_error + line_text list \<times> nat" where
  "purge_lines lg ring key purgedAt i writer index previous [] = Inr ([], 0)"
| "purge_lines lg ring key purgedAt i writer index previous (t # ts) =
     (case decodeSegmentLine (lg_env lg) t of
        Inl failure \<Rightarrow> Inl (integrityError failure)
      | Inr l \<Rightarrow>
          (let failures = lineFailures (lg_env lg) ring (lg_scope lg) writer index l previous;
               original = sl_statement l in
           if failures \<noteq> [] then Inl (integrityError (hd failures))
           else bindR
             (if ep_effectId (st_predicate original) \<noteq> i \<or> ep_phase (st_predicate original) = PhaseTombstone then Inr (t, 0)
              else bindR (signSegmentLine (lg_env lg) (tombstone_statement original l purgedAt) key (Some (sl_recordHash l)))
                     (\<lambda>l'. Inr (LineText l', 1)))
             (\<lambda>(t', m).
               bindR (purge_lines lg ring key purgedAt i writer (Suc index) (Some (sl_recordHash l)) ts)
                 (\<lambda>(ts', n). Inr (t' # ts', m + n)))))"

definition purge_segment ::
    "effect_ledger \<Rightarrow> signing_key \<Rightarrow> string \<Rightarrow> string \<Rightarrow> string \<Rightarrow> nat ledger_op" where
  "purge_segment lg key purgedAt i writer st =
     (case bindR (storedKeyring lg st) (\<lambda>ring.
             thenR (assertSigningKeyActive lg ring key purgedAt)
             (case readSegment st writer of
                None \<Rightarrow> Inl (integrityError ''segment-torn'')
              | Some f \<Rightarrow>
                  if sf_torn f then Inl (integrityError ''segment-torn'')
                  else purge_lines lg ring key purgedAt i writer 0 None (sf_lines f))) of
        Inl e \<Rightarrow> (Inl e, st)
      | Inr (ts, n) \<Rightarrow> (Inr n, if n = 0 then st else replaceSegment writer ts st))"

fun purge_segments ::
    "effect_ledger \<Rightarrow> signing_key \<Rightarrow> string \<Rightarrow> string \<Rightarrow> string list \<Rightarrow> nat ledger_op" where
  "purge_segments lg key purgedAt i [] = returnL (Inr 0)"
| "purge_segments lg key purgedAt i (w # ws) =
     bindL (purge_segment lg key purgedAt i w) (\<lambda>m.
     bindL (purge_segments lg key purgedAt i ws) (\<lambda>n. returnL (Inr (m + n))))"

definition purgeEffect ::
    "effect_ledger \<Rightarrow> string \<Rightarrow> lifecycle_policy \<Rightarrow> bool \<Rightarrow> string \<Rightarrow> purge_result ledger_op" where
  "purgeEffect lg i lifecycle legalHold purgedAt =
     bindL (returnL (assertEffectId i)) (\<lambda>_.
     bindL (returnL (mapErr (\<lambda>_. usageError ''lifecycle-invalid'') (validateDecisionLifecyclePolicy lifecycle))) (\<lambda>_.
     bindL (returnL (checks [(legalHold, refused ''legal-hold'')])) (\<lambda>_.
     bindL (\<lambda>st. (lookupEffect lg i st, st)) (\<lambda>found.
     bindL (returnL (checks [(\<not> lk_found found, usageError ''effect-not-found'')])) (\<lambda>_.
     let live = live_records found; already = length (lk_records found) - length live;
         retentionMs = lr_retentionMs (the (map_of (lp_surfaces lifecycle) ''receipt'')) in
     if live = [] then returnL (Inr \<lparr>pr_tombstoned = 0, pr_alreadyTombstoned = already\<rparr>)
     else
       bindL (returnL (checks
         [(\<not> list_ex definitive (lk_records found), refused ''unreconciled-intent''),
          (retention_open (lg_env lg) purgedAt live retentionMs, refused ''retention-not-elapsed'')])) (\<lambda>_.
       bindL (returnL (lg_signingKey lg)) (\<lambda>key.
       bindL (purge_segments lg key purgedAt i (sort (remdups (map sm_writer live)))) (\<lambda>n.
         returnL (Inr \<lparr>pr_tombstoned = n, pr_alreadyTombstoned = already\<rparr>)))))))))"

end
