(* ===== verification/EffectVerify.thy ===== *)
theory EffectVerify
  imports EffectOperations
begin

text \<open>
  The verification of a whole ledger (\<open>src/effects/verify.ts\<close>): the keyring, every line of every
  segment, the agreement of index and segments, the chain of local checkpoints and the latest
  checkpoint of the independent sink; and checkpoints themselves (\<open>src/effects/checkpoint.ts\<close>). The
  sink is what its \<open>latest\<close> returned, or that it threw.
\<close>

section \<open>Failures\<close>

record ledger_failure =
  fl_reason :: string
  fl_writer :: "string option"
  fl_seq :: "nat option"
  fl_checkpoint :: "nat option"

datatype ledger_warning =
  PendingAppend string nat | LedgerEmpty | SinkUnreadable | LocalCheckpointBehind | NoCheckpoint

definition ledger_failure_at :: "string \<Rightarrow> string \<Rightarrow> nat \<Rightarrow> ledger_failure" where
  "ledger_failure_at reason writer seq =
     \<lparr>fl_reason = reason, fl_writer = Some writer, fl_seq = Some seq, fl_checkpoint = None\<rparr>"

definition whole_failure :: "string \<Rightarrow> ledger_failure" where
  "whole_failure reason = \<lparr>fl_reason = reason, fl_writer = None, fl_seq = None, fl_checkpoint = None\<rparr>"

definition checkpoint_failure_at :: "string \<Rightarrow> nat \<Rightarrow> ledger_failure" where
  "checkpoint_failure_at reason sequence =
     \<lparr>fl_reason = reason, fl_writer = None, fl_seq = None, fl_checkpoint = Some sequence\<rparr>"

definition anchor_failure :: "string \<Rightarrow> string \<Rightarrow> nat \<Rightarrow> ledger_failure" where
  "anchor_failure reason writer sequence =
     \<lparr>fl_reason = reason, fl_writer = Some writer, fl_seq = None, fl_checkpoint = Some sequence\<rparr>"

section \<open>Segments\<close>

fun verify_lines ::
    "effect_env \<Rightarrow> effect_keyring \<Rightarrow> effect_scope \<Rightarrow> string \<Rightarrow> nat \<Rightarrow> string option \<Rightarrow> (string + segment_line) list \<Rightarrow>
     ledger_failure list" where
  "verify_lines env ring scope writer index previous [] = []"
| "verify_lines env ring scope writer index previous (Inl failure # ls) =
     ledger_failure_at failure writer index # verify_lines env ring scope writer (Suc index) None ls"
| "verify_lines env ring scope writer index previous (Inr l # ls) =
     map (\<lambda>reason. ledger_failure_at reason writer index) (lineFailures env ring scope writer index l previous)
     @ verify_lines env ring scope writer (Suc index) (Some (sl_recordHash l)) ls"

definition verifySegments ::
    "effect_env \<Rightarrow> effect_keyring \<Rightarrow> effect_scope \<Rightarrow> read_segment list \<Rightarrow> ledger_failure list \<times> nat" where
  "verifySegments env ring scope segments =
     (concat (map (\<lambda>s. push_if (rs_torn s) (ledger_failure_at ''segment-torn'' (rs_writer s) (length (rs_lines s) - 1))
        @ verify_lines env ring scope (rs_writer s) 0 None (rs_lines s)) segments),
      sum_list (map (length \<circ> rs_lines) segments))"

section \<open>Index\<close>

definition original_phase :: "effect_predicate \<Rightarrow> effect_phase" where
  "original_phase p = (if ep_phase p = PhaseTombstone then et_originalPhase (the (ep_tombstone p)) else ep_phase p)"

definition find_segment :: "read_segment list \<Rightarrow> string \<Rightarrow> read_segment option" where
  "find_segment segments writer = find (\<lambda>s. rs_writer s = writer) segments"

datatype entry_verdict = EntryFails string | EntryPending | EntryClaims

definition entry_verdict_for :: "effect_ledger \<Rightarrow> string \<Rightarrow> effect_store \<Rightarrow> read_segment list \<Rightarrow> string \<times> index_entry \<Rightarrow> entry_verdict" where
  "entry_verdict_for lg key st segments n =
     (case n of (name, e) \<Rightarrow>
        if name \<noteq> indexName (lg_hmac lg) key (lg_scope lg) (ie_effectId e) (ie_role e) then EntryFails ''index-name-mismatch''
        else case find_segment segments (ie_writer e) of
          None \<Rightarrow>
            if opt_holds (\<lambda>p. pa_indexName p = name) (readPending st (ie_writer e)) then EntryPending else EntryFails ''index-dangling''
        | Some s \<Rightarrow>
            if length (rs_lines s) \<le> ie_seq e then
              (if opt_holds (\<lambda>p. pa_indexName p = name) (readPending st (ie_writer e)) then EntryPending
               else EntryFails ''index-dangling'')
            else case rs_lines s ! ie_seq e of
              Inl _ \<Rightarrow> EntryFails ''index-segment-mismatch''
            | Inr l \<Rightarrow>
                (let p = st_predicate (sl_statement l); phase = original_phase p in
                 if ep_effectId p \<noteq> ie_effectId e \<or> sl_recordHash l \<noteq> ie_recordHash e
                   \<or> ep_payloadDigest p \<noteq> ie_payloadDigest e \<or> phase \<noteq> ie_phase e
                   \<or> (ie_role e = RoleIntent) \<noteq> (phase = PhaseIntent)
                 then EntryFails ''index-segment-mismatch'' else EntryClaims))"

text \<open>The lines that an index entry must claim.\<close>

fun unclaimed :: "(string \<times> nat) list \<Rightarrow> string \<Rightarrow> nat \<Rightarrow> (string + segment_line) list \<Rightarrow> ledger_failure list" where
  "unclaimed claimed writer index [] = []"
| "unclaimed claimed writer index (Inl _ # ls) = unclaimed claimed writer (Suc index) ls"
| "unclaimed claimed writer index (Inr l # ls) =
     push_if (original_phase (st_predicate (sl_statement l)) \<in> {PhaseIntent, PhaseCompleted, PhaseFailed}
              \<and> (writer, index) \<notin> set claimed) (ledger_failure_at ''index-missing'' writer index)
     @ unclaimed claimed writer (Suc index) ls"

definition verifyIndex :: "effect_ledger \<Rightarrow> effect_store \<Rightarrow> read_segment list \<Rightarrow> ledger_failure list \<times> ledger_warning list" where
  "verifyIndex lg st segments =
     (case fs_indexKey st of
        None \<Rightarrow> (push_if (list_ex (\<lambda>s. rs_lines s \<noteq> []) segments) (whole_failure ''index-key-missing''), [])
      | Some key \<Rightarrow>
          if \<not> index_key_text key then ([whole_failure ''index-key-malformed''], [])
          else case listIndexEntries st of
            Inl _ \<Rightarrow> ([whole_failure ''index-entry-malformed''], [])
          | Inr entries \<Rightarrow>
              (let verdict = entry_verdict_for lg key st segments;
                   claimed = map (\<lambda>(_, e). (ie_writer e, ie_seq e)) (filter (\<lambda>n. verdict n = EntryClaims) entries) in
               (concat (map (\<lambda>(name, e). case verdict (name, e) of
                    EntryFails reason \<Rightarrow> [ledger_failure_at reason (ie_writer e) (ie_seq e)] | _ \<Rightarrow> []) entries)
                @ concat (map (\<lambda>s. unclaimed claimed (rs_writer s) 0 (rs_lines s)) segments),
                map (\<lambda>(_, e). PendingAppend (ie_writer e) (ie_seq e)) (filter (\<lambda>n. verdict n = EntryPending) entries))))"

section \<open>Checkpoints\<close>

text \<open>The keys in the order of the rotations, the first key first; each prefix with its last key as it
  stood before it was retired.\<close>

definition key_chain :: "effect_keyring \<Rightarrow> keyring_key list" where
  "key_chain ring = hd (genesis_keys ring) # map (\<lambda>r. the (find_key ring (rb_to (kr_body r)))) (ky_rotations ring)"

definition reopened :: "keyring_key \<Rightarrow> keyring_key" where
  "reopened k = (if kk_status k = KeyRevoked then k else k\<lparr>kk_validUntil := None, kk_status := KeyActive\<rparr>)"

definition keyring_prefix :: "effect_keyring \<Rightarrow> nat \<Rightarrow> effect_keyring" where
  "keyring_prefix ring n =
     (let keys = take (Suc n) (key_chain ring) in
      ring\<lparr>ky_keys := (if n < length (ky_rotations ring) then butlast keys @ [reopened (last keys)] else keys),
           ky_rotations := take n (ky_rotations ring)\<rparr>)"

definition keyringPrefixDigests :: "effect_env \<Rightarrow> effect_keyring \<Rightarrow> string list" where
  "keyringPrefixDigests env ring =
     map (\<lambda>n. en_keyringDigest env (keyring_prefix ring n)) [0..<length (key_chain ring)]"

fun checkpoint_signature_failure ::
    "effect_env \<Rightarrow> effect_keyring \<Rightarrow> signed_payload \<Rightarrow> string \<Rightarrow> effect_signature list \<Rightarrow> string option" where
  "checkpoint_signature_failure env ring payload at_time ss =
     (case signature_failure env ring payload at_time ss of [] \<Rightarrow> None | reason # _ \<Rightarrow> Some (''checkpoint-'' @ reason))"

definition checkpointFailure ::
    "effect_env \<Rightarrow> effect_checkpoint option \<Rightarrow> effect_keyring \<Rightarrow> effect_scope \<Rightarrow> string option" where
  "checkpointFailure env checkpoint ring scope =
     (case checkpoint of
        None \<Rightarrow> Some ''checkpoint-schema-invalid''
      | Some c \<Rightarrow>
          (let b = cp_body c in
           if \<not> schema_checkpoint env c then Some ''checkpoint-schema-invalid''
           else if cb_scope b \<noteq> scope then Some ''checkpoint-scope-mismatch''
           else if \<not> sorted_wrt (<) (map cw_writer (cb_writers b)) then Some ''checkpoint-writers-unsorted''
           else if list_ex (\<lambda>w. cw_segment w \<noteq> segment_path (cw_writer w)) (cb_writers b) then Some ''checkpoint-segment-path''
           else if cb_root b \<noteq> en_writersDigest env (cb_writers b) then Some ''checkpoint-root-mismatch''
           else if cb_keyringDigest b \<notin> set (keyringPrefixDigests env ring) then Some ''checkpoint-keyring-mismatch''
           else checkpoint_signature_failure env ring (CheckpointPayload b) (cb_createdAt b) (cp_signatures c)))"

definition readLocalCheckpoints :: "effect_store \<Rightarrow> (nat \<times> effect_checkpoint option) list" where
  "readLocalCheckpoints st = sort_key fst (fs_checkpoints st)"

text \<open>The local chain: the failures and the last checkpoint, which a failing one resets. A
  previous file that does not parse has no digest.\<close>

fun local_chain ::
    "effect_env \<Rightarrow> effect_keyring \<Rightarrow> effect_scope \<Rightarrow> nat \<Rightarrow> (effect_checkpoint option) option \<Rightarrow> effect_checkpoint option \<Rightarrow>
     (nat \<times> effect_checkpoint option) list \<Rightarrow> ledger_failure list \<times> effect_checkpoint option" where
  "local_chain env ring scope position previous local [] = ([], local)"
| "local_chain env ring scope position previous local ((sequence, value) # cs) =
     (case checkpointFailure env value ring scope of
        Some failure \<Rightarrow>
          (case local_chain env ring scope (Suc position) (Some value) None cs of
             (fs, final) \<Rightarrow> (checkpoint_failure_at failure sequence # fs, final))
      | None \<Rightarrow>
          (let c = the value;
               expected = (case previous of Some (Some p) \<Rightarrow> Some (en_checkpointDigest env p) | _ \<Rightarrow> None) in
           case local_chain env ring scope (Suc position) (Some value) value cs of
             (fs, final) \<Rightarrow>
               (push_if (cb_sequence (cp_body c) \<noteq> sequence \<or> sequence \<noteq> position)
                  (checkpoint_failure_at ''checkpoint-sequence-gap'' sequence)
                @ push_if (expected \<noteq> cb_previousCheckpoint (cp_body c)) (checkpoint_failure_at ''checkpoint-chain-broken'' sequence)
                @ fs, final)))"

datatype checkpoint_source = FromSink | FromLocal

datatype sink_answer = SinkSkipped | SinkThrew | SinkLatest "effect_checkpoint option"

definition sink_check ::
    "effect_env \<Rightarrow> effect_keyring \<Rightarrow> effect_scope \<Rightarrow> (nat \<times> effect_checkpoint option) list \<Rightarrow> effect_checkpoint option \<Rightarrow>
     sink_answer \<Rightarrow> ledger_failure list \<times> ledger_warning list \<times> (effect_checkpoint \<times> checkpoint_source) option" where
  "sink_check env ring scope locals local sink =
     (let kept = map_option (\<lambda>c. (c, FromLocal)) local in
      case sink of
        SinkSkipped \<Rightarrow> ([], [], kept)
      | SinkThrew \<Rightarrow> ([], [SinkUnreadable], kept)
      | SinkLatest None \<Rightarrow> (push_if (locals \<noteq> []) (whole_failure ''checkpoint-sink-missing''), [], kept)
      | SinkLatest (Some remote) \<Rightarrow>
          (let sequence = cb_sequence (cp_body remote) in
           case checkpointFailure env (Some remote) ring scope of
             Some failure \<Rightarrow> ([checkpoint_failure_at (''sink-'' @ failure) sequence], [], kept)
           | None \<Rightarrow>
               (let sameLocal = (case find (\<lambda>(n, _). n = sequence) locals of Some (_, Some c) \<Rightarrow> Some c | _ \<Rightarrow> None);
                    ahead = (case local of None \<Rightarrow> True | Some c \<Rightarrow> cb_sequence (cp_body c) < sequence) in
                (push_if (opt_holds (\<lambda>c. en_checkpointDigest env c \<noteq> en_checkpointDigest env remote) sameLocal)
                   (checkpoint_failure_at ''checkpoint-divergence'' sequence)
                 @ push_if (opt_holds (\<lambda>c. sequence < cb_sequence (cp_body c)) local)
                     (checkpoint_failure_at ''checkpoint-sink-behind'' sequence),
                 push_if (ahead \<and> sameLocal = None) LocalCheckpointBehind,
                 if ahead \<or> opt_holds (\<lambda>c. cb_sequence (cp_body c) = sequence) local then Some (remote, FromSink) else kept))))"

text \<open>The anchored heads. \<open>segment.lines[entry.count - 1]\<close> exists: the schema asks for a positive count.\<close>

definition head_check :: "read_segment list \<Rightarrow> nat \<Rightarrow> checkpoint_writer \<Rightarrow> ledger_failure list" where
  "head_check segments sequence w =
     (let failure = (\<lambda>reason. [anchor_failure reason (cw_writer w) sequence]) in
      case find_segment segments (cw_writer w) of
        None \<Rightarrow> failure ''segment-missing''
      | Some s \<Rightarrow>
          if (if rs_torn s then length (rs_lines s) - 1 else length (rs_lines s)) < cw_count w then failure ''segment-truncated''
          else case rs_lines s ! (cw_count w - 1) of
            Inl _ \<Rightarrow> failure ''checkpoint-head-mismatch''
          | Inr l \<Rightarrow> if sl_recordHash l \<noteq> cw_headHash w then failure ''checkpoint-head-mismatch'' else [])"

definition anchor_check :: "read_segment list \<Rightarrow> effect_checkpoint \<Rightarrow> ledger_failure list" where
  "anchor_check segments c = concat (map (head_check segments (cb_sequence (cp_body c))) (cb_writers (cp_body c)))"

section \<open>The whole ledger\<close>

record ledger_verification =
  lv_ok :: bool
  lv_exitCode :: int
  lv_records :: nat
  lv_writers :: "(string \<times> nat \<times> string option) list"
  lv_checkpoint :: "(nat \<times> checkpoint_source \<times> string) option"
  lv_failures :: "ledger_failure list"
  lv_warnings :: "ledger_warning list"

record verify_options =
  vy_sink :: sink_answer
  vy_checkIndex :: bool
  vy_trustedKeyids :: "string list option"

definition segment_summary :: "read_segment \<Rightarrow> string \<times> nat \<times> string option" where
  "segment_summary s =
     (rs_writer s, length (rs_lines s),
      if rs_lines s = [] then None else case last (rs_lines s) of Inl _ \<Rightarrow> None | Inr l \<Rightarrow> Some (sl_recordHash l))"

definition ledger_result ::
    "read_segment list \<Rightarrow> nat \<Rightarrow> (nat \<times> checkpoint_source \<times> string) option \<Rightarrow> ledger_failure list \<Rightarrow> ledger_warning list \<Rightarrow>
     ledger_verification" where
  "ledger_result segments records checkpoint failures warnings =
     \<lparr>lv_ok = (failures = []), lv_exitCode = (if failures = [] then 0 else 6), lv_records = records,
      lv_writers = map segment_summary segments, lv_checkpoint = checkpoint, lv_failures = failures, lv_warnings = warnings\<rparr>"

definition verify_with_keyring ::
    "effect_ledger \<Rightarrow> verify_options \<Rightarrow> effect_store \<Rightarrow> read_segment list \<Rightarrow> effect_keyring \<Rightarrow> ledger_verification" where
  "verify_with_keyring lg options st segments ring =
     (let env = lg_env lg; scope = lg_scope lg; locals = readLocalCheckpoints st in
      case verifySegments env ring scope segments of (segmentFailures, records) \<Rightarrow>
      case (if vy_checkIndex options then verifyIndex lg st segments else ([], [])) of (indexFailures, indexWarnings) \<Rightarrow>
      case local_chain env ring scope 0 None None locals of (localFailures, local) \<Rightarrow>
      case sink_check env ring scope locals local (vy_sink options) of (sinkFailures, sinkWarnings, anchor) \<Rightarrow>
        ledger_result segments records
          (map_option (\<lambda>(c, source). (cb_sequence (cp_body c), source, en_checkpointDigest env c)) anchor)
          (push_if (opt_holds (\<lambda>trusted. kk_keyid (hd (genesis_keys ring)) \<notin> set trusted) (vy_trustedKeyids options))
             (whole_failure ''keyring-untrusted'')
           @ segmentFailures @ indexFailures @ localFailures @ sinkFailures
           @ (case anchor of None \<Rightarrow> [] | Some (c, _) \<Rightarrow> anchor_check segments c))
          (indexWarnings @ sinkWarnings @ push_if (anchor = None) NoCheckpoint))"

definition verifyLedger :: "effect_ledger \<Rightarrow> verify_options \<Rightarrow> effect_store \<Rightarrow> ledger_verification" where
  "verifyLedger lg options st =
     (let segments = readAllSegments (lg_env lg) st in
      case readKeyring st of
        Inl _ \<Rightarrow> ledger_result segments 0 None [whole_failure ''keyring-malformed''] []
      | Inr None \<Rightarrow>
          if list_ex (\<lambda>s. rs_lines s \<noteq> []) segments \<or> readLocalCheckpoints st \<noteq> []
          then ledger_result segments 0 None [whole_failure ''keyring-missing''] []
          else ledger_result segments 0 None [] [LedgerEmpty]
      | Inr (Some ring) \<Rightarrow>
          (case keyringFailure (lg_env lg) ring (Some (lg_scope lg)) of
             Some failure \<Rightarrow> ledger_result segments 0 None [whole_failure failure] []
           | None \<Rightarrow> verify_with_keyring lg options st segments ring))"

section \<open>Writing a checkpoint\<close>

definition checkpoint_writers :: "read_segment list \<Rightarrow> checkpoint_writer list" where
  "checkpoint_writers segments =
     map (\<lambda>s. \<lparr>cw_writer = rs_writer s, cw_segment = segment_path (rs_writer s), cw_count = length (rs_lines s),
                cw_headHash = (case last (rs_lines s) of Inr l \<Rightarrow> sl_recordHash l | Inl _ \<Rightarrow> [])\<rparr>)
       (filter (\<lambda>s. rs_lines s \<noteq> []) segments)"

text \<open>The later of the last local checkpoint and that of the sink; the local one of two alike.\<close>

definition previous_checkpoint :: "effect_checkpoint option \<Rightarrow> effect_checkpoint option \<Rightarrow> effect_checkpoint option" where
  "previous_checkpoint local remote =
     (case (local, remote) of
        (Some a, Some b) \<Rightarrow> Some (if cb_sequence (cp_body a) < cb_sequence (cp_body b) then b else a)
      | (Some a, None) \<Rightarrow> Some a
      | (None, r) \<Rightarrow> r)"

definition next_checkpoint ::
    "effect_ledger \<Rightarrow> effect_keyring \<Rightarrow> signing_key \<Rightarrow> string \<Rightarrow> checkpoint_writer list \<Rightarrow> effect_checkpoint option \<Rightarrow> effect_checkpoint" where
  "next_checkpoint lg ring key createdAt writers previous =
     (let body = \<lparr>cb_scope = lg_scope lg, cb_sequence = (case previous of None \<Rightarrow> 0 | Some p \<Rightarrow> cb_sequence (cp_body p) + 1),
            cb_createdAt = createdAt, cb_writers = writers, cb_root = en_writersDigest (lg_env lg) writers,
            cb_keyringDigest = en_keyringDigest (lg_env lg) ring,
            cb_previousCheckpoint = map_option (en_checkpointDigest (lg_env lg)) previous\<rparr>
      in \<lparr>cp_body = body, cp_signatures = [\<lparr>sg_keyid = sk_keyid key, sg_sig = sk_signPae key (CheckpointPayload body)\<rparr>]\<rparr>)"

definition publish_checkpoint :: "effect_checkpoint \<Rightarrow> effect_checkpoint ledger_op" where
  "publish_checkpoint c st =
     (if has_key (fs_checkpoints st) (cb_sequence (cp_body c)) then (Inl (integrityError ''checkpoint-sequence-exists''), st)
      else (Inr c, st\<lparr>fs_checkpoints := fs_checkpoints st @ [(cb_sequence (cp_body c), Some c)]\<rparr>))"

text \<open>\<open>publish\<close> is the operation of the sink, which may refuse; it has published before the local file is.\<close>

definition writeCheckpoint ::
    "effect_ledger \<Rightarrow> sink_answer \<Rightarrow> effect_error + effect_checkpoint option \<Rightarrow> (effect_checkpoint \<Rightarrow> effect_error + unit) \<Rightarrow>
     string \<Rightarrow> effect_checkpoint ledger_op" where
  "writeCheckpoint lg sink latest publish createdAt =
     bindL (returnL (lg_signingKey lg)) (\<lambda>key.
     bindL (\<lambda>st. (let v = verifyLedger lg \<lparr>vy_sink = sink, vy_checkIndex = True, vy_trustedKeyids = None\<rparr> st in
       checks [(lv_failures v \<noteq> [], integrityError (fl_reason (hd (lv_failures v)))),
               (SinkUnreadable \<in> set (lv_warnings v), EffectLedgerError CodeInternal ''checkpoint-sink-unavailable'')], st)) (\<lambda>_.
     bindL (\<lambda>st. (storedKeyring lg st, st)) (\<lambda>ring.
     bindL (returnL (assertSigningKeyActive lg ring key createdAt)) (\<lambda>_ st.
       let writers = checkpoint_writers (readAllSegments (lg_env lg) st);
           locals = readLocalCheckpoints st;
           local = (if locals = [] then None else snd (last locals)) in
       bindL (returnL (checks [(writers = [], usageError ''nothing-to-checkpoint'')])) (\<lambda>_.
       bindL (returnL latest) (\<lambda>remote.
       let c = next_checkpoint lg ring key createdAt writers (previous_checkpoint local remote) in
       bindL (returnL (checks [(\<not> schema_checkpoint (lg_env lg) c, integrityError ''schema-invalid:checkpoint'')])) (\<lambda>_.
       bindL (returnL (publish c)) (\<lambda>_. publish_checkpoint c)))) st))))"

end
