(* ===== verification/EffectWorld.thy ===== *)
theory EffectWorld
  imports EffectPurge EffectVerify
begin

text \<open>
  Writers that share an effect ledger. Each writer has a lock and so at most one append, which the
  steps of \<open>append_step\<close> advance; the steps of different writers come in any order, an append may
  stop for ever between two steps, and the write of a line may stop in the middle of it, which
  leaves a torn segment. Between them keys are created and rotated and records are purged. Segments
  stay below 2^53 lines, up to where the numbers of lines are exact.
\<close>

section \<open>Lines\<close>

definition complete_lines :: "segment_file \<Rightarrow> line_text list" where
  "complete_lines f = (if sf_torn f then butlast (sf_lines f) else sf_lines f)"

definition lines_of :: "effect_store \<Rightarrow> string \<Rightarrow> line_text list" where
  "lines_of st w = (case readSegment st w of None \<Rightarrow> [] | Some f \<Rightarrow> complete_lines f)"

definition torn :: "effect_store \<Rightarrow> string \<Rightarrow> bool" where
  "torn st w \<longleftrightarrow> opt_holds sf_torn (readSegment st w)"

definition tear :: "string \<Rightarrow> line_text \<Rightarrow> effect_store \<Rightarrow> effect_store" where
  "tear w t st = st\<lparr>fs_segments := put_file w \<lparr>sf_lines = lines_of st w @ [t], sf_torn = True\<rparr> (fs_segments st)\<rparr>"

section \<open>Keys and jobs\<close>

text \<open>A signing key (\<open>LedgerSigningKey\<close>): its public key is in the format of the schema, its fingerprint is its
  id, and what it signs verifies.\<close>

definition lawful_key :: "effect_env \<Rightarrow> signing_key \<Rightarrow> bool" where
  "lawful_key env k \<longleftrightarrow>
     en_publicKeyFormat env (sk_publicKey k)
     \<and> map_option (\<lambda>f. ''sha256:'' @ f) (en_fingerprint env (sk_publicKey k)) = Some (sk_keyid k)
     \<and> (\<forall>p. en_verify env (sk_publicKey k) p (sk_signPae k p))"

fun role_of_phase :: "effect_phase \<Rightarrow> index_role option" where
  "role_of_phase PhaseIntent = Some RoleIntent"
| "role_of_phase PhaseCompleted = Some RoleOutcome"
| "role_of_phase PhaseFailed = Some RoleOutcome"
| "role_of_phase _ = None"

text \<open>What the plans of the operations build: a record of their effect, in the place they are given.\<close>

definition plan_ok :: "effect_ledger \<Rightarrow> string \<Rightarrow> append_job \<Rightarrow> bool" where
  "plan_ok lg w job \<longleftrightarrow>
     (\<forall>seq prev t. let p = aj_build job seq prev t in
        ep_effectId p = aj_effectId job \<and> ep_writer p = w \<and> ep_seq p = seq \<and> ep_prev p = prev \<and> ep_recordedAt p = t
        \<and> ep_scope p = lg_scope lg \<and> effectIdBindingHolds (lg_env lg) p
        \<and> ep_phase p \<noteq> PhaseTombstone \<and> role_of_phase (ep_phase p) = aj_role job)"

definition job_ok :: "effect_ledger \<Rightarrow> string \<Rightarrow> string \<Rightarrow> append_job \<Rightarrow> bool" where
  "job_ok lg key w job \<longleftrightarrow> aj_indexKey job = key \<and> lawful_key (lg_env lg) (aj_key job) \<and> plan_ok lg w job"

section \<open>Steps\<close>

record ledger_world =
  lw_store :: effect_store
  lw_appends :: "string \<Rightarrow> (append_job \<times> append_pc) option"

definition with_writer :: "effect_ledger \<Rightarrow> string \<Rightarrow> effect_ledger" where
  "with_writer lg w = lg\<lparr>lg_writer := w\<rparr>"

definition small_segments :: "effect_store \<Rightarrow> bool" where
  "small_segments st \<longleftrightarrow> (\<forall>w. int (length (lines_of st w)) < max_safe_integer)"

text \<open>The statement that an append has just signed. The statements of a run belong to \<open>S\<close>.\<close>

fun signs :: "append_pc \<Rightarrow> effect_statement set" where
  "signs (AppendClaim l _ _) = {sl_statement l}"
| "signs (AppendWrite l _) = {sl_statement l}"
| "signs _ = {}"

text \<open>The steps that write a line to the segment: the repair of a pending append and the append itself.\<close>

fun writes_line :: "effect_store \<Rightarrow> string \<Rightarrow> append_pc \<Rightarrow> bool" where
  "writes_line st w AppendRepair \<longleftrightarrow> readPending st w \<noteq> None"
| "writes_line st w (AppendWrite _ _) \<longleftrightarrow> True"
| "writes_line st w _ \<longleftrightarrow> False"

inductive ledger_step ::
    "effect_statement set \<Rightarrow> effect_ledger \<Rightarrow> string \<Rightarrow> ledger_world \<Rightarrow> ledger_world \<Rightarrow> bool" for S lg key where
  begin_append: "lw_appends u w = None \<Longrightarrow> job_ok lg key w job \<Longrightarrow>
      ledger_step S lg key u (u\<lparr>lw_appends := (lw_appends u)(w \<mapsto> (job, AppendStart))\<rparr>)"
| advance: "lw_appends u w = Some (job, pc) \<Longrightarrow> append_result pc = None \<Longrightarrow> small_segments (lw_store u) \<Longrightarrow>
      append_step (with_writer lg w) job pc (lw_store u) = (pc', st) \<Longrightarrow> signs pc' \<subseteq> S \<Longrightarrow>
      ledger_step S lg key u (u\<lparr>lw_store := st, lw_appends := (lw_appends u)(w \<mapsto> (job, pc'))\<rparr>)"
| leave: "ledger_step S lg key u (u\<lparr>lw_appends := (lw_appends u)(w := None)\<rparr>)"
| tear_line: "lw_appends u w = Some (job, pc) \<Longrightarrow> writes_line (lw_store u) w pc \<Longrightarrow> \<not> torn (lw_store u) w \<Longrightarrow>
      ledger_step S lg key u (u\<lparr>lw_store := tear w t (lw_store u), lw_appends := (lw_appends u)(w := None)\<rparr>)"
| create_keyring: "lawful_key (lg_env lg) k \<Longrightarrow> ensureKeyring lg k at_time (lw_store u) = (r, st) \<Longrightarrow>
      ledger_step S lg key u (u\<lparr>lw_store := st\<rparr>)"
| rotate: "readKeyring (lw_store u) = Inr (Some ring) \<Longrightarrow>
      rotateKeyring (lg_env lg) ring prior successor effectiveAt reason = Inr ring' \<Longrightarrow>
      ledger_step S lg key u (u\<lparr>lw_store := (lw_store u)\<lparr>fs_keyring := Some (KeyringFile ring')\<rparr>\<rparr>)"
| purge: "lw_appends u w = None \<Longrightarrow> lawful_key (lg_env lg) k \<Longrightarrow>
      purge_segment lg k purgedAt i w (lw_store u) = (r, st) \<Longrightarrow>
      ledger_step S lg key u (u\<lparr>lw_store := st\<rparr>)"

inductive ledger_run ::
    "effect_statement set \<Rightarrow> effect_ledger \<Rightarrow> string \<Rightarrow> ledger_world \<Rightarrow> ledger_world \<Rightarrow> bool" for S lg key where
  ledger_start: "ledger_run S lg key u u"
| ledger_next: "ledger_run S lg key u v \<Longrightarrow> ledger_step S lg key v x \<Longrightarrow> ledger_run S lg key u x"

definition empty_ledger :: "string \<Rightarrow> ledger_world" where
  "empty_ledger key =
     \<lparr>lw_store = \<lparr>fs_segments = [], fs_pending = [], fs_index = [], fs_keyring = None, fs_indexKey = Some key, fs_checkpoints = []\<rparr>,
      lw_appends = (\<lambda>_. None)\<rparr>"

section \<open>What a step writes\<close>

lemma readSegment_put [simp]:
  "readSegment (st\<lparr>fs_segments := put_file w f (fs_segments st)\<rparr>) v = (if v = w then Some f else readSegment st v)"
  by (simp add: readSegment_def put_file_def update_conv)

lemma lines_append [simp]:
  "\<not> torn st w \<Longrightarrow> lines_of (appendSegmentLine w t st) v = (if v = w then lines_of st w @ [t] else lines_of st v)"
  by (auto simp: lines_of_def appendSegmentLine_def appended_def torn_def complete_lines_def split: option.split)

lemma torn_append [simp]: "torn (appendSegmentLine w t st) v \<longleftrightarrow> v \<noteq> w \<and> torn st v"
  by (auto simp: torn_def appendSegmentLine_def appended_def split: option.split)

lemma lines_tear [simp]: "lines_of (tear w t st) v = lines_of st v"
  by (auto simp: lines_of_def tear_def complete_lines_def split: option.split)

lemma lines_replace [simp]: "lines_of (replaceSegment w ts st) v = (if v = w then ts else lines_of st v)"
  by (auto simp: lines_of_def replaceSegment_def complete_lines_def)

lemma torn_replace [simp]: "torn (replaceSegment w ts st) v \<longleftrightarrow> v \<noteq> w \<and> torn st v"
  by (auto simp: torn_def replaceSegment_def)

lemma lines_other [simp]:
  "lines_of (writePending w p st) = lines_of st" "lines_of (clearPending w st) = lines_of st"
  "lines_of (st\<lparr>fs_index := d\<rparr>) = lines_of st" "lines_of (st\<lparr>fs_keyring := k\<rparr>) = lines_of st"
  by (auto simp: lines_of_def readSegment_def writePending_def clearPending_def fun_eq_iff)

lemma torn_other [simp]:
  "torn (writePending w p st) = torn st" "torn (clearPending w st) = torn st"
  "torn (st\<lparr>fs_index := d\<rparr>) = torn st" "torn (st\<lparr>fs_keyring := k\<rparr>) = torn st"
  by (auto simp: torn_def readSegment_def writePending_def clearPending_def fun_eq_iff)

lemma pending_simps [simp]:
  "readPending (writePending w p st) v = (if v = w then Some p else readPending st v)"
  "readPending (clearPending w st) v = (if v = w then None else readPending st v)"
  "readPending (appendSegmentLine w t st) v = readPending st v"
  "readPending (replaceSegment w ts st) v = readPending st v"
  "readPending (tear w t st) v = readPending st v"
  "readPending (st\<lparr>fs_index := d\<rparr>) v = readPending st v" "readPending (st\<lparr>fs_keyring := k\<rparr>) v = readPending st v"
  by (auto simp: readPending_def writePending_def clearPending_def appendSegmentLine_def replaceSegment_def tear_def
      put_file_def remove_file_def update_conv delete_conv)

lemma index_simps [simp]:
  "fs_index (writePending w p st) = fs_index st" "fs_index (clearPending w st) = fs_index st"
  "fs_index (appendSegmentLine w t st) = fs_index st" "fs_index (replaceSegment w ts st) = fs_index st"
  "fs_index (tear w t st) = fs_index st"
  by (simp_all add: writePending_def clearPending_def appendSegmentLine_def replaceSegment_def tear_def)

lemma keyring_simps [simp]:
  "fs_keyring (writePending w p st) = fs_keyring st" "fs_keyring (clearPending w st) = fs_keyring st"
  "fs_keyring (appendSegmentLine w t st) = fs_keyring st" "fs_keyring (replaceSegment w ts st) = fs_keyring st"
  "fs_keyring (tear w t st) = fs_keyring st"
  by (simp_all add: writePending_def clearPending_def appendSegmentLine_def replaceSegment_def tear_def)

lemma indexKey_simps [simp]:
  "fs_indexKey (writePending w p st) = fs_indexKey st" "fs_indexKey (clearPending w st) = fs_indexKey st"
  "fs_indexKey (appendSegmentLine w t st) = fs_indexKey st" "fs_indexKey (replaceSegment w ts st) = fs_indexKey st"
  "fs_indexKey (tear w t st) = fs_indexKey st"
  by (simp_all add: writePending_def clearPending_def appendSegmentLine_def replaceSegment_def tear_def)

lemma claimIndex_cases:
  assumes "claimIndex name e st = (won, st')"
  obtains "won" and "map_of (fs_index st) name = None" and "st' = st\<lparr>fs_index := put_file name (IndexFile e) (fs_index st)\<rparr>"
  | "\<not> won" and "map_of (fs_index st) name \<noteq> None" and "st' = st"
  using assms that by (auto simp: claimIndex_def publishExclusive_def has_key_def split: if_splits)

lemma map_of_put [simp]: "map_of (put_file name v d) n = (if n = name then Some v else map_of d n)"
  by (simp add: put_file_def update_conv)

end
