(* ===== verification/EffectInvariant.thy ===== *)
theory EffectInvariant
  imports EffectWorld
begin

text \<open>
  The invariant of a shared effect ledger (\<open>EffectWorld\<close>): every segment is a hash chain of signed
  records, every index entry has its record or the pending line that will become it, and every
  record that needs an index entry has one.
\<close>

section \<open>Lines in their place\<close>

text \<open>A signature by a key of the keyring, valid but for the window of the key.\<close>

definition signed_line :: "effect_env \<Rightarrow> effect_keyring \<Rightarrow> segment_line \<Rightarrow> bool" where
  "signed_line env ring l \<longleftrightarrow>
     (\<exists>s k. sl_signatures l = [s] \<and> find_key ring (sg_keyid s) = Some k
        \<and> en_verify env (kk_publicKey k) (StatementPayload (sl_statement l)) (sg_sig s))"

text \<open>\<open>S\<close> holds the statements that the writers signed. The record hash is that of one with the writer and the place of the line: the
  line itself or, under a tombstone, the record it replaced.\<close>

definition hashed_line :: "effect_statement set \<Rightarrow> effect_env \<Rightarrow> segment_line \<Rightarrow> bool" where
  "hashed_line S env l \<longleftrightarrow>
     (\<exists>s \<in> S. en_recordHash env s = sl_recordHash l \<and> ep_writer (st_predicate s) = ep_writer (st_predicate (sl_statement l))
        \<and> ep_seq (st_predicate s) = ep_seq (st_predicate (sl_statement l)))"

definition good_line ::
    "effect_statement set \<Rightarrow> effect_env \<Rightarrow> effect_keyring \<Rightarrow> effect_scope \<Rightarrow> string \<Rightarrow> nat \<Rightarrow> string option \<Rightarrow> segment_line \<Rightarrow> bool" where
  "good_line S env ring scope w i prev l \<longleftrightarrow>
     (let s = sl_statement l; p = st_predicate s in
      schema_line env l \<and> schema_statement env s
      \<and> sl_writer l = w \<and> ep_writer p = w \<and> sl_seq l = i \<and> ep_seq p = i \<and> ep_prev p = prev \<and> ep_scope p = scope
      \<and> subjectBindingHolds env s \<and> effectIdBindingHolds env p
      \<and> (if ep_phase p = PhaseTombstone
         then et_originalRecordHash (the (ep_tombstone p)) = sl_recordHash l
           \<and> find_key ring (et_originalKeyid (the (ep_tombstone p))) \<noteq> None
         else en_recordHash env s = sl_recordHash l)
      \<and> hashed_line S env l \<and> signed_line env ring l)"

text \<open>The hash of the last line; \<open>prev\<close> before the first.\<close>

fun line_hash :: "line_text \<Rightarrow> string option" where
  "line_hash (LineText l) = Some (sl_recordHash l)"
| "line_hash (BrokenLine _) = None"

definition head_hash :: "line_text list \<Rightarrow> string option" where
  "head_hash ts = (if ts = [] then None else line_hash (last ts))"

definition good_segment :: "effect_statement set \<Rightarrow> effect_env \<Rightarrow> effect_keyring \<Rightarrow> effect_scope \<Rightarrow> string \<Rightarrow> line_text list \<Rightarrow> bool" where
  "good_segment S env ring scope w ts \<longleftrightarrow>
     (\<forall>i < length ts. \<exists>l. ts ! i = LineText l \<and> good_line S env ring scope w i (head_hash (take i ts)) l)"

definition recorded :: "effect_store \<Rightarrow> string \<Rightarrow> nat \<Rightarrow> segment_line \<Rightarrow> bool" where
  "recorded st w i l \<longleftrightarrow> i < length (lines_of st w) \<and> lines_of st w ! i = LineText l"

definition next_line :: "effect_statement set \<Rightarrow> effect_ledger \<Rightarrow> effect_keyring \<Rightarrow> effect_store \<Rightarrow> string \<Rightarrow> segment_line \<Rightarrow> bool" where
  "next_line S lg ring st w l \<longleftrightarrow>
     good_line S (lg_env lg) ring (lg_scope lg) w (length (lines_of st w)) (head_hash (lines_of st w)) l"

section \<open>Index entries and their records\<close>

definition line_phase :: "segment_line \<Rightarrow> effect_phase" where
  "line_phase l = original_phase (st_predicate (sl_statement l))"

definition line_effect :: "segment_line \<Rightarrow> string" where
  "line_effect l = ep_effectId (st_predicate (sl_statement l))"

definition entry_matches :: "index_entry \<Rightarrow> segment_line \<Rightarrow> bool" where
  "entry_matches e l \<longleftrightarrow>
     ie_effectId e = line_effect l \<and> ie_recordHash e = sl_recordHash l
     \<and> ie_payloadDigest e = ep_payloadDigest (st_predicate (sl_statement l)) \<and> ie_phase e = line_phase l
     \<and> role_of_phase (line_phase l) = Some (ie_role e) \<and> ie_writer e = sl_writer l \<and> ie_seq e = sl_seq l"

definition entry_name :: "effect_ledger \<Rightarrow> string \<Rightarrow> index_entry \<Rightarrow> string" where
  "entry_name lg key e = indexName (lg_hmac lg) key (lg_scope lg) (ie_effectId e) (ie_role e)"

definition indexed :: "effect_ledger \<Rightarrow> string \<Rightarrow> effect_store \<Rightarrow> index_entry \<Rightarrow> bool" where
  "indexed lg key st e \<longleftrightarrow> map_of (fs_index st) (entry_name lg key e) = Some (IndexFile e)"

text \<open>An entry whose record is in its segment, and one whose record is the pending line of its writer.\<close>

definition fulfilled :: "effect_store \<Rightarrow> index_entry \<Rightarrow> bool" where
  "fulfilled st e \<longleftrightarrow> (\<exists>l. entry_matches e l \<and> recorded st (ie_writer e) (ie_seq e) l)"

definition awaiting :: "effect_statement set \<Rightarrow> effect_ledger \<Rightarrow> string \<Rightarrow> effect_keyring \<Rightarrow> effect_store \<Rightarrow> index_entry \<Rightarrow> bool" where
  "awaiting S lg key ring st e \<longleftrightarrow>
     (\<exists>l. entry_matches e l \<and> next_line S lg ring st (ie_writer e) l
        \<and> readPending st (ie_writer e) = Some \<lparr>pa_indexName = entry_name lg key e, pa_line = LineText l\<rparr>)"

text \<open>All entries of a writer have their records.\<close>

definition settled :: "effect_ledger \<Rightarrow> string \<Rightarrow> effect_store \<Rightarrow> string \<Rightarrow> bool" where
  "settled lg key st w \<longleftrightarrow> (\<forall>e. indexed lg key st e \<longrightarrow> ie_writer e = w \<longrightarrow> fulfilled st e)"

section \<open>The invariant\<close>

definition no_keys :: "effect_scope \<Rightarrow> effect_keyring" where
  "no_keys scope = \<lparr>ky_scope = scope, ky_keys = [], ky_rotations = []\<rparr>"

definition stored_ring :: "effect_ledger \<Rightarrow> effect_store \<Rightarrow> effect_keyring" where
  "stored_ring lg st = (case fs_keyring st of Some (KeyringFile ring) \<Rightarrow> ring | _ \<Rightarrow> no_keys (lg_scope lg))"

definition keyring_ok :: "effect_ledger \<Rightarrow> effect_store \<Rightarrow> bool" where
  "keyring_ok lg st \<longleftrightarrow>
     (case fs_keyring st of
        None \<Rightarrow> True
      | Some BrokenKeyring \<Rightarrow> False
      | Some (KeyringFile ring) \<Rightarrow> keyringFailure (lg_env lg) ring (Some (lg_scope lg)) = None)"

definition segments_ok :: "effect_statement set \<Rightarrow> effect_ledger \<Rightarrow> effect_store \<Rightarrow> bool" where
  "segments_ok S lg st \<longleftrightarrow> (\<forall>w. good_segment S (lg_env lg) (stored_ring lg st) (lg_scope lg) w (lines_of st w))"

definition index_ok :: "effect_statement set \<Rightarrow> effect_ledger \<Rightarrow> string \<Rightarrow> effect_store \<Rightarrow> bool" where
  "index_ok S lg key st \<longleftrightarrow>
     (\<forall>name v. map_of (fs_index st) name = Some v \<longrightarrow>
        (\<exists>e. v = IndexFile e \<and> name = entry_name lg key e \<and> (fulfilled st e \<or> awaiting S lg key (stored_ring lg st) st e)))"

definition covered :: "effect_ledger \<Rightarrow> string \<Rightarrow> effect_store \<Rightarrow> bool" where
  "covered lg key st \<longleftrightarrow>
     (\<forall>w i l. recorded st w i l \<longrightarrow> role_of_phase (line_phase l) \<noteq> None \<longrightarrow>
        (\<exists>e. indexed lg key st e \<and> entry_matches e l))"

definition pending_ok :: "effect_statement set \<Rightarrow> effect_ledger \<Rightarrow> effect_store \<Rightarrow> bool" where
  "pending_ok S lg st \<longleftrightarrow>
     (\<forall>w p. readPending st w = Some p \<longrightarrow>
        (\<exists>l. pa_line p = LineText l
           \<and> (next_line S lg (stored_ring lg st) st w l \<or> sl_seq l < length (lines_of st w))))"

text \<open>The key of an append is in the keyring.\<close>

definition key_known :: "effect_ledger \<Rightarrow> effect_store \<Rightarrow> append_job \<Rightarrow> bool" where
  "key_known lg st job \<longleftrightarrow>
     (\<exists>k. find_key (stored_ring lg st) (sk_keyid (aj_key job)) = Some k \<and> kk_publicKey k = sk_publicKey (aj_key job))"

text \<open>What holds of an append where it stands.\<close>

fun append_ok :: "effect_statement set \<Rightarrow> effect_ledger \<Rightarrow> string \<Rightarrow> effect_store \<Rightarrow> string \<Rightarrow> append_job \<Rightarrow> append_pc \<Rightarrow> bool" where
  "append_ok S lg key st w job AppendStart = True"
| "append_ok S lg key st w job AppendRepair \<longleftrightarrow> key_known lg st job"
| "append_ok S lg key st w job AppendRepaired \<longleftrightarrow> key_known lg st job \<and> settled lg key st w"
| "append_ok S lg key st w job AppendBuild \<longleftrightarrow> key_known lg st job \<and> settled lg key st w \<and> readPending st w = None"
| "append_ok S lg key st w job (AppendClaim l name e) \<longleftrightarrow>
     \<not> torn st w \<and> settled lg key st w \<and> next_line S lg (stored_ring lg st) st w l \<and> entry_matches e l \<and> name = entry_name lg key e
     \<and> readPending st w = Some \<lparr>pa_indexName = name, pa_line = LineText l\<rparr>"
| "append_ok S lg key st w job (AppendLost l name) \<longleftrightarrow> settled lg key st w"
| "append_ok S lg key st w job (AppendWinner l name) \<longleftrightarrow> settled lg key st w"
| "append_ok S lg key st w job (AppendWrite l pending) \<longleftrightarrow>
     \<not> torn st w \<and> next_line S lg (stored_ring lg st) st w l
     \<and> (if pending
        then \<exists>e. indexed lg key st e \<and> entry_matches e l
          \<and> readPending st w = Some \<lparr>pa_indexName = entry_name lg key e, pa_line = LineText l\<rparr>
        else settled lg key st w \<and> readPending st w = None \<and> role_of_phase (line_phase l) = None)"
| "append_ok S lg key st w job (AppendClear l) \<longleftrightarrow> settled lg key st w"
| "append_ok S lg key st w job (AppendDone r) \<longleftrightarrow> ((\<exists>x. r = Inr x) \<longrightarrow> settled lg key st w)"

definition appends_ok :: "effect_statement set \<Rightarrow> effect_ledger \<Rightarrow> string \<Rightarrow> effect_store \<Rightarrow> (string \<Rightarrow> (append_job \<times> append_pc) option) \<Rightarrow> bool" where
  "appends_ok S lg key st A \<longleftrightarrow>
     (\<forall>w job pc. A w = Some (job, pc) \<longrightarrow> job_ok lg key w job \<and> append_ok S lg key st w job pc)"

definition store_ok :: "effect_statement set \<Rightarrow> effect_ledger \<Rightarrow> string \<Rightarrow> effect_store \<Rightarrow> bool" where
  "store_ok S lg key st \<longleftrightarrow>
     fs_indexKey st = Some key \<and> keyring_ok lg st \<and> segments_ok S lg st \<and> index_ok S lg key st \<and> covered lg key st
     \<and> pending_ok S lg st"

definition world_ok :: "effect_statement set \<Rightarrow> effect_ledger \<Rightarrow> string \<Rightarrow> ledger_world \<Rightarrow> bool" where
  "world_ok S lg key u \<longleftrightarrow> store_ok S lg key (lw_store u) \<and> appends_ok S lg key (lw_store u) (lw_appends u)"

end
