(* ===== verification/EffectSteps.thy ===== *)
theory EffectSteps
  imports EffectInvariant
begin

text \<open>
  The steps of the writers of an effect ledger keep its invariant (\<open>EffectInvariant\<close>).
\<close>

section \<open>Segments and their heads\<close>

lemma decode_LineText: "decodeSegmentLine env t = Inr l \<longleftrightarrow> t = LineText l \<and> schema_line env l \<and> schema_statement env (sl_statement l)"
  by (auto simp: decodeSegmentLine_def split: line_text.splits)

lemma segmentHead_lines:
  assumes "segmentHead env st w = Inr (count, hash)"
  shows "\<not> torn st w" and "count = length (lines_of st w)" and "hash = head_hash (lines_of st w)"
  using assms
  by (auto simp: segmentHead_def torn_def lines_of_def complete_lines_def head_hash_def decode_LineText split: option.splits if_splits sum.splits)

lemma good_segment_append:
  assumes "good_segment S env ring scope w ts" and "good_line S env ring scope w (length ts) (head_hash ts) l"
  shows "good_segment S env ring scope w (ts @ [LineText l])"
  using assms by (auto simp: good_segment_def nth_append less_Suc_eq)

lemma good_segment_at:
  "good_segment S env ring scope w ts \<Longrightarrow> i < length ts \<Longrightarrow> ts ! i = LineText l \<Longrightarrow> good_line S env ring scope w i (head_hash (take i ts)) l"
  unfolding good_segment_def by fastforce

lemma good_lineD:
  assumes "good_line S env ring scope w i prev l"
  shows "schema_line env l" "schema_statement env (sl_statement l)" "sl_writer l = w" "sl_seq l = i"
    "ep_writer (st_predicate (sl_statement l)) = w" "ep_seq (st_predicate (sl_statement l)) = i"
    "ep_prev (st_predicate (sl_statement l)) = prev" "hashed_line S env l"
  using assms by (auto simp: good_line_def Let_def)

lemma recorded_good:
  assumes "segments_ok S lg st" and "recorded st w i l"
  shows "good_line S (lg_env lg) (stored_ring lg st) (lg_scope lg) w i (head_hash (take i (lines_of st w))) l"
  using assms good_segment_at unfolding segments_ok_def recorded_def by blast

lemma next_line_place: "next_line S lg ring st w l \<Longrightarrow> sl_writer l = w \<and> sl_seq l = length (lines_of st w)"
  by (simp add: next_line_def good_line_def Let_def)

section \<open>What the invariant reads\<close>

text \<open>The invariant depends only on the complete lines, the pending files, the index and the keys.\<close>

lemma store_ok_cong:
  assumes "lines_of st' = lines_of st" and "torn st' = torn st" and "readPending st' = readPending st" and "fs_index st' = fs_index st"
    and "fs_keyring st' = fs_keyring st" and "fs_indexKey st' = fs_indexKey st"
  shows "store_ok S lg key st' = store_ok S lg key st" and "append_ok S lg key st' w job pc = append_ok S lg key st w job pc"
proof -
  have r: "stored_ring lg st' = stored_ring lg st" by (simp add: stored_ring_def assms)
  have i: "indexed lg key st' = indexed lg key st" by (simp add: indexed_def assms fun_eq_iff)
  have c: "recorded st' = recorded st" by (simp add: recorded_def assms fun_eq_iff)
  have f: "fulfilled st' = fulfilled st" by (simp add: fulfilled_def c fun_eq_iff)
  have n: "next_line S lg ring st' = next_line S lg ring st" for ring by (simp add: next_line_def assms fun_eq_iff)
  have a: "awaiting S lg key ring st' = awaiting S lg key ring st" for ring by (simp add: awaiting_def n assms fun_eq_iff)
  have s: "settled lg key st' = settled lg key st" by (simp add: settled_def i f fun_eq_iff)
  show "store_ok S lg key st' = store_ok S lg key st"
    by (simp add: store_ok_def keyring_ok_def segments_ok_def index_ok_def covered_def pending_ok_def assms r i c f n a)
  show "append_ok S lg key st' w job pc = append_ok S lg key st w job pc"
    by (cases pc) (simp_all add: key_known_def r s n i assms)
qed

text \<open>What an append of writer \<open>w\<close> reads.\<close>

definition same_for :: "effect_ledger \<Rightarrow> string \<Rightarrow> string \<Rightarrow> effect_store \<Rightarrow> effect_store \<Rightarrow> bool" where
  "same_for lg key w st st' \<longleftrightarrow>
     lines_of st' w = lines_of st w \<and> torn st' w = torn st w \<and> readPending st' w = readPending st w \<and> stored_ring lg st' = stored_ring lg st
     \<and> (\<forall>e. indexed lg key st e \<longrightarrow> indexed lg key st' e)
     \<and> (\<forall>e. indexed lg key st' e \<longrightarrow> ie_writer e = w \<longrightarrow> indexed lg key st e)"

lemma append_ok_same:
  assumes "same_for lg key w st st'" and "append_ok S lg key st w job pc"
  shows "append_ok S lg key st' w job pc"
proof -
  have c: "recorded st' w = recorded st w" using assms(1) by (simp add: same_for_def recorded_def fun_eq_iff)
  have n: "next_line S lg ring st' w = next_line S lg ring st w" for ring
    using assms(1) by (simp add: same_for_def next_line_def fun_eq_iff)
  have s: "settled lg key st w \<Longrightarrow> settled lg key st' w"
    using assms(1) c unfolding same_for_def settled_def fulfilled_def by metis
  show ?thesis
    using assms s n unfolding same_for_def by (cases pc) (auto simp: key_known_def split: if_splits)
qed

lemma appends_ok_step:
  assumes "appends_ok S lg key st A" and "\<And>v. v \<noteq> w \<Longrightarrow> same_for lg key v st st'"
    and "job_ok lg key w job" and "append_ok S lg key st' w job pc"
  shows "appends_ok S lg key st' (A(w \<mapsto> (job, pc)))"
  using assms unfolding appends_ok_def by (auto split: if_splits intro: append_ok_same [where st = st])

lemma appends_ok_leave:
  assumes "appends_ok S lg key st A" and "\<And>v. v \<noteq> w \<Longrightarrow> same_for lg key v st st'"
  shows "appends_ok S lg key st' (A(w := None))"
  using assms unfolding appends_ok_def by (auto split: if_splits intro: append_ok_same [where st = st])

section \<open>Keys\<close>

text \<open>Fingerprints of keys in the format of the schema do not collide. (Outside the format they do: the PEM and
  the base64 text of one key have one fingerprint.)\<close>

definition fingerprints_separate :: "effect_env \<Rightarrow> bool" where
  "fingerprints_separate env \<longleftrightarrow>
     (\<forall>a b. en_publicKeyFormat env a \<longrightarrow> en_publicKeyFormat env b \<longrightarrow> en_fingerprint env a \<noteq> None \<longrightarrow> en_fingerprint env a = en_fingerprint env b \<longrightarrow> a = b)"

lemma key_failure_keyid:
  "key_failure env seen ks = None \<Longrightarrow> k \<in> set ks \<Longrightarrow>
     map_option (\<lambda>f. ''sha256:'' @ f) (en_fingerprint env (kk_publicKey k)) = Some (kk_keyid k)"
  by (induction ks arbitrary: seen) (auto split: if_splits)

lemma find_key_in: "find_key ring i = Some k \<Longrightarrow> k \<in> set (ky_keys ring) \<and> kk_keyid k = i"
  by (auto simp: find_key_def find_Some_iff)

lemma lawful_public:
  assumes "fingerprints_separate env" and "keyringFailure env ring scope = None" and "lawful_key env key"
    and "find_key ring (sk_keyid key) = Some k"
  shows "kk_publicKey k = sk_publicKey key"
proof -
  have "map_option (\<lambda>f. ''sha256:'' @ f) (en_fingerprint env (kk_publicKey k)) = Some (sk_keyid key)"
    using key_failure_keyid [OF good_keyring(6) [OF assms(2)]] find_key_in [OF assms(4)] by metis
  then obtain f where f: "en_fingerprint env (kk_publicKey k) = Some f" "''sha256:'' @ f = sk_keyid key"
    unfolding map_option_eq_Some by blast
  obtain g where g: "en_fingerprint env (sk_publicKey key) = Some g" "''sha256:'' @ g = sk_keyid key"
    using assms(3) unfolding lawful_key_def map_option_eq_Some by blast
  have "f = g" using f(2) g(2) by (metis same_append_eq)
  moreover have "en_publicKeyFormat env (kk_publicKey k)"
    using good_keyring(4) [OF assms(2)] find_key_in [OF assms(4)] by (auto simp: schema_keyring_def schema_key_def list_all_iff)
  moreover have "en_publicKeyFormat env (sk_publicKey key)" using assms(3) by (simp add: lawful_key_def)
  ultimately show ?thesis using assms(1) f(1) g(1) unfolding fingerprints_separate_def by (metis option.distinct(1))
qed

text \<open>A keyring that keeps the keys and their material.\<close>

definition keys_kept :: "effect_keyring \<Rightarrow> effect_keyring \<Rightarrow> bool" where
  "keys_kept ring ring' \<longleftrightarrow>
     (\<forall>i k. find_key ring i = Some k \<longrightarrow> (\<exists>k'. find_key ring' i = Some k' \<and> kk_publicKey k' = kk_publicKey k))"

lemma good_line_kept: "keys_kept ring ring' \<Longrightarrow> good_line S env ring scope w i prev l \<Longrightarrow> good_line S env ring' scope w i prev l"
  unfolding good_line_def signed_line_def keys_kept_def Let_def by (auto split: if_splits) (metis not_None_eq)+

lemma keyring_stored: "fs_keyring st = Some (KeyringFile ring) \<Longrightarrow> stored_ring lg st = ring"
  by (simp add: stored_ring_def)

lemma ring_step:
  assumes "store_ok S lg key st" and "keys_kept (stored_ring lg st) ring" and "keyringFailure (lg_env lg) ring (Some (lg_scope lg)) = None"
    and "st' = st\<lparr>fs_keyring := Some (KeyringFile ring)\<rparr>"
  shows "store_ok S lg key st'" and "append_ok S lg key st w job pc \<Longrightarrow> append_ok S lg key st' w job pc"
proof -
  have r: "stored_ring lg st' = ring" by (simp add: assms(4) stored_ring_def)
  have i: "indexed lg key st' = indexed lg key st" by (simp add: indexed_def assms(4) fun_eq_iff)
  have c: "recorded st' = recorded st" by (simp add: recorded_def assms(4) fun_eq_iff)
  have f: "fulfilled st' = fulfilled st" by (simp add: fulfilled_def c fun_eq_iff)
  have n: "next_line S lg ring st' v l" if "next_line S lg (stored_ring lg st) st v l" for v l
    using good_line_kept [OF assms(2)] that by (simp add: next_line_def assms(4))
  have p: "readPending st' v = readPending st v" for v by (simp add: assms(4))
  have a: "awaiting S lg key ring st' e" if "awaiting S lg key (stored_ring lg st) st e" for e
    using that n unfolding awaiting_def p by blast
  have s: "settled lg key st' = settled lg key st" by (simp add: settled_def i f fun_eq_iff)
  have "good_segment S (lg_env lg) ring (lg_scope lg) v ts" if "good_segment S (lg_env lg) (stored_ring lg st) (lg_scope lg) v ts" for v ts
    using that good_line_kept [OF assms(2)] unfolding good_segment_def by blast
  then have "segments_ok S lg st'" using assms(1) r by (simp add: store_ok_def segments_ok_def assms(4))
  moreover have "index_ok S lg key st'"
  proof -
    have "index_ok S lg key st" using assms(1) by (simp add: store_ok_def)
    then show ?thesis using a unfolding index_ok_def r f by (simp add: assms(4)) metis
  qed
  moreover have "covered lg key st'" using assms(1) by (simp add: store_ok_def covered_def c i)
  moreover have "pending_ok S lg st'"
  proof -
    have "pending_ok S lg st" using assms(1) by (simp add: store_ok_def)
    moreover have "lines_of st' = lines_of st" by (simp add: assms(4))
    ultimately show ?thesis using n unfolding pending_ok_def p r by metis
  qed
  ultimately show "store_ok S lg key st'"
    using assms(1,3) by (simp add: store_ok_def keyring_ok_def assms(4))
  have tt: "torn st' = torn st" by (simp add: assms(4))
  have "key_known lg st job \<Longrightarrow> key_known lg st' job"
    using assms(2) r unfolding key_known_def keys_kept_def by metis
  then show "append_ok S lg key st w job pc \<Longrightarrow> append_ok S lg key st' w job pc"
    using s i n r p tt by (cases pc) (auto split: if_splits)
qed

section \<open>The keyring of an append\<close>

lemma storedKeyring_Inr:
  "storedKeyring lg st = Inr ring \<Longrightarrow>
     fs_keyring st = Some (KeyringFile ring) \<and> keyringFailure (lg_env lg) ring (Some (lg_scope lg)) = None"
  by (auto simp: storedKeyring_def readKeyring_def assertKeyring_Inr split: option.splits keyring_file.splits)

lemma no_keys_kept: "keys_kept (no_keys scope) ring"
  by (simp add: keys_kept_def no_keys_def find_key_def)

lemma genesis_good:
  assumes "assertEffectKeyring env (createGenesisKeyring scope key at_time) = Inr u" and "lawful_key env key"
  shows "keyringFailure env (createGenesisKeyring scope key at_time) (Some scope) = None"
proof -
  have "schema_keyring env (createGenesisKeyring scope key at_time)"
    using assms(1) by (simp add: assertEffectKeyring_def split: if_splits)
  moreover have "key_failure env [] (ky_keys (createGenesisKeyring scope key at_time)) = None"
    using assms(2) by (simp add: createGenesisKeyring_def new_key_def lawful_key_def)
  ultimately show ?thesis
    unfolding keyringFailure_def by (simp add: createGenesisKeyring_def genesis_keys_def)
qed

lemma ensureKeyring_ok:
  assumes "ensureKeyring lg key at_time st = (r, st')" and "store_ok S lg k st" and "lawful_key (lg_env lg) key"
  shows "store_ok S lg k st'" and "append_ok S lg k st w job pc \<Longrightarrow> append_ok S lg k st' w job pc"
    and "r = Inr ring \<Longrightarrow> fs_keyring st' = Some (KeyringFile ring) \<and> keyringFailure (lg_env lg) ring (Some (lg_scope lg)) = None"
proof -
  let ?g = "createGenesisKeyring (lg_scope lg) key at_time"
  have cases: "st' = st \<and> (r = Inr ring \<longrightarrow> storedKeyring lg st' = Inr ring)
    \<or> fs_keyring st = None \<and> assertEffectKeyring (lg_env lg) ?g = Inr () \<and> st' = st\<lparr>fs_keyring := Some (KeyringFile ?g)\<rparr>
      \<and> (r = Inr ring \<longrightarrow> storedKeyring lg st' = Inr ring)"
    using assms(1)
    by (auto simp: ensureKeyring_def Let_def readKeyring_def split: sum.splits option.splits keyring_file.splits)
  show "r = Inr ring \<Longrightarrow> fs_keyring st' = Some (KeyringFile ring) \<and> keyringFailure (lg_env lg) ring (Some (lg_scope lg)) = None"
    using cases storedKeyring_Inr by blast
  have "store_ok S lg k st' \<and> (append_ok S lg k st w job pc \<longrightarrow> append_ok S lg k st' w job pc)"
  proof (cases "st' = st")
    case False
    then have n: "fs_keyring st = None" "assertEffectKeyring (lg_env lg) ?g = Inr ()" "st' = st\<lparr>fs_keyring := Some (KeyringFile ?g)\<rparr>"
      using cases by blast+
    have "keys_kept (stored_ring lg st) ?g" using n(1) no_keys_kept by (simp add: stored_ring_def)
    from ring_step [OF assms(2) this genesis_good [OF n(2) assms(3)] n(3)] show ?thesis by blast
  qed (use assms(2) in simp)
  then show "store_ok S lg k st'" "append_ok S lg k st w job pc \<Longrightarrow> append_ok S lg k st' w job pc" by blast+
qed

lemma assertSigningKeyActive_known:
  assumes "assertSigningKeyActive lg ring key at_time = Inr u" and "fs_keyring st = Some (KeyringFile ring)"
    and "keyringFailure (lg_env lg) ring scope = None" and "fingerprints_separate (lg_env lg)" and "lawful_key (lg_env lg) key"
  shows "\<exists>k. find_key (stored_ring lg st) (sk_keyid key) = Some k \<and> kk_publicKey k = sk_publicKey key"
proof -
  obtain a where a: "activeKey ring = Some a" "kk_keyid a = sk_keyid key"
    using assms(1) by (auto simp: assertSigningKeyActive_def opt_holds_iff split: if_splits)
  then obtain i where "find_key ring i = Some a" by (auto simp: activeKey_def Let_def)
  then have f: "find_key ring (sk_keyid key) = Some a" using find_key_in a(2) by metis
  show ?thesis using lawful_public [OF assms(4,3,5) f] f assms(2) by (simp add: stored_ring_def)
qed

lemma rotated_kept: "keys_kept ring (rotated ring prior successor effectiveAt reason)"
  unfolding keys_kept_def
proof (intro allI impI)
  fix i k assume "find_key ring i = Some k"
  then show "\<exists>k'. find_key (rotated ring prior successor effectiveAt reason) i = Some k' \<and> kk_publicKey k' = kk_publicKey k"
    using find_key_rotated by (auto simp: retire_key_def)
qed

lemma rotateKeyring_good:
  assumes "rotateKeyring env ring prior successor effectiveAt reason = Inr ring'" and "keyringFailure env ring (Some scope) = None"
  shows "keys_kept ring ring'" and "keyringFailure env ring' (Some scope) = None"
proof -
  note r = rotateKeyring_Inr [OF assms(1)]
  show "keys_kept ring ring'" using rotated_kept r(1) by simp
  have "ky_scope ring = scope" using assms(2) by (auto simp: keyringFailure_def split: if_splits)
  then have "ky_scope ring' = scope" using r(1) by (simp add: rotated_def)
  then show "keyringFailure env ring' (Some scope) = None" using r(2) by (auto simp: keyringFailure_def split: if_splits option.splits)
qed

section \<open>Writing a line\<close>

text \<open>Record hashes of the statements that were signed do not collide.\<close>

definition hashes_separate :: "effect_statement set \<Rightarrow> effect_env \<Rightarrow> bool" where
  "hashes_separate S env \<longleftrightarrow> inj_on (en_recordHash env) S"

lemma recorded_append:
  assumes "\<not> torn st w"
  shows "recorded (appendSegmentLine w t st) v i l
     \<longleftrightarrow> recorded st v i l \<or> (v = w \<and> i = length (lines_of st w) \<and> t = LineText l)"
  using assms by (auto simp: recorded_def nth_append)

lemma next_line_append_other:
  assumes "\<not> torn st w" and "v \<noteq> w"
  shows "next_line S lg ring (appendSegmentLine w t st) v l = next_line S lg ring st v l"
  using assms by (simp add: next_line_def)

text \<open>The effect of appending a next line \<open>l\<close> whose entry, if it needs one, is in the index.\<close>

lemma append_line_ok:
  assumes ok: "store_ok S lg key st" and t: "\<not> torn st w" and l: "next_line S lg (stored_ring lg st) st w l"
    and e: "role_of_phase (line_phase l) \<noteq> None \<Longrightarrow> \<exists>e. indexed lg key st e \<and> entry_matches e l"
    and p: "\<And>m l'. readPending st w = Some \<lparr>pa_indexName = m, pa_line = LineText l'\<rparr> \<Longrightarrow> l' = l \<or> sl_seq l' < length (lines_of st w)"
  shows "store_ok S lg key (appendSegmentLine w (LineText l) st)" and "settled lg key (appendSegmentLine w (LineText l) st) w"
proof -
  let ?st = "appendSegmentLine w (LineText l) st"
  have r: "stored_ring lg ?st = stored_ring lg st" by (simp add: stored_ring_def)
  have i: "indexed lg key ?st = indexed lg key st" by (simp add: indexed_def fun_eq_iff)
  have seq: "sl_seq l = length (lines_of st w)" "sl_writer l = w" using next_line_place [OF l] by simp_all
  have rec: "recorded ?st w (length (lines_of st w)) l" using recorded_append [OF t] by simp
  have grow: "fulfilled st e \<Longrightarrow> fulfilled ?st e" for e unfolding fulfilled_def recorded_append [OF t] by blast
  have reach: "fulfilled ?st e" if a: "awaiting S lg key (stored_ring lg st) st e" and b: "ie_writer e = w" for e
  proof -
    obtain l' where l': "entry_matches e l'" "next_line S lg (stored_ring lg st) st w l'"
      "readPending st w = Some \<lparr>pa_indexName = entry_name lg key e, pa_line = LineText l'\<rparr>"
      using a b unfolding awaiting_def by blast
    have "l' = l" using p [OF l'(3)] next_line_place [OF l'(2)] by simp
    then show ?thesis using l'(1) rec seq b unfolding fulfilled_def entry_matches_def by metis
  qed
  have old: "index_ok S lg key st" using ok by (simp add: store_ok_def)
  have keep: "fulfilled ?st e \<or> awaiting S lg key (stored_ring lg st) ?st e"
    if "fulfilled st e \<or> awaiting S lg key (stored_ring lg st) st e" for e
  proof (cases "ie_writer e = w")
    case True
    then show ?thesis using that grow reach by blast
  next
    case False
    then have "awaiting S lg key (stored_ring lg st) st e \<Longrightarrow> awaiting S lg key (stored_ring lg st) ?st e"
      unfolding awaiting_def next_line_append_other [OF t False] by simp
    then show ?thesis using that grow by blast
  qed
  have "index_ok S lg key ?st" using old keep unfolding index_ok_def r by simp metis
  moreover have "segments_ok S lg ?st"
    using ok good_segment_append [of S _ _ _ w] l t unfolding store_ok_def segments_ok_def r next_line_def by simp
  moreover have "covered lg key ?st"
    using ok e unfolding store_ok_def covered_def i recorded_append [OF t] by blast
  moreover have "pending_ok S lg ?st"
  proof -
    have "\<exists>l'. pa_line q = LineText l' \<and> (next_line S lg (stored_ring lg st) ?st v l' \<or> sl_seq l' < length (lines_of ?st v))"
      if q: "readPending st v = Some q" for v q
    proof -
      obtain l' where l': "pa_line q = LineText l'" "next_line S lg (stored_ring lg st) st v l' \<or> sl_seq l' < length (lines_of st v)"
        using ok q unfolding store_ok_def pending_ok_def by blast
      then show ?thesis using next_line_append_other [OF t] t by (cases "v = w") (auto dest: next_line_place)
    qed
    then show ?thesis unfolding pending_ok_def r by simp
  qed
  ultimately show "store_ok S lg key ?st" using ok by (simp add: store_ok_def keyring_ok_def)
  show "settled lg key ?st w"
    using old grow reach unfolding settled_def index_ok_def i indexed_def by (metis index_file.inject)
qed

section \<open>Repair\<close>

lemma line_isIndexEntry:
  assumes "entry_matches e l" and "schema_line env l" and "schema_statement env (sl_statement l)"
    and "sl_seq l \<le> length (lines_of st w)" and "small_segments st"
  shows "isIndexEntry e"
proof -
  have "int (length (lines_of st w)) < max_safe_integer" using assms(5) unfolding small_segments_def by blast
  moreover have e: "ie_seq e = sl_seq l" "role_of_phase (ie_phase e) = Some (ie_role e)" "ie_writer e = sl_writer l"
    "ie_recordHash e = sl_recordHash l" "ie_payloadDigest e = ep_payloadDigest (st_predicate (sl_statement l))"
    using assms(1) unfolding entry_matches_def by metis+
  ultimately have "safe_int (int (ie_seq e))" using assms(4) by (simp add: safe_int_def)
  moreover have "ie_phase e \<noteq> PhaseTombstone" using e(2) by (cases "ie_phase e") simp_all
  moreover have "WRITER_ID_PATTERN (sl_writer l)" "schema_digest (sl_recordHash l)" using assms(2) unfolding schema_line_def by blast+
  moreover have "schema_digest (ep_payloadDigest (st_predicate (sl_statement l)))"
    using assms(3) unfolding schema_statement_def schema_predicate_def by blast
  ultimately show ?thesis unfolding isIndexEntry_def e(3-5) by blast
qed

lemma entry_isIndexEntry:
  assumes "entry_matches e l" and "next_line S lg ring st w l" and "small_segments st"
  shows "isIndexEntry e"
proof -
  note g = good_lineD(1,2,4) [OF assms(2) [unfolded next_line_def]]
  then have "sl_seq l \<le> length (lines_of st w)" by simp
  then show ?thesis by (rule line_isIndexEntry [OF assms(1) g(1,2) _ assms(3)])
qed

lemma index_entry_ok:
  assumes "store_ok S lg key st" and "map_of (fs_index st) name = Some v"
  obtains e where "v = IndexFile e" and "name = entry_name lg key e" and "indexed lg key st e"
    and "fulfilled st e \<or> awaiting S lg key (stored_ring lg st) st e"
  using assms that unfolding store_ok_def index_ok_def indexed_def by metis

lemma repairs_entry:
  assumes ok: "store_ok S lg key st" and sep: "hashes_separate S (lg_env lg)" and p: "readPending st w = Some p"
    and h: "segmentHead (lg_env lg) st w = Inr hd'" and r: "repairs (lg_env lg) st w p hd'"
  shows "\<exists>l e. pa_line p = LineText l \<and> next_line S lg (stored_ring lg st) st w l \<and> indexed lg key st e \<and> entry_matches e l"
proof -
  obtain count hash where hd': "hd' = (count, hash)" by fastforce
  note head = segmentHead_lines [OF h [unfolded hd']]
  obtain l e where l: "pa_line p = LineText l" "sl_seq l = count"
    and e: "readIndexEntry st (pa_indexName p) = Inr (Some e)" "ie_recordHash e = sl_recordHash l" "ie_writer e = w"
    using r unfolding hd' by (auto simp: decode_LineText split: sum.splits option.splits)
  have nl: "next_line S lg (stored_ring lg st) st w l"
    using ok p l head(2) unfolding store_ok_def pending_ok_def by fastforce
  have "map_of (fs_index st) (pa_indexName p) = Some (IndexFile e)"
    using e(1) by (auto simp: readIndexEntry_def split: option.splits index_file.splits if_splits)
  then obtain ix: "pa_indexName p = entry_name lg key e" "indexed lg key st e"
    and "fulfilled st e \<or> awaiting S lg key (stored_ring lg st) st e"
    using index_entry_ok [OF ok] by (metis index_file.inject)
  then consider (full) "fulfilled st e" | (wait) "awaiting S lg key (stored_ring lg st) st e" by blast
  then show ?thesis
  proof cases
    case full
    then obtain l2 where l2: "entry_matches e l2" "recorded st w (ie_seq e) l2" using e(3) unfolding fulfilled_def by blast
    then have g2: "good_line S (lg_env lg) (stored_ring lg st) (lg_scope lg) w (ie_seq e) (head_hash (take (ie_seq e) (lines_of st w))) l2"
      using recorded_good ok unfolding store_ok_def by blast
    obtain s2 where s2: "s2 \<in> S" "en_recordHash (lg_env lg) s2 = sl_recordHash l2" "ep_seq (st_predicate s2) = ie_seq e"
      using good_lineD(6,8) [OF g2] unfolding hashed_line_def by metis
    obtain s1 where s1: "s1 \<in> S" "en_recordHash (lg_env lg) s1 = sl_recordHash l" "ep_seq (st_predicate s1) = count"
      using good_lineD(6,8) [OF nl [unfolded next_line_def]] head(2) unfolding hashed_line_def by metis
    have "sl_recordHash l2 = sl_recordHash l" using l2(1) e(2) by (simp add: entry_matches_def)
    then have "s1 = s2" using s1 s2 sep unfolding hashes_separate_def by (metis inj_onD)
    then show ?thesis using l2(2) s1 s2 head(2) by (simp add: recorded_def)
  next
    case wait
    then obtain l2 where "entry_matches e l2" "readPending st w = Some \<lparr>pa_indexName = entry_name lg key e, pa_line = LineText l2\<rparr>"
      using e(3) unfolding awaiting_def by blast
    then show ?thesis using p l nl ix by auto
  qed
qed

lemma unrepaired_settled:
  assumes ok: "store_ok S lg key st" and small: "small_segments st" and p: "readPending st w = Some p"
    and h: "segmentHead (lg_env lg) st w = Inr hd'" and r: "\<not> repairs (lg_env lg) st w p hd'"
  shows "settled lg key st w"
  unfolding settled_def
proof (intro allI impI)
  fix e assume e: "indexed lg key st e" "ie_writer e = w"
  show "fulfilled st e"
  proof (rule ccontr)
    assume "\<not> fulfilled st e"
    then have "awaiting S lg key (stored_ring lg st) st e"
      using index_entry_ok [OF ok] e(1) unfolding indexed_def by (metis index_file.inject)
    then obtain l where l: "entry_matches e l" "next_line S lg (stored_ring lg st) st w l"
      "p = \<lparr>pa_indexName = entry_name lg key e, pa_line = LineText l\<rparr>"
      using e(2) p unfolding awaiting_def by auto
    obtain count hash where hd': "hd' = (count, hash)" by fastforce
    note head = segmentHead_lines [OF h [unfolded hd']]
    have g: "good_line S (lg_env lg) (stored_ring lg st) (lg_scope lg) w count hash l" using l(2) head by (simp add: next_line_def)
    have "decodeSegmentLine (lg_env lg) (LineText l) = Inr l" using good_lineD(1,2) [OF g] by (simp add: decode_LineText)
    moreover have "readIndexEntry st (entry_name lg key e) = Inr (Some e)"
      using e(1) entry_isIndexEntry [OF l(1,2) small] by (simp add: indexed_def readIndexEntry_def)
    ultimately have "repairs (lg_env lg) st w p hd'"
      using l(1) e(2) good_lineD(3,4,7) [OF g] unfolding hd' l(3) by (simp add: entry_matches_def)
    then show False using r by simp
  qed
qed

lemma cleared_settled:
  assumes "store_ok S lg key st" and "readPending st w = None"
  shows "settled lg key st w"
  unfolding settled_def
proof (intro allI impI)
  fix e assume e: "indexed lg key st e" "ie_writer e = w"
  then have "fulfilled st e \<or> awaiting S lg key (stored_ring lg st) st e"
    using index_entry_ok [OF assms(1)] unfolding indexed_def by (metis index_file.inject)
  then show "fulfilled st e" using assms(2) e(2) unfolding awaiting_def by auto
qed

section \<open>Pending files and claims\<close>

text \<open>The pending file of a writer whose entries are settled may change.\<close>

lemma pending_change_ok:
  assumes ok: "store_ok S lg key st" and s: "settled lg key st w"
    and st': "lines_of st' = lines_of st" "fs_index st' = fs_index st" "fs_keyring st' = fs_keyring st" "fs_indexKey st' = fs_indexKey st"
      "\<And>v. v \<noteq> w \<Longrightarrow> readPending st' v = readPending st v"
    and p: "\<And>q. readPending st' w = Some q \<Longrightarrow> \<exists>l. pa_line q = LineText l \<and> next_line S lg (stored_ring lg st) st w l"
  shows "store_ok S lg key st'" and "settled lg key st' w"
proof -
  have r: "stored_ring lg st' = stored_ring lg st" by (simp add: stored_ring_def st')
  have i: "indexed lg key st' = indexed lg key st" by (simp add: indexed_def st' fun_eq_iff)
  have c: "recorded st' = recorded st" by (simp add: recorded_def st' fun_eq_iff)
  have f: "fulfilled st' = fulfilled st" by (simp add: fulfilled_def c fun_eq_iff)
  have n: "next_line S lg ring st' = next_line S lg ring st" for ring by (simp add: next_line_def st' fun_eq_iff)
  show s': "settled lg key st' w" using s by (simp add: settled_def i f)
  have "index_ok S lg key st'"
    unfolding index_ok_def
  proof (intro allI impI)
    fix name v assume "map_of (fs_index st') name = Some v"
    then obtain e where e: "v = IndexFile e" "name = entry_name lg key e" "indexed lg key st e"
      "fulfilled st e \<or> awaiting S lg key (stored_ring lg st) st e"
      using index_entry_ok [OF ok] st'(2) by metis
    have "fulfilled st' e \<or> awaiting S lg key (stored_ring lg st') st' e"
    proof (cases "ie_writer e = w")
      case True
      then show ?thesis using s e(3) f unfolding settled_def by metis
    next
      case False
      then show ?thesis using e(4) f st'(5) unfolding awaiting_def n r by metis
    qed
    then show "\<exists>e. v = IndexFile e \<and> name = entry_name lg key e \<and> (fulfilled st' e \<or> awaiting S lg key (stored_ring lg st') st' e)"
      using e(1,2) by blast
  qed
  moreover have "pending_ok S lg st'"
    unfolding pending_ok_def n r st'(1)
  proof (intro allI impI)
    fix v q assume q: "readPending st' v = Some q"
    show "\<exists>l. pa_line q = LineText l \<and> (next_line S lg (stored_ring lg st) st v l \<or> sl_seq l < length (lines_of st v))"
      using q p ok st'(5) [of v] unfolding store_ok_def pending_ok_def by (cases "v = w") metis+
  qed
  ultimately show "store_ok S lg key st'"
    using ok by (simp add: store_ok_def keyring_ok_def segments_ok_def covered_def st' r i c)
qed

lemma claim_ok:
  assumes ok: "store_ok S lg key st" and n: "map_of (fs_index st) (entry_name lg key e) = None"
    and l: "next_line S lg (stored_ring lg st) st w l" "entry_matches e l"
      "readPending st w = Some \<lparr>pa_indexName = entry_name lg key e, pa_line = LineText l\<rparr>"
    and st': "st' = st\<lparr>fs_index := put_file (entry_name lg key e) (IndexFile e) (fs_index st)\<rparr>"
  shows "store_ok S lg key st'" and "indexed lg key st' e" and "\<And>d. indexed lg key st d \<Longrightarrow> indexed lg key st' d"
    and "\<And>d. indexed lg key st' d \<Longrightarrow> d = e \<or> indexed lg key st d"
proof -
  have r: "stored_ring lg st' = stored_ring lg st" by (simp add: stored_ring_def st')
  have c: "recorded st' = recorded st" by (simp add: recorded_def st' fun_eq_iff)
  have f: "fulfilled st' = fulfilled st" by (simp add: fulfilled_def c fun_eq_iff)
  have nx: "next_line S lg ring st' = next_line S lg ring st" for ring by (simp add: next_line_def st' fun_eq_iff)
  have a: "awaiting S lg key ring st' = awaiting S lg key ring st" for ring
    unfolding awaiting_def nx by (simp add: st' fun_eq_iff)
  show ie: "indexed lg key st' e" by (simp add: indexed_def st')
  show grow: "indexed lg key st d \<Longrightarrow> indexed lg key st' d" for d using n by (auto simp: indexed_def st')
  show "indexed lg key st' d \<Longrightarrow> d = e \<or> indexed lg key st d" for d by (auto simp: indexed_def st' split: if_splits)
  have w: "ie_writer e = w" using l(1,2) next_line_place by (simp add: entry_matches_def)
  have "awaiting S lg key (stored_ring lg st) st e" using l w unfolding awaiting_def by blast
  then have "index_ok S lg key st'"
    using ok unfolding store_ok_def index_ok_def f a r by (simp add: st')
  moreover have "covered lg key st'" using ok grow unfolding store_ok_def covered_def c by blast
  ultimately show "store_ok S lg key st'"
    using ok by (simp add: store_ok_def keyring_ok_def segments_ok_def pending_ok_def r nx) (simp add: st')
qed

section \<open>The steps of an append\<close>

lemma signed_statement:
  assumes "bindR (statementFor env p) (\<lambda>s. signSegmentLine env s key None) = Inr l"
  shows "sl_statement l = \<lparr>st_name = the (ep_target p), st_sha256 = sha256Hex (en_hash env) (the (ep_target p)), st_predicate = p\<rparr>"
    and "l = line_for env (sl_statement l) key None" and "ep_target p \<noteq> None"
    and "schema_line env l" and "schema_statement env (sl_statement l)"
  using assms by (auto simp: statementFor_def signSegmentLine_def line_for_def split: option.splits if_splits)

lemma built_line:
  assumes h: "segmentHead (lg_env lg) st w = Inr (count, hash)" and j: "job_ok lg key w job" and k: "key_known lg st job"
    and b: "build_line lg job count hash = Inr l" and S: "sl_statement l \<in> S"
  shows "next_line S lg (stored_ring lg st) st w l" and "st_predicate (sl_statement l) = aj_build job count hash (aj_recordedAt job)"
    and "role_of_phase (line_phase l) = aj_role job" and "line_effect l = aj_effectId job"
proof -
  let ?p = "aj_build job count hash (aj_recordedAt job)"
  note head = segmentHead_lines [OF h]
  note s = signed_statement [OF b [unfolded build_line_def]]
  have p: "ep_effectId ?p = aj_effectId job" "ep_writer ?p = w" "ep_seq ?p = count" "ep_prev ?p = hash" "ep_scope ?p = lg_scope lg"
    "effectIdBindingHolds (lg_env lg) ?p" "ep_phase ?p \<noteq> PhaseTombstone" "role_of_phase (ep_phase ?p) = aj_role job"
    using j unfolding job_ok_def plan_ok_def Let_def by blast+
  have law: "lawful_key (lg_env lg) (aj_key job)" using j by (simp add: job_ok_def)
  show pred: "st_predicate (sl_statement l) = ?p" using s(1) by simp
  have l: "sl_writer l = w" "sl_seq l = count" "sl_recordHash l = en_recordHash (lg_env lg) (sl_statement l)"
    "sl_signatures l = [\<lparr>sg_keyid = sk_keyid (aj_key job), sg_sig = sk_signPae (aj_key job) (StatementPayload (sl_statement l))\<rparr>]"
    using arg_cong [OF s(2), of sl_writer] arg_cong [OF s(2), of sl_seq] arg_cong [OF s(2), of sl_recordHash]
      arg_cong [OF s(2), of sl_signatures] pred p
    by (simp_all add: line_for_def)
  have "signed_line (lg_env lg) (stored_ring lg st) l"
    using k law l(4) unfolding signed_line_def key_known_def lawful_key_def by fastforce
  moreover have "hashed_line S (lg_env lg) l" using l(3) S unfolding hashed_line_def by metis
  moreover have "subjectBindingHolds (lg_env lg) (sl_statement l)" using s(1,3) p(7) by (auto simp: subjectBindingHolds_def)
  ultimately show "next_line S lg (stored_ring lg st) st w l"
    using s(4,5) l p pred head(2,3) unfolding next_line_def good_line_def Let_def by auto
  show "role_of_phase (line_phase l) = aj_role job" "line_effect l = aj_effectId job"
    using pred p by (simp_all add: line_phase_def line_effect_def original_phase_def)
qed

lemma entry_for_matches:
  assumes "next_line S lg ring st w l" and "role_of_phase (line_phase l) = Some role" and "line_effect l = i"
    and "ep_phase (st_predicate (sl_statement l)) \<noteq> PhaseTombstone"
  shows "entry_matches (index_entry_for (with_writer lg w) role i l) l"
    and "indexName (lg_hmac lg) key (lg_scope lg) i role = entry_name lg key (index_entry_for (with_writer lg w) role i l)"
  using assms good_lineD(3,4,6) [OF assms(1) [unfolded next_line_def]]
  by (simp_all add: entry_matches_def index_entry_for_def with_writer_def Let_def line_phase_def original_phase_def entry_name_def)

lemma with_writer_simps [simp]:
  "lg_env (with_writer lg w) = lg_env lg" "lg_hmac (with_writer lg w) = lg_hmac lg" "lg_scope (with_writer lg w) = lg_scope lg"
  "lg_writer (with_writer lg w) = w" "build_line (with_writer lg w) = build_line lg"
  by (simp_all add: with_writer_def build_line_def fun_eq_iff)

lemma ensureKeyring_writer [simp]: "ensureKeyring (with_writer lg w) = ensureKeyring lg"
  by (simp add: fun_eq_iff ensureKeyring_def storedKeyring_def cong: sum.case_cong option.case_cong)

lemma assertSigningKeyActive_writer [simp]: "assertSigningKeyActive (with_writer lg w) = assertSigningKeyActive lg"
  by (simp add: fun_eq_iff assertSigningKeyActive_def)

text \<open>A step of an append keeps the store and its own condition, and leaves what other writers read.\<close>

definition step_ok ::
    "effect_statement set \<Rightarrow> effect_ledger \<Rightarrow> string \<Rightarrow> string \<Rightarrow> append_job \<Rightarrow> effect_store \<Rightarrow> append_pc \<times> effect_store \<Rightarrow> bool" where
  "step_ok S lg key w job st s \<longleftrightarrow>
     store_ok S lg key (snd s) \<and> append_ok S lg key (snd s) w job (fst s)
     \<and> (\<forall>v j pc. v \<noteq> w \<longrightarrow> append_ok S lg key st v j pc \<longrightarrow> append_ok S lg key (snd s) v j pc)"

lemma step_okI:
  assumes "store_ok S lg key st'" and "append_ok S lg key st' w job pc" and "\<And>v. v \<noteq> w \<Longrightarrow> same_for lg key v st st'"
  shows "step_ok S lg key w job st (pc, st')"
  using assms unfolding step_ok_def by (auto intro: append_ok_same [where st = st])

lemma same_for_index:
  assumes "fs_index st' = fs_index st" and "fs_keyring st' = fs_keyring st" and "lines_of st' v = lines_of st v"
    and "torn st' v = torn st v" and "readPending st' v = readPending st v"
  shows "same_for lg key v st st'"
  using assms by (simp add: same_for_def indexed_def stored_ring_def)

lemma start_step:
  assumes "store_ok S lg key st" and "job_ok lg key w job" and "fingerprints_separate (lg_env lg)"
  shows "step_ok S lg key w job st (append_step (with_writer lg w) job AppendStart st)"
proof -
  obtain r st' where e: "ensureKeyring lg (aj_key job) (aj_genesisAt job) st = (r, st')" by fastforce
  have law: "lawful_key (lg_env lg) (aj_key job)" using assms(2) by (simp add: job_ok_def)
  note k = ensureKeyring_ok [OF e assms(1) law]
  have other: "\<forall>v j pc. v \<noteq> w \<longrightarrow> append_ok S lg key st v j pc \<longrightarrow> append_ok S lg key st' v j pc" using k(2) by blast
  show ?thesis
  proof (cases r)
    case (Inl err)
    then show ?thesis using e k(1) other by (simp add: step_ok_def)
  next
    case (Inr ring)
    note ring = k(3) [OF Inr]
    show ?thesis
    proof (cases "assertSigningKeyActive lg ring (aj_key job) (aj_recordedAt job)")
      case (Inl err)
      then show ?thesis using e k(1) other Inr by (simp add: step_ok_def)
    next
      case (Inr u)
      have "key_known lg st' job"
        using assertSigningKeyActive_known [OF Inr conjunct1 [OF ring] conjunct2 [OF ring] assms(3) law]
        by (simp add: key_known_def)
      then show ?thesis using e k(1) other \<open>r = Inr ring\<close> Inr by (simp add: step_ok_def)
    qed
  qed
qed

lemma repair_step:
  assumes ok: "store_ok S lg key st" and sep: "hashes_separate S (lg_env lg)" and small: "small_segments st"
    and a: "append_ok S lg key st w job AppendRepair"
  shows "step_ok S lg key w job st (append_step (with_writer lg w) job AppendRepair st)"
proof (cases "readPending st w")
  case None
  then show ?thesis using ok a cleared_settled [OF ok None] by (simp add: step_ok_def)
next
  case (Some p)
  show ?thesis
  proof (cases "segmentHead (lg_env lg) st w")
    case (Inl err)
    then show ?thesis using ok Some by (simp add: step_ok_def)
  next
    case (Inr head)
    show ?thesis
    proof (cases "repairs (lg_env lg) st w p head")
      case True
      obtain l e where l: "pa_line p = LineText l" "next_line S lg (stored_ring lg st) st w l" "indexed lg key st e" "entry_matches e l"
        using repairs_entry [OF ok sep Some Inr True] by blast
      have t: "\<not> torn st w" using segmentHead_lines(1) Inr by (metis surj_pair)
      have pend: "l' = l \<or> sl_seq l' < length (lines_of st w)"
        if "readPending st w = Some \<lparr>pa_indexName = m, pa_line = LineText l'\<rparr>" for m l'
        using that Some l(1) by auto
      have ex: "\<exists>e. indexed lg key st e \<and> entry_matches e l" using l(3,4) by blast
      have "step_ok S lg key w job st (AppendRepaired, appendSegmentLine w (LineText l) st)"
      proof (rule step_okI)
        show "store_ok S lg key (appendSegmentLine w (LineText l) st)"
          using append_line_ok(1) [OF ok t l(2) ex pend] .
        have "key_known lg (appendSegmentLine w (LineText l) st) job"
          using a by (simp add: key_known_def stored_ring_def)
        then show "append_ok S lg key (appendSegmentLine w (LineText l) st) w job AppendRepaired"
          using append_line_ok(2) [OF ok t l(2) ex pend] by simp
      qed (rule same_for_index, use t in simp_all)
      then show ?thesis using Some Inr True l(1) by simp
    next
      case False
      then show ?thesis using ok a Some Inr unrepaired_settled [OF ok small Some Inr False] by (simp add: step_ok_def)
    qed
  qed
qed

lemma clear_ok:
  assumes "store_ok S lg key st" and "settled lg key st w"
  shows "store_ok S lg key (clearPending w st)" and "settled lg key (clearPending w st) w" and "readPending (clearPending w st) w = None"
    and "v \<noteq> w \<Longrightarrow> same_for lg key v st (clearPending w st)" and "stored_ring lg (clearPending w st) = stored_ring lg st"
proof -
  have i: "fs_indexKey (clearPending w st) = fs_indexKey st" by simp
  show "store_ok S lg key (clearPending w st)"
    by (rule pending_change_ok(1) [OF assms]) simp_all
  show "settled lg key (clearPending w st) w"
    by (rule pending_change_ok(2) [OF assms]) simp_all
  show "readPending (clearPending w st) w = None" by simp
  show "v \<noteq> w \<Longrightarrow> same_for lg key v st (clearPending w st)" by (rule same_for_index) simp_all
  show "stored_ring lg (clearPending w st) = stored_ring lg st" by (simp add: stored_ring_def)
qed

lemma clear_steps:
  assumes "store_ok S lg key st" and "settled lg key st w"
  shows "append_ok S lg key st w job AppendRepaired \<Longrightarrow> step_ok S lg key w job st (append_step (with_writer lg w) job AppendRepaired st)"
    and "step_ok S lg key w job st (append_step (with_writer lg w) job (AppendLost l name) st)"
    and "step_ok S lg key w job st (append_step (with_writer lg w) job (AppendClear l) st)"
proof -
  note c = clear_ok [OF assms]
  have k: "key_known lg st job \<Longrightarrow> key_known lg (clearPending w st) job" by (simp add: key_known_def c(5))
  show "append_ok S lg key st w job AppendRepaired \<Longrightarrow> step_ok S lg key w job st (append_step (with_writer lg w) job AppendRepaired st)"
    using c k by (auto intro!: step_okI)
  show "step_ok S lg key w job st (append_step (with_writer lg w) job (AppendLost l name) st)"
    "step_ok S lg key w job st (append_step (with_writer lg w) job (AppendClear l) st)"
    using c by (auto intro!: step_okI)
qed

lemma write_pending_ok:
  assumes ok: "store_ok S lg key st" and s: "settled lg key st w" and l: "next_line S lg (stored_ring lg st) st w l"
  shows "store_ok S lg key (writePending w \<lparr>pa_indexName = name, pa_line = LineText l\<rparr> st)"
    and "settled lg key (writePending w \<lparr>pa_indexName = name, pa_line = LineText l\<rparr> st) w"
  by (rule pending_change_ok [OF ok s]; use l in auto)+

lemma build_step:
  assumes ok: "store_ok S lg key st" and j: "job_ok lg key w job" and a: "append_ok S lg key st w job AppendBuild"
    and S: "signs (fst (append_step (with_writer lg w) job AppendBuild st)) \<subseteq> S"
  shows "step_ok S lg key w job st (append_step (with_writer lg w) job AppendBuild st)"
proof (cases "segmentHead (lg_env lg) st w")
  case (Inl err)
  then show ?thesis using ok by (simp add: step_ok_def)
next
  case (Inr head)
  obtain count hash where h: "segmentHead (lg_env lg) st w = Inr (count, hash)" using Inr by (cases head) simp
  show ?thesis
  proof (cases "build_line lg job count hash")
    case (Inl err)
    then show ?thesis using ok h by (simp add: step_ok_def)
  next
    case (Inr l)
    have known: "key_known lg st job" "settled lg key st w" "readPending st w = None" using a by simp_all
    have "sl_statement l \<in> S" using S h Inr by (cases "aj_role job") (simp_all add: Let_def)
    note b = built_line [OF h j known(1) Inr this]
    show ?thesis
    proof (cases "aj_role job")
      case None
      then show ?thesis using ok h Inr b known segmentHead_lines(1) [OF h] by (simp add: step_ok_def)
    next
      case (Some role)
      let ?e = "index_entry_for (with_writer lg w) role (aj_effectId job) l"
      let ?n = "indexName (lg_hmac lg) key (lg_scope lg) (aj_effectId job) role"
      let ?st = "writePending w \<lparr>pa_indexName = ?n, pa_line = LineText l\<rparr> st"
      have phase: "ep_phase (st_predicate (sl_statement l)) \<noteq> PhaseTombstone"
        using b(2) j unfolding job_ok_def plan_ok_def Let_def by metis
      note e = entry_for_matches(1) [OF b(1) b(3) [unfolded Some] b(4) phase]
        entry_for_matches(2) [OF b(1) b(3) [unfolded Some] b(4) phase, of key]
      note p = write_pending_ok [OF ok known(2) b(1), of ?n]
      have r: "stored_ring lg ?st = stored_ring lg st" by (simp add: stored_ring_def)
      have "next_line S lg (stored_ring lg ?st) ?st w l" "\<not> torn ?st w" using b(1) segmentHead_lines(1) [OF h]
        by (simp_all add: r next_line_def)
      then have "step_ok S lg key w job st (AppendClaim l ?n ?e, ?st)"
        using p e by (intro step_okI same_for_index) simp_all
      then show ?thesis using h Inr Some j by (simp add: job_ok_def Let_def)
    qed
  qed
qed

lemma claim_step:
  assumes ok: "store_ok S lg key st" and a: "append_ok S lg key st w job (AppendClaim l name e)"
  shows "step_ok S lg key w job st (append_step (with_writer lg w) job (AppendClaim l name e) st)"
proof -
  obtain won st' where c: "claimIndex name e st = (won, st')" by fastforce
  have a': "\<not> torn st w" "settled lg key st w" "next_line S lg (stored_ring lg st) st w l" "entry_matches e l" "name = entry_name lg key e"
    "readPending st w = Some \<lparr>pa_indexName = entry_name lg key e, pa_line = LineText l\<rparr>" using a by auto
  from c show ?thesis
  proof (cases rule: claimIndex_cases)
    case 1
    note k = claim_ok [OF ok 1(2) [unfolded a'(5)] a'(3,4,6) 1(3) [unfolded a'(5)]]
    have r: "stored_ring lg st' = stored_ring lg st" "next_line S lg ring st' = next_line S lg ring st"
      "readPending st' = readPending st" "lines_of st' = lines_of st" "torn st' = torn st" for ring
      using 1(3) by (simp_all add: stored_ring_def next_line_def fun_eq_iff)
    have "ie_writer e = w" using a'(3,4) next_line_place by (simp add: entry_matches_def)
    then have "same_for lg key v st st'" if "v \<noteq> w" for v
      using that k(3,4) r unfolding same_for_def by metis
    moreover have "append_ok S lg key st' w job (AppendWrite l True)"
      using a' k(2) r by (simp del: lines_other pending_simps) metis
    ultimately show ?thesis using c 1(1) k(1) by (auto intro!: step_okI)
  next
    case 2
    then show ?thesis using ok a' c by (simp add: step_ok_def)
  qed
qed

lemma write_step:
  assumes ok: "store_ok S lg key st" and a: "append_ok S lg key st w job (AppendWrite l pending)"
  shows "step_ok S lg key w job st (append_step (with_writer lg w) job (AppendWrite l pending) st)"
proof -
  let ?st = "appendSegmentLine w (LineText l) st"
  have l: "next_line S lg (stored_ring lg st) st w l" and t: "\<not> torn st w" using a by simp_all
  have e: "\<exists>e. indexed lg key st e \<and> entry_matches e l" if "role_of_phase (line_phase l) \<noteq> None"
    using a that by (auto split: if_splits)
  have p: "l' = l \<or> sl_seq l' < length (lines_of st w)"
    if "readPending st w = Some \<lparr>pa_indexName = m, pa_line = LineText l'\<rparr>" for m l'
    using a that by (auto split: if_splits)
  note w = append_line_ok [OF ok t l e p]
  have s: "same_for lg key v st ?st" if "v \<noteq> w" for v by (rule same_for_index) (use that t in simp_all)
  show ?thesis using w s by (auto intro!: step_okI)
qed

lemma advance_step:
  assumes ok: "store_ok S lg key st" and j: "job_ok lg key w job" and a: "append_ok S lg key st w job pc"
    and r: "append_result pc = None" and small: "small_segments st"
    and S: "signs (fst (append_step (with_writer lg w) job pc st)) \<subseteq> S"
    and sep: "hashes_separate S (lg_env lg)" "fingerprints_separate (lg_env lg)"
  shows "step_ok S lg key w job st (append_step (with_writer lg w) job pc st)"
proof (cases pc)
  case AppendStart
  then show ?thesis using start_step [OF ok j sep(2)] by simp
next
  case AppendRepair
  then show ?thesis using repair_step [OF ok sep(1) small] a by simp
next
  case AppendRepaired
  then show ?thesis using clear_steps(1) [OF ok] a by (simp del: append_step.simps)
next
  case AppendBuild
  then show ?thesis using build_step [OF ok j] a S by (simp del: append_step.simps append_ok.simps)
next
  case AppendClaim
  then show ?thesis using claim_step [OF ok] a by (simp del: append_step.simps append_ok.simps)
next
  case AppendLost
  then show ?thesis using clear_steps(2) [OF ok] a by (simp del: append_step.simps)
next
  case AppendWinner
  then show ?thesis using ok a by (simp add: step_ok_def)
next
  case AppendWrite
  then show ?thesis using write_step [OF ok] a by (simp del: append_step.simps append_ok.simps)
next
  case AppendClear
  then show ?thesis using clear_steps(3) [OF ok] a by (simp del: append_step.simps)
next
  case AppendDone
  then show ?thesis using r by (simp add: append_result_def)
qed

section \<open>Purges\<close>

text \<open>What the index and the chain see of a line.\<close>

definition shadows :: "segment_line \<Rightarrow> segment_line \<Rightarrow> bool" where
  "shadows l l' \<longleftrightarrow>
     line_effect l' = line_effect l \<and> sl_recordHash l' = sl_recordHash l \<and> line_phase l' = line_phase l
     \<and> ep_payloadDigest (st_predicate (sl_statement l')) = ep_payloadDigest (st_predicate (sl_statement l))
     \<and> sl_writer l' = sl_writer l \<and> sl_seq l' = sl_seq l"

definition shadowed :: "line_text list \<Rightarrow> line_text list \<Rightarrow> bool" where
  "shadowed ts ts' \<longleftrightarrow> list_all2 (\<lambda>t t'. \<exists>l l'. t = LineText l \<and> t' = LineText l' \<and> shadows l l') ts ts'"

lemma shadowed_at:
  "shadowed ts ts' \<Longrightarrow> i < length ts \<Longrightarrow> \<exists>l l'. ts ! i = LineText l \<and> ts' ! i = LineText l' \<and> shadows l l'"
  by (simp add: shadowed_def list_all2_conv_all_nth)

lemma shadowed_length: "shadowed ts ts' \<Longrightarrow> length ts' = length ts"
  by (simp add: shadowed_def list_all2_lengthD)

lemma shadowed_hash: "shadowed ts ts' \<Longrightarrow> head_hash (take i ts') = head_hash (take i ts)"
proof -
  assume s: "shadowed ts ts'"
  have "list_all2 (\<lambda>t t'. line_hash t' = line_hash t) ts ts'"
    using s unfolding shadowed_def by (rule list_all2_mono) (auto simp: shadows_def)
  then have "map line_hash ts' = map line_hash ts" by (induction rule: list_all2_induct) simp_all
  then have "map line_hash (take i ts') = map line_hash (take i ts)" by (simp flip: take_map)
  moreover have "head_hash us = (if us = [] then None else last (map line_hash us))" for us by (simp add: head_hash_def last_map)
  ultimately show ?thesis by (metis list.map_disc_iff)
qed

lemma matches_shadow: "shadows l l' \<Longrightarrow> entry_matches e l' \<longleftrightarrow> entry_matches e l"
  by (simp add: shadows_def entry_matches_def)

lemma replace_ok:
  assumes ok: "store_ok S lg key st" and s: "shadowed (lines_of st w) ts"
    and g: "good_segment S (lg_env lg) (stored_ring lg st) (lg_scope lg) w ts"
  shows "store_ok S lg key (replaceSegment w ts st)"
proof -
  let ?st = "replaceSegment w ts st"
  have r: "stored_ring lg ?st = stored_ring lg st" by (simp add: stored_ring_def)
  have i: "indexed lg key ?st = indexed lg key st" by (simp add: indexed_def fun_eq_iff)
  have n: "next_line S lg ring ?st = next_line S lg ring st" for ring
    using shadowed_hash [OF s, of "length ts"] shadowed_length [OF s] by (simp add: next_line_def fun_eq_iff)
  have a: "awaiting S lg key ring ?st = awaiting S lg key ring st" for ring by (simp add: awaiting_def n fun_eq_iff)
  have onto: "\<exists>l'. recorded ?st v j l' \<and> shadows l l'" if "recorded st v j l" for v j l
    using that shadowed_at [OF s, of j] shadowed_length [OF s] by (auto simp: recorded_def shadows_def)
  have orig: "\<exists>l. recorded st v j l \<and> shadows l l'" if "recorded ?st v j l'" for v j l'
    using that shadowed_at [OF s, of j] shadowed_length [OF s] by (auto simp: recorded_def shadows_def split: if_splits)
  have "fulfilled ?st e" if "fulfilled st e" for e
    using that onto matches_shadow unfolding fulfilled_def by metis
  then have "index_ok S lg key ?st"
    using ok unfolding store_ok_def index_ok_def a r by simp metis
  moreover have "covered lg key ?st"
    unfolding covered_def i
  proof (intro allI impI)
    fix v j l' assume "recorded ?st v j l'" "role_of_phase (line_phase l') \<noteq> None"
    then obtain l where "recorded st v j l" "shadows l l'" "role_of_phase (line_phase l) \<noteq> None"
      using orig unfolding shadows_def by metis
    then show "\<exists>e. indexed lg key st e \<and> entry_matches e l'"
      using ok matches_shadow unfolding store_ok_def covered_def by blast
  qed
  ultimately show ?thesis
    using ok g shadowed_length [OF s]
    unfolding store_ok_def segments_ok_def pending_ok_def keyring_ok_def r n by simp
qed

lemma tombstone_good:
  assumes g: "good_line S env ring scope w i prev l" and live: "ep_phase (st_predicate (sl_statement l)) \<noteq> PhaseTombstone"
    and s: "signSegmentLine env (tombstone_statement (sl_statement l) l purgedAt) key (Some (sl_recordHash l)) = Inr l'"
    and k: "find_key ring (sk_keyid key) = Some k" "kk_publicKey k = sk_publicKey key" "lawful_key env key"
  shows "good_line S env ring scope w i prev l'" and "shadows l l'"
proof -
  let ?s = "tombstone_statement (sl_statement l) l purgedAt"
  have l': "l' = line_for env ?s key (Some (sl_recordHash l))" "schema_statement env ?s" "schema_line env l'"
    using s by (auto simp: signSegmentLine_def split: if_splits)
  have f: "sl_statement l' = ?s" "sl_recordHash l' = sl_recordHash l" "sl_signatures l' =
      [\<lparr>sg_keyid = sk_keyid key, sg_sig = sk_signPae key (StatementPayload ?s)\<rparr>]"
    "sl_writer l' = sl_writer l" "sl_seq l' = sl_seq l"
    using good_lineD(3-6) [OF g] by (simp_all add: l'(1) line_for_def tombstone_statement_def Let_def)
  have p: "ep_phase (st_predicate ?s) = PhaseTombstone" "ep_writer (st_predicate ?s) = ep_writer (st_predicate (sl_statement l))"
    "ep_seq (st_predicate ?s) = ep_seq (st_predicate (sl_statement l))" "ep_prev (st_predicate ?s) = ep_prev (st_predicate (sl_statement l))"
    "ep_scope (st_predicate ?s) = ep_scope (st_predicate (sl_statement l))"
    "et_originalRecordHash (the (ep_tombstone (st_predicate ?s))) = sl_recordHash l"
    "et_originalKeyid (the (ep_tombstone (st_predicate ?s))) = sg_keyid (hd (sl_signatures l))"
    "st_name ?s = ''aiwg-effect:'' @ ep_effectId (st_predicate ?s)"
    by (simp_all add: tombstone_statement_def Let_def)
  have "signed_line env ring l'"
    using k unfolding signed_line_def f lawful_key_def by fastforce
  moreover have "find_key ring (sg_keyid (hd (sl_signatures l))) \<noteq> None"
    using g unfolding good_line_def signed_line_def Let_def by auto
  moreover have "hashed_line S env l'"
    using good_lineD(8) [OF g] unfolding hashed_line_def f p by metis
  moreover have "subjectBindingHolds env ?s" "effectIdBindingHolds env (st_predicate ?s)"
    using p(1,8) by (simp_all add: subjectBindingHolds_def effectIdBindingHolds_def)
  moreover have "ep_scope (st_predicate (sl_statement l)) = scope" using g by (simp add: good_line_def Let_def)
  ultimately show "good_line S env ring scope w i prev l'"
    using good_lineD(3-7) [OF g] l'(2,3) p unfolding good_line_def Let_def f by simp
  show "shadows l l'"
    using live unfolding shadows_def f
    by (simp add: line_effect_def line_phase_def original_phase_def f tombstone_statement_def Let_def)
qed

text \<open>Each line of a purged segment is the line before the purge or its tombstone.\<close>

lemma purge_lines_cases:
  assumes "purge_lines lg ring key purgedAt i w index previous ts = Inr (ts', n)"
  shows "list_all2 (\<lambda>t t'. \<exists>l. t = LineText l \<and> (t' = t
      \<or> (ep_phase (st_predicate (sl_statement l)) \<noteq> PhaseTombstone \<and> (\<exists>l'. t' = LineText l'
        \<and> signSegmentLine (lg_env lg) (tombstone_statement (sl_statement l) l purgedAt) key (Some (sl_recordHash l)) = Inr l')))) ts ts'"
  using assms
proof (induction ts arbitrary: index previous ts' n)
  case (Cons t ts)
  obtain l where l: "t = LineText l" "decodeSegmentLine (lg_env lg) t = Inr l"
    using Cons.prems by (auto simp: decode_LineText split: sum.splits)
  obtain us m where us: "purge_lines lg ring key purgedAt i w (Suc index) (Some (sl_recordHash l)) ts = Inr (us, m)"
    and hd': "\<exists>t'. ts' = t' # us \<and> (t' = t \<or> (ep_phase (st_predicate (sl_statement l)) \<noteq> PhaseTombstone
      \<and> (\<exists>l'. t' = LineText l' \<and> signSegmentLine (lg_env lg) (tombstone_statement (sl_statement l) l purgedAt) key (Some (sl_recordHash l)) = Inr l')))"
    using Cons.prems l(2) by (auto simp: Let_def split: if_splits prod.splits)
  then show ?case using Cons.IH [OF us] l(1) by auto
qed simp

lemma purge_segment_ok:
  assumes p: "purge_segment lg k purgedAt i w st = (r, st')" and ok: "store_ok S lg key st" and law: "lawful_key (lg_env lg) k"
    and sep: "fingerprints_separate (lg_env lg)"
  shows "store_ok S lg key st'" and "v \<noteq> w \<Longrightarrow> same_for lg key v st st'"
proof -
  have "store_ok S lg key st' \<and> (v \<noteq> w \<longrightarrow> same_for lg key v st st')"
  proof (cases "st' = st")
    case True
    then show ?thesis using ok by (simp add: same_for_def)
  next
    case False
    then obtain ring f ts n where ring: "storedKeyring lg st = Inr ring" "assertSigningKeyActive lg ring k purgedAt = Inr ()"
      and f: "readSegment st w = Some f" "\<not> sf_torn f" "purge_lines lg ring k purgedAt i w 0 None (sf_lines f) = Inr (ts, n)"
      and st': "st' = replaceSegment w ts st"
      using p by (auto simp: purge_segment_def split: sum.splits option.splits if_splits)
    note stored = storedKeyring_Inr [OF ring(1)]
    have sr: "stored_ring lg st = ring" using keyring_stored stored by blast
    obtain a where a: "find_key ring (sk_keyid k) = Some a" "kk_publicKey a = sk_publicKey k"
      using assertSigningKeyActive_known [OF ring(2) conjunct1 [OF stored] conjunct2 [OF stored] sep law] sr by auto
    have lines: "lines_of st w = sf_lines f" using f(1,2) by (simp add: lines_of_def complete_lines_def)
    have good: "good_segment S (lg_env lg) ring (lg_scope lg) w (sf_lines f)"
      using ok lines sr unfolding store_ok_def segments_ok_def by metis
    have step: "\<exists>l l'. sf_lines f ! j = LineText l \<and> ts ! j = LineText l' \<and> shadows l l'
        \<and> good_line S (lg_env lg) ring (lg_scope lg) w j (head_hash (take j (sf_lines f))) l'" if j: "j < length (sf_lines f)" for j
    proof -
      obtain l where l: "sf_lines f ! j = LineText l" "ts ! j = sf_lines f ! j
          \<or> (ep_phase (st_predicate (sl_statement l)) \<noteq> PhaseTombstone \<and> (\<exists>l'. ts ! j = LineText l'
            \<and> signSegmentLine (lg_env lg) (tombstone_statement (sl_statement l) l purgedAt) k (Some (sl_recordHash l)) = Inr l'))"
        using list_all2_nthD [OF purge_lines_cases [OF f(3)] j] by blast
      have g: "good_line S (lg_env lg) ring (lg_scope lg) w j (head_hash (take j (sf_lines f))) l"
        by (rule good_segment_at [OF good j l(1)])
      from l(2) show ?thesis
      proof (elim disjE exE conjE)
        fix l' assume "ep_phase (st_predicate (sl_statement l)) \<noteq> PhaseTombstone" "ts ! j = LineText l'"
          "signSegmentLine (lg_env lg) (tombstone_statement (sl_statement l) l purgedAt) k (Some (sl_recordHash l)) = Inr l'"
        then show ?thesis using l(1) tombstone_good [OF g _ _ a law] by blast
      qed (use l(1) g in \<open>auto simp: shadows_def\<close>)
    qed
    have len: "length ts = length (sf_lines f)" using list_all2_lengthD [OF purge_lines_cases [OF f(3)]] by simp
    have sh: "shadowed (sf_lines f) ts"
      using step len unfolding shadowed_def list_all2_conv_all_nth by metis
    have "good_segment S (lg_env lg) ring (lg_scope lg) w ts"
      unfolding good_segment_def len shadowed_hash [OF sh] using step by metis
    then have "store_ok S lg key st'" unfolding st' using replace_ok [OF ok] sh lines sr by metis
    moreover have "same_for lg key v st st'" if "v \<noteq> w"
      unfolding st' by (rule same_for_index) (use that in simp_all)
    ultimately show ?thesis by blast
  qed
  then show "store_ok S lg key st'" "v \<noteq> w \<Longrightarrow> same_for lg key v st st'" by blast+
qed

section \<open>Runs\<close>

lemma tear_ok:
  assumes "store_ok S lg key st"
  shows "store_ok S lg key (tear w t st)" and "v \<noteq> w \<Longrightarrow> same_for lg key v st (tear w t st)"
proof -
  have l: "lines_of (tear w t st) = lines_of st" "readPending (tear w t st) = readPending st" by (simp_all add: fun_eq_iff)
  have i: "indexed lg key (tear w t st) = indexed lg key st" by (simp add: indexed_def fun_eq_iff)
  have c: "recorded (tear w t st) = recorded st" by (simp add: recorded_def fun_eq_iff)
  have f: "fulfilled (tear w t st) = fulfilled st" by (simp add: fulfilled_def c fun_eq_iff)
  have n: "next_line S lg ring (tear w t st) = next_line S lg ring st" for ring by (simp add: next_line_def fun_eq_iff)
  have a: "awaiting S lg key ring (tear w t st) = awaiting S lg key ring st" for ring by (simp add: awaiting_def n fun_eq_iff)
  have r: "stored_ring lg (tear w t st) = stored_ring lg st" by (simp add: stored_ring_def)
  show "store_ok S lg key (tear w t st)"
    using assms by (simp add: store_ok_def keyring_ok_def segments_ok_def index_ok_def covered_def pending_ok_def i c f n a r)
  have "torn (tear w t st) v = torn st v" if "v \<noteq> w" using that by (simp add: torn_def tear_def)
  then show "v \<noteq> w \<Longrightarrow> same_for lg key v st (tear w t st)" by (intro same_for_index) simp_all
qed

lemma step_world_ok:
  assumes "ledger_step S lg key u x" and "world_ok S lg key u" and "hashes_separate S (lg_env lg)" and "fingerprints_separate (lg_env lg)"
  shows "world_ok S lg key x"
  using assms(1)
proof (cases rule: ledger_step.cases)
  case (begin_append w job)
  then show ?thesis using assms(2) by (auto simp: world_ok_def appends_ok_def)
next
  case (advance w job pc pc' st)
  have w: "store_ok S lg key (lw_store u)" "appends_ok S lg key (lw_store u) (lw_appends u)"
    "job_ok lg key w job" "append_ok S lg key (lw_store u) w job pc"
    using assms(2) advance(2) unfolding world_ok_def appends_ok_def by blast+
  have "step_ok S lg key w job (lw_store u) (pc', st)"
    using advance_step [OF w(1,3,4) advance(3,4) _ assms(3,4)] advance(5,6) by simp
  then show ?thesis using w unfolding step_ok_def world_ok_def appends_ok_def advance(1) by (auto split: if_splits)
next
  case (leave w)
  then show ?thesis using assms(2) by (auto simp: world_ok_def appends_ok_def)
next
  case (tear_line w job pc t)
  have w: "store_ok S lg key (lw_store u)" "appends_ok S lg key (lw_store u) (lw_appends u)" using assms(2) by (simp_all add: world_ok_def)
  have "appends_ok S lg key (tear w t (lw_store u)) ((lw_appends u)(w := None))"
    by (rule appends_ok_leave [OF w(2) tear_ok(2) [OF w(1)]])
  then show ?thesis using tear_ok(1) [OF w(1)] unfolding tear_line(1) world_ok_def by simp
next
  case (create_keyring k at_time r st)
  have "store_ok S lg key (lw_store u)" "appends_ok S lg key (lw_store u) (lw_appends u)" using assms(2) by (simp_all add: world_ok_def)
  then show ?thesis using ensureKeyring_ok(1,2) [OF create_keyring(3) _ create_keyring(2)]
    unfolding create_keyring(1) world_ok_def appends_ok_def by simp
next
  case (rotate ring prior successor effectiveAt reason ring')
  have w: "store_ok S lg key (lw_store u)" "appends_ok S lg key (lw_store u) (lw_appends u)" using assms(2) by (simp_all add: world_ok_def)
  have fk: "fs_keyring (lw_store u) = Some (KeyringFile ring)"
    using rotate(2) by (auto simp: readKeyring_def split: option.splits keyring_file.splits)
  then have "keyringFailure (lg_env lg) ring (Some (lg_scope lg)) = None" using w(1) by (simp add: store_ok_def keyring_ok_def)
  note good = rotateKeyring_good [OF rotate(3) this]
  have "keys_kept (stored_ring lg (lw_store u)) ring'" using good(1) by (simp add: keyring_stored [OF fk])
  from ring_step [OF w(1) this good(2) refl] w(2) show ?thesis
    unfolding rotate(1) world_ok_def appends_ok_def by simp
next
  case (purge w k purgedAt i r st)
  have w: "store_ok S lg key (lw_store u)" "appends_ok S lg key (lw_store u) (lw_appends u)" using assms(2) by (simp_all add: world_ok_def)
  note p = purge_segment_ok [OF purge(4) w(1) purge(3) assms(4)]
  have "(lw_appends u)(w := None) = lw_appends u" using purge(2) by auto
  then have "appends_ok S lg key st (lw_appends u)" using appends_ok_leave [OF w(2), of w st] p(2) by metis
  then show ?thesis using p(1) unfolding purge(1) world_ok_def by simp
qed

lemma empty_ok: "world_ok S lg key (empty_ledger key)"
  by (simp add: world_ok_def empty_ledger_def store_ok_def keyring_ok_def segments_ok_def lines_of_def readSegment_def good_segment_def
      index_ok_def covered_def recorded_def pending_ok_def readPending_def appends_ok_def)

lemma run_world_ok:
  assumes "ledger_run S lg key u x" and "world_ok S lg key u" and "hashes_separate S (lg_env lg)" and "fingerprints_separate (lg_env lg)"
  shows "world_ok S lg key x"
  using assms by induction (auto intro: step_world_ok)

end
