(* ===== verification/EffectGuarantees.thy ===== *)
theory EffectGuarantees
  imports EffectSteps
begin

text \<open>
  What the effect ledger promises to writers that share it, in any order of their steps and with
  crashes between them: the first record wins, interrupted appends are completed, and the
  verification of a ledger that nobody tampered with finds nothing but signatures outside the
  window of their key and the lines of which a crash left only a part.
\<close>

section \<open>The plans of the operations\<close>

lemma intent_plan_ok:
  assumes "intent_id lg input = Inr i" and "lg_writer lg = w"
  shows "plan_ok lg w (append_job_for (intent_plan lg input (opt_default (ri_derivation input) (defaultDerivationFor (ri_kind input))) i)
    i k key gt rt)"
  using assms
  by (simp add: plan_ok_def append_job_for_def intent_plan_def effectIdBindingHolds_def intent_id_def Let_def)

lemma base_binding:
  assumes "effectIdBindingHolds env intent" and "ep_phase intent \<noteq> PhaseTombstone" and "phase \<noteq> PhaseTombstone"
  shows "effectIdBindingHolds env ((basePredicate intent phase d links w seq prev t)\<lparr>ep_verification := v, ep_failure := f\<rparr>)"
    and "effectIdBindingHolds env ((basePredicate intent phase d links w seq prev t)\<lparr>ep_verification := v\<rparr>)"
  using assms by (simp_all add: effectIdBindingHolds_def basePredicate_def)

lemma outcome_plan_ok:
  assumes "outcome_checks input = Inr u" and "effectIdBindingHolds (lg_env lg) intent" and "ep_phase intent \<noteq> PhaseTombstone"
    and "ep_scope intent = lg_scope lg" and "ep_effectId intent = i" and "lg_writer lg = w"
  shows "plan_ok lg w (append_job_for (outcome_plan lg input intent) i k key gt rt)"
proof -
  have p: "ro_phase input = PhaseCompleted \<or> ro_phase input = PhaseFailed"
    using assms(1) by (auto simp: outcome_checks_def split: if_splits)
  then show ?thesis
    using assms(2-6) base_binding(1) [OF assms(2,3), of "ro_phase input"]
    by (auto simp: plan_ok_def append_job_for_def outcome_plan_def Let_def) (simp_all add: basePredicate_def)
qed

lemma reconciled_plan_ok:
  assumes "effectIdBindingHolds (lg_env lg) intent" and "ep_phase intent \<noteq> PhaseTombstone"
    and "ep_scope intent = lg_scope lg" and "ep_effectId intent = i" and "lg_writer lg = w"
  shows "plan_ok lg w (append_job_for (reconciled_plan lg intent d v links) i k key gt rt)"
  using assms(3-5) base_binding(2) [OF assms(1,2), of PhaseReconciled]
  by (auto simp: plan_ok_def append_job_for_def reconciled_plan_def Let_def) (simp_all add: basePredicate_def)

section \<open>First writer wins\<close>

lemma indexed_unique:
  "indexed lg key st e \<Longrightarrow> indexed lg key st e' \<Longrightarrow> ie_effectId e = ie_effectId e' \<Longrightarrow> ie_role e = ie_role e' \<Longrightarrow> e = e'"
  by (simp add: indexed_def entry_name_def)

text \<open>C13: However the writers of a ledger interleave and crash, keys rotate and records are purged, the
  ledger holds at most one intent for an effect and at most one terminal outcome: two such records of
  one effect are the same line.\<close>

theorem first_writer_wins:
  assumes "ledger_run S lg key (empty_ledger key) u" and "hashes_separate S (lg_env lg)" and "fingerprints_separate (lg_env lg)"
    and "recorded (lw_store u) w i l" and "recorded (lw_store u) w' i' l'"
    and "line_effect l = line_effect l'" and "role_of_phase (line_phase l) = Some role" and "role_of_phase (line_phase l') = Some role"
  shows "w = w' \<and> i = i' \<and> l = l'"
proof -
  have ok: "store_ok S lg key (lw_store u)"
    using run_world_ok [OF assms(1) empty_ok assms(2,3)] by (simp add: world_ok_def)
  have place: "sl_writer m = v \<and> sl_seq m = j" if "recorded (lw_store u) v j m" for v j m
    using good_lineD(3,4) [OF recorded_good [OF _ that]] ok unfolding store_ok_def by blast
  have cov: "\<exists>e. indexed lg key (lw_store u) e \<and> entry_matches e m"
    if "recorded (lw_store u) v j m" "role_of_phase (line_phase m) = Some role" for v j m
    using ok that unfolding store_ok_def covered_def by blast
  obtain e e' where e: "indexed lg key (lw_store u) e" "entry_matches e l" "indexed lg key (lw_store u) e'" "entry_matches e' l'"
    using cov [OF assms(4,7)] cov [OF assms(5,8)] by blast
  have "e = e'" using indexed_unique [OF e(1,3)] e(2,4) assms(6-8) by (simp add: entry_matches_def)
  then have "w = w' \<and> i = i'" using e(2,4) place [OF assms(4)] place [OF assms(5)] by (simp add: entry_matches_def)
  then show ?thesis using assms(4,5) by (simp add: recorded_def)
qed

section \<open>Interrupted appends\<close>

text \<open>C15: When an append of a writer has returned a receipt, every index entry that the writer ever claimed
  has its record in the segment, those of appends that were interrupted after the claim too.\<close>

theorem append_settles_claims:
  assumes "ledger_run S lg key (empty_ledger key) u" and "hashes_separate S (lg_env lg)" and "fingerprints_separate (lg_env lg)"
    and "lw_appends u w = Some (job, AppendDone (Inr x))" and "indexed lg key (lw_store u) e" and "ie_writer e = w"
  shows "\<exists>l. recorded (lw_store u) w (ie_seq e) l \<and> entry_matches e l"
proof -
  have "append_ok S lg key (lw_store u) w job (AppendDone (Inr x))"
    using run_world_ok [OF assms(1) empty_ok assms(2,3)] assms(4) unfolding world_ok_def appends_ok_def by blast
  then show ?thesis using assms(5,6) unfolding append_ok.simps settled_def fulfilled_def by blast
qed

section \<open>Verification\<close>

lemma lineFailures_good:
  assumes "good_line S env ring scope w i prev l"
  shows "set (lineFailures env ring scope w i l prev) \<subseteq> {''key-window''}"
proof -
  obtain s k where s: "sl_signatures l = [s]" "find_key ring (sg_keyid s) = Some k"
    "en_verify env (kk_publicKey k) (StatementPayload (sl_statement l)) (sg_sig s)"
    using assms unfolding good_line_def signed_line_def Let_def by blast
  then have "set (signature_failure env ring (StatementPayload (sl_statement l)) t (sl_signatures l)) \<subseteq> {''key-window''}" for t
    by (simp add: checkSignature_def)
  then show ?thesis using assms unfolding good_line_def lineFailures_def Let_def by (auto simp: push_if_def split: if_splits)
qed

lemma head_hash_take: "i \<le> length ts \<Longrightarrow> head_hash (take i ts) = (if i = 0 then None else line_hash (ts ! (i - 1)))"
  by (auto simp: head_hash_def last_conv_nth min_def)

lemma verify_lines_good:
  assumes "\<And>j. j < length us \<Longrightarrow> \<exists>l. us ! j = LineText l
      \<and> good_line S env ring scope w (i + j) (if j = 0 then prev else line_hash (us ! (j - 1))) l"
  shows "fl_reason ` set (verify_lines env ring scope w i prev (map (decodeSegmentLine env) us)) \<subseteq> {''key-window''}"
  using assms
proof (induction us arbitrary: i prev)
  case (Cons u us)
  obtain l where l: "u = LineText l" "good_line S env ring scope w i prev l" using Cons.prems [of 0] by auto
  have d: "decodeSegmentLine env u = Inr l" using good_lineD(1,2) [OF l(2)] l(1) by (simp add: decode_LineText)
  have "\<exists>m. us ! j = LineText m \<and> good_line S env ring scope w (Suc i + j) (if j = 0 then Some (sl_recordHash l) else line_hash (us ! (j - 1))) m"
    if "j < length us" for j
    using Cons.prems [of "Suc j"] that l(1) by (cases j) simp_all
  note ih = Cons.IH [OF this]
  show ?case using ih lineFailures_good [OF l(2)] d by (auto simp: ledger_failure_at_def)
qed simp

lemma verify_segment_good:
  assumes "good_segment S env ring scope w ts"
  shows "fl_reason ` set (verify_lines env ring scope w 0 None (map (decodeSegmentLine env) ts)) \<subseteq> {''key-window''}"
proof (rule verify_lines_good)
  fix j assume j: "j < length ts"
  then show "\<exists>l. ts ! j = LineText l \<and> good_line S env ring scope w (0 + j) (if j = 0 then None else line_hash (ts ! (j - 1))) l"
    using assms head_hash_take [of j ts] unfolding good_segment_def by auto
qed

lemma read_writer: "readWriterSegment env st w = Some s \<Longrightarrow> rs_writer s = w"
  by (auto simp: readWriterSegment_def)

lemma find_read_segment:
  "find (\<lambda>s. rs_writer s = w) (List.map_filter (readWriterSegment env st) ws)
     = (if w \<in> set ws then readWriterSegment env st w else None)"
proof (induction ws)
  case (Cons x ws)
  have "rs_writer s = x" if "readWriterSegment env st x = Some s" for s using that by (rule read_writer)
  then show ?case using Cons by (cases "readWriterSegment env st x"; cases "x = w") (simp_all add: map_filter_simps)
qed (simp add: map_filter_simps)

lemma listWriters_iff: "w \<in> set (listWriters st) \<longleftrightarrow> WRITER_ID_PATTERN w \<and> readSegment st w \<noteq> None"
  by (auto simp: listWriters_def readSegment_def map_of_eq_None_iff)

lemma find_segment_all:
  "find_segment (readAllSegments env st) w = (if WRITER_ID_PATTERN w then readWriterSegment env st w else None)"
  unfolding find_segment_def readAllSegments_def find_read_segment
  by (auto simp: listWriters_iff readWriterSegment_def)

text \<open>A segment as read: its complete lines and, when it is torn, the one that is not complete.\<close>

lemma all_segments:
  assumes "s \<in> set (readAllSegments env st)"
  obtains ts where "rs_lines s = map (decodeSegmentLine env) (lines_of st (rs_writer s) @ ts)" and "length ts \<le> 1"
    and "rs_torn s = torn st (rs_writer s)" and "ts \<noteq> [] \<Longrightarrow> rs_torn s"
    and "rs_torn s \<Longrightarrow> length (rs_lines s) - 1 = length (lines_of st (rs_writer s))"
proof -
  obtain w where w: "readWriterSegment env st w = Some s"
    using assms by (auto simp: readAllSegments_def List.map_filter_def)
  then obtain f where f: "readSegment st w = Some f" "s = \<lparr>rs_writer = w, rs_torn = sf_torn f, rs_lines = map (decodeSegmentLine env) (sf_lines f)\<rparr>"
    by (auto simp: readWriterSegment_def)
  let ?ts = "if sf_torn f \<and> sf_lines f \<noteq> [] then [last (sf_lines f)] else []"
  have "sf_lines f = complete_lines f @ ?ts" by (simp add: complete_lines_def)
  then have "rs_lines s = map (decodeSegmentLine env) (lines_of st (rs_writer s) @ ?ts)"
    using f by (simp add: lines_of_def del: map_append)
  moreover have "rs_torn s = torn st (rs_writer s)" "lines_of st (rs_writer s) = complete_lines f"
    using f by (simp_all add: torn_def lines_of_def)
  ultimately show ?thesis using that [of ?ts] f(2) by (simp add: complete_lines_def split: if_splits)
qed

text \<open>A ledger in its invariant, with exact line numbers and keyed names in their format.\<close>

definition sound_ledger :: "effect_statement set \<Rightarrow> effect_ledger \<Rightarrow> string \<Rightarrow> effect_store \<Rightarrow> bool" where
  "sound_ledger S lg key st \<longleftrightarrow>
     store_ok S lg key st \<and> small_segments st \<and> index_key_text key
     \<and> (\<forall>k d s i. schema_hex 64 (lg_hmac lg k d s i))"

text \<open>A failure that concerns the incomplete last line of a torn segment.\<close>

definition about_torn_line :: "effect_store \<Rightarrow> ledger_failure \<Rightarrow> bool" where
  "about_torn_line st f \<longleftrightarrow>
     (\<exists>w. torn st w \<and> fl_writer f = Some w \<and> fl_seq f = Some (length (lines_of st w)))"

lemma verify_lines_last:
  assumes "length ts \<le> 1" and "f \<in> set (verify_lines env ring scope w i prev (ls @ ts))"
  shows "f \<in> set (verify_lines env ring scope w i prev ls)
    \<or> ts \<noteq> [] \<and> fl_writer f = Some w \<and> fl_seq f = Some (i + length ls)"
  using assms(2)
proof (induction ls arbitrary: i prev)
  case Nil
  then obtain t where "ts = [t]" using assms(1) by (cases ts) auto
  then show ?case using Nil by (cases t) (auto simp: ledger_failure_at_def)
next
  case (Cons x ls)
  then show ?case by (cases x) fastforce+
qed

lemma segment_failures:
  assumes "sound_ledger S lg key st"
    and f: "f \<in> set (fst (verifySegments (lg_env lg) (stored_ring lg st) (lg_scope lg) (readAllSegments (lg_env lg) st)))"
  shows "fl_reason f = ''key-window'' \<or> about_torn_line st f"
proof -
  have g: "segments_ok S lg st" using assms by (simp add: sound_ledger_def store_ok_def)
  obtain s where s: "s \<in> set (readAllSegments (lg_env lg) st)"
    "f \<in> set (push_if (rs_torn s) (ledger_failure_at ''segment-torn'' (rs_writer s) (length (rs_lines s) - 1)))
     \<or> f \<in> set (verify_lines (lg_env lg) (stored_ring lg st) (lg_scope lg) (rs_writer s) 0 None (rs_lines s))"
    using f unfolding verifySegments_def by auto
  obtain ts where ts: "rs_lines s = map (decodeSegmentLine (lg_env lg)) (lines_of st (rs_writer s) @ ts)" "length ts \<le> 1"
    "rs_torn s = torn st (rs_writer s)" "ts \<noteq> [] \<Longrightarrow> rs_torn s"
    "rs_torn s \<Longrightarrow> length (rs_lines s) - 1 = length (lines_of st (rs_writer s))"
    using all_segments [OF s(1)] by blast
  from s(2) show ?thesis
  proof
    assume "f \<in> set (push_if (rs_torn s) (ledger_failure_at ''segment-torn'' (rs_writer s) (length (rs_lines s) - 1)))"
    then show ?thesis using ts(3,5) by (auto simp: push_if_def ledger_failure_at_def about_torn_line_def split: if_splits)
  next
    assume "f \<in> set (verify_lines (lg_env lg) (stored_ring lg st) (lg_scope lg) (rs_writer s) 0 None (rs_lines s))"
    then consider (complete) "f \<in> set (verify_lines (lg_env lg) (stored_ring lg st) (lg_scope lg) (rs_writer s) 0 None
        (map (decodeSegmentLine (lg_env lg)) (lines_of st (rs_writer s))))"
      | (last) "ts \<noteq> []" "fl_writer f = Some (rs_writer s)" "fl_seq f = Some (length (lines_of st (rs_writer s)))"
      using verify_lines_last [of "map (decodeSegmentLine (lg_env lg)) ts" f] ts(1,2) by fastforce
    then show ?thesis
    proof cases
      case complete
      then show ?thesis
        using verify_segment_good [of S "lg_env lg" "stored_ring lg st" "lg_scope lg" "rs_writer s" "lines_of st (rs_writer s)"]
          g unfolding segments_ok_def by auto
    next
      case last
      then show ?thesis using ts(3,4) unfolding about_torn_line_def by blast
    qed
  qed
qed

lemma line_in_segment:
  assumes "sound_ledger S lg key st" and "recorded st w i l"
  shows "\<exists>s. find_segment (readAllSegments (lg_env lg) st) w = Some s \<and> i < length (rs_lines s) \<and> rs_lines s ! i = Inr l"
proof -
  have ok: "segments_ok S lg st" using assms(1) by (simp add: sound_ledger_def store_ok_def)
  note g = good_lineD [OF recorded_good [OF ok assms(2)]]
  have "WRITER_ID_PATTERN w" using g(1,3) by (auto simp: schema_line_def)
  moreover obtain f where f: "readSegment st w = Some f" using assms(2) by (cases "readSegment st w") (auto simp: recorded_def lines_of_def)
  moreover have "i < length (sf_lines f)" "sf_lines f ! i = LineText l"
    using assms(2) f by (auto simp: recorded_def lines_of_def complete_lines_def nth_butlast split: if_splits)
  ultimately show ?thesis using g(1,2) by (simp add: find_segment_all readWriterSegment_def decode_LineText)
qed

lemma entry_readable:
  assumes s: "sound_ledger S lg key st" and n: "map_of (fs_index st) name = Some v"
  obtains e where "readIndexEntry st name = Inr (Some e)" and "name = entry_name lg key e" and "indexed lg key st e"
    and "fulfilled st e \<or> awaiting S lg key (stored_ring lg st) st e"
proof -
  have ok: "store_ok S lg key st" "small_segments st" using s by (simp_all add: sound_ledger_def)
  obtain e where e: "v = IndexFile e" "name = entry_name lg key e" "indexed lg key st e"
    "fulfilled st e \<or> awaiting S lg key (stored_ring lg st) st e"
    using index_entry_ok [OF ok(1) n] by metis
  have "isIndexEntry e"
  proof (cases "fulfilled st e")
    case True
    then obtain l where l: "entry_matches e l" "recorded st (ie_writer e) (ie_seq e) l" unfolding fulfilled_def by blast
    have "segments_ok S lg st" using ok(1) by (simp add: store_ok_def)
    note g = good_lineD(1,2,4) [OF recorded_good [OF this l(2)]]
    have "sl_seq l < length (lines_of st (ie_writer e))" using l(2) g(3) by (simp add: recorded_def)
    then have "sl_seq l \<le> length (lines_of st (ie_writer e))" by simp
    then show ?thesis by (rule line_isIndexEntry [OF l(1) g(1,2) _ ok(2)])
  next
    case False
    then obtain l where "entry_matches e l" "next_line S lg (stored_ring lg st) st (ie_writer e) l"
      using e(4) unfolding awaiting_def by blast
    then show ?thesis using entry_isIndexEntry ok(2) by blast
  qed
  then have "readIndexEntry st name = Inr (Some e)" using n e(1) by (simp add: readIndexEntry_def)
  then show ?thesis using that e by blast
qed

lemma entries_readable:
  assumes s: "sound_ledger S lg key st"
  obtains entries where "listIndexEntries st = Inr entries"
    and "\<And>name e. (name, e) \<in> set entries \<Longrightarrow> name = entry_name lg key e \<and> indexed lg key st e
      \<and> (fulfilled st e \<or> awaiting S lg key (stored_ring lg st) st e)"
    and "\<And>e. indexed lg key st e \<Longrightarrow> (entry_name lg key e, e) \<in> set entries"
proof -
  let ?names = "sort (remdups (filter (\<lambda>n. schema_hex 64 (take 64 n) \<and> drop 64 n = ''.json'') (map fst (fs_index st))))"
  let ?read = "\<lambda>name. bindR (readIndexEntry st name) (\<lambda>e. Inr (name, the e))"
  have "\<exists>e. ?read name = Inr (name, e)
      \<and> name = entry_name lg key e \<and> indexed lg key st e \<and> (fulfilled st e \<or> awaiting S lg key (stored_ring lg st) st e)"
    if "name \<in> set ?names" for name
  proof -
    have "map_of (fs_index st) name \<noteq> None" using that unfolding map_of_eq_None_iff by auto
    then obtain v where "map_of (fs_index st) name = Some v" by blast
    from entry_readable [OF s this] obtain e where e: "readIndexEntry st name = Inr (Some e)"
      "name = entry_name lg key e \<and> indexed lg key st e \<and> (fulfilled st e \<or> awaiting S lg key (stored_ring lg st) st e)" by metis
    show ?thesis by (rule exI [of _ e]) (use e in simp)
  qed
  then have "\<forall>name. \<exists>e. name \<in> set ?names \<longrightarrow> ?read name = Inr (name, e)
      \<and> name = entry_name lg key e \<and> indexed lg key st e \<and> (fulfilled st e \<or> awaiting S lg key (stored_ring lg st) st e)" by blast
  from choice [OF this] obtain g where gs: "\<forall>name. name \<in> set ?names \<longrightarrow> ?read name = Inr (name, g name)
      \<and> name = entry_name lg key (g name) \<and> indexed lg key st (g name)
      \<and> (fulfilled st (g name) \<or> awaiting S lg key (stored_ring lg st) st (g name))" ..
  have g: "?read name = Inr (name, g name)
      \<and> name = entry_name lg key (g name) \<and> indexed lg key st (g name)
      \<and> (fulfilled st (g name) \<or> awaiting S lg key (stored_ring lg st) st (g name))" if "name \<in> set ?names" for name
    using gs that by blast
  have "listIndexEntries st = Inr (map (\<lambda>n. (n, g n)) ?names)"
    unfolding listIndexEntries_def mapR_Inr_iff list_all2_conv_all_nth using g nth_mem [of _ ?names] by fastforce
  moreover have "(entry_name lg key e, e) \<in> set (map (\<lambda>n. (n, g n)) ?names)" if e: "indexed lg key st e" for e
  proof -
    have "schema_hex 64 (lg_hmac lg k d z i)" for k d z i using s by (simp add: sound_ledger_def)
    then have "schema_hex 64 (take 64 (entry_name lg key e)) \<and> drop 64 (entry_name lg key e) = ''.json''"
      by (simp add: entry_name_def indexName_def schema_hex_def)
    moreover have "entry_name lg key e \<in> fst ` set (fs_index st)"
      using e unfolding indexed_def by (metis map_of_eq_None_iff option.distinct(1))
    ultimately have n: "entry_name lg key e \<in> set ?names" by auto
    have "readIndexEntry st (entry_name lg key e) = Inr (Some (g (entry_name lg key e)))
        \<or> map_of (fs_index st) (entry_name lg key e) = None"
      using g [OF n] by (auto simp: readIndexEntry_def split: option.splits index_file.splits if_splits)
    then have "g (entry_name lg key e) = e"
      using e by (auto simp: indexed_def readIndexEntry_def split: if_splits)
    then show ?thesis using n by force
  qed
  ultimately show ?thesis using that [of "map (\<lambda>n. (n, g n)) ?names"] g by auto
qed

lemma verdict_sound:
  assumes s: "sound_ledger S lg key st" and n: "name = entry_name lg key e"
    and e: "fulfilled st e \<or> awaiting S lg key (stored_ring lg st) st e"
  shows "entry_verdict_for lg key st (readAllSegments (lg_env lg) st) (name, e) \<in> {EntryPending, EntryClaims}
      \<or> torn st (ie_writer e) \<and> ie_seq e = length (lines_of st (ie_writer e))"
    and "fulfilled st e \<Longrightarrow> entry_verdict_for lg key st (readAllSegments (lg_env lg) st) (name, e) = EntryClaims"
proof -
  show c: "entry_verdict_for lg key st (readAllSegments (lg_env lg) st) (name, e) = EntryClaims" if f: "fulfilled st e"
  proof -
    obtain l where l: "entry_matches e l" "recorded st (ie_writer e) (ie_seq e) l" using f unfolding fulfilled_def by blast
    then obtain g where g: "find_segment (readAllSegments (lg_env lg) st) (ie_writer e) = Some g"
      "ie_seq e < length (rs_lines g)" "rs_lines g ! ie_seq e = Inr l"
      using line_in_segment [OF s] by blast
    have "(ie_role e = RoleIntent) = (line_phase l = PhaseIntent)"
      using l(1) unfolding entry_matches_def by (cases "line_phase l") auto
    then show ?thesis
      using g l(1) n unfolding entry_verdict_for_def entry_matches_def line_phase_def line_effect_def
      by (simp add: entry_name_def Let_def)
  qed
  show "entry_verdict_for lg key st (readAllSegments (lg_env lg) st) (name, e) \<in> {EntryPending, EntryClaims}
      \<or> torn st (ie_writer e) \<and> ie_seq e = length (lines_of st (ie_writer e))"
  proof (cases "fulfilled st e \<or> torn st (ie_writer e)")
    case False
    then obtain l where l: "entry_matches e l" "next_line S lg (stored_ring lg st) st (ie_writer e) l"
      "readPending st (ie_writer e) = Some \<lparr>pa_indexName = entry_name lg key e, pa_line = LineText l\<rparr>"
      using e unfolding awaiting_def by blast
    have seq: "ie_seq e = length (lines_of st (ie_writer e))" using l(1,2) next_line_place by (simp add: entry_matches_def)
    have "length (rs_lines g) \<le> ie_seq e" if "find_segment (readAllSegments (lg_env lg) st) (ie_writer e) = Some g" for g
    proof -
      have "g \<in> set (readAllSegments (lg_env lg) st)" "rs_writer g = ie_writer e"
        using that by (auto simp: find_segment_def find_Some_iff)
      then show ?thesis using all_segments [of g "lg_env lg" st] seq False
        by (metis append.right_neutral length_map order_refl)
    qed
    then show ?thesis using l(3) n unfolding entry_verdict_for_def by (auto simp: entry_name_def split: option.split)
  next
    case True
    then show ?thesis
    proof
      assume "torn st (ie_writer e)"
      moreover have "ie_seq e = length (lines_of st (ie_writer e))" if nf: "\<not> fulfilled st e"
      proof -
        obtain l where "entry_matches e l" "next_line S lg (stored_ring lg st) st (ie_writer e) l"
          using e nf unfolding awaiting_def by blast
        then show ?thesis using next_line_place by (simp add: entry_matches_def)
      qed
      ultimately show ?thesis using c by blast
    qed (use c in simp)
  qed
qed

lemma unclaimed_none:
  assumes "\<And>j l. j < length ls \<Longrightarrow> ls ! j = Inr l \<Longrightarrow> role_of_phase (line_phase l) \<noteq> None \<Longrightarrow> (w, i + j) \<in> set claimed"
  shows "unclaimed claimed w i ls = []"
  using assms
proof (induction ls arbitrary: i)
  case (Cons x ls)
  have "unclaimed claimed w (Suc i) ls = []" using Cons.prems [of "Suc _"] by (intro Cons.IH) fastforce
  moreover have "(w, i) \<in> set claimed" if "x = Inr l" "original_phase (st_predicate (sl_statement l)) \<in> {PhaseIntent, PhaseCompleted, PhaseFailed}" for l
    using Cons.prems [of 0 l] that by (auto simp: line_phase_def)
  ultimately show ?case by (cases x) (auto simp: push_if_def)
qed simp

lemma unclaimed_last:
  assumes "length ts \<le> 1" and "f \<in> set (unclaimed claimed w i (ls @ ts))"
  shows "f \<in> set (unclaimed claimed w i ls) \<or> ts \<noteq> [] \<and> fl_writer f = Some w \<and> fl_seq f = Some (i + length ls)"
  using assms(2)
proof (induction ls arbitrary: i)
  case Nil
  then obtain t where "ts = [t]" using assms(1) by (cases ts) auto
  then show ?case using Nil by (cases t) (auto simp: ledger_failure_at_def push_if_def split: if_splits)
next
  case (Cons x ls)
  then show ?case by (cases x) fastforce+
qed

lemma index_agrees:
  assumes s: "sound_ledger S lg key st" and f: "f \<in> set (fst (verifyIndex lg st (readAllSegments (lg_env lg) st)))"
  shows "about_torn_line st f"
proof -
  let ?segments = "readAllSegments (lg_env lg) st"
  have k: "fs_indexKey st = Some key" "index_key_text key" "covered lg key st" using s by (simp_all add: sound_ledger_def store_ok_def)
  obtain entries where entries: "listIndexEntries st = Inr entries"
    and sound: "\<And>name e. (name, e) \<in> set entries \<Longrightarrow> name = entry_name lg key e \<and> indexed lg key st e
      \<and> (fulfilled st e \<or> awaiting S lg key (stored_ring lg st) st e)"
    and complete: "\<And>e. indexed lg key st e \<Longrightarrow> (entry_name lg key e, e) \<in> set entries"
    using entries_readable [OF s] by blast
  let ?verdict = "entry_verdict_for lg key st ?segments"
  let ?claimed = "map (\<lambda>(_, e). (ie_writer e, ie_seq e)) (filter (\<lambda>n. ?verdict n = EntryClaims) entries)"
  let ?entry_failures = "concat (map (\<lambda>(name, e). case ?verdict (name, e) of
      EntryFails reason \<Rightarrow> [ledger_failure_at reason (ie_writer e) (ie_seq e)] | _ \<Rightarrow> []) entries)"
  have entry: "about_torn_line st h" if h: "h \<in> set ?entry_failures" for h
  proof -
    obtain name e reason where n: "(name, e) \<in> set entries" "?verdict (name, e) = EntryFails reason"
      "h = ledger_failure_at reason (ie_writer e) (ie_seq e)"
      using h by (force split: entry_verdict.splits)
    have "torn st (ie_writer e) \<and> ie_seq e = length (lines_of st (ie_writer e))"
      using verdict_sound(1) [OF s] sound [OF n(1)] n(2) by force
    then show ?thesis using n(3) by (auto simp: about_torn_line_def ledger_failure_at_def)
  qed
  have missing: "about_torn_line st h" if g: "g \<in> set ?segments" "h \<in> set (unclaimed ?claimed (rs_writer g) 0 (rs_lines g))" for g h
  proof -
    let ?ls = "map (decodeSegmentLine (lg_env lg)) (lines_of st (rs_writer g))"
    obtain ts where ts: "rs_lines g = map (decodeSegmentLine (lg_env lg)) (lines_of st (rs_writer g) @ ts)" "length ts \<le> 1"
      "rs_torn g = torn st (rs_writer g)" "ts \<noteq> [] \<Longrightarrow> rs_torn g"
      using all_segments [OF g(1)] by blast
    have "unclaimed ?claimed (rs_writer g) 0 ?ls = []"
    proof (rule unclaimed_none)
      fix j l assume j: "j < length ?ls" "?ls ! j = Inr l" "role_of_phase (line_phase l) \<noteq> None"
      have r: "recorded st (rs_writer g) j l" using j(1,2) by (simp add: recorded_def decode_LineText)
      then obtain e where e: "indexed lg key st e" "entry_matches e l" using k(3) j(3) unfolding covered_def by blast
      have "segments_ok S lg st" using s by (simp add: sound_ledger_def store_ok_def)
      then have place: "ie_writer e = rs_writer g" "ie_seq e = j"
        using good_lineD(3,4) [OF recorded_good [OF _ r]] e(2) by (simp_all add: entry_matches_def)
      have f: "fulfilled st e" using e(2) r unfolding fulfilled_def place by blast
      have "?verdict (entry_name lg key e, e) = EntryClaims" using verdict_sound(2) [OF s refl] f by blast
      then show "(rs_writer g, 0 + j) \<in> set ?claimed" using complete [OF e(1)] place by force
    qed
    then show ?thesis
      using unclaimed_last [of "map (decodeSegmentLine (lg_env lg)) ts" h ?claimed "rs_writer g" 0 ?ls] g(2) ts
      unfolding about_torn_line_def by fastforce
  qed
  have "f \<in> set ?entry_failures \<or> (\<exists>g \<in> set ?segments. f \<in> set (unclaimed ?claimed (rs_writer g) 0 (rs_lines g)))"
    using f k(1,2) entries by (simp add: verifyIndex_def Let_def)
  then show ?thesis using entry missing by blast
qed

lemma no_keys_no_lines:
  assumes "segments_ok S lg st" and "fs_keyring st = None"
  shows "lines_of st w = []"
proof (rule ccontr)
  assume n: "lines_of st w \<noteq> []"
  have "good_segment S (lg_env lg) (no_keys (lg_scope lg)) (lg_scope lg) w (lines_of st w)"
    using assms by (simp add: segments_ok_def stored_ring_def)
  then obtain l where "good_line S (lg_env lg) (no_keys (lg_scope lg)) (lg_scope lg) w 0 (head_hash (take 0 (lines_of st w))) l"
    using n unfolding good_segment_def by blast
  then show False by (simp add: good_line_def signed_line_def no_keys_def find_key_def Let_def)
qed

definition plain_verification :: verify_options where
  "plain_verification = \<lparr>vy_sink = SinkSkipped, vy_checkIndex = True, vy_trustedKeyids = None\<rparr>"

lemma sound_verifies:
  assumes s: "sound_ledger S lg key st" and c: "fs_checkpoints st = []" and t: "\<And>w. torn st w \<Longrightarrow> fs_keyring st \<noteq> None"
    and f: "f \<in> set (lv_failures (verifyLedger lg plain_verification st))"
  shows "fl_reason f = ''key-window'' \<or> about_torn_line st f"
proof (cases "fs_keyring st")
  case None
  have ok: "segments_ok S lg st" using s by (simp add: sound_ledger_def store_ok_def)
  have "rs_lines g = []" if g: "g \<in> set (readAllSegments (lg_env lg) st)" for g
    using all_segments [OF g] no_keys_no_lines [OF ok None] t None by (metis append_Nil list.map_disc_iff)
  then have "\<not> list_ex (\<lambda>g. rs_lines g \<noteq> []) (readAllSegments (lg_env lg) st)" by (auto simp: list_ex_iff)
  then show ?thesis using None c f
    by (simp add: verifyLedger_def readKeyring_def readLocalCheckpoints_def ledger_result_def Let_def)
next
  case (Some file')
  have k: "keyring_ok lg st" using s by (simp add: sound_ledger_def store_ok_def)
  then obtain ring where ring: "file' = KeyringFile ring" "keyringFailure (lg_env lg) ring (Some (lg_scope lg)) = None"
    using Some by (cases file') (auto simp: keyring_ok_def)
  then have sr: "stored_ring lg st = ring" using Some by (simp add: stored_ring_def)
  let ?segments = "readAllSegments (lg_env lg) st"
  have "lv_failures (verifyLedger lg plain_verification st)
      = fst (verifySegments (lg_env lg) ring (lg_scope lg) ?segments) @ fst (verifyIndex lg st ?segments)"
    using Some ring c
    by (simp add: verifyLedger_def readKeyring_def verify_with_keyring_def plain_verification_def readLocalCheckpoints_def
        sink_check_def ledger_result_def Let_def split: prod.split)
  then show ?thesis using segment_failures [OF s] index_agrees [OF s] sr f by auto
qed

section \<open>Checkpoints stay\<close>

lemma checkpoints_simps [simp]:
  "fs_checkpoints (writePending w p st) = fs_checkpoints st" "fs_checkpoints (clearPending w st) = fs_checkpoints st"
  "fs_checkpoints (appendSegmentLine w t st) = fs_checkpoints st" "fs_checkpoints (replaceSegment w ts st) = fs_checkpoints st"
  "fs_checkpoints (tear w t st) = fs_checkpoints st"
  by (simp_all add: writePending_def clearPending_def appendSegmentLine_def replaceSegment_def tear_def)

lemma ensureKeyring_checkpoints: "fs_checkpoints (snd (ensureKeyring lg k t st)) = fs_checkpoints st"
  by (auto simp: ensureKeyring_def Let_def split: sum.split option.split)

lemma append_checkpoints: "fs_checkpoints (snd (append_step lg job pc st)) = fs_checkpoints st"
proof (cases pc)
  case AppendStart
  then show ?thesis using ensureKeyring_checkpoints [of lg "aj_key job" "aj_genesisAt job" st]
    by (auto split: prod.split sum.split)
qed (auto simp: claimIndex_def Let_def split: prod.split sum.split option.split)

lemma purge_checkpoints: "fs_checkpoints (snd (purge_segment lg k t i w st)) = fs_checkpoints st"
  by (auto simp: purge_segment_def split: sum.split)

lemma step_checkpoints:
  assumes "ledger_step S lg key u x"
  shows "fs_checkpoints (lw_store x) = fs_checkpoints (lw_store u)"
  using assms
proof (cases rule: ledger_step.cases)
  case (advance w job pc pc' st)
  then show ?thesis using append_checkpoints [of "with_writer lg w" job pc "lw_store u"] by simp
next
  case (create_keyring k at_time r st)
  then show ?thesis using ensureKeyring_checkpoints [of lg k at_time "lw_store u"] by simp
next
  case (purge w k purgedAt i r st)
  then show ?thesis using purge_checkpoints [of lg k purgedAt i w "lw_store u"] by simp
qed simp_all

lemma run_checkpoints:
  "ledger_run S lg key u x \<Longrightarrow> fs_checkpoints (lw_store x) = fs_checkpoints (lw_store u)"
  by (induction rule: ledger_run.induct) (simp_all add: step_checkpoints)

section \<open>Torn segments have keys\<close>

lemma append_torn:
  assumes "torn (snd (append_step lg job pc st)) w"
  shows "torn st w"
proof (cases pc)
  case AppendStart
  have "torn (snd (ensureKeyring lg k t st)) = torn st" for k t
    by (auto simp: ensureKeyring_def Let_def split: sum.split option.split)
  then show ?thesis using AppendStart assms by (auto split: prod.splits sum.splits) (metis snd_conv)+
qed (use assms in \<open>auto simp: claimIndex_def Let_def split: prod.splits sum.splits option.splits if_splits\<close>)

lemma ensureKeyring_stays: "fs_keyring st \<noteq> None \<Longrightarrow> fs_keyring (snd (ensureKeyring lg k t st)) \<noteq> None"
  by (auto simp: ensureKeyring_def Let_def split: sum.split option.split)

lemma keyring_stays: "fs_keyring st \<noteq> None \<Longrightarrow> fs_keyring (snd (append_step lg job pc st)) \<noteq> None"
proof (cases pc)
  case AppendStart
  assume "fs_keyring st \<noteq> None"
  from ensureKeyring_stays [OF this, of lg "aj_key job" "aj_genesisAt job"] AppendStart show ?thesis
    by (auto split: prod.split sum.split)
qed (auto simp: claimIndex_def Let_def split: prod.split sum.split option.split)

lemma purge_segment_torn: "torn (snd (purge_segment lg k t i v st)) w \<Longrightarrow> torn st w"
  by (auto simp: purge_segment_def split: sum.splits if_splits)

lemma purge_segment_keyring: "fs_keyring (snd (purge_segment lg k t i v st)) = fs_keyring st"
  by (auto simp: purge_segment_def split: sum.split)

lemma writes_with_keys:
  assumes "append_ok S lg key st w job pc" and "writes_line st w pc"
  shows "fs_keyring st \<noteq> None"
proof
  assume "fs_keyring st = None"
  then have "find_key (stored_ring lg st) i = None" for i by (simp add: stored_ring_def no_keys_def find_key_def)
  then show False using assms by (cases pc) (auto simp: key_known_def next_line_def good_line_def signed_line_def Let_def)
qed

lemma step_torn_keys:
  assumes "ledger_step S lg key u x" and "world_ok S lg key u" and "\<And>w. torn (lw_store u) w \<Longrightarrow> fs_keyring (lw_store u) \<noteq> None"
    and "torn (lw_store x) w"
  shows "fs_keyring (lw_store x) \<noteq> None"
  using assms(1)
proof (cases rule: ledger_step.cases)
  case (advance v job pc pc' st)
  then show ?thesis
    using assms(3,4) append_torn [of "with_writer lg v" job pc "lw_store u" w] keyring_stays [of "lw_store u" "with_writer lg v" job pc] by simp
next
  case (tear_line v job pc t)
  have "append_ok S lg key (lw_store u) v job pc" using assms(2) tear_line(2) unfolding world_ok_def appends_ok_def by blast
  then show ?thesis using writes_with_keys tear_line(3) by (simp add: tear_line(1))
next
  case (create_keyring k at_time r st)
  have "torn (snd (ensureKeyring lg k at_time (lw_store u))) = torn (lw_store u)"
    by (auto simp: ensureKeyring_def Let_def split: sum.split option.split)
  then show ?thesis using assms(3,4) create_keyring ensureKeyring_stays [of "lw_store u" lg k at_time] by simp
next
  case (purge v k purgedAt i r st)
  then show ?thesis
    using assms(3,4) purge_segment_torn [of lg k purgedAt i v "lw_store u" w] purge_segment_keyring [of lg k purgedAt i v "lw_store u"] by simp
qed (use assms(3,4) in auto)

lemma run_torn_keys:
  assumes "ledger_run S lg key (empty_ledger key) u" and "hashes_separate S (lg_env lg)" and "fingerprints_separate (lg_env lg)"
    and "torn (lw_store u) w"
  shows "fs_keyring (lw_store u) \<noteq> None"
proof -
  have "ledger_run S lg key v u \<Longrightarrow> v = empty_ledger key \<Longrightarrow> \<forall>w. torn (lw_store u) w \<longrightarrow> fs_keyring (lw_store u) \<noteq> None" for v
  proof (induction rule: ledger_run.induct)
    case (ledger_start u)
    then show ?case by (simp add: empty_ledger_def torn_def readSegment_def)
  next
    case (ledger_next u v x)
    then have "world_ok S lg key v" using run_world_ok [OF _ empty_ok assms(2,3)] by blast
    then show ?case using step_torn_keys [OF ledger_next.hyps(2)] ledger_next by blast
  qed
  then show ?thesis using assms(1,4) by blast
qed

text \<open>C14: The verification of a ledger that only its writers, its rotations and its purges have touched, with
  any of them interrupted anywhere, reports nothing but signatures outside the window of their key and
  failures located at the last line of a segment of which a crash left only a part: every chain, hash,
  identity and signature of the complete lines holds and the index agrees with them.\<close>

theorem untampered_ledger_verifies:
  assumes "ledger_run S lg key (empty_ledger key) u" and "hashes_separate S (lg_env lg)" and "fingerprints_separate (lg_env lg)"
    and "small_segments (lw_store u)" and "index_key_text key" and "\<And>k d s i. schema_hex 64 (lg_hmac lg k d s i)"
    and "f \<in> set (lv_failures (verifyLedger lg plain_verification (lw_store u)))"
  shows "fl_reason f = ''key-window''
    \<or> (\<exists>w. torn (lw_store u) w \<and> fl_writer f = Some w \<and> fl_seq f = Some (length (lines_of (lw_store u) w)))"
proof -
  have "sound_ledger S lg key (lw_store u)"
    using run_world_ok [OF assms(1) empty_ok assms(2,3)] assms(4-6) by (simp add: sound_ledger_def world_ok_def)
  moreover have "fs_checkpoints (lw_store u) = []" using run_checkpoints [OF assms(1)] by (simp add: empty_ledger_def)
  moreover have "fs_keyring (lw_store u) \<noteq> None" if "torn (lw_store u) w" for w using run_torn_keys [OF assms(1-3) that] .
  ultimately show ?thesis using sound_verifies [OF _ _ _ assms(7)] unfolding about_torn_line_def by blast
qed

end
