(* ===== verification/EffectEvidence.thy ===== *)
theory EffectEvidence
  imports EffectGuarantees
begin

text \<open>
  What the evidence of an effect ledger is worth: a checkpoint of the independent sink pins the
  records it anchors, except against the deletion of everything, and the index keeps a purged
  effect from being recorded as new.
\<close>

section \<open>Chains pin their records\<close>

fun read_hash :: "string + segment_line \<Rightarrow> string option" where
  "read_hash (Inl _) = None"
| "read_hash (Inr l) = Some (sl_recordHash l)"

definition read_statement :: "string + segment_line \<Rightarrow> effect_statement option" where
  "read_statement r = (case r of Inl _ \<Rightarrow> None | Inr l \<Rightarrow> Some (sl_statement l))"

definition live_read :: "string + segment_line \<Rightarrow> bool" where
  "live_read r = (case r of Inl _ \<Rightarrow> True | Inr l \<Rightarrow> ep_phase (st_predicate (sl_statement l)) \<noteq> PhaseTombstone)"

lemma verified_line:
  assumes "verify_lines env ring scope w i prev ls = []" and "j < length ls"
  shows "\<exists>l. ls ! j = Inr l \<and> lineFailures env ring scope w (i + j) l (if j = 0 then prev else read_hash (ls ! (j - 1))) = []"
  using assms
proof (induction ls arbitrary: i prev j)
  case (Cons x ls)
  obtain l where x: "x = Inr l" using Cons.prems(1) by (cases x) auto
  have f: "lineFailures env ring scope w i l prev = []"
    "verify_lines env ring scope w (Suc i) (Some (sl_recordHash l)) ls = []" using Cons.prems(1) x by auto
  show ?case
  proof (cases j)
    case 0
    then show ?thesis using f(1) x by simp
  next
    case (Suc k)
    then show ?thesis using Cons.IH [OF f(2), of k] Cons.prems(2) x by (cases k) auto
  qed
qed simp

lemma remdups_rev_Nil: "rev (remdups (rev xs)) = [] \<longleftrightarrow> xs = []"
  by simp

lemma no_lineFailures:
  assumes "lineFailures env ring scope w i l prev = []"
  shows "ep_prev (st_predicate (sl_statement l)) = prev"
    and "ep_phase (st_predicate (sl_statement l)) \<noteq> PhaseTombstone \<Longrightarrow> en_recordHash env (sl_statement l) = sl_recordHash l"
  using assms unfolding lineFailures_def Let_def remdups_rev_Nil by (auto simp: push_if_def split: if_splits)

text \<open>Two verified segments with live records that agree on one hash agree on all records up to it.\<close>

lemma chain_determines:
  assumes "verify_lines env ring scope w 0 None ls = []" and "verify_lines env ring' scope w 0 None ls' = []"
    and "n < length ls" and "n < length ls'" and "read_hash (ls ! n) = read_hash (ls' ! n)"
    and live: "\<And>j. j \<le> n \<Longrightarrow> live_read (ls ! j) \<and> live_read (ls' ! j)"
    and inj: "hashes_separate (sl_statement ` ({l. Inr l \<in> set ls} \<union> {l. Inr l \<in> set ls'})) env"
    and "j \<le> n"
  shows "read_statement (ls ! j) = read_statement (ls' ! j)"
proof -
  have agree: "read_statement (ls ! m) = read_statement (ls' ! m)
      \<and> (m \<noteq> 0 \<longrightarrow> read_hash (ls ! (m - 1)) = read_hash (ls' ! (m - 1)))"
    if m: "m < length ls" "m < length ls'" "read_hash (ls ! m) = read_hash (ls' ! m)" "live_read (ls ! m)" "live_read (ls' ! m)" for m
  proof -
    obtain a where a: "ls ! m = Inr a" "lineFailures env ring scope w (0 + m) a (if m = 0 then None else read_hash (ls ! (m - 1))) = []"
      using verified_line [OF assms(1) m(1)] by blast
    obtain b where b: "ls' ! m = Inr b" "lineFailures env ring' scope w (0 + m) b (if m = 0 then None else read_hash (ls' ! (m - 1))) = []"
      using verified_line [OF assms(2) m(2)] by blast
    have "sl_recordHash a = sl_recordHash b" using m(3) a(1) b(1) by simp
    then have "en_recordHash env (sl_statement a) = en_recordHash env (sl_statement b)"
      using no_lineFailures(2) [OF a(2)] no_lineFailures(2) [OF b(2)] m(4,5) a(1) b(1) by (simp add: live_read_def)
    moreover have "a \<in> {l. Inr l \<in> set ls} \<union> {l. Inr l \<in> set ls'}" "b \<in> {l. Inr l \<in> set ls} \<union> {l. Inr l \<in> set ls'}"
      using a(1) b(1) m(1,2) nth_mem by (metis UnI1 UnI2 mem_Collect_eq)+
    ultimately have "sl_statement a = sl_statement b"
      using inj unfolding hashes_separate_def by (meson imageI inj_onD)
    then show ?thesis using a b no_lineFailures(1) [OF a(2)] no_lineFailures(1) [OF b(2)] by (auto simp: read_statement_def split: if_splits)
  qed
  show ?thesis
    using assms(3-6,8)
  proof (induction n arbitrary: j)
    case 0
    then show ?case using agree [of 0] by simp
  next
    case (Suc n)
    note here = agree [OF Suc.prems(1,2,3)]
    have "read_statement (ls ! Suc n) = read_statement (ls' ! Suc n) \<and> read_hash (ls ! n) = read_hash (ls' ! n)"
      using here Suc.prems(4) by simp
    then show ?case using Suc.IH [of j] Suc.prems by (cases "j = Suc n") auto
  qed
qed

section \<open>Checkpoints\<close>

lemma verified_ledger:
  assumes "lv_failures (verifyLedger lg options st) = []" and "fs_keyring st \<noteq> None"
  obtains ring where "\<And>g. g \<in> set (readAllSegments (lg_env lg) st) \<Longrightarrow>
      \<not> rs_torn g \<and> verify_lines (lg_env lg) ring (lg_scope lg) (rs_writer g) 0 None (rs_lines g) = []"
    and "\<And>c. vy_sink options = SinkLatest (Some c) \<Longrightarrow> anchor_check (readAllSegments (lg_env lg) st) c = []"
proof -
  let ?env = "lg_env lg" and ?scope = "lg_scope lg" and ?segments = "readAllSegments (lg_env lg) st"
  obtain ring where ring: "readKeyring st = Inr (Some ring)" "keyringFailure ?env ring (Some ?scope) = None"
    using assms
    by (auto simp: verifyLedger_def readKeyring_def ledger_result_def Let_def split: option.splits keyring_file.splits)
  let ?locals = "readLocalCheckpoints st"
  obtain fs local where lc: "local_chain ?env ring ?scope 0 None None ?locals = (fs, local)" by fastforce
  obtain ss ws anchor where sk: "sink_check ?env ring ?scope ?locals local (vy_sink options) = (ss, ws, anchor)" using prod_cases3 by blast
  have none: "fst (verifySegments ?env ring ?scope ?segments) = []" "ss = []"
    "(case anchor of None \<Rightarrow> [] | Some (c, _) \<Rightarrow> anchor_check ?segments c) = []"
    using assms(1) ring lc sk
    by (auto simp: verifyLedger_def verify_with_keyring_def ledger_result_def Let_def split: prod.splits if_splits)
  have "\<not> rs_torn g \<and> verify_lines ?env ring ?scope (rs_writer g) 0 None (rs_lines g) = []" if "g \<in> set ?segments" for g
    using none(1) that by (auto simp: verifySegments_def push_if_def)
  moreover have "anchor_check ?segments c = []" if c: "vy_sink options = SinkLatest (Some c)" for c
  proof -
    have "anchor = Some (c, FromSink)"
      using sk none(2) unfolding c by (auto simp: sink_check_def Let_def push_if_def opt_holds_def split: option.splits if_splits)
    then show ?thesis using none(3) by simp
  qed
  ultimately show ?thesis using that by blast
qed

lemma anchored_segment:
  assumes "anchor_check segments c = []" and "w \<in> set (cb_writers (cp_body c))"
  shows "\<exists>g l. find_segment segments (cw_writer w) = Some g \<and> (\<not> rs_torn g \<longrightarrow> cw_count w \<le> length (rs_lines g))
    \<and> rs_lines g ! (cw_count w - 1) = Inr l \<and> sl_recordHash l = cw_headHash w"
proof -
  have "head_check segments (cb_sequence (cp_body c)) w = []" using assms by (simp add: anchor_check_def)
  then show ?thesis by (auto simp: head_check_def Let_def split: option.splits sum.splits if_splits)
qed

text \<open>C16: A checkpoint in the independent sink pins the history it was taken of: when a ledger verified
  as the checkpoint was written and a later state of it, with a keyring, verifies against the sink,
  every segment that had records then is still there with at least as many lines and the same record
  hash at the anchored head, and unless something in the two was purged, each of its records is where
  it was. Record hashes are taken not to collide on the statements of the two.\<close>

theorem history_is_anchored:
  assumes "lv_failures (verifyLedger lg options st) = []" and "fs_keyring st \<noteq> None"
    and "cb_writers (cp_body c) = checkpoint_writers (readAllSegments (lg_env lg) st)"
    and "vy_sink options' = SinkLatest (Some c)"
    and "lv_failures (verifyLedger lg options' st') = []" and "fs_keyring st' \<noteq> None"
    and "g \<in> set (readAllSegments (lg_env lg) st)" and "rs_lines g \<noteq> []"
    and "hashes_separate (sl_statement ` ({l. Inr l \<in> set (rs_lines g)}
      \<union> {l. \<exists>h \<in> set (readAllSegments (lg_env lg) st'). Inr l \<in> set (rs_lines h)})) (lg_env lg)"
  shows "\<exists>g' \<in> set (readAllSegments (lg_env lg) st').
    rs_writer g' = rs_writer g \<and> length (rs_lines g) \<le> length (rs_lines g')
    \<and> read_hash (rs_lines g' ! (length (rs_lines g) - 1)) = read_hash (last (rs_lines g))
    \<and> (list_all live_read (rs_lines g) \<longrightarrow> list_all live_read (rs_lines g') \<longrightarrow>
         map read_statement (take (length (rs_lines g)) (rs_lines g')) = map read_statement (rs_lines g))"
proof -
  let ?segments = "readAllSegments (lg_env lg) st" and ?later = "readAllSegments (lg_env lg) st'" and ?n = "length (rs_lines g) - 1"
  obtain ring where v: "verify_lines (lg_env lg) ring (lg_scope lg) (rs_writer g) 0 None (rs_lines g) = []"
    using verified_ledger [OF assms(1,2)] assms(7) by metis
  obtain ring' where later: "\<And>h. h \<in> set ?later \<Longrightarrow>
      \<not> rs_torn h \<and> verify_lines (lg_env lg) ring' (lg_scope lg) (rs_writer h) 0 None (rs_lines h) = []"
    and a: "anchor_check ?later c = []"
    using verified_ledger [OF assms(5,6)] assms(4) by metis
  have n: "?n < length (rs_lines g)" using assms(8) by simp
  obtain l where l: "rs_lines g ! ?n = Inr l" using verified_line [OF v n] by blast
  let ?w = "\<lparr>cw_writer = rs_writer g, cw_segment = segment_path (rs_writer g), cw_count = length (rs_lines g),
      cw_headHash = (case last (rs_lines g) of Inr l \<Rightarrow> sl_recordHash l | Inl _ \<Rightarrow> [])\<rparr>"
  have "?w \<in> set (cb_writers (cp_body c))" using assms(3,7,8) by (auto simp: checkpoint_writers_def)
  from anchored_segment [OF a this] obtain h m where h: "find_segment ?later (rs_writer g) = Some h"
    "\<not> rs_torn h \<longrightarrow> length (rs_lines g) \<le> length (rs_lines h)" "rs_lines h ! ?n = Inr m"
    "sl_recordHash m = (case last (rs_lines g) of Inr l \<Rightarrow> sl_recordHash l | Inl _ \<Rightarrow> [])" by auto
  have place: "h \<in> set ?later" "rs_writer h = rs_writer g" using h(1) by (auto simp: find_segment_def find_Some_iff)
  have len: "length (rs_lines g) \<le> length (rs_lines h)" using later [OF place(1)] h(2) by blast
  have n': "?n < length (rs_lines h)" using n len by linarith
  have head: "read_hash (rs_lines g ! ?n) = read_hash (rs_lines h ! ?n)"
    using h(3,4) l assms(8) by (simp add: last_conv_nth)
  have "map read_statement (take (length (rs_lines g)) (rs_lines h)) = map read_statement (rs_lines g)"
    if live: "list_all live_read (rs_lines g)" "list_all live_read (rs_lines h)"
  proof (rule nth_equalityI)
    fix j assume j: "j < length (map read_statement (take (length (rs_lines g)) (rs_lines h)))"
    have v': "verify_lines (lg_env lg) ring' (lg_scope lg) (rs_writer g) 0 None (rs_lines h) = []"
      using later [OF place(1)] place(2) by simp
    have "hashes_separate (sl_statement ` ({l. Inr l \<in> set (rs_lines g)} \<union> {l. Inr l \<in> set (rs_lines h)})) (lg_env lg)"
      unfolding hashes_separate_def
      by (rule inj_on_subset [OF assms(9) [unfolded hashes_separate_def]]) (use place(1) in blast)
    from chain_determines [OF v v' n n' head _ this, of j]
    show "map read_statement (take (length (rs_lines g)) (rs_lines h)) ! j = map read_statement (rs_lines g) ! j"
      using j live n n' len by (simp add: list_all_length)
  qed (use len in simp)
  then show ?thesis using place len head assms(8) by (intro bexI [of _ h]) (simp_all add: last_conv_nth)
qed

text \<open>Only the deletion of everything escapes: when the ledger is deleted with its keyring and its local
  checkpoints, the verification passes whatever the independent sink holds. It returns before it asks
  the sink, as it does for a ledger that was never written.\<close>

lemma deleted_ledger_verifies:
  "lv_failures (verifyLedger lg options
     \<lparr>fs_segments = [], fs_pending = [], fs_index = [], fs_keyring = None, fs_indexKey = None, fs_checkpoints = []\<rparr>) = []"
  by (simp add: verifyLedger_def readAllSegments_def listWriters_def readKeyring_def readLocalCheckpoints_def ledger_result_def
      map_filter_simps Let_def)

section \<open>Appends finish\<close>

definition step_append :: "effect_ledger \<Rightarrow> append_job \<Rightarrow> append_pc \<times> effect_store \<Rightarrow> append_pc \<times> effect_store" where
  "step_append lg job s = append_step lg job (fst s) (snd s)"

lemma run_append_done: "run_append lg job (AppendDone r) st = (r, st)"
  by (simp add: run_append.simps append_result_def)

lemma steps_finish:
  assumes "append_rank pc \<le> n"
  shows "(step_append lg job ^^ n) (pc, st) = (AppendDone (fst (run_append lg job pc st)), snd (run_append lg job pc st))"
  using assms
proof (induction n arbitrary: pc st)
  case 0
  then obtain r where "pc = AppendDone r" by (cases pc) simp_all
  then show ?case by (simp add: run_append_done)
next
  case (Suc n)
  let ?next = "append_step lg job pc st"
  show ?case
  proof (cases "append_result pc")
    case None
    then have "append_rank (fst ?next) \<le> n" using append_step_rank [OF None, of lg job st] Suc.prems by linarith
    from Suc.IH [OF this, of "snd ?next"] None show ?thesis
      by (simp add: funpow_swap1 [symmetric] funpow_Suc_right step_append_def run_append.simps [of lg job pc] del: funpow.simps)
  next
    case (Some r)
    then have "pc = AppendDone r" by (cases pc) (simp_all add: append_result_def)
    then show ?thesis using Suc.IH [of pc st]
      by (simp add: funpow_Suc_right step_append_def run_append_done del: funpow.simps)
  qed
qed

text \<open>Under the lock of its writer an append has answered after eight writes or reads of the store at
  the latest, whatever an interrupted append left behind, and its answer and its store are those of
  \<open>appendRecord\<close>.\<close>

theorem append_answers_in_eight_steps:
  "(step_append lg job ^^ 8) (AppendStart, st)
     = (AppendDone (fst (run_append lg job AppendStart st)), snd (run_append lg job AppendStart st))"
  by (rule steps_finish) simp

section \<open>Purged effects\<close>

lemma purge_segment_index:
  "fs_index (snd (purge_segment lg k t i w st)) = fs_index st" "fs_indexKey (snd (purge_segment lg k t i w st)) = fs_indexKey st"
  by (auto simp: purge_segment_def split: sum.split)

lemma purge_segments_index:
  "fs_index (snd (purge_segments lg k t i ws st)) = fs_index st \<and> fs_indexKey (snd (purge_segments lg k t i ws st)) = fs_indexKey st"
proof (induction ws arbitrary: st)
  case (Cons w ws)
  obtain r st' where "purge_segment lg k t i w st = (r, st')" by fastforce
  then show ?case using Cons [of st'] purge_segment_index [of lg k t i w st]
    by (cases "purge_segments lg k t i ws st'") (auto simp: bindL_def returnL_def split: sum.split)
qed (simp add: returnL_def)

lemma purgeEffect_index:
  "fs_index (snd (purgeEffect lg i policy hold purgedAt st)) = fs_index st
   \<and> fs_indexKey (snd (purgeEffect lg i policy hold purgedAt st)) = fs_indexKey st"
proof -
  have "fs_index (snd (purge_segments lg k t j ws st)) = fs_index st"
    "fs_indexKey (snd (purge_segments lg k t j ws st)) = fs_indexKey st" for k t j ws
    using purge_segments_index by blast+
  then show ?thesis
    unfolding purgeEffect_def Let_def
    by (auto simp: bindL_def returnL_def split: sum.splits prod.splits) (metis snd_conv)+
qed

text \<open>C40: A purge does not let an effect happen again: an intent recorded for a purged effect is answered
  from the index, as a replay of the purged record or as a conflict with it, and writes nothing.\<close>

theorem purged_effect_not_replayed:
  assumes "fs_indexKey st = Some key" and "index_key_text key"
    and "intent_id lg input = Inr i" and "assertPayloadDigest (ri_payloadDigest input) = Inr ()"
    and "readIndexEntry st (indexName (lg_hmac lg) key (lg_scope lg) i RoleIntent) = Inr (Some e)"
    and "purgeEffect lg i policy hold purgedAt st = (r, st')"
  shows "recordIntent lg input genesisAt recordedAt st' =
    ((if ie_payloadDigest e = ri_payloadDigest input
      then Inr (receiptFromEntry e (opt_default (ri_derivation input) (defaultDerivationFor (ri_kind input))) True)
      else Inl conflictError), st')"
proof -
  have same: "fs_index st' = fs_index st" "fs_indexKey st' = fs_indexKey st"
    using purgeEffect_index [of lg i policy hold purgedAt st] assms(6) by simp_all
  then have "readIndexEntry st' name = readIndexEntry st name" for name by (simp add: readIndexEntry_def)
  then show ?thesis using assms(1-5) same
    by (simp add: recordIntent_def bindL_def returnL_def prepareWrite_def loadIndexKey_def settle_intent_def Let_def)
qed

end
