(* ===== verification/EffectDemo.thy ===== *)
theory EffectDemo
  imports EffectEvidence
begin

text \<open>
  A run of two writers that share a ledger, which meets the hypotheses of the theorems on effect
  ledgers: the writer \<open>a\<close> records an intent, \<open>b\<close> records the same intent and loses, \<open>a\<close> records that
  the effect failed. At another end of the run a crash leaves only the beginning of that last record.
  A record hash is the writer and the number of the record.
\<close>

section \<open>The ledger\<close>

definition demo_hex :: "char \<Rightarrow> string" where
  "demo_hex c = ''sha256:'' @ demo_digit c"

definition demo_record_hash :: "effect_statement \<Rightarrow> string" where
  "demo_record_hash s =
     ''sha256:'' @ replicate 63 (hd (ep_writer (st_predicate s))) @ [if ep_seq (st_predicate s) = 0 then CHR ''0'' else CHR ''1'']"

definition demo_ledger_env :: effect_env where
  "demo_ledger_env = demo_effect_env\<lparr>en_recordHash := demo_record_hash, en_keyringDigest := (\<lambda>_. demo_hex CHR ''4''),
     en_writersDigest := (\<lambda>_. demo_hex CHR ''5''), en_checkpointDigest := (\<lambda>_. demo_hex CHR ''6'')\<rparr>"

definition demo_ledger :: effect_ledger where
  "demo_ledger = \<lparr>lg_env = demo_ledger_env, lg_hmac = (\<lambda>key domain scope i. demo_digit (if last domain = CHR ''t'' then CHR ''1'' else CHR ''2'')),
     lg_freshKey = demo_digit CHR ''3'', lg_scope = demo_effect_scope, lg_writer = ''a'', lg_signingKey = Inr (demo_key CHR ''a'')\<rparr>"

definition demo_index_key :: string where
  "demo_index_key = demo_digit CHR ''3''"

definition demo_intent :: intent_input where
  "demo_intent = \<lparr>ri_kind = ''git.commit'', ri_target = ''git:a'', ri_context = [], ri_payloadDigest = demo_hex CHR ''7'',
     ri_derivation = None, ri_links = None\<rparr>"

definition demo_effect :: string where
  "demo_effect = ''eff1_'' @ replicate 52 CHR ''a''"

definition demo_outcome :: outcome_input where
  "demo_outcome = \<lparr>ro_phase = PhaseFailed, ro_payloadDigest = demo_hex CHR ''7'', ro_verification = None,
     ro_failure = Some \<lparr>ef_reason = ''target-rejected'', ef_evidenceDigest = None\<rparr>, ro_links = None\<rparr>"

definition demo_intent_record :: "string \<Rightarrow> effect_predicate" where
  "demo_intent_record w = ap_build (intent_plan (with_writer demo_ledger w) demo_intent AiwgEffectV1 demo_effect) 0 None (demo_second CHR ''2'')"

definition demo_append :: "append_plan \<Rightarrow> append_job" where
  "demo_append plan = append_job_for plan demo_effect (demo_key CHR ''a'') demo_index_key (demo_second CHR ''1'') (demo_second CHR ''2'')"

definition demo_intent_job :: "string \<Rightarrow> append_job" where
  "demo_intent_job w = demo_append (intent_plan (with_writer demo_ledger w) demo_intent AiwgEffectV1 demo_effect)"

definition demo_outcome_job :: append_job where
  "demo_outcome_job = demo_append (outcome_plan (with_writer demo_ledger ''a'') demo_outcome (demo_intent_record ''a''))"

definition demo_statement :: "effect_predicate \<Rightarrow> effect_statement" where
  "demo_statement p = \<lparr>st_name = ''git:a'', st_sha256 = replicate 64 CHR ''0'', st_predicate = p\<rparr>"

definition demo_line :: "effect_predicate \<Rightarrow> segment_line" where
  "demo_line p = line_for demo_ledger_env (demo_statement p) (demo_key CHR ''a'') None"

definition demo_outcome_record :: effect_predicate where
  "demo_outcome_record = aj_build demo_outcome_job 1 (Some (demo_record_hash (demo_statement (demo_intent_record ''a'')))) (demo_second CHR ''2'')"

definition demo_statements :: "effect_statement set" where
  "demo_statements = demo_statement ` {demo_intent_record ''a'', demo_intent_record ''b'', demo_outcome_record}"

section \<open>Whole appends\<close>

lemma advance_path:
  assumes "ledger_run S lg key u v" and "lw_appends v w = Some (job, pc)" and "lw_store v = st"
    and "successively (\<lambda>s s'. append_result (fst s) = None \<and> small_segments (snd s)
      \<and> append_step (with_writer lg w) job (fst s) (snd s) = s' \<and> signs (fst s') \<subseteq> S) ((pc, st) # path)"
  shows "let s = last ((pc, st) # path) in
    ledger_run S lg key u (v\<lparr>lw_store := snd s, lw_appends := (lw_appends v)(w \<mapsto> (job, fst s))\<rparr>)"
  using assms
proof (induction path arbitrary: v pc st)
  case Nil
  have "v\<lparr>lw_store := st, lw_appends := (lw_appends v)(w \<mapsto> (job, pc))\<rparr> = v" using Nil.prems(2,3) by (simp add: fun_upd_idem)
  then show ?case using Nil.prems(1) by (simp add: Let_def del: fun_upd_apply)
next
  case (Cons s path)
  obtain pc' st' where s: "s = (pc', st')" by fastforce
  let ?v = "v\<lparr>lw_store := st', lw_appends := (lw_appends v)(w \<mapsto> (job, pc'))\<rparr>"
  have "ledger_step S lg key v ?v" using Cons.prems s by (intro advance [where pc = pc]) simp_all
  note run = ledger_next [OF Cons.prems(1) this]
  have "lw_appends ?v w = Some (job, pc')" "lw_store ?v = st'" by simp_all
  from Cons.IH [OF run this] Cons.prems(4) s show ?case by (simp add: Let_def del: fun_upd_apply)
qed

text \<open>An append that nobody hinders, of a writer that left nothing behind, before its first claim: it wins where its
  name is free and loses where it is not.\<close>

locale unhindered_append =
  fixes S :: "effect_statement set" and lg key u v w job ring s count hash l role name entry
  assumes run: "ledger_run S lg key u v" and idle: "lw_appends v w = None" and job: "job_ok lg key w job"
    and keys: "ensureKeyring (with_writer lg w) (aj_key job) (aj_genesisAt job) (lw_store v) = (Inr ring, s)"
    and active: "assertSigningKeyActive (with_writer lg w) ring (aj_key job) (aj_recordedAt job) = Inr ()"
    and clean: "readPending s w = None" and head: "segmentHead (lg_env lg) s w = Inr (count, hash)"
    and build: "build_line (with_writer lg w) job count hash = Inr l" and role: "aj_role job = Some role"
    and signed: "sl_statement l \<in> S" and small: "small_segments (lw_store v)" "small_segments s"
    and name: "name = indexName (lg_hmac lg) (aj_indexKey job) (lg_scope lg) (aj_effectId job) role"
    and entry: "entry = index_entry_for (with_writer lg w) role (aj_effectId job) l"
begin

lemma small_pending: "small_segments (writePending w p s)"
  using small(2) by (simp add: small_segments_def)

lemma begun: "ledger_run S lg key u (v\<lparr>lw_appends := (lw_appends v)(w \<mapsto> (job, AppendStart))\<rparr>)"
  using ledger_next [OF run begin_append [OF idle job]] .

lemma wins:
  assumes "map_of (fs_index s) name = None" and "small_segments (appendSegmentLine w (LineText l) s)"
  shows "ledger_run S lg key u (v\<lparr>lw_store := clearPending w (appendSegmentLine w (LineText l)
      (writePending w \<lparr>pa_indexName = name, pa_line = LineText l\<rparr> s\<lparr>fs_index := put_file name (IndexFile entry) (fs_index s)\<rparr>)),
    lw_appends := (lw_appends v)(w \<mapsto> (job, AppendDone (Inr (l, None))))\<rparr>)"
proof -
  let ?pending = "writePending w \<lparr>pa_indexName = name, pa_line = LineText l\<rparr> s"
  let ?claimed = "?pending\<lparr>fs_index := put_file name (IndexFile entry) (fs_index s)\<rparr>"
  let ?written = "appendSegmentLine w (LineText l) ?claimed"
  have "lines_of ?written = lines_of (appendSegmentLine w (LineText l) s)"
    by (simp add: lines_of_def appendSegmentLine_def writePending_def readSegment_def put_file_def update_conv fun_eq_iff)
  then have "small_segments ?claimed" "small_segments ?written"
    using small_pending assms(2) by (simp_all add: small_segments_def)
  then have "successively (\<lambda>s s'. append_result (fst s) = None \<and> small_segments (snd s)
      \<and> append_step (with_writer lg w) job (fst s) (snd s) = s' \<and> signs (fst s') \<subseteq> S)
    [(AppendStart, lw_store v), (AppendRepair, s), (AppendBuild, s), (AppendClaim l name entry, ?pending), (AppendWrite l True, ?claimed),
     (AppendClear l, ?written), (AppendDone (Inr (l, None)), clearPending w ?written)]"
    using keys active clean head build role signed small small_pending assms(1)
    by (simp add: append_result_def with_writer_def name entry Let_def claimIndex_def publishExclusive_def has_key_def)
  from advance_path [OF begun _ _ this] show ?thesis by (simp add: Let_def)
qed

lemma crashes:
  assumes "map_of (fs_index s) name = None"
  shows "ledger_run S lg key u (v\<lparr>lw_store := tear w t
      (writePending w \<lparr>pa_indexName = name, pa_line = LineText l\<rparr> s\<lparr>fs_index := put_file name (IndexFile entry) (fs_index s)\<rparr>),
    lw_appends := (lw_appends v)(w := None)\<rparr>)"
proof -
  let ?pending = "writePending w \<lparr>pa_indexName = name, pa_line = LineText l\<rparr> s"
  let ?claimed = "?pending\<lparr>fs_index := put_file name (IndexFile entry) (fs_index s)\<rparr>"
  have "successively (\<lambda>s s'. append_result (fst s) = None \<and> small_segments (snd s)
      \<and> append_step (with_writer lg w) job (fst s) (snd s) = s' \<and> signs (fst s') \<subseteq> S)
    [(AppendStart, lw_store v), (AppendRepair, s), (AppendBuild, s), (AppendClaim l name entry, ?pending), (AppendWrite l True, ?claimed)]"
    using keys active clean head build role signed small small_pending assms(1)
    by (simp add: append_result_def with_writer_def name entry Let_def claimIndex_def publishExclusive_def has_key_def)
  from advance_path [OF begun _ _ this]
  have run: "ledger_run S lg key u (v\<lparr>lw_store := ?claimed, lw_appends := (lw_appends v)(w \<mapsto> (job, AppendWrite l True))\<rparr>)"
    by (simp add: Let_def)
  have "\<not> torn ?claimed w" using segmentHead_lines(1) [OF head] by simp
  then show ?thesis using ledger_next [OF run tear_line [where w = w and job = job and pc = "AppendWrite l True" and t = t]] by simp
qed

lemma loses:
  assumes "readIndexEntry s name = Inr (Some winner)"
  shows "ledger_run S lg key u (v\<lparr>lw_store := clearPending w (writePending w \<lparr>pa_indexName = name, pa_line = LineText l\<rparr> s),
    lw_appends := (lw_appends v)(w \<mapsto> (job, AppendDone (Inr (l, Some winner))))\<rparr>)"
proof -
  let ?pending = "writePending w \<lparr>pa_indexName = name, pa_line = LineText l\<rparr> s"
  have "map_of (fs_index s) name \<noteq> None" using assms by (auto simp: readIndexEntry_def split: option.splits)
  moreover have "small_segments (clearPending w ?pending)" using small_pending by (simp add: small_segments_def)
  moreover have "readIndexEntry (clearPending w ?pending) name = Inr (Some winner)"
    using assms by (simp add: readIndexEntry_def)
  ultimately have "successively (\<lambda>s s'. append_result (fst s) = None \<and> small_segments (snd s)
      \<and> append_step (with_writer lg w) job (fst s) (snd s) = s' \<and> signs (fst s') \<subseteq> S)
    [(AppendStart, lw_store v), (AppendRepair, s), (AppendBuild, s), (AppendClaim l name entry, ?pending), (AppendLost l name, ?pending),
     (AppendWinner l name, clearPending w ?pending), (AppendDone (Inr (l, Some winner)), clearPending w ?pending)]"
    using keys active clean head build role signed small small_pending
    by (simp add: append_result_def with_writer_def name entry Let_def claimIndex_def publishExclusive_def has_key_def)
  from advance_path [OF begun _ _ this] show ?thesis by (simp add: Let_def)
qed

end

section \<open>The jobs\<close>

lemma demo_ledger_fields [simp]:
  "lg_env demo_ledger = demo_ledger_env" "lg_scope demo_ledger = demo_effect_scope" "lg_env (with_writer lg w) = lg_env lg"
  "lg_scope (with_writer lg w) = lg_scope lg" "lg_writer (with_writer lg w) = w" "lg_hmac (with_writer lg w) = lg_hmac lg"
  by (simp_all add: demo_ledger_def with_writer_def)

lemma demo_effect_id: "intent_id (with_writer demo_ledger w) demo_intent = Inr demo_effect"
proof -
  have "derive_v1 (en_hash demo_ledger_env) \<lparr>ei_scope = demo_effect_scope, ei_kind = ''git.commit'', ei_target = ''git:a'', ei_context = []\<rparr> = Inr demo_effect"
    by code_simp
  then show ?thesis by (simp add: intent_id_def demo_intent_def defaultDerivationFor_def)
qed

lemma plan_with_writer: "plan_ok (with_writer lg w) v job = plan_ok lg v job"
  by (simp add: plan_ok_def)

lemma demo_lawful: "lawful_key demo_ledger_env (demo_key c)"
  by (simp add: lawful_key_def demo_ledger_env_def demo_effect_env_def demo_key_def)

lemma demo_intent_ok: "job_ok demo_ledger demo_index_key w (demo_intent_job w)"
proof -
  have "plan_ok (with_writer demo_ledger w) w (demo_intent_job w)"
    using intent_plan_ok [OF demo_effect_id, of w w]
    by (simp add: demo_intent_job_def demo_append_def demo_intent_def defaultDerivationFor_def)
  then show ?thesis
    by (simp add: job_ok_def plan_with_writer) (simp add: demo_lawful demo_intent_job_def demo_append_def append_job_for_def)
qed

lemma demo_outcome_ok: "job_ok demo_ledger demo_index_key ''a'' demo_outcome_job"
proof -
  have c: "outcome_checks demo_outcome = Inr ()" by code_simp
  have b: "effectIdBindingHolds (lg_env (with_writer demo_ledger ''a'')) (demo_intent_record ''a'')"
    using demo_intent_ok [of "''a''"] by (simp add: job_ok_def plan_ok_def Let_def demo_intent_job_def demo_append_def append_job_for_def demo_intent_record_def)
  have "plan_ok (with_writer demo_ledger ''a'') ''a'' demo_outcome_job"
    unfolding demo_outcome_job_def demo_append_def
    by (rule outcome_plan_ok [OF c b]) (simp_all add: demo_intent_record_def intent_plan_def)
  then show ?thesis
    by (simp add: job_ok_def plan_with_writer) (simp add: demo_lawful demo_outcome_job_def demo_append_def append_job_for_def)
qed

lemma demo_keyring:
  "assertEffectKeyring demo_ledger_env demo_genesis = Inr ()" "keyringFailure demo_ledger_env demo_genesis (Some demo_effect_scope) = None"
  "assertSigningKeyActive demo_ledger demo_genesis (demo_key CHR ''a'') (demo_second CHR ''2'') = Inr ()"
  by code_simp+

lemma demo_build:
  "build_line (with_writer demo_ledger ''a'') (demo_intent_job ''a'') 0 None = Inr (demo_line (demo_intent_record ''a''))"
  "build_line (with_writer demo_ledger ''b'') (demo_intent_job ''b'') 0 None = Inr (demo_line (demo_intent_record ''b''))"
  "build_line (with_writer demo_ledger ''a'') demo_outcome_job 1 (Some (sl_recordHash (demo_line (demo_intent_record ''a'')))) = Inr (demo_line demo_outcome_record)"
  by code_simp+

lemma demo_decode:
  "decodeSegmentLine demo_ledger_env (LineText (demo_line (demo_intent_record ''a''))) = Inr (demo_line (demo_intent_record ''a''))"
  "decodeSegmentLine demo_ledger_env (LineText (demo_line demo_outcome_record)) = Inr (demo_line demo_outcome_record)"
  by code_simp+

section \<open>The run\<close>

definition demo_name :: "index_role \<Rightarrow> string" where
  "demo_name role = indexName (lg_hmac demo_ledger) demo_index_key demo_effect_scope demo_effect role"

definition demo_entry :: "string \<Rightarrow> index_role \<Rightarrow> effect_predicate \<Rightarrow> index_entry" where
  "demo_entry w role p = index_entry_for (with_writer demo_ledger w) role demo_effect (demo_line p)"

definition demo_store :: "effect_predicate list \<Rightarrow> (index_role \<times> effect_predicate) list \<Rightarrow> effect_store" where
  "demo_store records claims =
     \<lparr>fs_segments = (if records = [] then [] else [(''a'', \<lparr>sf_lines = map (LineText \<circ> demo_line) records, sf_torn = False\<rparr>)]),
      fs_pending = [], fs_index = map (\<lambda>(role, p). (demo_name role, IndexFile (demo_entry ''a'' role p))) claims,
      fs_keyring = Some (KeyringFile demo_genesis), fs_indexKey = Some demo_index_key, fs_checkpoints = []\<rparr>"

definition demo_world :: "effect_store \<Rightarrow> (string \<times> append_job \<times> append_pc) list \<Rightarrow> ledger_world" where
  "demo_world st appends = \<lparr>lw_store = st, lw_appends = map_of appends\<rparr>"

lemma demo_store_simps [simp]:
  "fs_keyring (demo_store r c) = Some (KeyringFile demo_genesis)" "fs_indexKey (demo_store r c) = Some demo_index_key"
  "readPending (demo_store r c) w = None"
  "fs_index (demo_store r c) = map (\<lambda>(role, p). (demo_name role, IndexFile (demo_entry ''a'' role p))) c"
  "readSegment (demo_store r c) w = (if w = ''a'' \<and> r \<noteq> [] then Some \<lparr>sf_lines = map (LineText \<circ> demo_line) r, sf_torn = False\<rparr> else None)"
  by (simp_all add: demo_store_def readPending_def readSegment_def)

lemma small_lines: "(\<And>w. length (lines_of st w) \<le> 2) \<Longrightarrow> small_segments st"
proof -
  assume "length (lines_of st w) \<le> 2" for w
  then have "int (length (lines_of st w)) \<le> int 2" for w by (simp only: of_nat_le_iff)
  moreover have "int 2 < max_safe_integer" by (simp add: max_safe_integer_def)
  ultimately have "int (length (lines_of st w)) < max_safe_integer" for w by (rule le_less_trans)
  then show ?thesis unfolding small_segments_def by blast
qed

lemma demo_lines [simp]: "lines_of (demo_store r c) w = (if w = ''a'' then map (LineText \<circ> demo_line) r else [])"
  by (simp add: lines_of_def complete_lines_def)

lemma demo_not_torn [simp]: "\<not> torn (demo_store r c) w"
  by (simp add: torn_def)

lemma demo_small: "length r \<le> 2 \<Longrightarrow> small_segments (demo_store r c)"
  by (rule small_lines) simp

lemma demo_ensure:
  "ensureKeyring (with_writer demo_ledger w) (demo_key CHR ''a'') (demo_second CHR ''1'') (lw_store (empty_ledger demo_index_key))
     = (Inr demo_genesis, demo_store [] [])"
  "ensureKeyring (with_writer demo_ledger w) (demo_key CHR ''a'') (demo_second CHR ''1'') (demo_store r c) = (Inr demo_genesis, demo_store r c)"
  using demo_keyring(1,2)
  by (simp_all add: ensureKeyring_def empty_ledger_def readKeyring_def storedKeyring_def assertKeyring_def Let_def
      demo_genesis_def [symmetric] demo_store_def)

lemma demo_active: "assertSigningKeyActive (with_writer demo_ledger w) demo_genesis (demo_key CHR ''a'') (demo_second CHR ''2'') = Inr ()"
  using demo_keyring(3) by (simp add: assertSigningKeyActive_def)

lemma demo_job [simp]:
  "aj_key (demo_append plan) = demo_key CHR ''a''" "aj_genesisAt (demo_append plan) = demo_second CHR ''1''"
  "aj_recordedAt (demo_append plan) = demo_second CHR ''2''" "aj_indexKey (demo_append plan) = demo_index_key"
  "aj_effectId (demo_append plan) = demo_effect" "aj_role (demo_append plan) = ap_role plan"
  by (simp_all add: demo_append_def append_job_for_def)

lemma demo_names: "demo_name RoleIntent \<noteq> demo_name RoleOutcome"
  by code_simp

lemma demo_entry_reads: "isIndexEntry (demo_entry ''a'' RoleIntent (demo_intent_record ''a''))"
  by code_simp

lemma demo_signed:
  "sl_statement (demo_line p) \<in> demo_statements \<longleftrightarrow> p \<in> {demo_intent_record ''a'', demo_intent_record ''b'', demo_outcome_record}"
  by (auto simp: demo_statements_def demo_line_def line_for_def demo_statement_def)

definition demo_world1 :: ledger_world where
  "demo_world1 = demo_world (demo_store [demo_intent_record ''a''] [(RoleIntent, demo_intent_record ''a'')])
     [(''a'', demo_intent_job ''a'', AppendDone (Inr (demo_line (demo_intent_record ''a''), None)))]"

lemma demo_jobs [simp]:
  "aj_key (demo_intent_job w) = demo_key CHR ''a''" "aj_genesisAt (demo_intent_job w) = demo_second CHR ''1''"
  "aj_recordedAt (demo_intent_job w) = demo_second CHR ''2''" "aj_indexKey (demo_intent_job w) = demo_index_key"
  "aj_effectId (demo_intent_job w) = demo_effect" "aj_role (demo_intent_job w) = Some RoleIntent"
  "aj_key demo_outcome_job = demo_key CHR ''a''" "aj_genesisAt demo_outcome_job = demo_second CHR ''1''"
  "aj_recordedAt demo_outcome_job = demo_second CHR ''2''" "aj_indexKey demo_outcome_job = demo_index_key"
  "aj_effectId demo_outcome_job = demo_effect" "aj_role demo_outcome_job = Some RoleOutcome"
  by (simp_all add: demo_intent_job_def demo_outcome_job_def intent_plan_def outcome_plan_def)

interpretation demo_first: unhindered_append demo_statements demo_ledger demo_index_key "empty_ledger demo_index_key"
    "empty_ledger demo_index_key" "''a''" "demo_intent_job ''a''" demo_genesis "demo_store [] []" 0 None
    "demo_line (demo_intent_record ''a'')" RoleIntent "demo_name RoleIntent" "demo_entry ''a'' RoleIntent (demo_intent_record ''a'')"
proof unfold_locales
  show "small_segments (lw_store (empty_ledger demo_index_key))" "small_segments (demo_store [] [])"
    by (auto intro: demo_small small_lines simp: empty_ledger_def lines_of_def readSegment_def)
  show "lw_appends (empty_ledger demo_index_key) ''a'' = None" by (simp add: empty_ledger_def)
qed (simp_all add: ledger_start demo_intent_ok demo_ensure [simplified] demo_active [simplified] demo_build [simplified] segmentHead_def demo_signed demo_name_def demo_entry_def)

text \<open>The intent of \<open>a\<close>, that of \<open>b\<close> and the outcome.\<close>

lemma demo_run1: "ledger_run demo_statements demo_ledger demo_index_key (empty_ledger demo_index_key) demo_world1"
proof -
  have "clearPending ''a'' (appendSegmentLine ''a'' (LineText (demo_line (demo_intent_record ''a'')))
      (writePending ''a'' \<lparr>pa_indexName = demo_name RoleIntent, pa_line = LineText (demo_line (demo_intent_record ''a''))\<rparr> (demo_store [] [])
        \<lparr>fs_index := put_file (demo_name RoleIntent) (IndexFile (demo_entry ''a'' RoleIntent (demo_intent_record ''a''))) (fs_index (demo_store [] []))\<rparr>))
    = demo_store [demo_intent_record ''a''] [(RoleIntent, demo_intent_record ''a'')]"
    by (simp add: demo_store_def clearPending_def writePending_def appendSegmentLine_def put_file_def remove_file_def readSegment_def appended_def)
  moreover have "small_segments (appendSegmentLine ''a'' (LineText (demo_line (demo_intent_record ''a''))) (demo_store [] []))"
    by (rule small_lines) simp
  ultimately show ?thesis using demo_first.wins
    by (simp add: demo_world1_def demo_world_def empty_ledger_def)
qed

definition demo_world2 :: ledger_world where
  "demo_world2 = demo_world (demo_store [demo_intent_record ''a''] [(RoleIntent, demo_intent_record ''a'')])
     [(''b'', demo_intent_job ''b'', AppendDone (Inr (demo_line (demo_intent_record ''b''), Some (demo_entry ''a'' RoleIntent (demo_intent_record ''a''))))),
      (''a'', demo_intent_job ''a'', AppendDone (Inr (demo_line (demo_intent_record ''a''), None)))]"

interpretation demo_second: unhindered_append demo_statements demo_ledger demo_index_key "empty_ledger demo_index_key"
    demo_world1 "''b''" "demo_intent_job ''b''" demo_genesis "demo_store [demo_intent_record ''a''] [(RoleIntent, demo_intent_record ''a'')]" 0 None
    "demo_line (demo_intent_record ''b'')" RoleIntent "demo_name RoleIntent" "demo_entry ''b'' RoleIntent (demo_intent_record ''b'')"
proof unfold_locales
  show "ledger_run demo_statements demo_ledger demo_index_key (empty_ledger demo_index_key) demo_world1" by (rule demo_run1)
qed (simp_all add: demo_world1_def demo_world_def demo_intent_ok demo_ensure [simplified] demo_active [simplified]
      demo_build [simplified] segmentHead_def demo_signed demo_name_def demo_entry_def demo_small)

lemma demo_run2: "ledger_run demo_statements demo_ledger demo_index_key (empty_ledger demo_index_key) demo_world2"
proof -
  let ?st = "demo_store [demo_intent_record ''a''] [(RoleIntent, demo_intent_record ''a'')]"
  have "clearPending ''b'' (writePending ''b'' \<lparr>pa_indexName = demo_name RoleIntent, pa_line = LineText (demo_line (demo_intent_record ''b''))\<rparr> ?st) = ?st"
    by (simp add: demo_store_def clearPending_def writePending_def put_file_def remove_file_def)
  moreover have "readIndexEntry ?st (demo_name RoleIntent) = Inr (Some (demo_entry ''a'' RoleIntent (demo_intent_record ''a'')))"
    by (simp add: readIndexEntry_def demo_entry_reads)
  ultimately show ?thesis using demo_second.loses by (simp add: demo_world1_def demo_world2_def demo_world_def)
qed

definition demo_world3 :: ledger_world where
  "demo_world3 = demo_world
     (demo_store [demo_intent_record ''a'', demo_outcome_record] [(RoleIntent, demo_intent_record ''a''), (RoleOutcome, demo_outcome_record)])
     [(''a'', demo_outcome_job, AppendDone (Inr (demo_line demo_outcome_record, None)))]"

interpretation demo_third: unhindered_append demo_statements demo_ledger demo_index_key "empty_ledger demo_index_key"
    "demo_world2\<lparr>lw_appends := (\<lambda>_. None)\<rparr>" "''a''" "demo_outcome_job" demo_genesis
    "demo_store [demo_intent_record ''a''] [(RoleIntent, demo_intent_record ''a'')]"
    1 "Some (sl_recordHash (demo_line (demo_intent_record ''a'')))"
    "demo_line demo_outcome_record" RoleOutcome "demo_name RoleOutcome" "demo_entry ''a'' RoleOutcome demo_outcome_record"
proof unfold_locales
  have "ledger_run demo_statements demo_ledger demo_index_key (empty_ledger demo_index_key)
      (demo_world2\<lparr>lw_appends := (lw_appends demo_world2)(''a'' := None)\<rparr>)"
    using ledger_next [OF demo_run2 leave] .
  from ledger_next [OF this leave [of _ _ _ _ "''b''"]]
  show "ledger_run demo_statements demo_ledger demo_index_key (empty_ledger demo_index_key) (demo_world2\<lparr>lw_appends := (\<lambda>_. None)\<rparr>)"
    by (simp add: demo_world2_def demo_world_def fun_upd_def cong: if_cong)
qed (simp_all add: demo_world2_def demo_world_def demo_outcome_ok demo_ensure [simplified] demo_active [simplified]
      demo_build [simplified] demo_decode segmentHead_def demo_signed demo_name_def demo_entry_def demo_small)

lemma demo_run3: "ledger_run demo_statements demo_ledger demo_index_key (empty_ledger demo_index_key) demo_world3"
proof -
  let ?st = "demo_store [demo_intent_record ''a''] [(RoleIntent, demo_intent_record ''a'')]"
  have "clearPending ''a'' (appendSegmentLine ''a'' (LineText (demo_line demo_outcome_record))
      (writePending ''a'' \<lparr>pa_indexName = demo_name RoleOutcome, pa_line = LineText (demo_line demo_outcome_record)\<rparr> ?st
        \<lparr>fs_index := put_file (demo_name RoleOutcome) (IndexFile (demo_entry ''a'' RoleOutcome demo_outcome_record)) (fs_index ?st)\<rparr>))
    = lw_store demo_world3"
    using demo_names
    by (simp add: demo_world3_def demo_world_def demo_store_def clearPending_def writePending_def appendSegmentLine_def put_file_def
        remove_file_def readSegment_def appended_def)
  moreover have "small_segments (appendSegmentLine ''a'' (LineText (demo_line demo_outcome_record)) ?st)"
    by (rule small_lines) simp
  moreover have "map_of (fs_index ?st) (demo_name RoleOutcome) = None" using demo_names by simp
  ultimately show ?thesis using demo_third.wins
    by (simp add: demo_world3_def demo_world2_def demo_world_def fun_upd_def)
qed

text \<open>The same run until the outcome is written, of which a crash leaves only the beginning.\<close>

definition demo_torn_store :: effect_store where
  "demo_torn_store = (let st = demo_store [demo_intent_record ''a''] [(RoleIntent, demo_intent_record ''a'')] in
     tear ''a'' (BrokenLine ''segment-line-malformed'')
       (writePending ''a'' \<lparr>pa_indexName = demo_name RoleOutcome, pa_line = LineText (demo_line demo_outcome_record)\<rparr> st
         \<lparr>fs_index := put_file (demo_name RoleOutcome) (IndexFile (demo_entry ''a'' RoleOutcome demo_outcome_record)) (fs_index st)\<rparr>))"

lemma demo_torn_run:
  "ledger_run demo_statements demo_ledger demo_index_key (empty_ledger demo_index_key) \<lparr>lw_store = demo_torn_store, lw_appends = (\<lambda>_. None)\<rparr>"
proof -
  let ?st = "demo_store [demo_intent_record ''a''] [(RoleIntent, demo_intent_record ''a'')]"
  have "map_of (fs_index ?st) (demo_name RoleOutcome) = None" using demo_names by simp
  from demo_third.crashes [OF this, of "BrokenLine ''segment-line-malformed''"] show ?thesis
    by (simp add: demo_torn_store_def Let_def fun_upd_def demo_world2_def demo_world_def)
qed

section \<open>The theorems at this run\<close>

lemma demo_separate: "hashes_separate demo_statements demo_ledger_env" "fingerprints_separate demo_ledger_env"
proof -
  have "distinct (map (demo_record_hash \<circ> demo_statement) [demo_intent_record ''a'', demo_intent_record ''b'', demo_outcome_record])"
    by code_simp
  moreover have "en_recordHash demo_ledger_env = demo_record_hash" by (simp add: demo_ledger_env_def)
  ultimately show "hashes_separate demo_statements demo_ledger_env" by (auto simp: hashes_separate_def demo_statements_def inj_on_def)
  show "fingerprints_separate demo_ledger_env" by (simp add: fingerprints_separate_def demo_ledger_env_def demo_effect_env_def)
qed

lemma demo_recorded:
  "recorded (lw_store demo_world3) ''a'' 0 (demo_line (demo_intent_record ''a''))"
  by (simp add: recorded_def demo_world3_def demo_world_def)

lemma demo_phase:
  "role_of_phase (line_phase (demo_line (demo_intent_record ''a''))) = Some RoleIntent"
  by code_simp

lemma first_writer_wins_witness:
  "line_effect (demo_line (demo_intent_record ''a'')) = demo_effect
   \<and> (''a'' = ''a'' \<and> 0 = (0::nat) \<and> demo_line (demo_intent_record ''a'') = demo_line (demo_intent_record ''a''))"
  (is "_ \<and> ?same")
proof
  show ?same
    by (rule first_writer_wins [OF demo_run3 _ _ demo_recorded demo_recorded refl demo_phase demo_phase]) (simp_all add: demo_separate)
qed code_simp

lemma demo_indexed:
  "indexed demo_ledger demo_index_key (lw_store demo_world3) (demo_entry ''a'' RoleIntent (demo_intent_record ''a''))"
  by (simp add: indexed_def entry_name_def demo_world3_def demo_world_def demo_entry_def index_entry_for_def Let_def demo_name_def)

lemma append_settles_claims_witness:
  "\<exists>l. recorded (lw_store demo_world3) ''a'' 0 l \<and> entry_matches (demo_entry ''a'' RoleIntent (demo_intent_record ''a'')) l"
proof -
  have e: "ie_writer (demo_entry ''a'' RoleIntent (demo_intent_record ''a'')) = ''a''"
    "ie_seq (demo_entry ''a'' RoleIntent (demo_intent_record ''a'')) = 0" by code_simp+
  have "lw_appends demo_world3 ''a'' = Some (demo_outcome_job, AppendDone (Inr (demo_line demo_outcome_record, None)))"
    by (simp add: demo_world3_def demo_world_def)
  from append_settles_claims [OF demo_run3 _ _ this demo_indexed e(1)] show ?thesis by (simp add: demo_separate e(2))
qed

lemma demo_formats: "index_key_text demo_index_key" "schema_hex 64 (lg_hmac demo_ledger k d s i)"
proof -
  have "schema_hex 64 (demo_digit CHR ''1'')" "schema_hex 64 (demo_digit CHR ''2'')" by code_simp+
  then show "schema_hex 64 (lg_hmac demo_ledger k d s i)" by (simp add: demo_ledger_def)
qed code_simp

lemma untampered_ledger_verifies_witness:
  "ledger_failure_at ''segment-torn'' ''a'' 1 \<in> set (lv_failures (verifyLedger demo_ledger plain_verification demo_torn_store))
   \<and> torn demo_torn_store ''a'' \<and> length (lines_of demo_torn_store ''a'') = 1"
proof -
  have f: "ledger_failure_at ''segment-torn'' ''a'' 1 \<in> set (lv_failures (verifyLedger demo_ledger plain_verification demo_torn_store))"
    by code_simp
  have "lines_of demo_torn_store = lines_of (demo_store [demo_intent_record ''a''] [])"
    by (simp add: demo_torn_store_def fun_eq_iff)
  then have small: "small_segments demo_torn_store"
    using demo_small [of "[demo_intent_record ''a'']" "[]"] by (simp add: small_segments_def)
  have "\<exists>w. torn demo_torn_store w \<and> ''a'' = w \<and> 1 = length (lines_of demo_torn_store w)"
    using untampered_ledger_verifies [OF demo_torn_run _ _ _ demo_formats(1) _ , of "ledger_failure_at ''segment-torn'' ''a'' 1"]
      f small demo_formats(2) demo_separate by (simp add: ledger_failure_at_def)
  then show ?thesis using f by auto
qed

definition demo_retention :: lifecycle_policy where
  "demo_retention = \<lparr>lp_version = DECISION_LIFECYCLE_VERSION,
     lp_surfaces = map (\<lambda>s. (s, \<lparr>lr_classification = ''internal'', lr_accessScopes = [''team''], lr_retentionMs = 5,
       lr_export = ''denied'', lr_deletion = ''erase'', lr_backup = ''expire-with-primary''\<rparr>)) DECISION_LIFECYCLE_SURFACES\<rparr>"

definition demo_purged :: "(effect_error + purge_result) \<times> effect_store" where
  "demo_purged = purgeEffect demo_ledger demo_effect demo_retention False (demo_second CHR ''9'') (lw_store demo_world3)"

lemma demo_purge_result: "fst demo_purged = Inr \<lparr>pr_tombstoned = 2, pr_alreadyTombstoned = 0\<rparr>"
  by code_simp

lemma purged_effect_not_replayed_witness:
  "fst (recordIntent demo_ledger demo_intent (demo_second CHR ''1'') (demo_second CHR ''2'') (snd demo_purged))
     = Inr (receiptFromEntry (demo_entry ''a'' RoleIntent (demo_intent_record ''a'')) AiwgEffectV1 True)
   \<and> fst demo_purged = Inr \<lparr>pr_tombstoned = 2, pr_alreadyTombstoned = 0\<rparr>"
proof -
  let ?e = "demo_entry ''a'' RoleIntent (demo_intent_record ''a'')"
  have k: "fs_indexKey (lw_store demo_world3) = Some demo_index_key" by (simp add: demo_world3_def demo_world_def)
  have d: "assertPayloadDigest (ri_payloadDigest demo_intent) = Inr ()" "ie_payloadDigest ?e = ri_payloadDigest demo_intent"
    "opt_default (ri_derivation demo_intent) (defaultDerivationFor (ri_kind demo_intent)) = AiwgEffectV1" by code_simp+
  have e: "readIndexEntry (lw_store demo_world3) (indexName (lg_hmac demo_ledger) demo_index_key (lg_scope demo_ledger) demo_effect RoleIntent)
      = Inr (Some ?e)"
    by (simp add: readIndexEntry_def demo_world3_def demo_world_def demo_entry_reads demo_name_def)
  have i: "intent_id demo_ledger demo_intent = Inr demo_effect" using demo_effect_id by (simp add: intent_id_def)
  show ?thesis
    using purged_effect_not_replayed [OF k demo_formats(1) i d(1) e demo_purged_def [symmetric, THEN trans, OF surjective_pairing]]
      d demo_purge_result by simp
qed

definition demo_checkpoint :: effect_checkpoint where
  "demo_checkpoint = next_checkpoint demo_ledger demo_genesis (demo_key CHR ''a'') (demo_second CHR ''3'')
     (checkpoint_writers (readAllSegments demo_ledger_env (lw_store demo_world2))) None"

definition demo_anchored :: verify_options where
  "demo_anchored = \<lparr>vy_sink = SinkLatest (Some demo_checkpoint), vy_checkIndex = True, vy_trustedKeyids = None\<rparr>"

definition demo_segment :: "effect_predicate list \<Rightarrow> read_segment" where
  "demo_segment ps = \<lparr>rs_writer = ''a'', rs_torn = False, rs_lines = map (Inr \<circ> demo_line) ps\<rparr>"

lemma demo_verified:
  "lv_failures (verifyLedger demo_ledger plain_verification (lw_store demo_world2)) = []"
  "lv_failures (verifyLedger demo_ledger demo_anchored (lw_store demo_world3)) = []"
  by code_simp+

lemma demo_segments:
  "readAllSegments demo_ledger_env (lw_store demo_world2) = [demo_segment [demo_intent_record ''a'']]"
  "readAllSegments demo_ledger_env (lw_store demo_world3) = [demo_segment [demo_intent_record ''a'', demo_outcome_record]]"
  by code_simp+

lemma demo_live: "list_all live_read (rs_lines (demo_segment [demo_intent_record ''a'', demo_outcome_record]))"
  by code_simp

lemma history_is_anchored_witness:
  "\<exists>g' \<in> set (readAllSegments demo_ledger_env (lw_store demo_world3)).
     rs_writer g' = ''a'' \<and> map read_statement (take 1 (rs_lines g')) = [Some (demo_statement (demo_intent_record ''a''))]"
proof -
  let ?g = "demo_segment [demo_intent_record ''a'']" and ?h = "demo_segment [demo_intent_record ''a'', demo_outcome_record]"
  have "hashes_separate (sl_statement ` ({l. Inr l \<in> set (rs_lines ?g)}
      \<union> {l. \<exists>h \<in> set (readAllSegments (lg_env demo_ledger) (lw_store demo_world3)). Inr l \<in> set (rs_lines h)})) (lg_env demo_ledger)"
    unfolding hashes_separate_def demo_ledger_fields demo_segments
    by (rule inj_on_subset [OF demo_separate(1) [unfolded hashes_separate_def]]) (auto simp: demo_segment_def demo_signed)
  moreover have "cb_writers (cp_body demo_checkpoint) = checkpoint_writers (readAllSegments (lg_env demo_ledger) (lw_store demo_world2))"
    by (simp add: demo_checkpoint_def next_checkpoint_def Let_def)
  moreover have "fs_keyring (lw_store demo_world2) \<noteq> None" "fs_keyring (lw_store demo_world3) \<noteq> None"
    by (simp_all add: demo_world2_def demo_world3_def demo_world_def)
  moreover have "vy_sink demo_anchored = SinkLatest (Some demo_checkpoint)" by (simp add: demo_anchored_def)
  moreover have "?g \<in> set (readAllSegments (lg_env demo_ledger) (lw_store demo_world2))" "rs_lines ?g \<noteq> []"
    by (simp_all add: demo_segments) (simp add: demo_segment_def)
  ultimately obtain k where k: "k \<in> set (readAllSegments (lg_env demo_ledger) (lw_store demo_world3))" "rs_writer k = rs_writer ?g"
    "list_all live_read (rs_lines ?g) \<longrightarrow> list_all live_read (rs_lines k) \<longrightarrow>
       map read_statement (take (length (rs_lines ?g)) (rs_lines k)) = map read_statement (rs_lines ?g)"
    using history_is_anchored [OF demo_verified(1) _ _ _ demo_verified(2), where g = ?g and c = demo_checkpoint] by blast
  have "k = ?h" using k(1) by (simp add: demo_segments)
  moreover have "list_all live_read (rs_lines ?g)" using demo_live by (simp add: demo_segment_def)
  moreover have "rs_writer (demo_segment ps) = ''a''" "length (rs_lines (demo_segment [p])) = 1"
    "map read_statement (rs_lines (demo_segment [p])) = [Some (demo_statement p)]" for ps p
    by (simp_all add: demo_segment_def read_statement_def demo_line_def line_for_def)
  ultimately have "rs_writer k = ''a'' \<and> map read_statement (take 1 (rs_lines k)) = [Some (demo_statement (demo_intent_record ''a''))]"
    using k(2,3) demo_live by simp
  then show ?thesis using k(1) by (intro bexI [of _ k]) simp_all
qed

end
