(* ===== verification/Spec2Isabelle.thy ===== *)
theory Spec2Isabelle
  imports JsNumber JsonText Compose GateDecision GateInheritance JobGuarantees SchedulerGuarantees AdmissionDemo GraphBudgetGuarantees LifecycleSafety EffectIdSafety EffectDemo
begin

text \<open>
  A verification library for the decision core of AIWG (TypeScript, \<open>src/\<close> of the repository).
  The program decides: JSON documents are composed into outcomes by rulesets, gate packs turn
  observed metrics into a promotion decision, jobs carry decisions through attempts and revisions,
  and decision graphs plan and budget many decisions at once. The theories follow these parts; every
  definition names its source in the manifest beside this directory.

  Shared vocabulary. \<open>Prelude\<close>: results of fallible code as sums (\<open>bindR\<close>, \<open>checks\<close>: the first
  failing guard decides), JavaScript numbers, stable sorting, options. \<open>JsNumber\<close>: binary64 addition
  with rounding, which justifies reading checked amounts as integers. \<open>JsonValue\<close> and \<open>JsonText\<close>:
  JSON values, \<open>canonicalJson\<close> of \<open>security/artifact-trust.ts\<close> and \<open>structurallyEqual\<close> of
  \<open>decision/predicates.ts\<close>; equal canonical text is structural equality up to the sign of zero.

  Rulesets. \<open>Predicates\<close> (\<open>decision/predicates.ts\<close>): JSON pointers and Kleene's three-valued
  predicates, monotone in what has been decided. \<open>Compose\<close> (\<open>decision/compose.ts\<close>): every
  composition mode and conflict policy; a failed evaluation never yields another outcome than
  the failure outcome, and the order of declaration does not matter where \<open>localeCompare\<close> separates the
  ids of the rules.

  Gates. \<open>GateLattice\<close> (\<open>gates/lattice.ts\<close>, \<open>upstream-ceiling.ts\<close>), \<open>GateTypes\<close> (\<open>types.ts\<close>),
  \<open>GateValidation\<close> (\<open>pack-validation.ts\<close>), \<open>GateTightening\<close> (\<open>pack-tightening.ts\<close>),
  \<open>GateObservations\<close> (\<open>observations.ts\<close>), \<open>GateComposition\<close> (\<open>pack-composition.ts\<close>, \<open>floors.ts\<close>),
  \<open>GateRegistry\<close> (\<open>registry.ts\<close>) and \<open>GateEvaluate\<close> (\<open>evaluate.ts\<close>) are the models.
  \<open>GateSoundness\<close> shows what the tightening check is worth: an accepted pack passes only
  observations that the project floors pass; it also shows the two shapes of gates for which it
  is not. \<open>GateInheritance\<close> follows floor gates along \<open>extends\<close>; \<open>GateDecision\<close> is about a whole
  evaluation: a promotion is observed, within every ceiling, after the freeze.

  Jobs. \<open>JobContract\<close> (\<open>decision/job-contract.ts\<close> and its schema) models validation and the accepted
  revisions, \<open>JobInvariants\<close> and \<open>JobHistory\<close> what they guarantee along histories. \<open>JobStore\<close> holds the
  snapshot rules, the memory store and the locale \<open>job_store\<close>, the contract a runtime relies on;
  \<open>JobRuntime\<close> the operations of \<open>decision/job-runtime.ts\<close> over any store; \<open>JobLiveness\<close> extends the
  contract (locale \<open>responsive_store\<close>) and proves that the closing operations succeed. \<open>FileJobStore\<close>
  is the directory store of \<open>decision/job-store.ts\<close>, \<open>FileStoreContract\<close> interprets the contract on
  it and \<open>FileStoreConcurrency\<close> interleaves processes that share the directory, with crashes.
  \<open>JobGuarantees\<close> states the promises over the concrete stores.

  Scheduling. \<open>Scheduler\<close> (\<open>decision/scheduler.ts\<close>, \<open>job-scheduler.ts\<close>) is the bounded fair scheduler: its
  closures are a record, and a run is a sequence of events (a worker settles, gives its permit back or
  wants it again), each followed by the pump. \<open>SchedulerOrder\<close> shows that taking from the lanes is
  reading the rounds, \<open>SchedulerInvariant\<close> is what every event keeps, and \<open>SchedulerGuarantees\<close> has the
  order of the starts, the bound on the permits, the slots of the result and that a run ends. Workers
  themselves are not modelled: any sequence of events that they can produce is a run.

  Admission. \<open>Admission\<close> and \<open>AdmissionQueue\<close> (\<open>decision/admission.ts\<close>, \<open>DecisionAdmissionController\<close>):
  the private maps of the controller are a record, joined with the leases the callers hold and the
  requests refused; a run is a sequence of events (a request, a release, an abort, the timer, a
  \<open>Retry-After\<close>, the release of a budget), each with the environment it sees: the clock, which is read
  once, the aborted signals, the current limits, the registered principals and the rounding of
  floating-point results. Counts are exact, keys joined with NUL are pairs, a waiter is known by its
  request. The rounds of the pump end because each one that goes on has fewer waiters.
  \<open>AdmissionInvariant\<close> has the two interfaces that the accounts share, an invariant of the pump and an
  invariant of a run; \<open>AdmissionPermits\<close> (the counters are the leases), \<open>AdmissionGuarantees\<close> (the ceilings
  hold, reserved permits stay free) and \<open>AdmissionBudgets\<close> (no budget is exceeded, whatever the rounding)
  interpret them. \<open>AdmissionProgress\<close>: no request is lost and no head of a lane waits too long.
  \<open>AdmissionDemo\<close> has the witnesses and a lease that outlives a change of the breaker. The registry of
  controllers and its audit records are not modelled.

  Graphs. \<open>Graph\<close> (\<open>decision/graph.ts\<close> and its schema) checks, stages and batches a decision graph;
  \<open>GraphPlan\<close>, \<open>GraphTheorems\<close> and \<open>GraphOrder\<close> show that a planned graph is acyclic, reachable and
  completely staged, and that the plan does not depend on the order of its nodes and edges.
  \<open>GraphBudget\<close> (\<open>decision/graph-budget.ts\<close>) is the ledger of reservations; \<open>GraphBudgetSafety\<close> and
  \<open>GraphBudgetGuarantees\<close> bound what can be spent.

  Lifecycle of decision data. \<open>Lifecycle\<close> (\<open>decision/lifecycle.ts\<close>) plans deletions and erases subjects
  over a store of references; \<open>LifecycleJournal\<close> is the store of \<open>decision/file-lifecycle-store.ts\<close>, a
  journal replayed on every read, whose appends may fail or be cut off in the middle of their line;
  \<open>LifecycleSafety\<close> states the contract of the store (locale \<open>tombstone_store\<close>), interprets it on the
  journal and shows that erased content does not come back as long as no surface writes it again and
  restores are shown the tombstones of its subject, and that a cut line is the one way to lose the journal.

  Effects. \<open>EffectIdentity\<close> (\<open>effects/identity.ts\<close>, \<open>errors.ts\<close>) derives the ids of effects and
  \<open>EffectIdSafety\<close> shows that they identify; \<open>EffectTypes\<close> (\<open>effects/types.ts\<close>, \<open>schemas/effects\<close>) holds
  the documents of the signed ledger, \<open>EffectKeyring\<close> (\<open>effects/keyring.ts\<close>) its keys, and
  \<open>EffectKeyringSafety\<close> shows that one key signs at a time and what a rotation does to old signatures.
  \<open>EffectVerifiers\<close> (\<open>effects/verifiers/registry.ts\<close>) turns any answer of a verifier into a record that
  conforms. \<open>EffectStore\<close> (\<open>effects/store.ts\<close>, \<open>records.ts\<close>, \<open>reader.ts\<close>) holds the files and records of the
  ledger, \<open>EffectLedger\<close> the append of \<open>effects/ledger.ts\<close> as a machine (\<open>append_step\<close>) each of whose steps
  makes at most one write, \<open>EffectOperations\<close> the public operations, \<open>EffectPurge\<close> (\<open>effects/lifecycle.ts\<close>)
  retention and \<open>EffectVerify\<close> (\<open>effects/verify.ts\<close>, \<open>checkpoint.ts\<close>) the verification of a whole ledger and
  its checkpoints. \<open>EffectWorld\<close> lets writers that share a ledger interleave these steps, crash between
  them and in the middle of a line, create and rotate keys and purge; \<open>EffectInvariant\<close> is what all of it
  preserves, \<open>EffectSteps\<close> the proof. \<open>EffectGuarantees\<close>: the first record of an effect wins, interrupted
  appends are completed, and a ledger that nobody tampered with verifies, but for signatures outside
  the window of their key, which a rotation during an append produces, and the last line of a segment
  of which a crash left only a part. \<open>EffectEvidence\<close>: a checkpoint in the independent
  sink pins the records it anchors, except when everything is deleted; an append answers in eight
  steps; a purged effect is not recorded again. \<open>EffectDemo\<close> is a run of two writers that meets every
  hypothesis.

  Conventions. Strings are lists of 8-bit characters; the code units above are not modelled.
  Negative zero is a JSON value of its own (\<open>JNegZero\<close>); numbers that are only compared and added are
  rationals, infinities or NaN, with one zero. Objects are association lists in insertion order, without the prototype
  and without the reordering of integer-like keys. Comparisons of canonical text are comparisons of
  values, which \<open>JsonText\<close> justifies. Digests, schema admission, \<open>Date.parse\<close>, \<open>localeCompare\<close>, the
  text of numbers, statistical estimators and isolated provider processes are parameters: records of
  functions (\<open>graph_env\<close>, \<open>gate_environment\<close>, \<open>file_config\<close> and others) with the hypotheses a
  theorem needs stated in it and met by its witness. Effects are explicit state passing; files are
  maps from names to contents, written atomically, as the code writes them under a temporary name; the
  two files it appends to, the segments of the ledger and the lifecycle journal, may end in a part of a line.

  Assumptions on cryptography. The hashes of the statements that a run signs (the set \<open>S\<close> of \<open>ledger_step\<close>)
  are distinct, as are the fingerprints of keys in the format of the schema; a key's own signatures verify. No hypothesis says that
  signatures cannot be forged: the theorems on runs are about writers that follow the code.

  Bounds. Segments of the ledger stay below 2^53 lines, up to where their numbers are exact. The composition of packs follows \<open>extends\<close> with fuel, the number of registered packs: a
  registered pack extends only packs registered before it, so the fuel is never used up. The search
  of a graph is a total function with a measure over the nodes not yet reached.

  Not modelled: see the components of the manifest. Telemetry, temporary files and syncing are left
  out of the stores. The command line, servers, adapters and deployment code are I/O around
  libraries; the statistics of gates are floating-point estimators. Of the effects, the lock timeouts, permissions, clock
  errors, built-in verifiers, dispatch, hosts, key files, lock recovery and checkpoint sinks are left out.
\<close>

end
